(* ===== verification/Prelude.thy ===== *)
theory Prelude
  imports Main "HOL-Library.Multiset" "HOL-Library.List_Lexorder" "HOL-Library.Char_ord"
begin

text \<open>
  The prelude of the development: the Go error values the packages pass around, results of
  fallible functions as sums, association lists for Go maps whose iteration order matters, and
  the simplification collections the component theories add to.
\<close>

section \<open>Collections of facts\<close>

named_theorems go_simps "unfolding rules for the model's small operations"
named_theorems inv_intros "introduction rules for component invariants"

section \<open>Errors and results\<close>

text \<open>
  A Go error is compared by identity (\<open>errors.Is\<close>) and printed by \<open>Error()\<close>. The sentinel
  errors of the packages are constructors of their own; \<open>fmt.Errorf\<close> without \<open>%w\<close> is
  \<open>Errorf\<close>, with \<open>%w\<close> it is \<open>Wrapped\<close>, and \<open>processor.ProcessorError\<close> carries its code,
  message and optional cause.
\<close>

type_synonym bytes = string

datatype gerror =
    Errorf string
  | Wrapped string gerror
  | ErrBusClosed | ErrUnknownMessageType | ErrChannelFull | ErrUplinkStopped
  | ErrProcessorFailed | ErrInvalidPayload
  | ErrInvalidMessage | ErrEncodeFailed | ErrPublishFailed
  | ErrScriptNotFound | ErrScriptDisabled | ErrScriptExecuteFailed | ErrScriptTimeout
  | ErrInvalidInput | ErrCacheError | ErrDatabaseError | ErrInvalidDataType
  | RedisNil | RecordNotFound
  | ProcessorError string string "gerror option"

type_synonym 'a res = "gerror + 'a"

fun errors_is :: "gerror \<Rightarrow> gerror \<Rightarrow> bool" where
  "errors_is (Wrapped s e) t = (t = Wrapped s e \<or> errors_is e t)"
| "errors_is (ProcessorError c m (Some e)) t = (t = ProcessorError c m (Some e) \<or> errors_is e t)"
| "errors_is e t = (t = e)"

fun error_msg :: "gerror \<Rightarrow> string" where
  "error_msg (Errorf s) = s"
| "error_msg (Wrapped s e) = s @ error_msg e"
| "error_msg ErrBusClosed = ''bus is closed''"
| "error_msg ErrUnknownMessageType = ''unknown message type''"
| "error_msg ErrChannelFull = ''channel is full''"
| "error_msg ErrUplinkStopped = ''uplink is stopped''"
| "error_msg ErrProcessorFailed = ''processor failed''"
| "error_msg ErrInvalidPayload = ''invalid payload''"
| "error_msg ErrInvalidMessage = ''invalid message''"
| "error_msg ErrEncodeFailed = ''script encode failed''"
| "error_msg ErrPublishFailed = ''mqtt publish failed''"
| "error_msg ErrScriptNotFound = ''script not found''"
| "error_msg ErrScriptDisabled = ''script is disabled''"
| "error_msg ErrScriptExecuteFailed = ''script execution failed''"
| "error_msg ErrScriptTimeout = ''script execution timeout''"
| "error_msg ErrInvalidInput = ''invalid input parameters''"
| "error_msg ErrCacheError = ''cache operation failed''"
| "error_msg ErrDatabaseError = ''database query failed''"
| "error_msg ErrInvalidDataType = ''invalid data type''"
| "error_msg RedisNil = ''redis: nil''"
| "error_msg RecordNotFound = ''record not found''"
| "error_msg (ProcessorError c m None) = m"
| "error_msg (ProcessorError c m (Some e)) = m @ '': '' @ error_msg e"

text \<open>Text outside ASCII is written by its UTF-8 bytes.\<close>

definition utf8 :: "nat list \<Rightarrow> string" where
  "utf8 ns = map char_of ns"

section \<open>Results\<close>

definition is_ok :: "'a + 'b \<Rightarrow> bool" where
  "is_ok r \<longleftrightarrow> (case r of Inl _ \<Rightarrow> False | Inr _ \<Rightarrow> True)"

lemma is_ok_simps [simp]: "is_ok (Inr x)" "\<not> is_ok (Inl e)"
  by (simp_all add: is_ok_def)

section \<open>Go maps as association lists\<close>

text \<open>
  A Go map is modelled by a list of entries with distinct keys. Its iteration order is
  unspecified in Go; the model keeps the entries sorted by key, which is also the order in which
  \<open>encoding/json\<close> prints a map, and states what a loop does so that it does not depend on it.
\<close>

type_synonym 'a gmap = "(string \<times> 'a) list"

fun map_put :: "string \<Rightarrow> 'a \<Rightarrow> 'a gmap \<Rightarrow> 'a gmap" where
  "map_put k v [] = [(k, v)]"
| "map_put k v ((k', v') # m) =
     (if k = k' then (k, v) # m
      else if k < k' then (k, v) # (k', v') # m
      else (k', v') # map_put k v m)"

fun map_puts :: "(string \<times> 'a) list \<Rightarrow> 'a gmap \<Rightarrow> 'a gmap" where
  "map_puts [] m = m"
| "map_puts ((k, v) # kvs) m = map_puts kvs (map_put k v m)"

definition keys_of :: "(string \<times> 'a) list \<Rightarrow> string list" where
  "keys_of m = map fst m"

definition sorted_map :: "'a gmap \<Rightarrow> bool" where
  "sorted_map m \<longleftrightarrow> sorted_wrt (<) (keys_of m)"

lemma map_of_map_put [simp]: "map_of (map_put k v m) = (map_of m)(k \<mapsto> v)"
  by (induction k v m rule: map_put.induct) (auto simp: fun_eq_iff)

lemma set_keys_map_put [simp]: "fst ` set (map_put k v m) = insert k (fst ` set m)"
  by (induction k v m rule: map_put.induct) auto

lemma sorted_map_simps [simp]:
  "sorted_map []"
  "sorted_map ((k, v) # m) \<longleftrightarrow> (\<forall>k' \<in> fst ` set m. k < k') \<and> sorted_map m"
  by (auto simp: sorted_map_def keys_of_def)

lemma sorted_map_put [simp, intro]: "sorted_map m \<Longrightarrow> sorted_map (map_put k v m)"
proof (induction k v m rule: map_put.induct)
  case (1 k v)
  then show ?case by simp
next
  case (2 k v k' v' m)
  then show ?case by (auto intro: less_trans)
qed

lemma sorted_map_puts [simp, intro]: "sorted_map m \<Longrightarrow> sorted_map (map_puts kvs m)"
  by (induction kvs m rule: map_puts.induct) auto

lemma sorted_map_distinct: "sorted_map m \<Longrightarrow> distinct (map fst m)"
  by (induction m) fastforce+

lemma map_of_map_puts: "map_of (map_puts kvs m) = map_of m ++ map_of (rev kvs)"
  by (induction kvs m rule: map_puts.induct) (auto simp: map_add_def fun_eq_iff split: option.splits)

lemma map_put_last: "sorted_map m \<Longrightarrow> \<forall>k' \<in> fst ` set m. k' < k \<Longrightarrow> map_put k v m = m @ [(k, v)]"
  by (induction m) auto

lemma map_puts_append_sorted:
  "sorted_map (m @ kvs) \<Longrightarrow> map_puts kvs m = m @ kvs"
proof (induction kvs arbitrary: m)
  case Nil
  then show ?case by simp
next
  case (Cons kv kvs)
  obtain k v where kv: "kv = (k, v)" by force
  from Cons.prems have s: "sorted_map ((m @ [(k, v)]) @ kvs)" by (simp add: kv)
  have "sorted_map m" "\<forall>k' \<in> fst ` set m. k' < k"
    using Cons.prems by (auto simp: kv sorted_map_def keys_of_def sorted_wrt_append)
  then have "map_put k v m = m @ [(k, v)]" by (rule map_put_last)
  with Cons.IH [OF s] show ?case by (simp add: kv)
qed

lemma map_puts_sorted [simp]: "sorted_map m \<Longrightarrow> map_puts m [] = m"
  using map_puts_append_sorted [of "[]" m] by simp

section \<open>Lists\<close>

lemma find_Some_iff_mem: "find P xs = Some x \<Longrightarrow> x \<in> set xs \<and> P x"
  by (induction xs) (auto split: if_splits)

lemma find_None_iff_all: "find P xs = None \<longleftrightarrow> (\<forall>x \<in> set xs. \<not> P x)"
  by (induction xs) auto

lemma foldl_append_step:
  "(\<And>s x. out (f s x) = out s @ g x) \<Longrightarrow> out (foldl f s xs) = out s @ concat (map g xs)"
  by (induction xs arbitrary: s) auto

section \<open>Loops that may panic\<close>

text \<open>A Go loop over a slice or map whose body may panic (\<open>None\<close>).\<close>

fun each :: "('a \<Rightarrow> 's \<Rightarrow> 's option) \<Rightarrow> 'a list \<Rightarrow> 's \<Rightarrow> 's option" where
  "each f [] s = Some s"
| "each f (x # xs) s = Option.bind (f x s) (each f xs)"

lemma each_cong [fundef_cong]:
  "xs = ys \<Longrightarrow> s = t \<Longrightarrow> (\<And>x u. x \<in> set ys \<Longrightarrow> f x u = g x u) \<Longrightarrow> each f xs s = each g ys t"
proof (induction xs arbitrary: ys s t)
  case (Cons x xs)
  then show ?case by (cases "g x t") auto
qed simp

lemma each_append: "each f (xs @ ys) s = Option.bind (each f xs s) (each f ys)"
  by (induction xs arbitrary: s) (auto split: Option.bind_splits)

lemma each_total:
  "(\<And>x u. x \<in> set xs \<Longrightarrow> f x u = Some (g x u)) \<Longrightarrow> each f xs s = Some (fold g xs s)"
  by (induction xs arbitrary: s) auto

text \<open>Output accumulates along a loop whose body appends to it and keeps an invariant.\<close>

lemma each_output:
  assumes "\<And>x u. x \<in> set xs \<Longrightarrow> I u \<Longrightarrow> \<exists>v. f x u = Some v \<and> I v \<and> out v = out u @ g x"
    and "I s"
  shows "\<exists>v. each f xs s = Some v \<and> I v \<and> out v = out s @ concat (map g xs)"
  using assms
proof (induction xs arbitrary: s)
  case (Cons x xs)
  obtain v where v: "f x s = Some v" "I v" "out v = out s @ g x"
    using Cons.prems by (meson list.set_intros(1))
  obtain u where "each f xs v = Some u" "I u" "out u = out v @ concat (map g xs)"
    using Cons.IH [OF _ v(2)] Cons.prems(1) by (meson list.set_intros(2))
  with v show ?case by auto
qed simp

end
