(* ===== verification/Json.thy ===== *)
theory Json
  imports GoText
begin

text \<open>
  The part of \<open>encoding/json\<close> the program uses: a scanner and a shift-reduce parser, both by
  structural recursion on the input, the canonical value \<open>Unmarshal\<close> stores in an
  \<open>interface{}\<close>, and the printer \<open>Marshal\<close> with its escapes. A number is kept as its literal,
  which stands for the \<open>float64\<close> Go stores; the rounding and re-formatting of floats, the
  replacement of invalid UTF-8 and the nesting limit of Go are not modelled.
\<close>

section \<open>Values\<close>

datatype json =
    JNull
  | JBool bool
  | JNum string
  | JStr string
  | JArr "json list"
  | JObj "(string \<times> json) list"

text \<open>The value stored in an \<open>interface{}\<close>: every object becomes a map, its last entry winning.\<close>

primrec jnorm :: "json \<Rightarrow> json" where
  "jnorm JNull = JNull"
| "jnorm (JBool b) = JBool b"
| "jnorm (JNum s) = JNum s"
| "jnorm (JStr s) = JStr s"
| "jnorm (JArr xs) = JArr (map jnorm xs)"
| "jnorm (JObj kvs) = JObj (map_puts (map (map_prod id jnorm) kvs) [])"

section \<open>Numbers\<close>

definition num_char :: "char \<Rightarrow> bool" where
  "num_char c = (is_digit c \<or> c \<in> {CHR ''-'', CHR ''+'', CHR ''.'', CHR ''e'', CHR ''E''})"

definition valid_exp :: "string \<Rightarrow> bool" where
  "valid_exp r = (case r of [] \<Rightarrow> True
     | c # s \<Rightarrow> c \<in> {CHR ''e'', CHR ''E''} \<and>
        (let d = (case s of [] \<Rightarrow> [] | x # t \<Rightarrow> if x \<in> {CHR ''-'', CHR ''+''} then t else s)
         in d \<noteq> [] \<and> list_all is_digit d))"

definition valid_frac :: "string \<Rightarrow> bool" where
  "valid_frac r = (case r of [] \<Rightarrow> True
     | c # s \<Rightarrow> if c = CHR ''.'' then takeWhile is_digit s \<noteq> [] \<and> valid_exp (dropWhile is_digit s)
                else valid_exp r)"

definition valid_num :: "string \<Rightarrow> bool" where
  "valid_num s = (list_all num_char s \<and>
     (let u = (case s of [] \<Rightarrow> [] | c # t \<Rightarrow> if c = CHR ''-'' then t else s);
          d = takeWhile is_digit u
      in d \<noteq> [] \<and> (length d = 1 \<or> hd d \<noteq> CHR ''0'') \<and> valid_frac (dropWhile is_digit u)))"

section \<open>The scanner\<close>

datatype tok = TLBrace | TRBrace | TLBrack | TRBrack | TColon | TComma
  | TStr string | TNum string | TTrue | TFalse | TNull

datatype lstate = LIdle | LStr string | LEsc string | LHex string "nat list"
  | LHi string nat | LHiEsc string nat | LHiHex string nat "nat list"
  | LNum string | LWord string

definition hex_val :: "char \<Rightarrow> nat option" where
  "hex_val c = (let n = of_char c in
     if 48 \<le> n \<and> n \<le> 57 then Some (n - 48)
     else if 97 \<le> n \<and> n \<le> 102 then Some (n - 87)
     else if 65 \<le> n \<and> n \<le> (70::nat) then Some (n - 55) else None)"

text \<open>The UTF-8 bytes of a code point, in reverse, and U+FFFD.\<close>

definition utf8_rev :: "nat \<Rightarrow> string" where
  "utf8_rev n =
     (if n < 128 then [char_of n]
      else if n < 2048 then [char_of (128 + n mod 64), char_of (192 + n div 64)]
      else if n < 65536 then
        [char_of (128 + n mod 64), char_of (128 + n div 64 mod 64), char_of (224 + n div 4096)]
      else [char_of (128 + n mod 64), char_of (128 + n div 64 mod 64),
            char_of (128 + n div 4096 mod 64), char_of (240 + n div 262144)])"

abbreviation "replacement_rev \<equiv> utf8_rev 65533"

text \<open>A code unit: a high surrogate waits for its low one, a lone surrogate is replaced.\<close>

definition lunit :: "string \<Rightarrow> nat \<Rightarrow> lstate" where
  "lunit acc n =
     (if 55296 \<le> n \<and> n < 56320 then LHi acc n
      else if 56320 \<le> n \<and> n < 57344 then LStr (replacement_rev @ acc)
      else LStr (utf8_rev n @ acc))"

definition lpair :: "string \<Rightarrow> nat \<Rightarrow> nat \<Rightarrow> lstate" where
  "lpair acc hi lo =
     (if 56320 \<le> lo \<and> lo < 57344
      then LStr (utf8_rev (65536 + (hi - 55296) * 1024 + (lo - 56320)) @ acc)
      else lunit (replacement_rev @ acc) lo)"

definition esc_char :: "char \<Rightarrow> char option" where
  "esc_char c =
     (if c = CHR 0x22 then Some (CHR 0x22) else if c = CHR 0x5C then Some (CHR 0x5C)
      else if c = CHR ''/'' then Some (CHR ''/'') else if c = CHR ''b'' then Some (CHR 0x08)
      else if c = CHR ''f'' then Some (CHR 0x0C) else if c = CHR ''n'' then Some (CHR 0x0A)
      else if c = CHR ''r'' then Some (CHR 0x0D) else if c = CHR ''t'' then Some (CHR 0x09)
      else None)"

definition word_char :: "char \<Rightarrow> bool" where
  "word_char c = (let n = of_char c in 97 \<le> n \<and> n \<le> (122::nat))"

definition word_tok :: "string \<Rightarrow> tok option" where
  "word_tok w = (if w = ''true'' then Some TTrue else if w = ''false'' then Some TFalse
     else if w = ''null'' then Some TNull else None)"

definition lidle :: "char \<Rightarrow> (tok list \<times> lstate) option" where
  "lidle c =
     (if c \<in> {CHR '' '', CHR 0x09, CHR 0x0A, CHR 0x0D} then Some ([], LIdle)
      else if c = CHR ''{'' then Some ([TLBrace], LIdle)
      else if c = CHR ''}'' then Some ([TRBrace], LIdle)
      else if c = CHR ''['' then Some ([TLBrack], LIdle)
      else if c = CHR '']'' then Some ([TRBrack], LIdle)
      else if c = CHR '':'' then Some ([TColon], LIdle)
      else if c = CHR '','' then Some ([TComma], LIdle)
      else if c = CHR 0x22 then Some ([], LStr [])
      else if is_digit c \<or> c = CHR ''-'' then Some ([], LNum [c])
      else if word_char c then Some ([], LWord [c]) else None)"

definition lstr :: "string \<Rightarrow> char \<Rightarrow> (tok list \<times> lstate) option" where
  "lstr acc c =
     (if c = CHR 0x22 then Some ([TStr (rev acc)], LIdle)
      else if c = CHR 0x5C then Some ([], LEsc acc)
      else if (of_char c :: nat) < 32 then None else Some ([], LStr (c # acc)))"

definition lesc :: "string \<Rightarrow> char \<Rightarrow> (tok list \<times> lstate) option" where
  "lesc acc c =
     (if c = CHR ''u'' then Some ([], LHex acc [])
      else map_option (\<lambda>d. ([], LStr (d # acc))) (esc_char c))"

fun lstep :: "lstate \<Rightarrow> char \<Rightarrow> (tok list \<times> lstate) option" where
  "lstep LIdle c = lidle c"
| "lstep (LStr acc) c = lstr acc c"
| "lstep (LEsc acc) c = lesc acc c"
| "lstep (LHex acc ds) c = (case hex_val c of None \<Rightarrow> None | Some h \<Rightarrow>
     Some ([], if length ds = 3 then lunit acc (foldl (\<lambda>a d. 16 * a + d) 0 (ds @ [h]))
               else LHex acc (ds @ [h])))"
| "lstep (LHi acc hi) c =
     (if c = CHR 0x5C then Some ([], LHiEsc acc hi) else lstr (replacement_rev @ acc) c)"
| "lstep (LHiEsc acc hi) c =
     (if c = CHR ''u'' then Some ([], LHiHex acc hi []) else lesc (replacement_rev @ acc) c)"
| "lstep (LHiHex acc hi ds) c = (case hex_val c of None \<Rightarrow> None | Some h \<Rightarrow>
     Some ([], if length ds = 3 then lpair acc hi (foldl (\<lambda>a d. 16 * a + d) 0 (ds @ [h]))
               else LHiHex acc hi (ds @ [h])))"
| "lstep (LNum acc) c =
     (if num_char c then Some ([], LNum (c # acc))
      else if valid_num (rev acc) then map_option (\<lambda>(ts, s). (TNum (rev acc) # ts, s)) (lidle c) else None)"
| "lstep (LWord acc) c =
     (if word_char c then Some ([], LWord (c # acc))
      else case word_tok (rev acc) of None \<Rightarrow> None
        | Some t \<Rightarrow> map_option (\<lambda>(ts, s). (t # ts, s)) (lidle c))"

fun lfin :: "lstate \<Rightarrow> tok list option" where
  "lfin LIdle = Some []"
| "lfin (LNum acc) = (if valid_num (rev acc) then Some [TNum (rev acc)] else None)"
| "lfin (LWord acc) = map_option (\<lambda>t. [t]) (word_tok (rev acc))"
| "lfin _ = None"

fun jlex :: "lstate \<Rightarrow> string \<Rightarrow> tok list option" where
  "jlex s [] = lfin s"
| "jlex s (c # cs) = (case lstep s c of None \<Rightarrow> None
     | Some (ts, s') \<Rightarrow> map_option ((@) ts) (jlex s' cs))"

section \<open>The parser\<close>

datatype frame = FArr "json list" | FObj "(string \<times> json) list" string

datatype pmode = PVal | PArr0 | PObj0 | PKey | PColon | PAfter | PDone json

type_synonym pstate = "frame list \<times> pmode"

fun put_value :: "json \<Rightarrow> frame list \<Rightarrow> pstate" where
  "put_value v [] = ([], PDone v)"
| "put_value v (FArr vs # st) = (FArr (v # vs) # st, PAfter)"
| "put_value v (FObj kvs k # st) = (FObj ((k, v) # kvs) [] # st, PAfter)"

fun pvalue :: "frame list \<Rightarrow> tok \<Rightarrow> pstate option" where
  "pvalue st TLBrace = Some (FObj [] [] # st, PObj0)"
| "pvalue st TLBrack = Some (FArr [] # st, PArr0)"
| "pvalue st (TStr s) = Some (put_value (JStr s) st)"
| "pvalue st (TNum s) = Some (put_value (JNum s) st)"
| "pvalue st TTrue = Some (put_value (JBool True) st)"
| "pvalue st TFalse = Some (put_value (JBool False) st)"
| "pvalue st TNull = Some (put_value JNull st)"
| "pvalue st _ = None"

fun pkey :: "frame list \<Rightarrow> tok \<Rightarrow> pstate option" where
  "pkey (FObj kvs _ # st) (TStr k) = Some (FObj kvs k # st, PColon)"
| "pkey _ _ = None"

fun pstep :: "pstate \<Rightarrow> tok \<Rightarrow> pstate option" where
  "pstep (st, PVal) t = pvalue st t"
| "pstep (FArr vs # st, PArr0) t =
     (if t = TRBrack then Some (put_value (JArr (rev vs)) st) else pvalue (FArr vs # st) t)"
| "pstep (FObj kvs k # st, PObj0) t =
     (if t = TRBrace then Some (put_value (JObj (rev kvs)) st) else pkey (FObj kvs k # st) t)"
| "pstep (st, PKey) t = pkey st t"
| "pstep (st, PColon) t = (if t = TColon then Some (st, PVal) else None)"
| "pstep (FArr vs # st, PAfter) t =
     (if t = TComma then Some (FArr vs # st, PVal)
      else if t = TRBrack then Some (put_value (JArr (rev vs)) st) else None)"
| "pstep (FObj kvs k # st, PAfter) t =
     (if t = TComma then Some (FObj kvs k # st, PKey)
      else if t = TRBrace then Some (put_value (JObj (rev kvs)) st) else None)"
| "pstep _ _ = None"

fun prun :: "pstate \<Rightarrow> tok list \<Rightarrow> pstate option" where
  "prun s [] = Some s"
| "prun s (t # ts) = (case pstep s t of None \<Rightarrow> None | Some s' \<Rightarrow> prun s' ts)"

definition json_parse :: "string \<Rightarrow> json option" where
  "json_parse s = (case jlex LIdle s of None \<Rightarrow> None
     | Some ts \<Rightarrow> (case prun ([], PVal) ts of Some ([], PDone v) \<Rightarrow> Some v | _ \<Rightarrow> None))"

text \<open>\<open>json.Unmarshal\<close> into an \<open>interface{}\<close>, and \<open>json.Valid\<close>.\<close>

definition json_value :: "string \<Rightarrow> json option" where
  "json_value s = map_option jnorm (json_parse s)"

section \<open>The printer\<close>

definition hex_digit :: "nat \<Rightarrow> char" where
  "hex_digit n = char_of (if n < 10 then 48 + n else 87 + n)"

definition print_char :: "char \<Rightarrow> string" where
  "print_char c =
     (if c = CHR 0x22 then [CHR 0x5C, CHR 0x22] else if c = CHR 0x5C then [CHR 0x5C, CHR 0x5C]
      else if c = CHR 0x0A then [CHR 0x5C, CHR ''n''] else if c = CHR 0x0D then [CHR 0x5C, CHR ''r'']
      else if c = CHR 0x09 then [CHR 0x5C, CHR ''t''] else if c = CHR 0x08 then [CHR 0x5C, CHR ''b'']
      else if c = CHR 0x0C then [CHR 0x5C, CHR ''f'']
      else if (of_char c :: nat) < 32 \<or> c \<in> {CHR ''<'', CHR ''>'', CHR ''&''}
      then [CHR 0x5C, CHR ''u'', CHR ''0'', CHR ''0'', hex_digit (of_char c div 16), hex_digit (of_char c mod 16)]
      else [c])"

definition print_str :: "string \<Rightarrow> string" where
  "print_str s = CHR 0x22 # concat (map print_char s) @ [CHR 0x22]"

primrec json_print :: "json \<Rightarrow> string" where
  "json_print JNull = ''null''"
| "json_print (JBool b) = (if b then ''true'' else ''false'')"
| "json_print (JNum s) = s"
| "json_print (JStr s) = print_str s"
| "json_print (JArr xs) = ''['' @ join_with '','' (map json_print xs) @ '']''"
| "json_print (JObj kvs) =
     ''{'' @ join_with '','' (map (\<lambda>(k, v). print_str k @ '':'' @ v) (map (map_prod id json_print) kvs)) @ ''}''"

definition json_int :: "int \<Rightarrow> json" where
  "json_int i = JNum (show_int i)"

section \<open>Printing and parsing are inverse\<close>

text \<open>A value Go can print: its numbers are literals of the grammar. A canonical value is what
  \<open>Unmarshal\<close> stores: every object is a map, sorted by key.\<close>

primrec wf_json :: "json \<Rightarrow> bool" where
  "wf_json JNull = True"
| "wf_json (JBool b) = True"
| "wf_json (JNum s) = valid_num s"
| "wf_json (JStr s) = True"
| "wf_json (JArr xs) = list_all (\<lambda>b. b) (map wf_json xs)"
| "wf_json (JObj kvs) = list_all snd (map (map_prod id wf_json) kvs)"

primrec canon_json :: "json \<Rightarrow> bool" where
  "canon_json JNull = True"
| "canon_json (JBool b) = True"
| "canon_json (JNum s) = True"
| "canon_json (JStr s) = True"
| "canon_json (JArr xs) = list_all (\<lambda>b. b) (map canon_json xs)"
| "canon_json (JObj kvs) = (sorted_map kvs \<and> list_all snd (map (map_prod id canon_json) kvs))"

fun sep_toks :: "tok list list \<Rightarrow> tok list" where
  "sep_toks [] = []"
| "sep_toks [x] = x"
| "sep_toks (x # y # r) = x @ TComma # sep_toks (y # r)"

primrec jtoks :: "json \<Rightarrow> tok list" where
  "jtoks JNull = [TNull]"
| "jtoks (JBool b) = [if b then TTrue else TFalse]"
| "jtoks (JNum s) = [TNum s]"
| "jtoks (JStr s) = [TStr s]"
| "jtoks (JArr xs) = TLBrack # sep_toks (map jtoks xs) @ [TRBrack]"
| "jtoks (JObj kvs) =
     TLBrace # sep_toks (map (\<lambda>(k, t). TStr k # TColon # t) (map (map_prod id jtoks) kvs)) @ [TRBrace]"

definition delim :: "string \<Rightarrow> bool" where
  "delim r = (case r of [] \<Rightarrow> True | c # _ \<Rightarrow> c \<in> {CHR '','', CHR '']'', CHR ''}''})"

lemma option_append_assoc: "map_option ((@) a) (map_option ((@) b) x) = map_option ((@) (a @ b)) x"
  by (cases x) auto

lemma hex_val_zero [simp]: "hex_val (CHR ''0'') = Some 0"
  by (simp add: hex_val_def)

lemma hex_val_hex_digit: "n < 16 \<Longrightarrow> hex_val (hex_digit n) = Some n"
  by (auto simp: hex_val_def hex_digit_def Let_def)

lemma map_option_append_Nil [simp]: "map_option ((@) []) x = x"
  by (cases x) auto

lemma lex_print_char: "jlex (LStr acc) (print_char c @ r) = jlex (LStr (c # acc)) r"
proof (cases "c \<in> {CHR 0x22, CHR 0x5C, CHR 0x0A, CHR 0x0D, CHR 0x09, CHR 0x08, CHR 0x0C}")
  case True
  then show ?thesis by (auto simp: print_char_def lstr_def lesc_def esc_char_def)
next
  case False
  show ?thesis
  proof (cases "(of_char c :: nat) < 32 \<or> c \<in> {CHR ''<'', CHR ''>'', CHR ''&''}")
    case True
    then have n: "(of_char c :: nat) < 128" by auto
    have "lunit acc (of_char c) = LStr (c # acc)"
      using n by (simp add: lunit_def utf8_rev_def)
    with True False n show ?thesis
      by (simp add: print_char_def lstr_def lesc_def hex_val_hex_digit)
  next
    case 2: False
    with False show ?thesis by (simp add: print_char_def lstr_def)
  qed
qed

lemma lex_print_chars:
  "jlex (LStr acc) (concat (map print_char s) @ CHR 0x22 # r) =
     map_option ((@) [TStr (rev acc @ s)]) (jlex LIdle r)"
proof (induction s arbitrary: acc)
  case Nil
  then show ?case by (cases "jlex LIdle r") (simp_all add: lstr_def)
next
  case (Cons c s)
  have "jlex (LStr acc) (concat (map print_char (c # s)) @ CHR 0x22 # r) =
        jlex (LStr (c # acc)) (concat (map print_char s) @ CHR 0x22 # r)"
    by (simp add: lex_print_char)
  then show ?case using Cons by simp
qed

lemma lex_print_str [simp]:
  "jlex LIdle (print_str s @ r) = map_option ((@) [TStr s]) (jlex LIdle r)"
  using lex_print_chars [of "[]" s r] by (simp add: print_str_def lidle_def is_digit_def word_char_def)

lemma lex_num_run:
  "list_all num_char s \<Longrightarrow> jlex (LNum acc) (s @ r) = jlex (LNum (rev s @ acc)) r"
  by (induction s arbitrary: acc) auto

lemma valid_num_head: "valid_num s \<Longrightarrow> \<exists>c t. s = c # t \<and> (is_digit c \<or> c = CHR ''-'') \<and> list_all num_char t"
  by (cases s) (auto simp: valid_num_def Let_def split: if_splits)

lemma digit_not_punct:
  "is_digit c \<Longrightarrow> c \<notin> {CHR '' '', CHR 0x09, CHR 0x0A, CHR 0x0D, CHR ''{'', CHR ''}'', CHR ''['', CHR '']'',
     CHR '':'', CHR '','', CHR 0x22}"
  by (auto simp: is_digit_def)

lemma lidle_digit: "is_digit c \<or> c = CHR ''-'' \<Longrightarrow> lidle c = Some ([], LNum [c])"
  using digit_not_punct [of c] by (elim disjE) (simp_all add: lidle_def)

lemma delim_head:
  "delim (c # r) \<Longrightarrow> \<not> num_char c \<and> \<not> word_char c \<and> (\<exists>t. lidle c = Some ([t], LIdle))"
  by (simp add: delim_def, elim disjE) (simp_all add: num_char_def is_digit_def word_char_def lidle_def)

lemma lex_num_delim:
  "valid_num (rev a) \<Longrightarrow> delim r \<Longrightarrow> jlex (LNum a) r = map_option ((@) [TNum (rev a)]) (jlex LIdle r)"
proof (cases r)
  case (Cons c r')
  assume "valid_num (rev a)" "delim r"
  moreover obtain t where "\<not> num_char c" "lidle c = Some ([t], LIdle)"
    using delim_head \<open>delim r\<close> Cons by blast
  ultimately show ?thesis by (cases "jlex LIdle r'") (simp_all add: Cons)
qed simp

lemma lex_print_num:
  assumes "valid_num s" "delim r"
  shows "jlex LIdle (s @ r) = map_option ((@) [TNum s]) (jlex LIdle r)"
proof -
  obtain c t where s: "s = c # t" "is_digit c \<or> c = CHR ''-''" "list_all num_char t"
    using valid_num_head [OF assms(1)] by blast
  have "jlex LIdle (s @ r) = jlex (LNum (rev t @ [c])) r"
    using s by (simp add: lidle_digit lex_num_run)
  also have "\<dots> = map_option ((@) [TNum s]) (jlex LIdle r)"
    using lex_num_delim [of "rev t @ [c]" r] assms s(1) by simp
  finally show ?thesis .
qed

lemma lex_word_delim:
  "word_tok (rev a) = Some t \<Longrightarrow> delim r \<Longrightarrow> jlex (LWord a) r = map_option ((@) [t]) (jlex LIdle r)"
proof (cases r)
  case (Cons c r')
  assume "word_tok (rev a) = Some t" "delim r"
  moreover obtain u where "\<not> word_char c" "lidle c = Some ([u], LIdle)"
    using delim_head \<open>delim r\<close> Cons by blast
  ultimately show ?thesis by (cases "jlex LIdle r'") (simp_all add: Cons)
qed simp

definition lexes_to :: "string \<Rightarrow> tok list \<Rightarrow> bool" where
  "lexes_to s ts \<longleftrightarrow> (\<forall>r. delim r \<longrightarrow> jlex LIdle (s @ r) = map_option ((@) ts) (jlex LIdle r))"

lemma lexes_to_str: "lexes_to (print_str s) [TStr s]"
  by (simp add: lexes_to_def)

lemma lexes_to_punct:
  "jlex LIdle (CHR '','' # r) = map_option ((@) [TComma]) (jlex LIdle r)"
  "jlex LIdle (CHR '':'' # r) = map_option ((@) [TColon]) (jlex LIdle r)"
  "jlex LIdle (CHR ''['' # r) = map_option ((@) [TLBrack]) (jlex LIdle r)"
  "jlex LIdle (CHR '']'' # r) = map_option ((@) [TRBrack]) (jlex LIdle r)"
  "jlex LIdle (CHR ''{'' # r) = map_option ((@) [TLBrace]) (jlex LIdle r)"
  "jlex LIdle (CHR ''}'' # r) = map_option ((@) [TRBrace]) (jlex LIdle r)"
  by (simp_all add: lidle_def)

lemma delim_simps [simp]: "delim []" "delim (CHR '','' # r)" "delim (CHR '']'' # r)" "delim (CHR ''}'' # r)"
  by (simp_all add: delim_def)

lemma lexes_to_join:
  "list_all2 lexes_to ss tss \<Longrightarrow> lexes_to (join_with '','' ss) (sep_toks tss)"
proof (induction "'',''" ss arbitrary: tss rule: join_with.induct)
  case 1
  then show ?case by (simp add: lexes_to_def)
next
  case (2 x)
  then obtain t where "tss = [t]" "lexes_to x t" by (auto simp: list_all2_Cons1)
  then show ?case by simp
next
  case (3 x y xs)
  then obtain t u us where t: "tss = t # u # us" "lexes_to x t" "list_all2 lexes_to (y # xs) (u # us)"
    by (auto simp: list_all2_Cons1)
  have ih: "lexes_to (join_with '','' (y # xs)) (sep_toks (u # us))" using 3(1) t(3) by simp
  show ?case
    unfolding lexes_to_def
  proof (intro allI impI)
    fix r assume r: "delim r"
    have "jlex LIdle (join_with '','' (x # y # xs) @ r) =
          map_option ((@) t) (jlex LIdle (CHR '','' # join_with '','' (y # xs) @ r))"
      using t(2) by (simp add: lexes_to_def del: jlex.simps)
    also have "\<dots> = map_option ((@) t) (map_option ((@) [TComma])
        (map_option ((@) (sep_toks (u # us))) (jlex LIdle r)))"
      using ih r by (simp only: lexes_to_punct lexes_to_def)
    finally show "jlex LIdle (join_with '','' (x # y # xs) @ r) = map_option ((@) (sep_toks tss)) (jlex LIdle r)"
      by (simp add: t(1) option_append_assoc)
  qed
qed

lemma lexes_to_print: "wf_json j \<Longrightarrow> lexes_to (json_print j) (jtoks j)"
proof (induction j)
  case JNull
  have "word_tok ''null'' = Some TNull" by (simp add: word_tok_def)
  then show ?case
    by (simp add: lexes_to_def lidle_def is_digit_def word_char_def lex_word_delim)
next
  case (JBool b)
  have "word_tok ''true'' = Some TTrue" "word_tok ''false'' = Some TFalse" by (simp_all add: word_tok_def)
  then show ?case
    by (cases b) (simp_all add: lexes_to_def lidle_def is_digit_def word_char_def lex_word_delim)
next
  case (JNum s)
  then show ?case by (simp add: lexes_to_def lex_print_num)
next
  case (JStr s)
  then show ?case by (simp add: lexes_to_str)
next
  case (JArr xs)
  then have "list_all2 lexes_to (map json_print xs) (map jtoks xs)"
    by (auto simp: list_all2_conv_all_nth list_all_length)
  then have "lexes_to (join_with '','' (map json_print xs)) (sep_toks (map jtoks xs))"
    by (rule lexes_to_join)
  then show ?case
    by (simp add: lexes_to_def lexes_to_punct option_append_assoc del: jlex.simps)
next
  case (JObj kvs)
  have entry: "lexes_to (print_str k @ '':'' @ json_print v) (TStr k # TColon # jtoks v)"
    if "(k, v) \<in> set kvs" for k v
  proof -
    have "lexes_to (json_print v) (jtoks v)"
      using JObj that by (fastforce simp: list_all_iff)
    then show ?thesis
      by (simp add: lexes_to_def lexes_to_punct option_append_assoc del: jlex.simps)
  qed
  have "list_all2 lexes_to (map (\<lambda>(k, v). print_str k @ '':'' @ v) (map (map_prod id json_print) kvs))
      (map (\<lambda>(k, t). TStr k # TColon # t) (map (map_prod id jtoks) kvs))"
    using entry by (auto simp: list_all2_conv_all_nth split_beta)
  then have "lexes_to (join_with '','' (map (\<lambda>(k, v). print_str k @ '':'' @ v) (map (map_prod id json_print) kvs)))
      (sep_toks (map (\<lambda>(k, t). TStr k # TColon # t) (map (map_prod id jtoks) kvs)))"
    by (rule lexes_to_join)
  then show ?case
    by (simp add: lexes_to_def lexes_to_punct option_append_assoc del: jlex.simps)
qed

lemma prun_append: "prun s (ts @ us) = Option.bind (prun s ts) (\<lambda>s'. prun s' us)"
  by (induction ts arbitrary: s) (auto split: option.splits)

definition parses_to :: "tok list \<Rightarrow> json \<Rightarrow> bool" where
  "parses_to ts v \<longleftrightarrow> (\<forall>st us. prun (st, PVal) (ts @ us) = prun (put_value v st) us)"

lemma parses_toD: "parses_to ts v \<Longrightarrow> prun (st, PVal) (ts @ us) = prun (put_value v st) us"
  by (simp add: parses_to_def)

definition starts_value :: "tok list \<Rightarrow> bool" where
  "starts_value ts \<longleftrightarrow> (\<exists>t us. ts = t # us \<and> t \<noteq> TRBrack)"

lemma starts_value_jtoks: "starts_value (jtoks v)"
  by (cases v) (auto simp: starts_value_def)

lemma prun_array_rest:
  "list_all2 parses_to tss vs \<Longrightarrow> tss \<noteq> [] \<Longrightarrow>
   prun (FArr acc # st, PVal) (sep_toks tss @ TRBrack # us) = prun (put_value (JArr (rev acc @ vs)) st) us"
proof (induction tss arbitrary: vs acc rule: sep_toks.induct)
  case 1
  then show ?case by simp
next
  case (2 x)
  then obtain v where "vs = [v]" "parses_to x v" by (auto simp: list_all2_Cons1)
  then show ?case by (simp add: parses_to_def)
next
  case (3 x y r)
  then obtain v w ws where v: "vs = v # w # ws" "parses_to x v" "list_all2 parses_to (y # r) (w # ws)"
    by (auto simp: list_all2_Cons1)
  then show ?case using 3(1) [of "w # ws" "v # acc"] by (simp add: parses_toD [OF v(2)])
qed

lemma pstep_array_first: "t \<noteq> TRBrack \<Longrightarrow> pstep (FArr vs # st, PArr0) t = pstep (FArr vs # st, PVal) t"
  by simp

lemma starts_value_sep: "starts_value x \<Longrightarrow> starts_value (sep_toks (x # r) @ us)"
  by (cases r) (auto simp: starts_value_def)

lemma prun_array:
  assumes "list_all2 parses_to tss vs" "\<forall>ts \<in> set tss. starts_value ts"
  shows "parses_to (TLBrack # sep_toks tss @ [TRBrack]) (JArr vs)"
proof (cases tss)
  case Nil
  with assms(1) show ?thesis by (simp add: parses_to_def)
next
  case (Cons x r)
  show ?thesis
    unfolding parses_to_def
  proof (intro allI)
    fix st us
    have "starts_value (sep_toks tss @ TRBrack # us)"
      using assms(2) Cons by (auto intro: starts_value_sep)
    then have "prun (FArr [] # st, PArr0) (sep_toks tss @ TRBrack # us) =
               prun (FArr [] # st, PVal) (sep_toks tss @ TRBrack # us)"
      by (auto simp: starts_value_def)
    then show "prun (st, PVal) ((TLBrack # sep_toks tss @ [TRBrack]) @ us) = prun (put_value (JArr vs) st) us"
      using prun_array_rest [OF assms(1), of "[]"] Cons by simp
  qed
qed

definition entry_toks :: "string \<times> tok list \<Rightarrow> tok list" where
  "entry_toks e = (case e of (k, t) \<Rightarrow> TStr k # TColon # t)"

lemma prun_object_rest:
  "list_all2 (\<lambda>(k, t) (k', v). k = k' \<and> parses_to t v) es kvs \<Longrightarrow> es \<noteq> [] \<Longrightarrow>
   prun (FObj acc k0 # st, PKey) (sep_toks (map entry_toks es) @ TRBrace # us) =
     prun (put_value (JObj (rev acc @ kvs)) st) us"
proof (induction es arbitrary: kvs acc k0 rule: induct_list012)
  case 1
  then show ?case by simp
next
  case (2 x)
  obtain k t where "x = (k, t)" by force
  with 2 obtain v where "kvs = [(k, v)]" "parses_to t v" by (auto simp: list_all2_Cons1)
  with \<open>x = (k, t)\<close> show ?case by (simp add: parses_to_def entry_toks_def)
next
  case (3 x y r)
  obtain k t where x: "x = (k, t)" by force
  with 3 obtain v ws where v: "kvs = (k, v) # ws" "parses_to t v"
      "list_all2 (\<lambda>(k, t) (k', v). k = k' \<and> parses_to t v) (y # r) ws"
    by (auto simp: list_all2_Cons1)
  have "entry_toks x = TStr k # TColon # t" by (simp add: entry_toks_def x)
  then show ?case using 3(2) [OF v(3), of "(k, v) # acc" "[]"]
    by (simp add: parses_toD [OF v(2)] v(1))
qed

lemma prun_object:
  assumes "list_all2 (\<lambda>(k, t) (k', v). k = k' \<and> parses_to t v) es kvs"
  shows "parses_to (TLBrace # sep_toks (map entry_toks es) @ [TRBrace]) (JObj kvs)"
proof (cases es)
  case Nil
  with assms show ?thesis by (simp add: parses_to_def)
next
  case (Cons x r)
  obtain k t where x: "x = (k, t)" by force
  obtain ts where ts: "sep_toks (map entry_toks es) = TStr k # ts"
    by (cases r) (auto simp: Cons x entry_toks_def)
  show ?thesis
    unfolding parses_to_def
  proof (intro allI)
    fix st us
    have "es \<noteq> []" using Cons by simp
    from prun_object_rest [OF assms this, of "[]" "[]" st us]
    show "prun (st, PVal) ((TLBrace # sep_toks (map entry_toks es) @ [TRBrace]) @ us) =
        prun (put_value (JObj kvs) st) us"
      by (simp add: ts)
  qed
qed

lemma parses_to_jtoks: "parses_to (jtoks v) v"
proof (induction v)
  case (JArr xs)
  then have "list_all2 parses_to (map jtoks xs) xs"
    by (auto simp: list_all2_conv_all_nth)
  moreover have "\<forall>ts \<in> set (map jtoks xs). starts_value ts"
    by (auto simp: starts_value_jtoks)
  ultimately show ?case using prun_array by simp
next
  case (JObj kvs)
  have entry: "parses_to (jtoks v) v" if "(k, v) \<in> set kvs" for k v
    using JObj that by fastforce
  have "list_all2 (\<lambda>(k, t) (k', v). k = k' \<and> parses_to t v) (map (map_prod id jtoks) kvs) kvs"
    using entry by (auto simp: list_all2_map1 intro!: list.rel_refl_strong)
  from prun_object [OF this] show ?case by (simp add: entry_toks_def [abs_def])
qed (simp_all add: parses_to_def)

theorem json_parse_print: "wf_json j \<Longrightarrow> json_parse (json_print j) = Some j"
proof -
  assume "wf_json j"
  then have "jlex LIdle (json_print j) = Some (jtoks j)"
    using lexes_to_print [of j] by (force simp: lexes_to_def dest: spec [of _ "[]"])
  moreover have "prun ([], PVal) (jtoks j) = Some ([], PDone j)"
    using parses_to_jtoks [of j] by (force simp: parses_to_def dest: spec [of _ "[]"])
  ultimately show ?thesis by (simp add: json_parse_def)
qed

lemma jnorm_canon [simp]: "canon_json j \<Longrightarrow> jnorm j = j"
proof (induction j)
  case (JArr xs)
  then show ?case by (simp add: list_all_iff map_idI)
next
  case (JObj kvs)
  have "jnorm v = v" if "(k, v) \<in> set kvs" for k v
    using JObj that by (fastforce simp: list_all_iff)
  then have "map (map_prod id jnorm) kvs = kvs" by (auto intro!: map_idI)
  with JObj show ?case by simp
qed simp_all

theorem json_value_print: "wf_json j \<Longrightarrow> canon_json j \<Longrightarrow> json_value (json_print j) = Some j"
  by (simp add: json_value_def json_parse_print)

subsection \<open>What \<open>Unmarshal\<close> stores is canonical\<close>

lemma set_map_put: "set (map_put k v m) \<subseteq> insert (k, v) (set m)"
  by (induction k v m rule: map_put.induct) auto

lemma set_map_puts: "set (map_puts kvs m) \<subseteq> set kvs \<union> set m"
  by (induction kvs m rule: map_puts.induct) (use set_map_put in fastforce)+

lemma canon_jnorm [simp]: "canon_json (jnorm j)"
proof (induction j)
  case (JObj kvs)
  have "canon_json v" if "(k, v) \<in> set (map_puts (map (map_prod id jnorm) kvs) [])" for k v
    using JObj that set_map_puts [of "map (map_prod id jnorm) kvs" "[]"] by fastforce
  then show ?case by (auto simp: list_all_iff)
qed (simp_all add: list_all_iff)

lemma wf_jnorm: "wf_json j \<Longrightarrow> wf_json (jnorm j)"
proof (induction j)
  case (JObj kvs)
  have "wf_json v" if "(k, v) \<in> set (map_puts (map (map_prod id jnorm) kvs) [])" for k v
    using JObj that set_map_puts [of "map (map_prod id jnorm) kvs" "[]"]
    by (fastforce simp: list_all_iff)
  then show ?case by (auto simp: list_all_iff)
qed (simp_all add: list_all_iff)

subsection \<open>What the parser accepts is well-formed\<close>

definition wf_tok :: "tok \<Rightarrow> bool" where
  "wf_tok t \<longleftrightarrow> (\<forall>n. t = TNum n \<longrightarrow> valid_num n)"

definition wf_frame :: "frame \<Rightarrow> bool" where
  "wf_frame f = (case f of FArr vs \<Rightarrow> list_all wf_json vs | FObj kvs _ \<Rightarrow> list_all (\<lambda>(k, v). wf_json v) kvs)"

definition wf_pstate :: "pstate \<Rightarrow> bool" where
  "wf_pstate s \<longleftrightarrow> list_all wf_frame (fst s) \<and> (\<forall>v. snd s = PDone v \<longrightarrow> wf_json v)"

lemma wf_tok_simps [simp]:
  "wf_tok TLBrace" "wf_tok TRBrace" "wf_tok TLBrack" "wf_tok TRBrack" "wf_tok TColon" "wf_tok TComma"
  "wf_tok (TStr s)" "wf_tok TTrue" "wf_tok TFalse" "wf_tok TNull" "wf_tok (TNum n) = valid_num n"
  by (simp_all add: wf_tok_def)

lemma wf_lidle: "lidle c = Some (ts, s') \<Longrightarrow> list_all wf_tok ts"
  by (simp only: lidle_def split: if_split_asm) auto

lemma wf_lstr: "lstr acc c = Some (ts, s') \<Longrightarrow> list_all wf_tok ts"
  by (simp only: lstr_def split: if_split_asm) auto

lemma wf_lesc: "lesc acc c = Some (ts, s') \<Longrightarrow> list_all wf_tok ts"
  by (simp only: lesc_def split: if_split_asm) auto

lemma wf_word_tok: "word_tok w = Some t \<Longrightarrow> wf_tok t"
  by (simp only: word_tok_def split: if_split_asm) auto

lemma wf_lstep: "lstep s c = Some (ts, s') \<Longrightarrow> list_all wf_tok ts"
  by (induction s c rule: lstep.induct)
    (auto dest: wf_lidle wf_lstr wf_lesc wf_word_tok split: if_split_asm option.split_asm)

lemma wf_lfin: "lfin s = Some ts \<Longrightarrow> list_all wf_tok ts"
  by (cases s) (auto dest: wf_word_tok split: if_split_asm)

lemma wf_jlex: "jlex s cs = Some ts \<Longrightarrow> list_all wf_tok ts"
  by (induction s cs arbitrary: ts rule: jlex.induct) (auto dest: wf_lfin wf_lstep split: option.splits)

lemma wf_obj_iff: "wf_json (JObj kvs) \<longleftrightarrow> list_all (\<lambda>(k, v). wf_json v) kvs"
  by (auto simp: list_all_iff)

lemma wf_arr_iff: "wf_json (JArr vs) \<longleftrightarrow> list_all wf_json vs"
  by (auto simp: list_all_iff)

lemma wf_pstate_pair: "wf_pstate (st, m) \<longleftrightarrow> list_all wf_frame st \<and> (\<forall>v. m = PDone v \<longrightarrow> wf_json v)"
  by (simp add: wf_pstate_def)

lemma wf_frame_simps [simp]:
  "wf_frame (FArr vs) = list_all wf_json vs"
  "wf_frame (FObj kvs k) = list_all (\<lambda>(k, v). wf_json v) kvs"
  by (simp_all add: wf_frame_def)

lemma wf_put_value: "wf_json v \<Longrightarrow> list_all wf_frame st \<Longrightarrow> wf_pstate (put_value v st)"
  by (induction v st rule: put_value.induct) (auto simp: wf_pstate_pair)

lemma wf_pvalue: "pvalue st t = Some s' \<Longrightarrow> wf_tok t \<Longrightarrow> list_all wf_frame st \<Longrightarrow> wf_pstate s'"
  by (cases t) (auto intro!: wf_put_value simp: wf_pstate_pair)

lemma wf_pkey: "pkey st t = Some s' \<Longrightarrow> list_all wf_frame st \<Longrightarrow> wf_pstate s'"
  by (induction st t rule: pkey.induct) (auto simp: wf_pstate_pair)

lemma wf_close_arr: "list_all wf_json vs \<Longrightarrow> wf_json (JArr (rev vs))"
  by (simp only: wf_arr_iff list_all_rev)

lemma wf_close_obj: "list_all (\<lambda>(k, v). wf_json v) kvs \<Longrightarrow> wf_json (JObj (rev kvs))"
  by (simp only: wf_obj_iff list_all_rev)

lemma wf_pstep: "pstep s t = Some s' \<Longrightarrow> wf_tok t \<Longrightarrow> wf_pstate s \<Longrightarrow> wf_pstate s'"
proof (induction s t rule: pstep.induct)
  case (1 st t)
  then show ?case by (auto simp: wf_pstate_pair intro: wf_pvalue)
next
  case (2 vs st t)
  then show ?case
    by (auto simp: wf_pstate_pair simp del: wf_json.simps split: if_split_asm
        intro: wf_pvalue [of "FArr vs # st"] intro!: wf_put_value wf_close_arr)
next
  case (3 kvs k st t)
  then show ?case
    by (auto simp: wf_pstate_pair simp del: wf_json.simps pkey.simps split: if_split_asm
        intro: wf_pkey [of "FObj kvs k # st"] intro!: wf_put_value wf_close_obj)
next
  case (4 st t)
  then show ?case by (auto simp: wf_pstate_pair intro: wf_pkey)
next
  case (5 st t)
  then show ?case by (auto simp: wf_pstate_pair split: if_split_asm)
next
  case (6 vs st t)
  then show ?case
    by (auto simp: wf_pstate_pair simp del: wf_json.simps split: if_split_asm
        intro!: wf_put_value wf_close_arr)
next
  case (7 kvs k st t)
  then show ?case
    by (auto simp: wf_pstate_pair simp del: wf_json.simps split: if_split_asm
        intro!: wf_put_value wf_close_obj)
qed simp_all

lemma wf_prun: "prun s ts = Some s' \<Longrightarrow> list_all wf_tok ts \<Longrightarrow> wf_pstate s \<Longrightarrow> wf_pstate s'"
  by (induction ts arbitrary: s) (auto dest: wf_pstep split: option.splits)

lemma json_parse_wf: "json_parse s = Some j \<Longrightarrow> wf_json j"
  using wf_jlex [of LIdle s] wf_prun [of "([], PVal)"]
  by (fastforce simp: json_parse_def wf_pstate_def split: option.splits list.splits pmode.splits)

lemma json_value_wf: "json_value s = Some j \<Longrightarrow> wf_json j \<and> canon_json j"
  by (auto simp: json_value_def dest: json_parse_wf intro: wf_jnorm)

section \<open>Decimal integers are numbers\<close>

lemma hd_show_nat: "0 < n \<Longrightarrow> hd (show_nat n) \<noteq> CHR ''0''"
proof (induction n rule: show_nat.induct)
  case (1 n)
  show ?case
  proof (cases "n < 10")
    case True
    have "digit_char n \<noteq> CHR ''0''"
      using digit_char_simps(1) [OF True] 1(2) by (auto simp: digit_val_def)
    then show ?thesis using True by (subst show_nat.simps) simp
  next
    case False
    then show ?thesis using 1 by (subst show_nat.simps) (simp add: hd_append)
  qed
qed

lemma length_show_nat_1: "n < 10 \<Longrightarrow> length (show_nat n) = 1"
  by (subst show_nat.simps) simp

lemma valid_num_show_int [simp]: "valid_num (show_int i)"
proof -
  have d: "takeWhile is_digit (show_nat n) = show_nat n" "dropWhile is_digit (show_nat n) = []" for n
    using show_nat_digits [of n] by (simp_all add: list_all_iff)
  have z: "length (show_nat n) = 1 \<or> hd (show_nat n) \<noteq> CHR ''0''" for n
    using hd_show_nat [of n] length_show_nat_1 [of n] by (cases "n = 0") auto
  have c: "list_all num_char (show_nat n)" for n
    using show_nat_digits [of n] by (auto simp: list_all_iff num_char_def)
  have "\<not> is_digit (CHR ''-'')" by (simp add: is_digit_def)
  then have h: "(case show_nat n of [] \<Rightarrow> [] | x # t \<Rightarrow> if x = CHR ''-'' then t else show_nat n) = show_nat n" for n
    using show_nat_digits [of n] by (cases "show_nat n") auto
  show ?thesis
  proof (cases "i < 0")
    case True
    then show ?thesis using z c by (simp add: valid_num_def show_int_def valid_frac_def num_char_def Let_def d)
  next
    case False
    then show ?thesis using z c by (simp add: valid_num_def show_int_def valid_frac_def Let_def d h)
  qed
qed

lemma wf_json_int [simp]: "wf_json (json_int i)"
  by (simp add: json_int_def)

end
