(* ===== verification/JsonDecode.thy ===== *)
theory JsonDecode
  imports Json
begin

text \<open>
  \<open>json.Unmarshal\<close> into typed targets: strings, integers, byte slices, maps, pointers and
  structs. A decoder takes the JSON value and the target's old value, as Go decodes in place:
  \<open>null\<close> leaves a string or a number as it is and sets a map, slice or pointer to nil; a type
  mismatch is an error. Struct fields match by name without regard to case. The texts of the
  errors of \<open>encoding/json\<close> are not modelled.
\<close>

type_synonym 'a dec = "json \<Rightarrow> 'a \<Rightarrow> 'a res"

definition json_syntax_error :: gerror where
  "json_syntax_error = Errorf ''invalid JSON''"

definition json_type_error :: gerror where
  "json_type_error = Errorf ''json: cannot unmarshal value''"

definition unmarshal :: "'a dec \<Rightarrow> string \<Rightarrow> 'a \<Rightarrow> 'a res" where
  "unmarshal d s x = (case json_parse s of None \<Rightarrow> Inl json_syntax_error | Some j \<Rightarrow> d j x)"

fun dec_string :: "string dec" where
  "dec_string (JStr s) x = Inr s"
| "dec_string JNull x = Inr x"
| "dec_string _ x = Inl json_type_error"

fun dec_int :: "int dec" where
  "dec_int (JNum s) x = (case atoi s of Some i \<Rightarrow> Inr i | None \<Rightarrow> Inl json_type_error)"
| "dec_int JNull x = Inr x"
| "dec_int _ x = Inl json_type_error"

fun dec_uint8s :: "json list \<Rightarrow> string res" where
  "dec_uint8s [] = Inr []"
| "dec_uint8s (JNull # js) = (case dec_uint8s js of Inl e \<Rightarrow> Inl e | Inr s \<Rightarrow> Inr (CHR 0x00 # s))"
| "dec_uint8s (JNum n # js) = (case atoi n of
     Some i \<Rightarrow> if 0 \<le> i \<and> i < 256
               then (case dec_uint8s js of Inl e \<Rightarrow> Inl e | Inr s \<Rightarrow> Inr (char_of (nat i) # s))
               else Inl json_type_error
   | None \<Rightarrow> Inl json_type_error)"
| "dec_uint8s (_ # js) = Inl json_type_error"

text \<open>A byte slice; a nil slice is the empty one, which is all the program asks of it.\<close>

fun dec_bytes :: "bytes dec" where
  "dec_bytes (JStr s) x = (case b64_decode s of Some b \<Rightarrow> Inr b | None \<Rightarrow> Inl json_type_error)"
| "dec_bytes (JArr js) x = dec_uint8s js"
| "dec_bytes JNull x = Inr []"
| "dec_bytes _ x = Inl json_type_error"

fun dec_entries :: "'a dec \<Rightarrow> 'a \<Rightarrow> (string \<times> json) list \<Rightarrow> 'a gmap \<Rightarrow> 'a gmap res" where
  "dec_entries d z [] m = Inr m"
| "dec_entries d z ((k, j) # r) m =
     (case d j z of Inl e \<Rightarrow> Inl e | Inr v \<Rightarrow> dec_entries d z r (map_put k v m))"

text \<open>A map whose values start from the zero value \<open>z\<close>; \<open>None\<close> is the nil map.\<close>

fun dec_map :: "'a dec \<Rightarrow> 'a \<Rightarrow> 'a gmap option dec" where
  "dec_map d z (JObj kvs) m =
     (case dec_entries d z kvs (case m of None \<Rightarrow> [] | Some m' \<Rightarrow> m') of
        Inl e \<Rightarrow> Inl e | Inr r \<Rightarrow> Inr (Some r))"
| "dec_map d z JNull m = Inr None"
| "dec_map d z _ m = Inl json_type_error"

definition dec_any :: "json dec" where
  "dec_any j x = Inr (jnorm j)"

abbreviation "dec_any_map \<equiv> dec_map dec_any JNull"

text \<open>A pointer target: \<open>null\<close> makes it nil, any other value decodes into the old pointee or
  into a new zero value.\<close>

fun dec_ptr :: "'a dec \<Rightarrow> 'a \<Rightarrow> 'a option dec" where
  "dec_ptr d z JNull p = Inr None"
| "dec_ptr d z j p = (case d j (case p of None \<Rightarrow> z | Some x \<Rightarrow> x) of Inl e \<Rightarrow> Inl e | Inr v \<Rightarrow> Inr (Some v))"

text \<open>A slice target: every element decodes into a new zero value; \<open>None\<close> is the nil slice.\<close>

fun dec_items :: "'a dec \<Rightarrow> 'a \<Rightarrow> json list \<Rightarrow> 'a list res" where
  "dec_items d z [] = Inr []"
| "dec_items d z (j # js) = (case d j z of
     Inl e \<Rightarrow> Inl e
   | Inr v \<Rightarrow> (case dec_items d z js of Inl e \<Rightarrow> Inl e | Inr vs \<Rightarrow> Inr (v # vs)))"

fun dec_slice :: "'a dec \<Rightarrow> 'a \<Rightarrow> 'a list option dec" where
  "dec_slice d z (JArr js) x = (case dec_items d z js of Inl e \<Rightarrow> Inl e | Inr vs \<Rightarrow> Inr (Some vs))"
| "dec_slice d z JNull x = Inr None"
| "dec_slice d z _ x = Inl json_type_error"

type_synonym 's field_dec = "string \<times> (json \<Rightarrow> 's \<Rightarrow> 's res)"

fun dec_fields :: "'s field_dec list \<Rightarrow> (string \<times> json) list \<Rightarrow> 's \<Rightarrow> 's res" where
  "dec_fields fs [] s = Inr s"
| "dec_fields fs ((k, j) # r) s =
     (case find (\<lambda>(n, _). fold_eq n k) fs of
        None \<Rightarrow> dec_fields fs r s
      | Some (_, f) \<Rightarrow> (case f j s of Inl e \<Rightarrow> Inl e | Inr s' \<Rightarrow> dec_fields fs r s'))"

fun dec_struct :: "'s field_dec list \<Rightarrow> 's dec" where
  "dec_struct fs (JObj kvs) s = dec_fields fs kvs s"
| "dec_struct fs JNull s = Inr s"
| "dec_struct fs _ s = Inl json_type_error"

text \<open>A field of a struct: its decoder, its getter and its setter.\<close>

definition on_field :: "'a dec \<Rightarrow> ('s \<Rightarrow> 'a) \<Rightarrow> ('a \<Rightarrow> 's \<Rightarrow> 's) \<Rightarrow> json \<Rightarrow> 's \<Rightarrow> 's res" where
  "on_field d get put j s = (case d j (get s) of Inl e \<Rightarrow> Inl e | Inr v \<Rightarrow> Inr (put v s))"

lemma on_field_Inr: "d j (get s) = Inr v \<Longrightarrow> on_field d get put j s = Inr (put v s)"
  by (simp add: on_field_def)

lemma dec_entries_any: "dec_entries dec_any z kvs m = Inr (map_puts (map (map_prod id jnorm) kvs) m)"
  by (induction kvs arbitrary: m) (auto simp: dec_any_def)

lemma dec_any_map_obj [simp]:
  "dec_any_map (JObj kvs) None = Inr (Some (map_puts (map (map_prod id jnorm) kvs) []))"
  by (simp add: dec_entries_any)

lemma unmarshal_print: "wf_json j \<Longrightarrow> unmarshal d (json_print j) x = d j x"
  by (simp add: unmarshal_def json_parse_print)

lemma unmarshal_any_map_print:
  assumes "wf_json (JObj m)" "canon_json (JObj m)"
  shows "unmarshal dec_any_map (json_print (JObj m)) None = Inr (Some m)"
proof -
  have "map_puts (map (map_prod id jnorm) m) [] = m"
    using jnorm_canon [OF assms(2)] by simp
  with assms(1) show ?thesis by (simp only: unmarshal_print dec_any_map_obj)
qed

end
