(* ===== verification/Channels.thy ===== *)
theory Channels
  imports Prelude
begin

text \<open>
  Go's buffered channels: a bounded queue that can be closed. A send on a closed channel
  panics, also inside a \<open>select\<close>; a receive drains what is buffered before it reports the close.
  The contract a client of a queue relies on is the locale \<open>bounded_fifo\<close>.
\<close>

record 'a chan =
  ch_buf :: "'a list"
  ch_cap :: nat
  ch_closed :: bool

definition make_chan :: "nat \<Rightarrow> 'a chan" where
  "make_chan n = \<lparr>ch_buf = [], ch_cap = n, ch_closed = False\<rparr>"

datatype 'a send_outcome = Sent "'a chan" | SendFull | SendPanic

definition ch_send :: "'a \<Rightarrow> 'a chan \<Rightarrow> 'a send_outcome" where
  "ch_send x c =
     (if ch_closed c then SendPanic
      else if length (ch_buf c) < ch_cap c then Sent (c\<lparr>ch_buf := ch_buf c @ [x]\<rparr>) else SendFull)"

datatype 'a recv_outcome = Received 'a "'a chan" | RecvClosed | RecvBlocked

definition ch_recv :: "'a chan \<Rightarrow> 'a recv_outcome" where
  "ch_recv c = (case ch_buf c of
      x # xs \<Rightarrow> Received x (c\<lparr>ch_buf := xs\<rparr>)
    | [] \<Rightarrow> if ch_closed c then RecvClosed else RecvBlocked)"

definition ch_close :: "'a chan \<Rightarrow> 'a chan" where
  "ch_close c = c\<lparr>ch_closed := True\<rparr>"

lemma ch_send_Sent:
  "ch_send x c = Sent c' \<longleftrightarrow>
     \<not> ch_closed c \<and> length (ch_buf c) < ch_cap c \<and> c' = c\<lparr>ch_buf := ch_buf c @ [x]\<rparr>"
  by (auto simp: ch_send_def)

lemma ch_send_Full: "ch_send x c = SendFull \<longleftrightarrow> \<not> ch_closed c \<and> ch_cap c \<le> length (ch_buf c)"
  by (auto simp: ch_send_def)

lemma ch_send_Panic: "ch_send x c = SendPanic \<longleftrightarrow> ch_closed c"
  by (auto simp: ch_send_def)

lemma ch_recv_Received: "ch_recv c = Received x c' \<longleftrightarrow> (\<exists>xs. ch_buf c = x # xs \<and> c' = c\<lparr>ch_buf := xs\<rparr>)"
  by (auto simp: ch_recv_def split: list.splits if_splits)

section \<open>The contract of a bounded queue\<close>

text \<open>\<open>enq\<close> gives nothing when the queue refuses the element, \<open>deq\<close> when it has none.\<close>

locale bounded_fifo =
  fixes content :: "'q \<Rightarrow> 'a list"
    and bound :: "'q \<Rightarrow> nat"
    and enq :: "'a \<Rightarrow> 'q \<Rightarrow> 'q option"
    and deq :: "'q \<Rightarrow> ('a \<times> 'q) option"
  assumes enq_content: "enq x q = Some q' \<Longrightarrow> content q' = content q @ [x]"
    and enq_bound: "enq x q = Some q' \<Longrightarrow> bound q' = bound q \<and> length (content q) < bound q"
    and deq_content: "deq q = Some (x, q') \<Longrightarrow> content q = x # content q'"
    and deq_bound: "deq q = Some (x, q') \<Longrightarrow> bound q' = bound q"
begin

text \<open>One use of the queue: \<open>Some x\<close> offers \<open>x\<close>, \<open>None\<close> takes an element. The history keeps what was
  accepted and what was taken.\<close>

fun use :: "'a option list \<Rightarrow> 'q \<times> 'a list \<times> 'a list \<Rightarrow> 'q \<times> 'a list \<times> 'a list" where
  "use [] s = s"
| "use (Some x # ops) (q, ins, outs) =
     (case enq x q of None \<Rightarrow> use ops (q, ins, outs) | Some q' \<Rightarrow> use ops (q', ins @ [x], outs))"
| "use (None # ops) (q, ins, outs) =
     (case deq q of None \<Rightarrow> use ops (q, ins, outs) | Some (x, q') \<Rightarrow> use ops (q', ins, outs @ [x]))"

lemma use_fifo:
  "ins = outs @ content q \<Longrightarrow> use ops (q, ins, outs) = (q', ins', outs') \<Longrightarrow> ins' = outs' @ content q'"
proof (induction ops "(q, ins, outs)" arbitrary: q ins outs rule: use.induct)
  case 1
  then show ?case by auto
next
  case (2 x ops q ins outs)
  show ?case
  proof (cases "enq x q")
    case None
    with 2 show ?thesis by simp
  next
    case (Some q1)
    from 2(2) [OF Some] 2(3,4) Some show ?thesis by (simp add: enq_content)
  qed
next
  case (3 ops q ins outs)
  show ?case
  proof (cases "deq q")
    case None
    with 3 show ?thesis by simp
  next
    case (Some p)
    obtain x q1 where p: "p = (x, q1)" by force
    from 3(2) [OF Some p [symmetric]] 3(3,4) Some p show ?thesis by (simp add: deq_content)
  qed
qed

lemma use_bounded:
  "length (content q) \<le> bound q \<Longrightarrow> use ops (q, ins, outs) = (q', ins', outs') \<Longrightarrow>
   length (content q') \<le> bound q' \<and> bound q' = bound q"
proof (induction ops "(q, ins, outs)" arbitrary: q ins outs rule: use.induct)
  case 1
  then show ?case by auto
next
  case (2 x ops q ins outs)
  show ?case
  proof (cases "enq x q")
    case None
    with 2 show ?thesis by simp
  next
    case (Some q1)
    from enq_bound [OF Some] enq_content [OF Some] 2(2) [OF Some] 2(4) Some show ?thesis by simp
  qed
next
  case (3 ops q ins outs)
  show ?case
  proof (cases "deq q")
    case None
    with 3 show ?thesis by simp
  next
    case (Some p)
    obtain x q1 where p: "p = (x, q1)" by force
    with deq_content deq_bound Some have "content q = x # content q1" "bound q1 = bound q" by blast+
    with 3(2) [OF Some p [symmetric]] 3(3,4) Some p show ?thesis by simp
  qed
qed

end

definition chan_enq :: "'a \<Rightarrow> 'a chan \<Rightarrow> 'a chan option" where
  "chan_enq x c = (case ch_send x c of Sent c' \<Rightarrow> Some c' | _ \<Rightarrow> None)"

definition chan_deq :: "'a chan \<Rightarrow> ('a \<times> 'a chan) option" where
  "chan_deq c = (case ch_recv c of Received x c' \<Rightarrow> Some (x, c') | _ \<Rightarrow> None)"

lemma chan_enq_Some: "chan_enq x c = Some c' \<longleftrightarrow> ch_send x c = Sent c'"
  by (cases "ch_send x c") (simp_all add: chan_enq_def)

lemma chan_deq_Some: "chan_deq c = Some (x, c') \<longleftrightarrow> ch_recv c = Received x c'"
  by (cases "ch_recv c") (simp_all add: chan_deq_def)

interpretation chan_fifo: bounded_fifo ch_buf ch_cap chan_enq chan_deq
  by unfold_locales (auto simp: chan_enq_Some chan_deq_Some ch_send_Sent ch_recv_Received)

end
