(* ===== verification/UplinkBus.thy ===== *)
theory UplinkBus
  imports Channels Json
begin

text \<open>
  \<open>internal/uplink/bus.go\<close>: the bus between the adapters and the flows. Five bounded channels,
  routing by message type, a blocking publish for data, a dropping one for responses, and
  \<open>Close\<close>. \<open>Publish\<close> is modelled twice: as one sequential call, and as its two atomic steps (the
  check of \<open>closed\<close> under the read lock, then the send) interleaved with other publishers,
  receivers and \<open>Close\<close>. A message of another type is copied through JSON by Go; the adapter's
  \<open>UplinkMessage\<close> has the same untagged fields, so the copy is the message.
\<close>

section \<open>Messages and types\<close>

definition MessageTypeTelemetry :: string where "MessageTypeTelemetry = ''telemetry''"
definition MessageTypeAttribute :: string where "MessageTypeAttribute = ''attribute''"
definition MessageTypeEvent :: string where "MessageTypeEvent = ''event''"
definition MessageTypeStatus :: string where "MessageTypeStatus = ''status''"
definition MessageTypeCommandResponse :: string where
  "MessageTypeCommandResponse = ''command_response''"
definition MessageTypeAttributeSetResponse :: string where
  "MessageTypeAttributeSetResponse = ''attribute_set_response''"
definition MessageTypeGatewayCommandResponse :: string where
  "MessageTypeGatewayCommandResponse = ''gateway_command_response''"
definition MessageTypeGatewayAttributeSetResponse :: string where
  "MessageTypeGatewayAttributeSetResponse = ''gateway_attribute_set_response''"

lemmas message_types =
  MessageTypeTelemetry_def MessageTypeAttribute_def MessageTypeEvent_def MessageTypeStatus_def
  MessageTypeCommandResponse_def MessageTypeAttributeSetResponse_def
  MessageTypeGatewayCommandResponse_def MessageTypeGatewayAttributeSetResponse_def

record device_message =
  msg_type :: string
  msg_device_id :: string
  msg_tenant_id :: string
  msg_timestamp :: int
  msg_payload :: bytes
  msg_metadata :: "json gmap"

definition get_metadata :: "device_message \<Rightarrow> string \<Rightarrow> json option" where
  "get_metadata m k = map_of (msg_metadata m) k"

section \<open>The bus\<close>

datatype bus_kind = KTelemetry | KAttribute | KEvent | KStatus | KResponse

record bus =
  telemetryChan :: "device_message chan"
  attributeChan :: "device_message chan"
  eventChan :: "device_message chan"
  statusChan :: "device_message chan"
  responseChan :: "device_message chan"
  bufferSize :: nat
  closed :: bool

definition new_bus :: "int \<Rightarrow> bus" where
  "new_bus buffer_size =
     (let n = nat (if buffer_size \<le> 0 then 10000 else buffer_size) in
      \<lparr>telemetryChan = make_chan n, attributeChan = make_chan n, eventChan = make_chan n,
       statusChan = make_chan n, responseChan = make_chan n, bufferSize = n, closed = False\<rparr>)"

fun bus_chan :: "bus_kind \<Rightarrow> bus \<Rightarrow> device_message chan" where
  "bus_chan KTelemetry b = telemetryChan b"
| "bus_chan KAttribute b = attributeChan b"
| "bus_chan KEvent b = eventChan b"
| "bus_chan KStatus b = statusChan b"
| "bus_chan KResponse b = responseChan b"

fun set_bus_chan :: "bus_kind \<Rightarrow> device_message chan \<Rightarrow> bus \<Rightarrow> bus" where
  "set_bus_chan KTelemetry c b = b\<lparr>telemetryChan := c\<rparr>"
| "set_bus_chan KAttribute c b = b\<lparr>attributeChan := c\<rparr>"
| "set_bus_chan KEvent c b = b\<lparr>eventChan := c\<rparr>"
| "set_bus_chan KStatus c b = b\<lparr>statusChan := c\<rparr>"
| "set_bus_chan KResponse c b = b\<lparr>responseChan := c\<rparr>"

text \<open>The switch on the message type.\<close>

definition bus_route :: "string \<Rightarrow> bus_kind option" where
  "bus_route ty =
     (if ty = MessageTypeTelemetry \<or> ty = ''gateway_telemetry'' then Some KTelemetry
      else if ty = MessageTypeAttribute \<or> ty = ''gateway_attribute'' then Some KAttribute
      else if ty = MessageTypeEvent \<or> ty = ''gateway_event'' then Some KEvent
      else if ty = MessageTypeStatus then Some KStatus
      else if ty = MessageTypeCommandResponse \<or> ty = MessageTypeAttributeSetResponse
           \<or> ty = MessageTypeGatewayCommandResponse \<or> ty = MessageTypeGatewayAttributeSetResponse
      then Some KResponse else None)"

text \<open>How a call of \<open>Publish\<close> ends: it returns an error or nil, waits for room, or panics.\<close>

datatype 's call = Returns "gerror option" 's | Waits | Panics

definition publish_response :: "bus \<Rightarrow> device_message \<Rightarrow> bus call" where
  "publish_response b m = (case ch_send m (responseChan b) of
      Sent c \<Rightarrow> Returns None (b\<lparr>responseChan := c\<rparr>)
    | SendFull \<Rightarrow> Returns (Some ErrChannelFull) b
    | SendPanic \<Rightarrow> Panics)"

definition send_blocking :: "bus_kind \<Rightarrow> bus \<Rightarrow> device_message \<Rightarrow> bus call" where
  "send_blocking k b m = (case ch_send m (bus_chan k b) of
      Sent c \<Rightarrow> Returns None (set_bus_chan k c b)
    | SendFull \<Rightarrow> Waits
    | SendPanic \<Rightarrow> Panics)"

definition bus_dispatch :: "bus \<Rightarrow> device_message \<Rightarrow> bus call" where
  "bus_dispatch b m = (case bus_route (msg_type m) of
      None \<Rightarrow> Returns (Some ErrUnknownMessageType) b
    | Some KResponse \<Rightarrow> publish_response b m
    | Some k \<Rightarrow> send_blocking k b m)"

definition publish :: "bus \<Rightarrow> device_message \<Rightarrow> bus call" where
  "publish b m = (if closed b then Returns (Some ErrBusClosed) b else bus_dispatch b m)"

definition offline_message :: "string \<Rightarrow> string \<Rightarrow> device_message" where
  "offline_message device_id source =
     \<lparr>msg_type = MessageTypeStatus, msg_device_id = device_id, msg_tenant_id = '''', msg_timestamp = 0,
      msg_payload = ''0'', msg_metadata = [(''source'', JStr source)]\<rparr>"

definition publish_status_offline :: "bus \<Rightarrow> string \<Rightarrow> string \<Rightarrow> bus call" where
  "publish_status_offline b device_id source = publish b (offline_message device_id source)"

definition bus_close :: "bus \<Rightarrow> bus" where
  "bus_close b =
     (if closed b then b
      else b\<lparr>closed := True,
             telemetryChan := ch_close (telemetryChan b), attributeChan := ch_close (attributeChan b),
             eventChan := ch_close (eventChan b), statusChan := ch_close (statusChan b),
             responseChan := ch_close (responseChan b)\<rparr>)"

definition get_channel_stats :: "bus \<Rightarrow> nat gmap" where
  "get_channel_stats b = map_puts
     [(''telemetry_len'', length (ch_buf (telemetryChan b))), (''telemetry_cap'', ch_cap (telemetryChan b)),
      (''attribute_len'', length (ch_buf (attributeChan b))), (''attribute_cap'', ch_cap (attributeChan b)),
      (''event_len'', length (ch_buf (eventChan b))), (''event_cap'', ch_cap (eventChan b)),
      (''status_len'', length (ch_buf (statusChan b))), (''status_cap'', ch_cap (statusChan b)),
      (''response_queue'', length (ch_buf (responseChan b))), (''buffer_size'', bufferSize b)] []"

lemma bus_chan_set [simp]:
  "bus_chan k (set_bus_chan k' c b) = (if k = k' then c else bus_chan k b)"
  "closed (set_bus_chan k c b) = closed b"
  "bufferSize (set_bus_chan k c b) = bufferSize b"
  by (cases k; cases k'; simp) (cases k; simp)+

lemma bus_chan_close [simp]:
  "bus_chan k (bus_close b) = (if closed b then bus_chan k b else ch_close (bus_chan k b))"
  "closed (bus_close b)"
  "bufferSize (bus_close b) = bufferSize b"
  by (cases k; simp add: bus_close_def) (auto simp: bus_close_def)

lemma bus_chan_new [simp]:
  "bus_chan k (new_bus n) = make_chan (nat (if n \<le> 0 then 10000 else n))"
  "\<not> closed (new_bus n)" "bufferSize (new_bus n) = nat (if n \<le> 0 then 10000 else n)"
  by (cases k; simp add: new_bus_def Let_def) (simp_all add: new_bus_def Let_def)

text \<open>Dispatch seen uniformly: one send into the channel of the route.\<close>

lemma bus_dispatch_route:
  "bus_dispatch b m = (case bus_route (msg_type m) of
      None \<Rightarrow> Returns (Some ErrUnknownMessageType) b
    | Some k \<Rightarrow> (case ch_send m (bus_chan k b) of
          Sent c \<Rightarrow> Returns None (set_bus_chan k c b)
        | SendFull \<Rightarrow> if k = KResponse then Returns (Some ErrChannelFull) b else Waits
        | SendPanic \<Rightarrow> Panics))"
  by (auto simp: bus_dispatch_def publish_response_def send_blocking_def
      split: option.splits bus_kind.splits send_outcome.splits)

section \<open>Publishers, receivers and Close, interleaved\<close>

text \<open>The program counter of a goroutine that publishes.\<close>

datatype pub_pc = PubStart device_message | PubChecked device_message
  | PubDone device_message "gerror option" | PubPanicked device_message

record bus_sys =
  sys_bus :: bus
  sys_pubs :: "pub_pc list"
  sys_sent :: "(bus_kind \<times> device_message) list"
  sys_taken :: "(bus_kind \<times> device_message) list"

definition of_kind :: "bus_kind \<Rightarrow> (bus_kind \<times> device_message) list \<Rightarrow> device_message list" where
  "of_kind k xs = map snd (filter (\<lambda>(k', _). k' = k) xs)"

lemma of_kind_simps [simp]:
  "of_kind k [] = []" "of_kind k (xs @ ys) = of_kind k xs @ of_kind k ys"
  "of_kind k ((k', m) # xs) = (if k' = k then m # of_kind k xs else of_kind k xs)"
  by (auto simp: of_kind_def)

inductive bus_step :: "bus_sys \<Rightarrow> bus_sys \<Rightarrow> bool" where
  check_closed: "i < length (sys_pubs s) \<Longrightarrow> sys_pubs s ! i = PubStart m \<Longrightarrow> closed (sys_bus s) \<Longrightarrow>
    bus_step s (s\<lparr>sys_pubs := (sys_pubs s)[i := PubDone m (Some ErrBusClosed)]\<rparr>)"
| check_open: "i < length (sys_pubs s) \<Longrightarrow> sys_pubs s ! i = PubStart m \<Longrightarrow> \<not> closed (sys_bus s) \<Longrightarrow>
    bus_step s (s\<lparr>sys_pubs := (sys_pubs s)[i := PubChecked m]\<rparr>)"
| unroutable: "i < length (sys_pubs s) \<Longrightarrow> sys_pubs s ! i = PubChecked m \<Longrightarrow>
    bus_route (msg_type m) = None \<Longrightarrow>
    bus_step s (s\<lparr>sys_pubs := (sys_pubs s)[i := PubDone m (Some ErrUnknownMessageType)]\<rparr>)"
| send_ok: "i < length (sys_pubs s) \<Longrightarrow> sys_pubs s ! i = PubChecked m \<Longrightarrow>
    bus_route (msg_type m) = Some k \<Longrightarrow> bus_dispatch (sys_bus s) m = Returns None b \<Longrightarrow>
    bus_step s (s\<lparr>sys_bus := b, sys_pubs := (sys_pubs s)[i := PubDone m None],
                  sys_sent := sys_sent s @ [(k, m)]\<rparr>)"
| send_full: "i < length (sys_pubs s) \<Longrightarrow> sys_pubs s ! i = PubChecked m \<Longrightarrow>
    bus_route (msg_type m) = Some k \<Longrightarrow> bus_dispatch (sys_bus s) m = Returns (Some e) b \<Longrightarrow>
    bus_step s (s\<lparr>sys_pubs := (sys_pubs s)[i := PubDone m (Some e)]\<rparr>)"
| send_panic: "i < length (sys_pubs s) \<Longrightarrow> sys_pubs s ! i = PubChecked m \<Longrightarrow>
    bus_dispatch (sys_bus s) m = Panics \<Longrightarrow>
    bus_step s (s\<lparr>sys_pubs := (sys_pubs s)[i := PubPanicked m]\<rparr>)"
| receive: "ch_recv (bus_chan k (sys_bus s)) = Received m c \<Longrightarrow>
    bus_step s (s\<lparr>sys_bus := set_bus_chan k c (sys_bus s), sys_taken := sys_taken s @ [(k, m)]\<rparr>)"
| close: "bus_step s (s\<lparr>sys_bus := bus_close (sys_bus s)\<rparr>)"

definition bus_init :: "int \<Rightarrow> device_message list \<Rightarrow> bus_sys" where
  "bus_init n ms = \<lparr>sys_bus = new_bus n, sys_pubs = map PubStart ms, sys_sent = [], sys_taken = []\<rparr>"

inductive bus_reach :: "int \<Rightarrow> device_message list \<Rightarrow> bus_sys \<Rightarrow> bool" for n ms where
  reach_init: "bus_reach n ms (bus_init n ms)"
| reach_step: "bus_reach n ms s \<Longrightarrow> bus_step s s' \<Longrightarrow> bus_reach n ms s'"

inductive_cases bus_stepE: "bus_step s s'"

section \<open>The invariant of the bus\<close>

definition done_msgs :: "pub_pc list \<Rightarrow> device_message list" where
  "done_msgs ps = concat (map (\<lambda>p. case p of PubDone m None \<Rightarrow> [m] | _ \<Rightarrow> []) ps)"

definition bus_inv :: "nat \<Rightarrow> bus_sys \<Rightarrow> bool" where
  "bus_inv cap s \<longleftrightarrow>
     (\<forall>k. of_kind k (sys_sent s) = of_kind k (sys_taken s) @ ch_buf (bus_chan k (sys_bus s))
        \<and> length (ch_buf (bus_chan k (sys_bus s))) \<le> cap
        \<and> ch_cap (bus_chan k (sys_bus s)) = cap
        \<and> ch_closed (bus_chan k (sys_bus s)) = closed (sys_bus s)) \<and>
     (\<forall>(k, m) \<in> set (sys_sent s). bus_route (msg_type m) = Some k) \<and>
     mset (map snd (sys_sent s)) = mset (done_msgs (sys_pubs s)) \<and>
     (\<forall>p \<in> set (sys_pubs s). \<forall>m. p = PubPanicked m \<longrightarrow> closed (sys_bus s))"

lemma mset_done_msgs_update:
  "i < length ps \<Longrightarrow> done_msgs [ps ! i] = [] \<Longrightarrow>
   mset (done_msgs (ps[i := p])) = mset (done_msgs ps) + mset (done_msgs [p])"
proof (induction ps arbitrary: i)
  case Nil
  then show ?case by simp
next
  case (Cons q ps)
  then show ?case
    by (cases i) (auto simp: done_msgs_def split: pub_pc.splits option.splits)
qed

lemma done_msgs_simps [simp]:
  "done_msgs [PubStart m] = []" "done_msgs [PubChecked m] = []" "done_msgs [PubPanicked m] = []"
  "done_msgs [PubDone m None] = [m]" "done_msgs [PubDone m (Some e)] = []"
  by (simp_all add: done_msgs_def)

lemma set_list_update_cases: "x \<in> set (xs[i := y]) \<Longrightarrow> x = y \<or> x \<in> set xs"
  using set_update_subset_insert by fast

lemma bus_dispatch_sent:
  "bus_dispatch b m = Returns None b' \<Longrightarrow> bus_route (msg_type m) = Some k \<Longrightarrow>
   \<exists>c. ch_send m (bus_chan k b) = Sent c \<and> b' = set_bus_chan k c b"
  by (auto simp: bus_dispatch_route split: send_outcome.splits if_splits)

lemma bus_dispatch_panics:
  "bus_dispatch b m = Panics \<Longrightarrow> \<exists>k. ch_closed (bus_chan k b)"
  by (auto simp: bus_dispatch_route ch_send_Panic split: option.splits send_outcome.splits if_splits)

lemma bus_inv_pubs:
  assumes "bus_inv cap s" "i < length (sys_pubs s)" "done_msgs [sys_pubs s ! i] = []"
    "done_msgs [p] = []" "\<And>m. p = PubPanicked m \<Longrightarrow> closed (sys_bus s)"
  shows "bus_inv cap (s\<lparr>sys_pubs := (sys_pubs s)[i := p]\<rparr>)"
  using assms mset_done_msgs_update [OF assms(2,3), of p]
  by (auto simp: bus_inv_def dest!: set_list_update_cases)

lemma bus_inv_send:
  assumes "bus_inv cap s" "i < length (sys_pubs s)" "sys_pubs s ! i = PubChecked m"
    "bus_route (msg_type m) = Some k" "bus_dispatch (sys_bus s) m = Returns None b"
  shows "bus_inv cap (s\<lparr>sys_bus := b, sys_pubs := (sys_pubs s)[i := PubDone m None],
                        sys_sent := sys_sent s @ [(k, m)]\<rparr>)"
proof -
  obtain c where c: "ch_send m (bus_chan k (sys_bus s)) = Sent c" "b = set_bus_chan k c (sys_bus s)"
    using bus_dispatch_sent assms by blast
  have "mset (done_msgs ((sys_pubs s)[i := PubDone m None])) = mset (done_msgs (sys_pubs s)) + {#m#}"
    using mset_done_msgs_update [OF assms(2), of "PubDone m None"] assms(3) by simp
  with assms c show ?thesis
    by (auto simp: bus_inv_def ch_send_Sent dest!: set_list_update_cases)
qed

lemma bus_inv_step: "bus_step s s' \<Longrightarrow> bus_inv cap s \<Longrightarrow> bus_inv cap s'"
proof (induction rule: bus_step.induct)
  case (send_ok i s m k b)
  then show ?case by (intro bus_inv_send)
next
  case (send_panic i s m)
  have "closed (sys_bus s)"
    using bus_dispatch_panics [OF send_panic(3)] send_panic(4) by (auto simp: bus_inv_def)
  with send_panic show ?case by (intro bus_inv_pubs) simp_all
next
  case (receive k s m c)
  then obtain xs where xs: "ch_buf (bus_chan k (sys_bus s)) = m # xs"
      "c = (bus_chan k (sys_bus s))\<lparr>ch_buf := xs\<rparr>"
    by (auto simp: ch_recv_Received)
  have "length (ch_buf (bus_chan k (sys_bus s))) \<le> cap"
    using receive by (simp add: bus_inv_def)
  with xs have "length xs \<le> cap" by simp
  with receive(2) xs show ?case by (auto simp: bus_inv_def)
next
  case (close s)
  then show ?case by (auto simp: bus_inv_def ch_close_def)
qed (intro bus_inv_pubs; simp)+

lemma done_msgs_start [simp]: "done_msgs (map PubStart ms) = []"
  by (simp add: done_msgs_def)

lemma bus_inv_init: "bus_inv (nat (if n \<le> 0 then 10000 else n)) (bus_init n ms)"
  by (auto simp: bus_inv_def bus_init_def make_chan_def)

lemma bus_inv_reach: "bus_reach n ms s \<Longrightarrow> bus_inv (nat (if n \<le> 0 then 10000 else n)) s"
  by (induction rule: bus_reach.induct) (use bus_inv_init bus_inv_step in blast)+

section \<open>Properties\<close>

text \<open>C1: The uplink bus never loses, duplicates or reorders what it accepted. In every state that
  publishers, receivers and Close can reach in any interleaving, for each of the five channels the
  messages accepted so far are exactly those received so far followed by those still buffered, in
  order, and the buffer never exceeds the configured size (10000 when the configured size is not
  positive).\<close>
theorem bus_reach_fifo:
  assumes "bus_reach n ms s"
  shows "of_kind k (sys_sent s) = of_kind k (sys_taken s) @ ch_buf (bus_chan k (sys_bus s)) \<and>
    length (ch_buf (bus_chan k (sys_bus s))) \<le> nat (if n \<le> 0 then 10000 else n)"
  using bus_inv_reach [OF assms] by (auto simp: bus_inv_def)


text \<open>The check of the closed flag does not keep a publisher from panicking, because the read
  lock is released before the send: for every routable message the publisher can pass the check,
  Close can run, and the send then panics on the closed channel.\<close>
theorem bus_publish_close_race:
  assumes "bus_route (msg_type m) = Some k"
  shows "\<exists>s. bus_reach n [m] s \<and> sys_pubs s = [PubPanicked m]"
proof -
  let ?s0 = "bus_init n [m]"
  let ?s1 = "?s0\<lparr>sys_pubs := [PubChecked m]\<rparr>"
  let ?s2 = "?s1\<lparr>sys_bus := bus_close (sys_bus ?s1)\<rparr>"
  have 1: "bus_step ?s0 ?s1"
    using check_open [of 0 ?s0 m] by (simp add: bus_init_def)
  have 2: "bus_step ?s1 ?s2" by (rule close)
  have "bus_dispatch (sys_bus ?s2) m = Panics"
    using assms by (simp add: bus_dispatch_route ch_send_def ch_close_def bus_init_def)
  then have 3: "bus_step ?s2 (?s2\<lparr>sys_pubs := [PubPanicked m]\<rparr>)"
    using send_panic [of 0 ?s2 m] by simp
  have "bus_reach n [m] (?s2\<lparr>sys_pubs := [PubPanicked m]\<rparr>)"
    using reach_step [OF reach_step [OF reach_step [OF reach_init 1] 2] 3] .
  then show ?thesis by (rule exI [of _ "?s2\<lparr>sys_pubs := [PubPanicked m]\<rparr>", OF conjI]) simp
qed

section \<open>A concrete run\<close>

definition demo_msg :: device_message where
  "demo_msg = \<lparr>msg_type = ''telemetry'', msg_device_id = ''d1'', msg_tenant_id = ''t1'', msg_timestamp = 5,
     msg_payload = ''{}'', msg_metadata = []\<rparr>"

definition demo_sent :: bus_sys where
  "demo_sent = (bus_init 1 [demo_msg])\<lparr>
     sys_bus := set_bus_chan KTelemetry ((make_chan 1)\<lparr>ch_buf := [demo_msg]\<rparr>) (new_bus 1),
     sys_pubs := [PubDone demo_msg None], sys_sent := [(KTelemetry, demo_msg)]\<rparr>"

lemma demo_route: "bus_route (msg_type demo_msg) = Some KTelemetry"
  by (simp add: bus_route_def demo_msg_def message_types)

lemma demo_reach: "bus_reach 1 [demo_msg] demo_sent"
proof -
  let ?s0 = "bus_init 1 [demo_msg]"
  let ?s1 = "?s0\<lparr>sys_pubs := [PubChecked demo_msg]\<rparr>"
  have 1: "bus_step ?s0 ?s1"
    using check_open [of 0 ?s0 demo_msg] by (simp add: bus_init_def)
  have "bus_dispatch (sys_bus ?s1) demo_msg = Returns None
      (set_bus_chan KTelemetry ((make_chan 1)\<lparr>ch_buf := [demo_msg]\<rparr>) (new_bus 1))"
    by (simp add: bus_dispatch_route demo_route ch_send_def bus_init_def make_chan_def new_bus_def)
  then have "bus_step ?s1 demo_sent"
    using send_ok [of 0 ?s1 demo_msg KTelemetry] by (simp add: demo_route demo_sent_def bus_init_def)
  with 1 show ?thesis by (blast intro: reach_init reach_step)
qed

theorem bus_reach_fifo_witness:
  "of_kind KTelemetry (sys_sent demo_sent) =
     of_kind KTelemetry (sys_taken demo_sent) @ ch_buf (bus_chan KTelemetry (sys_bus demo_sent)) \<and>
   length (ch_buf (bus_chan KTelemetry (sys_bus demo_sent))) \<le> 1"
  using bus_reach_fifo [OF demo_reach, of KTelemetry] by simp


theorem bus_publish_close_race_witness:
  "\<exists>s. bus_reach 1 [demo_msg] s \<and> sys_pubs s = [PubPanicked demo_msg]"
  by (rule bus_publish_close_race [OF demo_route])

end
