(* ===== verification/Diagnostics.thy ===== *)
theory Diagnostics
  imports Complex_Main GoText
begin

text \<open>
  \<open>internal/diagnostics\<close>: counters and recent failures of a device, kept in Redis behind an
  in-memory buffer. The collector's state and the two Redis key families it owns are one record;
  \<open>dg_fault\<close> gives the error a Redis command on a key fails with. A failure record is stored as
  JSON and read back unchanged. The success rate is the exact rational, not its \<open>float64\<close>.
\<close>

section \<open>Types\<close>

definition DirectionUplink :: string where "DirectionUplink = ''uplink''"
definition DirectionDownlink :: string where "DirectionDownlink = ''downlink''"
definition StageAdapter :: string where "StageAdapter = ''adapter''"
definition StageProcessor :: string where "StageProcessor = ''processor''"
definition StageStorage :: string where "StageStorage = ''storage''"
definition StageEncode :: string where "StageEncode = ''encode''"
definition StagePublish :: string where "StagePublish = ''publish''"

record failure_record =
  fr_timestamp :: int
  fr_direction :: string
  fr_stage :: string
  fr_error :: string

record diag_stats =
  st_uplink_total :: int
  st_uplink_failed :: int
  st_storage_failed :: int
  st_downlink_total :: int
  st_downlink_failed :: int

record metric_response =
  mr_success_rate :: rat
  mr_total :: int
  mr_success :: int

record diagnostics_response =
  dr_device_id :: string
  dr_uplink :: metric_response
  dr_downlink :: metric_response
  dr_storage :: metric_response
  dr_recent_failures :: "failure_record list"

record diag_config =
  cf_enabled :: bool
  cf_max_failures :: int
  cf_batch_flush_size :: int
  cf_batch_flush_interval :: int

record collector =
  dg_config :: diag_config
  dg_initialized :: bool
  dg_running :: bool
  dg_stopped :: bool
  dg_buffer :: "(string \<times> failure_record) list"
  dg_hashes :: "string \<Rightarrow> (string \<rightharpoonup> int)"
  dg_lists :: "string \<Rightarrow> failure_record list"
  dg_expiry :: "string \<rightharpoonup> int"
  dg_fault :: "string \<Rightarrow> gerror option"

section \<open>The Redis operations\<close>

definition get_stats_key :: "string \<Rightarrow> string" where
  "get_stats_key device_id = ''device:'' @ device_id @ '':diagnostics:stats''"

definition get_failures_key :: "string \<Rightarrow> string" where
  "get_failures_key device_id = ''device:'' @ device_id @ '':diagnostics:failures''"

text \<open>\<open>LTRIM key 0 stop\<close> and \<open>LRANGE key 0 stop\<close>: a negative \<open>stop\<close> counts from the end.\<close>

definition redis_range :: "int \<Rightarrow> 'a list \<Rightarrow> 'a list" where
  "redis_range stop xs =
     (if stop < 0 then take (nat (int (length xs) + stop + 1)) xs else take (nat (stop + 1)) xs)"

definition hincr :: "string \<Rightarrow> string \<Rightarrow> collector \<Rightarrow> gerror option \<times> collector" where
  "hincr key field c = (case dg_fault c key of
      Some e \<Rightarrow> (Some e, c)
    | None \<Rightarrow> (None, c\<lparr>dg_hashes := (dg_hashes c)(key := (dg_hashes c key)(field \<mapsto>
        (case dg_hashes c key field of None \<Rightarrow> 0 | Some n \<Rightarrow> n) + 1))\<rparr>))"

definition increment_uplink_total :: "string \<Rightarrow> collector \<Rightarrow> gerror option \<times> collector" where
  "increment_uplink_total d c = hincr (get_stats_key d) ''uplink_total'' c"

definition increment_uplink_failed :: "string \<Rightarrow> collector \<Rightarrow> gerror option \<times> collector" where
  "increment_uplink_failed d c = hincr (get_stats_key d) ''uplink_failed'' c"

definition increment_storage_failed :: "string \<Rightarrow> collector \<Rightarrow> gerror option \<times> collector" where
  "increment_storage_failed d c = hincr (get_stats_key d) ''storage_failed'' c"

definition increment_downlink_total :: "string \<Rightarrow> collector \<Rightarrow> gerror option \<times> collector" where
  "increment_downlink_total d c = hincr (get_stats_key d) ''downlink_total'' c"

definition increment_downlink_failed :: "string \<Rightarrow> collector \<Rightarrow> gerror option \<times> collector" where
  "increment_downlink_failed d c = hincr (get_stats_key d) ''downlink_failed'' c"

definition add_failure ::
  "int \<Rightarrow> string \<Rightarrow> failure_record \<Rightarrow> int \<Rightarrow> collector \<Rightarrow> gerror option \<times> collector" where
  "add_failure now d r max_failures c =
     (let key = get_failures_key d in
      case dg_fault c key of
        Some e \<Rightarrow> (Some e, c)
      | None \<Rightarrow> (None, c\<lparr>dg_lists := (dg_lists c)(key := redis_range (max_failures - 1) (r # dg_lists c key)),
                         dg_expiry := (dg_expiry c)(key \<mapsto> now + 7 * 24 * 3600 * 1000)\<rparr>))"

definition stat_field :: "collector \<Rightarrow> string \<Rightarrow> string \<Rightarrow> int" where
  "stat_field c d f = (case dg_hashes c (get_stats_key d) f of None \<Rightarrow> 0 | Some n \<Rightarrow> n)"

definition get_stats :: "string \<Rightarrow> collector \<Rightarrow> diag_stats res" where
  "get_stats d c = (case dg_fault c (get_stats_key d) of
      Some e \<Rightarrow> Inl e
    | None \<Rightarrow> Inr \<lparr>st_uplink_total = stat_field c d ''uplink_total'',
                   st_uplink_failed = stat_field c d ''uplink_failed'',
                   st_storage_failed = stat_field c d ''storage_failed'',
                   st_downlink_total = stat_field c d ''downlink_total'',
                   st_downlink_failed = stat_field c d ''downlink_failed''\<rparr>)"

definition get_failures :: "string \<Rightarrow> int \<Rightarrow> collector \<Rightarrow> failure_record list res" where
  "get_failures d limit c = (case dg_fault c (get_failures_key d) of
      Some e \<Rightarrow> Inl e
    | None \<Rightarrow> Inr (redis_range (limit - 1) (dg_lists c (get_failures_key d))))"

section \<open>The collector\<close>

definition default_diag_config :: diag_config where
  "default_diag_config = \<lparr>cf_enabled = True, cf_max_failures = 5, cf_batch_flush_size = 10,
     cf_batch_flush_interval = 1000\<rparr>"

text \<open>The collector of \<open>GetInstance\<close>, over an empty Redis.\<close>

definition new_collector :: collector where
  "new_collector = \<lparr>dg_config = default_diag_config, dg_initialized = False, dg_running = False,
     dg_stopped = False, dg_buffer = [], dg_hashes = (\<lambda>_ _. None), dg_lists = (\<lambda>_. []),
     dg_expiry = (\<lambda>_. None), dg_fault = (\<lambda>_. None)\<rparr>"

text \<open>The body of \<open>Init\<close> under its \<open>sync.Once\<close>; \<open>redis\<close> tells whether a client is available.\<close>

definition diag_init :: "diag_config \<Rightarrow> bool \<Rightarrow> collector \<Rightarrow> gerror option \<times> collector" where
  "diag_init cfg redis c =
     (if \<not> cf_enabled cfg then (None, c)
      else if \<not> redis then (Some (Errorf ''redis not initialized''), c)
      else (None, c\<lparr>dg_config := cfg, dg_initialized := True,
                    dg_running := (0 < cf_batch_flush_interval cfg)\<rparr>))"

fun add_failures :: "int \<Rightarrow> int \<Rightarrow> (string \<times> failure_record) list \<Rightarrow> collector \<Rightarrow> collector" where
  "add_failures now n [] c = c"
| "add_failures now n ((d, r) # items) c = add_failures now n items (snd (add_failure now d r n c))"

definition flush :: "int \<Rightarrow> collector \<Rightarrow> collector" where
  "flush now c =
     (if dg_buffer c = [] then c
      else add_failures now (cf_max_failures (dg_config c)) (dg_buffer c) (c\<lparr>dg_buffer := []\<rparr>))"

definition is_enabled :: "collector \<Rightarrow> bool" where
  "is_enabled c = (dg_initialized c \<and> cf_enabled (dg_config c))"

definition record_failure ::
  "int \<Rightarrow> string \<Rightarrow> string \<Rightarrow> string \<Rightarrow> string \<Rightarrow> collector \<Rightarrow> collector" where
  "record_failure now d direction stage err c =
     (if \<not> is_enabled c then c
      else if d = [] then c
      else let r = \<lparr>fr_timestamp = now, fr_direction = direction, fr_stage = stage, fr_error = err\<rparr>;
               c' = c\<lparr>dg_buffer := dg_buffer c @ [(d, r)]\<rparr>
           in if cf_batch_flush_size (dg_config c') \<le> int (length (dg_buffer c')) then flush now c' else c')"

definition record_uplink_total :: "string \<Rightarrow> collector \<Rightarrow> collector" where
  "record_uplink_total d c =
     (if \<not> is_enabled c then c else if d = [] then c else snd (increment_uplink_total d c))"

definition record_uplink_failed :: "int \<Rightarrow> string \<Rightarrow> string \<Rightarrow> string \<Rightarrow> collector \<Rightarrow> collector" where
  "record_uplink_failed now d stage err c =
     (if \<not> is_enabled c then c else if d = [] then c
      else record_failure now d DirectionUplink stage err (snd (increment_uplink_failed d c)))"

definition record_storage_failed :: "int \<Rightarrow> string \<Rightarrow> string \<Rightarrow> collector \<Rightarrow> collector" where
  "record_storage_failed now d err c =
     (if \<not> is_enabled c then c else if d = [] then c
      else record_failure now d DirectionUplink StageStorage err (snd (increment_storage_failed d c)))"

definition record_downlink_total :: "string \<Rightarrow> collector \<Rightarrow> collector" where
  "record_downlink_total d c =
     (if \<not> is_enabled c then c else if d = [] then c else snd (increment_downlink_total d c))"

definition record_downlink_failed :: "int \<Rightarrow> string \<Rightarrow> string \<Rightarrow> string \<Rightarrow> collector \<Rightarrow> collector" where
  "record_downlink_failed now d stage err c =
     (if \<not> is_enabled c then c else if d = [] then c
      else record_failure now d DirectionDownlink stage err (snd (increment_downlink_failed d c)))"

text \<open>\<open>Stop\<close>: the background goroutine flushes once more and ends; without a flush interval there
  is none, and \<open>Stop\<close> only waits for its timeout. A second \<open>Stop\<close> closes a closed channel and
  panics (\<open>None\<close>).\<close>

definition diag_stop :: "int \<Rightarrow> collector \<Rightarrow> collector option" where
  "diag_stop now c =
     (if \<not> dg_initialized c then Some c
      else if dg_stopped c then None
      else Some (if dg_running c then (flush now c)\<lparr>dg_running := False, dg_stopped := True\<rparr>
                 else c\<lparr>dg_stopped := True\<rparr>))"

definition calculate_metric :: "int \<Rightarrow> int \<Rightarrow> metric_response" where
  "calculate_metric tot success =
     \<lparr>mr_success_rate = (if 0 < tot then of_int success / of_int tot * 100 else 0),
      mr_total = tot, mr_success = success\<rparr>"

definition get_diagnostics :: "string \<Rightarrow> collector \<Rightarrow> diagnostics_response res" where
  "get_diagnostics d c =
     (if \<not> dg_initialized c then Inl (Errorf ''diagnostics collector not initialized'')
      else case get_stats d c of Inl e \<Rightarrow> Inl e
      | Inr s \<Rightarrow> (case get_failures d (cf_max_failures (dg_config c)) c of Inl e \<Rightarrow> Inl e
        | Inr fs \<Rightarrow> Inr \<lparr>dr_device_id = d,
            dr_uplink = calculate_metric (st_uplink_total s) (st_uplink_total s - st_uplink_failed s),
            dr_downlink = calculate_metric (st_downlink_total s) (st_downlink_total s - st_downlink_failed s),
            dr_storage = calculate_metric (st_uplink_total s) (st_uplink_total s - st_storage_failed s),
            dr_recent_failures = fs\<rparr>))"

section \<open>The window of recent failures\<close>

lemma get_failures_key_inj [simp]: "get_failures_key d = get_failures_key d' \<longleftrightarrow> d = d'"
  by (auto simp: get_failures_key_def)

lemma redis_range_pos: "0 < n \<Longrightarrow> redis_range (n - 1) xs = take (nat n) xs"
  by (simp add: redis_range_def)

lemma redis_range_all: "redis_range (0 - 1) xs = xs"
  by (simp add: redis_range_def)

definition pending :: "collector \<Rightarrow> string \<Rightarrow> failure_record list" where
  "pending c d = map snd (filter (\<lambda>(d', _). d' = d) (dg_buffer c))"

text \<open>What the collector holds for a device, newest first.\<close>

definition held :: "collector \<Rightarrow> string \<Rightarrow> failure_record list" where
  "held c d = rev (pending c d) @ dg_lists c (get_failures_key d)"

definition no_faults :: "collector \<Rightarrow> bool" where
  "no_faults c \<longleftrightarrow> (\<forall>k. dg_fault c k = None)"

lemma add_failure_effect:
  "no_faults c \<Longrightarrow> dg_lists (snd (add_failure now d r n c)) (get_failures_key d') =
     (if d' = d then redis_range (n - 1) (r # dg_lists c (get_failures_key d))
      else dg_lists c (get_failures_key d'))"
  "no_faults c \<Longrightarrow> no_faults (snd (add_failure now d r n c))"
  "dg_buffer (snd (add_failure now d r n c)) = dg_buffer c"
  "dg_config (snd (add_failure now d r n c)) = dg_config c"
  "dg_initialized (snd (add_failure now d r n c)) = dg_initialized c"
  by (auto simp: add_failure_def Let_def no_faults_def split: option.splits)

lemma add_failures_frame [simp]:
  "dg_buffer (add_failures now n items c) = dg_buffer c"
  "dg_config (add_failures now n items c) = dg_config c"
  "dg_initialized (add_failures now n items c) = dg_initialized c"
  "no_faults c \<Longrightarrow> no_faults (add_failures now n items c)"
  by (induction now n items c rule: add_failures.induct) (auto simp: add_failure_effect)

lemma dg_fault_add_failure [simp]: "dg_fault (snd (add_failure now d r n c)) = dg_fault c"
  by (simp add: add_failure_def Let_def split: option.splits)

lemma dg_fault_add_failures [simp]: "dg_fault (add_failures now n items c) = dg_fault c"
  by (induction now n items c rule: add_failures.induct) simp_all

lemma take_append_take: "take n (xs @ take n ys) = take n (xs @ ys)"
  by (simp add: min_def)

lemma add_failures_lists:
  assumes "no_faults c" "0 < n"
  shows "take (nat n) (dg_lists (add_failures now n items c) (get_failures_key d)) =
    take (nat n) (rev (map snd (filter (\<lambda>(d', _). d' = d) items)) @ dg_lists c (get_failures_key d))"
  using assms
proof (induction now n items c rule: add_failures.induct)
  case (1 now n c)
  then show ?case by simp
next
  case (2 now n d' r items c)
  let ?c = "snd (add_failure now d' r n c)"
  let ?q = "rev (map snd (filter (\<lambda>(d', _). d' = d) items))"
  have ih: "take (nat n) (dg_lists (add_failures now n items ?c) (get_failures_key d)) =
        take (nat n) (?q @ dg_lists ?c (get_failures_key d))"
    using 2 by (simp add: add_failure_effect)
  show ?case
  proof (cases "d' = d")
    case True
    with 2(2,3) have "dg_lists ?c (get_failures_key d) = take (nat n) (r # dg_lists c (get_failures_key d))"
      by (simp add: add_failure_effect redis_range_pos)
    with ih have "take (nat n) (dg_lists (add_failures now n items ?c) (get_failures_key d)) =
        take (nat n) (?q @ r # dg_lists c (get_failures_key d))"
      by (simp only: take_append_take)
    with True show ?thesis by simp
  next
    case False
    with ih 2(2) show ?thesis by (simp add: add_failure_effect)
  qed
qed

lemma add_failures_lists_all:
  "no_faults c \<Longrightarrow> dg_lists (add_failures now 0 items c) (get_failures_key d) =
     rev (map snd (filter (\<lambda>(d', _). d' = d) items)) @ dg_lists c (get_failures_key d)"
  by (induction now "0 :: int" items c rule: add_failures.induct)
    (auto simp: add_failure_effect redis_range_all simp del: diff_0)

text \<open>The part of the history that counts: all of it when the limit is zero.\<close>

definition window :: "int \<Rightarrow> 'a list \<Rightarrow> 'a list" where
  "window n xs = (if 0 < n then take (nat n) xs else xs)"

lemma flush_held:
  assumes "no_faults c" "0 \<le> cf_max_failures (dg_config c)"
  shows "window (cf_max_failures (dg_config c)) (held (flush now c) d) =
         window (cf_max_failures (dg_config c)) (held c d)"
proof (cases "0 < cf_max_failures (dg_config c)")
  case True
  have "no_faults (c\<lparr>dg_buffer := []\<rparr>)" using assms by (simp add: no_faults_def)
  from add_failures_lists [OF this True] True show ?thesis
    by (simp add: window_def flush_def held_def pending_def)
next
  case False
  then have z: "cf_max_failures (dg_config c) = 0" using assms by simp
  have "no_faults (c\<lparr>dg_buffer := []\<rparr>)" using assms by (simp add: no_faults_def)
  from add_failures_lists_all [OF this] z show ?thesis
    by (simp add: window_def flush_def held_def pending_def)
qed

lemma flush_frame [simp]:
  "dg_buffer (flush now c) = []" "dg_config (flush now c) = dg_config c"
  "is_enabled (flush now c) = is_enabled c"
  "no_faults c \<Longrightarrow> no_faults (flush now c)"
  by (auto simp: flush_def is_enabled_def) (simp add: no_faults_def)

definition the_record :: "int \<Rightarrow> string \<Rightarrow> string \<Rightarrow> string \<Rightarrow> failure_record" where
  "the_record now direction stage err =
     \<lparr>fr_timestamp = now, fr_direction = direction, fr_stage = stage, fr_error = err\<rparr>"

lemma window_Cons: "window n (r # xs) = window n (r # window n xs)"
  by (auto simp: window_def) (cases "nat n"; simp)

lemma record_failure_held:
  assumes "is_enabled c" "no_faults c" "0 \<le> cf_max_failures (dg_config c)" "d \<noteq> []"
  shows "window (cf_max_failures (dg_config c)) (held (record_failure now d dir st err c) d') =
         window (cf_max_failures (dg_config c))
           (if d' = d then the_record now dir st err # held c d' else held c d')"
proof -
  let ?c = "c\<lparr>dg_buffer := dg_buffer c @ [(d, the_record now dir st err)]\<rparr>"
  have h: "held ?c d' = (if d' = d then the_record now dir st err # held c d' else held c d')"
    by (simp add: held_def pending_def)
  have "no_faults ?c" using assms(2) by (simp add: no_faults_def)
  with flush_held [of ?c now d'] assms h show ?thesis
    by (auto simp: record_failure_def the_record_def Let_def)
qed

lemma record_failure_frame:
  "dg_config (record_failure now d dir st err c) = dg_config c"
  "is_enabled (record_failure now d dir st err c) = is_enabled c"
  "no_faults c \<Longrightarrow> no_faults (record_failure now d dir st err c)"
  by (auto simp: record_failure_def Let_def is_enabled_def flush_def)
    (simp_all add: no_faults_def)

text \<open>A run of failures: time, device, direction, stage and message of each.\<close>

type_synonym failure_event = "int \<times> string \<times> string \<times> string \<times> string"

fun record_all :: "failure_event list \<Rightarrow> collector \<Rightarrow> collector" where
  "record_all [] c = c"
| "record_all ((now, d, dir, st, err) # evs) c = record_all evs (record_failure now d dir st err c)"

definition records_of :: "string \<Rightarrow> failure_event list \<Rightarrow> failure_record list" where
  "records_of d evs = map (\<lambda>(now, _, dir, st, err). the_record now dir st err)
     (filter (\<lambda>(_, d', _). d' = d) evs)"

lemma record_all_held:
  assumes "is_enabled c" "no_faults c" "0 \<le> cf_max_failures (dg_config c)" "d \<noteq> []"
  shows "window (cf_max_failures (dg_config c)) (held (record_all evs c) d) =
         window (cf_max_failures (dg_config c)) (rev (records_of d evs) @ held c d)"
  using assms
proof (induction evs c rule: record_all.induct)
  case (1 c)
  then show ?case by (simp add: records_of_def)
next
  case (2 now d' dir st err evs c)
  let ?c = "record_failure now d' dir st err c"
  let ?n = "cf_max_failures (dg_config c)"
  have app: "window ?n (xs @ window ?n ys) = window ?n (xs @ ys)" for xs ys :: "failure_record list"
    by (simp add: window_def min_def)
  have "window ?n (held (record_all evs ?c) d) = window ?n (rev (records_of d evs) @ held ?c d)"
    using 2 by (simp add: record_failure_frame)
  also have "\<dots> = window ?n (rev (records_of d evs) @
      (if d = d' then the_record now dir st err # held c d else held c d))"
  proof (cases "d' = []")
    case True
    then have "?c = c" using 2(2) by (simp add: record_failure_def)
    with True 2(5) show ?thesis by simp
  next
    case False
    from record_failure_held [OF 2(2,3,4) False] show ?thesis by (metis app)
  qed
  finally show ?case by (auto simp: records_of_def)
qed

lemma record_all_frame:
  "dg_config (record_all evs c) = dg_config c"
  "no_faults c \<Longrightarrow> no_faults (record_all evs c)"
  by (induction evs c rule: record_all.induct) (auto simp: record_failure_frame)

section \<open>Properties\<close>

text \<open>The recent failures of a device are the newest ones. For any run of failures over any
  devices recorded by an enabled collector over an empty Redis that answers, what GetFailures
  returns for a device after a flush is the device's own failures, newest first, cut to
  MaxFailures; with a MaxFailures of zero LTRIM 0 -1 keeps the whole history instead of none.\<close>
theorem recent_failures_newest:
  assumes "is_enabled c" "no_faults c" "0 \<le> cf_max_failures (dg_config c)" "d \<noteq> []"
    and "dg_buffer c = []" "dg_lists c = (\<lambda>_. [])"
  shows "get_failures d (cf_max_failures (dg_config c)) (flush now (record_all evs c)) =
    Inr (if cf_max_failures (dg_config c) = 0 then rev (records_of d evs)
         else take (nat (cf_max_failures (dg_config c))) (rev (records_of d evs)))"
proof -
  let ?n = "cf_max_failures (dg_config c)"
  let ?c = "flush now (record_all evs c)"
  have f: "no_faults ?c" using assms(2) by (simp add: record_all_frame)
  have "window ?n (held ?c d) = window ?n (rev (records_of d evs) @ held c d)"
    using record_all_held [OF assms(1-4)] flush_held [of "record_all evs c"] assms
    by (simp add: record_all_frame)
  then have "window ?n (dg_lists ?c (get_failures_key d)) = window ?n (rev (records_of d evs))"
    using assms(5,6) by (simp add: held_def pending_def)
  moreover have "get_failures d ?n ?c = Inr (window ?n (dg_lists ?c (get_failures_key d)))"
    using f assms(3) by (auto simp: get_failures_def no_faults_def window_def redis_range_pos redis_range_def)
  ultimately show ?thesis using assms(3) by (simp add: window_def)
qed

definition demo_collector :: collector where
  "demo_collector = new_collector\<lparr>dg_initialized := True, dg_config := default_diag_config\<lparr>cf_max_failures := 2\<rparr>\<rparr>"

theorem recent_failures_newest_witness:
  "get_failures ''d1'' 2 (flush 9 (record_all
      [(1, ''d1'', ''uplink'', ''adapter'', ''a''), (2, ''d2'', ''uplink'', ''adapter'', ''b''),
       (3, ''d1'', ''uplink'', ''storage'', ''c''), (4, ''d1'', ''downlink'', ''encode'', ''e'')]
      demo_collector)) =
   Inr [the_record 4 ''downlink'' ''encode'' ''e'', the_record 3 ''uplink'' ''storage'' ''c'']"
  using recent_failures_newest [of demo_collector "''d1''" 9
    "[(1, ''d1'', ''uplink'', ''adapter'', ''a''), (2, ''d2'', ''uplink'', ''adapter'', ''b''),
      (3, ''d1'', ''uplink'', ''storage'', ''c''), (4, ''d1'', ''downlink'', ''encode'', ''e'')]"]
  by (simp add: demo_collector_def new_collector_def default_diag_config_def is_enabled_def
      no_faults_def records_of_def)

text \<open>Uplink failures are counted per message but the total per telemetry point, so the number
  of successes an operator sees can be negative: one failed message of a device that has sent no
  point yet gives total 0 and success -1 in the uplink metric.\<close>
theorem uplink_success_negative:
  assumes "is_enabled c" "no_faults c" "d \<noteq> []" "dg_hashes c (get_stats_key d) = (\<lambda>_. None)"
    and "get_diagnostics d (record_uplink_failed now d stage err c) = Inr r"
  shows "dr_uplink r = \<lparr>mr_success_rate = 0, mr_total = 0, mr_success = -1\<rparr>"
proof -
  let ?c = "record_uplink_failed now d stage err c"
  have keys: "get_failures_key d' \<noteq> get_stats_key d" for d'
    by (auto simp: get_failures_key_def get_stats_key_def dest: arg_cong [where f = rev])
  have rf: "dg_hashes (record_failure n d' dir st e c') = dg_hashes c'" for n d' dir st e c'
  proof -
    have "dg_hashes (add_failures t m items x) = dg_hashes x" for t m items x
      by (induction t m items x rule: add_failures.induct)
        (auto simp: add_failure_def Let_def split: option.splits)
    then show ?thesis by (simp add: record_failure_def flush_def Let_def)
  qed
  have h: "dg_hashes ?c (get_stats_key d) = [''uplink_failed'' \<mapsto> 1]"
    using assms(1-4) by (simp add: record_uplink_failed_def rf increment_uplink_failed_def hincr_def no_faults_def)
  have "dr_uplink r = calculate_metric (stat_field ?c d ''uplink_total'')
      (stat_field ?c d ''uplink_total'' - stat_field ?c d ''uplink_failed'')"
    using assms(5) by (auto simp: get_diagnostics_def get_stats_def split: option.splits sum.splits if_splits)
  then show ?thesis by (simp add: stat_field_def h calculate_metric_def)
qed

theorem uplink_success_negative_witness:
  "\<exists>r. get_diagnostics ''d1'' (record_uplink_failed 1 ''d1'' ''processor'' ''x'' demo_collector) = Inr r \<and>
     dr_uplink r = \<lparr>mr_success_rate = 0, mr_total = 0, mr_success = -1\<rparr>"
proof -
  have "is_enabled demo_collector" "no_faults demo_collector"
      "dg_hashes demo_collector (get_stats_key ''d1'') = (\<lambda>_. None)"
    by (simp_all add: demo_collector_def new_collector_def default_diag_config_def is_enabled_def no_faults_def)
  moreover have "\<exists>r. get_diagnostics ''d1'' (record_uplink_failed 1 ''d1'' ''processor'' ''x'' demo_collector) = Inr r"
    by (simp add: demo_collector_def new_collector_def default_diag_config_def is_enabled_def
        record_uplink_failed_def increment_uplink_failed_def hincr_def record_failure_def Let_def
        get_diagnostics_def get_stats_def get_failures_def)
  ultimately show ?thesis using uplink_success_negative [of demo_collector "''d1''"] by blast
qed

end
