(* ===== verification/StorageTypes.thy ===== *)
theory StorageTypes
  imports Json
begin

text \<open>
  \<open>internal/storage/types.go\<close>: the message the flows send to the storage service and the rows it
  writes. \<open>Message.Data\<close> is an \<open>interface{}\<close> in Go; its dynamic type is the constructor of
  \<open>storage_data\<close>. A time is its milliseconds.
\<close>

definition DataTypeTelemetry :: string where "DataTypeTelemetry = ''telemetry''"
definition DataTypeAttribute :: string where "DataTypeAttribute = ''attribute''"
definition DataTypeEvent :: string where "DataTypeEvent = ''event''"

lemmas data_types = DataTypeTelemetry_def DataTypeAttribute_def DataTypeEvent_def

type_synonym data_point = "string \<times> json"

datatype slice_item = TelemetryItem data_point | AttributeItem data_point | OtherItem

datatype storage_data =
    TelemetryPoints "data_point list"
  | AttributePoints "data_point list"
  | EventData string string
  | AnySlice "slice_item list"
  | OtherData

record storage_message =
  sm_device_id :: string
  sm_tenant_id :: string
  sm_data_type :: string
  sm_timestamp :: int
  sm_data :: storage_data

record telemetry_row =
  td_device_id :: string
  td_key :: string
  td_ts :: int
  td_bool_v :: "bool option"
  td_number_v :: "string option"
  td_string_v :: "string option"
  td_tenant_id :: string

record attribute_row =
  ad_id :: string
  ad_device_id :: string
  ad_key :: string
  ad_ts :: int
  ad_bool_v :: "bool option"
  ad_number_v :: "string option"
  ad_string_v :: "string option"
  ad_tenant_id :: string

record event_row =
  ed_id :: string
  ed_device_id :: string
  ed_identify :: string
  ed_ts :: int
  ed_data :: string
  ed_tenant_id :: string

end
