(* ===== verification/World.thy ===== *)
theory World
  imports Diagnostics StorageTypes JsonDecode
begin

text \<open>
  The state the components share: the database tables, the Redis keys, the diagnostics
  collector, the storage channel, the goroutines started and the effects on the outside. A table
  is the list of its rows in primary-key order, so \<open>First\<close> is the first row that matches.
  \<open>w_db_fault q\<close> is the error query \<open>q\<close> fails with, \<open>w_redis_fault c k\<close> the one Redis command \<open>c\<close> on
  key \<open>k\<close> fails with. The caches of devices and device configurations hold the structs whose JSON
  Go stores; every other Redis value is its text. Rows carry the columns the modelled code reads
  or writes.
\<close>

section \<open>Rows\<close>

record device =
  dev_id :: string
  dev_name :: "string option"
  dev_voucher :: string
  dev_tenant_id :: string
  dev_is_enabled :: string
  dev_activate_flag :: string
  dev_device_number :: string
  dev_parent_id :: "string option"
  dev_sub_device_addr :: "string option"
  dev_device_config_id :: "string option"
  dev_is_online :: int
  dev_last_offline :: "int option"

record device_config =
  dc_id :: string
  dc_name :: string
  dc_device_type :: string
  dc_protocol_type :: "string option"
  dc_voucher_type :: "string option"
  dc_tenant_id :: string
  dc_other_config :: "string option"
  dc_template_secret :: "string option"
  dc_auto_register :: int

record data_script =
  ds_id :: string
  ds_name :: string
  ds_device_config_id :: string
  ds_enable_flag :: string
  ds_content :: "string option"
  ds_script_type :: string
  ds_last_analog_input :: "string option"
  ds_description :: "string option"
  ds_created_at :: "int option"
  ds_updated_at :: "int option"
  ds_remark :: "string option"

record status_history =
  sh_tenant_id :: string
  sh_device_id :: string
  sh_status :: int
  sh_change_time :: int

record set_log =
  sl_id :: string
  sl_device_id :: string
  sl_message_id :: "string option"
  sl_status :: "string option"
  sl_error_message :: "string option"

section \<open>Goroutines and effects\<close>

record automate_ext =
  ae_param_type :: string
  ae_param :: "string list"
  ae_values :: "json gmap"

datatype task =
    SaveDeviceStatusHistory string string int
  | CheckAndPublishToWS string string "json gmap"
  | ExecuteAutomation device automate_ext
  | NotifyDeviceOnline device
  | PublishToRedis device int "json gmap"
  | NotifyClients device int
  | TriggerAutomation device int
  | SendExpectedData device

datatype effect =
    SSEBroadcast string string string
  | RedisPublish string string
  | AutomationExecute device automate_ext
  | ExpectedDataSend string
  | Sleep int
  | MqttPublish string int string
  | PluginDisconnect string string

section \<open>The shared state\<close>

record world =
  w_now :: int
  w_devices :: "device list"
  w_configs :: "device_config list"
  w_scripts :: "data_script list"
  w_history :: "status_history list"
  w_command_logs :: "set_log list"
  w_attribute_logs :: "set_log list"
  w_telemetry_logs :: "set_log list"
  w_device_cache :: "string \<rightharpoonup> device"
  w_config_cache :: "string \<rightharpoonup> device_config"
  w_redis :: "string \<rightharpoonup> string"
  w_status_redis :: "string \<rightharpoonup> string \<times> int"
  w_db_fault :: "string \<Rightarrow> gerror option"
  w_redis_fault :: "string \<Rightarrow> string \<Rightarrow> gerror option"
  w_diag :: collector
  w_storage :: "storage_message list"
  w_tasks :: "task list"
  w_effects :: "effect list"

definition empty_world :: world where
  "empty_world = \<lparr>w_now = 0, w_devices = [], w_configs = [], w_scripts = [], w_history = [],
     w_command_logs = [], w_attribute_logs = [], w_telemetry_logs = [],
     w_device_cache = (\<lambda>_. None), w_config_cache = (\<lambda>_. None), w_redis = (\<lambda>_. None),
     w_status_redis = (\<lambda>_. None), w_db_fault = (\<lambda>_. None), w_redis_fault = (\<lambda>_ _. None),
     w_diag = new_collector, w_storage = [], w_tasks = [], w_effects = []\<rparr>"

definition spawn :: "task \<Rightarrow> world \<Rightarrow> world" where
  "spawn t w = w\<lparr>w_tasks := w_tasks w @ [t]\<rparr>"

definition emit :: "effect \<Rightarrow> world \<Rightarrow> world" where
  "emit e w = w\<lparr>w_effects := w_effects w @ [e]\<rparr>"

definition storage_send :: "storage_message \<Rightarrow> world \<Rightarrow> world" where
  "storage_send m w = w\<lparr>w_storage := w_storage w @ [m]\<rparr>"

text \<open>Redis commands on text keys: \<open>Get\<close>, \<open>Set\<close> without expiry, \<open>Del\<close>, \<open>Exists\<close>, \<open>Publish\<close>.\<close>

definition redis_get :: "string \<Rightarrow> world \<Rightarrow> string res" where
  "redis_get k w = (case w_redis_fault w ''get'' k of
      Some e \<Rightarrow> Inl e
    | None \<Rightarrow> (case w_redis w k of None \<Rightarrow> Inl RedisNil | Some v \<Rightarrow> Inr v))"

definition redis_set :: "string \<Rightarrow> string \<Rightarrow> world \<Rightarrow> gerror option \<times> world" where
  "redis_set k v w = (case w_redis_fault w ''set'' k of
      Some e \<Rightarrow> (Some e, w) | None \<Rightarrow> (None, w\<lparr>w_redis := (w_redis w)(k \<mapsto> v)\<rparr>))"

definition redis_del :: "string \<Rightarrow> world \<Rightarrow> gerror option \<times> world" where
  "redis_del k w = (case w_redis_fault w ''del'' k of
      Some e \<Rightarrow> (Some e, w) | None \<Rightarrow> (None, w\<lparr>w_redis := (w_redis w)(k := None)\<rparr>))"

definition redis_exists :: "string \<Rightarrow> world \<Rightarrow> bool res" where
  "redis_exists k w = (case w_redis_fault w ''exists'' k of
      Some e \<Rightarrow> Inl e | None \<Rightarrow> Inr (w_redis w k \<noteq> None))"

definition redis_publish :: "string \<Rightarrow> string \<Rightarrow> world \<Rightarrow> gerror option \<times> world" where
  "redis_publish ch v w = (case w_redis_fault w ''publish'' ch of
      Some e \<Rightarrow> (Some e, w) | None \<Rightarrow> (None, emit (RedisPublish ch v) w))"

section \<open>Keys with an expiry, in the status database\<close>

definition status_set :: "string \<Rightarrow> string \<Rightarrow> int \<Rightarrow> world \<Rightarrow> gerror option \<times> world" where
  "status_set k v ttl w = (case w_redis_fault w ''set'' k of
      Some e \<Rightarrow> (Some e, w)
    | None \<Rightarrow> (None, w\<lparr>w_status_redis := (w_status_redis w)(k \<mapsto> (v, w_now w + ttl))\<rparr>))"

definition status_del :: "string list \<Rightarrow> world \<Rightarrow> gerror option \<times> world" where
  "status_del ks w = (case w_redis_fault w ''del'' (hd ks) of
      Some e \<Rightarrow> (Some e, w)
    | None \<Rightarrow> (None, w\<lparr>w_status_redis := (\<lambda>k. if k \<in> set ks then None else w_status_redis w k)\<rparr>))"

section \<open>Diagnostics on the shared state\<close>

definition diag_uplink_failed :: "string \<Rightarrow> string \<Rightarrow> string \<Rightarrow> world \<Rightarrow> world" where
  "diag_uplink_failed d stage err w = w\<lparr>w_diag := record_uplink_failed (w_now w) d stage err (w_diag w)\<rparr>"

definition diag_uplink_total :: "string \<Rightarrow> world \<Rightarrow> world" where
  "diag_uplink_total d w = w\<lparr>w_diag := record_uplink_total d (w_diag w)\<rparr>"

definition diag_downlink_total :: "string \<Rightarrow> world \<Rightarrow> world" where
  "diag_downlink_total d w = w\<lparr>w_diag := record_downlink_total d (w_diag w)\<rparr>"

definition diag_downlink_failed :: "string \<Rightarrow> string \<Rightarrow> string \<Rightarrow> world \<Rightarrow> world" where
  "diag_downlink_failed d stage err w = w\<lparr>w_diag := record_downlink_failed (w_now w) d stage err (w_diag w)\<rparr>"

text \<open>Go's zero time, year 1, in the milliseconds of the clock.\<close>

definition zero_time :: int where
  "zero_time = - 62135596800000"

end
