(* ===== verification/DeviceStore.thy ===== *)
theory DeviceStore
  imports World
begin

text \<open>
  Devices and device configurations: the cache-aside reads of \<open>initialize/redis_init.go\<close> and
  \<open>internal/dal/device_config.go\<close>, the status updates of \<open>internal/dal/devices.go\<close> and the status
  history. The contract of a cache-aside read is the locale \<open>cache_aside\<close>; it is interpreted on
  both caches.
\<close>

section \<open>Queries\<close>

definition dal_get_device :: "string \<Rightarrow> world \<Rightarrow> device res" where
  "dal_get_device i w = (case w_db_fault w ''devices.first'' of
      Some e \<Rightarrow> Inl e
    | None \<Rightarrow> (case find (\<lambda>d. dev_id d = i) (w_devices w) of
        None \<Rightarrow> Inl RecordNotFound | Some d \<Rightarrow> Inr d))"

definition get_device_by_device_number :: "string \<Rightarrow> world \<Rightarrow> device res" where
  "get_device_by_device_number n w = (case w_db_fault w ''devices.first'' of
      Some e \<Rightarrow> Inl e
    | None \<Rightarrow> (case find (\<lambda>d. dev_device_number d = n) (w_devices w) of
        None \<Rightarrow> Inl RecordNotFound | Some d \<Rightarrow> Inr d))"

text \<open>The children of a gateway by address; of two rows with one address the later one is kept.\<close>

definition get_device_by_sub_device_address ::
  "string list \<Rightarrow> string \<Rightarrow> world \<Rightarrow> (string \<rightharpoonup> device) res" where
  "get_device_by_sub_device_address addrs parent w = (case w_db_fault w ''devices.find'' of
      Some e \<Rightarrow> Inl e
    | None \<Rightarrow> Inr (foldl (\<lambda>m d. case dev_sub_device_addr d of
          Some a \<Rightarrow> if a \<in> set addrs \<and> dev_parent_id d = Some parent then m(a \<mapsto> d) else m
        | None \<Rightarrow> m) (\<lambda>_. None) (w_devices w)))"

section \<open>The device cache\<close>

definition load_device :: "string \<Rightarrow> world \<Rightarrow> device res \<times> world" where
  "load_device i w = (case dal_get_device i w of
      Inl e \<Rightarrow> (Inl e, w)
    | Inr d \<Rightarrow> (case w_redis_fault w ''set'' i of
          Some e \<Rightarrow> (Inl e, w)
        | None \<Rightarrow> (Inr d, w\<lparr>w_device_cache := (w_device_cache w)(i \<mapsto> d)\<rparr>)))"

definition get_device_cache_by_id :: "string \<Rightarrow> world \<Rightarrow> device res \<times> world" where
  "get_device_cache_by_id i w = (case w_redis_fault w ''get'' i of
      Some _ \<Rightarrow> load_device i w
    | None \<Rightarrow> (case w_device_cache w i of Some d \<Rightarrow> (Inr d, w) | None \<Rightarrow> load_device i w))"

definition del_device_cache :: "string \<Rightarrow> world \<Rightarrow> gerror option \<times> world" where
  "del_device_cache i w = (case w_redis_fault w ''del'' i of
      Some e \<Rightarrow> (Some e, w)
    | None \<Rightarrow> (None, w\<lparr>w_device_cache := (w_device_cache w)(i := None)\<rparr>))"

section \<open>The device configuration cache\<close>

definition config_cache_key :: "string \<Rightarrow> string" where
  "config_cache_key i = i @ ''_config''"

definition load_device_config :: "string \<Rightarrow> world \<Rightarrow> device_config res \<times> world" where
  "load_device_config i w = (case w_db_fault w ''device_configs.first'' of
      Some e \<Rightarrow> (Inl e, w)
    | None \<Rightarrow> (case find (\<lambda>c. dc_id c = i) (w_configs w) of
          None \<Rightarrow> (Inl RecordNotFound, w)
        | Some c \<Rightarrow> (Inr c, (case w_redis_fault w ''set'' (config_cache_key i) of
              Some _ \<Rightarrow> w
            | None \<Rightarrow> w\<lparr>w_config_cache := (w_config_cache w)(config_cache_key i \<mapsto> c)\<rparr>))))"

definition get_device_config_by_id :: "string \<Rightarrow> world \<Rightarrow> device_config res \<times> world" where
  "get_device_config_by_id i w = (case w_redis_fault w ''get'' (config_cache_key i) of
      Some _ \<Rightarrow> load_device_config i w
    | None \<Rightarrow> (case w_config_cache w (config_cache_key i) of
          Some c \<Rightarrow> (Inr c, w) | None \<Rightarrow> load_device_config i w))"

definition del_device_config_cache :: "string \<Rightarrow> world \<Rightarrow> gerror option \<times> world" where
  "del_device_config_cache i w = (case w_redis_fault w ''del'' (config_cache_key i) of
      Some e \<Rightarrow> (Some e, w)
    | None \<Rightarrow> (None, w\<lparr>w_config_cache := (w_config_cache w)(config_cache_key i := None)\<rparr>))"

section \<open>Status updates\<close>

definition set_online :: "int \<Rightarrow> int \<Rightarrow> device \<Rightarrow> device" where
  "set_online now status d =
     (if status = 0 then d\<lparr>dev_is_online := status, dev_last_offline := Some now\<rparr>
      else d\<lparr>dev_is_online := status\<rparr>)"

definition update_devices :: "string \<Rightarrow> (device \<Rightarrow> device) \<Rightarrow> world \<Rightarrow> world" where
  "update_devices i f w = w\<lparr>w_devices := map (\<lambda>d. if dev_id d = i then f d else d) (w_devices w)\<rparr>"

definition update_device_status :: "string \<Rightarrow> int \<Rightarrow> world \<Rightarrow> bool res \<times> world" where
  "update_device_status i status w = (case dal_get_device i w of
      Inl e \<Rightarrow> (Inl e, w)
    | Inr d \<Rightarrow> (case w_db_fault w ''devices.update'' of
        Some e \<Rightarrow> (Inl e, w)
      | None \<Rightarrow>
          if status = 0 \<and> filter (\<lambda>d. dev_id d = i) (w_devices w) = []
          then (Inl (Errorf ''update device status failed, no rows affected''), w)
          else let w1 = update_devices i (set_online (w_now w) status) w;
                   w2 = snd (del_device_cache i w1)
               in (Inr True, spawn (SaveDeviceStatusHistory (dev_tenant_id d) i status) w2)))"

definition update_device_online_status :: "string \<Rightarrow> int \<Rightarrow> world \<Rightarrow> gerror option \<times> world" where
  "update_device_online_status i status w = (case w_db_fault w ''devices.update'' of
      Some e \<Rightarrow> (Some e, w)
    | None \<Rightarrow> (None, update_devices i (set_online (w_now w) status) w))"

definition save_device_status_history :: "string \<Rightarrow> string \<Rightarrow> int \<Rightarrow> world \<Rightarrow> gerror option \<times> world" where
  "save_device_status_history tenant i status w = (case w_db_fault w ''device_status_history.create'' of
      Some e \<Rightarrow> (Some e, w)
    | None \<Rightarrow> (None, w\<lparr>w_history := w_history w @
        [\<lparr>sh_tenant_id = tenant, sh_device_id = i, sh_status = status, sh_change_time = w_now w\<rparr>]\<rparr>))"

section \<open>The contract of a cache-aside read\<close>

locale cache_aside =
  fixes ok :: "'s \<Rightarrow> bool"
    and cached :: "'s \<Rightarrow> 'k \<Rightarrow> 'v option"
    and source :: "'s \<Rightarrow> 'k \<Rightarrow> 'v option"
    and lookup :: "'k \<Rightarrow> 's \<Rightarrow> 'v res \<times> 's"
  assumes lookup_ok: "ok s \<Longrightarrow> lookup k s = (r, s') \<Longrightarrow> ok s'"
    and lookup_value: "ok s \<Longrightarrow> lookup k s = (Inr v, s') \<Longrightarrow> cached s k = Some v \<or> source s k = Some v"
    and lookup_source: "ok s \<Longrightarrow> lookup k s = (r, s') \<Longrightarrow> source s' = source s"
    and lookup_cache: "ok s \<Longrightarrow> lookup k s = (r, s') \<Longrightarrow> cached s' k' = Some v \<Longrightarrow>
      cached s k' = Some v \<or> (k' = k \<and> source s k = Some v)"
begin

definition coherent :: "'s \<Rightarrow> bool" where
  "coherent s \<longleftrightarrow> (\<forall>k v. cached s k = Some v \<longrightarrow> source s k = Some v)"

lemma coherent_lookup: "ok s \<Longrightarrow> coherent s \<Longrightarrow> lookup k s = (r, s') \<Longrightarrow> coherent s'"
  unfolding coherent_def using lookup_source [of s k r s'] lookup_cache [of s k r s'] by auto

lemma coherent_value: "ok s \<Longrightarrow> coherent s \<Longrightarrow> lookup k s = (Inr v, s') \<Longrightarrow> source s k = Some v"
  unfolding coherent_def using lookup_value by blast

fun lookups :: "'k list \<Rightarrow> 's \<Rightarrow> 's" where
  "lookups [] s = s"
| "lookups (k # ks) s = lookups ks (snd (lookup k s))"

lemma lookups_ok: "ok s \<Longrightarrow> ok (lookups ks s)"
proof (induction ks arbitrary: s)
  case (Cons k ks)
  then show ?case using lookup_ok [of s k "fst (lookup k s)" "snd (lookup k s)"] by simp
qed simp

lemma coherent_lookups: "ok s \<Longrightarrow> coherent s \<Longrightarrow> coherent (lookups ks s)"
proof (induction ks arbitrary: s)
  case (Cons k ks)
  then show ?case
    using coherent_lookup [of s k "fst (lookup k s)" "snd (lookup k s)"]
      lookup_ok [of s k "fst (lookup k s)" "snd (lookup k s)"] by simp
qed simp

lemma source_lookups: "ok s \<Longrightarrow> source (lookups ks s) = source s"
proof (induction ks arbitrary: s)
  case (Cons k ks)
  then show ?case
    using lookup_source [of s k "fst (lookup k s)" "snd (lookup k s)"]
      lookup_ok [of s k "fst (lookup k s)" "snd (lookup k s)"] by simp
qed simp

lemma lookups_value:
  "ok s \<Longrightarrow> coherent s \<Longrightarrow> lookup k (lookups ks s) = (Inr v, s') \<Longrightarrow> source s k = Some v"
  using coherent_value [OF lookups_ok coherent_lookups] source_lookups by metis

end

definition device_row :: "world \<Rightarrow> string \<Rightarrow> device option" where
  "device_row w i = find (\<lambda>d. dev_id d = i) (w_devices w)"

definition config_row :: "world \<Rightarrow> string \<Rightarrow> device_config option" where
  "config_row w i = find (\<lambda>c. dc_id c = i) (w_configs w)"

definition config_cached :: "world \<Rightarrow> string \<Rightarrow> device_config option" where
  "config_cached w i = w_config_cache w (config_cache_key i)"

lemma config_cache_key_inj [simp]: "config_cache_key i = config_cache_key j \<longleftrightarrow> i = j"
  by (simp add: config_cache_key_def)

text \<open>A read is a hit that changes nothing, or a load.\<close>

lemma get_device_cases:
  "get_device_cache_by_id i w =
     (if w_redis_fault w ''get'' i = None \<and> w_device_cache w i \<noteq> None
      then (Inr (the (w_device_cache w i)), w) else load_device i w)"
  by (simp add: get_device_cache_by_id_def split: option.split)

lemma get_config_cases:
  "get_device_config_by_id i w =
     (if w_redis_fault w ''get'' (config_cache_key i) = None \<and> config_cached w i \<noteq> None
      then (Inr (the (config_cached w i)), w) else load_device_config i w)"
  by (simp add: get_device_config_by_id_def config_cached_def split: option.split)

lemma dal_get_device_row: "dal_get_device i w = Inr d \<Longrightarrow> device_row w i = Some d"
  by (auto simp: dal_get_device_def device_row_def split: option.splits)

lemma load_device_cases:
  "load_device i w = (r, w') \<Longrightarrow> w' = w \<and> (\<exists>e. r = Inl e) \<or>
     (\<exists>d. dal_get_device i w = Inr d \<and> w_redis_fault w ''set'' i = None \<and> r = Inr d
        \<and> w' = w\<lparr>w_device_cache := (w_device_cache w)(i \<mapsto> d)\<rparr>)"
  by (cases "dal_get_device i w"; cases "w_redis_fault w ''set'' i"; simp add: load_device_def; metis)

lemma load_config_cases:
  "load_device_config i w = (r, w') \<Longrightarrow> w' = w \<and> (\<exists>e. r = Inl e) \<or>
     (\<exists>c. config_row w i = Some c \<and> w_db_fault w ''device_configs.first'' = None \<and> r = Inr c \<and>
        (if w_redis_fault w ''set'' (config_cache_key i) = None
         then w' = w\<lparr>w_config_cache := (w_config_cache w)(config_cache_key i \<mapsto> c)\<rparr> else w' = w))"
  by (cases "w_db_fault w ''device_configs.first''"; cases "config_row w i";
      cases "w_redis_fault w ''set'' (config_cache_key i)")
    (auto simp: load_device_config_def config_row_def)

interpretation device_cache: cache_aside "\<lambda>_. True" w_device_cache device_row get_device_cache_by_id
proof (unfold_locales, goal_cases)
  case (2 w k d w')
  then show ?case
    by (auto simp: get_device_cases dest!: load_device_cases dal_get_device_row split: if_splits)
next
  case (3 w k r w')
  then show ?case
    by (auto simp: get_device_cases device_row_def dest!: load_device_cases split: if_splits)
next
  case (4 w k r w' k' d)
  then show ?case
    by (auto simp: get_device_cases dest!: load_device_cases dal_get_device_row split: if_splits)
qed simp

interpretation config_cache: cache_aside "\<lambda>_. True" config_cached config_row get_device_config_by_id
proof (unfold_locales, goal_cases)
  case (2 w k c w')
  then show ?case by (auto simp: get_config_cases dest!: load_config_cases split: if_splits)
next
  case (3 w k r w')
  then have "w_configs w' = w_configs w"
    by (auto simp: get_config_cases dest!: load_config_cases split: if_splits)
  then show ?case by (simp add: config_row_def fun_eq_iff)
next
  case (4 w k r w' k' c)
  then show ?case
    by (auto simp: get_config_cases config_cached_def dest!: load_config_cases split: if_splits)
qed simp

section \<open>Frames\<close>

lemma get_device_cache_by_id_frame [simp]:
  "w_devices (snd (get_device_cache_by_id i w)) = w_devices w"
  "w_storage (snd (get_device_cache_by_id i w)) = w_storage w"
  "w_tasks (snd (get_device_cache_by_id i w)) = w_tasks w"
  "w_db_fault (snd (get_device_cache_by_id i w)) = w_db_fault w"
  "w_redis_fault (snd (get_device_cache_by_id i w)) = w_redis_fault w"
  "w_now (snd (get_device_cache_by_id i w)) = w_now w"
  "w_diag (snd (get_device_cache_by_id i w)) = w_diag w"
  "w_configs (snd (get_device_cache_by_id i w)) = w_configs w"
  "w_config_cache (snd (get_device_cache_by_id i w)) = w_config_cache w"
  "w_status_redis (snd (get_device_cache_by_id i w)) = w_status_redis w"
  "w_effects (snd (get_device_cache_by_id i w)) = w_effects w"
  by (auto simp: get_device_cache_by_id_def load_device_def split: option.splits sum.splits)

lemma find_map_same:
  "(\<And>d. dev_id (f d) = dev_id d) \<Longrightarrow>
   find (\<lambda>d. dev_id d = k) (map (\<lambda>d. if dev_id d = i then f d else d) ds) =
   map_option (\<lambda>d. if dev_id d = i then f d else d) (find (\<lambda>d. dev_id d = k) ds)"
  by (induction ds) auto

lemma dev_id_set_online [simp]: "dev_id (set_online now st d) = dev_id d"
  by (simp add: set_online_def)

lemma device_row_id: "device_row w i = Some d \<Longrightarrow> dev_id d = i"
  by (auto simp: device_row_def dest: find_Some_iff_mem)

lemma device_row_update:
  "device_row (update_devices i (set_online now st) w) k =
     map_option (\<lambda>d. if k = i then set_online now st d else d) (device_row w k)"
proof -
  have "find (\<lambda>d. dev_id d = k) (w_devices (update_devices i (set_online now st) w)) =
        map_option (\<lambda>d. if dev_id d = i then set_online now st d else d) (device_row w k)"
    by (simp add: update_devices_def find_map_same device_row_def)
  also have "\<dots> = map_option (\<lambda>d. if k = i then set_online now st d else d) (device_row w k)"
    using device_row_id [of w k] by (cases "device_row w k") auto
  finally show ?thesis by (simp add: device_row_def)
qed

lemma device_row_cong: "w_devices w' = w_devices w \<Longrightarrow> device_row w' = device_row w"
  by (simp add: device_row_def fun_eq_iff)

section \<open>Properties\<close>


definition demo_device :: device where
  "demo_device = \<lparr>dev_id = ''d1'', dev_name = None, dev_voucher = ''v1'', dev_tenant_id = ''t1'',
     dev_is_enabled = ''enabled'', dev_activate_flag = ''active'', dev_device_number = ''n1'',
     dev_parent_id = None, dev_sub_device_addr = None, dev_device_config_id = Some ''c1'',
     dev_is_online = 0, dev_last_offline = None\<rparr>"

definition demo_world :: world where
  "demo_world = empty_world\<lparr>w_devices := [demo_device], w_now := 1000\<rparr>"


lemma status_update_written:
  assumes "\<forall>i d. w_device_cache w i = Some d \<longrightarrow> device_row w i = Some d"
    and "\<forall>c k. w_redis_fault w c k = None"
    and "update_device_status i st w = (Inr changed, w')"
  shows "changed \<and>
      (\<forall>j d. w_device_cache w' j = Some d \<longrightarrow> device_row w' j = Some d) \<and>
      (\<forall>j. j \<noteq> i \<longrightarrow> device_row w' j = device_row w j) \<and>
      (\<exists>d. device_row w i = Some d \<and> fst (get_device_cache_by_id i w') = Inr (set_online (w_now w) st d))"
proof -
  obtain d where d: "dal_get_device i w = Inr d" and f: "w_db_fault w ''devices.update'' = None"
      and c: changed
      and w': "w' = spawn (SaveDeviceStatusHistory (dev_tenant_id d) i st)
        (snd (del_device_cache i (update_devices i (set_online (w_now w) st) w)))"
    using assms(3)
    by (auto simp: update_device_status_def Let_def split: sum.splits option.splits if_splits)
  have row: "device_row w i = Some d" and nf: "w_db_fault w ''devices.first'' = None"
    using d by (auto simp: dal_get_device_def device_row_def split: option.splits)
  have cache: "w_device_cache w' = (w_device_cache w)(i := None)"
    using assms(2) by (simp add: w' spawn_def del_device_cache_def update_devices_def)
  have "w_devices w' = w_devices (update_devices i (set_online (w_now w) st) w)"
    by (simp add: w' spawn_def del_device_cache_def split: option.splits)
  then have rows: "device_row w' k = map_option (\<lambda>d. if k = i then set_online (w_now w) st d else d) (device_row w k)" for k
    using device_row_cong device_row_update by metis
  have nf': "w_db_fault w' = w_db_fault w"
    by (simp add: w' spawn_def del_device_cache_def update_devices_def split: option.splits)
  have "dal_get_device i w' = Inr (set_online (w_now w) st d)"
    using rows [of i] row nf unfolding dal_get_device_def nf' device_row_def by simp
  moreover have "w_redis_fault w' = w_redis_fault w"
    by (simp add: w' spawn_def del_device_cache_def update_devices_def split: option.splits)
  ultimately have "fst (get_device_cache_by_id i w') = Inr (set_online (w_now w) st d)"
    using assms(2) cache by (simp add: get_device_cache_by_id_def load_device_def)
  moreover have "device_row w' j = device_row w j" if "j \<noteq> i" for j
    using rows [of j] that by (simp add: option.map_id0 [unfolded id_def])
  moreover from this have "\<forall>j d. w_device_cache w' j = Some d \<longrightarrow> device_row w' j = Some d"
    using assms(1) cache by auto
  ultimately show ?thesis using c row by auto
qed

text \<open>A status update is visible to the next read. When Redis answers, UpdateDeviceStatus
  either fails and leaves rows and cache as they were, or returns true (it never returns false
  without an error, whatever the old status was), leaves the cache in agreement with the table,
  changes no other device, and the next read of the device returns the old row with the new
  status (and, for an offline status, the time as last offline time).\<close>
theorem update_status_visible:
  assumes "\<forall>i d. w_device_cache w i = Some d \<longrightarrow> device_row w i = Some d"
    and "\<forall>c k. w_redis_fault w c k = None"
    and "update_device_status i st w = (r, w')"
  shows "case r of
      Inl _ \<Rightarrow> w' = w
    | Inr changed \<Rightarrow> changed \<and>
        (\<forall>j d. w_device_cache w' j = Some d \<longrightarrow> device_row w' j = Some d) \<and>
        (\<forall>j. j \<noteq> i \<longrightarrow> device_row w' j = device_row w j) \<and>
        (\<exists>d. device_row w i = Some d \<and> fst (get_device_cache_by_id i w') = Inr (set_online (w_now w) st d))"
proof (cases r)
  case (Inl e)
  with assms(3) show ?thesis
    by (auto simp: update_device_status_def Let_def split: sum.splits option.splits if_splits)
next
  case (Inr changed)
  with assms(3) have "update_device_status i st w = (Inr changed, w')" by simp
  from status_update_written [OF assms(1,2) this] show ?thesis unfolding Inr by simp
qed

theorem update_status_visible_witness:
  "fst (get_device_cache_by_id ''d1'' (snd (update_device_status ''d1'' 0 demo_world))) =
     Inr (demo_device\<lparr>dev_last_offline := Some 1000\<rparr>)"
proof -
  have u: "\<exists>w'. update_device_status ''d1'' 0 demo_world = (Inr True, w')"
    by (simp add: update_device_status_def dal_get_device_def demo_world_def demo_device_def
        empty_world_def Let_def)
  have "\<forall>i d. w_device_cache demo_world i = Some d \<longrightarrow> device_row demo_world i = Some d"
      "\<forall>c k. w_redis_fault demo_world c k = None"
    by (simp_all add: demo_world_def empty_world_def)
  with u update_status_visible [of demo_world "''d1''" 0]
  obtain d where "device_row demo_world ''d1'' = Some d"
      "fst (get_device_cache_by_id ''d1'' (snd (update_device_status ''d1'' 0 demo_world))) =
       Inr (set_online (w_now demo_world) 0 d)"
    by fastforce
  then show ?thesis
    by (auto simp: device_row_def demo_world_def demo_device_def set_online_def)
qed

end
