(* ===== verification/Heartbeat.thy ===== *)
theory Heartbeat
  imports DeviceStore UplinkBus
begin

text \<open>
  \<open>internal/service/heartbeat_service.go\<close> and \<open>heartbeat_monitor.go\<close>: the heartbeat settings of a
  device, the Redis keys that expire when a device falls silent, and the monitor that turns an
  expired key into an offline message on the bus. Redis itself reports the expired keys.
\<close>

section \<open>The service\<close>

record heartbeat_config =
  hb_heartbeat :: int
  hb_online_timeout :: int

definition heartbeat_fields :: "heartbeat_config field_dec list" where
  "heartbeat_fields =
     [(''heartbeat'', on_field dec_int hb_heartbeat (\<lambda>v c. c\<lparr>hb_heartbeat := v\<rparr>)),
      (''online_timeout'', on_field dec_int hb_online_timeout (\<lambda>v c. c\<lparr>hb_online_timeout := v\<rparr>))]"

definition parse_heartbeat :: "string \<Rightarrow> heartbeat_config res" where
  "parse_heartbeat s = unmarshal (dec_struct heartbeat_fields) s \<lparr>hb_heartbeat = 0, hb_online_timeout = 0\<rparr>"

definition get_config :: "device \<Rightarrow> world \<Rightarrow> heartbeat_config option res \<times> world" where
  "get_config d w = (case dev_device_config_id d of
      None \<Rightarrow> (Inr None, w)
    | Some cid \<Rightarrow> (case get_device_config_by_id cid w of
        (Inl e, w') \<Rightarrow> (Inl (Wrapped ''failed to get device config: '' e), w')
      | (Inr dc, w') \<Rightarrow> (case dc_other_config dc of
          None \<Rightarrow> (Inr None, w')
        | Some s \<Rightarrow> (case parse_heartbeat s of
            Inl e \<Rightarrow> (Inl (Wrapped ''failed to parse other_config: '' e), w')
          | Inr c \<Rightarrow> (Inr (if hb_heartbeat c = 0 \<and> hb_online_timeout c = 0 then None else Some c), w')))))"

definition device_key :: "string \<Rightarrow> string \<Rightarrow> string" where
  "device_key device_id ty = ''device:'' @ device_id @ '':'' @ ty"

definition set_heartbeat :: "string \<Rightarrow> int \<Rightarrow> world \<Rightarrow> gerror option \<times> world" where
  "set_heartbeat i interval w =
     (if interval \<le> 0 then (Some (Errorf (''invalid heartbeat interval: '' @ show_int interval)), w)
      else case status_set (device_key i ''heartbeat'') ''1'' (interval * 1000) w of
        (Some e, w') \<Rightarrow> (Some (Wrapped ''failed to set heartbeat key: '' e), w')
      | (None, w') \<Rightarrow> (None, w'))"

definition set_timeout :: "string \<Rightarrow> int \<Rightarrow> world \<Rightarrow> gerror option \<times> world" where
  "set_timeout i timeout w =
     (if timeout \<le> 0 then (Some (Errorf (''invalid timeout: '' @ show_int timeout)), w)
      else case status_set (device_key i ''timeout'') ''1'' (timeout * 1000) w of
        (Some e, w') \<Rightarrow> (Some (Wrapped ''failed to set timeout key: '' e), w')
      | (None, w') \<Rightarrow> (None, w'))"

definition refresh_heartbeat_key ::
  "device \<Rightarrow> heartbeat_config option \<Rightarrow> world \<Rightarrow> gerror option \<times> world" where
  "refresh_heartbeat_key d config w = (case config of
      None \<Rightarrow> (None, w)
    | Some c \<Rightarrow> if 0 < hb_heartbeat c then set_heartbeat (dev_id d) (hb_heartbeat c) w
               else if 0 < hb_online_timeout c then set_timeout (dev_id d) (hb_online_timeout c) w
               else (None, w))"

definition delete_heartbeat_key :: "string \<Rightarrow> world \<Rightarrow> gerror option \<times> world" where
  "delete_heartbeat_key i w =
     (case status_del [device_key i ''heartbeat'', device_key i ''timeout''] w of
        (Some e, w') \<Rightarrow> (Some (Wrapped ''failed to delete heartbeat keys: '' e), w')
      | (None, w') \<Rightarrow> (None, w'))"

definition delete_timeout_key :: "string \<Rightarrow> world \<Rightarrow> gerror option \<times> world" where
  "delete_timeout_key i w = (case status_del [device_key i ''timeout''] w of
      (Some e, w') \<Rightarrow> (Some (Wrapped ''failed to delete timeout key: '' e), w')
    | (None, w') \<Rightarrow> (None, w'))"

section \<open>The monitor\<close>

text \<open>What an expired key stands for: the device and the source of its offline message.\<close>

definition expired_offline :: "string \<Rightarrow> (string \<times> string) option" where
  "expired_offline key =
     (if \<not> has_prefix key ''device:'' then None
      else let parts = split_on (CHR '':'') key in
        if length parts \<noteq> 3 then None
        else let ty = parts ! 2 in
          if ty \<noteq> ''heartbeat'' \<and> ty \<noteq> ''timeout'' then None
          else Some (parts ! 1, if ty = ''timeout'' then ''timeout_expired'' else ''heartbeat_expired''))"

text \<open>\<open>handleExpiredKey\<close>: the error of the publisher is only logged; without one nothing is sent.\<close>

definition handle_expired_key :: "string \<Rightarrow> bus option \<Rightarrow> bus option call" where
  "handle_expired_key key publisher = (case expired_offline key of
      None \<Rightarrow> Returns None publisher
    | Some (device_id, source) \<Rightarrow> (case publisher of
        None \<Rightarrow> Returns None publisher
      | Some b \<Rightarrow> (case publish_status_offline b device_id source of
          Returns _ b' \<Rightarrow> Returns None (Some b')
        | Waits \<Rightarrow> Waits
        | Panics \<Rightarrow> Panics)))"

text \<open>The keys Redis reports as expired.\<close>

definition key_expired :: "world \<Rightarrow> string \<Rightarrow> bool" where
  "key_expired w k = (case w_status_redis w k of None \<Rightarrow> False | Some (_, t) \<Rightarrow> t \<le> w_now w)"

section \<open>Parsing and building keys\<close>

lemma split_device_key:
  "CHR '':'' \<notin> set i \<Longrightarrow> CHR '':'' \<notin> set ty \<Longrightarrow>
   split_on (CHR '':'') (device_key i ty) = [''device'', i, ty]"
  using split_join [of "[''device'', i, ty]" "CHR '':''"] by (simp add: device_key_def)

lemma expired_offline_key:
  "CHR '':'' \<notin> set i \<Longrightarrow> expired_offline (device_key i ''heartbeat'') = Some (i, ''heartbeat_expired'')"
  "CHR '':'' \<notin> set i \<Longrightarrow> expired_offline (device_key i ''timeout'') = Some (i, ''timeout_expired'')"
proof -
  assume i: "CHR '':'' \<notin> set i"
  have p: "has_prefix (device_key i ty) ''device:''" for ty
    by (simp add: device_key_def)
  show "expired_offline (device_key i ''heartbeat'') = Some (i, ''heartbeat_expired'')"
      "expired_offline (device_key i ''timeout'') = Some (i, ''timeout_expired'')"
    using i by (simp_all add: expired_offline_def p split_device_key)
qed

lemma device_key_of_parts:
  assumes "has_prefix key ''device:''" "length (split_on (CHR '':'') key) = 3"
  shows "key = device_key (split_on (CHR '':'') key ! 1) (split_on (CHR '':'') key ! 2)"
    and "CHR '':'' \<notin> set (split_on (CHR '':'') key ! 1)"
proof -
  obtain r where k: "key = ''device'' @ CHR '':'' # r"
    using assms(1) by (auto simp: has_prefix_iff)
  have s: "split_on (CHR '':'') key = ''device'' # split_on (CHR '':'') r"
    unfolding k by (rule split_on_append) simp
  obtain a b where r: "split_on (CHR '':'') r = [a, b]"
    using assms(2) by (auto simp: s length_Suc_conv numeral_eq_Suc)
  have parts: "split_on (CHR '':'') key = [''device'', a, b]"
    by (simp add: s r)
  have "join_with [CHR '':''] [''device'', a, b] = key"
    using join_split [of "CHR '':''" key] by (simp only: parts)
  then show "key = device_key (split_on (CHR '':'') key ! 1) (split_on (CHR '':'') key ! 2)"
    unfolding parts by (simp add: device_key_def)
  show "CHR '':'' \<notin> set (split_on (CHR '':'') key ! 1)"
    using split_on_parts_no_sep [of a "CHR '':''" r] by (simp add: s r)
qed

text \<open>A refresh sets the heartbeat key, else the timeout key, else none.\<close>

lemma refresh_heartbeat_key_effect:
  assumes "\<forall>c k. w_redis_fault w c k = None"
  shows "refresh_heartbeat_key d (Some c) w =
    (None, if 0 < hb_heartbeat c
       then w\<lparr>w_status_redis := (w_status_redis w)(device_key (dev_id d) ''heartbeat'' \<mapsto>
                (''1'', w_now w + hb_heartbeat c * 1000))\<rparr>
       else if 0 < hb_online_timeout c
       then w\<lparr>w_status_redis := (w_status_redis w)(device_key (dev_id d) ''timeout'' \<mapsto>
                (''1'', w_now w + hb_online_timeout c * 1000))\<rparr>
       else w)"
  using assms
  by (simp add: refresh_heartbeat_key_def set_heartbeat_def set_timeout_def status_set_def)

section \<open>Properties\<close>

text \<open>The monitor recognises exactly the keys the heartbeat service sets. An expired key makes
  device i go offline with source heartbeat_expired or timeout_expired if and only if it is the
  heartbeat or the timeout key of i; keys of other families under the same prefix (statistics,
  failures) are ignored, and so are the keys of an id that contains a colon.\<close>
theorem expired_offline_iff:
  "expired_offline key = Some (i, source) \<longleftrightarrow>
     CHR '':'' \<notin> set i \<and>
     (key = device_key i ''heartbeat'' \<and> source = ''heartbeat_expired'' \<or>
      key = device_key i ''timeout'' \<and> source = ''timeout_expired'')"
proof
  assume e: "expired_offline key = Some (i, source)"
  let ?p = "split_on (CHR '':'') key"
  have p: "has_prefix key ''device:''" "length ?p = 3" "i = ?p ! 1"
      "?p ! 2 = ''heartbeat'' \<and> source = ''heartbeat_expired'' \<or> ?p ! 2 = ''timeout'' \<and> source = ''timeout_expired''"
    using e by (auto simp: expired_offline_def Let_def split: if_splits)
  show "CHR '':'' \<notin> set i \<and>
     (key = device_key i ''heartbeat'' \<and> source = ''heartbeat_expired'' \<or>
      key = device_key i ''timeout'' \<and> source = ''timeout_expired'')"
    using device_key_of_parts [OF p(1,2)] p(3,4) by metis
qed (auto simp: expired_offline_key)

end
