(* ===== verification/ScriptEngine.thy ===== *)
theory ScriptEngine
  imports DeviceStore
begin

text \<open>
  \<open>internal/processor\<close>: the data scripts of a device configuration. The script cache with its
  marker for absent scripts, the Lua executor with its sandbox and timeout, and \<open>Decode\<close> and
  \<open>Encode\<close>. The Lua virtual machine is a third-party package: it is the parameter \<open>lua\<close> of the
  executor. An operation whose Go code panics (a nil pointer) is \<open>None\<close>.
\<close>

section \<open>Constants, errors and input checks\<close>

definition get_script_type :: "string \<Rightarrow> string option" where
  "get_script_type ty =
     (if ty = ''telemetry'' then Some ''A'' else if ty = ''attribute'' then Some ''C''
      else if ty = ''event'' then Some ''F'' else if ty = ''telemetry_control'' then Some ''B''
      else if ty = ''attribute_set'' then Some ''D'' else if ty = ''command'' then Some ''E'' else None)"

definition ScriptTimeout :: int where "ScriptTimeout = 3000"

definition ScriptNotFoundMarker :: string where "ScriptNotFoundMarker = ''__NOT_FOUND__''"

definition get_cache_key :: "string \<Rightarrow> string \<Rightarrow> string" where
  "get_cache_key cfg st = cfg @ ''_'' @ st @ ''_script''"

definition script_not_found_error :: "string \<Rightarrow> string \<Rightarrow> gerror" where
  "script_not_found_error cfg st = ProcessorError ''SCRIPT_NOT_FOUND''
     (''script not found for device_config_id: '' @ cfg @ '', script_type: '' @ st) (Some ErrScriptNotFound)"

definition script_disabled_error :: "string \<Rightarrow> string \<Rightarrow> gerror" where
  "script_disabled_error cfg st = ProcessorError ''SCRIPT_DISABLED''
     (''script is disabled for device_config_id: '' @ cfg @ '', script_type: '' @ st) (Some ErrScriptDisabled)"

definition script_execute_error :: "gerror \<Rightarrow> gerror" where
  "script_execute_error e = ProcessorError ''SCRIPT_EXEC_FAILED'' ''script execution failed'' (Some e)"

definition script_timeout_error :: gerror where
  "script_timeout_error = ProcessorError ''SCRIPT_TIMEOUT'' ''script execution timeout'' (Some ErrScriptTimeout)"

definition invalid_input_error :: "string \<Rightarrow> gerror" where
  "invalid_input_error m = ProcessorError ''INVALID_INPUT'' m (Some ErrInvalidInput)"

definition cache_error :: "gerror \<Rightarrow> gerror" where
  "cache_error e = ProcessorError ''CACHE_ERROR'' ''cache operation failed'' (Some e)"

definition database_error :: "gerror \<Rightarrow> gerror" where
  "database_error e = ProcessorError ''DATABASE_ERROR'' ''database query failed'' (Some e)"

record decode_input =
  di_device_config_id :: string
  di_type :: string
  di_raw_data :: bytes
  di_timestamp :: int

record decode_output =
  do_success :: bool
  do_data :: bytes
  do_timestamp :: int
  do_error :: "gerror option"

record encode_input =
  ei_device_config_id :: string
  ei_type :: string
  ei_data :: bytes
  ei_timestamp :: int

record encode_output =
  eo_success :: bool
  eo_encoded_data :: bytes
  eo_error :: "gerror option"

definition validate_decode :: "decode_input \<Rightarrow> gerror option" where
  "validate_decode i =
     (if di_device_config_id i = [] then Some (invalid_input_error ''device_config_id is required'')
      else if di_type i = [] then Some (invalid_input_error ''type is required'')
      else if di_raw_data i = [] then Some (invalid_input_error ''raw_data is required'')
      else if di_type i \<noteq> ''telemetry'' \<and> di_type i \<noteq> ''attribute'' \<and> di_type i \<noteq> ''event''
      then Some (invalid_input_error ''invalid type for decode, expected: telemetry/attribute/event'')
      else None)"

definition validate_encode :: "encode_input \<Rightarrow> gerror option" where
  "validate_encode i =
     (if ei_device_config_id i = [] then Some (invalid_input_error ''device_config_id is required'')
      else if ei_type i = [] then Some (invalid_input_error ''type is required'')
      else if ei_data i = [] then Some (invalid_input_error ''data is required'')
      else if ei_type i \<noteq> ''telemetry_control'' \<and> ei_type i \<noteq> ''attribute_set'' \<and> ei_type i \<noteq> ''command''
      then Some (invalid_input_error ''invalid type for encode, expected: telemetry_control/attribute_set/command'')
      else None)"

section \<open>The script cache\<close>

record cached_script =
  cs_id :: string
  cs_content :: string
  cs_enable_flag :: string
  cs_script_type :: string

definition script_enabled :: "cached_script \<Rightarrow> bool" where
  "script_enabled s = (cs_enable_flag s = ''Y'')"

definition empty_script :: cached_script where
  "empty_script = \<lparr>cs_id = '''', cs_content = '''', cs_enable_flag = '''', cs_script_type = ''''\<rparr>"

definition marker_script :: cached_script where
  "marker_script = empty_script\<lparr>cs_id := ScriptNotFoundMarker\<rparr>"

definition script_json :: "cached_script \<Rightarrow> json" where
  "script_json s = JObj [(''id'', JStr (cs_id s)), (''content'', JStr (cs_content s)),
     (''enable_flag'', JStr (cs_enable_flag s)), (''script_type'', JStr (cs_script_type s))]"

definition script_fields :: "cached_script field_dec list" where
  "script_fields =
     [(''id'', on_field dec_string cs_id (\<lambda>v s. s\<lparr>cs_id := v\<rparr>)),
      (''content'', on_field dec_string cs_content (\<lambda>v s. s\<lparr>cs_content := v\<rparr>)),
      (''enable_flag'', on_field dec_string cs_enable_flag (\<lambda>v s. s\<lparr>cs_enable_flag := v\<rparr>)),
      (''script_type'', on_field dec_string cs_script_type (\<lambda>v s. s\<lparr>cs_script_type := v\<rparr>))]"

definition parse_script :: "string \<Rightarrow> cached_script res" where
  "parse_script s = unmarshal (dec_struct script_fields) s empty_script"

definition get_from_cache :: "string \<Rightarrow> world \<Rightarrow> cached_script option res" where
  "get_from_cache key w = (case redis_get key w of
      Inl e \<Rightarrow> Inl e
    | Inr text \<Rightarrow> (case parse_script text of
        Inl e \<Rightarrow> Inl e
      | Inr s \<Rightarrow> Inr (if cs_id s = ScriptNotFoundMarker then None else Some s)))"

definition set_to_cache :: "string \<Rightarrow> cached_script option \<Rightarrow> world \<Rightarrow> gerror option \<times> world" where
  "set_to_cache key s w =
     redis_set key (json_print (script_json (case s of None \<Rightarrow> marker_script | Some s' \<Rightarrow> s'))) w"

text \<open>\<open>dal.GetDataScriptByDeviceConfigIdAndScriptType\<close>.\<close>

definition dal_get_data_script :: "string option \<Rightarrow> string \<Rightarrow> world \<Rightarrow> data_script option res" where
  "dal_get_data_script cfg st w =
     (if cfg = None \<or> cfg = Some '''' then Inr None
      else case w_db_fault w ''data_scripts.first'' of
        Some e \<Rightarrow> if errors_is e RecordNotFound then Inr None else Inl e
      | None \<Rightarrow> Inr (find (\<lambda>s. Some (ds_device_config_id s) = cfg \<and> ds_script_type s = st
                             \<and> ds_enable_flag s = ''Y'') (w_scripts w)))"

text \<open>The conversion dereferences the content: a script row without content panics.\<close>

definition to_cached :: "data_script \<Rightarrow> cached_script option" where
  "to_cached s = (case ds_content s of None \<Rightarrow> None
     | Some c \<Rightarrow> Some \<lparr>cs_id = ds_id s, cs_content = c, cs_enable_flag = ds_enable_flag s,
                      cs_script_type = ds_script_type s\<rparr>)"

definition load_from_database :: "string \<Rightarrow> string \<Rightarrow> world \<Rightarrow> cached_script option res option" where
  "load_from_database cfg st w = (case dal_get_data_script (Some cfg) st w of
      Inl e \<Rightarrow> Some (Inl (database_error e))
    | Inr None \<Rightarrow> Some (Inr None)
    | Inr (Some s) \<Rightarrow> map_option (\<lambda>c. Inr (Some c)) (to_cached s))"

definition get_script :: "string \<Rightarrow> string \<Rightarrow> world \<Rightarrow> (cached_script res \<times> world) option" where
  "get_script cfg st w =
     (let key = get_cache_key cfg st in
      case get_from_cache key w of
        Inr (Some s) \<Rightarrow> Some (Inr s, w)
      | Inr None \<Rightarrow> Some (Inl (script_not_found_error cfg st), w)
      | Inl _ \<Rightarrow> (case load_from_database cfg st w of
          None \<Rightarrow> None
        | Some (Inl e) \<Rightarrow> Some (Inl e, w)
        | Some (Inr s) \<Rightarrow>
            let w' = snd (set_to_cache key s w)
            in Some (case s of None \<Rightarrow> Inl (script_not_found_error cfg st) | Some c \<Rightarrow> Inr c, w')))"

definition invalidate_cache :: "string \<Rightarrow> string \<Rightarrow> world \<Rightarrow> gerror option \<times> world" where
  "invalidate_cache cfg st w = (case redis_del (get_cache_key cfg st) w of
      (Some e, w') \<Rightarrow> (Some (cache_error e), w') | (None, w') \<Rightarrow> (None, w'))"

fun preload :: "string \<Rightarrow> string list \<Rightarrow> world \<Rightarrow> world option" where
  "preload cfg [] w = Some w"
| "preload cfg (st # sts) w = (case get_script cfg st w of
      None \<Rightarrow> None | Some (_, w') \<Rightarrow> preload cfg sts w')"

definition preload_scripts :: "string \<Rightarrow> world \<Rightarrow> world option" where
  "preload_scripts cfg w = preload cfg [''A'', ''B'', ''C'', ''D'', ''E'', ''F''] w"

section \<open>The Lua executor\<close>

datatype lua_global = LuaNative string | LuaTable "string \<Rightarrow> lua_global option"

type_synonym lua_env = "string \<Rightarrow> lua_global option"

datatype lua_value = LuaString bytes | LuaOther

text \<open>The virtual machine: what loading a script, asking for \<open>encodeInp\<close> and calling it with the
  message give in an environment of globals, and the milliseconds the run takes.\<close>

record lua_vm =
  vm_globals :: lua_env
  vm_load :: "lua_env \<Rightarrow> string \<Rightarrow> gerror option"
  vm_defines :: "lua_env \<Rightarrow> string \<Rightarrow> bool"
  vm_call :: "lua_env \<Rightarrow> string \<Rightarrow> bytes \<Rightarrow> lua_value res"
  vm_millis :: "lua_env \<Rightarrow> string \<Rightarrow> bytes \<Rightarrow> int"

definition setup_sandbox :: "lua_env \<Rightarrow> lua_env" where
  "setup_sandbox env =
     (let safe_os = (case env ''os'' of
          Some (LuaTable t) \<Rightarrow> (\<lambda>k. if k = ''time'' then t ''time'' else None)
        | _ \<Rightarrow> (\<lambda>_. None))
      in env(''os'' \<mapsto> LuaTable safe_os, ''io'' := None, ''dofile'' := None, ''loadfile'' := None,
             ''load'' := None, ''loadstring'' := None, ''rawget'' := None, ''rawset'' := None,
             ''setmetatable'' := None, ''getmetatable'' := None))"

definition run_encode_inp :: "lua_vm \<Rightarrow> lua_env \<Rightarrow> string \<Rightarrow> bytes \<Rightarrow> bytes res" where
  "run_encode_inp vm env script data = (case vm_load vm env script of
      Some e \<Rightarrow> Inl e
    | None \<Rightarrow>
        if \<not> vm_defines vm env script then Inl (Errorf ''function 'encodeInp' not found in script'')
        else case vm_call vm env script data of
          Inl e \<Rightarrow> Inl e
        | Inr (LuaString s) \<Rightarrow> Inr s
        | Inr LuaOther \<Rightarrow> Inl (Errorf ''script must return a string''))"

definition execute_decode_script :: "lua_vm \<Rightarrow> lua_env \<Rightarrow> string \<Rightarrow> bytes \<Rightarrow> bytes res" where
  "execute_decode_script vm env script raw = run_encode_inp vm env script raw"

definition execute_encode_script :: "lua_vm \<Rightarrow> lua_env \<Rightarrow> string \<Rightarrow> bytes \<Rightarrow> bytes res" where
  "execute_encode_script vm env script json = run_encode_inp vm env script json"

text \<open>The select between the result and the timer: a run that lasts the timeout is cut off.\<close>

definition execute_decode :: "lua_vm \<Rightarrow> string \<Rightarrow> bytes \<Rightarrow> bytes res" where
  "execute_decode vm script raw =
     (let env = setup_sandbox (vm_globals vm) in
      if ScriptTimeout \<le> vm_millis vm env script raw then Inl script_timeout_error
      else case execute_decode_script vm env script raw of
        Inl e \<Rightarrow> Inl (script_execute_error e) | Inr s \<Rightarrow> Inr s)"

definition execute_encode :: "lua_vm \<Rightarrow> string \<Rightarrow> bytes \<Rightarrow> bytes res" where
  "execute_encode vm script data =
     (let env = setup_sandbox (vm_globals vm) in
      if ScriptTimeout \<le> vm_millis vm env script data then Inl script_timeout_error
      else case execute_encode_script vm env script data of
        Inl e \<Rightarrow> Inl (script_execute_error e) | Inr s \<Rightarrow> Inr s)"

section \<open>Decode and Encode\<close>

text \<open>What a value that is not a JSON object is wrapped as: any JSON value, else the text.\<close>

definition raw_value :: "bytes \<Rightarrow> json" where
  "raw_value s = (case json_value s of Some v \<Rightarrow> v | None \<Rightarrow> JStr s)"

definition wrap_result :: "string \<Rightarrow> bytes \<Rightarrow> bytes" where
  "wrap_result ty s = (case unmarshal dec_any_map s None of
      Inr _ \<Rightarrow> s
    | Inl _ \<Rightarrow> json_print
        (if ty = ''event'' then JObj [(''method'', JStr ''_raw''), (''params'', JObj [(''value'', raw_value s)])]
         else JObj [(''_raw'', raw_value s)]))"

definition decode_failed :: "int \<Rightarrow> gerror \<Rightarrow> decode_output \<times> gerror option" where
  "decode_failed now e =
     (\<lparr>do_success = False, do_data = '''', do_timestamp = now, do_error = Some e\<rparr>, Some e)"

definition decode_ok :: "int \<Rightarrow> bytes \<Rightarrow> decode_output \<times> gerror option" where
  "decode_ok now d = (\<lparr>do_success = True, do_data = d, do_timestamp = now, do_error = None\<rparr>, None)"

definition decode :: "lua_vm \<Rightarrow> decode_input \<Rightarrow> world \<Rightarrow> ((decode_output \<times> gerror option) \<times> world) option" where
  "decode vm i w = (case validate_decode i of
      Some e \<Rightarrow> Some (decode_failed (w_now w) e, w)
    | None \<Rightarrow> (case get_script_type (di_type i) of
        None \<Rightarrow> Some (decode_failed (w_now w)
                  (invalid_input_error (''unsupported data type: '' @ di_type i)), w)
      | Some st \<Rightarrow> (case get_script (di_device_config_id i) st w of
          None \<Rightarrow> None
        | Some (Inl e, w') \<Rightarrow>
            Some (if errors_is e ErrScriptNotFound then decode_ok (w_now w) (di_raw_data i)
                  else decode_failed (w_now w) e, w')
        | Some (Inr s, w') \<Rightarrow>
            Some (if \<not> script_enabled s
                  then decode_failed (w_now w) (script_disabled_error (di_device_config_id i) st)
                  else case execute_decode vm (cs_content s) (di_raw_data i) of
                    Inl e \<Rightarrow> decode_failed (w_now w) e
                  | Inr r \<Rightarrow> decode_ok (w_now w) (wrap_result (di_type i) r), w'))))"

definition encode_failed :: "gerror \<Rightarrow> encode_output \<times> gerror option" where
  "encode_failed e = (\<lparr>eo_success = False, eo_encoded_data = '''', eo_error = Some e\<rparr>, Some e)"

definition encode_ok :: "bytes \<Rightarrow> encode_output \<times> gerror option" where
  "encode_ok d = (\<lparr>eo_success = True, eo_encoded_data = d, eo_error = None\<rparr>, None)"

definition encode :: "lua_vm \<Rightarrow> encode_input \<Rightarrow> world \<Rightarrow> ((encode_output \<times> gerror option) \<times> world) option" where
  "encode vm i w = (case validate_encode i of
      Some e \<Rightarrow> Some (encode_failed e, w)
    | None \<Rightarrow> (case get_script_type (ei_type i) of
        None \<Rightarrow> Some (encode_failed (invalid_input_error (''unsupported data type: '' @ ei_type i)), w)
      | Some st \<Rightarrow> (case get_script (ei_device_config_id i) st w of
          None \<Rightarrow> None
        | Some (Inl e, w') \<Rightarrow>
            Some (if errors_is e ErrScriptNotFound then encode_ok (ei_data i) else encode_failed e, w')
        | Some (Inr s, w') \<Rightarrow>
            Some (if \<not> script_enabled s
                  then encode_failed (script_disabled_error (ei_device_config_id i) st)
                  else case execute_encode vm (cs_content s) (ei_data i) of
                    Inl e \<Rightarrow> encode_failed e | Inr r \<Rightarrow> encode_ok r, w'))))"

section \<open>The cache text\<close>

lemma wf_script_json [simp]: "wf_json (script_json s)"
  by (simp add: script_json_def)

lemma parse_script_json [simp]: "parse_script (json_print (script_json s)) = Inr s"
proof -
  have "dec_struct script_fields (script_json s) empty_script = Inr s"
    by (simp add: script_json_def script_fields_def on_field_def fold_eq_def to_upper_def
        upper_char_def empty_script_def)
  then show ?thesis by (simp add: parse_script_def unmarshal_print)
qed

section \<open>The contract of the script cache\<close>

definition enabled_row :: "world \<Rightarrow> string \<Rightarrow> string \<Rightarrow> data_script option" where
  "enabled_row w cfg st = find (\<lambda>s. ds_device_config_id s = cfg \<and> ds_script_type s = st
     \<and> ds_enable_flag s = ''Y'') (w_scripts w)"

text \<open>What the table says: \<open>Some None\<close> for no enabled script, \<open>None\<close> where the load panics.\<close>

definition script_source :: "string \<Rightarrow> world \<Rightarrow> string \<Rightarrow> cached_script option option" where
  "script_source st w cfg =
     (if cfg = [] then Some None
      else case enabled_row w cfg st of None \<Rightarrow> Some None | Some s \<Rightarrow> map_option Some (to_cached s))"

definition script_cached :: "string \<Rightarrow> world \<Rightarrow> string \<Rightarrow> cached_script option option" where
  "script_cached st w cfg = (case w_redis w (get_cache_key cfg st) of
      None \<Rightarrow> None
    | Some text \<Rightarrow> (case parse_script text of
        Inl _ \<Rightarrow> None | Inr s \<Rightarrow> Some (if cs_id s = ScriptNotFoundMarker then None else Some s)))"

definition script_lookup :: "string \<Rightarrow> string \<Rightarrow> world \<Rightarrow> cached_script option res \<times> world" where
  "script_lookup st cfg w = (case get_script cfg st w of
      None \<Rightarrow> (Inl (Errorf ''panic''), w)
    | Some (Inr s, w') \<Rightarrow> (Inr (Some s), w')
    | Some (Inl e, w') \<Rightarrow> (if e = script_not_found_error cfg st then Inr None else Inl e, w'))"

text \<open>Ids are not the marker, and a failing query is not one of the two errors that mean an empty
  result.\<close>

definition scripts_ok :: "world \<Rightarrow> bool" where
  "scripts_ok w \<longleftrightarrow> (\<forall>s \<in> set (w_scripts w). ds_id s \<noteq> ScriptNotFoundMarker) \<and>
     (\<forall>e. w_db_fault w ''data_scripts.first'' = Some e \<longrightarrow>
        \<not> errors_is e RecordNotFound \<and> \<not> errors_is e ErrScriptNotFound)"

lemma get_cache_key_inj [simp]: "get_cache_key c st = get_cache_key c' st \<longleftrightarrow> c = c'"
  by (simp add: get_cache_key_def)

lemma get_from_cache_Inr:
  "get_from_cache (get_cache_key cfg st) w = Inr v \<Longrightarrow> script_cached st w cfg = Some v"
  by (auto simp: get_from_cache_def script_cached_def redis_get_def split: option.splits sum.splits)

lemma get_from_cache_cong:
  "w_redis w' = w_redis w \<Longrightarrow> w_redis_fault w' = w_redis_fault w \<Longrightarrow>
   get_from_cache k w' = get_from_cache k w"
  by (simp add: get_from_cache_def redis_get_def cong: option.case_cong)

lemma load_from_database_Inr:
  "scripts_ok w \<Longrightarrow> load_from_database cfg st w = Some (Inr v) \<Longrightarrow> script_source st w cfg = Some v"
  by (auto simp: load_from_database_def script_source_def enabled_row_def dal_get_data_script_def
      scripts_ok_def split: option.splits sum.splits if_splits; metis)

lemma load_from_database_Inl:
  "load_from_database cfg st w = Some (Inl e) \<Longrightarrow>
     \<exists>e'. e = database_error e' \<and> w_db_fault w ''data_scripts.first'' = Some e'"
  by (auto simp: load_from_database_def dal_get_data_script_def split: option.splits sum.splits if_splits)

lemma to_cached_id: "to_cached s = Some c \<Longrightarrow> cs_id c = ds_id s \<and> cs_enable_flag c = ds_enable_flag s"
  by (auto simp: to_cached_def split: option.splits)

lemma script_source_id:
  "scripts_ok w \<Longrightarrow> script_source st w cfg = Some (Some c) \<Longrightarrow>
   cs_id c \<noteq> ScriptNotFoundMarker \<and> cs_enable_flag c = ''Y''"
  by (auto simp: script_source_def enabled_row_def scripts_ok_def
      dest!: to_cached_id find_Some_iff_mem split: option.splits if_splits)

lemma set_to_cache_cached:
  assumes "case v of None \<Rightarrow> True | Some c \<Rightarrow> cs_id c \<noteq> ScriptNotFoundMarker"
    and "script_cached st (snd (set_to_cache (get_cache_key cfg st) v w)) cfg' = Some x"
  shows "script_cached st w cfg' = Some x \<or> cfg' = cfg \<and> x = v"
  using assms
  by (auto simp: script_cached_def set_to_cache_def redis_set_def marker_script_def
      split: option.splits if_splits)

lemma set_to_cache_frame [simp]:
  "w_scripts (snd (set_to_cache k v w)) = w_scripts w"
  "w_db_fault (snd (set_to_cache k v w)) = w_db_fault w"
  "w_now (snd (set_to_cache k v w)) = w_now w"
  by (auto simp: set_to_cache_def redis_set_def split: option.splits)

lemma script_source_cong: "w_scripts w' = w_scripts w \<Longrightarrow> script_source st w' = script_source st w"
  by (simp add: script_source_def enabled_row_def fun_eq_iff)

text \<open>Every outcome of \<open>GetScript\<close>: a hit, a database error, or a value loaded and cached.\<close>

lemma get_script_cases:
  assumes "get_script cfg st w = Some (r, w')"
  shows "(\<exists>v. get_from_cache (get_cache_key cfg st) w = Inr v \<and> w' = w
        \<and> r = (case v of None \<Rightarrow> Inl (script_not_found_error cfg st) | Some c \<Rightarrow> Inr c))
    \<or> (\<exists>e. r = Inl (database_error e) \<and> w_db_fault w ''data_scripts.first'' = Some e \<and> w' = w)
    \<or> (\<exists>v. load_from_database cfg st w = Some (Inr v) \<and> w' = snd (set_to_cache (get_cache_key cfg st) v w)
        \<and> r = (case v of None \<Rightarrow> Inl (script_not_found_error cfg st) | Some c \<Rightarrow> Inr c))"
proof (cases "get_from_cache (get_cache_key cfg st) w")
  case (Inr v)
  with assms show ?thesis by (cases v) (auto simp: get_script_def Let_def)
next
  case (Inl x)
  show ?thesis
  proof (cases "load_from_database cfg st w")
    case None
    with assms Inl show ?thesis by (simp add: get_script_def Let_def)
  next
    case (Some q)
    show ?thesis
    proof (cases q)
      case Inl': (Inl e)
      with Some load_from_database_Inl obtain e'
        where "e = database_error e'" "w_db_fault w ''data_scripts.first'' = Some e'" by blast
      with assms Inl Some Inl' show ?thesis by (auto simp: get_script_def Let_def)
    next
      case (Inr v)
      with assms Inl Some show ?thesis by (auto simp: get_script_def Let_def)
    qed
  qed
qed

lemma database_error_neq [simp]: "database_error e \<noteq> script_not_found_error cfg st"
  by (simp add: database_error_def script_not_found_error_def)

lemma script_lookup_cases:
  assumes "script_lookup st cfg w = (r, w')"
  shows "(\<exists>v. get_from_cache (get_cache_key cfg st) w = Inr v \<and> w' = w \<and> r = Inr v)
    \<or> ((\<exists>e. r = Inl e) \<and> w' = w)
    \<or> (\<exists>v. load_from_database cfg st w = Some (Inr v) \<and> r = Inr v
        \<and> w' = snd (set_to_cache (get_cache_key cfg st) v w))"
proof (cases "get_script cfg st w")
  case None
  with assms show ?thesis by (auto simp: script_lookup_def)
next
  case (Some p)
  obtain q u where p: "p = (q, u)" by force
  from get_script_cases [OF Some [unfolded p]] assms Some p show ?thesis
    by (fastforce simp: script_lookup_def split: option.splits sum.splits if_splits)
qed

interpretation script_cache: cache_aside scripts_ok "script_cached st" "script_source st" "script_lookup st"
  for st
proof (unfold_locales, goal_cases)
  case (1 w cfg r w')
  then show ?case by (auto dest!: script_lookup_cases simp: scripts_ok_def)
next
  case (2 w cfg v w')
  then show ?case by (auto dest!: script_lookup_cases get_from_cache_Inr load_from_database_Inr)
next
  case (3 w cfg r w')
  then show ?case by (auto dest!: script_lookup_cases intro: script_source_cong)
next
  case (4 w cfg r w' cfg' x)
  from script_lookup_cases [OF 4(2)] consider "w' = w"
    | v where "load_from_database cfg st w = Some (Inr v)" "w' = snd (set_to_cache (get_cache_key cfg st) v w)"
    by blast
  then show ?case
  proof cases
    case 1
    with 4 show ?thesis by simp
  next
    case 2
    then have src: "script_source st w cfg = Some v" using load_from_database_Inr 4(1) by blast
    then have "case v of None \<Rightarrow> True | Some c \<Rightarrow> cs_id c \<noteq> ScriptNotFoundMarker"
      using script_source_id [OF 4(1)] by (auto split: option.split)
    from set_to_cache_cached [OF this] 4(3) 2(2) src show ?thesis by blast
  qed
qed

text \<open>The cache agrees with the table for every script type; the code's types have one letter.\<close>

definition scripts_coherent :: "world \<Rightarrow> bool" where
  "scripts_coherent w \<longleftrightarrow> (\<forall>st. length st = 1 \<longrightarrow> script_cache.coherent st w)"

lemma get_script_type_length: "get_script_type ty = Some st \<Longrightarrow> length st = 1"
  by (auto simp: get_script_type_def split: if_splits)

lemma get_cache_key_types:
  assumes "length st = 1" "length st' = 1" "get_cache_key c st = get_cache_key c' st'"
  shows "c = c' \<and> st = st'"
  using assms by (auto simp: get_cache_key_def length_Suc_conv append_eq_append_conv2 Cons_eq_append_conv)

lemma scripts_coherent_set:
  assumes ok: "scripts_ok w" and coh: "scripts_coherent w" and st: "length st = 1"
    and src: "script_source st w cfg = Some v"
  shows "scripts_coherent (snd (set_to_cache (get_cache_key cfg st) v w))" (is "scripts_coherent ?w")
  unfolding scripts_coherent_def script_cache.coherent_def
proof (intro allI impI)
  fix t c x
  assume t: "length t = 1" and x: "script_cached t ?w c = Some x"
  have m: "case v of None \<Rightarrow> True | Some s \<Rightarrow> cs_id s \<noteq> ScriptNotFoundMarker"
    using script_source_id [OF ok] src by (auto split: option.split)
  have "script_source t w c = Some x"
  proof (cases "t = st")
    case True
    with set_to_cache_cached [OF m] x src coh st show ?thesis
      unfolding scripts_coherent_def script_cache.coherent_def by blast
  next
    case False
    then have "get_cache_key c t \<noteq> get_cache_key cfg st" using get_cache_key_types [OF t st] by blast
    then have "script_cached t w c = Some x"
      using x by (auto simp: script_cached_def set_to_cache_def redis_set_def split: option.splits)
    with coh t show ?thesis unfolding scripts_coherent_def script_cache.coherent_def by blast
  qed
  then show "script_source t ?w c = Some x" using script_source_cong [of ?w w] by simp
qed

section \<open>Decoding by the table\<close>

text \<open>The abstract specification of \<open>Decode\<close> on a valid input: no cache, no enabled flag, only the
  enabled script of the table.\<close>

definition decode_by :: "lua_vm \<Rightarrow> decode_input \<Rightarrow> int \<Rightarrow> cached_script option \<Rightarrow> decode_output \<times> gerror option" where
  "decode_by vm i now src = (case src of
      None \<Rightarrow> decode_ok now (di_raw_data i)
    | Some s \<Rightarrow> (case execute_decode vm (cs_content s) (di_raw_data i) of
        Inl e \<Rightarrow> decode_failed now e
      | Inr r \<Rightarrow> decode_ok now (wrap_result (di_type i) r)))"

lemma errors_is_not_found [simp]:
  "errors_is (script_not_found_error cfg st) ErrScriptNotFound"
  by (simp add: script_not_found_error_def)

lemma database_error_is: "errors_is (database_error e) ErrScriptNotFound \<longleftrightarrow> errors_is e ErrScriptNotFound"
  by (simp add: database_error_def)

lemma get_script_source:
  assumes ok: "scripts_ok w" and all: "scripts_coherent w" and st: "length st = 1"
    and g: "get_script cfg st w = Some (r, w')"
  shows "scripts_coherent w' \<and> scripts_ok w' \<and> script_source st w' = script_source st w \<and> w_now w' = w_now w \<and>
    ((\<exists>e. r = Inl (database_error e) \<and> \<not> errors_is e ErrScriptNotFound) \<or>
     (\<exists>v. script_source st w cfg = Some v \<and>
        r = (case v of None \<Rightarrow> Inl (script_not_found_error cfg st) | Some c \<Rightarrow> Inr c)))"
proof -
  have coh: "script_cache.coherent st w" using all st by (simp add: scripts_coherent_def)
  have coh': "scripts_coherent w'"
    using get_script_cases [OF g] all scripts_coherent_set [OF ok all st] load_from_database_Inr [OF ok] by blast
  let ?r' = "case r of Inr s \<Rightarrow> Inr (Some s)
    | Inl e \<Rightarrow> if e = script_not_found_error cfg st then Inr None else Inl e"
  have l: "script_lookup st cfg w = (?r', w')"
    using g by (simp add: script_lookup_def split: sum.split)
  have now: "w_now w' = w_now w" using get_script_cases [OF g] by auto
  have "(\<exists>e. r = Inl (database_error e) \<and> \<not> errors_is e ErrScriptNotFound) \<or>
     (\<exists>v. script_source st w cfg = Some v \<and>
        r = (case v of None \<Rightarrow> Inl (script_not_found_error cfg st) | Some c \<Rightarrow> Inr c))"
    using get_script_cases [OF g] ok coh get_from_cache_Inr [of cfg st w] load_from_database_Inr [OF ok, of cfg st]
    unfolding script_cache.coherent_def by (fastforce simp: scripts_ok_def)
  with coh' script_cache.lookup_ok [OF ok l]
    script_cache.lookup_source [OF ok l] now
  show ?thesis by simp
qed

lemma raw_value_wf: "wf_json (raw_value s) \<and> canon_json (raw_value s)"
  by (auto simp: raw_value_def dest: json_value_wf split: option.split)

section \<open>Properties\<close>

text \<open>C5: Decode behaves as if it read the table. Over a script cache that agrees with the table,
  Decode of a valid input either fails with a database error, or gives what the enabled script of
  the device configuration gives: the raw data unchanged when there is none, and otherwise the
  wrapped result, the timeout or the script error. It leaves the cache in agreement with the table
  for every configuration and script type (one letter, as the code's types are), and it never ends in the script-is-disabled error.\<close>
theorem decode_refines_table:
  assumes "scripts_ok w" "scripts_coherent w"
    and "validate_decode i = None" "get_script_type (di_type i) = Some st"
    and "decode vm i w = Some (out, w')"
  shows "scripts_coherent w' \<and>
    ((\<exists>e. out = decode_failed (w_now w) (database_error e)) \<or>
     (\<exists>src. script_source st w (di_device_config_id i) = Some src \<and> out = decode_by vm i (w_now w) src))"
proof -
  obtain r u where g: "get_script (di_device_config_id i) st w = Some (r, u)"
    using assms(3-5) by (auto simp: decode_def split: option.splits)
  note s = get_script_source [OF assms(1,2) get_script_type_length [OF assms(4)] g]
  show ?thesis
  proof (cases "\<exists>e. r = Inl (database_error e) \<and> \<not> errors_is e ErrScriptNotFound")
    case True
    with s g assms(3-5) show ?thesis by (auto simp: decode_def database_error_is)
  next
    case False
    with s obtain v where v: "script_source st w (di_device_config_id i) = Some v"
        "r = (case v of None \<Rightarrow> Inl (script_not_found_error (di_device_config_id i) st) | Some c \<Rightarrow> Inr c)"
      by blast
    show ?thesis
    proof (cases v)
      case None
      with v s g assms(3-5) show ?thesis by (auto simp: decode_def decode_by_def)
    next
      case (Some c)
      then have "script_enabled c"
        using v(1) script_source_id [OF assms(1)] by (auto simp: script_enabled_def)
      with Some v s g assms(3-5) show ?thesis by (auto simp: decode_def decode_by_def)
    qed
  qed
qed

text \<open>What a script returns always reaches the flows as a JSON object: the decoded text
  unmarshals into a map, and it is the script's own text when that already did; any other JSON
  value, or text that is not JSON, is kept as the value of the single key _raw (for an event, as
  the params value of the method _raw).\<close>
theorem wrap_result_is_object:
  "\<exists>m. unmarshal dec_any_map (wrap_result ty r) None = Inr m \<and>
     (if is_ok (unmarshal dec_any_map r None) then wrap_result ty r = r
      else m = Some (if ty = ''event''
        then [(''method'', JStr ''_raw''), (''params'', JObj [(''value'', raw_value r)])]
        else [(''_raw'', raw_value r)]))"
proof (cases "unmarshal dec_any_map r None")
  case (Inr m)
  then show ?thesis by (simp add: wrap_result_def)
next
  case (Inl e)
  have lt: "''method'' < ''params''" by simp
  show ?thesis
  proof (cases "ty = ''event''")
    case True
    let ?m = "[(''method'', JStr ''_raw''), (''params'', JObj [(''value'', raw_value r)])]"
    have "wf_json (JObj ?m)" "canon_json (JObj ?m)" using raw_value_wf lt by auto
    from unmarshal_any_map_print [OF this] True Inl show ?thesis
      by (simp add: wrap_result_def del: json_print.simps)
  next
    case False
    let ?m = "[(''_raw'', raw_value r)]"
    have "wf_json (JObj ?m)" "canon_json (JObj ?m)" using raw_value_wf by auto
    from unmarshal_any_map_print [OF this] False Inl show ?thesis
      by (simp add: wrap_result_def del: json_print.simps)
  qed
qed

section \<open>A concrete run\<close>

text \<open>A machine whose only script answers with a number.\<close>

definition demo_vm :: lua_vm where
  "demo_vm = \<lparr>vm_globals = (\<lambda>_. None), vm_load = (\<lambda>_ _. None), vm_defines = (\<lambda>_ _. True),
     vm_call = (\<lambda>_ _ _. Inr (LuaString ''42'')), vm_millis = (\<lambda>_ _ _. 5)\<rparr>"

definition demo_script :: data_script where
  "demo_script = \<lparr>ds_id = ''s1'', ds_name = ''n'', ds_device_config_id = ''c1'', ds_enable_flag = ''Y'',
     ds_content = Some ''x'', ds_script_type = ''A'', ds_last_analog_input = None, ds_description = None,
     ds_created_at = None, ds_updated_at = None, ds_remark = None\<rparr>"

definition demo_input :: decode_input where
  "demo_input = \<lparr>di_device_config_id = ''c1'', di_type = ''telemetry'', di_raw_data = ''raw'', di_timestamp = 0\<rparr>"

definition demo_script_world :: world where
  "demo_script_world = demo_world\<lparr>w_scripts := [demo_script]\<rparr>"

theorem decode_refines_table_witness:
  "\<exists>out w'. decode demo_vm demo_input demo_script_world = Some (out, w') \<and>
     out = decode_ok 1000 (wrap_result ''telemetry'' ''42'')"
proof -
  have ok: "scripts_ok demo_script_world" "scripts_coherent demo_script_world"
    by (simp_all add: scripts_ok_def scripts_coherent_def script_cache.coherent_def script_cached_def demo_script_world_def
        demo_world_def empty_world_def demo_script_def ScriptNotFoundMarker_def)
  have v: "validate_decode demo_input = None" "get_script_type (di_type demo_input) = Some ''A''"
    by (simp_all add: validate_decode_def get_script_type_def demo_input_def)
  have src: "script_source ''A'' demo_script_world ''c1'' =
      Some (Some \<lparr>cs_id = ''s1'', cs_content = ''x'', cs_enable_flag = ''Y'', cs_script_type = ''A''\<rparr>)"
    by (simp add: script_source_def enabled_row_def to_cached_def demo_script_world_def demo_script_def)
  have "load_from_database ''c1'' ''A'' demo_script_world =
      Some (Inr (Some \<lparr>cs_id = ''s1'', cs_content = ''x'', cs_enable_flag = ''Y'', cs_script_type = ''A''\<rparr>))"
    by (simp add: load_from_database_def dal_get_data_script_def to_cached_def demo_script_world_def
        demo_world_def empty_world_def demo_script_def)
  then obtain out w' where d: "decode demo_vm demo_input demo_script_world = Some (out, w')"
      "\<not> (\<exists>e. out = decode_failed 1000 (database_error e))"
    using v by (simp add: decode_def demo_input_def get_script_def Let_def get_from_cache_def redis_get_def
        demo_script_world_def demo_world_def empty_world_def script_enabled_def execute_decode_def
        demo_vm_def ScriptTimeout_def execute_decode_script_def run_encode_inp_def decode_failed_def decode_ok_def)
  have now: "w_now demo_script_world = 1000" by (simp add: demo_script_world_def demo_world_def)
  from decode_refines_table [OF ok v d(1)] d(2) src now
  have "out = decode_by demo_vm demo_input 1000
      (Some \<lparr>cs_id = ''s1'', cs_content = ''x'', cs_enable_flag = ''Y'', cs_script_type = ''A''\<rparr>)"
    by (auto simp: demo_input_def)
  also have "\<dots> = decode_ok 1000 (wrap_result ''telemetry'' ''42'')"
    by (simp add: decode_by_def execute_decode_def demo_vm_def ScriptTimeout_def
        execute_decode_script_def run_encode_inp_def demo_input_def)
  finally show ?thesis using d(1) by blast
qed

end
