(* ===== verification/DataScripts.thy ===== *)
theory DataScripts
  imports ScriptEngine
begin

text \<open>
  \<open>internal/service/data_script.go\<close> with \<open>internal/dal/data_script.go\<close>: creating, updating,
  deleting and enabling data scripts, and what they do to the script cache. A nil script whose
  fields are read is a panic, \<open>None\<close>. \<open>Updates\<close> of the database library writes the non-zero
  fields of its argument.
\<close>

section \<open>Queries\<close>

record update_script_req =
  us_id :: string
  us_name :: string
  us_device_config_id :: string
  us_content :: "string option"
  us_script_type :: string
  us_last_analog_input :: "string option"
  us_description :: "string option"
  us_remark :: "string option"

record create_script_req =
  cr_name :: string
  cr_device_config_id :: string
  cr_content :: "string option"
  cr_script_type :: string
  cr_last_analog_input :: "string option"
  cr_description :: "string option"
  cr_remark :: "string option"

definition map_scripts :: "string \<Rightarrow> (data_script \<Rightarrow> data_script) \<Rightarrow> world \<Rightarrow> world" where
  "map_scripts i f w = w\<lparr>w_scripts := map (\<lambda>s. if ds_id s = i then f s else s) (w_scripts w)\<rparr>"

definition dal_create_data_script :: "data_script \<Rightarrow> world \<Rightarrow> gerror option \<times> world" where
  "dal_create_data_script s w = (case w_db_fault w ''data_scripts.create'' of
      Some e \<Rightarrow> (Some e, w)
    | None \<Rightarrow> (None, w\<lparr>w_scripts := w_scripts w @ [s]\<rparr>))"

definition nonzero :: "string \<Rightarrow> string \<Rightarrow> string" where
  "nonzero new old = (if new = [] then old else new)"

definition non_nil :: "'a option \<Rightarrow> 'a option \<Rightarrow> 'a option" where
  "non_nil new old = (case new of None \<Rightarrow> old | Some v \<Rightarrow> Some v)"

definition apply_update :: "int \<Rightarrow> update_script_req \<Rightarrow> data_script \<Rightarrow> data_script" where
  "apply_update now r s = s\<lparr>
     ds_name := nonzero (us_name r) (ds_name s),
     ds_device_config_id := nonzero (us_device_config_id r) (ds_device_config_id s),
     ds_content := non_nil (us_content r) (ds_content s),
     ds_script_type := nonzero (us_script_type r) (ds_script_type s),
     ds_last_analog_input := non_nil (us_last_analog_input r) (ds_last_analog_input s),
     ds_description := non_nil (us_description r) (ds_description s),
     ds_remark := non_nil (us_remark r) (ds_remark s),
     ds_updated_at := Some now\<rparr>"

definition dal_update_data_script :: "update_script_req \<Rightarrow> world \<Rightarrow> gerror option \<times> world" where
  "dal_update_data_script r w = (case w_db_fault w ''data_scripts.update'' of
      Some e \<Rightarrow> (Some e, w)
    | None \<Rightarrow> (None, map_scripts (us_id r) (apply_update (w_now w) r) w))"

text \<open>The error of a failed delete is dropped, because no row was affected.\<close>

definition dal_delete_data_script :: "string \<Rightarrow> world \<Rightarrow> gerror option \<times> world" where
  "dal_delete_data_script i w = (case w_db_fault w ''data_scripts.delete'' of
      Some _ \<Rightarrow> (None, w)
    | None \<Rightarrow> (None, w\<lparr>w_scripts := filter (\<lambda>s. ds_id s \<noteq> i) (w_scripts w)\<rparr>))"

definition dal_get_data_script_by_id :: "string \<Rightarrow> world \<Rightarrow> data_script res" where
  "dal_get_data_script_by_id i w = (case w_db_fault w ''data_scripts.by_id'' of
      Some e \<Rightarrow> if errors_is e RecordNotFound then Inl (Errorf ''data script not found'') else Inl e
    | None \<Rightarrow> (case find (\<lambda>s. ds_id s = i) (w_scripts w) of
        None \<Rightarrow> Inl (Errorf ''data script not found'') | Some s \<Rightarrow> Inr s))"

definition only_one_script_type_enabled :: "string \<Rightarrow> world \<Rightarrow> gerror option" where
  "only_one_script_type_enabled i w = (case dal_get_data_script_by_id i w of
      Inl e \<Rightarrow> Some e
    | Inr s \<Rightarrow>
        if ds_enable_flag s = ''Y'' then Some (Errorf ''the script has been enabled'')
        else case w_db_fault w ''data_scripts.count'' of
          Some e \<Rightarrow> Some e
        | None \<Rightarrow>
            if filter (\<lambda>t. ds_id t \<noteq> ds_id s \<and> ds_device_config_id t = ds_device_config_id s
                 \<and> ds_script_type t = ds_script_type s \<and> ds_enable_flag t = ''Y'') (w_scripts w) \<noteq> []
            then Some (Errorf ''other script has been enabled'') else None)"

definition dal_enable_data_script :: "string \<Rightarrow> string \<Rightarrow> world \<Rightarrow> gerror option \<times> world" where
  "dal_enable_data_script i flag w = (case w_db_fault w ''data_scripts.update'' of
      Some e \<Rightarrow> (Some e, w)
    | None \<Rightarrow> (None, map_scripts i
        (\<lambda>s. s\<lparr>ds_enable_flag := nonzero flag (ds_enable_flag s), ds_updated_at := Some (w_now w)\<rparr>) w))"

section \<open>The service\<close>

definition del_data_script_cache :: "data_script \<Rightarrow> world \<Rightarrow> gerror option \<times> world" where
  "del_data_script_cache s w = redis_del (get_cache_key (ds_device_config_id s) (ds_script_type s)) w"

definition db_error :: "gerror \<Rightarrow> gerror" where
  "db_error e = Wrapped ''sql_error: '' e"

text \<open>\<open>uuid\<close> is the fresh id.\<close>

definition create_data_script :: "string \<Rightarrow> create_script_req \<Rightarrow> world \<Rightarrow> data_script res \<times> world" where
  "create_data_script uuid r w =
     (let s = \<lparr>ds_id = uuid, ds_name = cr_name r, ds_device_config_id = cr_device_config_id r,
               ds_enable_flag = ''N'', ds_content = cr_content r, ds_script_type = cr_script_type r,
               ds_last_analog_input = cr_last_analog_input r, ds_description = cr_description r,
               ds_created_at = Some (w_now w), ds_updated_at = Some (w_now w), ds_remark = cr_remark r\<rparr>
      in case dal_create_data_script s w of
           (Some e, w') \<Rightarrow> (Inl (db_error e), w') | (None, w') \<Rightarrow> (Inr s, w'))"

text \<open>The reload ignores its error, and the cache key is read off the reloaded script.\<close>

definition update_data_script :: "update_script_req \<Rightarrow> world \<Rightarrow> (gerror option \<times> world) option" where
  "update_data_script r w = (case dal_update_data_script r w of
      (Some e, w') \<Rightarrow> Some (Some (db_error e), w')
    | (None, w') \<Rightarrow> (case dal_get_data_script_by_id (us_id r) w' of
        Inl _ \<Rightarrow> None
      | Inr s \<Rightarrow> (case del_data_script_cache s w' of
          (Some e, w'') \<Rightarrow> Some (Some (db_error e), w'') | (None, w'') \<Rightarrow> Some (None, w''))))"

definition delete_data_script :: "string \<Rightarrow> world \<Rightarrow> gerror option \<times> world" where
  "delete_data_script i w = (case dal_get_data_script_by_id i w of
      Inl e \<Rightarrow> (Some (db_error e), w)
    | Inr s \<Rightarrow> (case dal_delete_data_script i w of
        (Some e, w') \<Rightarrow> (Some (db_error e), w')
      | (None, w') \<Rightarrow> (None, if ds_enable_flag s = ''Y'' then snd (del_data_script_cache s w') else w')))"

definition enable_data_script :: "string \<Rightarrow> string \<Rightarrow> world \<Rightarrow> (gerror option \<times> world) option" where
  "enable_data_script i flag w =
     (case (if flag = ''Y'' then only_one_script_type_enabled i w else None) of
        Some e \<Rightarrow> Some (Some (db_error e), w)
      | None \<Rightarrow> (case dal_enable_data_script i flag w of
          (Some e, w') \<Rightarrow> Some (Some (db_error e), w')
        | (None, w') \<Rightarrow>
            if flag = ''N'' then (case dal_get_data_script_by_id i w' of
                Inl _ \<Rightarrow> None
              | Inr s \<Rightarrow> (case del_data_script_cache s w' of
                  (Some e, w'') \<Rightarrow> Some (Some (db_error e), w'') | (None, w'') \<Rightarrow> Some (None, w'')))
            else Some (None, w')))"

section \<open>Coherence of the script cache\<close>

lemma scripts_coherent_del:
  assumes "scripts_coherent w"
    and "w_redis w' = (w_redis w)(get_cache_key cfg st := None)"
    and "\<And>c t. (c, t) \<noteq> (cfg, st) \<Longrightarrow> script_source t w' c = script_source t w c"
  shows "scripts_coherent w'"
  unfolding scripts_coherent_def script_cache.coherent_def
proof (intro allI impI)
  fix t :: string and c v
  assume t: "length t = 1"
  assume v: "script_cached t w' c = Some v"
  then have ne: "(c, t) \<noteq> (cfg, st)" using assms(2) by (auto simp: script_cached_def)
  have "script_cached t w c = Some v"
    using v assms(2) by (auto simp: script_cached_def split: option.splits if_splits)
  with assms(1) t have "script_source t w c = Some v"
    by (simp add: scripts_coherent_def script_cache.coherent_def)
  then show "script_source t w' c = Some v" using assms(3) [OF ne] by simp
qed

lemma scripts_coherent_same:
  assumes "scripts_coherent w" "w_redis w' = w_redis w" "\<And>c t. script_source t w' c = script_source t w c"
  shows "scripts_coherent w'"
  using assms by (simp add: scripts_coherent_def script_cache.coherent_def script_cached_def)

lemma enabled_row_map:
  assumes "\<And>s. s \<in> set (w_scripts w) \<Longrightarrow> ds_id s = i \<Longrightarrow>
      \<not> (ds_device_config_id s = c \<and> ds_script_type s = t) \<and>
      \<not> (ds_device_config_id (f s) = c \<and> ds_script_type (f s) = t)"
  shows "script_source t (map_scripts i f w) c = script_source t w c"
proof -
  let ?P = "\<lambda>s. ds_device_config_id s = c \<and> ds_script_type s = t \<and> ds_enable_flag s = ''Y''"
  have "(\<forall>s \<in> set ss. ds_id s = i \<longrightarrow>
      \<not> (ds_device_config_id s = c \<and> ds_script_type s = t) \<and>
      \<not> (ds_device_config_id (f s) = c \<and> ds_script_type (f s) = t)) \<Longrightarrow>
    find ?P (map (\<lambda>s. if ds_id s = i then f s else s) ss) = find ?P ss" for ss
    by (induction ss) auto
  with assms show ?thesis by (simp add: script_source_def enabled_row_def map_scripts_def)
qed

lemma enabled_row_filter:
  assumes "\<And>s. s \<in> set (w_scripts w) \<Longrightarrow> ds_id s = i \<Longrightarrow>
      \<not> (ds_device_config_id s = c \<and> ds_script_type s = t \<and> ds_enable_flag s = ''Y'')"
    and "w_scripts w' = filter (\<lambda>s. ds_id s \<noteq> i) (w_scripts w)"
  shows "script_source t w' c = script_source t w c"
proof -
  let ?P = "\<lambda>s. ds_device_config_id s = c \<and> ds_script_type s = t \<and> ds_enable_flag s = ''Y''"
  have "(\<forall>s \<in> set ss. ds_id s = i \<longrightarrow> \<not> ?P s) \<Longrightarrow> find ?P (filter (\<lambda>s. ds_id s \<noteq> i) ss) = find ?P ss" for ss
    by (induction ss) auto
  moreover have "\<forall>s \<in> set (w_scripts w). ds_id s = i \<longrightarrow> \<not> ?P s" using assms(1) by blast
  ultimately have "find ?P (filter (\<lambda>s. ds_id s \<noteq> i) (w_scripts w)) = find ?P (w_scripts w)" by blast
  then have "enabled_row w' c t = enabled_row w c t" by (simp only: enabled_row_def assms(2))
  then show ?thesis by (simp add: script_source_def)
qed

definition unique_ids :: "world \<Rightarrow> bool" where
  "unique_ids w \<longleftrightarrow> distinct (map ds_id (w_scripts w))"

lemma unique_ids_eq:
  "unique_ids w \<Longrightarrow> s \<in> set (w_scripts w) \<Longrightarrow> t \<in> set (w_scripts w) \<Longrightarrow> ds_id s = ds_id t \<Longrightarrow> s = t"
  by (auto simp: unique_ids_def distinct_map dest: inj_onD)

lemma script_by_id:
  "dal_get_data_script_by_id i w = Inr s \<Longrightarrow> s \<in> set (w_scripts w) \<and> ds_id s = i"
  by (auto simp: dal_get_data_script_by_id_def dest!: find_Some_iff_mem split: option.splits if_splits)

lemma script_by_id_map:
  assumes "dal_get_data_script_by_id i (map_scripts i f w) = Inr s" "\<And>s. ds_id (f s) = ds_id s"
  shows "\<exists>s0. s0 \<in> set (w_scripts w) \<and> ds_id s0 = i \<and> s = f s0"
  using script_by_id [OF assms(1)] assms(2) by (auto simp: map_scripts_def split: if_splits)

lemma coherent_map_del:
  assumes "scripts_coherent w" "unique_ids w" "\<And>s. ds_id (f s) = ds_id s"
    and "\<And>s. s \<in> set (w_scripts w) \<Longrightarrow> ds_id s = i \<Longrightarrow>
      ds_device_config_id (f s) = ds_device_config_id s \<and> ds_script_type (f s) = ds_script_type s"
    and "dal_get_data_script_by_id i (map_scripts i f w) = Inr s"
    and "w_redis_fault w ''del'' = (\<lambda>_. None)"
  shows "scripts_coherent (snd (del_data_script_cache s (map_scripts i f w)))"
proof -
  obtain s0 where s0: "s0 \<in> set (w_scripts w)" "ds_id s0 = i" "s = f s0"
    using script_by_id_map [OF assms(5,3)] by blast
  have k: "ds_device_config_id s = ds_device_config_id s0 \<and> ds_script_type s = ds_script_type s0"
    using assms(4) [OF s0(1,2)] s0(3) by simp
  let ?w = "map_scripts i f w"
  have fault: "w_redis_fault ?w ''del'' = (\<lambda>_. None)" using assms(6) by (simp add: map_scripts_def)
  have red: "w_redis (snd (del_data_script_cache s ?w)) =
      (w_redis w)(get_cache_key (ds_device_config_id s0) (ds_script_type s0) := None)"
    using fault k by (simp add: del_data_script_cache_def redis_del_def) (simp add: map_scripts_def)
  have scr: "w_scripts (snd (del_data_script_cache s ?w)) = w_scripts ?w"
    by (simp add: del_data_script_cache_def redis_del_def split: option.split)
  show ?thesis
  proof (rule scripts_coherent_del [OF assms(1) red])
    fix c t assume "(c, t) \<noteq> (ds_device_config_id s0, ds_script_type s0)"
    then have "script_source t ?w c = script_source t w c"
      using assms(2,4) s0 unique_ids_eq by (intro enabled_row_map) (metis prod.inject)
    then show "script_source t (snd (del_data_script_cache s ?w)) c = script_source t w c"
      using script_source_cong [OF scr] by simp
  qed
qed

section \<open>Properties\<close>

lemma create_script_coherent:
  assumes "scripts_coherent w"
  shows "scripts_coherent (snd (create_data_script uuid cr w))" (is "scripts_coherent ?w")
proof -
  have "script_source t ?w c = script_source t w c" for c t
  proof -
    have "find P (ss @ [s]) = find P ss" if "\<not> P s" for P :: "data_script \<Rightarrow> bool" and ss s
      using that by (induction ss) auto
    then show ?thesis
      by (simp add: create_data_script_def dal_create_data_script_def Let_def script_source_def
          enabled_row_def split: option.split)
  qed
  moreover have "w_redis ?w = w_redis w"
    by (simp add: create_data_script_def dal_create_data_script_def Let_def split: option.split)
  ultimately show ?thesis using scripts_coherent_same [OF assms] by blast
qed

lemma update_script_coherent:
  assumes "scripts_coherent w" "unique_ids w" "w_redis_fault w ''del'' = (\<lambda>_. None)"
    and u: "update_data_script r w = Some (e, w')"
    and k: "\<forall>s \<in> set (w_scripts w). ds_id s = us_id r \<longrightarrow>
          us_device_config_id r = ds_device_config_id s \<and> us_script_type r = ds_script_type s"
  shows "scripts_coherent w'"
proof (cases "w_db_fault w ''data_scripts.update''")
  case (Some x)
  with u assms(1) show ?thesis by (simp add: update_data_script_def dal_update_data_script_def)
next
  case None
  let ?f = "apply_update (w_now w) r"
  obtain s where s: "dal_get_data_script_by_id (us_id r) (map_scripts (us_id r) ?f w) = Inr s"
      "w' = snd (del_data_script_cache s (map_scripts (us_id r) ?f w))"
    using u None by (auto simp: update_data_script_def dal_update_data_script_def
        split: sum.splits prod.splits option.splits)
  show ?thesis unfolding s(2)
    by (rule coherent_map_del [OF assms(1,2) _ _ s(1) assms(3)])
      (use k in \<open>auto simp: apply_update_def nonzero_def\<close>)
qed

lemma delete_script_coherent:
  assumes "scripts_coherent w" "unique_ids w" "w_redis_fault w ''del'' = (\<lambda>_. None)"
  shows "scripts_coherent (snd (delete_data_script i w))"
proof (cases "dal_get_data_script_by_id i w")
  case (Inl e)
  with assms(1) show ?thesis by (simp add: delete_data_script_def)
next
  case (Inr s)
  note s = script_by_id [OF Inr]
  show ?thesis
  proof (cases "w_db_fault w ''data_scripts.delete''")
    case (Some e)
    with Inr assms show ?thesis
      by (auto simp: delete_data_script_def dal_delete_data_script_def del_data_script_cache_def
          redis_del_def intro!: scripts_coherent_del [OF assms(1)] script_source_cong [THEN fun_cong])
  next
    case None
    let ?w = "w\<lparr>w_scripts := filter (\<lambda>s. ds_id s \<noteq> i) (w_scripts w)\<rparr>"
    have src: "script_source t ?w c = script_source t w c"
      if "\<not> ((c, t) = (ds_device_config_id s, ds_script_type s) \<and> ds_enable_flag s = ''Y'')" for c t
      using that s unique_ids_eq [OF assms(2)] by (intro enabled_row_filter [of w i]) auto
    show ?thesis
    proof (cases "ds_enable_flag s = ''Y''")
      case True
      have "snd (delete_data_script i w) = ?w\<lparr>w_redis :=
          (w_redis w)(get_cache_key (ds_device_config_id s) (ds_script_type s) := None)\<rparr>"
        using True Inr None assms(3)
        by (simp add: delete_data_script_def dal_delete_data_script_def del_data_script_cache_def redis_del_def)
      moreover have "scripts_coherent (?w\<lparr>w_redis :=
          (w_redis w)(get_cache_key (ds_device_config_id s) (ds_script_type s) := None)\<rparr>)" (is "scripts_coherent ?v")
      proof (rule scripts_coherent_del [OF assms(1)])
        fix c t assume "(c, t) \<noteq> (ds_device_config_id s, ds_script_type s)"
        then have "script_source t ?w c = script_source t w c" using src by blast
        moreover have "script_source t ?v = script_source t ?w" by (rule script_source_cong) simp
        ultimately show "script_source t ?v c = script_source t w c" by simp
      qed simp
      ultimately show ?thesis by simp
    next
      case False
      then have "snd (delete_data_script i w) = ?w"
        using Inr None by (simp add: delete_data_script_def dal_delete_data_script_def)
      moreover have "scripts_coherent ?w"
        using src False by (intro scripts_coherent_same [OF assms(1)]) simp_all
      ultimately show ?thesis by simp
    qed
  qed
qed

lemma disable_script_coherent:
  assumes "scripts_coherent w" "unique_ids w" "w_redis_fault w ''del'' = (\<lambda>_. None)"
    and n: "enable_data_script i ''N'' w = Some (e, w')"
  shows "scripts_coherent w'"
proof (cases "w_db_fault w ''data_scripts.update''")
  case (Some x)
  with n assms(1) show ?thesis by (simp add: enable_data_script_def dal_enable_data_script_def)
next
  case None
  let ?f = "\<lambda>s. s\<lparr>ds_enable_flag := nonzero ''N'' (ds_enable_flag s), ds_updated_at := Some (w_now w)\<rparr>"
  obtain s where s: "dal_get_data_script_by_id i (map_scripts i ?f w) = Inr s"
      "w' = snd (del_data_script_cache s (map_scripts i ?f w))"
    using n None by (auto simp: enable_data_script_def dal_enable_data_script_def
        split: sum.splits prod.splits option.splits)
  show ?thesis unfolding s(2)
    by (rule coherent_map_del [OF assms(1,2) _ _ s(1) assms(3)]) auto
qed



text \<open>Enabling a script does not reach the devices that already asked for one. If the cache
  holds the marker for absent scripts (a device of the configuration has reported while no script
  was enabled), then enabling a script of that configuration succeeds and makes it the enabled row
  of the table, but the marker stays: every later Decode of that type still passes the raw data
  through, as if there were no script.\<close>
theorem enable_keeps_marker:
  assumes "get_from_cache (get_cache_key cfg st) w = Inr None"
    and "enable_data_script i ''Y'' w = Some (None, w')"
    and "\<exists>s \<in> set (w_scripts w). ds_id s = i \<and> ds_device_config_id s = cfg \<and> ds_script_type s = st"
    and "validate_decode inp = None" "get_script_type (di_type inp) = Some st"
      "di_device_config_id inp = cfg"
  shows "enabled_row w' cfg st \<noteq> None \<and>
    decode vm inp w' = Some (decode_ok (w_now w') (di_raw_data inp), w')"
proof -
  let ?f = "\<lambda>s. s\<lparr>ds_enable_flag := nonzero ''Y'' (ds_enable_flag s), ds_updated_at := Some (w_now w)\<rparr>"
  have w': "w' = map_scripts i ?f w"
    using assms(2) by (auto simp: enable_data_script_def dal_enable_data_script_def split: option.splits)
  obtain s where s: "s \<in> set (w_scripts w)" "ds_id s = i" "ds_device_config_id s = cfg" "ds_script_type s = st"
    using assms(3) by blast
  then have "?f s \<in> set (w_scripts w')" by (force simp: w' map_scripts_def)
  then have row: "enabled_row w' cfg st \<noteq> None"
    using s unfolding enabled_row_def find_None_iff_all by (intro notI) (drule (1) bspec, simp add: nonzero_def)
  have "get_from_cache (get_cache_key cfg st) w' = Inr None"
    using assms(1) get_from_cache_cong [of w' w] by (simp add: w' map_scripts_def)
  then have "get_script cfg st w' = Some (Inl (script_not_found_error cfg st), w')"
    by (simp add: get_script_def)
  with assms(4-6) have "decode vm inp w' = Some (decode_ok (w_now w') (di_raw_data inp), w')"
    by (simp add: decode_def)
  with row show ?thesis by blast
qed

definition demo_marker_world :: world where
  "demo_marker_world = demo_script_world\<lparr>w_scripts := [demo_script\<lparr>ds_enable_flag := ''N''\<rparr>],
     w_redis := [get_cache_key ''c1'' ''A'' \<mapsto> json_print (script_json marker_script)]\<rparr>"

theorem enable_keeps_marker_witness:
  "\<exists>w'. enable_data_script ''s1'' ''Y'' demo_marker_world = Some (None, w') \<and>
     enabled_row w' ''c1'' ''A'' \<noteq> None \<and>
     decode demo_vm demo_input w' = Some (decode_ok (w_now w') ''raw'', w')"
proof -
  have "get_from_cache (get_cache_key ''c1'' ''A'') demo_marker_world = Inr None"
    by (simp add: get_from_cache_def redis_get_def demo_marker_world_def marker_script_def
        demo_script_world_def demo_world_def empty_world_def)
  moreover have "\<exists>w'. enable_data_script ''s1'' ''Y'' demo_marker_world = Some (None, w')"
    by (simp add: enable_data_script_def only_one_script_type_enabled_def dal_get_data_script_by_id_def
        dal_enable_data_script_def demo_marker_world_def demo_script_world_def demo_script_def
        demo_world_def empty_world_def)
  moreover have "\<exists>s \<in> set (w_scripts demo_marker_world).
      ds_id s = ''s1'' \<and> ds_device_config_id s = ''c1'' \<and> ds_script_type s = ''A''"
    by (simp add: demo_marker_world_def demo_script_def)
  moreover have "validate_decode demo_input = None" "get_script_type (di_type demo_input) = Some ''A''"
      "di_device_config_id demo_input = ''c1''" "di_raw_data demo_input = ''raw''"
    by (simp_all add: validate_decode_def get_script_type_def demo_input_def)
  ultimately show ?thesis using enable_keeps_marker by metis
qed

end
