(* ===== verification/FlowBase.thy ===== *)
theory FlowBase
  imports Heartbeat ScriptEngine
begin

text \<open>
  What the three data flows of \<open>internal/uplink\<close> share: the gateway message of
  \<open>internal/model/gateway.go\<close> with its JSON decoding, the heartbeat refresh, and the walk over a
  gateway's sub-devices and sub-gateways. The walk's contract is the locale \<open>gateway_flow\<close>: its
  abstract specification \<open>targets\<close> is the list of devices a message addresses with the data for
  each, computed from the device table before anything is processed.
\<close>

section \<open>Gateway messages\<close>

text \<open>\<open>GatewayPublish\<close> and \<open>GatewayCommandPulish\<close>, over the data \<open>'d\<close> of one device. A nil pointer
  is \<open>None\<close>; a sub-gateway may be a nil pointer inside the map.\<close>

datatype 'd gateway = Gateway (gw_data: "'d option") (gw_subs: "'d gmap option")
  (gw_gws: "(string \<times> 'd gateway option) list option")

definition empty_gateway :: "'d gateway" where
  "empty_gateway = Gateway None None None"

function (sequential) dec_gateway :: "'d dec \<Rightarrow> 'd \<Rightarrow> json \<Rightarrow> 'd gateway \<Rightarrow> 'd gateway res"
  and dec_gateway_fields :: "'d dec \<Rightarrow> 'd \<Rightarrow> (string \<times> json) list \<Rightarrow> 'd gateway \<Rightarrow> 'd gateway res"
  and dec_gateway_map :: "'d dec \<Rightarrow> 'd \<Rightarrow> (string \<times> json) list \<Rightarrow>
    (string \<times> 'd gateway option) list \<Rightarrow> (string \<times> 'd gateway option) list res"
where
  "dec_gateway d z (JObj kvs) g = dec_gateway_fields d z kvs g"
| "dec_gateway d z JNull g = Inr g"
| "dec_gateway d z _ g = Inl json_type_error"
| "dec_gateway_fields d z [] g = Inr g"
| "dec_gateway_fields d z ((k, j) # r) (Gateway a b c) =
     (if fold_eq ''gateway_data'' k
      then (case dec_ptr d z j a of Inl e \<Rightarrow> Inl e | Inr a' \<Rightarrow> dec_gateway_fields d z r (Gateway a' b c))
      else if fold_eq ''sub_device_data'' k
      then (case dec_map d z j b of Inl e \<Rightarrow> Inl e | Inr b' \<Rightarrow> dec_gateway_fields d z r (Gateway a b' c))
      else if fold_eq ''sub_gateway_data'' k
      then (case j of
          JNull \<Rightarrow> dec_gateway_fields d z r (Gateway a b None)
        | JObj kvs \<Rightarrow> (case dec_gateway_map d z kvs (case c of None \<Rightarrow> [] | Some m \<Rightarrow> m) of
            Inl e \<Rightarrow> Inl e | Inr c' \<Rightarrow> dec_gateway_fields d z r (Gateway a b (Some c')))
        | _ \<Rightarrow> Inl json_type_error)
      else dec_gateway_fields d z r (Gateway a b c))"
| "dec_gateway_map d z [] m = Inr m"
| "dec_gateway_map d z ((k, JNull) # r) m = dec_gateway_map d z r (map_put k None m)"
| "dec_gateway_map d z ((k, j) # r) m =
     (case dec_gateway d z j empty_gateway of
        Inl e \<Rightarrow> Inl e | Inr g \<Rightarrow> dec_gateway_map d z r (map_put k (Some g) m))"
  by pat_completeness auto

termination
  by (relation "measure (\<lambda>x. case x of
      Inl (_, _, j, _) \<Rightarrow> size j
    | Inr (Inl (_, _, kvs, _)) \<Rightarrow> size_list (size_prod (\<lambda>_. 0) size) kvs
    | Inr (Inr (_, _, kvs, _)) \<Rightarrow> size_list (size_prod (\<lambda>_. 0) size) kvs)") auto

definition parse_gateway :: "'d dec \<Rightarrow> 'd \<Rightarrow> bytes \<Rightarrow> 'd gateway res" where
  "parse_gateway d z s = unmarshal (dec_gateway d z) s empty_gateway"

section \<open>The heartbeat refresh\<close>

text \<open>\<open>refreshHeartbeat\<close>, the same code in the three flows; \<open>hs\<close> tells whether the flow has a
  heartbeat service.\<close>

definition refresh_heartbeat :: "bool \<Rightarrow> device \<Rightarrow> world \<Rightarrow> world" where
  "refresh_heartbeat hs d w =
     (if \<not> hs then w
      else case get_config d w of
        (Inl _, w1) \<Rightarrow> w1
      | (Inr None, w1) \<Rightarrow> w1
      | (Inr (Some c), w1) \<Rightarrow>
          if dev_is_online d \<noteq> 1 then
            (case update_device_status (dev_id d) 1 w1 of
               (Inl _, w2) \<Rightarrow> w2
             | (Inr status_changed, w2) \<Rightarrow>
                 if status_changed then
                   (case get_device_cache_by_id (dev_id d) (snd (del_device_cache (dev_id d) w2)) of
                      (Inl _, w3) \<Rightarrow> w3
                    | (Inr updated, w3) \<Rightarrow>
                        snd (refresh_heartbeat_key d (Some c) (spawn (NotifyDeviceOnline updated) w3)))
                 else snd (refresh_heartbeat_key d (Some c) w2))
          else snd (refresh_heartbeat_key d (Some c) w1))"

section \<open>The goroutines the flows start\<close>

definition device_display_name :: "device \<Rightarrow> string" where
  "device_display_name d = (case dev_name d of Some n \<Rightarrow> n | None \<Rightarrow> dev_device_number d)"

definition online_message :: "device \<Rightarrow> bool \<Rightarrow> string" where
  "online_message d online = json_print (JObj [(''device_id'', JStr (dev_device_number d)),
     (''device_name'', JStr (device_display_name d)), (''is_online'', JBool online)])"

definition status_ext :: "string \<Rightarrow> automate_ext" where
  "status_ext login = \<lparr>ae_param_type = ''STATUS'', ae_param = [], ae_values = [(''login'', JStr login)]\<rparr>"

text \<open>\<open>notifyDeviceOnline\<close>: SSE, automation, and after three seconds the expected data.\<close>

definition notify_device_online :: "device \<Rightarrow> world \<Rightarrow> world" where
  "notify_device_online d w =
     emit (ExpectedDataSend (dev_id d)) (emit (Sleep 3000)
       (emit (AutomationExecute d (status_ext ''ON-LINE''))
         (emit (SSEBroadcast (dev_tenant_id d) ''device_online'' (online_message d True)) w)))"

text \<open>\<open>checkAndPublishToWS\<close>.\<close>

definition ws_event :: "string \<Rightarrow> string \<Rightarrow> int \<Rightarrow> json gmap \<Rightarrow> json" where
  "ws_event i tenant now data = JObj [(''device_id'', JStr i), (''tenant_id'', JStr tenant),
     (''timestamp'', json_int now), (''data'', JObj data)]"

definition check_and_publish_to_ws :: "string \<Rightarrow> string \<Rightarrow> json gmap \<Rightarrow> world \<Rightarrow> world" where
  "check_and_publish_to_ws i tenant data w = (case redis_exists (''ws:sub:'' @ i) w of
      Inl _ \<Rightarrow> w
    | Inr False \<Rightarrow> w
    | Inr True \<Rightarrow> snd (redis_publish (''ws:device:'' @ i)
                    (json_print (ws_event i tenant (w_now w) data)) w))"

section \<open>The devices a gateway message addresses\<close>

text \<open>What the walk needs to know of a row, and the child of a gateway at an address.\<close>

definition row_ident :: "device \<Rightarrow> string \<times> string \<times> string option \<times> string option" where
  "row_ident d = (dev_id d, dev_tenant_id d, dev_sub_device_addr d, dev_parent_id d)"

definition child :: "(string \<times> string \<times> string option \<times> string option) list \<Rightarrow> string \<Rightarrow> string \<Rightarrow>
    (string \<times> string) option" where
  "child rows parent addr = map_option (\<lambda>(i, t, _). (i, t))
     (find (\<lambda>(_, _, a, p). a = Some addr \<and> p = Some parent) (rev rows))"

definition idents :: "world \<Rightarrow> (string \<times> string \<times> string option \<times> string option) list" where
  "idents w = map row_ident (w_devices w)"

definition sub_targets :: "(string \<Rightarrow> string \<Rightarrow> (string \<times> string) option) \<Rightarrow> string \<Rightarrow> (string \<times> 'd) list \<Rightarrow>
    ((string \<times> string) \<times> 'd) list" where
  "sub_targets ch parent es = concat (map (\<lambda>(a, x). case ch parent a of None \<Rightarrow> [] | Some i \<Rightarrow> [(i, x)]) es)"

fun gw_targets :: "(string \<Rightarrow> string \<Rightarrow> (string \<times> string) option) \<Rightarrow> string \<Rightarrow>
    (string \<times> 'd gateway option) list \<Rightarrow> nat \<Rightarrow> ((string \<times> string) \<times> 'd) list" where
  "gw_targets ch parent es depth =
     (if depth > 5 then []
      else concat (map (\<lambda>(a, g). case ch parent a of
            None \<Rightarrow> []
          | Some i \<Rightarrow> (case g of None \<Rightarrow> []
            | Some (Gateway own subs gws) \<Rightarrow>
                (case own of None \<Rightarrow> [] | Some x \<Rightarrow> [(i, x)]) @
                (case subs of None \<Rightarrow> [] | Some ss \<Rightarrow> sub_targets ch (fst i) ss) @
                (case gws of None \<Rightarrow> [] | Some gs \<Rightarrow> gw_targets ch (fst i) gs (depth + 1)))) es))"

declare gw_targets.simps [simp del]

text \<open>The gateway's own data, its sub-devices, its sub-gateways.\<close>

definition targets :: "(string \<Rightarrow> string \<Rightarrow> (string \<times> string) option) \<Rightarrow> string \<times> string \<Rightarrow> 'd gateway \<Rightarrow>
    ((string \<times> string) \<times> 'd) list" where
  "targets ch i g =
     (case gw_data g of None \<Rightarrow> [] | Some x \<Rightarrow> [(i, x)]) @
     (case gw_subs g of None \<Rightarrow> [] | Some ss \<Rightarrow> sub_targets ch (fst i) ss) @
     (case gw_gws g of None \<Rightarrow> [] | Some gs \<Rightarrow> gw_targets ch (fst i) gs 1)"

text \<open>No sub-gateway the walk reaches is a nil pointer.\<close>

fun gws_no_nil :: "(string \<Rightarrow> string \<Rightarrow> (string \<times> string) option) \<Rightarrow> string \<Rightarrow>
    (string \<times> 'd gateway option) list \<Rightarrow> nat \<Rightarrow> bool" where
  "gws_no_nil ch parent es depth =
     (depth > 5 \<or> list_all (\<lambda>(a, g). case ch parent a of
            None \<Rightarrow> True
          | Some i \<Rightarrow> (case g of None \<Rightarrow> False
            | Some (Gateway own subs gws) \<Rightarrow>
                (case gws of None \<Rightarrow> True | Some gs \<Rightarrow> gws_no_nil ch (fst i) gs (depth + 1)))) es)"

declare gws_no_nil.simps [simp del]

definition no_nil :: "(string \<Rightarrow> string \<Rightarrow> (string \<times> string) option) \<Rightarrow> string \<Rightarrow> 'd gateway \<Rightarrow> bool" where
  "no_nil ch parent g = (case gw_gws g of None \<Rightarrow> True | Some gs \<Rightarrow> gws_no_nil ch parent gs 1)"

text \<open>Every datum of a message satisfies a predicate.\<close>

definition subs_all :: "('d \<Rightarrow> bool) \<Rightarrow> 'd gmap option \<Rightarrow> bool" where
  "subs_all P ss \<longleftrightarrow> (\<forall>es. ss = Some es \<longrightarrow> (\<forall>(a, x) \<in> set es. P x))"

fun gw_all :: "('d \<Rightarrow> bool) \<Rightarrow> 'd gateway \<Rightarrow> bool" where
  "gw_all P (Gateway own subs gws) \<longleftrightarrow>
     (\<forall>x. own = Some x \<longrightarrow> P x) \<and> subs_all P subs \<and>
     (case gws of None \<Rightarrow> True
      | Some gs \<Rightarrow> list_all (\<lambda>(_, g). case g of None \<Rightarrow> True | Some g' \<Rightarrow> gw_all P g') gs)"

section \<open>Frames\<close>

text \<open>What no heartbeat or status operation touches: the storage channel, the identity of every
  device row, the clock, the failures, the diagnostics, configurations and scripts.\<close>

definition frame :: "world \<Rightarrow> world \<Rightarrow> bool" where
  "frame w w' \<longleftrightarrow> w_storage w' = w_storage w \<and> idents w' = idents w \<and> w_now w' = w_now w \<and>
     w_db_fault w' = w_db_fault w \<and> w_redis_fault w' = w_redis_fault w \<and> w_diag w' = w_diag w \<and>
     w_configs w' = w_configs w \<and> w_scripts w' = w_scripts w"

lemma frame_refl [simp, intro]: "frame w w"
  by (simp add: frame_def)

lemma frame_trans [trans]: "frame w w' \<Longrightarrow> frame w' w'' \<Longrightarrow> frame w w''"
  by (simp add: frame_def)

lemma frame_spawn [simp]: "frame w (spawn t w)"
  by (simp add: frame_def spawn_def idents_def)

lemma frame_del_device_cache [simp]: "frame w (snd (del_device_cache i w))"
  by (simp add: frame_def del_device_cache_def idents_def split: option.split)

lemma frame_get_device: "get_device_cache_by_id i w = (r, w') \<Longrightarrow> frame w w'"
  by (auto simp: get_device_cases frame_def idents_def dest!: load_device_cases split: if_split_asm)

lemma frame_get_device_config: "get_device_config_by_id i w = (r, w') \<Longrightarrow> frame w w'"
  by (auto simp: get_config_cases frame_def idents_def dest!: load_config_cases split: if_split_asm)

lemma frame_get_config: "get_config d w = (r, w') \<Longrightarrow> frame w w'"
  by (auto simp: get_config_def dest: frame_get_device_config
      split: option.split_asm prod.split_asm sum.split_asm)

lemma row_ident_set_online [simp]: "row_ident (set_online now st d) = row_ident d"
  by (simp add: row_ident_def set_online_def)

lemma idents_update [simp]: "idents (update_devices i (set_online now st) w) = idents w"
  by (simp add: idents_def update_devices_def)

lemma frame_update_devices [simp]: "frame w (update_devices i (set_online now st) w)"
  using idents_update [of i now st w] by (simp add: frame_def) (simp add: update_devices_def)

lemma frame_update_status: "update_device_status i st w = (r, w') \<Longrightarrow> frame w w'"
  using frame_trans [OF frame_trans [OF frame_update_devices frame_del_device_cache] frame_spawn]
  by (auto simp: update_device_status_def Let_def split: option.split_asm sum.split_asm if_split_asm)

lemma frame_status_set: "status_set k v t w = (r, w') \<Longrightarrow> frame w w'"
  by (auto simp: frame_def status_set_def idents_def split: option.split_asm)

lemma frame_set_heartbeat: "frame w (snd (set_heartbeat i n w))"
  by (cases "status_set (device_key i ''heartbeat'') ''1'' (n * 1000) w")
    (auto simp: set_heartbeat_def dest: frame_status_set split: option.split)

lemma frame_set_timeout: "frame w (snd (set_timeout i n w))"
  by (cases "status_set (device_key i ''timeout'') ''1'' (n * 1000) w")
    (auto simp: set_timeout_def dest: frame_status_set split: option.split)

lemma frame_refresh_key [simp]: "frame w (snd (refresh_heartbeat_key d c w))"
  by (simp add: refresh_heartbeat_key_def frame_set_heartbeat frame_set_timeout split: option.split)

lemma frame_refresh_heartbeat [simp]: "frame w (refresh_heartbeat hs d w)"
proof -
  obtain r w1 where c: "get_config d w = (r, w1)" by force
  note 1 = frame_get_config [OF c]
  obtain q w2 where u: "update_device_status (dev_id d) 1 w1 = (q, w2)" by force
  note 2 = frame_trans [OF 1 frame_update_status [OF u]]
  obtain p w3 where g: "get_device_cache_by_id (dev_id d) (snd (del_device_cache (dev_id d) w2)) = (p, w3)"
    by force
  note 3 = frame_trans [OF frame_trans [OF 2 frame_del_device_cache] frame_get_device [OF g]]
  show ?thesis
    using 1 2 3 frame_trans [OF 1 frame_refresh_key] frame_trans [OF 2 frame_refresh_key]
      frame_trans [OF frame_trans [OF 3 frame_spawn] frame_refresh_key]
    by (simp add: refresh_heartbeat_def c u g split: option.split sum.split)
qed

section \<open>Lookups against the identities\<close>

lemma sub_device_fold:
  assumes "a \<in> set addrs"
  shows "map_option (\<lambda>d. (dev_id d, dev_tenant_id d))
      (foldl (\<lambda>m d. case dev_sub_device_addr d of
          Some a \<Rightarrow> if a \<in> set addrs \<and> dev_parent_id d = Some parent then m(a \<mapsto> d) else m
        | None \<Rightarrow> m) (\<lambda>_. None) ds a) = child (map row_ident ds) parent a"
proof (induction ds rule: rev_induct)
  case Nil
  then show ?case by (simp add: child_def)
next
  case (snoc d ds)
  with assms show ?case
    by (auto simp: child_def row_ident_def split: option.split)
qed

lemma sub_device_child:
  "get_device_by_sub_device_address addrs parent w = Inr m \<Longrightarrow> a \<in> set addrs \<Longrightarrow>
   map_option (\<lambda>d. (dev_id d, dev_tenant_id d)) (m a) = child (idents w) parent a"
  using sub_device_fold [of a addrs parent "w_devices w"]
  by (auto simp: get_device_by_sub_device_address_def idents_def split: option.split_asm)

lemma sub_device_ok:
  "w_db_fault w ''devices.find'' = None \<Longrightarrow> \<exists>m. get_device_by_sub_device_address addrs parent w = Inr m"
  by (simp add: get_device_by_sub_device_address_def)

section \<open>The walk over a gateway message\<close>

text \<open>The interface of a flow: how one device's data is processed, and the two loops as the code
  writes them. Its laws: processing one device appends that device's output and keeps the frame.\<close>

definition steady :: "world \<Rightarrow> world \<Rightarrow> bool" where
  "steady w w' \<longleftrightarrow> idents w' = idents w \<and> w_now w' = w_now w \<and> w_db_fault w' = w_db_fault w"

lemma steady_refl [simp]: "steady w w"
  by (simp add: steady_def)

lemma steady_trans: "steady w w' \<Longrightarrow> steady w' w'' \<Longrightarrow> steady w w''"
  by (simp add: steady_def)

locale gateway_flow =
  fixes direct :: "device \<Rightarrow> 'd \<Rightarrow> world \<Rightarrow> world"
    and sub_devices :: "string \<Rightarrow> 'd gmap \<Rightarrow> world \<Rightarrow> world option"
    and sub_gateways :: "string \<Rightarrow> (string \<times> 'd gateway option) list \<Rightarrow> nat \<Rightarrow> world \<Rightarrow> world option"
    and good :: "'d \<Rightarrow> bool"
    and out :: "world \<Rightarrow> 'o list"
    and message :: "int \<Rightarrow> (string \<times> string) \<times> 'd \<Rightarrow> 'o list"
  assumes direct_steady: "steady w (direct d x w)"
    and direct_out: "good x \<Longrightarrow> out (direct d x w) = out w @ message (w_now w) ((dev_id d, dev_tenant_id d), x)"
    and sub_devices_eq: "sub_devices p es w =
      (if es = [] then Some w
       else case get_device_by_sub_device_address (map fst es) p w of
         Inl _ \<Rightarrow> Some w
       | Inr m \<Rightarrow> each (\<lambda>(a, x) u. case m a of None \<Rightarrow> Some u | Some d \<Rightarrow> Some (direct d x u)) es w)"
    and sub_gateways_eq: "sub_gateways p gs depth w =
      (if depth > 5 then Some w
       else if gs = [] then Some w
       else case get_device_by_sub_device_address (map fst gs) p w of
         Inl _ \<Rightarrow> Some w
       | Inr m \<Rightarrow> each (\<lambda>(a, g) u. case m a of
             None \<Rightarrow> Some u
           | Some d \<Rightarrow> (case g of
               None \<Rightarrow> None
             | Some (Gateway own subs gws) \<Rightarrow>
                 Option.bind (case subs of
                     None \<Rightarrow> Some (case own of None \<Rightarrow> u | Some x \<Rightarrow> direct d x u)
                   | Some ss \<Rightarrow> sub_devices (dev_id d) ss (case own of None \<Rightarrow> u | Some x \<Rightarrow> direct d x u))
                   (\<lambda>v. case gws of None \<Rightarrow> Some v | Some gs' \<Rightarrow> sub_gateways (dev_id d) gs' (depth + 1) v))) gs w)"
begin

definition emits :: "world \<Rightarrow> ((string \<times> string) \<times> 'd) list \<Rightarrow> world option \<Rightarrow> bool" where
  "emits w ts r \<longleftrightarrow> (\<exists>v. r = Some v \<and> steady w v \<and> out v = out w @ concat (map (message (w_now w)) ts))"

lemma emits_Nil [simp]: "emits w [] (Some w)"
  by (simp add: emits_def)

lemma emits_direct: "good x \<Longrightarrow> emits w [((dev_id d, dev_tenant_id d), x)] (Some (direct d x w))"
  using direct_steady direct_out by (simp add: emits_def)

lemma emits_bind:
  assumes "emits w ts r" "\<And>v. steady w v \<Longrightarrow> emits v us (f v)"
  shows "emits w (ts @ us) (Option.bind r f)"
proof -
  obtain v where v: "r = Some v" "steady w v" "out v = out w @ concat (map (message (w_now w)) ts)"
    using assms(1) by (auto simp: emits_def)
  then have "w_now v = w_now w" by (simp add: steady_def)
  moreover obtain u where "f v = Some u" "steady v u" "out u = out v @ concat (map (message (w_now v)) us)"
    using assms(2) [OF v(2)] by (auto simp: emits_def)
  ultimately show ?thesis using v steady_trans by (auto simp: emits_def)
qed

lemma emits_each:
  assumes "\<And>x u. x \<in> set xs \<Longrightarrow> steady w u \<Longrightarrow> emits u (t x) (f x u)"
  shows "emits w (concat (map t xs)) (each f xs w)"
  using assms
proof (induction xs arbitrary: w)
  case (Cons x xs)
  have "emits w (t x @ concat (map t xs)) (Option.bind (f x w) (each f xs))"
  proof (rule emits_bind)
    show "emits w (t x) (f x w)" using Cons.prems by simp
  next
    fix v assume "steady w v"
    then show "emits v (concat (map t xs)) (each f xs v)"
      using Cons.prems steady_trans by (intro Cons.IH) (meson list.set_intros(2))
  qed
  then show ?case by simp
qed simp

lemma emits_sub_devices:
  assumes "w_db_fault w ''devices.find'' = None" "\<forall>(a, x) \<in> set es. good x"
  shows "emits w (sub_targets (child (idents w)) p es) (sub_devices p es w)"
proof (cases "es = []")
  case True
  then show ?thesis by (simp add: sub_devices_eq sub_targets_def)
next
  case False
  obtain m where m: "get_device_by_sub_device_address (map fst es) p w = Inr m"
    using sub_device_ok [OF assms(1)] by blast
  have "emits u (case child (idents w) p a of None \<Rightarrow> [] | Some i \<Rightarrow> [(i, x)])
      (case m a of None \<Rightarrow> Some u | Some d \<Rightarrow> Some (direct d x u))" if "(a, x) \<in> set es" for a x u
  proof -
    have "a \<in> set (map fst es)" using that by force
    from sub_device_child [OF m this] have "child (idents w) p a = map_option (\<lambda>d. (dev_id d, dev_tenant_id d)) (m a)"
      by simp
    then show ?thesis using emits_direct assms(2) that by (fastforce split: option.split)
  qed
  then have "emits w (concat (map (\<lambda>(a, x). case child (idents w) p a of None \<Rightarrow> [] | Some i \<Rightarrow> [(i, x)]) es))
      (each (\<lambda>(a, x) u. case m a of None \<Rightarrow> Some u | Some d \<Rightarrow> Some (direct d x u)) es w)"
    by (intro emits_each) auto
  then show ?thesis using False m by (simp add: sub_devices_eq sub_targets_def)
qed

lemma steady_child: "steady w v \<Longrightarrow> child (idents v) = child (idents w)"
  by (simp add: steady_def)

lemma emits_one:
  assumes "w_db_fault u ''devices.find'' = None" "gw_all good (Gateway own subs gws)"
    and ih: "\<And>v gs. gws = Some gs \<Longrightarrow> steady u v \<Longrightarrow>
      emits v (gw_targets (child (idents v)) (dev_id d) gs depth) (sub_gateways (dev_id d) gs depth v)"
  shows "emits u
     ((case own of None \<Rightarrow> [] | Some x \<Rightarrow> [((dev_id d, dev_tenant_id d), x)]) @
      (case subs of None \<Rightarrow> [] | Some ss \<Rightarrow> sub_targets (child (idents u)) (dev_id d) ss) @
      (case gws of None \<Rightarrow> [] | Some gs \<Rightarrow> gw_targets (child (idents u)) (dev_id d) gs depth))
     (Option.bind (case subs of
         None \<Rightarrow> Some (case own of None \<Rightarrow> u | Some x \<Rightarrow> direct d x u)
       | Some ss \<Rightarrow> sub_devices (dev_id d) ss (case own of None \<Rightarrow> u | Some x \<Rightarrow> direct d x u))
       (\<lambda>v. case gws of None \<Rightarrow> Some v | Some gs' \<Rightarrow> sub_gateways (dev_id d) gs' depth v))"
proof -
  let ?u = "case own of None \<Rightarrow> u | Some x \<Rightarrow> direct d x u"
  have own: "emits u (case own of None \<Rightarrow> [] | Some x \<Rightarrow> [((dev_id d, dev_tenant_id d), x)]) (Some ?u)"
    using emits_direct assms(2) by (auto split: option.split)
  have subs: "emits v (case subs of None \<Rightarrow> [] | Some ss \<Rightarrow> sub_targets (child (idents u)) (dev_id d) ss)
      (case subs of None \<Rightarrow> Some v | Some ss \<Rightarrow> sub_devices (dev_id d) ss v)" if "steady u v" for v
    using emits_sub_devices [of v] assms(1,2) that
    by (auto simp: steady_def subs_all_def split: option.split)
  have rest: "emits v (case gws of None \<Rightarrow> [] | Some gs \<Rightarrow> gw_targets (child (idents u)) (dev_id d) gs depth)
      (case gws of None \<Rightarrow> Some v | Some gs' \<Rightarrow> sub_gateways (dev_id d) gs' depth v)" if "steady u v" for v
    using ih that steady_child [OF that] by (fastforce split: option.split)
  have b: "(case subs of None \<Rightarrow> Some ?u | Some ss \<Rightarrow> sub_devices (dev_id d) ss ?u) =
      Option.bind (Some ?u) (\<lambda>v. case subs of None \<Rightarrow> Some v | Some ss \<Rightarrow> sub_devices (dev_id d) ss v)"
    by simp
  show ?thesis
    unfolding append_assoc [symmetric] b
    by (intro emits_bind [OF emits_bind [OF own subs] rest])
qed

lemma emits_sub_gateways:
  assumes "w_db_fault w ''devices.find'' = None" "gws_no_nil (child (idents w)) p gs depth"
    and "\<forall>(a, g) \<in> set gs. \<forall>g'. g = Some g' \<longrightarrow> gw_all good g'"
  shows "emits w (gw_targets (child (idents w)) p gs depth) (sub_gateways p gs depth w)"
  using assms
proof (induction "6 - depth" arbitrary: p gs depth w rule: less_induct)
  case less
  show ?case
  proof (cases "depth > 5 \<or> gs = []")
    case True
    then show ?thesis by (auto simp: sub_gateways_eq gw_targets.simps [of _ _ _ depth])
  next
    case False
    obtain m where m: "get_device_by_sub_device_address (map fst gs) p w = Inr m"
      using sub_device_ok [OF less.prems(1)] by blast
    let ?ch = "child (idents w)"
    let ?t = "\<lambda>(a, g). case ?ch p a of None \<Rightarrow> []
      | Some i \<Rightarrow> (case g of None \<Rightarrow> []
        | Some (Gateway own subs gws) \<Rightarrow>
            (case own of None \<Rightarrow> [] | Some x \<Rightarrow> [(i, x)]) @
            (case subs of None \<Rightarrow> [] | Some ss \<Rightarrow> sub_targets ?ch (fst i) ss) @
            (case gws of None \<Rightarrow> [] | Some gs \<Rightarrow> gw_targets ?ch (fst i) gs (depth + 1)))"
    let ?f = "\<lambda>(a, g) u. case m a of None \<Rightarrow> Some u
      | Some d \<Rightarrow> (case g of None \<Rightarrow> None
        | Some (Gateway own subs gws) \<Rightarrow>
            Option.bind (case subs of
                None \<Rightarrow> Some (case own of None \<Rightarrow> u | Some x \<Rightarrow> direct d x u)
              | Some ss \<Rightarrow> sub_devices (dev_id d) ss (case own of None \<Rightarrow> u | Some x \<Rightarrow> direct d x u))
              (\<lambda>v. case gws of None \<Rightarrow> Some v | Some gs' \<Rightarrow> sub_gateways (dev_id d) gs' (depth + 1) v))"
    have step: "emits u (?t (a, g)) (?f (a, g) u)" if mem: "(a, g) \<in> set gs" and st: "steady w u" for a g u
    proof -
      have "a \<in> set (map fst gs)" using mem by force
      from sub_device_child [OF m this]
      have ch: "?ch p a = map_option (\<lambda>d. (dev_id d, dev_tenant_id d)) (m a)" by simp
      show ?thesis
      proof (cases "m a")
        case None
        with ch show ?thesis by simp
      next
        case (Some d)
        have nn: "case g of None \<Rightarrow> False
            | Some (Gateway own subs gws) \<Rightarrow>
                (case gws of None \<Rightarrow> True | Some gs \<Rightarrow> gws_no_nil ?ch (dev_id d) gs (depth + 1))"
          using less.prems(2) False mem ch Some
          by (simp add: gws_no_nil.simps [of _ _ _ depth] list_all_iff) (drule bspec, assumption, simp cong: option.case_cong gateway.case_cong)
        then obtain own subs gws where g: "g = Some (Gateway own subs gws)"
          by (cases g) (auto split: gateway.split_asm)
        have fault: "w_db_fault u ''devices.find'' = None" using st less.prems(1) by (simp add: steady_def)
        have good: "gw_all good (Gateway own subs gws)" using less.prems(3) mem g by fastforce
        have "emits v (gw_targets (child (idents v)) (dev_id d) gs' (depth + 1)) (sub_gateways (dev_id d) gs' (depth + 1) v)"
          if "gws = Some gs'" "steady u v" for v gs'
        proof (rule less.hyps)
          show "6 - (depth + 1) < 6 - depth" using False by auto
          show "w_db_fault v ''devices.find'' = None" using that(2) fault by (simp add: steady_def)
          show "gws_no_nil (child (idents v)) (dev_id d) gs' (depth + 1)"
            using nn g that st by (simp add: steady_def)
          show "\<forall>(a, g) \<in> set gs'. \<forall>g'. g = Some g' \<longrightarrow> gw_all good g'"
            using good that(1) by (auto simp: list_all_iff split: option.split_asm)
        qed
        from emits_one [where d = d and depth = "depth + 1", OF fault good this] st
        show ?thesis by (simp add: ch Some g steady_def cong: option.case_cong)
      qed
    qed
    have "emits w (concat (map ?t gs)) (each ?f gs w)"
      by (rule emits_each) (use step in \<open>auto simp del: split_paired_All\<close>)
    moreover have "sub_gateways p gs depth w = each ?f gs w"
      using False m by (simp add: sub_gateways_eq [of p gs depth w])
    moreover have "gw_targets ?ch p gs depth = concat (map ?t gs)"
      using False by (simp add: gw_targets.simps [of _ _ _ depth])
    ultimately show ?thesis by simp
  qed
qed

end

section \<open>What a parsed gateway message holds\<close>

definition dec_keeps :: "('d \<Rightarrow> bool) \<Rightarrow> 'd dec \<Rightarrow> bool" where
  "dec_keeps P d \<longleftrightarrow> (\<forall>j x y. wf_json j \<longrightarrow> P x \<longrightarrow> d j x = Inr y \<longrightarrow> P y)"

lemma dec_keepsD: "dec_keeps P d \<Longrightarrow> wf_json j \<Longrightarrow> P x \<Longrightarrow> d j x = Inr y \<Longrightarrow> P y"
  by (simp add: dec_keeps_def)

lemma dec_entries_all:
  assumes "dec_keeps P d" "P z"
  shows "dec_entries d z kvs m = Inr m' \<Longrightarrow> list_all (\<lambda>(k, v). wf_json v) kvs \<Longrightarrow>
    \<forall>(a, x) \<in> set m. P x \<Longrightarrow> \<forall>(a, x) \<in> set m'. P x"
proof (induction kvs arbitrary: m)
  case (Cons kv kvs)
  obtain k j where kv: "kv = (k, j)" by force
  from Cons.prems kv obtain v where v: "d j z = Inr v" "dec_entries d z kvs (map_put k v m) = Inr m'"
    by (auto split: sum.split_asm)
  have "P v" using dec_keepsD [OF assms(1) _ assms(2) v(1)] Cons.prems(2) kv by simp
  then have "\<forall>(a, x) \<in> set (map_put k v m). P x"
    using Cons.prems(3) set_map_put [of k v m] by fast
  with Cons.IH [OF v(2)] Cons.prems(2) kv show ?case by simp
qed simp

lemma dec_map_all:
  assumes "dec_keeps P d" "P z" "dec_map d z j m = Inr m'" "wf_json j" "subs_all P m"
  shows "subs_all P m'"
proof (cases j)
  case (JObj kvs)
  then obtain r where r: "m' = Some r" "dec_entries d z kvs (case m of None \<Rightarrow> [] | Some m' \<Rightarrow> m') = Inr r"
    using assms(3) by (auto split: sum.split_asm)
  have m: "\<forall>(a, x) \<in> set (case m of None \<Rightarrow> [] | Some m' \<Rightarrow> m'). P x"
    using assms(5) by (cases m) (simp_all add: subs_all_def)
  have "list_all (\<lambda>(k, v). wf_json v) kvs" using assms(4) by (simp only: JObj wf_obj_iff)
  from dec_entries_all [OF assms(1,2) r(2) this m] r(1) show ?thesis by (simp add: subs_all_def)
qed (use assms(3) in \<open>auto simp: subs_all_def\<close>)

lemma dec_ptr_all:
  assumes "dec_keeps P d" "P z" "dec_ptr d z j p = Inr p'" "wf_json j" "\<forall>x. p = Some x \<longrightarrow> P x"
  shows "\<forall>x. p' = Some x \<longrightarrow> P x"
proof (cases "j = JNull")
  case False
  have q: "P (case p of None \<Rightarrow> z | Some x \<Rightarrow> x)" using assms(2,5) by (simp split: option.split)
  from False assms(3) obtain v where "d j (case p of None \<Rightarrow> z | Some x \<Rightarrow> x) = Inr v" "p' = Some v"
    by (cases j) (auto split: sum.split_asm)
  with dec_keepsD [OF assms(1,4) q] show ?thesis by simp
qed (use assms(3) in simp)

abbreviation gws_all :: "('d \<Rightarrow> bool) \<Rightarrow> (string \<times> 'd gateway option) list \<Rightarrow> bool" where
  "gws_all P gs \<equiv> list_all (\<lambda>(_, g). case g of None \<Rightarrow> True | Some g' \<Rightarrow> gw_all P g') gs"

lemma gws_all_put:
  "gws_all P m \<Longrightarrow> (case g of None \<Rightarrow> True | Some g' \<Rightarrow> gw_all P g') \<Longrightarrow> gws_all P (map_put k g m)"
  using set_map_put [of k g m] by (fastforce simp: list_all_iff)

lemma gw_all_empty [simp]: "gw_all P empty_gateway"
  by (simp add: empty_gateway_def subs_all_def)

lemma dec_gateway_all:
  "dec_gateway d z j g = Inr g' \<Longrightarrow> dec_keeps P d \<Longrightarrow> P z \<Longrightarrow> wf_json j \<Longrightarrow> gw_all P g \<Longrightarrow> gw_all P g'"
  "dec_gateway_fields d z kvs g = Inr g' \<Longrightarrow> dec_keeps P d \<Longrightarrow> P z \<Longrightarrow>
     list_all (\<lambda>(k, v). wf_json v) kvs \<Longrightarrow> gw_all P g \<Longrightarrow> gw_all P g'"
  "dec_gateway_map d z kvs m = Inr m' \<Longrightarrow> dec_keeps P d \<Longrightarrow> P z \<Longrightarrow>
     list_all (\<lambda>(k, v). wf_json v) kvs \<Longrightarrow> gws_all P m \<Longrightarrow> gws_all P m'"
proof (induction d z j g and d z kvs g and d z kvs m arbitrary: g' and g' and m'
    rule: dec_gateway_dec_gateway_fields_dec_gateway_map.induct)
  case (1 d z kvs g)
  then show ?case by (simp add: wf_obj_iff del: wf_json.simps)
next
  case (5 d z k j r a b c g')
  note IH = 5(1-6) and prems = 5(7-11)
  have j: "wf_json j" "list_all (\<lambda>(k, v). wf_json v) r" using prems(4) by simp_all
  have abc: "\<forall>x. a = Some x \<longrightarrow> P x" "subs_all P b" "case c of None \<Rightarrow> True | Some gs \<Rightarrow> gws_all P gs"
    using prems(5) by simp_all
  consider "fold_eq ''gateway_data'' k"
    | "\<not> fold_eq ''gateway_data'' k" "fold_eq ''sub_device_data'' k"
    | "\<not> fold_eq ''gateway_data'' k" "\<not> fold_eq ''sub_device_data'' k" "fold_eq ''sub_gateway_data'' k"
    | "\<not> fold_eq ''gateway_data'' k" "\<not> fold_eq ''sub_device_data'' k" "\<not> fold_eq ''sub_gateway_data'' k"
    by blast
  then show ?case
  proof cases
    case 1
    then obtain a' where a': "dec_ptr d z j a = Inr a'" "dec_gateway_fields d z r (Gateway a' b c) = Inr g'"
      using prems(1) by (auto split: sum.split_asm)
    have "gw_all P (Gateway a' b c)"
      using dec_ptr_all [OF prems(2,3) a'(1) j(1) abc(1)] abc by simp
    with IH(1) [OF 1 a' prems(2,3) j(2)] show ?thesis .
  next
    case 2
    then obtain b' where b': "dec_map d z j b = Inr b'" "dec_gateway_fields d z r (Gateway a b' c) = Inr g'"
      using prems(1) by (auto split: sum.split_asm)
    have "gw_all P (Gateway a b' c)"
      using dec_map_all [OF prems(2,3) b'(1) j(1) abc(2)] abc by simp
    with IH(2) [OF 2 b' prems(2,3) j(2)] show ?thesis .
  next
    case 3
    show ?thesis
    proof (cases j)
      case JNull
      then have "dec_gateway_fields d z r (Gateway a b None) = Inr g'" using prems(1) 3 by simp
      from IH(3) [OF 3 JNull this prems(2,3) j(2)] abc show ?thesis by simp
    next
      case (JObj kvs)
      then obtain c' where c': "dec_gateway_map d z kvs (case c of None \<Rightarrow> [] | Some m \<Rightarrow> m) = Inr c'"
          "dec_gateway_fields d z r (Gateway a b (Some c')) = Inr g'"
        using prems(1) 3 by (auto split: sum.split_asm)
      have kvs: "list_all (\<lambda>(k, v). wf_json v) kvs" using j(1) by (simp only: JObj wf_obj_iff)
      have "gws_all P (case c of None \<Rightarrow> [] | Some m \<Rightarrow> m)" using abc(3) by (simp split: option.split_asm)
      from IH(4) [OF 3 JObj c'(1) prems(2,3) kvs this] have "gws_all P c'" .
      with IH(5) [OF 3 JObj c' prems(2,3) j(2)] abc show ?thesis by simp
    qed (use prems(1) 3 in simp_all)
  next
    case 4
    then have "dec_gateway_fields d z r (Gateway a b c) = Inr g'" using prems(1) by simp
    from IH(6) [OF 4 this prems(2,3) j(2) prems(5)] show ?thesis .
  qed
next
  case (7 d z k r m)
  then show ?case using gws_all_put [of P m None k] by simp
next
  case "8_5"
  then show ?case
    by (simp del: dec_gateway.simps wf_json.simps split: sum.split_asm)
      (metis gws_all_put gw_all_empty option.simps(5))
qed simp_all

lemma parse_gateway_all:
  "parse_gateway d z s = Inr g \<Longrightarrow> dec_keeps P d \<Longrightarrow> P z \<Longrightarrow> gw_all P g"
  by (auto simp: parse_gateway_def unmarshal_def dest!: json_parse_wf split: option.split_asm
      intro: dec_gateway_all(1) [of d z _ empty_gateway g P])

section \<open>What the flows share\<close>

record flow_env =
  fe_vm :: lua_vm
  fe_heartbeat :: bool

definition msg_decode_failed :: string where
  "msg_decode_failed = utf8 [232, 167, 163, 231, 160, 129, 229, 164, 177, 232, 180, 165, 239, 188, 154]"

definition msg_execute_failed :: string where
  "msg_execute_failed = utf8 [230, 137, 167, 232, 161, 140, 229, 164, 177, 232, 180, 165]"

definition msg_bad_gateway :: string where
  "msg_bad_gateway = utf8 [231, 189, 145, 229, 133, 179, 230, 182, 136, 230, 129, 175, 230, 160, 188, 229,
     188, 143, 233, 148, 153, 232, 175, 175, 239, 188, 154]"

definition full_colon :: string where
  "full_colon = utf8 [239, 188, 154]"

text \<open>The map a payload stands for: a JSON object, else the single key \<open>_raw\<close>.\<close>

definition payload_map :: "bytes \<Rightarrow> json gmap" where
  "payload_map s = (case unmarshal dec_any_map s None of
      Inr (Some m) \<Rightarrow> m
    | Inr None \<Rightarrow> []
    | Inl _ \<Rightarrow> [(''_raw'', raw_value s)])"

text \<open>\<open>json.Marshal\<close> of a map that may be nil.\<close>

definition marshal_map :: "json gmap option \<Rightarrow> bytes" where
  "marshal_map m = json_print (case m of None \<Rightarrow> JNull | Some kvs \<Rightarrow> JObj kvs)"

text \<open>The script stage the flows share: without a device configuration the payload passes.\<close>

definition flow_decode :: "flow_env \<Rightarrow> string \<Rightarrow> device \<Rightarrow> device_message \<Rightarrow> world \<Rightarrow>
    ((decode_output \<times> gerror option) \<times> world) option" where
  "flow_decode env ty d m w = (case dev_device_config_id d of
      None \<Rightarrow> Some (decode_ok (w_now w) (msg_payload m), w)
    | Some cfg \<Rightarrow>
        if cfg = [] then Some (decode_ok (w_now w) (msg_payload m), w)
        else decode (fe_vm env) \<lparr>di_device_config_id = cfg, di_type = ty, di_raw_data = msg_payload m,
               di_timestamp = msg_timestamp m\<rparr> w)"

section \<open>Payloads and maps\<close>

definition good_map :: "json gmap option \<Rightarrow> bool" where
  "good_map m \<longleftrightarrow> (case m of None \<Rightarrow> True | Some kvs \<Rightarrow> wf_json (JObj kvs) \<and> canon_json (JObj kvs))"

definition points_of :: "json gmap option \<Rightarrow> data_point list" where
  "points_of m = (case m of None \<Rightarrow> [] | Some kvs \<Rightarrow> kvs)"

lemma payload_map_marshal: "good_map m \<Longrightarrow> payload_map (marshal_map m) = points_of m"
proof (cases m)
  case None
  have "unmarshal dec_any_map (json_print JNull) None = Inr None"
    by (subst unmarshal_print) simp_all
  then show ?thesis by (simp add: payload_map_def marshal_map_def None points_of_def del: json_print.simps)
next
  case (Some kvs)
  assume "good_map m"
  with Some have "unmarshal dec_any_map (json_print (JObj kvs)) None = Inr (Some kvs)"
    by (intro unmarshal_any_map_print) (simp_all add: good_map_def del: wf_json.simps canon_json.simps)
  then show ?thesis by (simp add: payload_map_def marshal_map_def Some points_of_def del: json_print.simps)
qed

lemma good_map_Some:
  "good_map (Some kvs) \<longleftrightarrow> sorted_map kvs \<and> (\<forall>e \<in> set kvs. wf_json (snd e) \<and> canon_json (snd e))"
  by (auto simp: good_map_def list_all_iff)

lemma dec_any_map_keeps: "dec_keeps good_map dec_any_map"
  unfolding dec_keeps_def
proof (intro allI impI)
  fix j x y
  assume j: "wf_json j" and x: "good_map x" and y: "dec_any_map j x = Inr y"
  show "good_map y"
  proof (cases j)
    case (JObj kvs)
    let ?m0 = "case x of None \<Rightarrow> [] | Some m \<Rightarrow> m"
    let ?es = "map (map_prod id jnorm) kvs"
    have m0: "sorted_map ?m0" "\<forall>e \<in> set ?m0. wf_json (snd e) \<and> canon_json (snd e)"
      using x by (cases x; simp add: good_map_Some)+
    have yy: "y = Some (map_puts ?es ?m0)" using y JObj by (auto simp: dec_entries_any)
    have "wf_json (snd e) \<and> canon_json (snd e)" if "e \<in> set (map_puts ?es ?m0)" for e
    proof -
      from that set_map_puts [of ?es ?m0] consider "e \<in> set ?m0" | "e \<in> set ?es" by blast
      then show ?thesis
      proof cases
        case 2
        then obtain k v where kv: "(k, v) \<in> set kvs" "snd e = jnorm v" by auto
        have "wf_json v" using j kv(1) unfolding JObj wf_obj_iff by (auto simp: list_all_iff)
        with kv(2) show ?thesis by (simp add: wf_jnorm)
      qed (use m0(2) in blast)
    qed
    moreover have "sorted_map (map_puts ?es ?m0)" using m0(1) by (rule sorted_map_puts)
    ultimately show ?thesis by (simp add: yy good_map_Some)
  qed (use y in \<open>auto simp: good_map_def\<close>)
qed

lemma good_map_None [simp]: "good_map None"
  by (simp add: good_map_def)

lemma decode_frame: "decode vm i w = Some (r, w') \<Longrightarrow> frame w w' \<and> w_tasks w' = w_tasks w"
proof -
  have set: "frame w (snd (set_to_cache k s w)) \<and> w_tasks (snd (set_to_cache k s w)) = w_tasks w" for k s
    by (simp add: set_to_cache_def redis_set_def frame_def idents_def split: option.split)
  have "get_script cfg st w = Some (q, v) \<Longrightarrow> frame w v \<and> w_tasks v = w_tasks w" for cfg st q v
    using set by (auto dest!: get_script_cases)
  then show "decode vm i w = Some (r, w') \<Longrightarrow> frame w w' \<and> w_tasks w' = w_tasks w"
    by (auto simp: decode_def split: option.split_asm sum.split_asm if_split_asm)
qed

lemma flow_decode_frame: "flow_decode env ty d m w = Some (r, w') \<Longrightarrow> frame w w' \<and> w_tasks w' = w_tasks w"
  by (auto simp: flow_decode_def dest: decode_frame split: option.split_asm if_split_asm)

section \<open>A concrete gateway\<close>

definition demo_gateway_world :: world where
  "demo_gateway_world = empty_world\<lparr>w_now := 7, w_devices :=
     [demo_device\<lparr>dev_id := ''g1'', dev_device_config_id := None\<rparr>,
      demo_device\<lparr>dev_id := ''s1'', dev_parent_id := Some ''g1'', dev_sub_device_addr := Some ''a1''\<rparr>,
      demo_device\<lparr>dev_id := ''s2'', dev_parent_id := Some ''g1'', dev_sub_device_addr := Some ''a2''\<rparr>]\<rparr>"

definition demo_gateway_payload :: bytes where
  "demo_gateway_payload = json_print (JObj
     [(''gateway_data'', JObj [(''t'', JNum ''1'')]),
      (''sub_device_data'', JObj [(''a1'', JObj [(''h'', JBool True)]), (''zz'', JObj [])]),
      (''sub_gateway_data'', JObj [(''a2'', JObj [(''gateway_data'', JObj [(''p'', JNull)])])])])"

definition demo_gateway :: "json gmap option gateway" where
  "demo_gateway = Gateway (Some (Some [(''t'', JNum ''1'')]))
     (Some [(''a1'', Some [(''h'', JBool True)]), (''zz'', Some [])])
     (Some [(''a2'', Some (Gateway (Some (Some [(''p'', JNull)])) None None))])"

lemma demo_gateway_parse: "parse_gateway dec_any_map None demo_gateway_payload = Inr demo_gateway"
proof -
  have "wf_json (JObj
     [(''gateway_data'', JObj [(''t'', JNum ''1'')]),
      (''sub_device_data'', JObj [(''a1'', JObj [(''h'', JBool True)]), (''zz'', JObj [])]),
      (''sub_gateway_data'', JObj [(''a2'', JObj [(''gateway_data'', JObj [(''p'', JNull)])])])])"
    by (simp add: valid_num_def num_char_def is_digit_def valid_frac_def)
  from unmarshal_print [OF this, of "dec_gateway dec_any_map None" empty_gateway] show ?thesis
    by (simp add: parse_gateway_def demo_gateway_payload_def demo_gateway_def empty_gateway_def
        fold_eq_def to_upper_def upper_char_def dec_any_def del: json_print.simps)
qed

section \<open>Targets carry the data of the message\<close>

lemma sub_targets_all: "subs_all P (Some es) \<Longrightarrow> t \<in> set (sub_targets ch p es) \<Longrightarrow> P (snd t)"
  by (fastforce simp: subs_all_def sub_targets_def split: option.split_asm)

lemma case_option_mem:
  "t \<in> set (case m of None \<Rightarrow> [] | Some x \<Rightarrow> f x) \<longleftrightarrow> (\<exists>x. m = Some x \<and> t \<in> set (f x))"
  by (cases m) auto

lemma mem_concat_map: "t \<in> set (concat (map f es)) \<Longrightarrow> (\<And>e. e \<in> set es \<Longrightarrow> t \<in> set (f e) \<Longrightarrow> R) \<Longrightarrow> R"
  by auto

lemma gw_targets_all:
  "gws_all P gs \<Longrightarrow> t \<in> set (gw_targets ch p gs depth) \<Longrightarrow> P (snd t)"
proof (induction "6 - depth" arbitrary: p gs depth rule: less_induct)
  case less
  have d: "\<not> depth > 5" using less.prems(2) by (auto simp: gw_targets.simps [of _ _ _ depth])
  obtain a g where ag: "(a, g) \<in> set gs"
      and t0: "t \<in> set (case ch p a of None \<Rightarrow> [] | Some i \<Rightarrow> (case g of None \<Rightarrow> [] | Some (Gateway own subs gws) \<Rightarrow>
                (case own of None \<Rightarrow> [] | Some x \<Rightarrow> [(i, x)]) @
                (case subs of None \<Rightarrow> [] | Some ss \<Rightarrow> sub_targets ch (fst i) ss) @
                (case gws of None \<Rightarrow> [] | Some gs \<Rightarrow> gw_targets ch (fst i) gs (depth + 1))))"
    using less.prems(2) d unfolding gw_targets.simps [of _ _ _ depth] if_not_P [OF d]
    by (elim mem_concat_map) (metis (lifting) case_prod_conv surj_pair)
  then obtain i where i: "ch p a = Some i" by (cases "ch p a") auto
  from t0 i obtain own subs gws where g: "g = Some (Gateway own subs gws)"
    by (cases g) (simp, metis gateway.exhaust)
  have all: "gw_all P (Gateway own subs gws)" using less.prems(1) ag g by (fastforce simp: list_all_iff)
  consider x where "own = Some x" "t = (i, x)" | ss where "subs = Some ss" "t \<in> set (sub_targets ch (fst i) ss)"
    | gs' where "gws = Some gs'" "t \<in> set (gw_targets ch (fst i) gs' (depth + 1))"
    using t0 unfolding i g option.case gateway.case set_append Un_iff case_option_mem by force
  then show ?case
  proof cases
    case 1
    with all show ?thesis by simp
  next
    case (2 ss)
    with all have "subs_all P (Some ss)" by simp
    then show ?thesis using 2(2) by (rule sub_targets_all)
  next
    case (3 gs')
    have "6 - (depth + 1) < 6 - depth" using d by auto
    from less.hyps [OF this _ 3(2)] all 3(1) show ?thesis by simp
  qed
qed

lemma targets_all:
  assumes "gw_all P g" "t \<in> set (targets ch i g)"
  shows "P (snd t)"
proof -
  obtain own subs gws where g: "g = Gateway own subs gws" by (cases g)
  consider x where "own = Some x" "t = (i, x)" | ss where "subs = Some ss" "t \<in> set (sub_targets ch (fst i) ss)"
    | gs' where "gws = Some gs'" "t \<in> set (gw_targets ch (fst i) gs' 1)"
    using assms(2) unfolding g targets_def gateway.sel set_append Un_iff case_option_mem by force
  then show ?thesis
  proof cases
    case 1
    then show ?thesis using assms(1) g by simp
  next
    case (2 ss)
    with assms(1) g have "subs_all P (Some ss)" by simp
    then show ?thesis using 2(2) by (rule sub_targets_all)
  next
    case (3 gs')
    with assms(1) g have "gws_all P gs'" by simp
    then show ?thesis using 3(2) by (rule gw_targets_all)
  qed
qed

end
