(* ===== verification/TelemetryFlow.thy ===== *)
theory TelemetryFlow
  imports FlowBase
begin

text \<open>
  \<open>internal/uplink/telemetry.go\<close>: one telemetry message from the bus to the storage channel. The
  loops over maps run in key order. The send into the storage channel is an append: a full channel
  only delays the flow. A handler that panics is \<open>None\<close>.
\<close>

section \<open>The flow\<close>

definition convert_to_telemetry_points :: "bytes \<Rightarrow> data_point list \<times> string list \<times> json gmap" where
  "convert_to_telemetry_points payload =
     (let m = payload_map payload in (m, map fst m, m))"

definition telemetry_message :: "int \<Rightarrow> string \<Rightarrow> string \<Rightarrow> data_point list \<Rightarrow> storage_message" where
  "telemetry_message now i tenant points =
     \<lparr>sm_device_id = i, sm_tenant_id = tenant, sm_data_type = DataTypeTelemetry, sm_timestamp = now,
      sm_data = TelemetryPoints points\<rparr>"

fun record_points :: "string \<Rightarrow> data_point list \<Rightarrow> world \<Rightarrow> world" where
  "record_points i [] w = w"
| "record_points i (_ # ps) w = record_points i ps (diag_uplink_total i w)"

definition tel_direct :: "flow_env \<Rightarrow> device \<Rightarrow> bytes \<Rightarrow> world \<Rightarrow> world" where
  "tel_direct env d payload w =
     (let w1 = refresh_heartbeat (fe_heartbeat env) d w;
          (points, params, vals) = convert_to_telemetry_points payload;
          w2 = (if is_enabled (w_diag w1) then record_points (dev_id d) points w1 else w1);
          w3 = storage_send (telemetry_message (w_now w2) (dev_id d) (dev_tenant_id d) points) w2;
          w4 = spawn (CheckAndPublishToWS (dev_id d) (dev_tenant_id d) vals) w3
      in spawn (ExecuteAutomation d \<lparr>ae_param_type = ''TEL'', ae_param = params, ae_values = vals\<rparr>) w4)"

definition tel_sub_devices :: "flow_env \<Rightarrow> string \<Rightarrow> json gmap option gmap \<Rightarrow> world \<Rightarrow> world option" where
  "tel_sub_devices env parent es w =
     (if es = [] then Some w
      else case get_device_by_sub_device_address (map fst es) parent w of
        Inl _ \<Rightarrow> Some w
      | Inr m \<Rightarrow> each (\<lambda>(addr, data) u. case m addr of
            None \<Rightarrow> Some u
          | Some d \<Rightarrow> Some (tel_direct env d (marshal_map data) u)) es w)"

fun tel_sub_gateways :: "flow_env \<Rightarrow> string \<Rightarrow> (string \<times> json gmap option gateway option) list \<Rightarrow> nat \<Rightarrow>
    world \<Rightarrow> world option" where
  "tel_sub_gateways env parent gs depth w =
     (if depth > 5 then Some w
      else if gs = [] then Some w
      else case get_device_by_sub_device_address (map fst gs) parent w of
        Inl _ \<Rightarrow> Some w
      | Inr m \<Rightarrow> each (\<lambda>(addr, g) u. case m addr of
            None \<Rightarrow> Some u
          | Some d \<Rightarrow> (case g of
              None \<Rightarrow> None
            | Some (Gateway own subs gws) \<Rightarrow>
                Option.bind (case subs of
                    None \<Rightarrow> Some (case own of None \<Rightarrow> u | Some x \<Rightarrow> tel_direct env d (marshal_map x) u)
                  | Some ss \<Rightarrow> tel_sub_devices env (dev_id d) ss
                      (case own of None \<Rightarrow> u | Some x \<Rightarrow> tel_direct env d (marshal_map x) u))
                  (\<lambda>v. case gws of None \<Rightarrow> Some v
                    | Some gs' \<Rightarrow> tel_sub_gateways env (dev_id d) gs' (depth + 1) v))) gs w)"

declare tel_sub_gateways.simps [simp del]

definition tel_gateway_message :: "flow_env \<Rightarrow> device \<Rightarrow> bytes \<Rightarrow> world \<Rightarrow> world option" where
  "tel_gateway_message env d payload w = (case parse_gateway dec_any_map None payload of
      Inl e \<Rightarrow> Some (diag_uplink_failed (dev_id d) StageProcessor (msg_bad_gateway @ error_msg e) w)
    | Inr g \<Rightarrow>
        let w1 = (case gw_data g of None \<Rightarrow> w | Some x \<Rightarrow> tel_direct env d (marshal_map x) w)
        in Option.bind (case gw_subs g of None \<Rightarrow> Some w1 | Some ss \<Rightarrow> tel_sub_devices env (dev_id d) ss w1)
             (\<lambda>w2. case gw_gws g of None \<Rightarrow> Some w2 | Some gs \<Rightarrow> tel_sub_gateways env (dev_id d) gs 1 w2))"

definition tel_process_message :: "flow_env \<Rightarrow> device_message \<Rightarrow> world \<Rightarrow> world option" where
  "tel_process_message env m w = (case get_metadata m ''device_id'' of
      Some (JStr i) \<Rightarrow> (case get_device_cache_by_id i w of
          (Inl _, w1) \<Rightarrow> Some w1
        | (Inr d, w1) \<Rightarrow> (case flow_decode env ''telemetry'' d m w1 of
            None \<Rightarrow> None
          | Some ((out, err), w2) \<Rightarrow> (case err of
              Some e \<Rightarrow> Some (diag_uplink_failed (dev_id d) StageProcessor (msg_decode_failed @ error_msg e) w2)
            | None \<Rightarrow>
                if \<not> do_success out
                then Some (diag_uplink_failed (dev_id d) StageProcessor
                  (case do_error out of None \<Rightarrow> msg_execute_failed
                   | Some e \<Rightarrow> msg_execute_failed @ full_colon @ error_msg e) w2)
                else if msg_type m = ''gateway_telemetry'' then tel_gateway_message env d (do_data out) w2
                else Some (tel_direct env d (do_data out) w2))))
    | _ \<Rightarrow> Some w)"

text \<open>The loop of \<open>Start\<close> over the messages it receives.\<close>

definition tel_run :: "flow_env \<Rightarrow> device_message list \<Rightarrow> world \<Rightarrow> world option" where
  "tel_run env ms w = each (tel_process_message env) ms w"

section \<open>Lemmas\<close>

lemma record_points_frame [simp]:
  "w_storage (record_points i ps w) = w_storage w" "idents (record_points i ps w) = idents w"
  "w_now (record_points i ps w) = w_now w" "w_db_fault (record_points i ps w) = w_db_fault w"
  "w_tasks (record_points i ps w) = w_tasks w" "w_devices (record_points i ps w) = w_devices w"
  by (induction i ps w rule: record_points.induct) (auto simp: diag_uplink_total_def idents_def)

lemma tel_direct_effect:
  "w_storage (tel_direct env d payload w) = w_storage w @
     [telemetry_message (w_now w) (dev_id d) (dev_tenant_id d) (payload_map payload)]"
  "steady w (tel_direct env d payload w)"
proof -
  let ?w = "refresh_heartbeat (fe_heartbeat env) d w"
  have "frame w ?w" by (rule frame_refresh_heartbeat)
  then show "w_storage (tel_direct env d payload w) = w_storage w @
     [telemetry_message (w_now w) (dev_id d) (dev_tenant_id d) (payload_map payload)]"
      and "steady w (tel_direct env d payload w)"
    by (simp_all add: tel_direct_def Let_def convert_to_telemetry_points_def storage_send_def spawn_def
        frame_def steady_def idents_def)
qed

definition tel_target_message :: "int \<Rightarrow> (string \<times> string) \<times> json gmap option \<Rightarrow> storage_message" where
  "tel_target_message now t = telemetry_message now (fst (fst t)) (snd (fst t)) (points_of (snd t))"

interpretation tel_flow: gateway_flow "\<lambda>d x. tel_direct env d (marshal_map x)" "tel_sub_devices env"
  "tel_sub_gateways env" good_map w_storage "\<lambda>now t. [tel_target_message now t]"
  for env
proof (unfold_locales, goal_cases)
  case (1 w d x)
  then show ?case by (rule tel_direct_effect)
next
  case (2 x d w)
  then show ?case by (simp add: tel_direct_effect tel_target_message_def payload_map_marshal)
next
  case (3 p es w)
  then show ?case by (simp add: tel_sub_devices_def)
next
  case (4 p gs depth w)
  then show ?case by (subst tel_sub_gateways.simps) simp
qed

lemma tel_gateway_emits:
  assumes "parse_gateway dec_any_map None payload = Inr g"
    and "w_db_fault w ''devices.find'' = None" "no_nil (child (idents w)) (dev_id d) g"
  shows "tel_flow.emits w (targets (child (idents w)) (dev_id d, dev_tenant_id d) g)
    (tel_gateway_message env d payload w)"
proof -
  obtain own subs gws where g: "g = Gateway own subs gws" by (cases g)
  have good: "gw_all good_map (Gateway own subs gws)"
    using parse_gateway_all [OF assms(1) dec_any_map_keeps good_map_None] g by simp
  have "tel_flow.emits v (gw_targets (child (idents v)) (dev_id d) gs 1) (tel_sub_gateways env (dev_id d) gs 1 v)"
    if "gws = Some gs" "steady w v" for v gs
    using that good assms(2,3) g
    by (intro tel_flow.emits_sub_gateways) (auto simp: steady_def no_nil_def list_all_iff split: option.split_asm)
  from tel_flow.emits_one [where d = d and depth = 1, OF assms(2) good this]
  show ?thesis
    using assms(1) by (simp add: tel_gateway_message_def targets_def g Let_def cong: option.case_cong)
qed

section \<open>Properties\<close>



text \<open>A null sub-gateway crashes the flow. When a gateway reports JSON null for a sub-gateway
  that is registered under it, the telemetry handler dereferences the nil pointer and panics,
  whatever the other entries are.\<close>
theorem telemetry_null_sub_gateway_panics:
  assumes "parse_gateway dec_any_map None payload = Inr (Gateway None None (Some ((a, None) # gs)))"
    and "w_db_fault w ''devices.find'' = None" "child (idents w) (dev_id d) a \<noteq> None"
  shows "tel_gateway_message env d payload w = None"
proof -
  obtain m where m: "get_device_by_sub_device_address (map fst ((a, None) # gs)) (dev_id d) w = Inr m"
    using sub_device_ok [OF assms(2)] by blast
  have "m a \<noteq> None" using sub_device_child [OF m, of a] assms(3) by auto
  then obtain s where s: "m a = Some s" by blast
  have "tel_sub_gateways env (dev_id d) ((a, None) # gs) 1 w = None"
    using m s by (subst tel_sub_gateways.simps) simp
  with assms(1) show ?thesis by (simp add: tel_gateway_message_def Let_def)
qed

theorem telemetry_null_sub_gateway_panics_witness:
  "tel_gateway_message \<lparr>fe_vm = demo_vm, fe_heartbeat = False\<rparr> (demo_device\<lparr>dev_id := ''g1''\<rparr>)
     (json_print (JObj [(''sub_gateway_data'', JObj [(''a2'', JNull)])])) demo_gateway_world = None"
proof -
  have "wf_json (JObj [(''sub_gateway_data'', JObj [(''a2'', JNull)])])" by simp
  from unmarshal_print [OF this, of "dec_gateway dec_any_map None" empty_gateway]
  have "parse_gateway dec_any_map None (json_print (JObj [(''sub_gateway_data'', JObj [(''a2'', JNull)])])) =
      Inr (Gateway None None (Some [(''a2'', None)]))"
    by (simp add: parse_gateway_def empty_gateway_def fold_eq_def to_upper_def upper_char_def
        del: json_print.simps)
  then show ?thesis
    by (rule telemetry_null_sub_gateway_panics)
      (simp_all add: demo_gateway_world_def empty_world_def child_def idents_def row_ident_def demo_device_def)
qed

text \<open>A message of a device that is not a gateway message is stored exactly once or not at all.
  When its script stage succeeds, one telemetry message with the device's id and tenant and the
  entries of the decoded payload (or _raw) is appended to the storage channel and the WebSocket and
  automation goroutines are started with the same values; when the stage fails, nothing is stored
  and no goroutine is started.\<close>
theorem telemetry_message_stored:
  assumes "get_metadata m ''device_id'' = Some (JStr i)"
    and "get_device_cache_by_id i w = (Inr d, w1)"
    and "flow_decode env ''telemetry'' d m w1 = Some ((res, err), w2)"
    and "msg_type m \<noteq> ''gateway_telemetry''"
  shows "\<exists>w'. tel_process_message env m w = Some w' \<and>
    (if err = None \<and> do_success res
     then w_storage w' = w_storage w @
            [telemetry_message (w_now w) (dev_id d) (dev_tenant_id d) (payload_map (do_data res))] \<and>
          {CheckAndPublishToWS (dev_id d) (dev_tenant_id d) (payload_map (do_data res)),
           ExecuteAutomation d \<lparr>ae_param_type = ''TEL'', ae_param = map fst (payload_map (do_data res)),
             ae_values = payload_map (do_data res)\<rparr>} \<subseteq> set (w_tasks w')
     else w_storage w' = w_storage w \<and> w_tasks w' = w_tasks w)"
proof -
  have f: "frame w w1" "w_tasks w1 = w_tasks w"
    using frame_get_device [OF assms(2)] get_device_cache_by_id_frame(3) [of i w] assms(2) by auto
  note f2 = flow_decode_frame [OF assms(3)]
  have now: "w_now w2 = w_now w" "w_storage w2 = w_storage w" "w_tasks w2 = w_tasks w"
    using f f2 by (auto simp: frame_def)
  show ?thesis
  proof (cases "err = None \<and> do_success res")
    case True
    let ?w' = "tel_direct env d (do_data res) w2"
    have "tel_process_message env m w = Some ?w'"
      using True assms by (simp add: tel_process_message_def)
    moreover have "{CheckAndPublishToWS (dev_id d) (dev_tenant_id d) (payload_map (do_data res)),
           ExecuteAutomation d \<lparr>ae_param_type = ''TEL'', ae_param = map fst (payload_map (do_data res)),
             ae_values = payload_map (do_data res)\<rparr>} \<subseteq> set (w_tasks ?w')"
      by (simp add: tel_direct_def Let_def convert_to_telemetry_points_def spawn_def)
    ultimately show ?thesis using True tel_direct_effect(1) now by auto
  next
    case False
    then have "\<exists>st e. tel_process_message env m w = Some (diag_uplink_failed (dev_id d) st e w2)"
      using assms by (cases err) (auto simp: tel_process_message_def)
    then show ?thesis using False now by (auto simp: diag_uplink_failed_def)
  qed
qed

definition demo_tel_msg :: device_message where
  "demo_tel_msg = \<lparr>msg_type = ''telemetry'', msg_device_id = ''g1'', msg_tenant_id = ''t1'', msg_timestamp = 5,
     msg_payload = json_print (JObj [(''t'', JNum ''1'')]), msg_metadata = [(''device_id'', JStr ''g1'')]\<rparr>"

theorem telemetry_message_stored_witness:
  "\<exists>w'. tel_process_message \<lparr>fe_vm = demo_vm, fe_heartbeat = False\<rparr> demo_tel_msg demo_gateway_world = Some w' \<and>
     w_storage w' = [telemetry_message 7 ''g1'' ''t1'' [(''t'', JNum ''1'')]]"
proof -
  let ?d = "demo_device\<lparr>dev_id := ''g1'', dev_device_config_id := None\<rparr>"
  let ?env = "\<lparr>fe_vm = demo_vm, fe_heartbeat = False\<rparr>"
  obtain w1 where w1: "get_device_cache_by_id ''g1'' demo_gateway_world = (Inr ?d, w1)"
    by (simp add: get_device_cache_by_id_def load_device_def dal_get_device_def demo_gateway_world_def
        empty_world_def)
  have md: "get_metadata demo_tel_msg ''device_id'' = Some (JStr ''g1'')"
    by (simp add: get_metadata_def demo_tel_msg_def)
  have dec: "flow_decode ?env ''telemetry'' ?d demo_tel_msg w1 =
      Some ((fst (decode_ok (w_now w1) (msg_payload demo_tel_msg)), None), w1)"
    by (simp add: flow_decode_def decode_ok_def)
  have ty: "msg_type demo_tel_msg \<noteq> ''gateway_telemetry''" by (simp add: demo_tel_msg_def)
  have p: "payload_map (msg_payload demo_tel_msg) = [(''t'', JNum ''1'')]"
    using payload_map_marshal [of "Some [(''t'', JNum ''1'')]"]
    by (simp add: good_map_Some valid_num_def num_char_def is_digit_def valid_frac_def marshal_map_def
        points_of_def demo_tel_msg_def)
  from telemetry_message_stored [OF md w1 dec ty] show ?thesis
    by (auto simp: decode_ok_def p) (auto simp: demo_gateway_world_def empty_world_def demo_device_def)
qed

end
