(* ===== verification/AttributeFlow.thy ===== *)
theory AttributeFlow
  imports FlowBase
begin

text \<open>
  \<open>internal/uplink/attribute.go\<close>: one attribute message from the bus to the storage channel. It
  differs from the telemetry flow in the data type, in that a failed script is only logged, and in
  that there is neither a WebSocket push nor a point count.
\<close>

section \<open>The flow\<close>

definition attribute_message :: "int \<Rightarrow> string \<Rightarrow> string \<Rightarrow> data_point list \<Rightarrow> storage_message" where
  "attribute_message now i tenant points =
     \<lparr>sm_device_id = i, sm_tenant_id = tenant, sm_data_type = DataTypeAttribute, sm_timestamp = now,
      sm_data = AttributePoints points\<rparr>"

definition attr_direct :: "flow_env \<Rightarrow> device \<Rightarrow> bytes \<Rightarrow> world \<Rightarrow> world" where
  "attr_direct env d payload w =
     (let w1 = refresh_heartbeat (fe_heartbeat env) d w;
          m = payload_map payload;
          w2 = storage_send (attribute_message (w_now w1) (dev_id d) (dev_tenant_id d) m) w1
      in spawn (ExecuteAutomation d \<lparr>ae_param_type = ''ATTR'', ae_param = map fst m, ae_values = m\<rparr>) w2)"

definition attr_sub_devices :: "flow_env \<Rightarrow> string \<Rightarrow> json gmap option gmap \<Rightarrow> world \<Rightarrow> world option" where
  "attr_sub_devices env parent es w =
     (if es = [] then Some w
      else case get_device_by_sub_device_address (map fst es) parent w of
        Inl _ \<Rightarrow> Some w
      | Inr m \<Rightarrow> each (\<lambda>(addr, data) u. case m addr of
            None \<Rightarrow> Some u
          | Some d \<Rightarrow> Some (attr_direct env d (marshal_map data) u)) es w)"

fun attr_sub_gateways :: "flow_env \<Rightarrow> string \<Rightarrow> (string \<times> json gmap option gateway option) list \<Rightarrow> nat \<Rightarrow>
    world \<Rightarrow> world option" where
  "attr_sub_gateways env parent gs depth w =
     (if depth > 5 then Some w
      else if gs = [] then Some w
      else case get_device_by_sub_device_address (map fst gs) parent w of
        Inl _ \<Rightarrow> Some w
      | Inr m \<Rightarrow> each (\<lambda>(addr, g) u. case m addr of
            None \<Rightarrow> Some u
          | Some d \<Rightarrow> (case g of
              None \<Rightarrow> None
            | Some (Gateway own subs gws) \<Rightarrow>
                Option.bind (case subs of
                    None \<Rightarrow> Some (case own of None \<Rightarrow> u | Some x \<Rightarrow> attr_direct env d (marshal_map x) u)
                  | Some ss \<Rightarrow> attr_sub_devices env (dev_id d) ss
                      (case own of None \<Rightarrow> u | Some x \<Rightarrow> attr_direct env d (marshal_map x) u))
                  (\<lambda>v. case gws of None \<Rightarrow> Some v
                    | Some gs' \<Rightarrow> attr_sub_gateways env (dev_id d) gs' (depth + 1) v))) gs w)"

declare attr_sub_gateways.simps [simp del]

definition attr_gateway_message :: "flow_env \<Rightarrow> device \<Rightarrow> bytes \<Rightarrow> world \<Rightarrow> world option" where
  "attr_gateway_message env d payload w = (case parse_gateway dec_any_map None payload of
      Inl e \<Rightarrow> Some (diag_uplink_failed (dev_id d) StageProcessor (msg_bad_gateway @ error_msg e) w)
    | Inr g \<Rightarrow>
        let w1 = (case gw_data g of None \<Rightarrow> w | Some x \<Rightarrow> attr_direct env d (marshal_map x) w)
        in Option.bind (case gw_subs g of None \<Rightarrow> Some w1 | Some ss \<Rightarrow> attr_sub_devices env (dev_id d) ss w1)
             (\<lambda>w2. case gw_gws g of None \<Rightarrow> Some w2 | Some gs \<Rightarrow> attr_sub_gateways env (dev_id d) gs 1 w2))"

definition attr_process_message :: "flow_env \<Rightarrow> device_message \<Rightarrow> world \<Rightarrow> world option" where
  "attr_process_message env m w = (case get_metadata m ''device_id'' of
      Some (JStr i) \<Rightarrow> (case get_device_cache_by_id i w of
          (Inl _, w1) \<Rightarrow> Some w1
        | (Inr d, w1) \<Rightarrow> (case flow_decode env ''attribute'' d m w1 of
            None \<Rightarrow> None
          | Some ((out, err), w2) \<Rightarrow> (case err of
              Some e \<Rightarrow> Some w2
            | None \<Rightarrow>
                if \<not> do_success out then Some w2
                else if msg_type m = ''gateway_attribute'' then attr_gateway_message env d (do_data out) w2
                else Some (attr_direct env d (do_data out) w2))))
    | _ \<Rightarrow> Some w)"

definition attr_run :: "flow_env \<Rightarrow> device_message list \<Rightarrow> world \<Rightarrow> world option" where
  "attr_run env ms w = each (attr_process_message env) ms w"

section \<open>Lemmas\<close>

lemma attr_direct_effect:
  "w_storage (attr_direct env d payload w) = w_storage w @
     [attribute_message (w_now w) (dev_id d) (dev_tenant_id d) (payload_map payload)]"
  "steady w (attr_direct env d payload w)"
proof -
  let ?w = "refresh_heartbeat (fe_heartbeat env) d w"
  have "frame w ?w" by (rule frame_refresh_heartbeat)
  then show "w_storage (attr_direct env d payload w) = w_storage w @
     [attribute_message (w_now w) (dev_id d) (dev_tenant_id d) (payload_map payload)]"
      and "steady w (attr_direct env d payload w)"
    by (simp_all add: attr_direct_def Let_def storage_send_def spawn_def frame_def steady_def idents_def)
qed

definition attr_target_message :: "int \<Rightarrow> (string \<times> string) \<times> json gmap option \<Rightarrow> storage_message" where
  "attr_target_message now t = attribute_message now (fst (fst t)) (snd (fst t)) (points_of (snd t))"

interpretation attr_flow: gateway_flow "\<lambda>d x. attr_direct env d (marshal_map x)" "attr_sub_devices env"
  "attr_sub_gateways env" good_map w_storage "\<lambda>now t. [attr_target_message now t]"
  for env
proof (unfold_locales, goal_cases)
  case (1 w d x)
  then show ?case by (rule attr_direct_effect)
next
  case (2 x d w)
  then show ?case by (simp add: attr_direct_effect attr_target_message_def payload_map_marshal)
next
  case (3 p es w)
  then show ?case by (simp add: attr_sub_devices_def)
next
  case (4 p gs depth w)
  then show ?case by (subst attr_sub_gateways.simps) simp
qed

lemma attr_gateway_emits:
  assumes "parse_gateway dec_any_map None payload = Inr g"
    and "w_db_fault w ''devices.find'' = None" "no_nil (child (idents w)) (dev_id d) g"
  shows "attr_flow.emits w (targets (child (idents w)) (dev_id d, dev_tenant_id d) g)
    (attr_gateway_message env d payload w)"
proof -
  obtain own subs gws where g: "g = Gateway own subs gws" by (cases g)
  have good: "gw_all good_map (Gateway own subs gws)"
    using parse_gateway_all [OF assms(1) dec_any_map_keeps good_map_None] g by simp
  have "attr_flow.emits v (gw_targets (child (idents v)) (dev_id d) gs 1) (attr_sub_gateways env (dev_id d) gs 1 v)"
    if "gws = Some gs" "steady w v" for v gs
    using that good assms(2,3) g
    by (intro attr_flow.emits_sub_gateways) (auto simp: steady_def no_nil_def list_all_iff split: option.split_asm)
  from attr_flow.emits_one [where d = d and depth = 1, OF assms(2) good this]
  show ?thesis
    using assms(1) by (simp add: attr_gateway_message_def targets_def g Let_def cong: option.case_cong)
qed

section \<open>Properties\<close>

text \<open>A whole attribute message is handled as its targets say. For a message of a known device
  whose script stage succeeds, the storage channel receives, in order, one attribute message per
  target: for a gateway_attribute message the targets of the decoded tree (own data, known
  sub-devices, known sub-gateways down to level five, provided none of those is null), and for any
  other type the device itself with the entries of the payload; when the script stage fails nothing
  is stored.\<close>
theorem attribute_message_stored:
  assumes "get_metadata m ''device_id'' = Some (JStr i)"
    and "get_device_cache_by_id i w = (Inr d, w1)"
    and "flow_decode env ''attribute'' d m w1 = Some ((res, err), w2)"
    and "msg_type m = ''gateway_attribute'' \<Longrightarrow>
      parse_gateway dec_any_map None (do_data res) = Inr g \<and> w_db_fault w ''devices.find'' = None \<and>
      no_nil (child (idents w)) (dev_id d) g"
  shows "\<exists>w'. attr_process_message env m w = Some w' \<and>
    w_storage w' = w_storage w @
      (if err \<noteq> None \<or> \<not> do_success res then []
       else if msg_type m = ''gateway_attribute''
       then map (attr_target_message (w_now w)) (targets (child (idents w)) (dev_id d, dev_tenant_id d) g)
       else [attribute_message (w_now w) (dev_id d) (dev_tenant_id d) (payload_map (do_data res))])"
proof -
  have f: "frame w w2"
    using frame_get_device [OF assms(2)] flow_decode_frame [OF assms(3)] frame_trans by blast
  show ?thesis
  proof (cases "err \<noteq> None \<or> \<not> do_success res")
    case True
    then have "attr_process_message env m w = Some w2"
      using assms(1-3) by (cases err) (auto simp: attr_process_message_def)
    then show ?thesis using True f by (simp add: frame_def)
  next
    case ok: False
    show ?thesis
    proof (cases "msg_type m = ''gateway_attribute''")
      case True
      have "attr_process_message env m w = attr_gateway_message env d (do_data res) w2"
        using ok True assms(1-3) by (simp add: attr_process_message_def)
      moreover have "attr_flow.emits w2 (targets (child (idents w2)) (dev_id d, dev_tenant_id d) g)
          (attr_gateway_message env d (do_data res) w2)"
        using assms(4) [OF True] f by (intro attr_gateway_emits) (simp_all add: frame_def)
      ultimately show ?thesis using ok True f by (auto simp: attr_flow.emits_def frame_def)
    next
      case False
      then have "attr_process_message env m w = Some (attr_direct env d (do_data res) w2)"
        using ok assms(1-3) by (simp add: attr_process_message_def)
      then show ?thesis using ok False f attr_direct_effect(1) by (simp add: frame_def)
    qed
  qed
qed

definition demo_attr_msg :: device_message where
  "demo_attr_msg = \<lparr>msg_type = ''gateway_attribute'', msg_device_id = ''g1'', msg_tenant_id = ''t1'',
     msg_timestamp = 5, msg_payload = demo_gateway_payload, msg_metadata = [(''device_id'', JStr ''g1'')]\<rparr>"

theorem attribute_message_stored_witness:
  "\<exists>w'. attr_process_message \<lparr>fe_vm = demo_vm, fe_heartbeat = False\<rparr> demo_attr_msg demo_gateway_world = Some w' \<and>
     w_storage w' =
       [attribute_message 7 ''g1'' ''t1'' [(''t'', JNum ''1'')],
        attribute_message 7 ''s1'' ''t1'' [(''h'', JBool True)],
        attribute_message 7 ''s2'' ''t1'' [(''p'', JNull)]]"
proof -
  let ?d = "demo_device\<lparr>dev_id := ''g1'', dev_device_config_id := None\<rparr>"
  let ?env = "\<lparr>fe_vm = demo_vm, fe_heartbeat = False\<rparr>"
  let ?ch = "child (idents demo_gateway_world)"
  obtain w1 where w1: "get_device_cache_by_id ''g1'' demo_gateway_world = (Inr ?d, w1)"
    by (simp add: get_device_cache_by_id_def load_device_def dal_get_device_def demo_gateway_world_def
        empty_world_def)
  have md: "get_metadata demo_attr_msg ''device_id'' = Some (JStr ''g1'')"
    by (simp add: get_metadata_def demo_attr_msg_def)
  have dec: "flow_decode ?env ''attribute'' ?d demo_attr_msg w1 =
      Some ((fst (decode_ok (w_now w1) demo_gateway_payload), None), w1)"
    by (simp add: flow_decode_def decode_ok_def demo_attr_msg_def)
  have ch: "?ch ''g1'' ''a1'' = Some (''s1'', ''t1'')" "?ch ''g1'' ''a2'' = Some (''s2'', ''t1'')"
      "?ch ''g1'' ''zz'' = None"
    by (simp_all add: child_def idents_def demo_gateway_world_def row_ident_def demo_device_def)
  have g: "parse_gateway dec_any_map None (do_data (fst (decode_ok (w_now w1) demo_gateway_payload))) = Inr demo_gateway \<and>
      w_db_fault demo_gateway_world ''devices.find'' = None \<and> no_nil ?ch (dev_id ?d) demo_gateway"
    using demo_gateway_parse
    by (simp add: decode_ok_def no_nil_def demo_gateway_def gws_no_nil.simps [of _ _ _ "Suc 0"] ch)
      (simp add: demo_gateway_world_def empty_world_def)
  have s: "w_storage demo_gateway_world = []" "w_now demo_gateway_world = 7"
    by (simp_all add: demo_gateway_world_def empty_world_def)
  have ty: "msg_type demo_attr_msg = ''gateway_attribute''" by (simp add: demo_attr_msg_def)
  have t: "targets ?ch (''g1'', ''t1'') demo_gateway =
      [((''g1'', ''t1''), Some [(''t'', JNum ''1'')]), ((''s1'', ''t1''), Some [(''h'', JBool True)]),
       ((''s2'', ''t1''), Some [(''p'', JNull)])]"
    by (simp add: targets_def demo_gateway_def sub_targets_def gw_targets.simps [of _ _ _ "Suc 0"] ch)
  have d: "dev_id ?d = ''g1''" "dev_tenant_id ?d = ''t1''" by (simp_all add: demo_device_def)
  from attribute_message_stored [OF md w1 dec g] show ?thesis
    unfolding d t s ty by (simp add: decode_ok_def attr_target_message_def points_of_def)
qed

end
