(* ===== verification/EventFlow.thy ===== *)
theory EventFlow
  imports FlowBase
begin

text \<open>
  \<open>internal/uplink/event.go\<close>: one event message from the bus to the storage channel. An event has a
  method and parameters; a gateway message carries one event per device.
\<close>

section \<open>The flow\<close>

record event_info =
  evi_method :: string
  evi_params :: "json gmap option"

definition event_fields :: "event_info field_dec list" where
  "event_fields =
     [(''method'', on_field dec_string evi_method (\<lambda>v e. e\<lparr>evi_method := v\<rparr>)),
      (''params'', on_field dec_any_map evi_params (\<lambda>v e. e\<lparr>evi_params := v\<rparr>))]"

definition empty_event :: event_info where
  "empty_event = \<lparr>evi_method = '''', evi_params = None\<rparr>"

abbreviation "dec_event \<equiv> dec_struct event_fields"

definition event_message :: "int \<Rightarrow> string \<Rightarrow> string \<Rightarrow> event_info \<Rightarrow> storage_message" where
  "event_message now i tenant e =
     \<lparr>sm_device_id = i, sm_tenant_id = tenant, sm_data_type = DataTypeEvent, sm_timestamp = now,
      sm_data = EventData (evi_method e) (marshal_map (evi_params e))\<rparr>"

definition event_direct :: "flow_env \<Rightarrow> device \<Rightarrow> event_info \<Rightarrow> world \<Rightarrow> world" where
  "event_direct env d e w =
     (let w1 = refresh_heartbeat (fe_heartbeat env) d w;
          params_json = marshal_map (evi_params e);
          w2 = storage_send (event_message (w_now w1) (dev_id d) (dev_tenant_id d) e) w1
      in spawn (ExecuteAutomation d \<lparr>ae_param_type = ''EVT'', ae_param = [evi_method e],
                  ae_values = [(evi_method e, JStr params_json)]\<rparr>) w2)"

definition event_sub_devices :: "flow_env \<Rightarrow> string \<Rightarrow> event_info gmap \<Rightarrow> world \<Rightarrow> world option" where
  "event_sub_devices env parent es w =
     (if es = [] then Some w
      else case get_device_by_sub_device_address (map fst es) parent w of
        Inl _ \<Rightarrow> Some w
      | Inr m \<Rightarrow> each (\<lambda>(addr, e) u. case m addr of
            None \<Rightarrow> Some u
          | Some d \<Rightarrow> Some (event_direct env d e u)) es w)"

fun event_sub_gateways :: "flow_env \<Rightarrow> string \<Rightarrow> (string \<times> event_info gateway option) list \<Rightarrow> nat \<Rightarrow>
    world \<Rightarrow> world option" where
  "event_sub_gateways env parent gs depth w =
     (if depth > 5 then Some w
      else if gs = [] then Some w
      else case get_device_by_sub_device_address (map fst gs) parent w of
        Inl _ \<Rightarrow> Some w
      | Inr m \<Rightarrow> each (\<lambda>(addr, g) u. case m addr of
            None \<Rightarrow> Some u
          | Some d \<Rightarrow> (case g of
              None \<Rightarrow> None
            | Some (Gateway own subs gws) \<Rightarrow>
                Option.bind (case subs of
                    None \<Rightarrow> Some (case own of None \<Rightarrow> u | Some x \<Rightarrow> event_direct env d x u)
                  | Some ss \<Rightarrow> event_sub_devices env (dev_id d) ss
                      (case own of None \<Rightarrow> u | Some x \<Rightarrow> event_direct env d x u))
                  (\<lambda>v. case gws of None \<Rightarrow> Some v
                    | Some gs' \<Rightarrow> event_sub_gateways env (dev_id d) gs' (depth + 1) v))) gs w)"

declare event_sub_gateways.simps [simp del]

definition event_gateway_message :: "flow_env \<Rightarrow> device \<Rightarrow> bytes \<Rightarrow> world \<Rightarrow> world option" where
  "event_gateway_message env d payload w = (case parse_gateway dec_event empty_event payload of
      Inl e \<Rightarrow> Some (diag_uplink_failed (dev_id d) StageProcessor (msg_bad_gateway @ error_msg e) w)
    | Inr g \<Rightarrow>
        let w1 = (case gw_data g of None \<Rightarrow> w | Some x \<Rightarrow> event_direct env d x w)
        in Option.bind (case gw_subs g of None \<Rightarrow> Some w1 | Some ss \<Rightarrow> event_sub_devices env (dev_id d) ss w1)
             (\<lambda>w2. case gw_gws g of None \<Rightarrow> Some w2 | Some gs \<Rightarrow> event_sub_gateways env (dev_id d) gs 1 w2))"

text \<open>The event a direct device's payload stands for.\<close>

definition payload_event :: "bytes \<Rightarrow> event_info" where
  "payload_event s = (case unmarshal dec_event s empty_event of
      Inr e \<Rightarrow> e
    | Inl _ \<Rightarrow> \<lparr>evi_method = ''_raw'', evi_params = Some [(''value'', raw_value s)]\<rparr>)"

definition event_process_message :: "flow_env \<Rightarrow> device_message \<Rightarrow> world \<Rightarrow> world option" where
  "event_process_message env m w = (case get_metadata m ''device_id'' of
      Some (JStr i) \<Rightarrow> (case get_device_cache_by_id i w of
          (Inl _, w1) \<Rightarrow> Some w1
        | (Inr d, w1) \<Rightarrow> (case flow_decode env ''event'' d m w1 of
            None \<Rightarrow> None
          | Some ((out, err), w2) \<Rightarrow> (case err of
              Some e \<Rightarrow> Some w2
            | None \<Rightarrow>
                if \<not> do_success out then Some w2
                else if msg_type m = ''gateway_event'' then event_gateway_message env d (do_data out) w2
                else Some (event_direct env d (payload_event (do_data out)) w2))))
    | _ \<Rightarrow> Some w)"

definition event_run :: "flow_env \<Rightarrow> device_message list \<Rightarrow> world \<Rightarrow> world option" where
  "event_run env ms w = each (event_process_message env) ms w"

section \<open>Lemmas\<close>

lemma event_direct_effect:
  "w_storage (event_direct env d e w) = w_storage w @ [event_message (w_now w) (dev_id d) (dev_tenant_id d) e]"
  "steady w (event_direct env d e w)"
proof -
  let ?w = "refresh_heartbeat (fe_heartbeat env) d w"
  have "frame w ?w" by (rule frame_refresh_heartbeat)
  then show "w_storage (event_direct env d e w) =
        w_storage w @ [event_message (w_now w) (dev_id d) (dev_tenant_id d) e]"
      and "steady w (event_direct env d e w)"
    by (simp_all add: event_direct_def Let_def storage_send_def spawn_def frame_def steady_def idents_def)
qed

definition event_target_message :: "int \<Rightarrow> (string \<times> string) \<times> event_info \<Rightarrow> storage_message" where
  "event_target_message now t = event_message now (fst (fst t)) (snd (fst t)) (snd t)"

definition good_event :: "event_info \<Rightarrow> bool" where
  "good_event e \<longleftrightarrow> good_map (evi_params e)"

interpretation event_flow: gateway_flow "event_direct env" "event_sub_devices env"
  "event_sub_gateways env" good_event w_storage "\<lambda>now t. [event_target_message now t]"
  for env
proof (unfold_locales, goal_cases)
  case (1 w d x)
  then show ?case by (rule event_direct_effect)
next
  case (2 x d w)
  then show ?case by (simp add: event_direct_effect event_target_message_def)
next
  case (3 p es w)
  then show ?case by (simp add: event_sub_devices_def)
next
  case (4 p gs depth w)
  then show ?case by (subst event_sub_gateways.simps) simp
qed

lemma dec_event_fields_keeps:
  "list_all (\<lambda>(k, j). wf_json j) kvs \<Longrightarrow> good_event e \<Longrightarrow> dec_fields event_fields kvs e = Inr e' \<Longrightarrow> good_event e'"
proof (induction kvs arbitrary: e)
  case (Cons kv kvs)
  obtain k j where kv: "kv = (k, j)" by force
  have j: "wf_json j" "list_all (\<lambda>(k, j). wf_json j) kvs" using Cons.prems(1) kv by simp_all
  consider "fold_eq ''method'' k" | "\<not> fold_eq ''method'' k" "fold_eq ''params'' k"
    | "\<not> fold_eq ''method'' k" "\<not> fold_eq ''params'' k" by blast
  then show ?case
  proof cases
    case 1
    then obtain v where "dec_fields event_fields kvs (e\<lparr>evi_method := v\<rparr>) = Inr e'"
      using Cons.prems(3) kv by (auto simp: event_fields_def on_field_def split: sum.split_asm)
    moreover have "good_event (e\<lparr>evi_method := v\<rparr>)" using Cons.prems(2) by (simp add: good_event_def)
    ultimately show ?thesis using Cons.IH j(2) by blast
  next
    case 2
    then obtain v where v: "dec_any_map j (evi_params e) = Inr v"
        "dec_fields event_fields kvs (e\<lparr>evi_params := v\<rparr>) = Inr e'"
      using Cons.prems(3) kv by (auto simp: event_fields_def on_field_def split: sum.split_asm)
    have "good_event (e\<lparr>evi_params := v\<rparr>)"
      using dec_keepsD [OF dec_any_map_keeps j(1) _ v(1)] Cons.prems(2) by (simp add: good_event_def)
    with Cons.IH j(2) v(2) show ?thesis by blast
  next
    case 3
    then have "dec_fields event_fields kvs e = Inr e'"
      using Cons.prems(3) kv by (simp add: event_fields_def)
    with Cons.IH j(2) Cons.prems(2) show ?thesis by blast
  qed
qed simp

lemma dec_event_keeps: "dec_keeps good_event dec_event"
  unfolding dec_keeps_def
proof (intro allI impI)
  fix j x y
  assume "wf_json j" "good_event x" "dec_event j x = Inr y"
  then show "good_event y"
    by (cases j) (auto simp: wf_obj_iff simp del: wf_json.simps intro: dec_event_fields_keeps)
qed

lemma good_empty_event [simp]: "good_event empty_event"
  by (simp add: good_event_def empty_event_def)

lemma unmarshal_marshal_map: "good_map m \<Longrightarrow> unmarshal dec_any_map (marshal_map m) None = Inr m"
proof (cases m)
  case None
  have "unmarshal dec_any_map (json_print JNull) None = Inr None" by (subst unmarshal_print) simp_all
  then show ?thesis by (simp add: None marshal_map_def)
next
  case (Some kvs)
  assume "good_map m"
  with Some show ?thesis
    by (auto simp: marshal_map_def good_map_def simp del: wf_json.simps canon_json.simps json_print.simps
        intro: unmarshal_any_map_print)
qed

lemma event_gateway_emits:
  assumes "parse_gateway dec_event empty_event payload = Inr g"
    and "w_db_fault w ''devices.find'' = None" "no_nil (child (idents w)) (dev_id d) g"
  shows "event_flow.emits w (targets (child (idents w)) (dev_id d, dev_tenant_id d) g)
    (event_gateway_message env d payload w)"
proof -
  obtain own subs gws where g: "g = Gateway own subs gws" by (cases g)
  have good: "gw_all good_event (Gateway own subs gws)"
    using parse_gateway_all [OF assms(1) dec_event_keeps good_empty_event] g by simp
  have "event_flow.emits v (gw_targets (child (idents v)) (dev_id d) gs 1) (event_sub_gateways env (dev_id d) gs 1 v)"
    if "gws = Some gs" "steady w v" for v gs
    using that good assms(2,3) g
    by (intro event_flow.emits_sub_gateways) (auto simp: steady_def no_nil_def list_all_iff split: option.split_asm)
  from event_flow.emits_one [where d = d and depth = 1, OF assms(2) good this]
  show ?thesis
    using assms(1) by (simp add: event_gateway_message_def targets_def g Let_def cong: option.case_cong)
qed

section \<open>Properties\<close>

text \<open>A gateway's event message is split like telemetry, one event per target in order, and the
  parameters survive: the text stored for each event unmarshals to exactly the parameters the
  gateway message held for that device, null included.\<close>
theorem event_gateway_split:
  assumes "parse_gateway dec_event empty_event payload = Inr g"
    and "w_db_fault w ''devices.find'' = None" "no_nil (child (idents w)) (dev_id d) g"
  shows "\<exists>w'. event_gateway_message env d payload w = Some w' \<and>
    w_storage w' = w_storage w @
      map (event_target_message (w_now w)) (targets (child (idents w)) (dev_id d, dev_tenant_id d) g) \<and>
    (\<forall>t \<in> set (targets (child (idents w)) (dev_id d, dev_tenant_id d) g).
       sm_data (event_target_message (w_now w) t) =
         EventData (evi_method (snd t)) (marshal_map (evi_params (snd t))) \<and>
       unmarshal dec_any_map (marshal_map (evi_params (snd t))) None = Inr (evi_params (snd t)))"
proof -
  have "good_event (snd t)" if "t \<in> set (targets (child (idents w)) (dev_id d, dev_tenant_id d) g)" for t
    using targets_all [OF parse_gateway_all [OF assms(1) dec_event_keeps good_empty_event] that] .
  then have "unmarshal dec_any_map (marshal_map (evi_params (snd t))) None = Inr (evi_params (snd t))"
    if "t \<in> set (targets (child (idents w)) (dev_id d, dev_tenant_id d) g)" for t
    using that unmarshal_marshal_map by (simp add: good_event_def)
  moreover have "sm_data (event_target_message (w_now w) t) =
      EventData (evi_method (snd t)) (marshal_map (evi_params (snd t)))" for t
    by (simp add: event_target_message_def event_message_def)
  ultimately show ?thesis
    using event_gateway_emits [OF assms, of env] by (auto simp: event_flow.emits_def)
qed

theorem event_gateway_split_witness:
  "\<exists>w'. event_gateway_message \<lparr>fe_vm = demo_vm, fe_heartbeat = False\<rparr> (demo_device\<lparr>dev_id := ''g1''\<rparr>)
     (json_print (JObj [(''sub_device_data'', JObj [(''a1'', JObj [(''method'', JStr ''open''),
        (''params'', JObj [(''n'', JNum ''1'')])])])])) demo_gateway_world = Some w' \<and>
     w_storage w' = [event_message 7 ''s1'' ''t1'' \<lparr>evi_method = ''open'', evi_params = Some [(''n'', JNum ''1'')]\<rparr>]"
proof -
  let ?j = "JObj [(''sub_device_data'', JObj [(''a1'', JObj [(''method'', JStr ''open''),
        (''params'', JObj [(''n'', JNum ''1'')])])])]"
  let ?e = "\<lparr>evi_method = ''open'', evi_params = Some [(''n'', JNum ''1'')]\<rparr>"
  let ?g = "Gateway None (Some [(''a1'', ?e)]) None"
  have "wf_json ?j" by (simp add: valid_num_def num_char_def is_digit_def valid_frac_def)
  from unmarshal_print [OF this, of "dec_gateway dec_event empty_event" empty_gateway]
  have p: "parse_gateway dec_event empty_event (json_print ?j) = Inr ?g"
    by (simp add: parse_gateway_def empty_gateway_def fold_eq_def to_upper_def upper_char_def
        event_fields_def on_field_def empty_event_def dec_any_def del: json_print.simps)
  have f: "w_db_fault demo_gateway_world ''devices.find'' = None"
    by (simp add: demo_gateway_world_def empty_world_def)
  have n: "no_nil (child (idents demo_gateway_world)) (dev_id (demo_device\<lparr>dev_id := ''g1''\<rparr>)) ?g"
    by (simp add: no_nil_def)
  have t: "targets (child (idents demo_gateway_world)) (''g1'', ''t1'') ?g = [((''s1'', ''t1''), ?e)]"
    by (simp add: targets_def sub_targets_def child_def idents_def demo_gateway_world_def row_ident_def demo_device_def)
  have d: "dev_id (demo_device\<lparr>dev_id := ''g1''\<rparr>) = ''g1''"
      "dev_tenant_id (demo_device\<lparr>dev_id := ''g1''\<rparr>) = ''t1''"
      "w_storage demo_gateway_world = []" "w_now demo_gateway_world = 7"
    by (simp_all add: demo_device_def) (simp_all add: demo_gateway_world_def empty_world_def)
  from event_gateway_split [OF p f n, of "\<lparr>fe_vm = demo_vm, fe_heartbeat = False\<rparr>"] show ?thesis
    unfolding d t by (auto simp: event_target_message_def)
qed

end
