(* ===== verification/StatusFlow.thy ===== *)
theory StatusFlow
  imports FlowBase
begin

text \<open>
  \<open>internal/uplink/status.go\<close>: one status message from the bus, from a device or from the heartbeat
  monitor, to the device row, the expiring keys and the goroutines that tell the rest of the
  system. \<open>run_task\<close> gives the effect of every goroutine the uplink flows start.
\<close>

section \<open>The flow\<close>

definition parse_status :: "bytes \<Rightarrow> int res" where
  "parse_status s =
     (if s = ''0'' then Inr 0
      else if s = ''1'' then Inr 1
      else Inl (Errorf (''invalid status value: '' @ s @ '' (expected 0 or 1)'')))"

definition msg_source :: "json gmap \<Rightarrow> string" where
  "msg_source md = (case map_of md ''source'' of Some (JStr s) \<Rightarrow> s | _ \<Rightarrow> '''')"

text \<open>The goroutines of an accepted status, in the order of their \<open>go\<close> statements.\<close>

definition status_tasks :: "device \<Rightarrow> int \<Rightarrow> json gmap \<Rightarrow> task list" where
  "status_tasks d status md =
     [PublishToRedis d status md, NotifyClients d status, TriggerAutomation d status] @
     (if status = 1 then [SendExpectedData d] else [])"

definition spawn_all :: "task list \<Rightarrow> world \<Rightarrow> world" where
  "spawn_all ts w = w\<lparr>w_tasks := w_tasks w @ ts\<rparr>"

text \<open>Steps 4 to 9 of \<open>processMessage\<close>.\<close>

definition status_update :: "device \<Rightarrow> int \<Rightarrow> json gmap \<Rightarrow> world \<Rightarrow> world" where
  "status_update d status md w = (case update_device_status (dev_id d) status w of
      (Inl _, w1) \<Rightarrow> w1
    | (Inr status_changed, w1) \<Rightarrow>
        if \<not> status_changed then w1
        else spawn_all (status_tasks d status md) (snd (del_device_cache (dev_id d) w1)))"

definition status_process_message :: "device_message \<Rightarrow> world \<Rightarrow> world" where
  "status_process_message m w = (case parse_status (msg_payload m) of
      Inl _ \<Rightarrow> w
    | Inr status \<Rightarrow> (case get_device_cache_by_id (msg_device_id m) w of
        (Inl _, w1) \<Rightarrow> w1
      | (Inr d, w1) \<Rightarrow> (case get_config d w1 of
          (Inr (Some c), w2) \<Rightarrow>
            if 0 < hb_heartbeat c \<and> msg_source (msg_metadata m) \<noteq> ''heartbeat_expired'' then w2
            else status_update d status (msg_metadata m)
                   (if 0 < hb_online_timeout c \<and> status = 1
                    then snd (set_timeout (dev_id d) (hb_online_timeout c) w2) else w2)
        | (_, w2) \<Rightarrow> status_update d status (msg_metadata m) w2)))"

definition status_run :: "device_message list \<Rightarrow> world \<Rightarrow> world" where
  "status_run ms w = fold status_process_message ms w"

section \<open>The goroutines\<close>

definition notify_clients :: "device \<Rightarrow> int \<Rightarrow> world \<Rightarrow> world" where
  "notify_clients d status w =
     emit (SSEBroadcast (dev_tenant_id d) ''device_online'' (online_message d (status = 1))) w"

definition trigger_automation :: "device \<Rightarrow> int \<Rightarrow> world \<Rightarrow> world" where
  "trigger_automation d status w =
     emit (AutomationExecute d (status_ext (if status = 1 then ''ON-LINE'' else ''OFF-LINE''))) w"

definition send_expected_data :: "device \<Rightarrow> world \<Rightarrow> world" where
  "send_expected_data d w = emit (ExpectedDataSend (dev_id d)) (emit (Sleep 3000) w)"

definition publish_to_redis :: "device \<Rightarrow> int \<Rightarrow> json gmap \<Rightarrow> world \<Rightarrow> world" where
  "publish_to_redis d status md w =
     snd (redis_publish (''device:'' @ dev_id d @ '':status'')
            (json_print (JObj [(''is_online'', json_int status)])) w)"

fun run_task :: "task \<Rightarrow> world \<Rightarrow> world" where
  "run_task (SaveDeviceStatusHistory tenant i status) w = snd (save_device_status_history tenant i status w)"
| "run_task (CheckAndPublishToWS i tenant data) w = check_and_publish_to_ws i tenant data w"
| "run_task (ExecuteAutomation d ext) w = emit (AutomationExecute d ext) w"
| "run_task (NotifyDeviceOnline d) w = notify_device_online d w"
| "run_task (PublishToRedis d status md) w = publish_to_redis d status md w"
| "run_task (NotifyClients d status) w = notify_clients d status w"
| "run_task (TriggerAutomation d status) w = trigger_automation d status w"
| "run_task (SendExpectedData d) w = send_expected_data d w"

section \<open>Lemmas\<close>

text \<open>The heartbeat settings the rows give a device; a configuration that is absent or does not
  parse counts as none.\<close>

definition heartbeat_of :: "world \<Rightarrow> device \<Rightarrow> heartbeat_config option" where
  "heartbeat_of w d = (case Option.bind (dev_device_config_id d) (config_row w) of
      None \<Rightarrow> None
    | Some dc \<Rightarrow> (case dc_other_config dc of
        None \<Rightarrow> None
      | Some s \<Rightarrow> (case parse_heartbeat s of
          Inl _ \<Rightarrow> None
        | Inr c \<Rightarrow> if hb_heartbeat c = 0 \<and> hb_online_timeout c = 0 then None else Some c)))"

definition no_faults :: "world \<Rightarrow> bool" where
  "no_faults w \<longleftrightarrow> (\<forall>q. w_db_fault w q = None) \<and> (\<forall>c k. w_redis_fault w c k = None)"

definition caches_agree :: "world \<Rightarrow> bool" where
  "caches_agree w \<longleftrightarrow> device_cache.coherent w \<and> config_cache.coherent w"

text \<open>What reading a configuration leaves alone.\<close>

definition reads :: "world \<Rightarrow> world \<Rightarrow> bool" where
  "reads w w' \<longleftrightarrow> w_devices w' = w_devices w \<and> w_configs w' = w_configs w \<and> w_tasks w' = w_tasks w \<and>
     w_status_redis w' = w_status_redis w \<and> w_db_fault w' = w_db_fault w \<and>
     w_redis_fault w' = w_redis_fault w \<and> w_now w' = w_now w"

lemma reads_refl [simp]: "reads w w"
  by (simp add: reads_def)

lemma reads_trans [trans]: "reads w w' \<Longrightarrow> reads w' w'' \<Longrightarrow> reads w w''"
  by (simp add: reads_def)

lemma reads_device: "get_device_cache_by_id i w = (r, w') \<Longrightarrow> reads w w'"
  using get_device_cache_by_id_frame [of i w] by (simp add: reads_def)

lemma reads_device_config: "get_device_config_by_id i w = (r, w') \<Longrightarrow> reads w w'"
  by (auto simp: get_config_cases reads_def dest!: load_config_cases split: if_split_asm)

lemma reads_config: "get_config d w = (r, w') \<Longrightarrow> reads w w'"
  by (auto simp: get_config_def dest: reads_device_config
      split: option.split_asm prod.split_asm sum.split_asm)

lemma no_faults_reads: "reads w w' \<Longrightarrow> no_faults w \<Longrightarrow> no_faults w'"
  by (simp add: no_faults_def reads_def)

lemma rows_reads: "reads w w' \<Longrightarrow> device_row w' = device_row w" "reads w w' \<Longrightarrow> config_row w' = config_row w"
  by (simp_all add: reads_def device_row_def config_row_def fun_eq_iff)

lemma read_config_row:
  assumes "no_faults w" "config_cache.coherent w" "get_device_config_by_id i w = (r, w')"
  shows "case config_row w i of None \<Rightarrow> (\<exists>e. r = Inl e) | Some c \<Rightarrow> r = Inr c"
proof (cases "config_cached w i")
  case None
  then show ?thesis
    using assms by (auto simp: get_config_cases load_device_config_def no_faults_def config_row_def
        split: option.split_asm option.split)
next
  case (Some c)
  then have "config_row w i = Some c" using assms(2) by (simp add: config_cache.coherent_def)
  then show ?thesis using assms Some by (simp add: get_config_cases no_faults_def)
qed

lemma get_config_heartbeat:
  assumes "no_faults w" "config_cache.coherent w" "get_config d w = (r, w')"
  shows "heartbeat_of w d = (case r of Inl _ \<Rightarrow> None | Inr c \<Rightarrow> c)"
proof (cases "dev_device_config_id d")
  case None
  then show ?thesis using assms by (auto simp: get_config_def heartbeat_of_def)
next
  case (Some cid)
  obtain r1 w1 where g: "get_device_config_by_id cid w = (r1, w1)" by force
  note row = read_config_row [OF assms(1,2) g]
  show ?thesis
  proof (cases "config_row w cid")
    case None
    then show ?thesis using assms(3) row g Some by (auto simp: get_config_def heartbeat_of_def)
  next
    case (Some dc)
    then have "r1 = Inr dc" using row by simp
    with Some \<open>dev_device_config_id d = Some cid\<close> assms(3) g show ?thesis
      by (auto simp: get_config_def heartbeat_of_def split: option.split_asm sum.split_asm)
  qed
qed

text \<open>What the update does, seen through the rows.\<close>

lemma status_update_effect:
  assumes "no_faults w" "device_row w (dev_id d) = Some d'"
  shows "device_row (status_update d st md w) k =
      (if k = dev_id d then Some (set_online (w_now w) st d') else device_row w k)"
    and "w_tasks (status_update d st md w) = w_tasks w @
      SaveDeviceStatusHistory (dev_tenant_id d') (dev_id d) st # status_tasks d st md"
    and "w_status_redis (status_update d st md w) = w_status_redis w"
proof -
  let ?i = "dev_id d"
  let ?u = "update_devices ?i (set_online (w_now w) st) w"
  have "find (\<lambda>x. dev_id x = ?i) (w_devices w) = Some d'" using assms(2) by (simp add: device_row_def)
  then have ne: "filter (\<lambda>x. dev_id x = ?i) (w_devices w) \<noteq> []" by (auto simp: find_Some_iff filter_empty_conv)
  have "dal_get_device ?i w = Inr d'"
    using assms by (simp add: dal_get_device_def device_row_def no_faults_def)
  then have u: "update_device_status ?i st w =
      (Inr True, spawn (SaveDeviceStatusHistory (dev_tenant_id d') ?i st) (snd (del_device_cache ?i ?u)))"
    using assms(1) ne by (simp add: update_device_status_def no_faults_def Let_def)
  have dev: "w_devices (snd (del_device_cache i v)) = w_devices v" "w_tasks (snd (del_device_cache i v)) = w_tasks v"
      "w_status_redis (snd (del_device_cache i v)) = w_status_redis v" for i v
    by (simp_all add: del_device_cache_def split: option.split)
  have up: "w_tasks ?u = w_tasks w" "w_status_redis ?u = w_status_redis w"
    by (simp_all add: update_devices_def)
  have "w_devices (status_update d st md w) = w_devices ?u"
    by (simp add: status_update_def u spawn_def spawn_all_def dev)
  then have "device_row (status_update d st md w) = device_row ?u" by (rule device_row_cong)
  then show "device_row (status_update d st md w) k =
      (if k = ?i then Some (set_online (w_now w) st d') else device_row w k)"
    using assms(2) device_row_update [of ?i "w_now w" st w k] by (cases "device_row w k") auto
  show "w_tasks (status_update d st md w) = w_tasks w @
      SaveDeviceStatusHistory (dev_tenant_id d') ?i st # status_tasks d st md"
    by (simp add: status_update_def u spawn_def spawn_all_def dev up)
  show "w_status_redis (status_update d st md w) = w_status_redis w"
    by (simp add: status_update_def u spawn_def spawn_all_def dev up)
qed

lemma status_update_rows:
  assumes "no_faults u" "device_row u = R" "R (dev_id d) = Some d'"
  shows "device_row (status_update d st md u) = R(dev_id d \<mapsto> set_online (w_now u) st d')"
    and "w_tasks (status_update d st md u) = w_tasks u @
      SaveDeviceStatusHistory (dev_tenant_id d') (dev_id d) st # status_tasks d st md"
    and "w_status_redis (status_update d st md u) = w_status_redis u"
  using status_update_effect [of u d d' st md] assms by (simp_all add: fun_eq_iff)

lemma parse_status_cases: "parse_status s = Inr st \<longleftrightarrow> s = ''0'' \<and> st = 0 \<or> s = ''1'' \<and> st = 1"
  by (auto simp: parse_status_def)

lemma read_device_row:
  assumes "no_faults w" "device_cache.coherent w" "device_row w i = Some d"
  shows "\<exists>w'. get_device_cache_by_id i w = (Inr d, w') \<and> reads w w' \<and> w_config_cache w' = w_config_cache w"
proof -
  have "fst (get_device_cache_by_id i w) = Inr d"
  proof (cases "w_device_cache w i")
    case None
    then show ?thesis
      using assms by (simp add: get_device_cases load_device_def dal_get_device_def no_faults_def device_row_def)
  next
    case (Some x)
    then have "x = d" using assms(2,3) by (simp add: device_cache.coherent_def)
    with Some show ?thesis using assms(1) by (simp add: get_device_cases no_faults_def)
  qed
  then show ?thesis
    by (metis prod.collapse reads_device get_device_cache_by_id_frame(9))
qed

lemma status_read:
  assumes "no_faults w" "caches_agree w" "device_row w (msg_device_id m) = Some d"
    and "parse_status (msg_payload m) = Inr st"
  shows "\<exists>v. reads w v \<and> status_process_message m w =
    (case heartbeat_of w d of
       None \<Rightarrow> status_update d st (msg_metadata m) v
     | Some c \<Rightarrow>
         if 0 < hb_heartbeat c \<and> msg_source (msg_metadata m) \<noteq> ''heartbeat_expired'' then v
         else status_update d st (msg_metadata m)
                (if 0 < hb_online_timeout c \<and> st = 1
                 then snd (set_timeout (dev_id d) (hb_online_timeout c) v) else v))"
proof -
  obtain w1 where w1: "get_device_cache_by_id (msg_device_id m) w = (Inr d, w1)" "reads w w1"
      "w_config_cache w1 = w_config_cache w"
    using read_device_row assms caches_agree_def by metis
  obtain r v where v: "get_config d w1 = (r, v)" by force
  have "config_cache.coherent w1"
    using assms(2) w1(3) rows_reads(2) [OF w1(2)]
    by (simp add: caches_agree_def config_cache.coherent_def config_cached_def)
  then have hb: "heartbeat_of w1 d = (case r of Inl _ \<Rightarrow> None | Inr c \<Rightarrow> c)"
    using get_config_heartbeat no_faults_reads [OF w1(2) assms(1)] v by blast
  moreover have "heartbeat_of w1 d = heartbeat_of w d"
    using rows_reads(2) [OF w1(2)] by (simp add: heartbeat_of_def)
  ultimately have "heartbeat_of w d = (case r of Inl _ \<Rightarrow> None | Inr c \<Rightarrow> c)" by simp
  moreover have "reads w v" using w1(2) reads_config [OF v] by (rule reads_trans)
  ultimately show ?thesis
    using w1(1) v assms(4)
    by (intro exI [of _ v]) (simp add: status_process_message_def split: sum.split option.split)
qed

lemma status_effect:
  assumes "no_faults w" "caches_agree w" "device_row w (msg_device_id m) = Some d"
  defines "w' \<equiv> status_process_message m w"
  shows "case parse_status (msg_payload m) of
      Inl _ \<Rightarrow> w' = w
    | Inr st \<Rightarrow>
        if (\<exists>c. heartbeat_of w d = Some c \<and> 0 < hb_heartbeat c)
           \<and> msg_source (msg_metadata m) \<noteq> ''heartbeat_expired''
        then device_row w' = device_row w \<and> w_tasks w' = w_tasks w \<and> w_status_redis w' = w_status_redis w
        else device_row w' = (device_row w)(msg_device_id m \<mapsto> set_online (w_now w) st d) \<and>
          w_tasks w' = w_tasks w @ SaveDeviceStatusHistory (dev_tenant_id d) (dev_id d) st #
            status_tasks d st (msg_metadata m) \<and>
          w_status_redis w' = (case heartbeat_of w d of
              Some c \<Rightarrow> if 0 < hb_online_timeout c \<and> st = 1
                then (w_status_redis w)(device_key (dev_id d) ''timeout'' \<mapsto>
                       (''1'', w_now w + hb_online_timeout c * 1000))
                else w_status_redis w
            | None \<Rightarrow> w_status_redis w)"
proof (cases "parse_status (msg_payload m)")
  case (Inl e)
  then show ?thesis by (simp add: w'_def status_process_message_def)
next
  case (Inr st)
  obtain v where v: "reads w v" and w': "w' =
    (case heartbeat_of w d of
       None \<Rightarrow> status_update d st (msg_metadata m) v
     | Some c \<Rightarrow>
         if 0 < hb_heartbeat c \<and> msg_source (msg_metadata m) \<noteq> ''heartbeat_expired'' then v
         else status_update d st (msg_metadata m)
                (if 0 < hb_online_timeout c \<and> st = 1
                 then snd (set_timeout (dev_id d) (hb_online_timeout c) v) else v))"
    using status_read [OF assms(1-3) Inr] unfolding w'_def by blast
  have i: "dev_id d = msg_device_id m" using assms(3) by (rule device_row_id)
  have nf: "no_faults v" using v assms(1) by (rule no_faults_reads)
  have rows: "device_row v = device_row w" by (rule rows_reads(1) [OF v])
  let ?t = "\<lambda>n. v\<lparr>w_status_redis := (w_status_redis v)(device_key (dev_id d) ''timeout'' \<mapsto> (''1'', w_now v + n * 1000))\<rparr>"
  have t: "snd (set_timeout (dev_id d) n v) = ?t n" if "0 < n" for n
    using that nf by (simp add: set_timeout_def status_set_def no_faults_def)
  have nft: "no_faults (?t n)" "device_row (?t n) = device_row w" for n
    using nf rows by (simp_all add: no_faults_def device_row_def fun_eq_iff)
  have eqs: "w_now v = w_now w" "w_tasks v = w_tasks w" "w_status_redis v = w_status_redis w"
    using v by (simp_all add: reads_def)
  note plain = status_update_rows [OF nf rows, of d d st "msg_metadata m"]
  note timed = status_update_rows [OF nft, of d d st "msg_metadata m"]
  show ?thesis
  proof (cases "heartbeat_of w d")
    case None
    then show ?thesis using plain assms(3) i eqs unfolding Inr by (simp add: w')
  next
    case (Some c)
    show ?thesis
    proof (cases "0 < hb_heartbeat c \<and> msg_source (msg_metadata m) \<noteq> ''heartbeat_expired''")
      case True
      then show ?thesis using Some rows eqs unfolding Inr by (simp add: w')
    next
      case False
      then show ?thesis using Some plain timed assms(3) i eqs t unfolding Inr by (auto simp: w')
    qed
  qed
qed

section \<open>Properties\<close>


definition demo_config :: device_config where
  "demo_config = \<lparr>dc_id = ''c1'', dc_name = ''c'', dc_device_type = ''1'', dc_protocol_type = Some ''MQTT'', dc_voucher_type = None,
     dc_tenant_id = ''t1'', dc_other_config = Some (json_print (JObj [(''heartbeat'', JNum ''30'')])),
     dc_template_secret = None, dc_auto_register = 0\<rparr>"

definition demo_heartbeat_world :: world where
  "demo_heartbeat_world = demo_world\<lparr>w_configs := [demo_config]\<rparr>"

definition demo_status :: "string \<Rightarrow> string \<Rightarrow> device_message" where
  "demo_status payload source = \<lparr>msg_type = MessageTypeStatus, msg_device_id = ''d1'', msg_tenant_id = '''',
     msg_timestamp = 0, msg_payload = payload, msg_metadata = [(''source'', JStr source)]\<rparr>"

lemma demo_heartbeat_world_facts:
  "no_faults demo_heartbeat_world" "caches_agree demo_heartbeat_world"
  "device_row demo_heartbeat_world ''d1'' = Some demo_device"
  "heartbeat_of demo_heartbeat_world demo_device = Some \<lparr>hb_heartbeat = 30, hb_online_timeout = 0\<rparr>"
proof -
  have w: "wf_json (JObj [(''heartbeat'', JNum ''30'')])"
    by (simp add: valid_num_def num_char_def is_digit_def valid_frac_def)
  have a: "atoi ''30'' = Some 30"
    by (simp add: atoi_def digits_val_def digit_val_def is_digit_def)
  from unmarshal_print [OF w, of "dec_struct heartbeat_fields"]
  have "parse_heartbeat (json_print (JObj [(''heartbeat'', JNum ''30'')])) =
      Inr \<lparr>hb_heartbeat = 30, hb_online_timeout = 0\<rparr>"
    by (simp add: parse_heartbeat_def heartbeat_fields_def on_field_def fold_eq_def to_upper_def upper_char_def
        a del: json_print.simps)
  then show "heartbeat_of demo_heartbeat_world demo_device = Some \<lparr>hb_heartbeat = 30, hb_online_timeout = 0\<rparr>"
    by (simp add: heartbeat_of_def demo_heartbeat_world_def demo_device_def config_row_def demo_config_def
        del: json_print.simps)
qed (simp_all add: no_faults_def caches_agree_def device_cache.coherent_def config_cache.coherent_def
    config_cached_def device_row_def demo_heartbeat_world_def demo_world_def empty_world_def demo_device_def)


text \<open>A silent device goes offline. When one of the two expiring keys of a device disappears
  and the bus is open with room for a status message, the monitor puts exactly one message on the
  status channel, and the status flow, processing it, marks the device offline at that time,
  except that an expired timeout key of a device in heartbeat mode is ignored.\<close>
theorem expired_key_goes_offline:
  assumes "no_faults w" "caches_agree w" "device_row w i = Some d" "CHR '':'' \<notin> set i"
    and "ty = ''heartbeat'' \<or> ty = ''timeout''"
    and "\<not> closed b" "\<not> ch_closed (statusChan b)" "length (ch_buf (statusChan b)) < ch_cap (statusChan b)"
  shows "\<exists>m b'. handle_expired_key (device_key i ty) (Some b) = Returns None (Some b') \<and>
    ch_buf (statusChan b') = ch_buf (statusChan b) @ [m] \<and>
    device_row (status_process_message m w) =
      (if (\<exists>c. heartbeat_of w d = Some c \<and> 0 < hb_heartbeat c) \<and> ty = ''timeout'' then device_row w
       else (device_row w)(i \<mapsto> set_online (w_now w) 0 d))"
proof -
  define source where "source = (if ty = ''timeout'' then ''timeout_expired'' else ''heartbeat_expired'')"
  define m where "m = offline_message i source"
  let ?b = "b\<lparr>statusChan := statusChan b\<lparr>ch_buf := ch_buf (statusChan b) @ [m]\<rparr>\<rparr>"
  have key: "expired_offline (device_key i ty) = Some (i, source)"
    using assms(4,5) expired_offline_key by (auto simp: source_def)
  have "publish_status_offline b i source = Returns None ?b"
    using assms(6-8)
    by (simp add: publish_status_offline_def publish_def bus_dispatch_def m_def offline_message_def
        bus_route_def message_types send_blocking_def ch_send_def)
  then have h: "handle_expired_key (device_key i ty) (Some b) = Returns None (Some ?b)"
    using key by (simp add: handle_expired_key_def)
  have mi: "msg_device_id m = i" "parse_status (msg_payload m) = Inr 0" "msg_source (msg_metadata m) = source"
    by (simp_all add: m_def offline_message_def parse_status_def msg_source_def)
  have "device_row w (msg_device_id m) = Some d" using assms(3) mi(1) by simp
  from status_effect [OF assms(1,2) this]
  have "device_row (status_process_message m w) =
      (if (\<exists>c. heartbeat_of w d = Some c \<and> 0 < hb_heartbeat c) \<and> ty = ''timeout'' then device_row w
       else (device_row w)(i \<mapsto> set_online (w_now w) 0 d))"
    using assms(5) by (auto simp: mi source_def split: if_split_asm)
  with h show ?thesis by auto
qed

theorem expired_key_goes_offline_witness:
  "\<exists>m b'. handle_expired_key ''device:d1:heartbeat'' (Some (new_bus 1)) = Returns None (Some b') \<and>
     ch_buf (statusChan b') = [m] \<and>
     device_row (status_process_message m demo_heartbeat_world) ''d1'' = Some (set_online 1000 0 demo_device)"
proof -
  have n: "w_now demo_heartbeat_world = 1000" by (simp add: demo_heartbeat_world_def demo_world_def)
  have b: "\<not> closed (new_bus 1)" "\<not> ch_closed (statusChan (new_bus 1))"
      "length (ch_buf (statusChan (new_bus 1))) < ch_cap (statusChan (new_bus 1))"
      "ch_buf (statusChan (new_bus 1)) = []"
    by (simp_all add: new_bus_def make_chan_def)
  note e = expired_key_goes_offline [OF demo_heartbeat_world_facts(1,2,3) _ _ b(1-3), of "''heartbeat''"]
  show ?thesis using e by (auto simp: device_key_def n b(4))
qed

end
