(* ===== verification/ResponseFlow.thy ===== *)
theory ResponseFlow
  imports FlowBase
begin

text \<open>
  \<open>internal/uplink/response.go\<close>: the answer of a device to a command or to an attribute set, which
  settles the log row that carries its message id.
\<close>

section \<open>The flow\<close>

record response =
  rs_result :: int
  rs_message :: string
  rs_errcode :: string
  rs_ts :: int
  rs_method :: string

definition response_fields :: "response field_dec list" where
  "response_fields =
     [(''result'', on_field dec_int rs_result (\<lambda>v r. r\<lparr>rs_result := v\<rparr>)),
      (''message'', on_field dec_string rs_message (\<lambda>v r. r\<lparr>rs_message := v\<rparr>)),
      (''errcode'', on_field dec_string rs_errcode (\<lambda>v r. r\<lparr>rs_errcode := v\<rparr>)),
      (''ts'', on_field dec_int rs_ts (\<lambda>v r. r\<lparr>rs_ts := v\<rparr>)),
      (''method'', on_field dec_string rs_method (\<lambda>v r. r\<lparr>rs_method := v\<rparr>))]"

definition empty_response :: response where
  "empty_response = \<lparr>rs_result = 0, rs_message = '''', rs_errcode = '''', rs_ts = 0, rs_method = ''''\<rparr>"

definition parse_response :: "bytes \<Rightarrow> string \<times> bool" where
  "parse_response payload = (case unmarshal (dec_struct response_fields) payload empty_response of
      Inl _ \<Rightarrow> (payload, False)
    | Inr r \<Rightarrow>
        let success = (rs_result r = 0)
        in (if success then ''''
            else if rs_errcode r \<noteq> '''' then rs_errcode r
            else if rs_message r \<noteq> '''' then rs_message r
            else payload, success))"

text \<open>\<open>Updates\<close> on the rows of a log table with that message id.\<close>

definition settle_log :: "string \<Rightarrow> bool \<Rightarrow> string \<Rightarrow> set_log list \<Rightarrow> set_log list" where
  "settle_log message_id success err rows =
     map (\<lambda>l. if sl_message_id l = Some message_id
              then l\<lparr>sl_status := Some (if success then ''3'' else ''4''),
                     sl_error_message := (if success then None else Some err)\<rparr>
              else l) rows"

definition update_command_log :: "string \<Rightarrow> bool \<Rightarrow> string \<Rightarrow> world \<Rightarrow> world" where
  "update_command_log message_id success err w = (case w_db_fault w ''command_set_logs.update'' of
      Some _ \<Rightarrow> w
    | None \<Rightarrow> w\<lparr>w_command_logs := settle_log message_id success err (w_command_logs w)\<rparr>)"

definition update_attribute_log :: "string \<Rightarrow> bool \<Rightarrow> string \<Rightarrow> world \<Rightarrow> world" where
  "update_attribute_log message_id success err w = (case w_db_fault w ''attribute_set_logs.update'' of
      Some _ \<Rightarrow> w
    | None \<Rightarrow> w\<lparr>w_attribute_logs := settle_log message_id success err (w_attribute_logs w)\<rparr>)"

definition response_process_message :: "device_message \<Rightarrow> world \<Rightarrow> world" where
  "response_process_message m w = (case map_of (msg_metadata m) ''message_id'' of
      Some (JStr message_id) \<Rightarrow>
        if message_id = '''' then w
        else let (response_data, success) = parse_response (msg_payload m)
             in if msg_type m = MessageTypeCommandResponse \<or> msg_type m = MessageTypeGatewayCommandResponse
                then update_command_log message_id success response_data w
                else if msg_type m = MessageTypeAttributeSetResponse \<or> msg_type m = MessageTypeGatewayAttributeSetResponse
                then update_attribute_log message_id success response_data w
                else w
    | _ \<Rightarrow> w)"

section \<open>Lemmas\<close>

lemma settle_log_row:
  assumes "l \<in> set rows"
  shows "sl_message_id l \<noteq> Some i \<Longrightarrow> l \<in> set (settle_log i s e rows)"
    and "sl_message_id l = Some i \<Longrightarrow>
      l\<lparr>sl_status := Some (if s then ''3'' else ''4''), sl_error_message := (if s then None else Some e)\<rparr>
        \<in> set (settle_log i s e rows)"
  using assms by (force simp: settle_log_def)+

lemma length_settle_log [simp]: "length (settle_log i s e rows) = length rows"
  by (simp add: settle_log_def)

lemma settle_log_nth: "k < length rows \<Longrightarrow> settle_log i s e rows ! k =
    (if sl_message_id (rows ! k) = Some i
     then (rows ! k)\<lparr>sl_status := Some (if s then ''3'' else ''4''),
                    sl_error_message := (if s then None else Some e)\<rparr>
     else rows ! k)"
  by (simp add: settle_log_def)

text \<open>A success carries no text; a failure always carries one, unless the payload itself is empty.\<close>

lemma parse_response_text:
  "snd (parse_response p) \<Longrightarrow> fst (parse_response p) = ''''"
  "\<not> snd (parse_response p) \<Longrightarrow> p \<noteq> '''' \<Longrightarrow> fst (parse_response p) \<noteq> ''''"
  by (auto simp: parse_response_def Let_def split: sum.split_asm if_split_asm)

lemma parse_response_success:
  "snd (parse_response p) \<longleftrightarrow>
     (\<exists>r. unmarshal (dec_struct response_fields) p empty_response = Inr r \<and> rs_result r = 0)"
  by (auto simp: parse_response_def Let_def split: sum.split)

lemma response_settles:
  assumes "map_of (msg_metadata m) ''message_id'' = Some (JStr i)" "i \<noteq> ''''"
    and "w_db_fault w ''command_set_logs.update'' = None" "w_db_fault w ''attribute_set_logs.update'' = None"
    and "bus_route (msg_type m) = Some KResponse"
  defines "command \<equiv> msg_type m \<in> {MessageTypeCommandResponse, MessageTypeGatewayCommandResponse}"
    and "ok \<equiv> \<exists>r. unmarshal (dec_struct response_fields) (msg_payload m) empty_response = Inr r \<and> rs_result r = 0"
    and "w' \<equiv> response_process_message m w"
  shows "\<exists>err. (ok \<or> err \<noteq> '''' \<or> msg_payload m = '''') \<and>
    (let settled = \<lambda>l. if sl_message_id l = Some i
                        then l\<lparr>sl_status := Some (if ok then ''3'' else ''4''),
                               sl_error_message := (if ok then None else Some err)\<rparr> else l
     in w_command_logs w' = (if command then map settled (w_command_logs w) else w_command_logs w) \<and>
        w_attribute_logs w' = (if command then w_attribute_logs w else map settled (w_attribute_logs w)))"
proof -
  let ?r = "parse_response (msg_payload m)"
  have ok_eq: "snd ?r = ok" by (simp add: parse_response_success ok_def)
  have txt_eq: "ok \<or> fst ?r \<noteq> '''' \<or> msg_payload m = ''''"
    using parse_response_text(2) [of "msg_payload m"] ok_eq by blast
  have ty: "command \<or> msg_type m = MessageTypeAttributeSetResponse \<or> msg_type m = MessageTypeGatewayAttributeSetResponse"
    using assms(5) by (auto simp: bus_route_def command_def split: if_split_asm)
  have w': "w' = (if command then update_command_log i ok (fst ?r) w else update_attribute_log i ok (fst ?r) w)"
    using assms(1,2) ty
    by (auto simp: w'_def response_process_message_def split_beta Let_def command_def ok_eq message_types)
  show ?thesis
    using txt_eq assms(3,4)
    by (intro exI [of _ "fst ?r"]) (simp add: w' update_command_log_def update_attribute_log_def settle_log_def)
qed

section \<open>Properties\<close>

text \<open>A device's answer settles exactly the rows that wait for it. Processing a response whose
  metadata carries a message id touches one of the two log tables, the one its type names (device
  and gateway types alike); every row there with that id gets status 3 and no error when the
  payload is an object whose result is 0, and otherwise status 4 with a text that is empty only for
  an empty payload; every other row, and the other table, stay as they were.\<close>
theorem response_settles_log:
  assumes "map_of (msg_metadata m) ''message_id'' = Some (JStr i)" "i \<noteq> ''''"
    and "w_db_fault w ''command_set_logs.update'' = None" "w_db_fault w ''attribute_set_logs.update'' = None"
    and "bus_route (msg_type m) = Some KResponse"
  defines "command \<equiv> msg_type m \<in> {MessageTypeCommandResponse, MessageTypeGatewayCommandResponse}"
    and "ok \<equiv> \<exists>r. unmarshal (dec_struct response_fields) (msg_payload m) empty_response = Inr r \<and> rs_result r = 0"
    and "w' \<equiv> response_process_message m w"
  shows "\<exists>err. (ok \<or> err \<noteq> '''' \<or> msg_payload m = '''') \<and>
    (let settled = \<lambda>l. if sl_message_id l = Some i
                        then l\<lparr>sl_status := Some (if ok then ''3'' else ''4''),
                               sl_error_message := (if ok then None else Some err)\<rparr> else l
     in w_command_logs w' = (if command then map settled (w_command_logs w) else w_command_logs w) \<and>
        w_attribute_logs w' = (if command then w_attribute_logs w else map settled (w_attribute_logs w)))"
  unfolding command_def ok_def w'_def by (rule response_settles [OF assms(1-5)])

definition demo_log :: "string \<Rightarrow> set_log" where
  "demo_log i = \<lparr>sl_id = i, sl_device_id = ''d1'', sl_message_id = Some i, sl_status = Some ''1'',
     sl_error_message = None\<rparr>"

definition demo_response :: "string \<Rightarrow> device_message" where
  "demo_response payload = \<lparr>msg_type = MessageTypeCommandResponse, msg_device_id = ''d1'', msg_tenant_id = ''t1'',
     msg_timestamp = 0, msg_payload = payload, msg_metadata = [(''message_id'', JStr ''m1'')]\<rparr>"

definition demo_log_world :: world where
  "demo_log_world = demo_world\<lparr>w_command_logs := [demo_log ''m1'', demo_log ''m2'']\<rparr>"

theorem response_settles_log_witness:
  "\<exists>err. w_command_logs (response_process_message (demo_response ''x'') demo_log_world) =
     [(demo_log ''m1'')\<lparr>sl_status := Some ''4'', sl_error_message := Some err\<rparr>, demo_log ''m2'']"
proof -
  have "json_parse ''x'' = None" by code_simp
  then have bad: "\<not> (\<exists>r. unmarshal (dec_struct response_fields) ''x'' empty_response = Inr r \<and> rs_result r = 0)"
    by (simp add: unmarshal_def)
  show ?thesis
    using response_settles_log [of "demo_response ''x''" "''m1''" demo_log_world] bad
    by (auto simp: demo_response_def demo_log_world_def demo_world_def empty_world_def bus_route_def
        message_types demo_log_def Let_def)
qed

end
