(* ===== verification/UplinkManager.thy ===== *)
theory UplinkManager
  imports UplinkBus
begin

text \<open>
  \<open>internal/uplink/uplink_manager.go\<close> and the receive loops of the five flows
  (\<open>telemetry.go\<close>, \<open>attribute.go\<close>, \<open>event.go\<close>, \<open>status.go\<close>, \<open>response.go\<close>: \<open>Start\<close> and \<open>Stop\<close>). A flow is
  named by the kind of its channel; what it does with a message is the theory of that flow, here it
  is recorded as handled.
\<close>

section \<open>The manager\<close>

record flow_state =
  fs_present :: bool
  fs_started :: bool
  fs_cancelled :: bool
  fs_returned :: bool
  fs_handled :: "device_message list"
  fs_nils :: nat

record manager =
  mg_bus :: bus
  mg_flow :: "bus_kind \<Rightarrow> flow_state"

definition new_flow :: "bool \<Rightarrow> flow_state" where
  "new_flow present = \<lparr>fs_present = present, fs_started = False, fs_cancelled = False,
     fs_returned = False, fs_handled = [], fs_nils = 0\<rparr>"

definition new_manager :: "bus \<Rightarrow> (bus_kind \<Rightarrow> bool) \<Rightarrow> manager" where
  "new_manager b present = \<lparr>mg_bus = b, mg_flow = (\<lambda>k. new_flow (present k))\<rparr>"

definition set_flow :: "bus_kind \<Rightarrow> (flow_state \<Rightarrow> flow_state) \<Rightarrow> manager \<Rightarrow> manager" where
  "set_flow k f m = m\<lparr>mg_flow := (mg_flow m)(k := f (mg_flow m k))\<rparr>"

definition start_flow :: "bus_kind \<Rightarrow> manager \<Rightarrow> manager" where
  "start_flow k m = (if fs_present (mg_flow m k) then set_flow k (\<lambda>f. f\<lparr>fs_started := True\<rparr>) m else m)"

definition manager_start :: "manager \<Rightarrow> manager" where
  "manager_start m = start_flow KResponse (start_flow KStatus (start_flow KEvent
     (start_flow KAttribute (start_flow KTelemetry m))))"

definition stop_flow :: "bus_kind \<Rightarrow> manager \<Rightarrow> manager" where
  "stop_flow k m = (if fs_present (mg_flow m k) then set_flow k (\<lambda>f. f\<lparr>fs_cancelled := True\<rparr>) m else m)"

text \<open>\<open>Stop\<close> cancels four of the five flows and closes the bus; then it waits at most 100 ms.\<close>

definition manager_stop :: "manager \<Rightarrow> manager" where
  "manager_stop m =
     (let m' = stop_flow KResponse (stop_flow KEvent (stop_flow KAttribute (stop_flow KTelemetry m)))
      in m'\<lparr>mg_bus := bus_close (mg_bus m')\<rparr>)"

text \<open>The loops of the status and the response flow do not ask whether the channel is closed: they
  see a nil message and continue.\<close>

definition skips_nil :: "bus_kind \<Rightarrow> bool" where
  "skips_nil k \<longleftrightarrow> k = KStatus \<or> k = KResponse"

inductive loop_step :: "bus_kind \<Rightarrow> manager \<Rightarrow> manager \<Rightarrow> bool" for k where
  loop_done: "fs_started (mg_flow m k) \<Longrightarrow> \<not> fs_returned (mg_flow m k) \<Longrightarrow> fs_cancelled (mg_flow m k) \<Longrightarrow>
    loop_step k m (set_flow k (\<lambda>f. f\<lparr>fs_returned := True\<rparr>) m)"
| loop_message: "fs_started (mg_flow m k) \<Longrightarrow> \<not> fs_returned (mg_flow m k) \<Longrightarrow>
    ch_recv (bus_chan k (mg_bus m)) = Received x c \<Longrightarrow>
    loop_step k m (set_flow k (\<lambda>f. f\<lparr>fs_handled := fs_handled f @ [x]\<rparr>)
      (m\<lparr>mg_bus := set_bus_chan k c (mg_bus m)\<rparr>))"
| loop_closed: "fs_started (mg_flow m k) \<Longrightarrow> \<not> fs_returned (mg_flow m k) \<Longrightarrow>
    ch_recv (bus_chan k (mg_bus m)) = RecvClosed \<Longrightarrow> \<not> skips_nil k \<Longrightarrow>
    loop_step k m (set_flow k (\<lambda>f. f\<lparr>fs_returned := True\<rparr>) m)"
| loop_nil: "fs_started (mg_flow m k) \<Longrightarrow> \<not> fs_returned (mg_flow m k) \<Longrightarrow>
    ch_recv (bus_chan k (mg_bus m)) = RecvClosed \<Longrightarrow> skips_nil k \<Longrightarrow>
    loop_step k m (set_flow k (\<lambda>f. f\<lparr>fs_nils := fs_nils f + 1\<rparr>) m)"

inductive loops_run :: "manager \<Rightarrow> manager \<Rightarrow> bool" for m where
  loops_refl: "loops_run m m"
| loops_step: "loops_run m s \<Longrightarrow> loop_step k s s' \<Longrightarrow> loops_run m s'"

inductive_cases loop_stepE: "loop_step k m m'"

section \<open>Lemmas\<close>

lemma set_flow_simps [simp]:
  "mg_flow (set_flow k f m) j = (if j = k then f (mg_flow m k) else mg_flow m j)"
  "mg_bus (set_flow k f m) = mg_bus m"
  by (simp_all add: set_flow_def)

lemma manager_start_flow:
  "mg_flow (manager_start m) k = (let f = mg_flow m k in if fs_present f then f\<lparr>fs_started := True\<rparr> else f)"
  by (cases k) (simp_all add: manager_start_def start_flow_def)

lemma manager_stop_flow:
  "mg_flow (manager_stop m) k =
     (let f = mg_flow m k in if fs_present f \<and> k \<noteq> KStatus then f\<lparr>fs_cancelled := True\<rparr> else f)"
  by (cases k) (simp_all add: manager_stop_def stop_flow_def Let_def)

lemma manager_start_bus [simp]: "mg_bus (manager_start m) = mg_bus m"
  by (simp add: manager_start_def start_flow_def)

lemma new_manager_simps [simp]:
  "mg_bus (new_manager b present) = b" "mg_flow (new_manager b present) k = new_flow (present k)"
  by (simp_all add: new_manager_def)

lemma manager_stop_bus: "mg_bus (manager_stop m) = bus_close (mg_bus m)"
  by (simp add: manager_stop_def stop_flow_def Let_def)

text \<open>The invariant after \<open>Stop\<close>: present flows are started, all but status cancelled, every channel
  closed; what a loop handled followed by what its channel still holds never changes.\<close>

definition stopped_inv :: "(bus_kind \<Rightarrow> bool) \<Rightarrow> manager \<Rightarrow> bool" where
  "stopped_inv present s \<longleftrightarrow> (\<forall>k. ch_closed (bus_chan k (mg_bus s)) \<and>
     (present k \<longrightarrow> fs_started (mg_flow s k) \<and> (k \<noteq> KStatus \<longrightarrow> fs_cancelled (mg_flow s k)))) \<and>
     \<not> fs_cancelled (mg_flow s KStatus) \<and> \<not> fs_returned (mg_flow s KStatus)"

lemma stopped_inv_step: "stopped_inv present s \<Longrightarrow> loop_step k s s' \<Longrightarrow> stopped_inv present s'"
  by (erule loop_stepE) (auto simp: stopped_inv_def skips_nil_def ch_recv_Received)

lemma stopped_inv_run: "loops_run m s \<Longrightarrow> stopped_inv present m \<Longrightarrow> stopped_inv present s"
  by (induction rule: loops_run.induct) (auto intro: stopped_inv_step)

definition flow_pending :: "bus_kind \<Rightarrow> manager \<Rightarrow> device_message list" where
  "flow_pending k s = fs_handled (mg_flow s k) @ ch_buf (bus_chan k (mg_bus s))"

lemma flow_pending_step: "loop_step k s s' \<Longrightarrow> flow_pending j s' = flow_pending j s"
  by (erule loop_stepE) (auto simp: flow_pending_def ch_recv_Received)

lemma flow_pending_run: "loops_run m s \<Longrightarrow> flow_pending j s = flow_pending j m"
  by (induction rule: loops_run.induct) (auto simp: flow_pending_step)

lemma recv_closed: "ch_closed c \<Longrightarrow> ch_recv c \<noteq> RecvBlocked"
  by (auto simp: ch_recv_def split: list.split)

section \<open>Properties\<close>

text \<open>Stop does not stop the status flow. After Start and Stop of a manager that has one, in
  every state the loops can reach, the status loop has not returned and can still take a step (with
  its channel drained, the step that receives nil and continues: it spins), while every other flow
  has returned or can return at once; no loop ever handles a message twice or out of order.\<close>
theorem manager_stop_misses_status:
  assumes "present KStatus" "\<not> closed b"
    and "loops_run (manager_stop (manager_start (new_manager b present))) s"
  shows "\<not> fs_returned (mg_flow s KStatus) \<and> (\<exists>s'. loop_step KStatus s s') \<and>
    (ch_buf (statusChan (mg_bus s)) = [] \<longrightarrow>
       loop_step KStatus s (set_flow KStatus (\<lambda>f. f\<lparr>fs_nils := fs_nils f + 1\<rparr>) s)) \<and>
    (\<forall>k. present k \<and> k \<noteq> KStatus \<longrightarrow>
       fs_returned (mg_flow s k) \<or> (\<exists>s'. loop_step k s s' \<and> fs_returned (mg_flow s' k))) \<and>
    (\<forall>k. fs_handled (mg_flow s k) @ ch_buf (bus_chan k (mg_bus s)) = ch_buf (bus_chan k b))"
proof -
  let ?m = "manager_stop (manager_start (new_manager b present))"
  have inv0: "stopped_inv present ?m"
    using assms(2) by (simp add: stopped_inv_def manager_stop_flow manager_start_flow manager_stop_bus Let_def
        new_flow_def ch_close_def)
  have inv: "stopped_inv present s" using stopped_inv_run [OF assms(3) inv0] .
  have pend: "flow_pending k s = ch_buf (bus_chan k b)" for k
    using assms(2) by (simp add: flow_pending_run [OF assms(3)])
      (simp add: flow_pending_def manager_stop_flow manager_start_flow manager_stop_bus Let_def
        new_flow_def ch_close_def)
  have st: "fs_started (mg_flow s KStatus)" "\<not> fs_returned (mg_flow s KStatus)" "ch_closed (statusChan (mg_bus s))"
    using inv assms(1) by (auto simp: stopped_inv_def dest: spec [of _ KStatus])
  have spin: "loop_step KStatus s (set_flow KStatus (\<lambda>f. f\<lparr>fs_nils := fs_nils f + 1\<rparr>) s)"
    if "ch_buf (statusChan (mg_bus s)) = []"
    using that st by (intro loop_nil) (simp_all add: ch_recv_def skips_nil_def)
  have run: "\<exists>s'. loop_step KStatus s s'"
  proof (cases "ch_buf (statusChan (mg_bus s))")
    case Nil
    then show ?thesis using spin by blast
  next
    case (Cons x xs)
    then have "ch_recv (bus_chan KStatus (mg_bus s)) = Received x ((statusChan (mg_bus s))\<lparr>ch_buf := xs\<rparr>)"
      by (simp add: ch_recv_def)
    then show ?thesis using st loop_message by blast
  qed
  have done_step: "fs_returned (mg_flow s k) \<or> (\<exists>s'. loop_step k s s' \<and> fs_returned (mg_flow s' k))"
    if "present k" "k \<noteq> KStatus" for k
  proof (cases "fs_returned (mg_flow s k)")
    case False
    have "loop_step k s (set_flow k (\<lambda>f. f\<lparr>fs_returned := True\<rparr>) s)"
      using that inv False by (intro loop_done) (auto simp: stopped_inv_def)
    then show ?thesis by (intro disjI2) (rule exI, auto)
  qed simp
  show ?thesis using st(2) run spin done_step pend by (auto simp: flow_pending_def)
qed

theorem manager_stop_misses_status_witness:
  "let m = manager_stop (manager_start (new_manager (new_bus 1) (\<lambda>_. True)))
   in loop_step KStatus m (set_flow KStatus (\<lambda>f. f\<lparr>fs_nils := fs_nils f + 1\<rparr>) m)"
  using manager_stop_misses_status [of "\<lambda>_. True" "new_bus 1", OF _ _ loops_refl]
  by (simp add: Let_def manager_stop_bus manager_start_def start_flow_def new_manager_def bus_close_def
      new_bus_def make_chan_def ch_close_def)

end
