(* ===== verification/StorageDb.thy ===== *)
theory StorageDb
  imports StorageTypes Diagnostics
begin

text \<open>
  \<open>internal/storage/config.go\<close>, \<open>metrics.go\<close>, \<open>direct_writer.go\<close> and the database the storage service
  writes. The database is PostgreSQL behind GORM: the tables are lists of rows, \<open>sd_fault n\<close> is the
  error its n-th statement (a commit counts as one) fails with, and a transaction whose statement
  fails leaves the tables as they were. Fresh UUIDs come from the supply \<open>sd_uuid\<close>.
\<close>

section \<open>Configuration\<close>

record sconfig =
  sc_channel_buffer_size :: int
  sc_telemetry_batch_size :: int
  sc_telemetry_flush_interval :: int
  sc_enable_metrics :: bool

definition storage_default_config :: sconfig where
  "storage_default_config = \<lparr>sc_channel_buffer_size = 10000, sc_telemetry_batch_size = 500,
     sc_telemetry_flush_interval = 1000, sc_enable_metrics = True\<rparr>"

text \<open>A duration in milliseconds; 0 turns the timer off.\<close>

definition get_flush_duration :: "sconfig \<Rightarrow> int" where
  "get_flush_duration c = (if sc_telemetry_flush_interval c \<le> 0 then 0 else sc_telemetry_flush_interval c)"

section \<open>Metrics\<close>

record metrics =
  mx_received :: int
  mx_written :: int
  mx_failed :: int
  mx_duplicates :: int
  mx_batch_count :: int
  mx_total_batch_size :: int
  mx_last_flush :: int
  mx_attribute_written :: int
  mx_attribute_failed :: int
  mx_event_written :: int
  mx_event_failed :: int

definition new_metrics :: metrics where
  "new_metrics = \<lparr>mx_received = 0, mx_written = 0, mx_failed = 0, mx_duplicates = 0, mx_batch_count = 0,
     mx_total_batch_size = 0, mx_last_flush = 0, mx_attribute_written = 0, mx_attribute_failed = 0,
     mx_event_written = 0, mx_event_failed = 0\<rparr>"

definition inc_telemetry_received :: "metrics \<Rightarrow> metrics" where
  "inc_telemetry_received m = m\<lparr>mx_received := mx_received m + 1\<rparr>"

definition add_telemetry_written :: "int \<Rightarrow> metrics \<Rightarrow> metrics" where
  "add_telemetry_written n m = m\<lparr>mx_written := mx_written m + n\<rparr>"

definition add_telemetry_failed :: "int \<Rightarrow> metrics \<Rightarrow> metrics" where
  "add_telemetry_failed n m = m\<lparr>mx_failed := mx_failed m + n\<rparr>"

definition add_telemetry_duplicates :: "int \<Rightarrow> metrics \<Rightarrow> metrics" where
  "add_telemetry_duplicates n m = m\<lparr>mx_duplicates := mx_duplicates m + n\<rparr>"

definition record_telemetry_batch :: "int \<Rightarrow> int \<Rightarrow> metrics \<Rightarrow> metrics" where
  "record_telemetry_batch now n m =
     m\<lparr>mx_batch_count := mx_batch_count m + 1, mx_total_batch_size := mx_total_batch_size m + n,
       mx_last_flush := now\<rparr>"

definition inc_attribute_written :: "metrics \<Rightarrow> metrics" where
  "inc_attribute_written m = m\<lparr>mx_attribute_written := mx_attribute_written m + 1\<rparr>"

definition inc_attribute_failed :: "metrics \<Rightarrow> metrics" where
  "inc_attribute_failed m = m\<lparr>mx_attribute_failed := mx_attribute_failed m + 1\<rparr>"

definition inc_event_written :: "metrics \<Rightarrow> metrics" where
  "inc_event_written m = m\<lparr>mx_event_written := mx_event_written m + 1\<rparr>"

definition inc_event_failed :: "metrics \<Rightarrow> metrics" where
  "inc_event_failed m = m\<lparr>mx_event_failed := mx_event_failed m + 1\<rparr>"

lemmas metrics_defs = inc_telemetry_received_def add_telemetry_written_def add_telemetry_failed_def
  add_telemetry_duplicates_def record_telemetry_batch_def inc_attribute_written_def
  inc_attribute_failed_def inc_event_written_def inc_event_failed_def

text \<open>The snapshot: the counters, the average batch as an exact quotient (Go rounds it to a float64)
  and the last flush, none before the first.\<close>

definition get_metrics :: "metrics \<Rightarrow> metrics \<times> rat \<times> int option" where
  "get_metrics m = (m,
     if 0 < mx_batch_count m then of_int (mx_total_batch_size m) / of_int (mx_batch_count m) else 0,
     if 0 < mx_last_flush m then Some (mx_last_flush m) else None)"

section \<open>The database\<close>

record sdb =
  sd_telemetry :: "telemetry_row list"
  sd_current :: "telemetry_row list"
  sd_attributes :: "attribute_row list"
  sd_events :: "event_row list"
  sd_fault :: "nat \<Rightarrow> gerror option"
  sd_ops :: nat
  sd_uuid :: "nat \<Rightarrow> string"
  sd_uuids :: nat

definition next_op :: "sdb \<Rightarrow> gerror option \<times> sdb" where
  "next_op db = (sd_fault db (sd_ops db), db\<lparr>sd_ops := sd_ops db + 1\<rparr>)"

definition new_uuid :: "sdb \<Rightarrow> string \<times> sdb" where
  "new_uuid db = (sd_uuid db (sd_uuids db), db\<lparr>sd_uuids := sd_uuids db + 1\<rparr>)"

definition create :: "(sdb \<Rightarrow> sdb) \<Rightarrow> sdb \<Rightarrow> gerror option \<times> sdb" where
  "create f db = (case next_op db of (Some e, db') \<Rightarrow> (Some e, db') | (None, db') \<Rightarrow> (None, f db'))"

text \<open>\<open>db.Transaction\<close> over a list of statements, then the commit.\<close>

fun run_statements :: "(sdb \<Rightarrow> sdb) list \<Rightarrow> sdb \<Rightarrow> gerror option \<times> sdb" where
  "run_statements [] db = next_op db"
| "run_statements (f # fs) db =
     (case next_op db of (Some e, db') \<Rightarrow> (Some e, db') | (None, db') \<Rightarrow> run_statements fs (f db'))"

definition transaction :: "(sdb \<Rightarrow> sdb) list \<Rightarrow> sdb \<Rightarrow> gerror option \<times> sdb" where
  "transaction fs db = (case run_statements fs db of
      (None, db') \<Rightarrow> (None, db')
    | (Some e, db') \<Rightarrow> (Some e, db\<lparr>sd_ops := sd_ops db'\<rparr>))"

text \<open>Keys of the two telemetry tables; \<open>ON CONFLICT DO NOTHING\<close> and \<open>DO UPDATE\<close>. No statement here
  names a key twice (\<open>deduplicated_current\<close> below), which PostgreSQL would refuse.\<close>

definition point_key :: "telemetry_row \<Rightarrow> string \<times> string \<times> int" where
  "point_key r = (td_device_id r, td_key r, td_ts r)"

definition series_key :: "telemetry_row \<Rightarrow> string \<times> string" where
  "series_key r = (td_device_id r, td_key r)"

definition insert_new :: "telemetry_row list \<Rightarrow> telemetry_row \<Rightarrow> telemetry_row list" where
  "insert_new rows r = (if point_key r \<in> point_key ` set rows then rows else rows @ [r])"

definition upsert :: "telemetry_row list \<Rightarrow> telemetry_row \<Rightarrow> telemetry_row list" where
  "upsert rows r = (if series_key r \<in> series_key ` set rows
     then map (\<lambda>x. if series_key x = series_key r then r else x) rows else rows @ [r])"

definition insert_history :: "telemetry_row list \<Rightarrow> sdb \<Rightarrow> sdb" where
  "insert_history rs db = db\<lparr>sd_telemetry := foldl insert_new (sd_telemetry db) rs\<rparr>"

definition upsert_current :: "telemetry_row list \<Rightarrow> sdb \<Rightarrow> sdb" where
  "upsert_current rs db = db\<lparr>sd_current := foldl upsert (sd_current db) rs\<rparr>"

definition attribute_key :: "attribute_row \<Rightarrow> string \<times> string" where
  "attribute_key r = (ad_device_id r, ad_key r)"

definition upsert_attribute :: "attribute_row \<Rightarrow> sdb \<Rightarrow> sdb" where
  "upsert_attribute r db = db\<lparr>sd_attributes :=
     (if attribute_key r \<in> attribute_key ` set (sd_attributes db)
      then map (\<lambda>x. if attribute_key x = attribute_key r
            then x\<lparr>ad_ts := ad_ts r, ad_bool_v := ad_bool_v r, ad_number_v := ad_number_v r,
                   ad_string_v := ad_string_v r, ad_tenant_id := ad_tenant_id r\<rparr> else x) (sd_attributes db)
      else sd_attributes db @ [r])\<rparr>"

definition insert_event :: "event_row \<Rightarrow> sdb \<Rightarrow> sdb" where
  "insert_event r db = db\<lparr>sd_events := sd_events db @ [r]\<rparr>"

section \<open>Values\<close>

text \<open>\<open>convertValue\<close> on the values JSON decoding can give; a number keeps its literal, everything that
  is not a boolean, a number or a string (null included) is stored as its JSON text.\<close>

fun convert_value :: "json \<Rightarrow> bool option \<times> string option \<times> string option" where
  "convert_value (JBool b) = (Some b, None, None)"
| "convert_value (JNum n) = (None, Some n, None)"
| "convert_value (JStr s) = (None, None, Some s)"
| "convert_value j = (None, None, Some (json_print j))"

lemma convert_value_one_column:
  "case convert_value j of (b, n, s) \<Rightarrow>
     (b \<noteq> None \<and> n = None \<and> s = None) \<or> (b = None \<and> n \<noteq> None \<and> s = None) \<or> (b = None \<and> n = None \<and> s \<noteq> None)"
  by (cases j) (simp_all del: json_print.simps)

section \<open>Writing attributes and events\<close>

record store =
  st_metrics :: metrics
  st_db :: sdb

definition with_metrics :: "(metrics \<Rightarrow> metrics) \<Rightarrow> store \<Rightarrow> store" where
  "with_metrics f st = st\<lparr>st_metrics := f (st_metrics st)\<rparr>"

definition write_attribute_data :: "attribute_row \<Rightarrow> store \<Rightarrow> gerror option \<times> store" where
  "write_attribute_data r st = (case create (upsert_attribute r) (st_db st) of
      (Some e, db) \<Rightarrow> (Some e, with_metrics inc_attribute_failed (st\<lparr>st_db := db\<rparr>))
    | (None, db) \<Rightarrow> (None, with_metrics inc_attribute_written (st\<lparr>st_db := db\<rparr>)))"

definition write_event_data :: "event_row \<Rightarrow> store \<Rightarrow> gerror option \<times> store" where
  "write_event_data r st = (case create (insert_event r) (st_db st) of
      (Some e, db) \<Rightarrow> (Some e, with_metrics inc_event_failed (st\<lparr>st_db := db\<rparr>))
    | (None, db) \<Rightarrow> (None, with_metrics inc_event_written (st\<lparr>st_db := db\<rparr>)))"

definition attribute_row_of :: "string \<Rightarrow> storage_message \<Rightarrow> data_point \<Rightarrow> attribute_row" where
  "attribute_row_of i m p = (case convert_value (snd p) of (b, n, s) \<Rightarrow>
     \<lparr>ad_id = i, ad_device_id = sm_device_id m, ad_key = fst p, ad_ts = sm_timestamp m,
      ad_bool_v = b, ad_number_v = n, ad_string_v = s, ad_tenant_id = sm_tenant_id m\<rparr>)"

definition insert_attribute :: "storage_message \<Rightarrow> data_point \<Rightarrow> sdb \<Rightarrow> gerror option \<times> sdb" where
  "insert_attribute m p db = (case new_uuid db of (i, db') \<Rightarrow> create (upsert_attribute (attribute_row_of i m p)) db')"

fun attribute_items :: "slice_item list \<Rightarrow> data_point list" where
  "attribute_items [] = []"
| "attribute_items (AttributeItem p # xs) = p # attribute_items xs"
| "attribute_items (_ # xs) = attribute_items xs"

fun telemetry_items :: "slice_item list \<Rightarrow> data_point list" where
  "telemetry_items [] = []"
| "telemetry_items (TelemetryItem p # xs) = p # telemetry_items xs"
| "telemetry_items (_ # xs) = telemetry_items xs"

definition attribute_points :: "storage_data \<Rightarrow> data_point list res" where
  "attribute_points x = (case x of
      AttributePoints ps \<Rightarrow> Inr ps
    | AnySlice xs \<Rightarrow> if attribute_items xs = [] then Inl (Errorf ''invalid attribute data format'')
                     else Inr (attribute_items xs)
    | _ \<Rightarrow> Inl (Errorf ''invalid attribute data format''))"

definition attribute_point_step :: "storage_message \<Rightarrow> store \<Rightarrow> data_point \<Rightarrow> store" where
  "attribute_point_step m st p = (case insert_attribute m p (st_db st) of
      (Some e, db) \<Rightarrow> with_metrics inc_attribute_failed (st\<lparr>st_db := db\<rparr>)
    | (None, db) \<Rightarrow> with_metrics inc_attribute_written (st\<lparr>st_db := db\<rparr>))"

definition write_attribute :: "storage_message \<Rightarrow> store \<Rightarrow> gerror option \<times> store" where
  "write_attribute m st = (case attribute_points (sm_data m) of
      Inl e \<Rightarrow> (Some e, st)
    | Inr ps \<Rightarrow> (None, foldl (attribute_point_step m) st ps))"

definition write_event :: "storage_message \<Rightarrow> store \<Rightarrow> gerror option \<times> store" where
  "write_event m st = (case sm_data m of
      EventData identify raw \<Rightarrow>
        (case new_uuid (st_db st) of (i, db) \<Rightarrow>
           write_event_data \<lparr>ed_id = i, ed_device_id = sm_device_id m, ed_identify = identify,
             ed_ts = sm_timestamp m, ed_data = raw, ed_tenant_id = sm_tenant_id m\<rparr> (st\<lparr>st_db := db\<rparr>))
    | _ \<Rightarrow> (Some (Errorf ''invalid event data format''), st))"

section \<open>Lemmas\<close>

lemma upsert_keys:
  "map series_key (upsert rows r) =
     (if series_key r \<in> series_key ` set rows then map series_key rows else map series_key rows @ [series_key r])"
  by (auto simp: upsert_def)

lemma distinct_upserts: "distinct (map series_key rows) \<Longrightarrow> distinct (map series_key (foldl upsert rows rs))"
  by (induction rs arbitrary: rows) (simp_all add: upsert_keys)

lemma find_keyed_map:
  "(\<And>x. key x = q \<Longrightarrow> key (f x) = q) \<Longrightarrow>
   find (\<lambda>x. key x = k) (map (\<lambda>x. if key x = q then f x else x) xs) =
   map_option (\<lambda>x. if k = q then f x else x) (find (\<lambda>x. key x = k) xs)"
  by (induction xs) auto

lemma find_keyed_None: "find (\<lambda>x. key x = k) xs = None \<longleftrightarrow> k \<notin> key ` set xs"
  by (auto simp: find_None_iff_all)

lemma find_append: "find P (xs @ ys) = (case find P xs of None \<Rightarrow> find P ys | Some x \<Rightarrow> Some x)"
  by (induction xs) auto

definition current_value :: "telemetry_row list \<Rightarrow> string \<times> string \<Rightarrow> telemetry_row option" where
  "current_value rows k = find (\<lambda>r. series_key r = k) rows"

lemma current_value_upsert:
  "current_value (upsert rows r) k = (if k = series_key r then Some r else current_value rows k)"
proof (cases "series_key r \<in> series_key ` set rows")
  case True
  then have "find (\<lambda>x. series_key x = series_key r) rows \<noteq> None" by (simp add: find_keyed_None)
  then show ?thesis
    using True by (auto simp: current_value_def upsert_def find_keyed_map option.map_ident)
next
  case False
  then have "find (\<lambda>x. series_key x = series_key r) rows = None" by (simp add: find_keyed_None)
  with False show ?thesis
    by (auto simp: current_value_def upsert_def find_append split: option.split)
qed

lemma current_value_upserts:
  "current_value (foldl upsert rows rs) k =
     (case find (\<lambda>r. series_key r = k) (rev rs) of None \<Rightarrow> current_value rows k | Some r \<Rightarrow> Some r)"
  by (induction rs rule: rev_induct) (auto simp: current_value_upsert split: option.split)

text \<open>The columns an upsert of an attribute sets.\<close>

definition attribute_columns ::
  "attribute_row \<Rightarrow> int \<times> bool option \<times> string option \<times> string option \<times> string" where
  "attribute_columns r = (ad_ts r, ad_bool_v r, ad_number_v r, ad_string_v r, ad_tenant_id r)"

definition attribute_value where
  "attribute_value db k = map_option attribute_columns (find (\<lambda>r. attribute_key r = k) (sd_attributes db))"

lemma attribute_value_upsert:
  "attribute_value (upsert_attribute r db) k =
     (if k = attribute_key r then Some (attribute_columns r) else attribute_value db k)"
proof (cases "attribute_key r \<in> attribute_key ` set (sd_attributes db)")
  case True
  let ?f = "\<lambda>x. x\<lparr>ad_ts := ad_ts r, ad_bool_v := ad_bool_v r, ad_number_v := ad_number_v r,
                   ad_string_v := ad_string_v r, ad_tenant_id := ad_tenant_id r\<rparr>"
  have c: "attribute_columns (?f x) = attribute_columns r" "attribute_key (?f x) = attribute_key x" for x
    by (simp_all add: attribute_columns_def attribute_key_def)
  have "find (\<lambda>x. attribute_key x = attribute_key r) (sd_attributes db) \<noteq> None"
    using True by (simp add: find_keyed_None)
  then show ?thesis
    using True c find_keyed_map [of attribute_key "attribute_key r" ?f k "sd_attributes db"]
    by (auto simp: attribute_value_def upsert_attribute_def option.map_ident)
next
  case False
  then have "find (\<lambda>x. attribute_key x = attribute_key r) (sd_attributes db) = None"
    by (simp add: find_keyed_None)
  with False show ?thesis
    by (auto simp: attribute_value_def upsert_attribute_def find_append split: option.split)
qed

lemma attribute_keys_upsert:
  "map attribute_key (sd_attributes (upsert_attribute r db)) =
     (if attribute_key r \<in> attribute_key ` set (sd_attributes db) then map attribute_key (sd_attributes db)
      else map attribute_key (sd_attributes db) @ [attribute_key r])"
  by (auto simp: upsert_attribute_def attribute_key_def)

lemma distinct_upsert_attribute:
  "distinct (map attribute_key (sd_attributes db)) \<Longrightarrow>
   distinct (map attribute_key (sd_attributes (upsert_attribute r db)))"
  by (simp add: attribute_keys_upsert)

section \<open>Writing attributes, message after message\<close>

definition written_points :: "storage_message list \<Rightarrow> (storage_message \<times> data_point) list" where
  "written_points ms = concat (map (\<lambda>m. case attribute_points (sm_data m) of
      Inl _ \<Rightarrow> [] | Inr ps \<Rightarrow> map (\<lambda>p. (m, p)) ps) ms)"

definition write_attributes :: "storage_message list \<Rightarrow> store \<Rightarrow> store" where
  "write_attributes ms st = foldl (\<lambda>s m. snd (write_attribute m s)) st ms"

lemma foldl_pairs: "foldl (\<lambda>s (m, p). f m s p) st (map (\<lambda>p. (m, p)) ps) = foldl (f m) st ps"
  by (induction ps arbitrary: st) simp_all

lemma write_attributes_points:
  "write_attributes ms st = foldl (\<lambda>s (m, p). attribute_point_step m s p) st (written_points ms)"
proof (induction ms arbitrary: st)
  case (Cons m ms)
  have "foldl (\<lambda>s (m, p). attribute_point_step m s p) st
      (case attribute_points (sm_data m) of Inl _ \<Rightarrow> [] | Inr ps \<Rightarrow> map (\<lambda>p. (m, p)) ps) = snd (write_attribute m st)"
    by (simp add: write_attribute_def foldl_pairs split: sum.split)
  with Cons show ?case by (simp add: write_attributes_def written_points_def)
qed (simp add: write_attributes_def written_points_def)

definition point_columns ::
  "storage_message \<Rightarrow> data_point \<Rightarrow> int \<times> bool option \<times> string option \<times> string option \<times> string" where
  "point_columns m p = (case convert_value (snd p) of (b, n, s) \<Rightarrow> (sm_timestamp m, b, n, s, sm_tenant_id m))"

lemma attribute_row_of_simps [simp]:
  "attribute_key (attribute_row_of i m p) = (sm_device_id m, fst p)"
  "attribute_columns (attribute_row_of i m p) = point_columns m p"
  by (simp_all add: attribute_row_of_def attribute_key_def attribute_columns_def point_columns_def split_beta)

text \<open>One point, without faults.\<close>

lemma attribute_point_written:
  fixes m :: storage_message and p :: data_point and st :: store
  assumes "\<forall>n. sd_fault (st_db st) n = None"
  defines "st' \<equiv> attribute_point_step m st p"
  shows "\<forall>n. sd_fault (st_db st') n = None"
    and "attribute_value (st_db st') k =
      (if k = (sm_device_id m, fst p) then Some (point_columns m p) else attribute_value (st_db st) k)"
    and "distinct (map attribute_key (sd_attributes (st_db st))) \<Longrightarrow>
      distinct (map attribute_key (sd_attributes (st_db st')))"
    and "st_metrics st' = inc_attribute_written (st_metrics st)"
proof -
  define db where "db = (st_db st)\<lparr>sd_uuids := sd_uuids (st_db st) + 1, sd_ops := sd_ops (st_db st) + 1\<rparr>"
  define r where "r = attribute_row_of (sd_uuid (st_db st) (sd_uuids (st_db st))) m p"
  have e: "st' = with_metrics inc_attribute_written (st\<lparr>st_db := upsert_attribute r db\<rparr>)"
    using assms(1) by (simp add: st'_def attribute_point_step_def insert_attribute_def new_uuid_def create_def
        next_op_def db_def r_def)
  have d: "attribute_value db = attribute_value (st_db st)" "sd_attributes db = sd_attributes (st_db st)"
      "sd_fault db = sd_fault (st_db st)"
    by (simp_all add: db_def attribute_value_def fun_eq_iff)
  show "\<forall>n. sd_fault (st_db st') n = None" using assms(1) by (simp add: e with_metrics_def upsert_attribute_def d)
  show "attribute_value (st_db st') k =
      (if k = (sm_device_id m, fst p) then Some (point_columns m p) else attribute_value (st_db st) k)"
    by (simp add: e with_metrics_def attribute_value_upsert d) (simp add: r_def)
  show "distinct (map attribute_key (sd_attributes (st_db st))) \<Longrightarrow>
      distinct (map attribute_key (sd_attributes (st_db st')))"
    using distinct_upsert_attribute [of db r] by (simp add: e with_metrics_def d)
  show "st_metrics st' = inc_attribute_written (st_metrics st)"
    by (simp add: e with_metrics_def)
qed

lemma attribute_points_written:
  fixes st :: store and mps :: "(storage_message \<times> data_point) list"
  assumes "\<forall>n. sd_fault (st_db st) n = None" "distinct (map attribute_key (sd_attributes (st_db st)))"
  defines "st' \<equiv> foldl (\<lambda>s (m, p). attribute_point_step m s p) st mps"
  shows "(\<forall>n. sd_fault (st_db st') n = None) \<and> distinct (map attribute_key (sd_attributes (st_db st'))) \<and>
    (\<forall>k. attribute_value (st_db st') k =
       (case find (\<lambda>(m, p). (sm_device_id m, fst p) = k) (rev mps) of
          None \<Rightarrow> attribute_value (st_db st) k | Some (m, p) \<Rightarrow> Some (point_columns m p))) \<and>
    st_metrics st' = (st_metrics st)\<lparr>mx_attribute_written := mx_attribute_written (st_metrics st) + int (length mps)\<rparr>"
  unfolding st'_def
proof (induction mps rule: rev_induct)
  case (snoc mp mps)
  obtain m p where mp: "mp = (m, p)" by (cases mp)
  let ?s = "foldl (\<lambda>s (m, p). attribute_point_step m s p) st mps"
  have nf: "\<forall>n. sd_fault (st_db ?s) n = None" using snoc by blast
  note w = attribute_point_written [OF nf, of m p]
  show ?case using snoc w(1,3,4) by (simp add: mp w(2) inc_attribute_written_def)
qed (use assms in simp)

section \<open>Properties\<close>

text \<open>C33: The attribute table keeps the last value written. From a table with one row per device and
  key, writing any sequence of messages without database errors leaves one row per device and key;
  its value, time and tenant are those of the last point written for it (whatever the time of the
  point says), an attribute nobody wrote keeps its row, and the counter grows by the number of points.\<close>
theorem attribute_last_write_wins:
  fixes st :: store and ms :: "storage_message list"
  assumes "\<forall>n. sd_fault (st_db st) n = None" "distinct (map attribute_key (sd_attributes (st_db st)))"
  defines "st' \<equiv> write_attributes ms st"
  shows "distinct (map attribute_key (sd_attributes (st_db st'))) \<and>
    (\<forall>k. attribute_value (st_db st') k =
       (case find (\<lambda>(m, p). (sm_device_id m, fst p) = k) (rev (written_points ms)) of
          None \<Rightarrow> attribute_value (st_db st) k | Some (m, p) \<Rightarrow> Some (point_columns m p))) \<and>
    mx_attribute_written (st_metrics st') = mx_attribute_written (st_metrics st) + int (length (written_points ms)) \<and>
    mx_attribute_failed (st_metrics st') = mx_attribute_failed (st_metrics st)"
  using attribute_points_written [OF assms(1,2), of "written_points ms"]
  by (simp add: st'_def write_attributes_points)

definition empty_sdb :: sdb where
  "empty_sdb = \<lparr>sd_telemetry = [], sd_current = [], sd_attributes = [], sd_events = [], sd_fault = (\<lambda>_. None),
     sd_ops = 0, sd_uuid = show_nat, sd_uuids = 0\<rparr>"

definition new_store :: "sdb \<Rightarrow> store" where
  "new_store db = \<lparr>st_metrics = new_metrics, st_db = db\<rparr>"

theorem attribute_last_write_wins_witness:
  "attribute_value (st_db (write_attributes
     [\<lparr>sm_device_id = ''d1'', sm_tenant_id = ''t1'', sm_data_type = DataTypeAttribute, sm_timestamp = 5,
       sm_data = AttributePoints [(''a'', JNum ''1''), (''b'', JNull)]\<rparr>,
      \<lparr>sm_device_id = ''d1'', sm_tenant_id = ''t1'', sm_data_type = DataTypeAttribute, sm_timestamp = 3,
       sm_data = AttributePoints [(''a'', JBool True)]\<rparr>] (new_store empty_sdb))) (''d1'', ''a'') =
   Some (3, Some True, None, None, ''t1'')"
  using attribute_last_write_wins [of "new_store empty_sdb"]
  by (simp add: new_store_def empty_sdb_def written_points_def attribute_points_def point_columns_def)

end
