(* ===== verification/TelemetryWriter.thy ===== *)
theory TelemetryWriter
  imports StorageDb
begin

text \<open>
  \<open>internal/storage/telemetry_writer.go\<close>: telemetry is buffered and written in batches; a batch is
  deduplicated, written in one transaction and, when that fails, point by point. The iteration
  order of the Go map of latest values is the parameter \<open>ord\<close>.
\<close>

section \<open>Batches\<close>

record tel_item =
  ti_device_id :: string
  ti_tenant_id :: string
  ti_timestamp :: int
  ti_points :: "data_point list"

record dedup =
  dd_seen :: "string list"
  dd_history :: "telemetry_row list"
  dd_current :: "telemetry_row gmap"
  dd_duplicates :: nat

definition row_of :: "tel_item \<Rightarrow> data_point \<Rightarrow> telemetry_row" where
  "row_of it p = (case convert_value (snd p) of (b, n, s) \<Rightarrow>
     \<lparr>td_device_id = ti_device_id it, td_key = fst p, td_ts = ti_timestamp it,
      td_bool_v = b, td_number_v = n, td_string_v = s, td_tenant_id = ti_tenant_id it\<rparr>)"

definition seen_key :: "telemetry_row \<Rightarrow> string" where
  "seen_key r = td_device_id r @ ''|'' @ td_key r @ ''|'' @ show_int (td_ts r)"

definition current_key :: "telemetry_row \<Rightarrow> string" where
  "current_key r = td_device_id r @ ''|'' @ td_key r"

definition dedup_point :: "tel_item \<Rightarrow> data_point \<Rightarrow> dedup \<Rightarrow> dedup" where
  "dedup_point it p dd =
     (let r = row_of it p in
      if seen_key r \<in> set (dd_seen dd) then dd\<lparr>dd_duplicates := dd_duplicates dd + 1\<rparr>
      else dd\<lparr>dd_seen := seen_key r # dd_seen dd,
              dd_history := dd_history dd @ [r],
              dd_current := (case map_of (dd_current dd) (current_key r) of
                  None \<Rightarrow> map_put (current_key r) r (dd_current dd)
                | Some x \<Rightarrow> if td_ts x < td_ts r then map_put (current_key r) r (dd_current dd)
                            else dd_current dd)\<rparr>)"

definition deduplicate_and_convert :: "(telemetry_row list \<Rightarrow> telemetry_row list) \<Rightarrow> tel_item list \<Rightarrow>
    telemetry_row list \<times> telemetry_row list \<times> nat" where
  "deduplicate_and_convert ord batch =
     (let dd = fold (\<lambda>it. fold (dedup_point it) (ti_points it)) batch
                 \<lparr>dd_seen = [], dd_history = [], dd_current = [], dd_duplicates = 0\<rparr>
      in (dd_history dd, ord (map snd (dd_current dd)), dd_duplicates dd))"

section \<open>The writer\<close>

record writer =
  wr_config :: sconfig
  wr_store :: store
  wr_buffer :: "tel_item list"
  wr_diag :: collector
  wr_now :: int

text \<open>\<open>make\<close> panics on a negative capacity.\<close>

definition new_writer :: "sconfig \<Rightarrow> store \<Rightarrow> collector \<Rightarrow> int \<Rightarrow> writer option" where
  "new_writer c st diag now =
     (if sc_telemetry_batch_size c < 0 then None
      else Some \<lparr>wr_config = c, wr_store = st, wr_buffer = [], wr_diag = diag, wr_now = now\<rparr>)"

definition wr_db :: "writer \<Rightarrow> sdb" where
  "wr_db w = st_db (wr_store w)"

definition wr_metrics :: "writer \<Rightarrow> metrics" where
  "wr_metrics w = st_metrics (wr_store w)"

definition set_wr_db :: "sdb \<Rightarrow> writer \<Rightarrow> writer" where
  "set_wr_db db w = w\<lparr>wr_store := (wr_store w)\<lparr>st_db := db\<rparr>\<rparr>"

definition upd_metrics :: "(metrics \<Rightarrow> metrics) \<Rightarrow> writer \<Rightarrow> writer" where
  "upd_metrics f w = w\<lparr>wr_store := with_metrics f (wr_store w)\<rparr>"

definition msg_storage_failed :: string where
  "msg_storage_failed = utf8 [229, 173, 152, 229, 130, 168, 229, 164, 177, 232, 180, 165, 239, 188, 154]"

definition diag_storage_failed :: "string \<Rightarrow> gerror \<Rightarrow> writer \<Rightarrow> writer" where
  "diag_storage_failed d e w =
     w\<lparr>wr_diag := record_storage_failed (wr_now w) d (msg_storage_failed @ error_msg e) (wr_diag w)\<rparr>"

text \<open>\<open>fallbackInsert\<close>, from index \<open>i\<close>: the latest value is taken at the index of the history row, so
  the loop panics when there is none (after the history statement of that row succeeded).\<close>

fun fallback_from :: "telemetry_row list \<Rightarrow> nat \<Rightarrow> telemetry_row list \<Rightarrow> nat \<times> nat \<Rightarrow> writer \<Rightarrow>
    ((nat \<times> nat) \<times> writer) option" where
  "fallback_from cur i [] acc w = Some (acc, w)"
| "fallback_from cur i (h # hs) (written, failed) w =
     (if length cur \<le> i \<and> fst (next_op (wr_db w)) = None then None
      else case transaction [insert_history [h], upsert_current (take 1 (drop i cur))] (wr_db w) of
        (None, db) \<Rightarrow> fallback_from cur (Suc i) hs (written + 1, failed) (set_wr_db db w)
      | (Some e, db) \<Rightarrow> fallback_from cur (Suc i) hs (written, failed + 1)
                          (diag_storage_failed (td_device_id h) e (set_wr_db db w)))"

definition fallback_insert :: "telemetry_row list \<Rightarrow> telemetry_row list \<Rightarrow> writer \<Rightarrow>
    ((nat \<times> nat) \<times> writer) option" where
  "fallback_insert hist cur w = fallback_from cur 0 hist (0, 0) w"

definition batch_insert :: "telemetry_row list \<Rightarrow> telemetry_row list \<Rightarrow> writer \<Rightarrow>
    ((nat \<times> nat) \<times> writer) option" where
  "batch_insert hist cur w = (case transaction [insert_history hist, upsert_current cur] (wr_db w) of
      (None, db) \<Rightarrow> Some ((length hist, 0), set_wr_db db w)
    | (Some e, db) \<Rightarrow> fallback_insert hist cur (set_wr_db db w))"

definition do_flush :: "(telemetry_row list \<Rightarrow> telemetry_row list) \<Rightarrow> tel_item list \<Rightarrow> writer \<Rightarrow> writer option" where
  "do_flush ord batch w = (case deduplicate_and_convert ord batch of (hist, cur, dups) \<Rightarrow>
     let w1 = (if 0 < dups then upd_metrics (add_telemetry_duplicates (int dups)) w else w) in
     if hist = [] then Some w1
     else map_option (\<lambda>((written, failed), w2).
            upd_metrics (record_telemetry_batch (wr_now w2) (int (length hist)))
              (upd_metrics (add_telemetry_failed (int failed))
                (upd_metrics (add_telemetry_written (int written)) w2)))
          (batch_insert hist cur w1))"

definition flush_buffer :: "(telemetry_row list \<Rightarrow> telemetry_row list) \<Rightarrow> writer \<Rightarrow> writer option" where
  "flush_buffer ord w =
     (if wr_buffer w = [] then Some w else do_flush ord (wr_buffer w) (w\<lparr>wr_buffer := []\<rparr>))"

definition flush_remaining :: "(telemetry_row list \<Rightarrow> telemetry_row list) \<Rightarrow> writer \<Rightarrow> writer option" where
  "flush_remaining ord w =
     (if wr_buffer w = [] then Some w else do_flush ord (wr_buffer w) (w\<lparr>wr_buffer := []\<rparr>))"

definition telemetry_points :: "storage_data \<Rightarrow> data_point list res" where
  "telemetry_points x = (case x of
      TelemetryPoints ps \<Rightarrow> Inr ps
    | AnySlice xs \<Rightarrow> if telemetry_items xs = [] then Inl (Errorf ''invalid telemetry data format'')
                     else Inr (telemetry_items xs)
    | _ \<Rightarrow> Inl (Errorf ''invalid telemetry data format''))"

definition item_of :: "storage_message \<Rightarrow> data_point list \<Rightarrow> tel_item" where
  "item_of m ps = \<lparr>ti_device_id = sm_device_id m, ti_tenant_id = sm_tenant_id m,
     ti_timestamp = sm_timestamp m, ti_points = ps\<rparr>"

text \<open>\<open>write\<close> up to the decision to flush, and as a whole.\<close>

definition write_append :: "storage_message \<Rightarrow> writer \<Rightarrow> gerror option \<times> bool \<times> writer" where
  "write_append m w = (case telemetry_points (sm_data m) of
      Inl e \<Rightarrow> (Some e, False, w)
    | Inr ps \<Rightarrow>
        let w' = w\<lparr>wr_buffer := wr_buffer w @ [item_of m ps]\<rparr>
        in (None, sc_telemetry_batch_size (wr_config w) \<le> int (length (wr_buffer w')), w'))"

definition telemetry_write :: "(telemetry_row list \<Rightarrow> telemetry_row list) \<Rightarrow> storage_message \<Rightarrow> writer \<Rightarrow>
    (gerror option \<times> writer) option" where
  "telemetry_write ord m w = (case write_append m w of
      (err, should_flush, w') \<Rightarrow>
        if should_flush then map_option (\<lambda>w''. (err, w'')) (flush_buffer ord w') else Some (err, w'))"

section \<open>Keys\<close>

lemma show_int_inj [simp]: "show_int i = show_int j \<longleftrightarrow> i = j"
proof -
  have "CHR ''-'' # show_nat m \<noteq> show_nat n" for m n
    using show_nat_digits [of n] by (auto simp: is_digit_def dest: arg_cong [of _ _ "list_all is_digit"])
  then show ?thesis by (auto simp: show_int_def dest: sym)
qed

lemma bar_show_int [simp]: "CHR ''|'' \<notin> set (show_int i)"
proof -
  have "CHR ''|'' \<notin> set (show_nat n)" for n
    using show_nat_digits [of n] by (auto simp: list_all_iff is_digit_def)
  then show ?thesis by (simp add: show_int_def)
qed

definition no_bar :: "telemetry_row \<Rightarrow> bool" where
  "no_bar r \<longleftrightarrow> CHR ''|'' \<notin> set (td_device_id r)"

lemma key_injective:
  assumes "no_bar r" "no_bar s"
  shows "seen_key r = seen_key s \<longleftrightarrow> point_key r = point_key s"
    and "current_key r = current_key s \<longleftrightarrow> series_key r = series_key s"
  using assms
  by (auto simp: no_bar_def seen_key_def current_key_def point_key_def series_key_def
      split_first_sep split_last_sep)

section \<open>What deduplication keeps\<close>

definition batch_rows :: "tel_item list \<Rightarrow> telemetry_row list" where
  "batch_rows batch = concat (map (\<lambda>it. map (row_of it) (ti_points it)) batch)"

definition dedup_row :: "telemetry_row \<Rightarrow> dedup \<Rightarrow> dedup" where
  "dedup_row r dd =
     (if seen_key r \<in> set (dd_seen dd) then dd\<lparr>dd_duplicates := dd_duplicates dd + 1\<rparr>
      else dd\<lparr>dd_seen := seen_key r # dd_seen dd,
              dd_history := dd_history dd @ [r],
              dd_current := (case map_of (dd_current dd) (current_key r) of
                  None \<Rightarrow> map_put (current_key r) r (dd_current dd)
                | Some x \<Rightarrow> if td_ts x < td_ts r then map_put (current_key r) r (dd_current dd)
                            else dd_current dd)\<rparr>)"

lemma fold_dedup_rows:
  "fold (\<lambda>it. fold (dedup_point it) (ti_points it)) batch dd = fold dedup_row (batch_rows batch) dd"
proof (induction batch arbitrary: dd)
  case (Cons it batch)
  have "dedup_point it = (\<lambda>p. dedup_row (row_of it p))"
    by (simp add: fun_eq_iff dedup_point_def dedup_row_def Let_def)
  with Cons show ?case by (simp add: batch_rows_def fold_map comp_def)
qed (simp add: batch_rows_def)

text \<open>The state after the rows \<open>rs\<close>: the history is what inserting them one by one into an empty
  table leaves; the latest values are one per series, with the greatest time.\<close>

definition dedup_inv :: "telemetry_row list \<Rightarrow> dedup \<Rightarrow> bool" where
  "dedup_inv rs dd \<longleftrightarrow>
     set (dd_seen dd) = seen_key ` set (dd_history dd) \<and>
     dd_history dd = foldl insert_new [] rs \<and>
     dd_duplicates dd + length (dd_history dd) = length rs \<and>
     sorted_map (dd_current dd) \<and>
     fst ` set (dd_current dd) = current_key ` set (dd_history dd) \<and>
     (\<forall>(k, r) \<in> set (dd_current dd). r \<in> set (dd_history dd) \<and> current_key r = k \<and>
        (\<forall>x \<in> set (dd_history dd). current_key x = k \<longrightarrow> td_ts x \<le> td_ts r))"

lemma set_map_put_sorted:
  "sorted_map m \<Longrightarrow> set (map_put k v m) = insert (k, v) {kv \<in> set m. fst kv \<noteq> k}"
proof (induction k v m rule: map_put.induct)
  case (2 k v k' v' m)
  consider "k = k'" | "k < k'" | "k' < k" by (metis linorder_neqE)
  then show ?case using 2 by cases (auto dest: less_trans)
qed simp

lemma insert_new_subset: "set (insert_new rows r) \<subseteq> insert r (set rows)"
  by (auto simp: insert_new_def)

lemma foldl_insert_new_subset: "set (foldl insert_new rows rs) \<subseteq> set rows \<union> set rs"
  by (induction rs arbitrary: rows) (auto dest: subsetD [OF insert_new_subset])

lemma dedup_row_inv:
  assumes inv: "dedup_inv rs dd" and nb: "list_all no_bar (rs @ [r])"
  shows "dedup_inv (rs @ [r]) (dedup_row r dd)"
proof -
  have hist: "dd_history dd = foldl insert_new [] rs" using inv by (simp add: dedup_inv_def)
  have hb: "no_bar x" if "x \<in> set (dd_history dd)" for x
    using that nb hist foldl_insert_new_subset [of "[]" rs] by (auto simp: list_all_iff)
  have seen: "seen_key r \<in> set (dd_seen dd) \<longleftrightarrow> point_key r \<in> point_key ` set (dd_history dd)"
    using inv hb nb key_injective(1) [of r] by (auto simp: dedup_inv_def image_iff)
  show ?thesis
  proof (cases "seen_key r \<in> set (dd_seen dd)")
    case True
    then have e: "dedup_row r dd = dd\<lparr>dd_duplicates := dd_duplicates dd + 1\<rparr>" by (simp add: dedup_row_def)
    have "foldl insert_new [] (rs @ [r]) = foldl insert_new [] rs"
      using True seen hist by (simp add: insert_new_def)
    then show ?thesis using inv unfolding dedup_inv_def e by (simp add: hist)
  next
    case False
    let ?dd = "dedup_row r dd"
    have h: "dd_history ?dd = dd_history dd @ [r]" "set (dd_seen ?dd) = insert (seen_key r) (set (dd_seen dd))"
        "dd_duplicates ?dd = dd_duplicates dd"
      using False by (simp_all add: dedup_row_def)
    have f: "foldl insert_new [] (rs @ [r]) = dd_history dd @ [r]"
      using False seen hist by (simp add: insert_new_def)
    have d: "sorted_map (dd_current dd)"
        and k: "fst ` set (dd_current dd) = current_key ` set (dd_history dd)"
        and c: "\<And>k x. (k, x) \<in> set (dd_current dd) \<Longrightarrow> x \<in> set (dd_history dd) \<and> current_key x = k \<and>
          (\<forall>y \<in> set (dd_history dd). current_key y = k \<longrightarrow> td_ts y \<le> td_ts x)"
      using inv by (auto simp: dedup_inv_def)
    have cur: "sorted_map (dd_current ?dd) \<and>
        fst ` set (dd_current ?dd) = insert (current_key r) (fst ` set (dd_current dd)) \<and>
        (\<forall>(k, x) \<in> set (dd_current ?dd). x \<in> set (dd_history ?dd) \<and> current_key x = k \<and>
          (\<forall>y \<in> set (dd_history ?dd). current_key y = k \<longrightarrow> td_ts y \<le> td_ts x))"
    proof (cases "map_of (dd_current dd) (current_key r)")
      case None
      then have n: "current_key r \<notin> fst ` set (dd_current dd)" by (simp add: map_of_eq_None_iff)
      have e: "dd_current ?dd = map_put (current_key r) r (dd_current dd)"
        using False None by (simp add: dedup_row_def)
      have "(k, x) \<in> set (dd_current ?dd) \<Longrightarrow>
          x \<in> set (dd_history ?dd) \<and> current_key x = k \<and>
          (\<forall>y \<in> set (dd_history ?dd). current_key y = k \<longrightarrow> td_ts y \<le> td_ts x)" for k x
        using c [of k x] n unfolding k e set_map_put_sorted [OF d] h by (auto simp: rev_image_eqI)
      then show ?thesis using d by (auto simp: e)
    next
      case (Some x0)
      then have m: "(current_key r, x0) \<in> set (dd_current dd)" by (simp add: map_of_SomeD)
      then have i: "insert (current_key r) (fst ` set (dd_current dd)) = fst ` set (dd_current dd)" by force
      show ?thesis
      proof (cases "td_ts x0 < td_ts r")
        case True
        have e: "dd_current ?dd = map_put (current_key r) r (dd_current dd)"
          using False Some True by (simp add: dedup_row_def)
        have "(k, x) \<in> set (dd_current ?dd) \<Longrightarrow>
            x \<in> set (dd_history ?dd) \<and> current_key x = k \<and>
            (\<forall>y \<in> set (dd_history ?dd). current_key y = k \<longrightarrow> td_ts y \<le> td_ts x)" for k x
          using c [of k x] c [OF m] True unfolding e set_map_put_sorted [OF d] h by fastforce
        then show ?thesis using d by (auto simp: e)
      next
        case False
        have e: "dd_current ?dd = dd_current dd"
          using \<open>seen_key r \<notin> set (dd_seen dd)\<close> Some False by (simp add: dedup_row_def)
        have "x = x0" if "(current_key r, x) \<in> set (dd_current dd)" for x
          using that Some sorted_map_distinct [OF d] by (metis map_of_is_SomeI option.inject)
        then have "(k, x) \<in> set (dd_current dd) \<Longrightarrow>
            x \<in> set (dd_history ?dd) \<and> current_key x = k \<and>
            (\<forall>y \<in> set (dd_history ?dd). current_key y = k \<longrightarrow> td_ts y \<le> td_ts x)" for k x
          using c [of k x] False unfolding h by auto
        then show ?thesis using d i by (auto simp: e)
      qed
    qed
    have "dd_duplicates dd + length (dd_history dd) = length rs"
        "set (dd_seen dd) = seen_key ` set (dd_history dd)"
      using inv unfolding dedup_inv_def by blast+
    then show ?thesis using h f cur k by (simp add: dedup_inv_def)
  qed
qed

lemma dedup_rows_inv: "list_all no_bar rs \<Longrightarrow>
    dedup_inv rs (fold dedup_row rs \<lparr>dd_seen = [], dd_history = [], dd_current = [], dd_duplicates = 0\<rparr>)"
proof (induction rs rule: rev_induct)
  case Nil
  then show ?case by (simp add: dedup_inv_def)
next
  case (snoc r rs)
  then show ?case using dedup_row_inv by simp
qed

lemma keys_insert_new: "point_key ` set (foldl insert_new rows rs) = point_key ` set rows \<union> point_key ` set rs"
  by (induction rs arbitrary: rows) (auto simp: insert_new_def)

lemma distinct_insert_new: "distinct (map point_key rows) \<Longrightarrow> distinct (map point_key (foldl insert_new rows rs))"
  by (induction rs arbitrary: rows) (auto simp: insert_new_def)

text \<open>Deduplicating first does not change what a table receives.\<close>

lemma insert_deduplicated: "foldl insert_new rows (foldl insert_new [] rs) = foldl insert_new rows rs"
proof (induction rs rule: rev_induct)
  case (snoc r rs)
  show ?case
  proof (cases "point_key r \<in> point_key ` set rs")
    case True
    then have "insert_new (foldl insert_new [] rs) r = foldl insert_new [] rs"
        "insert_new (foldl insert_new rows rs) r = foldl insert_new rows rs"
      by (simp_all only: insert_new_def keys_insert_new) auto
    with snoc show ?thesis by simp
  next
    case False
    then have "insert_new (foldl insert_new [] rs) r = foldl insert_new [] rs @ [r]"
      by (simp only: insert_new_def keys_insert_new) auto
    with snoc show ?thesis by simp
  qed
qed simp

lemma batch_no_bar:
  "\<forall>it \<in> set batch. CHR ''|'' \<notin> set (ti_device_id it) \<Longrightarrow> list_all no_bar (batch_rows batch)"
  by (auto simp: list_all_iff batch_rows_def no_bar_def row_of_def split_beta)

text \<open>The rows one batch gives: the hypotheses are that device ids (UUIDs) contain no bar, the
  separator of the keys, and that the order of the map lists its values.\<close>

definition plain_batch :: "tel_item list \<Rightarrow> bool" where
  "plain_batch batch \<longleftrightarrow> (\<forall>it \<in> set batch. CHR ''|'' \<notin> set (ti_device_id it))"

lemma deduplicated:
  assumes "plain_batch batch" "\<And>xs. mset (ord xs) = mset xs"
    and "deduplicate_and_convert ord batch = (hist, cur, dups)"
  shows "hist = foldl insert_new [] (batch_rows batch)"
    and "dups + length hist = length (batch_rows batch)"
    and "distinct (map series_key cur)"
    and "series_key ` set cur = series_key ` set (batch_rows batch)"
    and "r \<in> set cur \<Longrightarrow> r \<in> set hist \<and> (\<forall>x \<in> set hist. series_key x = series_key r \<longrightarrow> td_ts x \<le> td_ts r)"
proof -
  let ?rs = "batch_rows batch"
  define dd where "dd = fold dedup_row ?rs \<lparr>dd_seen = [], dd_history = [], dd_current = [], dd_duplicates = 0\<rparr>"
  have nb: "list_all no_bar ?rs" using assms(1) batch_no_bar by (simp add: plain_batch_def)
  have inv: "dedup_inv ?rs dd" unfolding dd_def by (rule dedup_rows_inv [OF nb])
  have e: "hist = dd_history dd" "cur = ord (map snd (dd_current dd))" "dups = dd_duplicates dd"
    using assms(3) by (simp_all add: deduplicate_and_convert_def Let_def fold_dedup_rows dd_def)
  show h: "hist = foldl insert_new [] ?rs" and "dups + length hist = length ?rs"
    using inv unfolding e dedup_inv_def by blast+
  have sub: "set hist \<subseteq> set ?rs" using foldl_insert_new_subset [of "[]" ?rs] h by simp
  then have hb: "no_bar x" if "x \<in> set hist" for x using that nb by (auto simp: list_all_iff)
  have scur: "set cur = snd ` set (dd_current dd)" using assms(2) unfolding e by (metis set_mset_mset set_map)
  have c: "x \<in> set hist \<and> current_key x = k \<and> (\<forall>y \<in> set hist. current_key y = k \<longrightarrow> td_ts y \<le> td_ts x)"
    if "(k, x) \<in> set (dd_current dd)" for k x
    using inv that unfolding e dedup_inv_def by blast
  have keys: "fst ` set (dd_current dd) = current_key ` set hist" using inv unfolding e dedup_inv_def by blast
  have inj: "current_key x = current_key y \<longleftrightarrow> series_key x = series_key y" if "x \<in> set hist" "y \<in> set hist" for x y
    using key_injective(2) hb that by blast
  show "r \<in> set cur \<Longrightarrow> r \<in> set hist \<and> (\<forall>x \<in> set hist. series_key x = series_key r \<longrightarrow> td_ts x \<le> td_ts r)"
    using c inj scur by force
  have "map fst (dd_current dd) = map current_key (map snd (dd_current dd))" using c by auto
  moreover have "distinct (map fst (dd_current dd))"
    using inv unfolding dedup_inv_def by (intro sorted_map_distinct) blast
  ultimately have "distinct (map current_key (map snd (dd_current dd)))" by metis
  then have ys: "distinct (map snd (dd_current dd))" "inj_on current_key (set (map snd (dd_current dd)))"
    unfolding distinct_map by blast+
  have "set (map snd (dd_current dd)) \<subseteq> set hist" using c by auto
  then have "inj_on series_key (set (map snd (dd_current dd)))"
    using ys(2) inj by (meson inj_onD inj_onI subsetD)
  with ys(1) have "distinct (map series_key (map snd (dd_current dd)))"
    unfolding distinct_map by blast
  moreover have "mset (map series_key cur) = mset (map series_key (map snd (dd_current dd)))"
    unfolding e by (simp only: mset_map assms(2))
  ultimately show "distinct (map series_key cur)"
    using mset_eq_imp_distinct_iff [of "map series_key cur" "map series_key (map snd (dd_current dd))"]
    by blast
  have "series_key ` set cur = series_key ` set hist"
  proof
    show "series_key ` set cur \<subseteq> series_key ` set hist" using scur c by force
    show "series_key ` set hist \<subseteq> series_key ` set cur"
    proof
      fix s assume "s \<in> series_key ` set hist"
      then obtain x where x: "x \<in> set hist" "s = series_key x" by blast
      then have "current_key x \<in> fst ` set (dd_current dd)" using keys by blast
      then obtain y where y: "(current_key x, y) \<in> set (dd_current dd)" by force
      then have "y \<in> set cur" using scur by force
      moreover have "series_key y = s" using c [OF y] inj x by blast
      ultimately show "s \<in> series_key ` set cur" by blast
    qed
  qed
  also have "\<dots> = series_key ` set ?rs"
  proof
    show "series_key ` set hist \<subseteq> series_key ` set ?rs" using sub by auto
    have "point_key ` set hist = point_key ` set ?rs" using keys_insert_new [of "[]" ?rs] h by simp
    then have "(\<lambda>(d, k, t). (d, k)) ` point_key ` set ?rs \<subseteq> (\<lambda>(d, k, t). (d, k)) ` point_key ` set hist" by simp
    then show "series_key ` set ?rs \<subseteq> series_key ` set hist"
      by (simp add: image_image point_key_def series_key_def)
  qed
  finally show "series_key ` set cur = series_key ` set ?rs" .
qed

section \<open>A flush\<close>

lemma find_distinct_key:
  "distinct (map key xs) \<Longrightarrow> find (\<lambda>x. key x = k) xs = Some r \<longleftrightarrow> r \<in> set xs \<and> key r = k"
  by (induction xs) (auto simp: rev_image_eqI)

lemma writer_simps [simp]:
  "wr_db (set_wr_db db w) = db" "wr_metrics (set_wr_db db w) = wr_metrics w"
  "wr_db (upd_metrics f w) = wr_db w" "wr_metrics (upd_metrics f w) = f (wr_metrics w)"
  "wr_db (diag_storage_failed d e w) = wr_db w" "wr_metrics (diag_storage_failed d e w) = wr_metrics w"
  "wr_db (w\<lparr>wr_buffer := b\<rparr>) = wr_db w" "wr_metrics (w\<lparr>wr_buffer := b\<rparr>) = wr_metrics w"
  by (simp_all add: wr_db_def wr_metrics_def set_wr_db_def upd_metrics_def diag_storage_failed_def with_metrics_def)

lemma buffer_simps [simp]:
  "wr_buffer (set_wr_db db w) = wr_buffer w" "wr_buffer (upd_metrics f w) = wr_buffer w"
  "wr_buffer (diag_storage_failed d e w) = wr_buffer w"
  "wr_config (set_wr_db db w) = wr_config w" "wr_config (upd_metrics f w) = wr_config w"
  "wr_config (diag_storage_failed d e w) = wr_config w"
  by (simp_all add: set_wr_db_def upd_metrics_def diag_storage_failed_def)

lemma transaction_ok:
  assumes "\<forall>n \<ge> sd_ops db. sd_fault db n = None"
  shows "transaction [insert_history hs, upsert_current cs] db =
    (None, upsert_current cs (insert_history hs (db\<lparr>sd_ops := sd_ops db + 3\<rparr>)))"
  using assms
  by (simp add: transaction_def next_op_def insert_history_def upsert_current_def numeral_3_eq_3)

lemma transaction_first_fails:
  "sd_fault db (sd_ops db) = Some e \<Longrightarrow>
   transaction (f # fs) db = (Some e, db\<lparr>sd_ops := sd_ops db + 1\<rparr>)"
  by (simp add: transaction_def next_op_def)

text \<open>The fallback counts every row once, as written or as failed.\<close>

lemma fallback_counts:
  "fallback_from cur i hs (a, b) w = Some ((a', b'), w') \<Longrightarrow>
     a' + b' = a + b + length hs \<and> wr_metrics w' = wr_metrics w \<and> wr_buffer w' = wr_buffer w \<and> wr_config w' = wr_config w"
proof (induction hs arbitrary: i a b w)
  case (Cons h hs)
  obtain r db where t: "transaction [insert_history [h], upsert_current (take 1 (drop i cur))] (wr_db w) = (r, db)"
    by force
  show ?case
  proof (cases r)
    case None
    then have "fallback_from cur (Suc i) hs (a + 1, b) (set_wr_db db w) = Some ((a', b'), w')"
      using Cons.prems t by (simp split: if_split_asm)
    from Cons.IH [OF this] show ?thesis by simp
  next
    case (Some e)
    then have "fallback_from cur (Suc i) hs (a, b + 1) (diag_storage_failed (td_device_id h) e (set_wr_db db w)) =
        Some ((a', b'), w')"
      using Cons.prems t by (simp split: if_split_asm)
    from Cons.IH [OF this] show ?thesis by simp
  qed
qed simp

lemma fallback_returns:
  "i + length hs \<le> length cur \<Longrightarrow> \<exists>r. fallback_from cur i hs acc w = Some r"
proof (induction hs arbitrary: i acc w)
  case (Cons h hs)
  obtain a b where acc: "acc = (a, b)" by force
  obtain r db where t: "transaction [insert_history [h], upsert_current (take 1 (drop i cur))] (wr_db w) = (r, db)"
    by force
  have "Suc i + length hs \<le> length cur" "\<not> length cur \<le> i" using Cons.prems by simp_all
  with Cons.IH acc t show ?case by (cases r) simp_all
qed simp

lemma fallback_panics:
  "i \<le> length cur \<Longrightarrow> length cur < i + length hs \<Longrightarrow> \<forall>n \<ge> sd_ops (wr_db w). sd_fault (wr_db w) n = None \<Longrightarrow>
   fallback_from cur i hs acc w = None"
proof (induction hs arbitrary: i acc w)
  case (Cons h hs)
  obtain a b where acc: "acc = (a, b)" by force
  show ?case
  proof (cases "length cur \<le> i")
    case True
    then show ?thesis using Cons.prems(3) by (simp add: acc next_op_def)
  next
    case False
    note tr = transaction_ok [OF Cons.prems(3), of "[h]" "take 1 (drop i cur)"]
    let ?db = "upsert_current (take 1 (drop i cur)) (insert_history [h] ((wr_db w)\<lparr>sd_ops := sd_ops (wr_db w) + 3\<rparr>))"
    have "\<forall>n \<ge> sd_ops ?db. sd_fault ?db n = None"
      using Cons.prems(3) by (simp add: upsert_current_def insert_history_def)
    then have "fallback_from cur (Suc i) hs (a + 1, b) (set_wr_db ?db w) = None"
      using Cons.prems False by (intro Cons.IH) simp_all
    then show ?thesis using tr False by (simp add: acc)
  qed
qed simp

text \<open>What one flush does to the counters, whatever the database answers.\<close>

definition accounted :: "writer \<Rightarrow> int" where
  "accounted w = mx_written (wr_metrics w) + mx_failed (wr_metrics w) + mx_duplicates (wr_metrics w)"

lemma batch_insert_counts:
  "batch_insert hist cur w = Some ((a, b), w') \<Longrightarrow>
     a + b = length hist \<and> wr_metrics w' = wr_metrics w \<and> wr_buffer w' = wr_buffer w \<and> wr_config w' = wr_config w"
  using fallback_counts [of cur 0 hist 0 0]
  by (fastforce simp: batch_insert_def fallback_insert_def split: prod.split_asm option.split_asm)

lemma do_flush_counts:
  assumes "plain_batch batch" "\<And>xs. mset (ord xs) = mset xs" "do_flush ord batch w = Some w'"
  shows "accounted w' = accounted w + int (length (batch_rows batch)) \<and>
    mx_received (wr_metrics w') = mx_received (wr_metrics w) \<and> wr_buffer w' = wr_buffer w \<and> wr_config w' = wr_config w"
proof -
  obtain hist cur dups where d: "deduplicate_and_convert ord batch = (hist, cur, dups)" by (metis prod_cases3)
  note len = deduplicated(2) [OF assms(1,2) d]
  define w1 where "w1 = (if 0 < dups then upd_metrics (add_telemetry_duplicates (int dups)) w else w)"
  have w1: "accounted w1 = accounted w + int dups" "mx_received (wr_metrics w1) = mx_received (wr_metrics w)"
      "wr_buffer w1 = wr_buffer w" "wr_config w1 = wr_config w"
    by (simp_all add: w1_def accounted_def add_telemetry_duplicates_def)
  show ?thesis
  proof (cases "hist = []")
    case True
    then have "w' = w1" using assms(3) d by (simp add: do_flush_def w1_def)
    with w1 True len show ?thesis by simp
  next
    case False
    obtain a b w2 where b: "batch_insert hist cur w1 = Some ((a, b), w2)"
        and w': "w' = upd_metrics (record_telemetry_batch (wr_now w2) (int (length hist)))
          (upd_metrics (add_telemetry_failed (int b)) (upd_metrics (add_telemetry_written (int a)) w2))"
      using assms(3) d False by (auto simp: do_flush_def w1_def Let_def)
    from batch_insert_counts [OF b] w1 len show ?thesis
      by (simp add: w' accounted_def add_telemetry_failed_def add_telemetry_written_def record_telemetry_batch_def)
  qed
qed

lemma length_deduplicated:
  assumes "plain_batch batch" "\<And>xs. mset (ord xs) = mset xs"
    and "deduplicate_and_convert ord batch = (hist, cur, dups)"
  shows "length cur = card (series_key ` set (batch_rows batch))"
    and "length hist = card (point_key ` set (batch_rows batch))"
proof -
  note d = deduplicated [OF assms]
  show "length cur = card (series_key ` set (batch_rows batch))"
    using distinct_card [OF d(3)] d(4) by simp
  have "distinct (map point_key hist)" using distinct_insert_new [of "[]"] d(1) by simp
  then show "length hist = card (point_key ` set (batch_rows batch))"
    using distinct_card keys_insert_new [of "[]" "batch_rows batch"] d(1) by fastforce
qed

text \<open>A series that occurs at two times leaves fewer latest values than history rows.\<close>

lemma repeated_series_shorter:
  assumes "x \<in> R" "y \<in> R" "series_key x = series_key y" "td_ts x \<noteq> td_ts y" "finite R"
  shows "card (series_key ` R) < card (point_key ` R)"
proof -
  let ?g = "\<lambda>(d, k, t). (d, k)"
  have e: "series_key ` R = ?g ` point_key ` R" by (simp add: image_image point_key_def series_key_def)
  have "?g (point_key x) = ?g (point_key y)" "point_key x \<noteq> point_key y"
    using assms(3,4) by (auto simp: point_key_def series_key_def)
  then have "\<not> inj_on ?g (point_key ` R)" using assms(1,2) by (meson imageI inj_onD)
  then have "card (?g ` point_key ` R) \<noteq> card (point_key ` R)"
    using assms(5) eq_card_imp_inj_on [of "point_key ` R" ?g] by auto
  with e card_image_le [of "point_key ` R" ?g] assms(5) show ?thesis by simp
qed

lemma flush_ok:
  assumes "plain_batch batch" "\<And>xs. mset (ord xs) = mset xs" "\<forall>n. sd_fault (wr_db w) n = None"
  shows "\<exists>w'. do_flush ord batch w = Some w' \<and>
    sd_telemetry (wr_db w') = foldl insert_new (sd_telemetry (wr_db w)) (batch_rows batch) \<and>
    (\<forall>k. k \<notin> series_key ` set (batch_rows batch) \<longrightarrow>
       current_value (sd_current (wr_db w')) k = current_value (sd_current (wr_db w)) k) \<and>
    (\<forall>k \<in> series_key ` set (batch_rows batch).
       \<exists>r \<in> set (batch_rows batch). current_value (sd_current (wr_db w')) k = Some r \<and> series_key r = k \<and>
         (\<forall>x \<in> set (batch_rows batch). series_key x = k \<longrightarrow> td_ts x \<le> td_ts r)) \<and>
    accounted w' = accounted w + int (length (batch_rows batch)) \<and>
    mx_failed (wr_metrics w') = mx_failed (wr_metrics w) \<and> sd_fault (wr_db w') = sd_fault (wr_db w)"
proof -
  let ?rs = "batch_rows batch"
  obtain hist cur dups where d: "deduplicate_and_convert ord batch = (hist, cur, dups)" by (metis prod_cases3)
  note dd = deduplicated [OF assms(1,2) d]
  define w1 where "w1 = (if 0 < dups then upd_metrics (add_telemetry_duplicates (int dups)) w else w)"
  have w1: "wr_db w1 = wr_db w" "mx_failed (wr_metrics w1) = mx_failed (wr_metrics w)"
    by (simp_all add: w1_def add_telemetry_duplicates_def)
  define db where "db = upsert_current cur (insert_history hist ((wr_db w)\<lparr>sd_ops := sd_ops (wr_db w) + 3\<rparr>))"
  have b: "batch_insert hist cur w1 = Some ((length hist, 0), set_wr_db db w1)"
    using transaction_ok [of "wr_db w" hist cur] assms(3) by (simp add: batch_insert_def w1 db_def)
  obtain w' where w': "do_flush ord batch w = Some w'" by (cases "hist = []") (simp_all add: do_flush_def d w1_def [symmetric] b)
  have wdb: "wr_db w' = (if hist = [] then wr_db w else db)" and f: "mx_failed (wr_metrics w') = mx_failed (wr_metrics w)"
    using w' d b w1
    by (auto simp: do_flush_def w1_def [symmetric] add_telemetry_failed_def add_telemetry_written_def
        record_telemetry_batch_def split: if_split_asm)
  have "hist = [] \<Longrightarrow> ?rs = [] \<and> cur = []"
    using dd(4) keys_insert_new [of "[]" ?rs] unfolding dd(1) by simp
  with wdb have tab: "sd_telemetry (wr_db w') = foldl insert_new (sd_telemetry (wr_db w)) hist"
      "sd_current (wr_db w') = foldl upsert (sd_current (wr_db w)) cur"
    by (auto simp: db_def upsert_current_def insert_history_def)
  have hist: "sd_telemetry (wr_db w') = foldl insert_new (sd_telemetry (wr_db w)) ?rs"
    unfolding tab(1) dd(1) by (rule insert_deduplicated)
  have dc: "distinct (map series_key (rev cur))" using dd(3) by (simp flip: rev_map)
  have cv: "current_value (sd_current (wr_db w')) k =
      (case find (\<lambda>r. series_key r = k) (rev cur) of
         None \<Rightarrow> current_value (sd_current (wr_db w)) k | Some r \<Rightarrow> Some r)" for k
    unfolding tab(2) by (rule current_value_upserts)
  have none: "current_value (sd_current (wr_db w')) k = current_value (sd_current (wr_db w)) k"
    if "k \<notin> series_key ` set ?rs" for k
  proof -
    have "find (\<lambda>r. series_key r = k) (rev cur) = None" using that dd(4) by (simp add: find_keyed_None)
    then show ?thesis using cv by simp
  qed
  have some: "\<exists>r \<in> set ?rs. current_value (sd_current (wr_db w')) k = Some r \<and> series_key r = k \<and>
      (\<forall>x \<in> set ?rs. series_key x = k \<longrightarrow> td_ts x \<le> td_ts r)" if k: "k \<in> series_key ` set ?rs" for k
  proof -
    obtain r where r: "r \<in> set cur" "series_key r = k" using k dd(4) by (metis imageE)
    then have "find (\<lambda>r. series_key r = k) (rev cur) = Some r" using find_distinct_key [OF dc] by simp
    then have c: "current_value (sd_current (wr_db w')) k = Some r" using cv by simp
    have rh: "r \<in> set hist" and max: "\<And>x. x \<in> set hist \<Longrightarrow> series_key x = k \<Longrightarrow> td_ts x \<le> td_ts r"
      using dd(5) [OF r(1)] r(2) by auto
    have "r \<in> set ?rs" using rh dd(1) foldl_insert_new_subset [of "[]" ?rs] by auto
    moreover have "td_ts x \<le> td_ts r" if x: "x \<in> set ?rs" "series_key x = k" for x
    proof -
      have "point_key x \<in> point_key ` set hist" using x(1) keys_insert_new [of "[]" ?rs] unfolding dd(1) by simp
      then obtain y where y: "y \<in> set hist" "point_key y = point_key x" by force
      then have "series_key y = k" "td_ts y = td_ts x" using x(2) by (auto simp: point_key_def series_key_def)
      with max [OF y(1)] show ?thesis by simp
    qed
    ultimately show ?thesis using c r(2) by blast
  qed
  have "sd_fault (wr_db w') = sd_fault (wr_db w)"
    using wdb by (auto simp: db_def upsert_current_def insert_history_def)
  then show ?thesis
    using w' hist none some f do_flush_counts [OF assms(1,2) w'] by blast
qed

section \<open>Properties\<close>

text \<open>C27: What a flush of a batch writes. Without database errors it returns; the history table
  receives the points exactly as if each were inserted alone in order, the first of a device, key
  and time winning (so deduplicating in memory is transparent), the latest-value table gets for
  every series of the batch its point with the greatest time in the batch, whatever it held before,
  and keeps the others; every point is counted once, as written or as duplicate.\<close>
theorem flush_writes_batch:
  assumes "plain_batch batch" "\<And>xs. mset (ord xs) = mset xs" "\<forall>n. sd_fault (wr_db w) n = None"
  shows "\<exists>w'. do_flush ord batch w = Some w' \<and>
    sd_telemetry (wr_db w') = foldl insert_new (sd_telemetry (wr_db w)) (batch_rows batch) \<and>
    (\<forall>k. k \<notin> series_key ` set (batch_rows batch) \<longrightarrow>
       current_value (sd_current (wr_db w')) k = current_value (sd_current (wr_db w)) k) \<and>
    (\<forall>k \<in> series_key ` set (batch_rows batch).
       \<exists>r \<in> set (batch_rows batch). current_value (sd_current (wr_db w')) k = Some r \<and> series_key r = k \<and>
         (\<forall>x \<in> set (batch_rows batch). series_key x = k \<longrightarrow> td_ts x \<le> td_ts r)) \<and>
    accounted w' = accounted w + int (length (batch_rows batch)) \<and>
    mx_failed (wr_metrics w') = mx_failed (wr_metrics w)"
  using flush_ok [OF assms] by blast

definition demo_item :: "int \<Rightarrow> data_point list \<Rightarrow> tel_item" where
  "demo_item t ps = \<lparr>ti_device_id = ''d1'', ti_tenant_id = ''t1'', ti_timestamp = t, ti_points = ps\<rparr>"

definition demo_writer :: "sdb \<Rightarrow> writer" where
  "demo_writer db = \<lparr>wr_config = storage_default_config, wr_store = new_store db, wr_buffer = [],
     wr_diag = new_collector, wr_now = 9\<rparr>"

theorem flush_writes_batch_witness:
  "\<exists>w'. do_flush id [demo_item 5 [(''a'', JNum ''1''), (''a'', JNum ''2'')], demo_item 3 [(''a'', JNum ''3'')]]
        (demo_writer empty_sdb) = Some w' \<and>
     map td_number_v (sd_telemetry (wr_db w')) = [Some ''1'', Some ''3''] \<and> accounted w' = 3"
proof -
  let ?b = "[demo_item 5 [(''a'', JNum ''1''), (''a'', JNum ''2'')], demo_item 3 [(''a'', JNum ''3'')]]"
  have "plain_batch ?b" by (simp add: plain_batch_def demo_item_def)
  moreover have "\<forall>n. sd_fault (wr_db (demo_writer empty_sdb)) n = None"
    by (simp add: wr_db_def demo_writer_def new_store_def empty_sdb_def)
  ultimately obtain w' where "do_flush id ?b (demo_writer empty_sdb) = Some w'"
      "sd_telemetry (wr_db w') = foldl insert_new (sd_telemetry (wr_db (demo_writer empty_sdb))) (batch_rows ?b)"
      "accounted w' = accounted (demo_writer empty_sdb) + int (length (batch_rows ?b))"
    using flush_writes_batch [of ?b id "demo_writer empty_sdb"] by auto
  then show ?thesis
    by (simp add: wr_db_def demo_writer_def new_store_def empty_sdb_def batch_rows_def row_of_def demo_item_def
        insert_new_def point_key_def accounted_def wr_metrics_def new_metrics_def)
qed

text \<open>The fallback panics on a batch that holds one series at two times. When the transaction of
  the whole batch fails and the database answers again afterwards, writing such a batch point by
  point runs past the end of the latest values and the flush panics; it never does on a batch that
  holds each series at one time only, whatever the database answers.\<close>
theorem fallback_index_panics:
  assumes "plain_batch batch" "\<And>xs. mset (ord xs) = mset xs"
  shows "((\<exists>x \<in> set (batch_rows batch). \<exists>y \<in> set (batch_rows batch).
        series_key x = series_key y \<and> td_ts x \<noteq> td_ts y) \<and>
      sd_fault (wr_db w) (sd_ops (wr_db w)) \<noteq> None \<and> (\<forall>n > sd_ops (wr_db w). sd_fault (wr_db w) n = None)
        \<longrightarrow> do_flush ord batch w = None) \<and>
    (do_flush ord batch w = None \<longrightarrow> (\<exists>x \<in> set (batch_rows batch). \<exists>y \<in> set (batch_rows batch).
        series_key x = series_key y \<and> td_ts x \<noteq> td_ts y))"
proof -
  let ?R = "set (batch_rows batch)"
  obtain hist cur dups where d: "deduplicate_and_convert ord batch = (hist, cur, dups)" by (metis prod_cases3)
  note len = length_deduplicated [OF assms d]
  define w1 where "w1 = (if 0 < dups then upd_metrics (add_telemetry_duplicates (int dups)) w else w)"
  have w1: "wr_db w1 = wr_db w" by (simp add: w1_def)
  have flush: "do_flush ord batch w = None \<longleftrightarrow> hist \<noteq> [] \<and> batch_insert hist cur w1 = None"
    by (simp add: do_flush_def d w1_def)
  have "do_flush ord batch w = None"
    if rep: "x \<in> ?R" "y \<in> ?R" "series_key x = series_key y" "td_ts x \<noteq> td_ts y"
      and f: "sd_fault (wr_db w) (sd_ops (wr_db w)) = Some e" "\<forall>n > sd_ops (wr_db w). sd_fault (wr_db w) n = None" for x y e
  proof -
    have short: "length cur < length hist"
      using repeated_series_shorter [OF rep] len by simp
    have "batch_insert hist cur w1 = None"
      using transaction_first_fails [OF f(1), of "insert_history hist" "[upsert_current cur]"] short f(2)
      by (simp add: batch_insert_def w1 fallback_insert_def fallback_panics)
    then show ?thesis using short unfolding flush by auto
  qed
  moreover have "\<exists>x \<in> ?R. \<exists>y \<in> ?R. series_key x = series_key y \<and> td_ts x \<noteq> td_ts y"
    if none: "do_flush ord batch w = None"
  proof (rule ccontr)
    assume n: "\<not> ?thesis"
    have "inj_on (\<lambda>(d, k, t). (d, k)) (point_key ` ?R)"
    proof (rule inj_onI)
      fix p q assume "p \<in> point_key ` ?R" "q \<in> point_key ` ?R"
        and e: "(\<lambda>(d, k, t). (d, k)) p = (\<lambda>(d, k, t). (d, k)) q"
      then obtain x y where xy: "x \<in> ?R" "p = point_key x" "y \<in> ?R" "q = point_key y" by blast
      then have k: "series_key x = series_key y" using e by (simp add: point_key_def series_key_def)
      with n xy have "td_ts x = td_ts y" by blast
      with k xy show "p = q" by (simp add: point_key_def series_key_def)
    qed
    then have "card (point_key ` ?R) = card ((\<lambda>(d, k, t). (d, k)) ` point_key ` ?R)"
      by (rule card_image [symmetric])
    then have "0 + length hist \<le> length cur"
      using len by (simp add: image_image point_key_def series_key_def)
    then have "\<exists>r. batch_insert hist cur w1 = Some r"
      using fallback_returns by (auto simp: batch_insert_def fallback_insert_def split: prod.split option.split)
    then show False using none unfolding flush by auto
  qed
  ultimately show ?thesis by blast
qed

theorem fallback_index_panics_witness:
  "do_flush id [demo_item 5 [(''a'', JNum ''1'')], demo_item 3 [(''a'', JNum ''3'')]]
     (demo_writer (empty_sdb\<lparr>sd_fault := (\<lambda>n. if n = 0 then Some (Errorf ''timeout'') else None)\<rparr>)) = None"
proof -
  let ?b = "[demo_item 5 [(''a'', JNum ''1'')], demo_item 3 [(''a'', JNum ''3'')]]"
  have "plain_batch ?b" by (simp add: plain_batch_def demo_item_def)
  moreover have "\<exists>x \<in> set (batch_rows ?b). \<exists>y \<in> set (batch_rows ?b). series_key x = series_key y \<and> td_ts x \<noteq> td_ts y"
    by (simp add: batch_rows_def row_of_def demo_item_def series_key_def)
  ultimately show ?thesis
    using fallback_index_panics [of ?b id] by (simp add: wr_db_def demo_writer_def new_store_def empty_sdb_def)
qed

end
