(* ===== verification/StorageService.thy ===== *)
theory StorageService
  imports TelemetryWriter Channels
begin

text \<open>
  \<open>internal/storage/storage.go\<close>, and the \<open>start\<close>, \<open>run\<close> and \<open>stop\<close> of \<open>telemetry_writer.go\<close>: two
  goroutines, the main loop that handles messages and the writer's loop that flushes on a timer,
  share the buffer. \<open>sv_accepted\<close> lists the items the buffer ever received. A flush takes the whole buffer under the mutex and writes it outside, so each
  loop has at most one batch it took and has not written. Context cancellation is not modelled.
\<close>

section \<open>The service\<close>

record service =
  sv_writer :: writer
  sv_input :: "storage_message chan"
  sv_main_batch :: "tel_item list option"
  sv_tick_batch :: "tel_item list option"
  sv_main_running :: bool
  sv_ticker_running :: bool
  sv_stop :: bool
  sv_writer_stop :: bool
  sv_panicked :: bool
  sv_accepted :: "tel_item list"

text \<open>\<open>New\<close> and \<open>Start\<close>: the writer's loop runs only with a positive flush interval.\<close>

definition storage_new :: "sconfig \<Rightarrow> sdb \<Rightarrow> collector \<Rightarrow> int \<Rightarrow> writer option" where
  "storage_new c db diag now = new_writer c \<lparr>st_metrics = new_metrics, st_db = db\<rparr> diag now"

definition storage_start :: "writer \<Rightarrow> storage_message chan option \<Rightarrow> gerror + service" where
  "storage_start w input = (case input of
      None \<Rightarrow> Inl (Errorf ''input channel is nil'')
    | Some c \<Rightarrow> Inr \<lparr>sv_writer = w, sv_input = c, sv_main_batch = None, sv_tick_batch = None,
        sv_main_running = True, sv_ticker_running = (0 < get_flush_duration (wr_config w)),
        sv_stop = False, sv_writer_stop = False, sv_panicked = False, sv_accepted = []\<rparr>)"

text \<open>\<open>handleMessage\<close>, up to the batch that is to be flushed (telemetry over the batch size).\<close>

definition handle_storage_message :: "storage_message \<Rightarrow> writer \<Rightarrow> tel_item list option \<times> writer" where
  "handle_storage_message m w =
     (if sm_data_type m = DataTypeTelemetry then
        (case write_append m (upd_metrics inc_telemetry_received w) of (err, should_flush, w') \<Rightarrow>
           if should_flush then (Some (wr_buffer w'), w'\<lparr>wr_buffer := []\<rparr>) else (None, w'))
      else if sm_data_type m = DataTypeAttribute then
        (None, w\<lparr>wr_store := snd (write_attribute m (wr_store w))\<rparr>)
      else if sm_data_type m = DataTypeEvent then
        (None, w\<lparr>wr_store := snd (write_event m (wr_store w))\<rparr>)
      else (None, w))"

definition accepted_items :: "storage_message \<Rightarrow> tel_item list" where
  "accepted_items m =
     (if sm_data_type m = DataTypeTelemetry
      then (case telemetry_points (sm_data m) of Inl _ \<Rightarrow> [] | Inr ps \<Rightarrow> [item_of m ps]) else [])"

definition finish_batch :: "writer option \<Rightarrow> (writer \<Rightarrow> service \<Rightarrow> service) \<Rightarrow> service \<Rightarrow> service" where
  "finish_batch r f s = (case r of None \<Rightarrow> s\<lparr>sv_panicked := True\<rparr> | Some w \<Rightarrow> f w s)"

section \<open>The two loops\<close>

text \<open>\<open>s_stop\<close> and \<open>s_writer_stop\<close> are the two halves of \<open>Stop\<close>: it closes the stop channel of the main
  loop, waits for the loop or a timeout, and then closes the one of the writer. The timer may
  still fire until its loop has seen the stop.\<close>

inductive service_step :: "(telemetry_row list \<Rightarrow> telemetry_row list) \<Rightarrow> service \<Rightarrow> service \<Rightarrow> bool" for ord where
  s_arrive: "\<not> sv_panicked s \<Longrightarrow> ch_send m (sv_input s) = Sent c \<Longrightarrow>
    service_step ord s (s\<lparr>sv_input := c\<rparr>)"
| s_handle: "\<not> sv_panicked s \<Longrightarrow> sv_main_running s \<Longrightarrow> sv_main_batch s = None \<Longrightarrow>
    ch_recv (sv_input s) = Received m c \<Longrightarrow> handle_storage_message m (sv_writer s) = (b, w) \<Longrightarrow>
    service_step ord s (s\<lparr>sv_input := c, sv_writer := w, sv_main_batch := b,
      sv_accepted := sv_accepted s @ accepted_items m\<rparr>)"
| s_main_flush: "\<not> sv_panicked s \<Longrightarrow> sv_main_batch s = Some b \<Longrightarrow>
    service_step ord s (finish_batch (do_flush ord b (sv_writer s))
      (\<lambda>w s. s\<lparr>sv_writer := w, sv_main_batch := None\<rparr>) s)"
| s_tick: "\<not> sv_panicked s \<Longrightarrow> sv_ticker_running s \<Longrightarrow> sv_tick_batch s = None \<Longrightarrow>
    wr_buffer (sv_writer s) \<noteq> [] \<Longrightarrow>
    service_step ord s (s\<lparr>sv_tick_batch := Some (wr_buffer (sv_writer s)),
      sv_writer := (sv_writer s)\<lparr>wr_buffer := []\<rparr>\<rparr>)"
| s_tick_flush: "\<not> sv_panicked s \<Longrightarrow> sv_tick_batch s = Some b \<Longrightarrow>
    service_step ord s (finish_batch (do_flush ord b (sv_writer s))
      (\<lambda>w s. s\<lparr>sv_writer := w, sv_tick_batch := None\<rparr>) s)"
| s_stop: "\<not> sv_panicked s \<Longrightarrow> service_step ord s (s\<lparr>sv_stop := True\<rparr>)"
| s_main_returns: "\<not> sv_panicked s \<Longrightarrow> sv_main_running s \<Longrightarrow> sv_main_batch s = None \<Longrightarrow>
    sv_stop s \<or> ch_recv (sv_input s) = RecvClosed \<Longrightarrow>
    service_step ord s (s\<lparr>sv_main_running := False\<rparr>)"
| s_writer_stop: "\<not> sv_panicked s \<Longrightarrow> sv_stop s \<Longrightarrow> service_step ord s (s\<lparr>sv_writer_stop := True\<rparr>)"
| s_writer_returns: "\<not> sv_panicked s \<Longrightarrow> sv_writer_stop s \<Longrightarrow> sv_ticker_running s \<Longrightarrow>
    sv_tick_batch s = None \<Longrightarrow>
    service_step ord s (s\<lparr>sv_ticker_running := False,
      sv_tick_batch := (if wr_buffer (sv_writer s) = [] then None else Some (wr_buffer (sv_writer s))),
      sv_writer := (sv_writer s)\<lparr>wr_buffer := []\<rparr>\<rparr>)"

inductive_cases service_stepE: "service_step ord s s'"

inductive service_reach :: "(telemetry_row list \<Rightarrow> telemetry_row list) \<Rightarrow> service \<Rightarrow> service \<Rightarrow> bool" for ord s where
  service_refl: "service_reach ord s s"
| service_next: "service_reach ord s s' \<Longrightarrow> service_step ord s' s'' \<Longrightarrow> service_reach ord s s''"

section \<open>Lemmas\<close>

definition opt_items :: "tel_item list option \<Rightarrow> tel_item list" where
  "opt_items b = (case b of None \<Rightarrow> [] | Some items \<Rightarrow> items)"

definition pending :: "service \<Rightarrow> tel_item list" where
  "pending s = opt_items (sv_main_batch s) @ opt_items (sv_tick_batch s) @ wr_buffer (sv_writer s)"

lemma opt_items_simps [simp]: "opt_items None = []" "opt_items (Some b) = b"
  by (simp_all add: opt_items_def)

lemma batch_rows_simps [simp]: "batch_rows [] = []" "batch_rows (a @ b) = batch_rows a @ batch_rows b"
  by (simp_all add: batch_rows_def)

lemma plain_batch_simps [simp]: "plain_batch []" "plain_batch (a @ b) \<longleftrightarrow> plain_batch a \<and> plain_batch b"
  by (auto simp: plain_batch_def)

lemma accounted_store_simps [simp]:
  "accounted (w\<lparr>wr_buffer := b\<rparr>) = accounted w" "accounted (upd_metrics inc_telemetry_received w) = accounted w"
  by (simp_all add: accounted_def inc_telemetry_received_def)

lemma create_tables:
  "create (upsert_attribute r) db = (e, db') \<Longrightarrow> sd_telemetry db' = sd_telemetry db \<and> sd_fault db' = sd_fault db"
  "create (insert_event r') db = (e, db') \<Longrightarrow> sd_telemetry db' = sd_telemetry db \<and> sd_fault db' = sd_fault db"
  by (auto simp: create_def next_op_def upsert_attribute_def insert_event_def split: option.split_asm)

text \<open>Attributes and events touch neither the telemetry counters nor its table.\<close>

definition telemetry_view :: "store \<Rightarrow> (int \<times> int \<times> int) \<times> telemetry_row list \<times> (nat \<Rightarrow> gerror option)" where
  "telemetry_view st = ((mx_written (st_metrics st), mx_failed (st_metrics st), mx_duplicates (st_metrics st)),
     sd_telemetry (st_db st), sd_fault (st_db st))"

lemma attribute_step_view: "telemetry_view (attribute_point_step m st p) = telemetry_view st"
proof -
  obtain e db where c: "create (upsert_attribute (attribute_row_of (sd_uuid (st_db st) (sd_uuids (st_db st))) m p))
      ((st_db st)\<lparr>sd_uuids := sd_uuids (st_db st) + 1\<rparr>) = (e, db)" by force
  from create_tables(1) [OF c] c show ?thesis
    by (cases e) (simp_all add: attribute_point_step_def insert_attribute_def new_uuid_def telemetry_view_def
        with_metrics_def inc_attribute_failed_def inc_attribute_written_def)
qed

lemma write_attribute_view: "telemetry_view (snd (write_attribute m st)) = telemetry_view st"
proof -
  have "telemetry_view (foldl (attribute_point_step m) st ps) = telemetry_view st" for ps
    by (induction ps arbitrary: st) (simp_all add: attribute_step_view)
  then show ?thesis by (simp add: write_attribute_def split: sum.split)
qed

lemma write_event_data_view: "telemetry_view (snd (write_event_data r st)) = telemetry_view st"
proof -
  obtain e db where c: "create (insert_event r) (st_db st) = (e, db)" by force
  from create_tables(2) [OF c] c show ?thesis
    by (cases e) (simp_all add: write_event_data_def telemetry_view_def with_metrics_def
        inc_event_failed_def inc_event_written_def)
qed

lemma write_event_view: "telemetry_view (snd (write_event m st)) = telemetry_view st"
  using write_event_data_view
  by (auto simp: write_event_def new_uuid_def telemetry_view_def split: storage_data.split)

lemma view_writer:
  "telemetry_view (wr_store w') = telemetry_view (wr_store w) \<Longrightarrow>
   accounted w' = accounted w \<and> sd_telemetry (wr_db w') = sd_telemetry (wr_db w) \<and> sd_fault (wr_db w') = sd_fault (wr_db w)"
  by (simp add: telemetry_view_def accounted_def wr_metrics_def wr_db_def)

text \<open>What handling one message does to the buffer and to what is counted.\<close>

lemma handle_message_effect:
  assumes "handle_storage_message m w = (b, w')"
  shows "opt_items b @ wr_buffer w' = wr_buffer w @ accepted_items m \<and> accounted w' = accounted w \<and>
    sd_telemetry (wr_db w') = sd_telemetry (wr_db w) \<and> sd_fault (wr_db w') = sd_fault (wr_db w)"
proof -
  consider "sm_data_type m = DataTypeTelemetry" | "sm_data_type m = DataTypeAttribute"
    | "sm_data_type m = DataTypeEvent"
    | "sm_data_type m \<notin> {DataTypeTelemetry, DataTypeAttribute, DataTypeEvent}" by blast
  then show ?thesis
  proof cases
    case 1
    have a: "accounted (upd_metrics inc_telemetry_received w) = accounted w" by simp
    show ?thesis
    proof (cases "telemetry_points (sm_data m)")
      case (Inl e)
      with 1 assms show ?thesis by (auto simp: handle_storage_message_def write_append_def accepted_items_def)
    next
      case (Inr ps)
      let ?w = "(upd_metrics inc_telemetry_received w)\<lparr>wr_buffer := wr_buffer w @ [item_of m ps]\<rparr>"
      have "(b, w') = (Some (wr_buffer ?w), ?w\<lparr>wr_buffer := []\<rparr>) \<or> (b, w') = (None, ?w)"
        using 1 Inr assms
        by (simp add: handle_storage_message_def write_append_def Let_def split: if_split_asm)
      then show ?thesis using 1 Inr a by (auto simp: accepted_items_def)
    qed
  next
    case 2
    then have "b = None" "w' = w\<lparr>wr_store := snd (write_attribute m (wr_store w))\<rparr>"
      using assms by (simp_all add: handle_storage_message_def data_types)
    then show ?thesis using 2 view_writer [of w' w] write_attribute_view [of m "wr_store w"]
      by (simp add: accepted_items_def data_types)
  next
    case 3
    then have "b = None" "w' = w\<lparr>wr_store := snd (write_event m (wr_store w))\<rparr>"
      using assms by (simp_all add: handle_storage_message_def data_types)
    then show ?thesis using 3 view_writer [of w' w] write_event_view [of m "wr_store w"]
      by (simp add: accepted_items_def data_types)
  next
    case 4
    then show ?thesis using assms by (auto simp: handle_storage_message_def accepted_items_def)
  qed
qed

text \<open>The invariant of the running service: every accepted point is counted or pending.\<close>

definition conserved :: "service \<Rightarrow> bool" where
  "conserved s \<longleftrightarrow> mset (pending s) \<subseteq># mset (sv_accepted s) \<and>
     accounted (sv_writer s) + int (length (batch_rows (pending s))) = int (length (batch_rows (sv_accepted s)))"

lemma length_batch_rows: "length (batch_rows b) = sum_list (map (\<lambda>it. length (ti_points it)) b)"
  by (simp add: batch_rows_def length_concat comp_def)

lemma length_batch_rows_mset: "mset a = mset b \<Longrightarrow> length (batch_rows a) = length (batch_rows b)"
  unfolding length_batch_rows by (metis mset_map sum_mset_sum_list)

lemma plain_pending: "conserved s \<Longrightarrow> plain_batch (sv_accepted s) \<Longrightarrow> plain_batch (pending s)"
  by (auto simp: conserved_def plain_batch_def dest!: set_mset_mono)

lemma mset_subset_eq_add_drop: "a + b \<subseteq># c \<Longrightarrow> b \<subseteq># (c :: 'a multiset)"
  using mset_subset_eq_add_right subset_mset.order_trans by blast

lemma mset_subset_eq_mid_drop: "a + (b + d) \<subseteq># c \<Longrightarrow> a + d \<subseteq># (c :: 'a multiset)"
  using mset_subset_eq_add_drop [of b "a + d" c] by (simp add: ac_simps)

lemma accepted_mono: "service_step ord s s' \<Longrightarrow> \<exists>items. sv_accepted s' = sv_accepted s @ items"
  by (erule service_stepE) (auto simp: finish_batch_def split: option.split)

lemma conserved_step:
  assumes step: "service_step ord s s'" and ord: "\<And>xs. mset (ord xs) = mset xs"
    and inv: "conserved s" and plain: "plain_batch (sv_accepted s)" and ok: "\<not> sv_panicked s'"
  shows "conserved s'"
  using step
proof (cases rule: service_step.cases)
  case (s_handle m c b w)
  note e = handle_message_effect [OF s_handle(6)]
  have "mset (pending s') = mset (pending s) + mset (accepted_items m)"
    using e s_handle(4) by (simp add: s_handle(1) pending_def) (metis mset_append union_assoc union_commute)
  then show ?thesis
    using inv e s_handle(4) length_batch_rows_mset [of "pending s'" "pending s @ accepted_items m"]
    by (simp add: conserved_def s_handle(1))
next
  case (s_main_flush b)
  obtain w where w: "do_flush ord b (sv_writer s) = Some w"
    using ok by (auto simp: s_main_flush(1) finish_batch_def split: option.split_asm)
  have "plain_batch b" using plain_pending [OF inv plain] s_main_flush(3) by (simp add: pending_def)
  from do_flush_counts [OF this ord w] show ?thesis
    using inv s_main_flush(3)
    by (auto simp: conserved_def s_main_flush(1) finish_batch_def w pending_def
        dest: mset_subset_eq_add_drop)
next
  case (s_tick_flush b)
  obtain w where w: "do_flush ord b (sv_writer s) = Some w"
    using ok by (auto simp: s_tick_flush(1) finish_batch_def split: option.split_asm)
  have "plain_batch b" using plain_pending [OF inv plain] s_tick_flush(3) by (simp add: pending_def)
  from do_flush_counts [OF this ord w] show ?thesis
    using inv s_tick_flush(3)
    by (auto simp: conserved_def s_tick_flush(1) finish_batch_def w pending_def
        dest: mset_subset_eq_mid_drop)
qed (use inv in \<open>auto simp: conserved_def pending_def\<close>)

lemma reach_not_panicked: "service_reach ord s s' \<Longrightarrow> service_step ord s' s'' \<Longrightarrow> \<not> sv_panicked s'"
  by (erule service_stepE) auto

lemma conserved_reach:
  assumes "\<And>xs. mset (ord xs) = mset xs"
  shows "service_reach ord s0 s \<Longrightarrow> conserved s0 \<Longrightarrow> \<not> sv_panicked s \<Longrightarrow> plain_batch (sv_accepted s) \<Longrightarrow> conserved s"
proof (induction rule: service_reach.induct)
  case (service_next s' s'')
  from accepted_mono [OF service_next(2)] service_next.prems(3) have "plain_batch (sv_accepted s')" by auto
  with service_next reach_not_panicked conserved_step [OF service_next(2) assms] show ?case by blast
qed

lemma conserved_start:
  "storage_new c db diag now = Some w \<Longrightarrow> storage_start w (Some ch) = Inr s \<Longrightarrow> conserved s"
  by (auto simp: storage_new_def new_writer_def storage_start_def conserved_def pending_def accounted_def
      wr_metrics_def new_metrics_def split: if_split_asm)

text \<open>Without database errors, the table holds exactly what was accepted and is no longer pending.\<close>

definition stored :: "telemetry_row list \<Rightarrow> service \<Rightarrow> bool" where
  "stored rows s \<longleftrightarrow> \<not> sv_panicked s \<and> (\<forall>n. sd_fault (wr_db (sv_writer s)) n = None) \<and>
     distinct (map point_key (sd_telemetry (wr_db (sv_writer s)))) \<and>
     set rows \<subseteq> set (sd_telemetry (wr_db (sv_writer s))) \<and>
     set (sd_telemetry (wr_db (sv_writer s))) \<subseteq> set rows \<union> set (batch_rows (sv_accepted s)) \<and>
     point_key ` set (batch_rows (sv_accepted s)) \<subseteq>
       point_key ` set (sd_telemetry (wr_db (sv_writer s))) \<union> point_key ` set (batch_rows (pending s))"

lemma foldl_insert_new_superset: "set rows \<subseteq> set (foldl insert_new rows rs)"
  by (induction rs arbitrary: rows) (force simp: insert_new_def)+

text \<open>Flushing a pending batch \<open>b\<close>.\<close>

lemma flush_table:
  assumes "plain_batch b" "\<And>xs. mset (ord xs) = mset xs" "\<forall>n. sd_fault (wr_db w) n = None"
  obtains w' where "do_flush ord b w = Some w'"
    "sd_telemetry (wr_db w') = foldl insert_new (sd_telemetry (wr_db w)) (batch_rows b)"
    "sd_fault (wr_db w') = sd_fault (wr_db w)"
  using flush_ok [OF assms] by (elim exE conjE) (rule that)

lemma stored_fault: "stored rows s \<Longrightarrow> \<forall>n. sd_fault (wr_db (sv_writer s)) n = None"
  by (simp add: stored_def)

lemma stored_flush:
  assumes "stored rows s" "plain_batch b" "\<And>xs. mset (ord xs) = mset xs"
    and "set b \<subseteq> set (sv_accepted s)" "mset (pending s) = mset b + mset (pending s')"
    and "sv_writer s' = w'" "do_flush ord b (sv_writer s) = Some w'"
    and "sv_accepted s' = sv_accepted s" "\<not> sv_panicked s'"
  shows "stored rows s'"
proof -
  let ?t = "sd_telemetry (wr_db (sv_writer s))"
  obtain w'' where f: "do_flush ord b (sv_writer s) = Some w''"
      "sd_telemetry (wr_db w'') = foldl insert_new ?t (batch_rows b)" "sd_fault (wr_db w'') = sd_fault (wr_db (sv_writer s))"
    using flush_table [OF assms(2,3) stored_fault [OF assms(1)]] .
  then have w: "w'' = w'" using assms(7) by simp
  have rows: "set (batch_rows b) \<subseteq> set (batch_rows (sv_accepted s))"
    using assms(4) by (auto simp: batch_rows_def)
  have "set (pending s) = set b \<union> set (pending s')" using assms(5) by (metis set_mset_mset set_mset_union)
  then have pend: "set (batch_rows (pending s)) = set (batch_rows b) \<union> set (batch_rows (pending s'))"
    by (auto simp: batch_rows_def)
  show ?thesis
    using assms(1,8,9) f(2,3) rows pend foldl_insert_new_subset [of ?t "batch_rows b"]
      foldl_insert_new_superset [of ?t "batch_rows b"] distinct_insert_new [of ?t "batch_rows b"]
    unfolding stored_def assms(6) w by (auto simp: keys_insert_new)
qed

lemma pending_accepted: "conserved s \<Longrightarrow> set (pending s) \<subseteq> set (sv_accepted s)"
  by (auto simp: conserved_def dest!: set_mset_mono)

lemma stored_step:
  assumes step: "service_step ord s s'" and ord: "\<And>xs. mset (ord xs) = mset xs"
    and inv: "conserved s" "stored rows s" and plain: "plain_batch (sv_accepted s)"
  shows "stored rows s'"
  using step
proof (cases rule: service_step.cases)
  case (s_handle m c b w)
  note e = handle_message_effect [OF s_handle(6)]
  have "set (pending s') = set (pending s) \<union> set (accepted_items m)"
    using arg_cong [OF conjunct1 [OF e], of set] s_handle(4) by (auto simp: s_handle(1) pending_def)
  then have "set (batch_rows (pending s')) = set (batch_rows (pending s)) \<union> set (batch_rows (accepted_items m))"
    by (auto simp: batch_rows_def)
  then show ?thesis using inv(2) e by (auto simp: stored_def s_handle(1))
next
  case (s_main_flush b)
  have b: "plain_batch b" "set b \<subseteq> set (sv_accepted s)"
    using plain_pending [OF inv(1) plain] pending_accepted [OF inv(1)] s_main_flush(3) by (auto simp: pending_def)
  obtain w where w: "do_flush ord b (sv_writer s) = Some w"
    using flush_table [OF b(1) ord stored_fault [OF inv(2)]] .
  have "wr_buffer w = wr_buffer (sv_writer s)" using do_flush_counts [OF b(1) ord w] by simp
  then show ?thesis
    using s_main_flush inv(2)
    by (intro stored_flush [OF inv(2) b(1) ord b(2) _ _ w]) (simp_all add: finish_batch_def w pending_def stored_def)
next
  case (s_tick_flush b)
  have b: "plain_batch b" "set b \<subseteq> set (sv_accepted s)"
    using plain_pending [OF inv(1) plain] pending_accepted [OF inv(1)] s_tick_flush(3) by (auto simp: pending_def)
  obtain w where w: "do_flush ord b (sv_writer s) = Some w"
    using flush_table [OF b(1) ord stored_fault [OF inv(2)]] .
  have "wr_buffer w = wr_buffer (sv_writer s)" using do_flush_counts [OF b(1) ord w] by simp
  then show ?thesis
    using s_tick_flush inv(2)
    by (intro stored_flush [OF inv(2) b(1) ord b(2) _ _ w]) (simp_all add: finish_batch_def w pending_def stored_def)
qed (use inv(2) in \<open>auto simp: stored_def pending_def\<close>)

lemma stored_reach:
  assumes "\<And>xs. mset (ord xs) = mset xs"
  shows "service_reach ord s0 s \<Longrightarrow> conserved s0 \<Longrightarrow> stored rows s0 \<Longrightarrow> plain_batch (sv_accepted s) \<Longrightarrow>
    stored rows s \<and> conserved s"
proof (induction rule: service_reach.induct)
  case (service_next s' s'')
  from accepted_mono [OF service_next(2)] service_next.prems(3) have p: "plain_batch (sv_accepted s')" by auto
  with service_next have i: "stored rows s'" "conserved s'" by simp_all
  from stored_step [OF service_next(2) assms i(2,1) p] have st: "stored rows s''" .
  then have "\<not> sv_panicked s''" by (simp add: stored_def)
  with conserved_step [OF service_next(2) assms i(2) p] st show ?case by simp
qed simp

lemma reach_trans: "service_reach ord s s' \<Longrightarrow> service_reach ord r s \<Longrightarrow> service_reach ord r s'"
  by (induction rule: service_reach.induct) (auto intro: service_next)

text \<open>After the main loop has returned nothing enters the buffer.\<close>

definition drained :: "bool \<Rightarrow> writer \<Rightarrow> service \<Rightarrow> bool" where
  "drained ticker w s \<longleftrightarrow> \<not> sv_main_running s \<and> sv_main_batch s = None \<and>
     (if ticker then \<not> sv_ticker_running s \<longrightarrow> wr_buffer (sv_writer s) = []
      else \<not> sv_ticker_running s \<and> sv_tick_batch s = None \<and> sv_writer s = w)"

lemma do_flush_buffer: "do_flush ord b w = Some w' \<Longrightarrow> wr_buffer w' = wr_buffer w"
proof -
  assume f: "do_flush ord b w = Some w'"
  obtain hist cur dups where d: "deduplicate_and_convert ord b = (hist, cur, dups)" by (metis prod_cases3)
  let ?w = "if 0 < dups then upd_metrics (add_telemetry_duplicates (int dups)) w else w"
  have "wr_buffer ?w = wr_buffer w" by simp
  then show ?thesis
    using f d batch_insert_counts [of hist cur ?w]
    by (fastforce simp: do_flush_def Let_def simp del: if_split split: if_split_asm)
qed

lemma drained_step: "service_step ord s s' \<Longrightarrow> drained t w s \<Longrightarrow> drained t w s'"
  by (erule service_stepE)
    (auto simp: drained_def finish_batch_def do_flush_buffer split: if_split_asm option.split)

lemma drained_reach: "service_reach ord s s' \<Longrightarrow> drained t w s \<Longrightarrow> drained t w s'"
  by (induction rule: service_reach.induct) (auto intro: drained_step)

text \<open>The main loop returns only between messages; without an interval there is no second loop.\<close>

definition loops_inv :: "bool \<Rightarrow> service \<Rightarrow> bool" where
  "loops_inv ticker s \<longleftrightarrow> (\<not> sv_main_running s \<longrightarrow> sv_main_batch s = None) \<and>
     (\<not> ticker \<longrightarrow> \<not> sv_ticker_running s \<and> sv_tick_batch s = None)"

lemma loops_inv_step: "service_step ord s s' \<Longrightarrow> loops_inv t s \<Longrightarrow> loops_inv t s'"
  by (erule service_stepE) (auto simp: loops_inv_def finish_batch_def split: option.split)

lemma loops_inv_reach: "service_reach ord s s' \<Longrightarrow> loops_inv t s \<Longrightarrow> loops_inv t s'"
  by (induction rule: service_reach.induct) (auto intro: loops_inv_step)

section \<open>Properties\<close>

text \<open>C7: No telemetry point disappears unnoticed while the service runs. In every state the two
  loops can reach from a fresh start, whatever the database answers, the points counted as written,
  failed or duplicate and the points still waiting in the buffer or in a taken batch add up to the
  points accepted, unless a flush has panicked.\<close>
theorem storage_conserves_points:
  assumes "storage_new c db diag now = Some w" "storage_start w (Some ch) = Inr s0"
    and "\<And>xs. mset (ord xs) = mset xs" "service_reach ord s0 s"
    and "\<not> sv_panicked s" "plain_batch (sv_accepted s)"
  shows "accounted (sv_writer s) + int (length (batch_rows (pending s))) =
    int (length (batch_rows (sv_accepted s)))"
  using conserved_reach [OF assms(3,4) conserved_start [OF assms(1,2)] assms(5,6)]
  by (simp add: conserved_def)

text \<open>C2: The history table stores each accepted point once. While the database answers without
  errors, no flush panics, the table has one row per device, key and time, keeps every row it had,
  gains only rows of accepted points, and has a row for every accepted point that is not pending.\<close>
theorem storage_history_complete:
  assumes "storage_new c db diag now = Some w" "storage_start w (Some ch) = Inr s0"
    and "\<And>xs. mset (ord xs) = mset xs" "service_reach ord s0 s" "plain_batch (sv_accepted s)"
    and "\<forall>n. sd_fault db n = None" "distinct (map point_key (sd_telemetry db))"
  defines "table \<equiv> sd_telemetry (wr_db (sv_writer s))"
  shows "\<not> sv_panicked s \<and> distinct (map point_key table) \<and> set (sd_telemetry db) \<subseteq> set table \<and>
    set table \<subseteq> set (sd_telemetry db) \<union> set (batch_rows (sv_accepted s)) \<and>
    point_key ` set (batch_rows (sv_accepted s)) \<subseteq> point_key ` set table \<union> point_key ` set (batch_rows (pending s))"
proof -
  have "stored (sd_telemetry db) s0"
    using assms(1,2,6,7)
    by (auto simp: stored_def storage_new_def new_writer_def storage_start_def wr_db_def split: if_split_asm)
  from stored_reach [OF assms(3,4) conserved_start [OF assms(1,2)] this assms(5)]
  show ?thesis by (simp add: stored_def table_def)
qed

text \<open>What Stop does to the points still buffered. Once the main loop has returned: with a
  positive flush interval, when the writer's loop has returned nothing is pending any more; with
  none there is no such loop, and from then on, whatever happens, the buffer stays as it was and
  its points never reach the table.\<close>
theorem stop_and_buffered_points:
  assumes "storage_start w (Some ch) = Inr s0" "service_reach ord s0 s1" "\<not> sv_main_running s1"
    and "service_reach ord s1 s2"
  shows "(0 < sc_telemetry_flush_interval (wr_config w) \<and> sv_ticker_running s1 \<and> \<not> sv_ticker_running s2
       \<and> sv_tick_batch s2 = None \<longrightarrow> pending s2 = []) \<and>
    (sc_telemetry_flush_interval (wr_config w) \<le> 0 \<longrightarrow> sv_writer s2 = sv_writer s1 \<and> pending s2 = pending s1)"
proof -
  let ?t = "0 < sc_telemetry_flush_interval (wr_config w)"
  have "loops_inv ?t s0"
    using assms(1) by (auto simp: storage_start_def loops_inv_def get_flush_duration_def split: if_split_asm)
  then have inv: "loops_inv ?t s1" using assms(2) loops_inv_reach by blast
  have mb: "sv_main_batch s1 = None" using inv assms(3) by (simp add: loops_inv_def)
  have a: "drained True (sv_writer s1) s2" if "sv_ticker_running s1"
    using that assms(3) mb by (intro drained_reach [OF assms(4)]) (simp add: drained_def)
  have b: "drained False (sv_writer s1) s2" if "\<not> ?t"
    using that inv assms(3) mb by (intro drained_reach [OF assms(4)]) (simp add: drained_def loops_inv_def)
  show ?thesis
    using a b inv mb by (auto simp: drained_def pending_def loops_inv_def not_less)
qed

section \<open>One message through the service\<close>

definition demo_sconfig :: sconfig where
  "demo_sconfig = \<lparr>sc_channel_buffer_size = 1, sc_telemetry_batch_size = 2, sc_telemetry_flush_interval = 0,
     sc_enable_metrics = True\<rparr>"

definition demo_message :: storage_message where
  "demo_message = \<lparr>sm_device_id = ''d1'', sm_tenant_id = ''t1'', sm_data_type = DataTypeTelemetry,
     sm_timestamp = 5, sm_data = TelemetryPoints [(''a'', JNum ''1'')]\<rparr>"

definition demo_sv_writer :: writer where
  "demo_sv_writer = \<lparr>wr_config = demo_sconfig, wr_store = \<lparr>st_metrics = new_metrics, st_db = empty_sdb\<rparr>,
     wr_buffer = [], wr_diag = new_collector, wr_now = 9\<rparr>"

definition demo_service :: service where
  "demo_service = \<lparr>sv_writer = demo_sv_writer, sv_input = make_chan 1, sv_main_batch = None,
     sv_tick_batch = None, sv_main_running = True, sv_ticker_running = False, sv_stop = False,
     sv_writer_stop = False, sv_panicked = False, sv_accepted = []\<rparr>"

definition demo_buffered :: service where
  "demo_buffered = demo_service\<lparr>
     sv_writer := (upd_metrics inc_telemetry_received demo_sv_writer)\<lparr>wr_buffer := [item_of demo_message [(''a'', JNum ''1'')]]\<rparr>,
     sv_accepted := [item_of demo_message [(''a'', JNum ''1'')]]\<rparr>"

lemma demo_start:
  "storage_new demo_sconfig empty_sdb new_collector 9 = Some demo_sv_writer"
  "storage_start demo_sv_writer (Some (make_chan 1)) = Inr demo_service"
  by (simp_all add: storage_new_def new_writer_def demo_sconfig_def demo_sv_writer_def storage_start_def
      demo_service_def get_flush_duration_def)

lemma demo_service_reach: "service_reach ord demo_service demo_buffered"
proof -
  let ?c = "(make_chan 1)\<lparr>ch_buf := [demo_message]\<rparr>"
  let ?s = "demo_service\<lparr>sv_input := ?c\<rparr>"
  have 1: "service_step ord demo_service ?s"
    by (rule s_arrive) (simp_all add: demo_service_def ch_send_def make_chan_def)
  have h: "handle_storage_message demo_message demo_sv_writer =
      (None, (upd_metrics inc_telemetry_received demo_sv_writer)\<lparr>wr_buffer := [item_of demo_message [(''a'', JNum ''1'')]]\<rparr>)"
    by (simp add: handle_storage_message_def demo_message_def write_append_def telemetry_points_def Let_def)
      (simp add: demo_sv_writer_def demo_sconfig_def)
  have a: "accepted_items demo_message = [item_of demo_message [(''a'', JNum ''1'')]]"
    by (simp add: accepted_items_def demo_message_def telemetry_points_def)
  have "service_step ord ?s (?s\<lparr>sv_input := make_chan 1,
      sv_writer := (upd_metrics inc_telemetry_received demo_sv_writer)\<lparr>wr_buffer := [item_of demo_message [(''a'', JNum ''1'')]]\<rparr>,
      sv_main_batch := None, sv_accepted := sv_accepted ?s @ accepted_items demo_message\<rparr>)"
    by (rule s_handle) (simp_all add: demo_service_def ch_recv_def make_chan_def h)
  then have "service_step ord ?s demo_buffered"
    by (simp add: demo_buffered_def demo_service_def a)
  with 1 show ?thesis using service_refl service_next by metis
qed

lemma demo_buffered_facts:
  "\<not> sv_panicked demo_buffered" "plain_batch (sv_accepted demo_buffered)"
  "length (batch_rows (sv_accepted demo_buffered)) = 1" "sv_main_running demo_buffered"
  "pending demo_buffered = [item_of demo_message [(''a'', JNum ''1'')]]"
  by (simp_all add: demo_buffered_def demo_service_def plain_batch_def item_of_def demo_message_def
      batch_rows_def pending_def)

theorem storage_conserves_points_witness:
  "accounted (sv_writer demo_buffered) + int (length (batch_rows (pending demo_buffered))) = 1"
  using storage_conserves_points [OF demo_start, of id demo_buffered] demo_service_reach demo_buffered_facts by simp

theorem storage_history_complete_witness:
  "set (sd_telemetry (wr_db (sv_writer demo_buffered))) \<subseteq> set (batch_rows (sv_accepted demo_buffered))"
  using storage_history_complete [OF demo_start, of id demo_buffered] demo_service_reach demo_buffered_facts
  by (simp add: empty_sdb_def)

theorem stop_and_buffered_points_witness:
  "\<exists>s. service_reach id demo_service s \<and> \<not> sv_main_running s \<and> sv_writer_stop s \<and>
     pending s = [item_of demo_message [(''a'', JNum ''1'')]]"
proof -
  let ?s1 = "demo_buffered\<lparr>sv_stop := True, sv_main_running := False\<rparr>"
  let ?s2 = "?s1\<lparr>sv_writer_stop := True\<rparr>"
  have "service_step id demo_buffered (demo_buffered\<lparr>sv_stop := True\<rparr>)"
    by (rule s_stop) (rule demo_buffered_facts)
  moreover have "service_step id (demo_buffered\<lparr>sv_stop := True\<rparr>) ?s1"
    using s_main_returns [of "demo_buffered\<lparr>sv_stop := True\<rparr>" id]
    by (simp add: demo_buffered_def demo_service_def)
  ultimately have r1: "service_reach id demo_service ?s1"
    using demo_service_reach service_next by metis
  have "service_step id ?s1 (?s1\<lparr>sv_writer_stop := True\<rparr>)"
    by (rule s_writer_stop) (simp_all add: demo_buffered_facts)
  then have r2: "service_reach id ?s1 ?s2" using service_refl service_next by metis
  have "sc_telemetry_flush_interval (wr_config demo_sv_writer) \<le> 0"
    by (simp add: demo_sv_writer_def demo_sconfig_def)
  then have "pending ?s2 = pending ?s1"
    using stop_and_buffered_points [OF demo_start(2) r1 _ r2] by simp
  moreover have "pending ?s1 = pending demo_buffered" by (simp add: pending_def)
  ultimately show ?thesis
    using reach_trans [OF r2 r1] demo_buffered_facts(5) by (intro exI [of _ ?s2]) simp
qed

end
