(* ===== verification/MqttAdapter.thy ===== *)
theory MqttAdapter
  imports StatusFlow ResponseFlow
begin

text \<open>
  \<open>internal/adapter/mqttadapter\<close> (\<open>topics.go\<close>, \<open>adapter.go\<close>, \<open>publisher.go\<close>, \<open>subscriber.go\<close>) and
  \<open>GetResponsePayload\<close> of \<open>pkg/common\<close>: MQTT messages become messages on the bus and are
  acknowledged; downlink messages get their topic. The MQTT client is outside the repository: a
  publish is an effect, and the outcome of its token is a parameter. A handler works on the shared
  state and the bus; \<open>Publish\<close> may make it wait.
\<close>

section \<open>Topics\<close>

definition topic_of :: "string list \<Rightarrow> string" where
  "topic_of parts = join_with ''/'' parts"

definition build_attribute_response_topic :: "string \<Rightarrow> string \<Rightarrow> string" where
  "build_attribute_response_topic n m = ''devices/attributes/response/'' @ n @ ''/'' @ m"

definition build_event_response_topic :: "string \<Rightarrow> string \<Rightarrow> string" where
  "build_event_response_topic n m = ''devices/event/response/'' @ n @ ''/'' @ m"

definition build_attribute_set_topic :: "string \<Rightarrow> string \<Rightarrow> string" where
  "build_attribute_set_topic n m = ''devices/attributes/set/'' @ n @ ''/'' @ m"

definition build_attribute_get_topic :: "string \<Rightarrow> string" where
  "build_attribute_get_topic n = ''devices/attributes/get/'' @ n"

definition build_command_topic :: "string \<Rightarrow> string \<Rightarrow> string" where
  "build_command_topic n m = ''devices/command/'' @ n @ ''/'' @ m"

definition build_telemetry_control_topic :: "string \<Rightarrow> string" where
  "build_telemetry_control_topic n = ''devices/telemetry/control/'' @ n"

definition build_gateway_attribute_set_topic :: "string \<Rightarrow> string \<Rightarrow> string" where
  "build_gateway_attribute_set_topic n m = ''gateway/attributes/set/'' @ n @ ''/'' @ m"

definition build_gateway_attribute_get_topic :: "string \<Rightarrow> string" where
  "build_gateway_attribute_get_topic n = ''gateway/attributes/get/'' @ n"

definition build_gateway_command_topic :: "string \<Rightarrow> string \<Rightarrow> string" where
  "build_gateway_command_topic n m = ''gateway/command/'' @ n @ ''/'' @ m"

definition build_gateway_telemetry_control_topic :: "string \<Rightarrow> string" where
  "build_gateway_telemetry_control_topic n = ''gateway/telemetry/control/'' @ n"

lemmas topic_defs = build_attribute_response_topic_def build_event_response_topic_def
  build_attribute_set_topic_def build_attribute_get_topic_def build_command_topic_def
  build_telemetry_control_topic_def build_gateway_attribute_set_topic_def
  build_gateway_attribute_get_topic_def build_gateway_command_topic_def
  build_gateway_telemetry_control_topic_def

definition gen_shared_topic :: "bool \<Rightarrow> string \<Rightarrow> string \<Rightarrow> string" where
  "gen_shared_topic enabled group_name topic =
     (if enabled then (if group_name = '''' then ''$share/mygroup/'' else ''$share/'' @ group_name @ ''/'') @ topic
      else topic)"

section \<open>Reading a payload and a topic\<close>

record public_payload =
  pp_device_id :: string
  pp_values :: bytes

definition payload_fields :: "public_payload field_dec list" where
  "payload_fields =
     [(''device_id'', on_field dec_string pp_device_id (\<lambda>v p. p\<lparr>pp_device_id := v\<rparr>)),
      (''values'', on_field dec_bytes pp_values (\<lambda>v p. p\<lparr>pp_values := v\<rparr>))]"

definition verify_payload :: "bytes \<Rightarrow> public_payload res" where
  "verify_payload body =
     (case unmarshal (dec_struct payload_fields) body \<lparr>pp_device_id = '''', pp_values = ''''\<rparr> of
        Inl e \<Rightarrow> Inl (Wrapped ''failed to unmarshal payload: '' e)
      | Inr p \<Rightarrow> if pp_device_id p = '''' then Inl (Errorf ''device_id cannot be empty'')
                 else if pp_values p = '''' then Inl (Errorf ''values cannot be empty'')
                 else Inr p)"

definition detect_message_type :: "string \<Rightarrow> string \<Rightarrow> string" where
  "detect_message_type topic base = (if has_prefix topic ''gateway/'' then ''gateway_'' @ base else base)"

definition parse_attribute_or_event_topic :: "string \<Rightarrow> string res" where
  "parse_attribute_or_event_topic topic =
     (let parts = split_on (CHR ''/'') topic in
      if length parts < 3
      then Inl (Errorf (''invalid topic format: '' @ topic @ '' (expected at least 3 parts)''))
      else if parts ! 2 = '''' then Inl (Errorf (''message_id is empty in topic: '' @ topic))
      else Inr (parts ! 2))"

definition parse_event_method :: "bytes \<Rightarrow> string" where
  "parse_event_method payload =
     (case unmarshal (dec_struct [(''method'', on_field dec_string id (\<lambda>v _. v))]) payload '''' of
        Inl _ \<Rightarrow> '''' | Inr m \<Rightarrow> m)"

definition extract_device_id :: "bytes \<Rightarrow> string" where
  "extract_device_id payload =
     (case unmarshal (dec_struct [(''device_id'', on_field dec_string id (\<lambda>v _. v))]) payload '''' of
        Inl _ \<Rightarrow> '''' | Inr i \<Rightarrow> i)"

definition detect_response_type :: "string \<Rightarrow> string" where
  "detect_response_type topic =
     (if contains_str topic ''command/response'' then
        (if has_prefix topic ''gateway/'' then MessageTypeGatewayCommandResponse else MessageTypeCommandResponse)
      else if contains_str topic ''attributes/set/response'' then
        (if has_prefix topic ''gateway/'' then MessageTypeGatewayAttributeSetResponse
         else MessageTypeAttributeSetResponse)
      else ''unknown_response'')"

section \<open>Answers\<close>

definition get_response_payload :: "int \<Rightarrow> string \<Rightarrow> gerror option \<Rightarrow> bytes" where
  "get_response_payload now meth err = (case err of
      Some e \<Rightarrow> json_print (JObj [(''errcode'', JStr ''000''), (''message'', JStr (error_msg e)),
                  (''result'', json_int 1), (''ts'', json_int (now div 1000))])
    | None \<Rightarrow> json_print (JObj ([(''message'', JStr ''success'')] @
                  (if meth \<noteq> '''' then [(''method'', JStr meth)] else []) @
                  [(''result'', json_int 0), (''ts'', json_int (now div 1000))])))"

definition publish_attribute_response :: "string \<Rightarrow> string \<Rightarrow> gerror option \<Rightarrow> world \<Rightarrow> world" where
  "publish_attribute_response device_number message_id err w =
     (if device_number = '''' \<or> message_id = '''' then w
      else emit (MqttPublish (build_attribute_response_topic device_number message_id) 1
                  (get_response_payload (w_now w) '''' err)) w)"

definition publish_event_response :: "string \<Rightarrow> string \<Rightarrow> string \<Rightarrow> gerror option \<Rightarrow> world \<Rightarrow> world" where
  "publish_event_response device_number message_id meth err w =
     (if device_number = '''' \<or> message_id = '''' then w
      else emit (MqttPublish (build_event_response_topic device_number message_id) 1
                  (get_response_payload (w_now w) meth err)) w)"

section \<open>The handlers\<close>

type_synonym node = "world \<times> bus"

definition msg_bad_format :: string where
  "msg_bad_format = utf8 [230, 182, 136, 230, 129, 175, 230, 160, 188, 229, 188, 143, 233, 148, 153, 232,
     175, 175, 239, 188, 154]"

definition record_bad_payload :: "bytes \<Rightarrow> gerror \<Rightarrow> world \<Rightarrow> world" where
  "record_bad_payload payload e w =
     (let i = extract_device_id payload
      in if i \<noteq> '''' then diag_uplink_failed i StageAdapter (msg_bad_format @ error_msg e) w else w)"

definition uplink_message :: "string \<Rightarrow> device \<Rightarrow> string \<Rightarrow> bytes \<Rightarrow> json gmap \<Rightarrow> int \<Rightarrow> device_message" where
  "uplink_message ty d topic payload extra now =
     \<lparr>msg_type = ty, msg_device_id = dev_id d, msg_tenant_id = dev_tenant_id d, msg_timestamp = now,
      msg_payload = payload,
      msg_metadata = map_puts ([(''device_id'', JStr (dev_id d)), (''topic'', JStr topic),
        (''source_protocol'', JStr ''mqtt'')] @ extra) []\<rparr>"

definition handle_telemetry_message :: "bytes \<Rightarrow> string \<Rightarrow> node \<Rightarrow> node call" where
  "handle_telemetry_message payload topic nd = (case nd of (w, b) \<Rightarrow>
     (case verify_payload payload of
        Inl e \<Rightarrow> Returns (Some e) (record_bad_payload payload e w, b)
      | Inr p \<Rightarrow> (case get_device_cache_by_id (pp_device_id p) w of
          (Inl e, w1) \<Rightarrow> Returns (Some e) (w1, b)
        | (Inr d, w1) \<Rightarrow> (case publish b (uplink_message (detect_message_type topic ''telemetry'') d topic
                              (pp_values p) [] (w_now w1)) of
            Returns err b1 \<Rightarrow> Returns err (w1, b1)
          | Waits \<Rightarrow> Waits
          | Panics \<Rightarrow> Panics))))"

definition topic_message_id :: "string \<Rightarrow> string" where
  "topic_message_id topic = (case parse_attribute_or_event_topic topic of Inl _ \<Rightarrow> '''' | Inr m \<Rightarrow> m)"

definition handle_event_message :: "bytes \<Rightarrow> string \<Rightarrow> node \<Rightarrow> node call" where
  "handle_event_message payload topic nd = (case nd of (w, b) \<Rightarrow>
     let message_id = topic_message_id topic in
     (case verify_payload payload of
        Inl e \<Rightarrow> Returns (Some e)
          (publish_event_response '''' message_id '''' (Some e) (record_bad_payload payload e w), b)
      | Inr p \<Rightarrow>
        let meth = parse_event_method (pp_values p) in
        (case get_device_cache_by_id (pp_device_id p) w of
          (Inl e, w1) \<Rightarrow> Returns (Some e) (publish_event_response '''' message_id meth (Some e) w1, b)
        | (Inr d, w1) \<Rightarrow> (case publish b (uplink_message (detect_message_type topic ''event'') d topic
                              (pp_values p) [] (w_now w1)) of
            Returns err b1 \<Rightarrow>
              Returns err (publish_event_response (dev_device_number d) message_id meth err w1, b1)
          | Waits \<Rightarrow> Waits
          | Panics \<Rightarrow> Panics))))"

definition handle_attribute_message :: "bytes \<Rightarrow> string \<Rightarrow> node \<Rightarrow> node call" where
  "handle_attribute_message payload topic nd = (case nd of (w, b) \<Rightarrow>
     let message_id = topic_message_id topic in
     (case verify_payload payload of
        Inl e \<Rightarrow> Returns (Some e)
          (publish_attribute_response '''' message_id (Some e) (record_bad_payload payload e w), b)
      | Inr p \<Rightarrow> (case get_device_cache_by_id (pp_device_id p) w of
          (Inl e, w1) \<Rightarrow> Returns (Some e) (publish_attribute_response '''' message_id (Some e) w1, b)
        | (Inr d, w1) \<Rightarrow> (case publish b (uplink_message (detect_message_type topic ''attribute'') d topic
                              (pp_values p) [] (w_now w1)) of
            Returns err b1 \<Rightarrow>
              Returns err (publish_attribute_response (dev_device_number d) message_id err w1, b1)
          | Waits \<Rightarrow> Waits
          | Panics \<Rightarrow> Panics))))"

definition handle_status_message :: "bytes \<Rightarrow> string \<Rightarrow> string \<Rightarrow> node \<Rightarrow> node call" where
  "handle_status_message payload topic source nd = (case nd of (w, b) \<Rightarrow>
     let parts = split_on (CHR ''/'') topic in
     if length parts \<noteq> 3
     then Returns (Some (Errorf (''invalid status topic format: '' @ topic @
            '' (expected: devices/status/{device_id})''))) (w, b)
     else (case get_device_cache_by_id (parts ! 2) w of
        (Inl e, w1) \<Rightarrow> Returns (Some e) (w1, b)
      | (Inr d, w1) \<Rightarrow> (case publish b (uplink_message ''status'' d topic payload
                            [(''source'', JStr source)] (w_now w1)) of
          Returns err b1 \<Rightarrow> Returns err (w1, b1)
        | Waits \<Rightarrow> Waits
        | Panics \<Rightarrow> Panics)))"

text \<open>\<open>handleResponseMessage\<close>; every failure is only logged.\<close>

definition handle_response_message :: "bytes \<Rightarrow> string \<Rightarrow> node \<Rightarrow> node call" where
  "handle_response_message payload topic nd = (case nd of (w, b) \<Rightarrow>
     let parts = split_on (CHR ''/'') topic in
     if length parts < 4 then Returns None (w, b)
     else (case verify_payload payload of
        Inl e \<Rightarrow> Returns None (w, b)
      | Inr p \<Rightarrow> (case get_device_cache_by_id (pp_device_id p) w of
          (Inl e, w1) \<Rightarrow> Returns None (w1, b)
        | (Inr d, w1) \<Rightarrow> (case publish b (uplink_message (detect_response_type topic) d topic (pp_values p)
                              [(''message_id'', JStr (last parts))] (w_now w1)) of
            Returns err b1 \<Rightarrow> Returns None (w1, b1)
          | Waits \<Rightarrow> Waits
          | Panics \<Rightarrow> Panics))))"

section \<open>Downlink topics\<close>

datatype publish_outcome = Delivered | PublishTimeout | PublishError gerror

definition downlink_topic :: "string \<Rightarrow> string \<Rightarrow> string \<Rightarrow> string \<Rightarrow> string \<Rightarrow> string option" where
  "downlink_topic device_number ty device_type topic_prefix message_id =
     (let gateway = (topic_prefix = '''' \<and> device_type \<noteq> ''1'') in
      if ty = ''telemetry'' then Some (topic_prefix @
        (if gateway then build_gateway_telemetry_control_topic device_number
         else build_telemetry_control_topic device_number))
      else if ty = ''command'' then Some (topic_prefix @
        (if gateway then build_gateway_command_topic device_number message_id
         else build_command_topic device_number message_id))
      else if ty = ''attribute_set'' then Some (topic_prefix @
        (if gateway then build_gateway_attribute_set_topic device_number message_id
         else build_attribute_set_topic device_number message_id))
      else if ty = ''attribute_get'' then Some (topic_prefix @
        (if gateway then build_gateway_attribute_get_topic device_number
         else build_attribute_get_topic device_number))
      else None)"

definition publish_message :: "(string \<Rightarrow> publish_outcome) \<Rightarrow> string \<Rightarrow> string \<Rightarrow> string \<Rightarrow> string \<Rightarrow> string \<Rightarrow>
    int \<Rightarrow> bytes \<Rightarrow> world \<Rightarrow> gerror option \<times> world" where
  "publish_message mqtt device_number ty device_type topic_prefix message_id qos payload w =
     (case downlink_topic device_number ty device_type topic_prefix message_id of
        None \<Rightarrow> (Some (Errorf (''unknown message type: '' @ ty)), w)
      | Some topic \<Rightarrow>
          let w1 = emit (MqttPublish topic qos payload) w
          in (case mqtt topic of
                Delivered \<Rightarrow> None
              | PublishTimeout \<Rightarrow> Some (Errorf (''mqtt publish timeout: topic='' @ topic))
              | PublishError e \<Rightarrow> Some (Wrapped (''mqtt publish failed: topic='' @ topic @ '', error='') e), w1))"

section \<open>Subscriptions\<close>

text \<open>The three subscription tables: pattern, quality of service, callback. A broker delivers a topic
  to a pattern level by level, \<open>+\<close> standing for any one level.\<close>

datatype mqtt_handler = OnTelemetry | OnAttribute | OnEvent | OnStatus | OnResponse

definition response_subscriptions :: "(string \<times> int \<times> mqtt_handler) list" where
  "response_subscriptions =
     [(''devices/command/response/+'', 1, OnResponse), (''devices/attributes/set/response/+'', 1, OnResponse),
      (''gateway/command/response/+'', 1, OnResponse), (''gateway/attributes/set/response/+'', 1, OnResponse)]"

definition device_subscriptions :: "(string \<times> int \<times> mqtt_handler) list" where
  "device_subscriptions =
     [(''devices/telemetry'', 1, OnTelemetry), (''devices/attributes/+'', 1, OnAttribute),
      (''devices/event/+'', 1, OnEvent), (''devices/status/+'', 1, OnStatus)]"

definition gateway_subscriptions :: "(string \<times> int \<times> mqtt_handler) list" where
  "gateway_subscriptions =
     [(''gateway/telemetry'', 0, OnTelemetry), (''gateway/attributes/+'', 1, OnAttribute),
      (''gateway/event/+'', 1, OnEvent)]"

definition topic_matches :: "string \<Rightarrow> string \<Rightarrow> bool" where
  "topic_matches pat topic =
     list_all2 (\<lambda>p t. p = ''+'' \<or> p = t) (split_on (CHR ''/'') pat) (split_on (CHR ''/'') topic)"

definition ignore_error :: "node call \<Rightarrow> node call" where
  "ignore_error c = (case c of Returns e nd \<Rightarrow> Returns None nd | x \<Rightarrow> x)"

text \<open>The MQTT callbacks, which only log the error of their handler.\<close>

fun on_message :: "mqtt_handler \<Rightarrow> string \<Rightarrow> bytes \<Rightarrow> node \<Rightarrow> node call" where
  "on_message OnTelemetry topic payload nd = ignore_error (handle_telemetry_message payload topic nd)"
| "on_message OnAttribute topic payload nd = ignore_error (handle_attribute_message payload topic nd)"
| "on_message OnEvent topic payload nd = ignore_error (handle_event_message payload topic nd)"
| "on_message OnStatus topic payload nd = ignore_error (handle_status_message payload topic ''status_message'' nd)"
| "on_message OnResponse topic payload nd = handle_response_message payload topic nd"

section \<open>Lemmas\<close>

lemma slash_join: "join_with [CHR ''/''] (p # q # ps) = p @ CHR ''/'' # join_with [CHR ''/''] (q # ps)"
  by simp

lemma no_slash_not_contained: "CHR ''/'' \<notin> set i \<Longrightarrow> CHR ''/'' \<in> set s \<Longrightarrow> \<not> contains_str i s"
  by (auto simp: contains_str_iff)

lemma detect_response_types:
  assumes "CHR ''/'' \<notin> set i"
  shows "detect_response_type (''devices/command/response/'' @ i) = MessageTypeCommandResponse"
    and "detect_response_type (''gateway/command/response/'' @ i) = MessageTypeGatewayCommandResponse"
    and "detect_response_type (''devices/attributes/set/response/'' @ i) = MessageTypeAttributeSetResponse"
    and "detect_response_type (''gateway/attributes/set/response/'' @ i) = MessageTypeGatewayAttributeSetResponse"
  using no_slash_not_contained [OF assms]
  by (simp_all add: detect_response_type_def)

lemma split_response_topics:
  assumes "CHR ''/'' \<notin> set i"
  shows "split_on (CHR ''/'') (''devices/command/response/'' @ i) = [''devices'', ''command'', ''response'', i]"
    and "split_on (CHR ''/'') (''gateway/command/response/'' @ i) = [''gateway'', ''command'', ''response'', i]"
    and "split_on (CHR ''/'') (''devices/attributes/set/response/'' @ i) =
      [''devices'', ''attributes'', ''set'', ''response'', i]"
    and "split_on (CHR ''/'') (''gateway/attributes/set/response/'' @ i) =
      [''gateway'', ''attributes'', ''set'', ''response'', i]"
  using assms by simp_all

lemma route_detected:
  "bus_route (detect_message_type topic ''telemetry'') = Some KTelemetry"
  "bus_route (detect_message_type topic ''attribute'') = Some KAttribute"
  "bus_route (detect_message_type topic ''event'') = Some KEvent"
  by (simp_all add: detect_message_type_def bus_route_def message_types)

lemma publish_room:
  assumes "bus_route (msg_type m) = Some k" "\<not> closed b" "\<not> ch_closed (bus_chan k b)"
    and "length (ch_buf (bus_chan k b)) < ch_cap (bus_chan k b)"
  shows "publish b m = Returns None (set_bus_chan k ((bus_chan k b)\<lparr>ch_buf := ch_buf (bus_chan k b) @ [m]\<rparr>) b)"
  using assms by (simp add: publish_def bus_dispatch_route ch_send_def)

text \<open>The acknowledgement is one a device's own response parser would read as the outcome.\<close>

lemma response_payload_parses:
  assumes "0 \<le> now" "now < 2 ^ 63"
  shows "snd (parse_response (get_response_payload now meth err)) \<longleftrightarrow> err = None"
proof -
  have n: "now div 1000 < 2 ^ 63" "0 \<le> now div 1000" using assms by linarith+
  have d: "dec_int (json_int i) x = Inr i" if "0 \<le> i" "i < 2 ^ 63" for i x
    using that atoi_show_int [of i] by (simp add: json_int_def)
  note ds = d [of 0] d [of 1] d [OF n(2,1)]
  note f = response_fields_def on_field_def fold_eq_def to_upper_def upper_char_def empty_response_def ds
  show ?thesis
  proof (cases err)
    case None
    let ?j = "JObj ([(''message'', JStr ''success'')] @ (if meth \<noteq> '''' then [(''method'', JStr meth)] else []) @
      [(''result'', json_int 0), (''ts'', json_int (now div 1000))])"
    have w: "wf_json ?j" by simp
    have "dec_struct response_fields ?j empty_response = Inr (empty_response\<lparr>rs_message := ''success'',
        rs_method := meth, rs_ts := now div 1000\<rparr>)"
      by (cases "meth = ''''") (simp_all add: f)
    then have "unmarshal (dec_struct response_fields) (json_print ?j) empty_response =
        Inr (empty_response\<lparr>rs_message := ''success'', rs_method := meth, rs_ts := now div 1000\<rparr>)"
      using unmarshal_print [OF w, of "dec_struct response_fields" empty_response] by (rule trans [rotated])
    then show ?thesis
      unfolding parse_response_def get_response_payload_def None option.case by (simp add: empty_response_def)
  next
    case (Some e)
    let ?j = "JObj [(''errcode'', JStr ''000''), (''message'', JStr (error_msg e)), (''result'', json_int 1),
      (''ts'', json_int (now div 1000))]"
    have w: "wf_json ?j" by simp
    have "dec_struct response_fields ?j empty_response = Inr (empty_response\<lparr>rs_errcode := ''000'',
        rs_message := error_msg e, rs_result := 1, rs_ts := now div 1000\<rparr>)"
      by (simp add: f)
    then have "unmarshal (dec_struct response_fields) (json_print ?j) empty_response =
        Inr (empty_response\<lparr>rs_errcode := ''000'', rs_message := error_msg e, rs_result := 1, rs_ts := now div 1000\<rparr>)"
      using unmarshal_print [OF w, of "dec_struct response_fields" empty_response] by (rule trans [rotated])
    then show ?thesis
      unfolding parse_response_def get_response_payload_def Some option.case by simp
  qed
qed

section \<open>Properties\<close>

text \<open>When the platform acknowledges an attribute report. If the handler of an attribute message
  returns, it answered the device exactly when the payload was well formed, the device was found
  and the topic carried a message id (and the device has a number): one publish to the response
  topic of that device and message, whose result field is 0 exactly when the report reached the
  bus. A malformed payload or an unknown device is never answered, although the code calls the
  error response there (with an empty device number, which skips it).\<close>
theorem attribute_acknowledged:
  assumes "handle_attribute_message payload topic (w, b) = Returns err (w', b')"
    and "0 \<le> w_now w" "w_now w < 2 ^ 63"
  shows "(case verify_payload payload of
      Inl e \<Rightarrow> err = Some e \<and> w_effects w' = w_effects w
    | Inr p \<Rightarrow> (case fst (get_device_cache_by_id (pp_device_id p) w) of
        Inl e \<Rightarrow> err = Some e \<and> w_effects w' = w_effects w
      | Inr d \<Rightarrow>
          if dev_device_number d = '''' \<or> topic_message_id topic = '''' then w_effects w' = w_effects w
          else \<exists>answer. (snd (parse_response answer) \<longleftrightarrow> err = None) \<and>
            w_effects w' = w_effects w @ [MqttPublish (''devices/attributes/response/'' @ dev_device_number d
              @ ''/'' @ topic_message_id topic) 1 answer]))"
proof (cases "verify_payload payload")
  case (Inl e)
  have "w_effects (record_bad_payload payload e w) = w_effects w"
    by (simp add: record_bad_payload_def Let_def diag_uplink_failed_def)
  then show ?thesis using assms(1) Inl by (auto simp: handle_attribute_message_def publish_attribute_response_def)
next
  case (Inr p)
  obtain r w1 where g: "get_device_cache_by_id (pp_device_id p) w = (r, w1)" by force
  have eff: "w_effects w1 = w_effects w" "w_now w1 = w_now w"
    using get_device_cache_by_id_frame [of "pp_device_id p" w] g by simp_all
  show ?thesis
  proof (cases r)
    case (Inl e)
    then show ?thesis using assms(1) Inr g eff
      by (auto simp: handle_attribute_message_def publish_attribute_response_def)
  next
    case (Inr d)
    then have "w' = publish_attribute_response (dev_device_number d) (topic_message_id topic) err w1"
      using assms(1) \<open>verify_payload payload = Inr p\<close> g
      by (auto simp: handle_attribute_message_def Let_def split: call.split_asm)
    then show ?thesis
      using \<open>verify_payload payload = Inr p\<close> g Inr eff response_payload_parses [of "w_now w" "''''" err] assms(2,3)
      by (auto simp: publish_attribute_response_def emit_def build_attribute_response_topic_def)
  qed
qed

definition demo_payload :: bytes where
  "demo_payload = json_print (JObj [(''device_id'', JStr ''d1''), (''values'', JStr ''e30='')])"

lemma demo_verify: "verify_payload demo_payload = Inr \<lparr>pp_device_id = ''d1'', pp_values = ''{}''\<rparr>"
proof -
  let ?j = "JObj [(''device_id'', JStr ''d1''), (''values'', JStr ''e30='')]"
  have b: "b64_decode ''e30='' = Some ''{}''" by code_simp
  have w: "wf_json ?j" by simp
  have "dec_struct payload_fields ?j \<lparr>pp_device_id = '''', pp_values = ''''\<rparr> =
      Inr \<lparr>pp_device_id = ''d1'', pp_values = ''{}''\<rparr>"
    by (simp add: payload_fields_def on_field_def fold_eq_def to_upper_def upper_char_def b)
  then show ?thesis
    unfolding verify_payload_def demo_payload_def unmarshal_print [OF w] by simp
qed

lemma demo_device_found: "get_device_cache_by_id ''d1'' demo_world = (Inr demo_device, demo_world\<lparr>w_device_cache := [''d1'' \<mapsto> demo_device]\<rparr>)"
  by (simp add: get_device_cache_by_id_def load_device_def dal_get_device_def demo_world_def empty_world_def
      demo_device_def Let_def)

lemma new_bus_room:
  "bus_route (msg_type m) = Some k \<Longrightarrow>
   publish (new_bus 1) m = Returns None (set_bus_chan k ((bus_chan k (new_bus 1))\<lparr>ch_buf := [m]\<rparr>) (new_bus 1))"
  using publish_room [of m k "new_bus 1"] by (simp add: make_chan_def)

theorem attribute_acknowledged_witness:
  "\<exists>w' b' answer. handle_attribute_message demo_payload ''devices/attributes/7'' (demo_world, new_bus 1) =
       Returns None (w', b') \<and> snd (parse_response answer) \<and>
     w_effects w' = [MqttPublish ''devices/attributes/response/n1/7'' 1 answer]"
proof -
  have i: "topic_message_id ''devices/attributes/7'' = ''7''"
    by (simp add: topic_message_id_def parse_attribute_or_event_topic_def)
  have "bus_route (msg_type (uplink_message (detect_message_type ''devices/attributes/7'' ''attribute'') demo_device t v [] n)) =
      Some KAttribute" for t v n
    by (simp add: uplink_message_def detect_message_type_def bus_route_def message_types)
  from new_bus_room [OF this] obtain w' b' where
    h: "handle_attribute_message demo_payload ''devices/attributes/7'' (demo_world, new_bus 1) = Returns None (w', b')"
    by (simp add: handle_attribute_message_def demo_verify demo_device_found Let_def)
  have "0 \<le> w_now demo_world" "w_now demo_world < 2 ^ 63" "w_effects demo_world = []"
    by (simp_all add: demo_world_def empty_world_def)
  with attribute_acknowledged [OF h] h show ?thesis
    by (auto simp: demo_verify demo_device_found i demo_device_def)
qed



text \<open>C32: The answer to a command finds its log row. On the response topics of commands, for devices
  and gateways, a well-formed answer of a known device, with the bus open and room for it, puts one
  message on the response channel; the response flow, processing it, settles exactly the command
  log rows whose message id is the last level of the topic, and touches no attribute log.\<close>
theorem command_answer_settles_log:
  assumes "verify_payload payload = Inr p" "fst (get_device_cache_by_id (pp_device_id p) w) = Inr d"
    and "CHR ''/'' \<notin> set i" "i \<noteq> ''''" "\<And>q. w_db_fault w q = None"
    and "topic = ''devices/command/response/'' @ i \<or> topic = ''gateway/command/response/'' @ i"
    and "\<not> closed b" "\<not> ch_closed (responseChan b)" "length (ch_buf (responseChan b)) < ch_cap (responseChan b)"
  shows "\<exists>m w1 b1 ok err. handle_response_message payload topic (w, b) = Returns None (w1, b1) \<and>
    ch_buf (responseChan b1) = ch_buf (responseChan b) @ [m] \<and>
    (ok \<longleftrightarrow> (\<exists>r. unmarshal (dec_struct response_fields) (pp_values p) empty_response = Inr r \<and> rs_result r = 0)) \<and>
    w_command_logs (response_process_message m w1) = map (\<lambda>l. if sl_message_id l = Some i
        then l\<lparr>sl_status := Some (if ok then ''3'' else ''4''), sl_error_message := (if ok then None else Some err)\<rparr>
        else l) (w_command_logs w) \<and>
    w_attribute_logs (response_process_message m w1) = w_attribute_logs w"
proof -
  obtain w1 where g: "get_device_cache_by_id (pp_device_id p) w = (Inr d, w1)"
    using assms(2) by (metis prod.collapse)
  have f: "w_db_fault w1 q = None" "w_command_logs w1 = w_command_logs w" "w_attribute_logs w1 = w_attribute_logs w" for q
    using get_device_cache_by_id_frame [of "pp_device_id p" w] assms(5) g
    by (auto simp: get_device_cases dest!: load_device_cases split: if_split_asm)
  let ?m = "uplink_message (detect_response_type topic) d topic (pp_values p) [(''message_id'', JStr i)] (w_now w1)"
  have ty: "msg_type ?m \<in> {MessageTypeCommandResponse, MessageTypeGatewayCommandResponse}"
    using assms(6) detect_response_types(1,2) [OF assms(3)] by (auto simp: uplink_message_def)
  then have route: "bus_route (msg_type ?m) = Some KResponse" by (auto simp: bus_route_def message_types)
  have "length (split_on (CHR ''/'') topic) = 4 \<and> last (split_on (CHR ''/'') topic) = i"
    using assms(6) split_response_topics(1,2) [OF assms(3)] by auto
  then have h: "handle_response_message payload topic (w, b) =
      Returns None (w1, b\<lparr>responseChan := (responseChan b)\<lparr>ch_buf := ch_buf (responseChan b) @ [?m]\<rparr>\<rparr>)"
    using publish_room [OF route assms(7)] assms(8,9) by (simp add: handle_response_message_def assms(1) g Let_def)
  have md: "map_of (msg_metadata ?m) ''message_id'' = Some (JStr i)" "msg_payload ?m = pp_values p"
    by (simp_all add: uplink_message_def)
  from response_settles [OF md(1) assms(4) f(1) f(1) route] ty obtain err where
    "w_command_logs (response_process_message ?m w1) = map (\<lambda>l. if sl_message_id l = Some i
        then l\<lparr>sl_status := Some (if (\<exists>r. unmarshal (dec_struct response_fields) (pp_values p) empty_response = Inr r \<and> rs_result r = 0)
                                   then ''3'' else ''4''),
               sl_error_message := (if (\<exists>r. unmarshal (dec_struct response_fields) (pp_values p) empty_response = Inr r \<and> rs_result r = 0)
                                    then None else Some err)\<rparr>
        else l) (w_command_logs w) \<and>
     w_attribute_logs (response_process_message ?m w1) = w_attribute_logs w"
    unfolding md(2) Let_def f(2,3) by auto
  with h show ?thesis by (intro exI [of _ ?m] exI) (rule conjI, assumption, simp)
qed

theorem command_answer_settles_log_witness:
  "\<exists>m w1 b1. handle_response_message demo_payload ''devices/command/response/m1''
      (demo_log_world, new_bus 1) = Returns None (w1, b1) \<and> ch_buf (responseChan b1) = [m] \<and>
     w_command_logs (response_process_message m w1) =
       [(demo_log ''m1'')\<lparr>sl_status := Some ''3'', sl_error_message := None\<rparr>, demo_log ''m2'']"
proof -
  have g: "fst (get_device_cache_by_id ''d1'' demo_log_world) = Inr demo_device"
    by (simp add: get_device_cache_by_id_def load_device_def dal_get_device_def demo_log_world_def demo_world_def
        empty_world_def demo_device_def Let_def)
  have w: "wf_json (JObj [])" by simp
  have ok: "unmarshal (dec_struct response_fields) ''{}'' empty_response = Inr empty_response"
    using unmarshal_print [OF w, of "dec_struct response_fields" empty_response] by simp
  have "\<exists>r. unmarshal (dec_struct response_fields) ''{}'' empty_response = Inr r \<and> rs_result r = 0"
    by (rule exI [of _ empty_response]) (simp add: ok, simp add: empty_response_def)
  then show ?thesis
    using command_answer_settles_log [OF demo_verify, of demo_log_world demo_device "''m1''"
        "''devices/command/response/m1''" "new_bus 1"] g
    by (auto simp: demo_log_world_def demo_world_def empty_world_def demo_log_def new_bus_def make_chan_def)
qed

text \<open>What the platform publishes does not come back to it, except from a device numbered
  "response". For a device number and message id without a slash, a downlink topic of the MQTT
  protocol matches one of the platform's own subscriptions if and only if the device number is the
  word response and the message is a command or an attribute set: then the platform would take its
  own command for the answer to it. The topics of the acknowledgements never match.\<close>
theorem downlink_topics_loop:
  assumes "CHR ''/'' \<notin> set n" "CHR ''/'' \<notin> set i" "downlink_topic n ty device_type '''' i = Some topic"
  shows "((\<exists>(pat, q, h) \<in> set (response_subscriptions @ device_subscriptions @ gateway_subscriptions).
      topic_matches pat topic) \<longleftrightarrow> n = ''response'' \<and> (ty = ''command'' \<or> ty = ''attribute_set'')) \<and>
    \<not> (\<exists>(pat, q, h) \<in> set (response_subscriptions @ device_subscriptions @ gateway_subscriptions).
      topic_matches pat (build_attribute_response_topic n i) \<or> topic_matches pat (build_event_response_topic n i))"
proof -
  have sp: "split_on (CHR ''/'') (n @ ''/'' @ i) = [n, i]" "split_on (CHR ''/'') n = [n]"
    using split_on_append [OF assms(1), of i] assms(1,2) by simp_all
  note m = topic_matches_def response_subscriptions_def device_subscriptions_def gateway_subscriptions_def topic_defs
  have ack: "\<not> (\<exists>(pat, q, h) \<in> set (response_subscriptions @ device_subscriptions @ gateway_subscriptions).
      topic_matches pat (build_attribute_response_topic n i) \<or> topic_matches pat (build_event_response_topic n i))"
    using sp by (simp add: m)
  show ?thesis
    using assms(3) sp ack unfolding downlink_topic_def Let_def
    by (auto simp: m split: if_split_asm)
qed

theorem downlink_topics_loop_witness:
  "\<exists>(pat, q, h) \<in> set (response_subscriptions @ device_subscriptions @ gateway_subscriptions).
     topic_matches pat ''devices/command/response/m1''"
  using downlink_topics_loop [of "''response''" "''m1''" "''command''" "''1''" "''devices/command/response/m1''"]
  by (simp add: downlink_topic_def build_command_topic_def)

end
