(* ===== verification/Downlink.thy ===== *)
theory Downlink
  imports MqttAdapter
begin

text \<open>
  \<open>internal/downlink\<close>: the bus of messages to devices, its loops, and the handler that encodes a
  message with the script of the device's configuration, publishes it and records the outcome in
  the log the message belongs to.
\<close>

section \<open>Messages and the bus\<close>

record dl_message =
  dm_device_id :: string
  dm_device_number :: string
  dm_device_type :: string
  dm_device_config_id :: string
  dm_type :: string
  dm_data :: bytes
  dm_topic :: string
  dm_topic_prefix :: string
  dm_message_id :: string

datatype dl_kind = DCommand | DAttributeSet | DAttributeGet | DTelemetry

record dl_bus =
  db_chan :: "dl_kind \<Rightarrow> dl_message option chan"
  db_buffer_size :: nat

definition new_dl_bus :: "nat \<Rightarrow> dl_bus" where
  "new_dl_bus n = \<lparr>db_chan = (\<lambda>_. make_chan n), db_buffer_size = n\<rparr>"

text \<open>\<open>PublishCommand\<close> and its three siblings: a blocking send.\<close>

definition dl_publish :: "dl_kind \<Rightarrow> dl_message option \<Rightarrow> dl_bus \<Rightarrow> dl_bus call" where
  "dl_publish k m b = (case ch_send m (db_chan b k) of
      Sent c \<Rightarrow> Returns None (b\<lparr>db_chan := (db_chan b)(k := c)\<rparr>)
    | SendFull \<Rightarrow> Waits
    | SendPanic \<Rightarrow> Panics)"

definition dl_close :: "dl_bus \<Rightarrow> dl_bus" where
  "dl_close b = b\<lparr>db_chan := (\<lambda>k. ch_close (db_chan b k))\<rparr>"

definition dl_data_type :: "dl_kind \<Rightarrow> string" where
  "dl_data_type k = (case k of DCommand \<Rightarrow> ''command'' | DAttributeSet \<Rightarrow> ''attribute_set''
     | DAttributeGet \<Rightarrow> ''attribute_set'' | DTelemetry \<Rightarrow> ''telemetry_control'')"

section \<open>Logs\<close>

definition find_log :: "string \<Rightarrow> string \<Rightarrow> set_log list \<Rightarrow> set_log option" where
  "find_log message_id device_id rows =
     find (\<lambda>l. sl_message_id l = Some message_id \<and> sl_device_id l = device_id) rows"

definition save_log :: "set_log \<Rightarrow> set_log list \<Rightarrow> set_log list" where
  "save_log l rows = map (\<lambda>x. if sl_id x = sl_id l then l else x) rows"

definition mark_log :: "string \<Rightarrow> string \<Rightarrow> set_log \<Rightarrow> set_log" where
  "mark_log status err l =
     l\<lparr>sl_status := Some status, sl_error_message := (if err \<noteq> '''' then Some err else sl_error_message l)\<rparr>"

text \<open>Read the row, mark it, save it; an error of either statement is only logged.\<close>

definition update_found :: "set_log option \<Rightarrow> string \<Rightarrow> string \<Rightarrow> string \<Rightarrow> world \<Rightarrow> set_log list \<Rightarrow> set_log list" where
  "update_found found status err table w rows =
     (case w_db_fault w (table @ ''.first'') of
        Some _ \<Rightarrow> rows
      | None \<Rightarrow> (case found of
          None \<Rightarrow> rows
        | Some l \<Rightarrow> (case w_db_fault w (table @ ''.save'') of
            Some _ \<Rightarrow> rows | None \<Rightarrow> save_log (mark_log status err l) rows)))"

definition update_log_status :: "string \<Rightarrow> string \<Rightarrow> string \<Rightarrow> string \<Rightarrow> string \<Rightarrow> world \<Rightarrow> world" where
  "update_log_status message_id device_id status err ty w =
     (if message_id = '''' \<or> device_id = '''' then w
      else if ty = ''command'' then
        w\<lparr>w_command_logs := update_found (find_log message_id device_id (w_command_logs w)) status err
             ''command_set_logs'' w (w_command_logs w)\<rparr>
      else if ty = ''attribute_set'' then
        w\<lparr>w_attribute_logs := update_found (find_log message_id device_id (w_attribute_logs w)) status err
             ''attribute_set_logs'' w (w_attribute_logs w)\<rparr>
      else if ty = ''telemetry'' then
        w\<lparr>w_telemetry_logs := update_found (find (\<lambda>l. sl_id l = message_id) (w_telemetry_logs w)) status err
             ''telemetry_set_logs'' w (w_telemetry_logs w)\<rparr>
      else w)"

section \<open>The handler\<close>

text \<open>The publisher is nil or the MQTT adapter.\<close>

definition dl_publish_message :: "(string \<Rightarrow> publish_outcome) option \<Rightarrow> dl_message \<Rightarrow> bytes \<Rightarrow> world \<Rightarrow>
    gerror option \<times> world" where
  "dl_publish_message publisher m payload w = (case publisher of
      None \<Rightarrow> (Some (Errorf ''message publisher not initialized''), w)
    | Some mqtt \<Rightarrow> publish_message mqtt (dm_device_number m) (dm_type m) (dm_device_type m)
        (dm_topic_prefix m) (dm_message_id m) 1 payload w)"

definition msg_encode_failed :: string where
  "msg_encode_failed = utf8 [231, 188, 150, 231, 160, 129, 229, 164, 177, 232, 180, 165, 239, 188, 154]"

definition msg_script_failed :: string where
  "msg_script_failed = utf8 [232, 132, 154, 230, 156, 172, 230, 137, 167, 232, 161, 140, 229, 164, 177,
     232, 180, 165]"

definition msg_publish_failed :: string where
  "msg_publish_failed = ''MQTT'' @ utf8 [229, 143, 145, 229, 184, 131, 229, 164, 177, 232, 180, 165, 239,
     188, 154]"

definition downlink_failed :: "dl_message \<Rightarrow> string \<Rightarrow> string \<Rightarrow> world \<Rightarrow> world" where
  "downlink_failed m stage err w =
     (if dm_device_id m \<noteq> '''' then diag_downlink_failed (dm_device_id m) stage err w else w)"

definition fail_log :: "dl_message \<Rightarrow> string \<Rightarrow> world \<Rightarrow> world" where
  "fail_log m err w = update_log_status (dm_message_id m) (dm_device_id m) ''2'' err (dm_type m) w"

text \<open>\<open>%v\<close> of an error that may be nil.\<close>

definition show_error :: "gerror option \<Rightarrow> string" where
  "show_error e = (case e of None \<Rightarrow> ''<nil>'' | Some x \<Rightarrow> error_msg x)"

text \<open>Step 2: the bytes to send, or nothing when the failure is recorded; \<open>None\<close> outside is a panic.\<close>

definition dl_encode :: "lua_vm \<Rightarrow> string \<Rightarrow> dl_message \<Rightarrow> world \<Rightarrow> (bytes option \<times> world) option" where
  "dl_encode vm ty m w =
     (if dm_device_config_id m = '''' then Some (Some (dm_data m), w)
      else (case encode vm \<lparr>ei_device_config_id = dm_device_config_id m, ei_type = ty,
                  ei_data = dm_data m, ei_timestamp = w_now w\<rparr> w of
          None \<Rightarrow> None
        | Some ((out, Some e), w1) \<Rightarrow>
            Some (None, fail_log m (''encode failed: '' @ error_msg e)
              (downlink_failed m StageEncode (msg_encode_failed @ error_msg e) w1))
        | Some ((out, None), w1) \<Rightarrow>
            if \<not> eo_success out
            then Some (None, fail_log m (''script execution failed: '' @ show_error (eo_error out))
                   (downlink_failed m StageEncode (case eo_error out of
                        None \<Rightarrow> msg_script_failed
                      | Some e \<Rightarrow> msg_script_failed @ full_colon @ error_msg e) w1))
            else Some (Some (eo_encoded_data out), w1)))"

definition dl_handle :: "lua_vm \<Rightarrow> (string \<Rightarrow> publish_outcome) option \<Rightarrow> dl_kind \<Rightarrow> dl_message option \<Rightarrow>
    world \<Rightarrow> world option" where
  "dl_handle vm publisher k msg w = (case msg of
      None \<Rightarrow> Some w
    | Some m \<Rightarrow>
        let w1 = (if dm_device_id m \<noteq> '''' then diag_downlink_total (dm_device_id m) w else w) in
        if dm_device_number m = '''' \<or> dm_data m = '''' then
          Some (if dm_message_id m \<noteq> '''' then fail_log m ''invalid message parameters'' w1 else w1)
        else (case dl_encode vm (dl_data_type k) m w1 of
            None \<Rightarrow> None
          | Some (None, w2) \<Rightarrow> Some w2
          | Some (Some payload, w2) \<Rightarrow> (case dl_publish_message publisher m payload w2 of
              (Some e, w3) \<Rightarrow> Some (fail_log m (''publish failed: '' @ error_msg e)
                  (downlink_failed m StagePublish (msg_publish_failed @ error_msg e) w3))
            | (None, w3) \<Rightarrow> Some (update_log_status (dm_message_id m) (dm_device_id m) ''1'' '''' (dm_type m) w3))))"

section \<open>The loops\<close>

text \<open>One loop per channel. It returns only when its context is cancelled; a nil message (a closed
  channel gives one) is ignored. \<open>Close\<close> returns when all four have returned.\<close>

record dl_service =
  dv_bus :: dl_bus
  dv_world :: world
  dv_cancelled :: bool
  dv_returned :: "dl_kind \<Rightarrow> bool"
  dv_closed :: bool
  dv_panicked :: bool

inductive dl_step :: "lua_vm \<Rightarrow> (string \<Rightarrow> publish_outcome) option \<Rightarrow> dl_service \<Rightarrow> dl_service \<Rightarrow> bool" for vm pub where
  dl_done: "\<not> dv_returned s k \<Longrightarrow> dv_cancelled s \<Longrightarrow>
    dl_step vm pub s (s\<lparr>dv_returned := (dv_returned s)(k := True)\<rparr>)"
| dl_receive: "\<not> dv_returned s k \<Longrightarrow> ch_recv (db_chan (dv_bus s) k) = Received m c \<Longrightarrow>
    dl_handle vm pub k m (dv_world s) = Some w \<Longrightarrow>
    dl_step vm pub s (s\<lparr>dv_bus := (dv_bus s)\<lparr>db_chan := (db_chan (dv_bus s))(k := c)\<rparr>, dv_world := w\<rparr>)"
| dl_panic: "\<not> dv_returned s k \<Longrightarrow> ch_recv (db_chan (dv_bus s) k) = Received m c \<Longrightarrow>
    dl_handle vm pub k m (dv_world s) = None \<Longrightarrow> dl_step vm pub s (s\<lparr>dv_panicked := True\<rparr>)"
| dl_nil: "\<not> dv_returned s k \<Longrightarrow> ch_recv (db_chan (dv_bus s) k) = RecvClosed \<Longrightarrow> dl_step vm pub s s"
| dl_cancel: "dl_step vm pub s (s\<lparr>dv_cancelled := True\<rparr>)"
| dl_close: "\<not> dv_closed s \<Longrightarrow> dl_step vm pub s (s\<lparr>dv_bus := dl_close (dv_bus s), dv_closed := True\<rparr>)"

definition close_returns :: "dl_service \<Rightarrow> bool" where
  "close_returns s \<longleftrightarrow> dv_closed s \<and> (\<forall>k \<in> {DCommand, DAttributeSet, DAttributeGet, DTelemetry}. dv_returned s k)"

section \<open>Lemmas\<close>

text \<open>What encoding a message leaves alone.\<close>

definition logs_view where
  "logs_view w = (w_command_logs w, w_attribute_logs w, w_telemetry_logs w, w_effects w, w_db_fault w)"

lemma set_to_cache_view: "logs_view (snd (set_to_cache k s w)) = logs_view w"
  by (simp add: set_to_cache_def redis_set_def logs_view_def split: option.split)

lemma encode_view: "encode vm i w = Some (r, w') \<Longrightarrow> logs_view w' = logs_view w"
proof -
  have "get_script cfg st w = Some (q, v) \<Longrightarrow> logs_view v = logs_view w" for cfg st q v
    using set_to_cache_view by (auto dest!: get_script_cases)
  then show "encode vm i w = Some (r, w') \<Longrightarrow> logs_view w' = logs_view w"
    by (auto simp: encode_def split: option.split_asm sum.split_asm if_split_asm)
qed

lemma downlink_failed_view [simp]: "logs_view (downlink_failed m st err w) = logs_view w"
  by (simp add: downlink_failed_def diag_downlink_failed_def logs_view_def)

lemma find_save_log:
  assumes "distinct (map sl_id rows)" "find P rows = Some l" "sl_id l' = sl_id l" "P l'"
  shows "find P (save_log l' rows) = Some l'"
  using assms
proof (induction rows)
  case (Cons r rows)
  show ?case
  proof (cases "P r")
    case True
    with Cons.prems show ?thesis by (simp add: save_log_def)
  next
    case False
    then have "find P rows = Some l" using Cons.prems(2) by simp
    moreover from this have "sl_id r \<noteq> sl_id l" using Cons.prems(1) find_Some_iff_mem by fastforce
    ultimately show ?thesis using Cons False by (simp add: save_log_def)
  qed
qed simp

text \<open>The encoding step: bytes with the logs untouched, or a failure in the log.\<close>

lemma dl_encode_cases:
  assumes "dl_encode vm ty m w = Some (r, w')"
  shows "(\<exists>payload. r = Some payload \<and> logs_view w' = logs_view w \<and> (dm_device_config_id m = '''' \<longrightarrow> payload = dm_data m)) \<or>
    (r = None \<and> (\<exists>err v. err \<noteq> '''' \<and> logs_view v = logs_view w \<and> w' = fail_log m err v))"
proof (cases "dm_device_config_id m = ''''")
  case True
  then show ?thesis using assms by (simp add: dl_encode_def)
next
  case False
  let ?i = "\<lparr>ei_device_config_id = dm_device_config_id m, ei_type = ty, ei_data = dm_data m, ei_timestamp = w_now w\<rparr>"
  obtain out e w1 where e: "encode vm ?i w = Some ((out, e), w1)"
    using assms False by (auto simp: dl_encode_def split: option.split_asm)
  note v = encode_view [OF e]
  show ?thesis
  proof (cases e)
    case (Some x)
    then have "r = None" "w' = fail_log m (''encode failed: '' @ error_msg x)
        (downlink_failed m StageEncode (msg_encode_failed @ error_msg x) w1)"
      using assms False e by (simp_all add: dl_encode_def)
    then show ?thesis using v by (intro disjI2 conjI exI) auto
  next
    case None
    show ?thesis
    proof (cases "eo_success out")
      case True
      then show ?thesis using assms False e None v by (auto simp: dl_encode_def)
    next
      case F: False
      define err where "err = (case eo_error out of None \<Rightarrow> msg_script_failed
                      | Some e \<Rightarrow> msg_script_failed @ full_colon @ error_msg e)"
      have "r = None" "w' = fail_log m (''script execution failed: '' @ show_error (eo_error out))
          (downlink_failed m StageEncode err w1)"
        using assms False e None F by (simp_all add: dl_encode_def err_def)
      then show ?thesis using v by (intro disjI2 conjI exI) auto
    qed
  qed
qed

lemma update_log_effects [simp]: "w_effects (update_log_status i d st err ty w) = w_effects w"
  by (simp add: update_log_status_def)

text \<open>Marking the row of a command.\<close>

lemma command_marked:
  assumes "logs_view v = logs_view w" "\<forall>q. w_db_fault w q = None"
    and "i \<noteq> ''''" "d \<noteq> ''''" "find_log i d (w_command_logs w) = Some l"
  shows "w_command_logs (update_log_status i d st err ''command'' v) = save_log (mark_log st err l) (w_command_logs w)"
    and "w_effects (update_log_status i d st err ''command'' v) = w_effects w"
  using assms by (auto simp: update_log_status_def update_found_def logs_view_def)

lemma publish_message_cases:
  assumes "publish_message mqtt n ''command'' dt pre i q payload w = (e, w')"
  shows "\<exists>topic. downlink_topic n ''command'' dt pre i = Some topic \<and> w' = emit (MqttPublish topic q payload) w \<and>
    (e = None \<longleftrightarrow> mqtt topic = Delivered)"
proof -
  obtain topic where "downlink_topic n ''command'' dt pre i = Some topic" by (simp add: downlink_topic_def Let_def)
  then show ?thesis using assms by (auto simp: publish_message_def split: publish_outcome.split_asm)
qed

section \<open>Properties\<close>

text \<open>C9: The log of a command tells what happened to it. Handling a valid command whose log row
  exists, with the database answering, ends with that row marked and no other row changed: as sent,
  with no new error text, exactly when one publish to the command topic of the device went out and
  the broker confirmed it (with the raw data when the device has no configuration); otherwise as
  failed with an error text, and then either nothing was published or the broker did not confirm.\<close>
theorem command_log_truthful:
  assumes "dl_handle vm pub DCommand (Some m) w = Some w'" "dm_type m = ''command''"
    and "dm_device_number m \<noteq> ''''" "dm_data m \<noteq> ''''" "dm_message_id m \<noteq> ''''" "dm_device_id m \<noteq> ''''"
    and "\<forall>q. w_db_fault w q = None"
    and "find_log (dm_message_id m) (dm_device_id m) (w_command_logs w) = Some l"
  shows "\<exists>status err sent. w_command_logs w' = save_log (mark_log status err l) (w_command_logs w) \<and>
    w_effects w' = w_effects w @ sent \<and>
    (status = ''1'' \<and> err = '''' \<and> (\<exists>mqtt topic payload. pub = Some mqtt \<and>
        downlink_topic (dm_device_number m) ''command'' (dm_device_type m) (dm_topic_prefix m) (dm_message_id m) = Some topic \<and>
        sent = [MqttPublish topic 1 payload] \<and> mqtt topic = Delivered \<and>
        (dm_device_config_id m = '''' \<longrightarrow> payload = dm_data m)) \<or>
     status = ''2'' \<and> err \<noteq> '''' \<and> (sent = [] \<or> (\<exists>mqtt topic payload. pub = Some mqtt \<and>
        sent = [MqttPublish topic 1 payload] \<and> mqtt topic \<noteq> Delivered)))"
proof -
  let ?w1 = "if dm_device_id m \<noteq> '''' then diag_downlink_total (dm_device_id m) w else w"
  have v1: "logs_view ?w1 = logs_view w" by (simp add: logs_view_def diag_downlink_total_def)
  note mark = command_marked [OF _ assms(7,5,6,8)]
  obtain r w2 where e: "dl_encode vm ''command'' m ?w1 = Some (r, w2)"
    using assms(1,3,4) by (auto simp: dl_handle_def Let_def dl_data_type_def split: option.split_asm)
  from dl_encode_cases [OF e] show ?thesis
  proof (elim disjE exE conjE)
    fix payload assume p: "r = Some payload" "logs_view w2 = logs_view ?w1" "dm_device_config_id m = '''' \<longrightarrow> payload = dm_data m"
    have v2: "logs_view w2 = logs_view w" using p(2) v1 by simp
    show ?thesis
    proof (cases pub)
      case None
      then have "w' = fail_log m (''publish failed: '' @ error_msg (Errorf ''message publisher not initialized''))
          (downlink_failed m StagePublish (msg_publish_failed @ error_msg (Errorf ''message publisher not initialized'')) w2)"
        using assms(1,3,4) e p by (simp add: dl_handle_def Let_def dl_data_type_def dl_publish_message_def)
      then show ?thesis
        using mark [of "downlink_failed m StagePublish (msg_publish_failed @ error_msg (Errorf ''message publisher not initialized'')) w2"] v2 assms(2)
        by (intro exI [of _ "''2''"] exI [of _ "''publish failed: '' @ error_msg (Errorf ''message publisher not initialized'')"] exI [of _ "[]"])
          (simp add: fail_log_def)
    next
      case (Some mqtt)
      obtain x w3 where x: "publish_message mqtt (dm_device_number m) ''command'' (dm_device_type m) (dm_topic_prefix m)
          (dm_message_id m) 1 payload w2 = (x, w3)" by force
      obtain topic where t: "downlink_topic (dm_device_number m) ''command'' (dm_device_type m) (dm_topic_prefix m) (dm_message_id m) = Some topic"
          "w3 = emit (MqttPublish topic 1 payload) w2" "x = None \<longleftrightarrow> mqtt topic = Delivered"
        using publish_message_cases [OF x] by blast
      let ?w = "w\<lparr>w_effects := w_effects w @ [MqttPublish topic 1 payload]\<rparr>"
      have v3: "logs_view w3 = logs_view ?w" using v2 by (simp add: t(2) logs_view_def emit_def)
      note mark3 = command_marked [of _ ?w, OF _ _ assms(5,6)]
      show ?thesis
      proof (cases x)
        case None
        then have "w' = update_log_status (dm_message_id m) (dm_device_id m) ''1'' '''' ''command'' w3"
          using assms(1-4) e p x Some by (simp add: dl_handle_def Let_def dl_data_type_def dl_publish_message_def)
        then show ?thesis
          using mark3 [OF v3] t None Some p(3) assms(7,8)
          by (intro exI [of _ "''1''"] exI [of _ "''''"] exI [of _ "[MqttPublish topic 1 payload]"]) simp
      next
        case E: (Some y)
        then have "w' = fail_log m (''publish failed: '' @ error_msg y)
            (downlink_failed m StagePublish (msg_publish_failed @ error_msg y) w3)"
          using assms(1-4) e p x Some by (simp add: dl_handle_def Let_def dl_data_type_def dl_publish_message_def)
        then show ?thesis
          using mark3 [of "downlink_failed m StagePublish (msg_publish_failed @ error_msg y) w3"] v3 t E Some assms(2,7,8)
          by (intro exI [of _ "''2''"] exI [of _ "''publish failed: '' @ error_msg y"] exI [of _ "[MqttPublish topic 1 payload]"])
            (auto simp: fail_log_def)
      qed
    qed
  next
    fix err v assume f: "r = None" "err \<noteq> ''''" "logs_view v = logs_view ?w1" "w2 = fail_log m err v"
    have "w' = w2" using assms(1,3,4) e f(1) by (simp add: dl_handle_def Let_def dl_data_type_def)
    then show ?thesis
      using mark [of v] f v1 assms(2) by (intro exI [of _ "''2''"] exI [of _ err] exI [of _ "[]"]) (simp add: fail_log_def)
  qed
qed

definition demo_command :: dl_message where
  "demo_command = \<lparr>dm_device_id = ''d1'', dm_device_number = ''n1'', dm_device_type = ''1'',
     dm_device_config_id = '''', dm_type = ''command'', dm_data = ''{}'', dm_topic = '''', dm_topic_prefix = '''',
     dm_message_id = ''m1''\<rparr>"

theorem command_log_truthful_witness:
  "\<exists>w'. dl_handle demo_vm (Some (\<lambda>_. Delivered)) DCommand (Some demo_command) demo_log_world = Some w' \<and>
     w_effects w' = [MqttPublish ''devices/command/n1/m1'' 1 ''{}''] \<and>
     w_command_logs w' = [(demo_log ''m1'')\<lparr>sl_status := Some ''1''\<rparr>, demo_log ''m2'']"
proof -
  obtain w' where h: "dl_handle demo_vm (Some (\<lambda>_. Delivered)) DCommand (Some demo_command) demo_log_world = Some w'"
      and ne: "w_effects w' \<noteq> []"
    by (simp add: dl_handle_def demo_command_def Let_def dl_encode_def dl_publish_message_def publish_message_def
        downlink_topic_def emit_def)
  have f: "\<forall>q. w_db_fault demo_log_world q = None" "w_effects demo_log_world = []"
      "find_log (dm_message_id demo_command) (dm_device_id demo_command) (w_command_logs demo_log_world) = Some (demo_log ''m1'')"
    by (simp_all add: demo_log_world_def demo_world_def empty_world_def find_log_def demo_command_def demo_log_def)
  have s: "save_log (mark_log ''1'' '''' (demo_log ''m1'')) (w_command_logs demo_log_world) =
      [(demo_log ''m1'')\<lparr>sl_status := Some ''1''\<rparr>, demo_log ''m2'']"
    by (simp add: demo_log_world_def save_log_def mark_log_def demo_log_def)
  have t: "downlink_topic (dm_device_number demo_command) ''command'' (dm_device_type demo_command)
      (dm_topic_prefix demo_command) (dm_message_id demo_command) = Some ''devices/command/n1/m1''"
    by (simp add: downlink_topic_def demo_command_def build_command_topic_def)
  have d: "dm_data demo_command = ''{}''" "dm_device_config_id demo_command = ''''" by (simp_all add: demo_command_def)
  from command_log_truthful [OF h _ _ _ _ _ f(1,3)] h ne show ?thesis
    unfolding t d f(2) by (auto simp: demo_command_def s)
qed

text \<open>A fast answer is overwritten by the mark of the send. Publishing and marking are two steps,
  and the answer of the device is processed by another goroutine. If a successful answer is
  processed after the mark, the row of the command ends as succeeded (3); if it is processed
  between the publish and the mark, the row ends as merely sent (1) and the answer is lost.\<close>
theorem fast_answer_overwritten:
  assumes "find_log i d (w_command_logs w) = Some l" "distinct (map sl_id (w_command_logs w))"
    and "i \<noteq> ''''" "d \<noteq> ''''" "\<forall>q. w_db_fault w q = None"
    and "map_of (msg_metadata a) ''message_id'' = Some (JStr i)" "msg_type a = MessageTypeCommandResponse"
    and "snd (parse_response (msg_payload a))"
  defines "sent \<equiv> update_log_status i d ''1'' '''' ''command''"
  shows "map_option sl_status (find_log i d (w_command_logs (response_process_message a (sent w)))) = Some (Some ''3'') \<and>
    map_option sl_status (find_log i d (w_command_logs (sent (response_process_message a w)))) = Some (Some ''1'')"
proof -
  let ?P = "\<lambda>x. sl_message_id x = Some i \<and> sl_device_id x = d"
  let ?f = "\<lambda>x. x\<lparr>sl_status := Some ''3'', sl_error_message := None\<rparr>"
  have l: "?P l" using assms(1) find_Some_iff_mem unfolding find_log_def by fastforce
  have answer: "response_process_message a v = v\<lparr>w_command_logs := settle_log i True (fst (parse_response (msg_payload a))) (w_command_logs v)\<rparr>"
    if "\<forall>q. w_db_fault v q = None" for v
    using that assms(3,6,7,8) by (simp add: response_process_message_def split_beta update_command_log_def Let_def)
  have settle: "find ?P (settle_log i True e rows) = map_option ?f (find ?P rows)" for e rows
    by (induction rows) (auto simp: settle_log_def)
  have ids: "map sl_id (settle_log i True e rows) = map sl_id rows" for e rows
    by (simp add: settle_log_def)
  have sent: "w_command_logs (sent v) = save_log (mark_log ''1'' '''' x) (w_command_logs v) \<and> (\<forall>q. w_db_fault (sent v) q = None)"
    if "\<forall>q. w_db_fault v q = None" "find ?P (w_command_logs v) = Some x" for v x
    using that assms(3,4) by (simp add: sent_def update_log_status_def update_found_def find_log_def)
  have s1: "find ?P (save_log (mark_log ''1'' '''' x) rows) = Some (mark_log ''1'' '''' x)"
    if "distinct (map sl_id rows)" "find ?P rows = Some x" "?P x" for x rows
    using that by (intro find_save_log) (simp_all add: mark_log_def)
  have a: "find ?P (w_command_logs (response_process_message a (sent w))) = Some (?f (mark_log ''1'' '''' l))"
    using sent [OF assms(5)] answer [of "sent w"] settle s1 [OF assms(2)] assms(1) l by (simp add: find_log_def)
  have "find ?P (w_command_logs (response_process_message a w)) = Some (?f l)"
    using answer [OF assms(5)] settle assms(1) by (simp add: find_log_def)
  moreover have "distinct (map sl_id (w_command_logs (response_process_message a w)))"
    using answer [OF assms(5)] ids assms(2) by simp
  moreover have "\<forall>q. w_db_fault (response_process_message a w) q = None" using answer [OF assms(5)] assms(5) by simp
  ultimately have "find ?P (w_command_logs (sent (response_process_message a w))) = Some (mark_log ''1'' '''' (?f l))"
    using sent [of "response_process_message a w" "?f l"] s1 l by simp
  with a show ?thesis by (simp add: find_log_def mark_log_def)
qed

theorem fast_answer_overwritten_witness:
  "map_option sl_status (find_log ''m1'' ''d1'' (w_command_logs (update_log_status ''m1'' ''d1'' ''1'' '''' ''command''
     (response_process_message (demo_response ''{}'') demo_log_world)))) = Some (Some ''1'')"
proof -
  have w: "wf_json (JObj [])" by simp
  have "unmarshal (dec_struct response_fields) ''{}'' empty_response = Inr empty_response"
    using unmarshal_print [OF w, of "dec_struct response_fields" empty_response] by simp
  then have "snd (parse_response (msg_payload (demo_response ''{}'')))"
    by (simp add: parse_response_def demo_response_def empty_response_def)
  then show ?thesis
    using fast_answer_overwritten [of "''m1''" "''d1''" demo_log_world "demo_log ''m1''" "demo_response ''{}''"]
    by (simp add: find_log_def demo_log_world_def demo_world_def empty_world_def demo_log_def demo_response_def)
qed

end
