(* ===== verification/GoFloat.thy ===== *)
theory GoFloat
  imports GoText Complex_Main
begin

text \<open>
  Go's \<open>float64\<close> as far as the automation compares numbers: a finite value is the rational it
  stands for (the two zeros are not told apart), \<open>strconv.ParseFloat\<close> with decimal, hexadecimal and
  special forms, rounding to 53 bits with ties to even, subtraction, and the comparisons.
\<close>

section \<open>Rounding\<close>

datatype f64 = NaN | Inf bool | Fin rat

definition pow2 :: "int \<Rightarrow> rat" where
  "pow2 k = (if 0 \<le> k then 2 ^ nat k else 1 / 2 ^ nat (- k))"

function bit_count :: "int \<Rightarrow> int" where
  "bit_count n = (if n \<le> 0 then 0 else 1 + bit_count (n div 2))"
  by auto

termination bit_count
  by (relation "measure nat") auto

declare bit_count.simps [simp del]

text \<open>The exponent of the highest bit of a positive rational.\<close>

definition floor_log2 :: "rat \<Rightarrow> int" where
  "floor_log2 x = (case quotient_of x of (n, d) \<Rightarrow>
     let k = bit_count n - bit_count d
     in if pow2 k \<le> x then k else k - 1)"

definition round_even :: "rat \<Rightarrow> int" where
  "round_even x =
     (let f = \<lfloor>x\<rfloor>; r = x - of_int f
      in if r < 1 / 2 then f else if 1 / 2 < r then f + 1 else if even f then f else f + 1)"

definition round64 :: "rat \<Rightarrow> f64" where
  "round64 x =
     (if x = 0 then Fin 0
      else let u = pow2 (max (floor_log2 \<bar>x\<bar> - 52) (- 1074));
               v = of_int (round_even (\<bar>x\<bar> / u)) * u
           in if pow2 1024 \<le> v then Inf (x < 0) else Fin (if x < 0 then - v else v))"

section \<open>Arithmetic and comparisons\<close>

fun f_less :: "f64 \<Rightarrow> f64 \<Rightarrow> bool" where
  "f_less (Fin a) (Fin b) = (a < b)"
| "f_less (Inf a) (Inf b) = (a \<and> \<not> b)"
| "f_less (Inf a) (Fin _) = a"
| "f_less (Fin _) (Inf b) = (\<not> b)"
| "f_less _ _ = False"

fun f_le :: "f64 \<Rightarrow> f64 \<Rightarrow> bool" where
  "f_le (Fin a) (Fin b) = (a \<le> b)"
| "f_le (Inf a) (Inf b) = (a \<or> \<not> b)"
| "f_le (Inf a) (Fin _) = a"
| "f_le (Fin _) (Inf b) = (\<not> b)"
| "f_le _ _ = False"

fun f_minus :: "f64 \<Rightarrow> f64 \<Rightarrow> f64" where
  "f_minus (Fin a) (Fin b) = round64 (a - b)"
| "f_minus (Inf a) (Inf b) = (if a = b then NaN else Inf a)"
| "f_minus (Inf a) (Fin _) = Inf a"
| "f_minus (Fin _) (Inf b) = Inf (\<not> b)"
| "f_minus _ _ = NaN"

fun f_abs :: "f64 \<Rightarrow> f64" where
  "f_abs (Fin a) = Fin \<bar>a\<bar>"
| "f_abs (Inf _) = Inf False"
| "f_abs NaN = NaN"

text \<open>\<open>float64Equal\<close>: nearer than the \<open>float64\<close> constant \<open>1e-9\<close>.\<close>

definition float64_equal :: "f64 \<Rightarrow> f64 \<Rightarrow> bool" where
  "float64_equal a b = f_less (f_abs (f_minus a b)) (round64 (1 / 10 ^ 9))"

section \<open>Parsing\<close>

definition lower_char :: "char \<Rightarrow> char" where
  "lower_char c = (let n = of_char c in if 65 \<le> n \<and> n \<le> (90::nat) then char_of (n + 32) else c)"

definition is_hex_letter :: "char \<Rightarrow> bool" where
  "is_hex_letter c = (let n = of_char (lower_char c) in 97 \<le> n \<and> n \<le> (102::nat))"

definition mant_digit :: "bool \<Rightarrow> char \<Rightarrow> bool" where
  "mant_digit hex c = (is_digit c \<or> hex \<and> is_hex_letter c)"

definition mant_val :: "char \<Rightarrow> int" where
  "mant_val c = (if is_digit c then int (digit_val c) else of_char (lower_char c) - 87)"

text \<open>The mantissa loop: value of the digits, digits after the point, whether a point and whether
  a digit was seen.\<close>

fun mantissa :: "bool \<Rightarrow> string \<Rightarrow> int \<Rightarrow> int \<Rightarrow> bool \<Rightarrow> bool \<Rightarrow> int \<times> int \<times> bool \<times> string" where
  "mantissa hex [] m f dot dig = (m, f, dig, [])"
| "mantissa hex (c # s) m f dot dig =
     (if c = CHR ''_'' then mantissa hex s m f dot dig
      else if c = CHR ''.'' then (if dot then (m, f, dig, c # s) else mantissa hex s m f True dig)
      else if mant_digit hex c
      then mantissa hex s (m * (if hex then 16 else 10) + mant_val c) (if dot then f + 1 else f) dot True
      else (m, f, dig, c # s))"

text \<open>The digits of an exponent, which stops growing at 10000.\<close>

fun exp_digits :: "string \<Rightarrow> int \<Rightarrow> int \<times> string" where
  "exp_digits [] e = (e, [])"
| "exp_digits (c # s) e =
     (if c = CHR ''_'' then exp_digits s e
      else if is_digit c then exp_digits s (if e < 10000 then e * 10 + int (digit_val c) else e)
      else (e, c # s))"

definition exponent :: "string \<Rightarrow> (int \<times> string) option" where
  "exponent s =
     (let neg = (s \<noteq> [] \<and> hd s = CHR ''-'');
          d = (if s \<noteq> [] \<and> (hd s = CHR ''-'' \<or> hd s = CHR ''+'') then tl s else s)
      in if d = [] \<or> \<not> is_digit (hd d) then None
         else case exp_digits d 0 of (e, r) \<Rightarrow> Some (if neg then - e else e, r))"

text \<open>\<open>underscoreOK\<close>: an underscore stands between digits or after the base prefix.\<close>

fun underscores :: "bool \<Rightarrow> char \<Rightarrow> string \<Rightarrow> bool" where
  "underscores hex saw [] = (saw \<noteq> CHR ''_'')"
| "underscores hex saw (c # s) =
     (if mant_digit hex c then underscores hex (CHR ''0'') s
      else if c = CHR ''_'' then saw = CHR ''0'' \<and> underscores hex (CHR ''_'') s
      else saw \<noteq> CHR ''_'' \<and> underscores hex (CHR ''!'') s)"

definition unsign :: "string \<Rightarrow> bool \<times> string" where
  "unsign s = (case s of [] \<Rightarrow> (False, [])
     | c # t \<Rightarrow> if c = CHR ''-'' then (True, t) else if c = CHR ''+'' then (False, t) else (False, s))"

definition scale :: "bool \<Rightarrow> int \<Rightarrow> int \<Rightarrow> int \<Rightarrow> rat" where
  "scale hex m f e =
     (if hex then of_int m * pow2 (e - 4 * f)
      else let k = e - f in if 0 \<le> k then of_int m * 10 ^ nat k else of_int m / 10 ^ nat (- k))"

definition parse_number :: "string \<Rightarrow> rat option" where
  "parse_number s = (case unsign s of (neg, u) \<Rightarrow>
     let hex = (has_prefix (map lower_char u) ''0x'' \<and> 2 < length u);
         body = (if hex then drop 2 u else u)
     in case mantissa hex body 0 0 False False of (m, f, dig, r) \<Rightarrow>
          let parts = (case r of
                  c # t \<Rightarrow> if lower_char c = (if hex then CHR ''p'' else CHR ''e'') then exponent t
                          else if hex then None else Some (0, r)
                | [] \<Rightarrow> if hex then None else Some (0, []))
          in case parts of
              Some (e, []) \<Rightarrow>
                if dig \<and> (CHR ''_'' \<in> set u \<longrightarrow> underscores hex (if hex then CHR ''0'' else CHR ''^'') body)
                then Some (if neg then - scale hex m f e else scale hex m f e) else None
            | _ \<Rightarrow> None)"

definition parse_special :: "string \<Rightarrow> f64 option" where
  "parse_special s = (case unsign s of (neg, u) \<Rightarrow>
     let v = map lower_char u
     in if v = ''inf'' \<or> v = ''infinity'' then Some (Inf neg)
        else if map lower_char s = ''nan'' then Some NaN else None)"

text \<open>\<open>strconv.ParseFloat(s, 64)\<close>; a value that rounds to an infinity is a range error.\<close>

definition parse_float :: "string \<Rightarrow> f64 option" where
  "parse_float s = (case parse_special s of
      Some v \<Rightarrow> Some v
    | None \<Rightarrow> (case parse_number s of
        None \<Rightarrow> None
      | Some x \<Rightarrow> (case round64 x of Inf _ \<Rightarrow> None | v \<Rightarrow> Some v)))"

text \<open>\<open>strconv.ParseBool\<close>.\<close>

definition parse_bool :: "string \<Rightarrow> bool option" where
  "parse_bool s =
     (if s \<in> {''1'', ''t'', ''T'', ''TRUE'', ''true'', ''True''} then Some True
      else if s \<in> {''0'', ''f'', ''F'', ''FALSE'', ''false'', ''False''} then Some False else None)"

section \<open>Lemmas\<close>

lemma f_le_refl [simp]: "f_le v v \<longleftrightarrow> v \<noteq> NaN"
  by (cases v) auto

lemma f_less_le: "f_less a b \<Longrightarrow> f_le a b"
  by (cases a; cases b) auto

lemma f_le_less: "f_le a b \<longleftrightarrow> f_less a b \<or> a = b \<and> a \<noteq> NaN"
  by (cases a; cases b) auto

lemma f_less_not_le: "a \<noteq> NaN \<Longrightarrow> b \<noteq> NaN \<Longrightarrow> f_less a b \<longleftrightarrow> \<not> f_le b a"
  by (cases a; cases b) auto

lemma f_nan [simp]: "\<not> f_less NaN v" "\<not> f_less v NaN" "\<not> f_le NaN v" "\<not> f_le v NaN"
  by (cases v; simp)+


text \<open>Integers of at most 53 bits are exact.\<close>

declare bit_count.simps [simp del]

lemma bit_count_bounds: "0 < n \<Longrightarrow> 0 < bit_count n \<and> 2 ^ nat (bit_count n - 1) \<le> n \<and> n < 2 ^ nat (bit_count n)"
proof (induction n rule: bit_count.induct)
  case (1 n)
  show ?case
  proof (cases "n = 1")
    case True
    then show ?thesis by (simp add: bit_count.simps)
  next
    case False
    with "1.prems" have h: "0 < n div 2" "\<not> n \<le> 0" by auto
    note ih = "1.IH" [OF h(2,1)]
    have b: "bit_count n = 1 + bit_count (n div 2)" using h(2) by (subst bit_count.simps) simp
    have e: "nat (bit_count n - 1) = Suc (nat (bit_count (n div 2) - 1))"
        "nat (bit_count n) = Suc (nat (bit_count (n div 2)))"
      using conjunct1 [OF ih] b by linarith+
    define x :: int where "x = 2 ^ nat (bit_count (n div 2) - 1)"
    define y :: int where "y = 2 ^ nat (bit_count (n div 2))"
    have "x \<le> n div 2" "n div 2 < y" using ih by (simp_all add: x_def y_def)
    then have "2 * x \<le> n" "n < 2 * y" by linarith+
    then show ?thesis unfolding e power_Suc x_def y_def using ih b by simp
  qed
qed

lemma round_even_int [simp]: "round_even (of_int k) = k"
  by (simp add: round_even_def)

lemma pow2_le_int: "0 \<le> k \<Longrightarrow> pow2 k = of_int (2 ^ nat k)"
  by (simp add: pow2_def)

lemma floor_log2_int:
  assumes "0 < k" shows "floor_log2 (of_int k) = bit_count k - 1"
proof -
  have one: "bit_count 1 = 1" by (simp add: bit_count.simps)
  have "pow2 (bit_count k - 1) \<le> (of_int k :: rat)"
    using bit_count_bounds [OF assms] by (simp add: pow2_le_int del: of_int_power)
  then show ?thesis
    using one by (simp add: floor_log2_def quotient_of_int Let_def)
qed

lemma round64_pos:
  assumes "0 < k" "k < 2 ^ 53" shows "round64 (of_int k) = Fin (of_int k)"
proof -
  let ?b = "bit_count k"
  have b: "0 < ?b" "?b \<le> 53"
  proof -
    show "0 < ?b" using bit_count_bounds [OF assms(1)] by simp
    have "2 ^ nat (?b - 1) < (2 :: int) ^ 53" using bit_count_bounds [OF assms(1)] assms(2) by linarith
    then have "nat (?b - 1) < 53" by (subst (asm) power_strict_increasing_iff) simp_all
    then show "?b \<le> 53" by linarith
  qed
  have u: "pow2 (?b - 1 - 52) = 1 / of_int (2 ^ nat (53 - ?b))"
    using b by (auto simp: pow2_def nat_diff_distrib)
  then have q: "(of_int k :: rat) / pow2 (?b - 1 - 52) = of_int (k * 2 ^ nat (53 - ?b))" by simp
  have lt: "(of_int k :: rat) < pow2 1024"
  proof -
    have "k < 2 ^ 1024" using assms(2) by (rule less_trans) simp
    then have "(of_int k :: rat) < of_int (2 ^ 1024)" by (simp only: of_int_less_iff)
    then show ?thesis by (simp add: pow2_def)
  qed
  have "max (?b - 1 - 52) (- 1074) = ?b - 1 - 52" using b by simp
  moreover have "of_int (round_even (of_int k / pow2 (?b - 1 - 52))) * pow2 (?b - 1 - 52) = (of_int k :: rat)"
    unfolding q round_even_int using u by simp
  ultimately show ?thesis
    using assms(1) lt by (simp add: round64_def floor_log2_int Let_def)
qed

lemma round64_int [simp]:
  assumes "\<bar>k\<bar> < 2 ^ 53" shows "round64 (of_int k) = Fin (of_int k)"
proof (cases "k < 0")
  case True
  have "round64 (of_int (- k)) = Fin (of_int (- k))" using True assms by (intro round64_pos) auto
  with True show ?thesis by (simp add: round64_def Let_def split: if_splits)
next
  case False
  then show ?thesis using assms round64_pos [of k] by (cases "k = 0") (auto simp: round64_def)
qed

end
