(* ===== verification/Conditions.thy ===== *)
theory Conditions
  imports GoFloat JsonDecode
begin

text \<open>
  The comparisons of \<open>internal/service/automate_telemetry.go\<close>: a trigger value against a reported
  or stored value by operator, the field conditions on the parameters of an event, and the
  time-of-week condition. \<open>fl\<close> is how \<open>fmt\<close> prints a \<open>float64\<close> with \<open>%v\<close>; it only shows in texts.
\<close>

section \<open>Printing with \<open>%v\<close>\<close>

text \<open>A JSON number is read as a \<open>float64\<close>; one out of range does not get past \<open>Unmarshal\<close>.\<close>

definition num_value :: "string \<Rightarrow> f64" where
  "num_value s = (case parse_float s of None \<Rightarrow> NaN | Some v \<Rightarrow> v)"

definition bool_text :: "bool \<Rightarrow> string" where
  "bool_text b = (if b then ''true'' else ''false'')"

primrec fmt_v :: "(f64 \<Rightarrow> string) \<Rightarrow> json \<Rightarrow> string" where
  "fmt_v fl JNull = ''<nil>''"
| "fmt_v fl (JBool b) = bool_text b"
| "fmt_v fl (JNum n) = fl (num_value n)"
| "fmt_v fl (JStr s) = s"
| "fmt_v fl (JArr xs) = ''['' @ join_with '' '' (map (fmt_v fl) xs) @ '']''"
| "fmt_v fl (JObj kvs) =
     ''map['' @ join_with '' '' (map (\<lambda>(k, t). k @ '':'' @ t) (map (map_prod id (fmt_v fl)) kvs)) @ '']''"

section \<open>A trigger value against a value\<close>

definition with_float :: "string \<Rightarrow> (f64 \<Rightarrow> bool) \<Rightarrow> bool" where
  "with_float s p = (case parse_float s of None \<Rightarrow> False | Some x \<Rightarrow> p x)"

fun float_in :: "string list \<Rightarrow> f64 \<Rightarrow> bool" where
  "float_in [] v = False"
| "float_in (s # ss) v = (case parse_float s of
     None \<Rightarrow> False | Some x \<Rightarrow> float64_equal x v \<or> float_in ss v)"

definition check_float :: "string \<Rightarrow> string \<Rightarrow> f64 \<Rightarrow> bool" where
  "check_float operator cond v =
     (if operator = ''='' then with_float cond (\<lambda>x. float64_equal x v)
      else if operator = ''!='' then with_float cond (\<lambda>x. \<not> float64_equal x v)
      else if operator = ''>'' then with_float cond (\<lambda>x. f_less x v)
      else if operator = ''<'' then with_float cond (\<lambda>x. f_less v x)
      else if operator = ''>='' then with_float cond (\<lambda>x. f_le x v)
      else if operator = ''<='' then with_float cond (\<lambda>x. f_le v x)
      else if operator = ''between'' then (case split_on (CHR ''-'') cond of
          [a, b] \<Rightarrow> with_float a (\<lambda>x. with_float b (\<lambda>y. f_le x v \<and> f_le v y))
        | _ \<Rightarrow> False)
      else if operator = ''in'' then float_in (split_on (CHR '','') cond) v
      else False)"

text \<open>Both sides as numbers when both parse, else as strings.\<close>

definition num_or_text :: "(f64 \<Rightarrow> f64 \<Rightarrow> bool) \<Rightarrow> (string \<Rightarrow> string \<Rightarrow> bool) \<Rightarrow> string \<Rightarrow> string \<Rightarrow> bool" where
  "num_or_text pf ps v cond = (case parse_float v of
      None \<Rightarrow> ps v cond
    | Some x \<Rightarrow> (case parse_float cond of None \<Rightarrow> ps v cond | Some y \<Rightarrow> pf x y))"

definition check_string :: "string \<Rightarrow> string \<Rightarrow> string \<Rightarrow> bool" where
  "check_string operator cond v =
     (if operator = ''='' then fold_eq (to_upper v) (to_upper cond)
      else if operator = ''!='' then v \<noteq> cond
      else if operator = ''>'' then num_or_text (\<lambda>x y. f_less y x) (\<lambda>s t. t < s) v cond
      else if operator = ''<'' then num_or_text f_less (<) v cond
      else if operator = ''>='' then num_or_text (\<lambda>x y. f_le y x) (\<lambda>s t. t \<le> s) v cond
      else if operator = ''<='' then num_or_text f_le (\<le>) v cond
      else if operator = ''between'' then (case split_on (CHR ''-'') cond of
          [a, b] \<Rightarrow> (case (parse_float v, parse_float a, parse_float b) of
              (Some x, Some y, Some z) \<Rightarrow> f_le y x \<and> f_le x z
            | _ \<Rightarrow> a \<le> v \<and> v \<le> b)
        | _ \<Rightarrow> False)
      else if operator = ''in'' then v \<in> set (split_on (CHR '','') cond)
      else False)"

definition check_by_operator :: "string \<Rightarrow> string \<Rightarrow> json \<Rightarrow> bool" where
  "check_by_operator operator cond v = (case v of
      JStr s \<Rightarrow> check_string operator cond s
    | JNum n \<Rightarrow> check_float operator cond (num_value n)
    | JBool b \<Rightarrow> check_string operator cond (bool_text b)
    | _ \<Rightarrow> False)"

section \<open>Field conditions on event parameters\<close>

definition to_float64 :: "json \<Rightarrow> f64 option" where
  "to_float64 v = (case v of
      JNum n \<Rightarrow> Some (num_value n) | JStr s \<Rightarrow> parse_float (trim_space s) | _ \<Rightarrow> None)"

definition to_bool :: "json \<Rightarrow> bool" where
  "to_bool v = (case v of
      JBool b \<Rightarrow> b | JStr s \<Rightarrow> parse_bool (trim_space s) = Some True | _ \<Rightarrow> False)"

definition event_values_equal :: "(f64 \<Rightarrow> string) \<Rightarrow> json \<Rightarrow> json \<Rightarrow> bool" where
  "event_values_equal fl actual expected = (case (to_float64 actual, to_float64 expected) of
      (Some a, Some b) \<Rightarrow> float64_equal a b
    | _ \<Rightarrow> (case actual of
        JBool b \<Rightarrow> b = to_bool expected
      | _ \<Rightarrow> (case expected of
          JBool b \<Rightarrow> to_bool actual = b
        | _ \<Rightarrow> if actual = JNull \<or> expected = JNull then actual = JNull \<and> expected = JNull
               else fmt_v fl actual = fmt_v fl expected)))"

definition compare_event_number :: "string \<Rightarrow> json \<Rightarrow> json \<Rightarrow> bool" where
  "compare_event_number operator actual expected = (case (to_float64 actual, to_float64 expected) of
      (Some a, Some b) \<Rightarrow>
        if operator = ''>'' then f_less b a else if operator = ''<'' then f_less a b
        else if operator = ''>='' then f_le b a else if operator = ''<='' then f_le a b else False
    | _ \<Rightarrow> False)"

definition compare_event_between :: "json \<Rightarrow> json \<Rightarrow> bool" where
  "compare_event_between actual expected = (case to_float64 actual of
      None \<Rightarrow> False
    | Some v \<Rightarrow> (case (case expected of
            JArr [a, b] \<Rightarrow> (to_float64 a, to_float64 b)
          | JStr s \<Rightarrow> (case split_on (CHR ''-'') s of
              [a, b] \<Rightarrow> (parse_float (trim_space a), parse_float (trim_space b))
            | _ \<Rightarrow> (None, None))
          | _ \<Rightarrow> (None, None)) of
        (Some lo, Some hi) \<Rightarrow> f_le lo v \<and> f_le v hi
      | _ \<Rightarrow> False))"

definition compare_event_in :: "(f64 \<Rightarrow> string) \<Rightarrow> json \<Rightarrow> json \<Rightarrow> bool" where
  "compare_event_in fl actual expected = (case expected of
      JArr vs \<Rightarrow> list_ex (event_values_equal fl actual) vs
    | JStr s \<Rightarrow> list_ex (\<lambda>t. event_values_equal fl actual (JStr (trim_space t))) (split_on (CHR '','') s)
    | _ \<Rightarrow> False)"

definition match_scalar :: "(f64 \<Rightarrow> string) \<Rightarrow> string \<Rightarrow> json \<Rightarrow> json \<Rightarrow> bool" where
  "match_scalar fl operator expected actual =
     (if operator = ''='' then event_values_equal fl actual expected
      else if operator = ''!='' then \<not> event_values_equal fl actual expected
      else if operator \<in> {''>'', ''<'', ''>='', ''<=''} then compare_event_number operator actual expected
      else if operator = ''between'' then compare_event_between actual expected
      else if operator = ''in'' then compare_event_in fl actual expected
      else False)"

text \<open>A list of actual values matches when one of them does, except under \<open>between\<close>.\<close>

fun match_event_param_value :: "(f64 \<Rightarrow> string) \<Rightarrow> string \<Rightarrow> json \<Rightarrow> json \<Rightarrow> bool" where
  "match_event_param_value fl operator expected (JArr vs) =
     (if operator \<noteq> ''between'' then list_ex (match_event_param_value fl operator expected) vs
      else match_scalar fl operator expected (JArr vs))"
| "match_event_param_value fl operator expected actual = match_scalar fl operator expected actual"

fun value_by_path :: "string list \<Rightarrow> json \<Rightarrow> json option" where
  "value_by_path [] v = Some v"
| "value_by_path (p # ps) v =
     (let q = trim_space p
      in if q = [] then None
         else case v of JObj m \<Rightarrow> (case map_of m q of None \<Rightarrow> None | Some u \<Rightarrow> value_by_path ps u) | _ \<Rightarrow> None)"

definition get_value_by_dot_path :: "json gmap \<Rightarrow> string \<Rightarrow> json option" where
  "get_value_by_dot_path m path = value_by_path (split_on (CHR ''.'') path) (JObj m)"

record event_param_condition =
  ec_field :: string
  ec_operator :: string
  ec_value :: json

record event_param_config =
  ep_match_mode :: string
  ep_conditions :: "event_param_condition list option"

definition dec_event_condition :: "event_param_condition dec" where
  "dec_event_condition = dec_struct
     [(''field'', on_field dec_string ec_field (\<lambda>v. ec_field_update (\<lambda>_. v))),
      (''operator'', on_field dec_string ec_operator (\<lambda>v. ec_operator_update (\<lambda>_. v))),
      (''value'', on_field dec_any ec_value (\<lambda>v. ec_value_update (\<lambda>_. v)))]"

definition zero_condition :: event_param_condition where
  "zero_condition = \<lparr>ec_field = [], ec_operator = [], ec_value = JNull\<rparr>"

definition dec_event_config :: "event_param_config dec" where
  "dec_event_config = dec_struct
     [(''match_mode'', on_field dec_string ep_match_mode (\<lambda>v. ep_match_mode_update (\<lambda>_. v))),
      (''conditions'', on_field (dec_slice dec_event_condition zero_condition) ep_conditions
         (\<lambda>v. ep_conditions_update (\<lambda>_. v)))]"

text \<open>One field: whether it matches, and the text that says so.\<close>

definition match_event_param_condition ::
  "(f64 \<Rightarrow> string) \<Rightarrow> json gmap \<Rightarrow> event_param_condition \<Rightarrow> bool \<times> string" where
  "match_event_param_condition fl data c =
     (let field = trim_space (ec_field c) in
      if field = [] then (False, utf8 [228, 186, 139, 228, 187, 182, 229, 143, 130, 230, 149, 176, 229, 173, 151, 230, 174, 181, 228, 184, 186, 231, 169, 186])
      else
        let op0 = trim_space (ec_operator c); operator = (if op0 = [] then ''='' else op0);
            lead = utf8 [229, 173, 151, 230, 174, 181, 91] @ field @ '']'';
            actual = get_value_by_dot_path data field
        in if operator = ''exists'' then
             (let expected = (if ec_value c = JNull then True else to_bool (ec_value c));
                  head = lead @ '' exists = '' @ bool_text expected
              in if (actual \<noteq> None) = expected then (True, head @ utf8 [32, 229, 145, 189, 228, 184, 173])
                 else (False, head @ utf8 [32, 230, 156, 170, 229, 145, 189, 228, 184, 173, 239, 188, 140, 229, 174, 158, 233, 153, 133, 229, 173, 152, 229, 156, 168, 61] @ bool_text (actual \<noteq> None)))
           else case actual of
               None \<Rightarrow> (False, lead @ utf8 [228, 184, 141, 229, 173, 152, 229, 156, 168])
             | Some v \<Rightarrow>
                 let head = lead @ '': '' @ fmt_v fl v @ '' '' @ operator @ '' '' @ fmt_v fl (ec_value c)
                 in if match_event_param_value fl operator (ec_value c) v then (True, head @ utf8 [32, 229, 145, 189, 228, 184, 173])
                    else (False, head @ utf8 [32, 230, 156, 170, 229, 145, 189, 228, 184, 173]))"

text \<open>\<open>parseEventActualValue\<close>; a value that is no string is marshalled and read back as a map.\<close>

definition parse_event_actual_value :: "json \<Rightarrow> json gmap option res" where
  "parse_event_actual_value v = (case v of
      JStr s \<Rightarrow> unmarshal dec_any_map s None
    | JObj m \<Rightarrow> Inr (Some m)
    | _ \<Rightarrow> dec_any_map v None)"

fun match_all :: "(f64 \<Rightarrow> string) \<Rightarrow> json gmap \<Rightarrow> event_param_condition list \<Rightarrow> bool \<times> string" where
  "match_all fl data [] = (True, utf8 [228, 186, 139, 228, 187, 182, 229, 143, 130, 230, 149, 176, 229, 173, 151, 230, 174, 181, 230, 157, 161, 228, 187, 182, 229, 133, 168, 233, 131, 168, 229, 145, 189, 228, 184, 173])"
| "match_all fl data (c # cs) = (case match_event_param_condition fl data c of
     (ok, detail) \<Rightarrow> if ok then match_all fl data cs else (False, detail))"

text \<open>\<open>None\<close> when the trigger value is no field configuration and the plain comparison decides.\<close>

definition event_param_condition_check :: "(f64 \<Rightarrow> string) \<Rightarrow> string \<Rightarrow> json \<Rightarrow> (bool \<times> string) option" where
  "event_param_condition_check fl trigger v =
     (case unmarshal dec_event_config trigger \<lparr>ep_match_mode = [], ep_conditions = None\<rparr> of
        Inl _ \<Rightarrow> None
      | Inr config \<Rightarrow>
          if ep_match_mode config \<noteq> ''field'' then None
          else let cs = (case ep_conditions config of None \<Rightarrow> [] | Some cs \<Rightarrow> cs) in
            if cs = [] then Some (True, utf8 [228, 186, 139, 228, 187, 182, 229, 143, 130, 230, 149, 176, 230, 156, 170, 233, 133, 141, 231, 189, 174, 229, 173, 151, 230, 174, 181, 230, 157, 161, 228, 187, 182, 239, 188, 140, 228, 187, 133, 230, 140, 137, 228, 186, 139, 228, 187, 182, 230, 160, 135, 232, 175, 134, 231, 172, 166, 232, 167, 166, 229, 143, 145])
            else (case parse_event_actual_value v of
                Inl _ \<Rightarrow> Some (False, utf8 [228, 186, 139, 228, 187, 182, 229, 143, 130, 230, 149, 176, 228, 184, 141, 230, 152, 175, 229, 144, 136, 230, 179, 149, 74, 83, 79, 78])
              | Inr m \<Rightarrow> Some (match_all fl (case m of None \<Rightarrow> [] | Some m' \<Rightarrow> m') cs)))"

section \<open>The time of the week\<close>

text \<open>\<open>GetWeekDay\<close> of a time in milliseconds since the epoch, a Thursday: Monday is 1, Sunday 7.\<close>

definition get_week_day :: "int \<Rightarrow> int" where
  "get_week_day now = (now div 86400000 + 3) mod 7 + 1"

definition two_digits :: "string \<Rightarrow> (int \<times> string) option" where
  "two_digits s = (case s of
      a # b # r \<Rightarrow> if is_digit a \<and> is_digit b then Some (int (digits_val [a, b]), r) else None
    | _ \<Rightarrow> None)"

definition one_or_two_digits :: "string \<Rightarrow> (int \<times> string) option" where
  "one_or_two_digits s = (case two_digits s of
      Some p \<Rightarrow> Some p
    | None \<Rightarrow> (case s of a # r \<Rightarrow> if is_digit a then Some (int (digit_val a), r) else None | [] \<Rightarrow> None))"

definition after_colon :: "string \<Rightarrow> string option" where
  "after_colon s = (case s of c # r \<Rightarrow> if c = CHR '':'' then Some r else None | [] \<Rightarrow> None)"

text \<open>The digits of a fraction of a second as nanoseconds, cut after the ninth.\<close>

definition nanoseconds :: "string \<Rightarrow> int" where
  "nanoseconds d = (let e = take 9 d in int (digits_val e) * 10 ^ (9 - length e))"

definition fraction :: "string \<Rightarrow> int \<times> string" where
  "fraction s = (case s of
      c # d # r \<Rightarrow> if c \<in> {CHR ''.'', CHR '',''} \<and> is_digit d
        then (nanoseconds (takeWhile is_digit (d # r)), dropWhile is_digit (d # r)) else (0, s)
    | _ \<Rightarrow> (0, s))"

definition zone_offset :: "string \<Rightarrow> int option" where
  "zone_offset s = (case s of
      [sg, a, b, c, d, e] \<Rightarrow>
        (case (two_digits [a, b], two_digits [d, e]) of
           (Some (h, _), Some (m, _)) \<Rightarrow>
             if c = CHR '':'' \<and> h \<le> 24 \<and> m \<le> 60
             then (if sg = CHR ''+'' then Some (h * 3600 + m * 60)
                   else if sg = CHR ''-'' then Some (- (h * 3600 + m * 60)) else None)
             else None
         | _ \<Rightarrow> None)
    | _ \<Rightarrow> None)"

text \<open>\<open>time.Parse("15:04:05-07:00", s)\<close>: hour, minute, second, nanoseconds and the offset of the zone.\<close>

definition clock_fields :: "string \<Rightarrow> (int \<times> int \<times> int \<times> int \<times> int) option" where
  "clock_fields s =
     Option.bind (one_or_two_digits s) (\<lambda>(h, r1). if 24 \<le> h then None else
     Option.bind (after_colon r1) (\<lambda>r2.
     Option.bind (two_digits r2) (\<lambda>(m, r3). if 60 \<le> m then None else
     Option.bind (after_colon r3) (\<lambda>r4.
     Option.bind (two_digits r4) (\<lambda>(sec, r5). if 60 \<le> sec then None else
     (case fraction r5 of (ns, r6) \<Rightarrow>
     Option.bind (zone_offset r6) (\<lambda>off. Some (h, m, sec, ns, off))))))))"

text \<open>As nanoseconds after midnight UTC of the zero date.\<close>

definition parse_clock :: "string \<Rightarrow> int option" where
  "parse_clock s = map_option (\<lambda>(h, m, sec, ns, off). (h * 3600 + m * 60 + sec - off) * 10 ^ 9 + ns) (clock_fields s)"

definition check_with_time :: "int \<Rightarrow> string \<Rightarrow> bool" where
  "check_with_time now trigger =
     (let parts = split_on (CHR ''|'') trigger in
      if trigger = [] \<or> length parts < 3 then False
      else if \<not> list_ex (\<lambda>c. is_digit c \<and> int (digit_val c) = get_week_day now) (parts ! 0) then False
      else let t = (now div 1000) mod 86400 * 10 ^ 9 in
        case parse_clock (parts ! 1) of
          None \<Rightarrow> False
        | Some start \<Rightarrow>
            if t < start then False
            else (case parse_clock (parts ! 2) of None \<Rightarrow> False | Some end_t \<Rightarrow> t \<le> end_t))"

end
