(* ===== verification/AutoState.thy ===== *)
theory AutoState
  imports DeviceStore Conditions
begin

text \<open>
  The state of the automation: the rows of its tables, the values it keeps in Redis with their
  expiry, and the fields of the \<open>Automate\<close> service. A Redis value is the struct whose JSON the code
  stores. The columns a query only looks up by key are functions of that key. \<open>au_world\<close> is the
  shared state, whose clock and faults the automation uses.
\<close>

section \<open>Rows\<close>

text \<open>\<open>model.DeviceTriggerCondition\<close>, \<open>model.ActionInfo\<close>, and the scene and alarm tables.\<close>

record trigger_condition =
  tc_id :: string
  tc_scene :: string
  tc_enabled :: string
  tc_group :: string
  tc_type :: string
  tc_source :: "string option"
  tc_param_type :: "string option"
  tc_param :: "string option"
  tc_operator :: "string option"
  tc_value :: string

record action_info =
  ac_scene :: string
  ac_target :: "string option"
  ac_type :: string
  ac_param_type :: "string option"
  ac_param :: "string option"
  ac_value :: "string option"

record scene_automation =
  sa_id :: string
  sa_enabled :: string
  sa_tenant_id :: string

record alarm_config =
  al_id :: string
  al_name :: string
  al_description :: "string option"
  al_level :: string
  al_notification_group :: string
  al_tenant_id :: string
  al_enabled :: string

record alarm_history =
  ah_name :: string
  ah_config_id :: string
  ah_content :: string
  ah_description :: "string option"
  ah_tenant_id :: string
  ah_scene :: string
  ah_group :: string
  ah_devices :: string
  ah_status :: string
  ah_create_at :: int

record scene_log =
  lg_scene :: string
  lg_executed_at :: int
  lg_detail :: string
  lg_result :: string
  lg_tenant_id :: string

text \<open>The three columns a stored value may have; a number keeps its literal.\<close>

type_synonym value_columns = "bool option \<times> string option \<times> string option"

section \<open>Redis values\<close>

record device_info =
  di_scene :: string
  di_groups :: "string list"

record alarm_group =
  ag_scene :: string
  ag_configs :: "string list"
  ag_devices :: "string list"
  ag_contents :: "string list"

datatype redis_value =
    RNoTask
  | RInfos "device_info list"
  | RGroup "trigger_condition list"
  | RAction "string list" "action_info list"
  | RAlarmGroup alarm_group
  | RIds "string list"
  | RText string

text \<open>The two device types of the automation cache: the key prefix and the condition type.\<close>

datatype cache_kind = OneDevice | MultipleDevice

definition key_prefix :: "cache_kind \<Rightarrow> string" where
  "key_prefix k = (case k of OneDevice \<Rightarrow> ''one'' | MultipleDevice \<Rightarrow> ''multiple'')"

definition kind_condition :: "cache_kind \<Rightarrow> string" where
  "kind_condition k = (case k of OneDevice \<Rightarrow> ''10'' | MultipleDevice \<Rightarrow> ''11'')"

section \<open>Effects and the state\<close>

datatype put_kind = PutTelemetry | PutAttribute | PutCommand string

datatype auto_effect =
    PutMessage put_kind string string string
  | Notify string string string

record auto =
  au_world :: world
  au_conditions :: "trigger_condition list"
  au_actions :: "action_info list"
  au_scene_actions :: "action_info list"
  au_scenes :: "scene_automation list"
  au_scene_names :: "string \<rightharpoonup> string"
  au_current :: "string \<Rightarrow> string \<Rightarrow> value_columns option"
  au_attribute :: "string \<Rightarrow> string \<Rightarrow> value_columns option"
  au_event :: "string \<Rightarrow> string \<Rightarrow> string option option"
  au_template :: "string \<Rightarrow> string option"
  au_identifier :: "string \<Rightarrow> string \<Rightarrow> string \<Rightarrow> string option"
  au_alarms :: "alarm_config list"
  au_history :: "alarm_history list"
  au_scene_logs :: "scene_log list"
  au_active_logs :: "scene_log list"
  au_redis :: "string \<rightharpoonup> redis_value \<times> int"
  au_cache_device :: cache_kind
  au_allowed :: "string \<Rightarrow> nat"
  au_device :: "device option"
  au_ext :: automate_ext
  au_executed :: "string list"
  au_effects :: "auto_effect list"

text \<open>What the automation leaves open: the order in which Go walks a map (applied to its keys),
  how \<open>fmt\<close> prints a \<open>float64\<close>, the answer of the rate limiter of \<open>golang.org/x/time/rate\<close> to the
  \<open>n\<close>-th request of a key, and the result of handing a message to the services that publish it.\<close>

record auto_env =
  ae_ord :: "string list \<Rightarrow> string list"
  ae_fmt :: "f64 \<Rightarrow> string"
  ae_allow :: "string \<Rightarrow> nat \<Rightarrow> bool"
  ae_put :: "put_kind \<Rightarrow> string \<Rightarrow> string \<Rightarrow> auto \<Rightarrow> gerror option"

definition au_now :: "auto \<Rightarrow> int" where
  "au_now s = w_now (au_world s)"

definition au_db_fault :: "auto \<Rightarrow> string \<Rightarrow> gerror option" where
  "au_db_fault s q = w_db_fault (au_world s) q"

section \<open>Redis\<close>

definition rd_get :: "string \<Rightarrow> auto \<Rightarrow> redis_value res" where
  "rd_get k s = (case w_redis_fault (au_world s) ''get'' k of
      Some e \<Rightarrow> Inl e
    | None \<Rightarrow> (case au_redis s k of
        None \<Rightarrow> Inl RedisNil | Some (v, t) \<Rightarrow> if au_now s < t then Inr v else Inl RedisNil))"

definition rd_set :: "string \<Rightarrow> redis_value \<Rightarrow> int \<Rightarrow> auto \<Rightarrow> gerror option \<times> auto" where
  "rd_set k v ttl s = (case w_redis_fault (au_world s) ''set'' k of
      Some e \<Rightarrow> (Some e, s)
    | None \<Rightarrow> (None, s\<lparr>au_redis := (au_redis s)(k \<mapsto> (v, au_now s + ttl))\<rparr>))"

definition rd_del :: "string list \<Rightarrow> auto \<Rightarrow> gerror option \<times> auto" where
  "rd_del ks s = (if ks = [] then (None, s) else case w_redis_fault (au_world s) ''del'' (hd ks) of
      Some e \<Rightarrow> (Some e, s)
    | None \<Rightarrow> (None, s\<lparr>au_redis := (\<lambda>k. if k \<in> set ks then None else au_redis s k)\<rparr>))"

text \<open>Steps that may fail, run in order until one does.\<close>

fun until_error :: "('a \<Rightarrow> 's \<Rightarrow> gerror option \<times> 's) \<Rightarrow> 'a list \<Rightarrow> 's \<Rightarrow> gerror option \<times> 's" where
  "until_error f [] s = (None, s)"
| "until_error f (x # xs) s = (case f x s of
     (Some e, s') \<Rightarrow> (Some e, s') | (None, s') \<Rightarrow> until_error f xs s')"

definition no_redis_faults :: "auto \<Rightarrow> bool" where
  "no_redis_faults s \<longleftrightarrow> w_redis_fault (au_world s) = (\<lambda>_ _. None)"

lemma no_faultD: "no_redis_faults s \<Longrightarrow> w_redis_fault (au_world s) c k = None"
  by (simp add: no_redis_faults_def)

lemma rd_set_ok [simp]:
  "no_redis_faults s \<Longrightarrow>
     rd_set k v ttl s = (None, s\<lparr>au_redis := (au_redis s)(k \<mapsto> (v, au_now s + ttl))\<rparr>)"
  by (simp add: rd_set_def no_faultD)

lemma rd_get_ok:
  "no_redis_faults s \<Longrightarrow>
     rd_get k s = (case au_redis s k of
        None \<Rightarrow> Inl RedisNil | Some (v, t) \<Rightarrow> if au_now s < t then Inr v else Inl RedisNil)"
  by (simp add: rd_get_def no_faultD)

lemma au_now_redis [simp]: "au_now (s\<lparr>au_redis := r\<rparr>) = au_now s"
  by (simp add: au_now_def)

lemma no_redis_faults_redis [simp]: "no_redis_faults (s\<lparr>au_redis := r\<rparr>) = no_redis_faults s"
  by (simp add: no_redis_faults_def)

end
