(* ===== verification/AutomateCache.thy ===== *)
theory AutomateCache
  imports AutoState
begin

text \<open>
  \<open>initialize/automate_cache.go\<close> and \<open>QueryAutomateInfoAndSetCache\<close>: what a device's report has to
  check, cached for five minutes under three families of keys: the scenes of a device (or device
  configuration), the conditions of a group, the actions of a scene. The cache object is shared and
  keeps the device type its next key is built for. A panic (a nil trigger source) is \<open>None\<close>.
\<close>

section \<open>Keys\<close>

definition automate_ttl :: int where "automate_ttl = 300000"

definition get_automate_cache_key :: "cache_kind \<Rightarrow> string \<Rightarrow> string \<Rightarrow> string" where
  "get_automate_cache_key k ctype i = ''automate:v3:'' @ key_prefix k @ '':'' @ ctype @ '':'' @ i"

definition base_key :: "auto \<Rightarrow> string \<Rightarrow> string" where
  "base_key s i = get_automate_cache_key (au_cache_device s) ''_'' i"

definition group_key :: "auto \<Rightarrow> string \<Rightarrow> string" where
  "group_key s i = get_automate_cache_key (au_cache_device s) ''_group_'' i"

definition action_key :: "auto \<Rightarrow> string \<Rightarrow> string" where
  "action_key s i = get_automate_cache_key (au_cache_device s) ''_action_'' i"

definition set_device_type :: "cache_kind \<Rightarrow> auto \<Rightarrow> auto" where
  "set_device_type k s = s\<lparr>au_cache_device := k\<rparr>"

definition kind_of :: "string \<Rightarrow> cache_kind" where
  "kind_of config = (if config = '''' then OneDevice else MultipleDevice)"

section \<open>Reading\<close>

datatype cache_result = CacheNotFound | CacheNotTask | CacheOk

record scene_info =
  si_scene :: string
  si_conditions :: "trigger_condition list"
  si_actions :: "action_info list"

record execute_params =
  xp_device :: string
  xp_config :: string
  xp_scenes :: "scene_info list"

definition bad_value :: gerror where
  "bad_value = Errorf ''json: cannot unmarshal value''"

text \<open>\<open>scan\<close> into the list of a device's scenes.\<close>

definition scan_infos :: "string \<Rightarrow> auto \<Rightarrow> (cache_result \<times> device_info list) res" where
  "scan_infos k s = (case rd_get k s of
      Inl e \<Rightarrow> if e = RedisNil then Inr (CacheNotFound, []) else Inl e
    | Inr RNoTask \<Rightarrow> Inr (CacheNotTask, [])
    | Inr (RInfos is) \<Rightarrow> Inr (CacheOk, is)
    | Inr _ \<Rightarrow> Inl bad_value)"

definition get_group :: "string \<Rightarrow> auto \<Rightarrow> trigger_condition list option" where
  "get_group k s = (case rd_get k s of Inr (RGroup cs) \<Rightarrow> Some cs | _ \<Rightarrow> None)"

definition get_action :: "string \<Rightarrow> auto \<Rightarrow> (string list \<times> action_info list) option" where
  "get_action k s = (case rd_get k s of Inr (RAction gs as) \<Rightarrow> Some (gs, as) | _ \<Rightarrow> None)"

definition cached_scene :: "auto \<Rightarrow> device_info \<Rightarrow> scene_info option" where
  "cached_scene s i = (case get_action (action_key s (di_scene i)) s of
      None \<Rightarrow> None
    | Some (_, as) \<Rightarrow> Some \<lparr>si_scene = di_scene i,
        si_conditions = concat (map (\<lambda>g. case get_group (group_key s g) s of None \<Rightarrow> [] | Some cs \<Rightarrow> cs) (di_groups i)),
        si_actions = as\<rparr>)"

definition get_cache_by_d_id :: "string \<Rightarrow> string \<Rightarrow> string \<Rightarrow> auto \<Rightarrow> (cache_result \<times> execute_params) res" where
  "get_cache_by_d_id device config key s = (case scan_infos key s of
      Inl e \<Rightarrow> Inl e
    | Inr (r, is) \<Rightarrow> Inr (r, \<lparr>xp_device = device, xp_config = config,
        xp_scenes = (if r = CacheOk then List.map_filter (cached_scene s) is else [])\<rparr>))"

definition get_cache_by_device_id ::
  "string \<Rightarrow> string \<Rightarrow> auto \<Rightarrow> (cache_result \<times> execute_params) res \<times> auto" where
  "get_cache_by_device_id device config s =
     (let s' = set_device_type (kind_of config) s;
          key = base_key s' (if config = '''' then device else config)
      in (get_cache_by_d_id device config key s', s'))"

section \<open>Writing for a device\<close>

definition groups_of :: "auto_env \<Rightarrow> trigger_condition list \<Rightarrow> string list" where
  "groups_of env cs = ae_ord env (remdups (map tc_group cs))"

definition conditions_of :: "string \<Rightarrow> trigger_condition list \<Rightarrow> trigger_condition list" where
  "conditions_of g cs = filter (\<lambda>c. tc_group c = g) cs"

definition put_group :: "trigger_condition list \<Rightarrow> string \<Rightarrow> auto \<Rightarrow> gerror option \<times> auto" where
  "put_group cs g s = rd_set (group_key s g) (RGroup (conditions_of g cs)) automate_ttl s"

text \<open>The scenes of the cached list: those with an action and a condition.\<close>

definition scene_infos :: "auto_env \<Rightarrow> trigger_condition list \<Rightarrow> action_info list \<Rightarrow> device_info list" where
  "scene_infos env cs as =
     map (\<lambda>sc. \<lparr>di_scene = sc, di_groups = groups_of env (filter (\<lambda>c. tc_scene c = sc) cs)\<rparr>)
       (filter (\<lambda>sc. \<exists>c \<in> set cs. tc_scene c = sc) (ae_ord env (remdups (map ac_scene as))))"

definition put_action :: "action_info list \<Rightarrow> device_info \<Rightarrow> auto \<Rightarrow> gerror option \<times> auto" where
  "put_action as i s = rd_set (action_key s (di_scene i))
     (RAction (di_groups i) (filter (\<lambda>a. ac_scene a = di_scene i) as)) automate_ttl s"

definition set_cache :: "auto_env \<Rightarrow> string \<Rightarrow> string \<Rightarrow> trigger_condition list \<Rightarrow> action_info list \<Rightarrow> auto \<Rightarrow>
    gerror option \<times> auto" where
  "set_cache env device config cs as s = (case until_error (put_group cs) (groups_of env cs) s of
      (Some e, s1) \<Rightarrow> (Some e, s1)
    | (None, s1) \<Rightarrow> (case until_error (put_action as) (scene_infos env cs as) s1 of
        (Some e, s2) \<Rightarrow> (Some e, s2)
      | (None, s2) \<Rightarrow> rd_set (base_key s2 (if config \<noteq> '''' then config else device))
          (RInfos (scene_infos env cs as)) automate_ttl s2))"

definition set_cache_by_device_id :: "auto_env \<Rightarrow> string \<Rightarrow> string \<Rightarrow> trigger_condition list \<Rightarrow>
    action_info list \<Rightarrow> auto \<Rightarrow> gerror option \<times> auto" where
  "set_cache_by_device_id env device config cs as s =
     set_cache env device config cs as (set_device_type (kind_of config) s)"

definition set_cache_with_no_task :: "string \<Rightarrow> string \<Rightarrow> auto \<Rightarrow> gerror option \<times> auto" where
  "set_cache_with_no_task device config s =
     (let s' = set_device_type (kind_of config) s
      in rd_set (base_key s' (if config = '''' then device else config)) RNoTask automate_ttl s')"

section \<open>Writing for a scene\<close>

text \<open>The sources of the conditions of the type; a nil one panics.\<close>

definition sources :: "string \<Rightarrow> trigger_condition list \<Rightarrow> string list option" where
  "sources ty cs = (let ds = map tc_source (filter (\<lambda>c. tc_type c = ty) cs)
     in if None \<in> set ds then None else Some (map the ds))"

definition add_scene :: "device_info \<Rightarrow> string \<Rightarrow> auto \<Rightarrow> gerror option \<times> auto" where
  "add_scene info d s = (case scan_infos (base_key s d) s of
      Inl _ \<Rightarrow> (None, s)
    | Inr (_, is) \<Rightarrow> rd_set (base_key s d) (RInfos (is @ [info])) automate_ttl s)"

definition set_cache_by_scene_aut_id :: "auto_env \<Rightarrow> string \<Rightarrow> trigger_condition list \<Rightarrow> action_info list \<Rightarrow>
    auto \<Rightarrow> (gerror option \<times> auto) option" where
  "set_cache_by_scene_aut_id env scene cs as s =
     (let ty = kind_condition (au_cache_device s) in
      case sources ty cs of
        None \<Rightarrow> None
      | Some ds \<Rightarrow>
          if ds = [] then Some (None, s)
          else
            let gs = filter (\<lambda>g. \<exists>c \<in> set cs. tc_group c = g \<and> tc_type c = ty) (groups_of env cs)
            in Some (case until_error (put_group cs) gs s of
                (Some e, s1) \<Rightarrow> (Some e, s1)
              | (None, s1) \<Rightarrow> (case rd_set (action_key s1 scene) (RAction gs as) automate_ttl s1 of
                  (Some e, s2) \<Rightarrow> (Some e, s2)
                | (None, s2) \<Rightarrow> until_error (add_scene \<lparr>di_scene = scene, di_groups = gs\<rparr>)
                    (ae_ord env (remdups ds)) s2)))"

text \<open>First for device configurations, then for single devices.\<close>

definition for_both :: "(auto \<Rightarrow> (gerror option \<times> auto) option) \<Rightarrow> auto \<Rightarrow> (gerror option \<times> auto) option" where
  "for_both f s = (case f (set_device_type MultipleDevice s) of
      None \<Rightarrow> None
    | Some (Some e, s1) \<Rightarrow> Some (Some e, s1)
    | Some (None, s1) \<Rightarrow> f (set_device_type OneDevice s1))"

definition set_cache_by_scene :: "auto_env \<Rightarrow> string \<Rightarrow> trigger_condition list \<Rightarrow> action_info list \<Rightarrow> auto \<Rightarrow>
    (gerror option \<times> auto) option" where
  "set_cache_by_scene env scene cs as s = for_both (set_cache_by_scene_aut_id env scene cs as) s"

section \<open>Deleting a scene\<close>

fun drop_scene :: "string \<Rightarrow> device_info list \<Rightarrow> device_info list" where
  "drop_scene sc [] = []"
| "drop_scene sc (i # is) = (if di_scene i = sc then is else i # drop_scene sc is)"

text \<open>\<open>automateDeviceCacheDeleteHandel\<close>: a device's list that keeps other scenes is to be deleted as
  a whole, one that becomes empty is stored back.\<close>

fun device_cache_delete :: "string \<Rightarrow> string list \<Rightarrow> string list \<Rightarrow> auto \<Rightarrow> gerror option \<times> string list \<times> auto" where
  "device_cache_delete sc [] ks s = (None, ks, s)"
| "device_cache_delete sc (d # ds) ks s = (case rd_get (base_key s d) s of
     Inr (RInfos is) \<Rightarrow>
       if drop_scene sc is \<noteq> [] then device_cache_delete sc ds (ks @ [base_key s d]) s
       else (case rd_set (base_key s d) (RInfos []) automate_ttl s of
           (Some e, s1) \<Rightarrow> (Some e, ks, s1)
         | (None, s1) \<Rightarrow> device_cache_delete sc ds ks s1)
   | _ \<Rightarrow> device_cache_delete sc ds ks s)"

definition delete_cache_by_scene_aut_id :: "string \<Rightarrow> auto \<Rightarrow> (gerror option \<times> auto) option" where
  "delete_cache_by_scene_aut_id sc s = (case rd_get (action_key s sc) s of
      Inl e \<Rightarrow> Some (if e = RedisNil then None else Some e, s)
    | Inr v \<Rightarrow> (case (case v of RNoTask \<Rightarrow> Some [] | RAction gs _ \<Rightarrow> Some gs | _ \<Rightarrow> None) of
        None \<Rightarrow> Some (Some bad_value, s)
      | Some gs \<Rightarrow>
          let ks = action_key s sc # map (group_key s) gs;
              cs = concat (map (\<lambda>g. case get_group (group_key s g) s of None \<Rightarrow> [] | Some cs \<Rightarrow> cs) gs)
          in case sources (kind_condition (au_cache_device s)) cs of
              None \<Rightarrow> None
            | Some ds \<Rightarrow> (case device_cache_delete sc ds ks s of
                (Some e, _, s1) \<Rightarrow> Some (Some e, s1)
              | (None, ks', s1) \<Rightarrow> Some (rd_del ks' s1))))"

definition delete_cache_by_scene :: "string \<Rightarrow> auto \<Rightarrow> (gerror option \<times> auto) option" where
  "delete_cache_by_scene sc s = for_both (delete_cache_by_scene_aut_id sc) s"

section \<open>Filling the cache from the tables\<close>

definition conditions_by_device :: "string \<Rightarrow> string \<Rightarrow> auto \<Rightarrow> trigger_condition list res" where
  "conditions_by_device i ty s = (case au_db_fault s ''device_trigger_condition.source'' of
      Some e \<Rightarrow> Inl e
    | None \<Rightarrow> Inr (filter (\<lambda>c. tc_type c = ty \<and> tc_source c = Some i \<and> tc_enabled c = ''Y'') (au_conditions s)))"

definition conditions_by_groups :: "string list \<Rightarrow> auto \<Rightarrow> trigger_condition list res" where
  "conditions_by_groups gs s = (case au_db_fault s ''device_trigger_condition.groups'' of
      Some e \<Rightarrow> Inl e
    | None \<Rightarrow> Inr (filter (\<lambda>c. tc_group c \<in> set gs \<and> tc_enabled c = ''Y'') (au_conditions s)))"

definition actions_by_scenes :: "string list \<Rightarrow> auto \<Rightarrow> action_info list res" where
  "actions_by_scenes scs s = (case au_db_fault s ''action_info.scenes'' of
      Some e \<Rightarrow> Inl e
    | None \<Rightarrow> Inr (filter (\<lambda>a. ac_scene a \<in> set scs) (au_actions s)))"

definition wrap :: "string \<Rightarrow> gerror \<Rightarrow> gerror" where
  "wrap m e = Wrapped (m @ '': '') e"

definition query_automate_info :: "auto_env \<Rightarrow> string \<Rightarrow> string \<Rightarrow> auto \<Rightarrow>
    (cache_result \<times> execute_params) res \<times> auto" where
  "query_automate_info env device config s =
     (case (if config \<noteq> '''' then conditions_by_device config ''11'' s else conditions_by_device device ''10'' s) of
        Inl e \<Rightarrow> (Inl (wrap (utf8 [230, 160, 185, 230, 141, 174, 232, 174, 190, 229, 164, 135, 105, 100, 230, 159, 165, 232, 175, 162, 232, 135, 170, 229, 138, 168, 229, 140, 150, 230, 157, 161, 228, 187, 182, 229, 164, 177, 232, 180, 165]) e), s)
      | Inr [] \<Rightarrow> (case set_cache_with_no_task device config s of
            (Some e, s1) \<Rightarrow> (Inl (wrap (utf8 [232, 174, 190, 231, 189, 174, 232, 174, 190, 229, 164, 135, 230, 151, 160, 232, 135, 170, 229, 138, 168, 229, 140, 150, 228, 191, 161, 230, 129, 175, 231, 188, 147, 229, 173, 152, 229, 164, 177, 232, 180, 165]) e), s1)
          | (None, s1) \<Rightarrow> (Inr (CacheNotTask, \<lparr>xp_device = device, xp_config = config, xp_scenes = []\<rparr>), s1))
      | Inr own \<Rightarrow> (case conditions_by_groups (map tc_group own) s of
            Inl e \<Rightarrow> (Inl (wrap (utf8 [230, 159, 165, 232, 175, 162, 232, 135, 170, 229, 138, 168, 229, 140, 150, 230, 157, 161, 228, 187, 182, 229, 164, 177, 232, 180, 165]) e), s)
          | Inr cs \<Rightarrow> (case actions_by_scenes (remdups (map tc_scene own)) s of
              Inl e \<Rightarrow> (Inl (wrap (utf8 [230, 159, 165, 232, 175, 162, 232, 135, 170, 229, 138, 168, 229, 140, 150, 230, 137, 167, 232, 161, 140, 229, 164, 177, 232, 180, 165]) e), s)
            | Inr as \<Rightarrow> (case set_cache_by_device_id env device config cs as s of
                (Some e, s1) \<Rightarrow> (Inl (wrap (utf8 [232, 174, 190, 231, 189, 174, 232, 135, 170, 229, 138, 168, 229, 140, 150, 231, 188, 147, 229, 173, 152, 229, 164, 177, 232, 180, 165]) e), s1)
              | (None, s1) \<Rightarrow> get_cache_by_device_id device config s1))))"


section \<open>Keys and stores\<close>

lemma key_prefix_no_colon [simp]: "CHR '':'' \<notin> set (key_prefix k)"
  by (cases k) (simp_all add: key_prefix_def)

lemma key_prefix_inj [simp]: "key_prefix k = key_prefix k' \<longleftrightarrow> k = k'"
  by (cases k; cases k') (simp_all add: key_prefix_def)

lemma automate_key_eq [simp]:
  assumes "CHR '':'' \<notin> set t" "CHR '':'' \<notin> set t'"
  shows "get_automate_cache_key k t i = get_automate_cache_key k' t' i' \<longleftrightarrow> k = k' \<and> t = t' \<and> i = i'"
  using assms by (auto simp: get_automate_cache_key_def split_first_sep)

lemma keys_distinct [simp]:
  "base_key s i = base_key s' i' \<longleftrightarrow> au_cache_device s = au_cache_device s' \<and> i = i'"
  "group_key s i = group_key s' i' \<longleftrightarrow> au_cache_device s = au_cache_device s' \<and> i = i'"
  "action_key s i = action_key s' i' \<longleftrightarrow> au_cache_device s = au_cache_device s' \<and> i = i'"
  "base_key s i \<noteq> group_key s' i'" "group_key s i \<noteq> base_key s' i'"
  "base_key s i \<noteq> action_key s' i'" "action_key s i \<noteq> base_key s' i'"
  "group_key s i \<noteq> action_key s' i'" "action_key s i \<noteq> group_key s' i'"
  by (simp_all add: base_key_def group_key_def action_key_def)

lemma keys_redis [simp]:
  "base_key (s\<lparr>au_redis := r\<rparr>) = base_key s" "group_key (s\<lparr>au_redis := r\<rparr>) = group_key s"
  "action_key (s\<lparr>au_redis := r\<rparr>) = action_key s"
  by (simp_all add: base_key_def group_key_def action_key_def fun_eq_iff)

text \<open>A loop of writes without faults, and what it leaves under each key.\<close>

definition puts :: "('a \<Rightarrow> string) \<Rightarrow> ('a \<Rightarrow> redis_value) \<Rightarrow> int \<Rightarrow> 'a list \<Rightarrow>
    (string \<rightharpoonup> redis_value \<times> int) \<Rightarrow> (string \<rightharpoonup> redis_value \<times> int)" where
  "puts K V t xs r = fold (\<lambda>x r. r(K x \<mapsto> (V x, t))) xs r"

lemma puts_other: "k \<notin> K ` set xs \<Longrightarrow> puts K V t xs r k = r k"
  by (induction xs arbitrary: r) (auto simp: puts_def)

lemma puts_at:
  assumes "inj_on K (set xs)" "x \<in> set xs" shows "puts K V t xs r (K x) = Some (V x, t)"
  using assms
proof (induction xs arbitrary: r)
  case (Cons y ys)
  show ?case
  proof (cases "x \<in> set ys")
    case True
    with Cons.IH [of "r(K y \<mapsto> (V y, t))"] Cons.prems(1) show ?thesis
      by (simp add: puts_def del: fun_upd_apply)
  next
    case False
    with Cons.prems have "K x \<notin> K ` set ys" by (auto simp: inj_on_def)
    then have "puts K V t ys (r(K y \<mapsto> (V y, t))) (K x) = (r(K y \<mapsto> (V y, t))) (K x)" by (rule puts_other)
    with False Cons.prems(2) show ?thesis by (simp add: puts_def)
  qed
qed simp

lemma until_error_puts:
  assumes "no_redis_faults s"
    and "\<And>x r. f x (s\<lparr>au_redis := r\<rparr>) = (None, s\<lparr>au_redis := r(K x \<mapsto> (V x, t))\<rparr>)"
  shows "until_error f xs s = (None, s\<lparr>au_redis := puts K V t xs (au_redis s)\<rparr>)"
proof -
  have "until_error f xs (s\<lparr>au_redis := r\<rparr>) = (None, s\<lparr>au_redis := puts K V t xs r\<rparr>)" for r
    by (induction xs arbitrary: r) (simp_all add: puts_def assms(2))
  from this [of "au_redis s"] show ?thesis by simp
qed


section \<open>What is written is read back\<close>

definition scene_of :: "trigger_condition list \<Rightarrow> action_info list \<Rightarrow> device_info \<Rightarrow> scene_info" where
  "scene_of cs as i = \<lparr>si_scene = di_scene i,
     si_conditions = concat (map (\<lambda>g. conditions_of g cs) (di_groups i)),
     si_actions = filter (\<lambda>a. ac_scene a = di_scene i) as\<rparr>"

text \<open>The clock may move and the faults of the database may change between the write and a read.\<close>

definition later :: "world \<Rightarrow> auto \<Rightarrow> auto" where
  "later w s = s\<lparr>au_world := w\<rparr>"

lemma later_simps [simp]:
  "au_redis (later w s) = au_redis s" "au_world (later w s) = w" "au_cache_device (later w s) = au_cache_device s"
  "base_key (later w s) = base_key s" "group_key (later w s) = group_key s" "action_key (later w s) = action_key s"
  by (simp_all add: later_def base_key_def group_key_def action_key_def fun_eq_iff)

definition readable :: "auto \<Rightarrow> world \<Rightarrow> bool" where
  "readable s w \<longleftrightarrow> w_redis_fault w = (\<lambda>_ _. None) \<and> w_now w < au_now s + automate_ttl"

lemma rd_get_later:
  assumes "readable s w" "au_redis u k = Some (v, au_now s + automate_ttl)"
  shows "rd_get k (later w u) = Inr v"
  using assms by (simp add: readable_def rd_get_def au_now_def)

lemma set_ord:
  assumes "\<And>xs. mset (ae_ord env xs) = mset xs" shows "set (ae_ord env xs) = set xs"
  using assms by (metis set_mset_mset)

lemma map_filter_all: "(\<And>x. x \<in> set xs \<Longrightarrow> f x = Some (g x)) \<Longrightarrow> List.map_filter f xs = map g xs"
  by (induction xs) (auto simp: List.map_filter_def)

lemma set_cache_ok:
  assumes nf: "no_redis_faults s" and ord: "\<And>xs. mset (ae_ord env xs) = mset xs"
  shows "\<exists>r. set_cache env device config cs as s = (None, s\<lparr>au_redis := r\<rparr>) \<and>
    (\<forall>w. readable s w \<longrightarrow>
      get_cache_by_d_id device config (base_key s (if config \<noteq> '''' then config else device)) (later w (s\<lparr>au_redis := r\<rparr>)) =
        Inr (CacheOk, \<lparr>xp_device = device, xp_config = config,
          xp_scenes = map (scene_of cs as) (scene_infos env cs as)\<rparr>))"
proof -
  let ?t = "au_now s + automate_ttl" and ?gs = "groups_of env cs" and ?is = "scene_infos env cs as"
  let ?b = "base_key s (if config \<noteq> '''' then config else device)"
  let ?A = "\<lambda>i. RAction (di_groups i) (filter (\<lambda>a. ac_scene a = di_scene i) as)"
  define r1 where "r1 = puts (group_key s) (\<lambda>g. RGroup (conditions_of g cs)) ?t ?gs (au_redis s)"
  define r2 where "r2 = puts (\<lambda>i. action_key s (di_scene i)) ?A ?t ?is r1"
  define r where "r = r2(?b \<mapsto> (RInfos ?is, ?t))"
  have 1: "until_error (put_group cs) ?gs s = (None, s\<lparr>au_redis := r1\<rparr>)"
    unfolding r1_def by (rule until_error_puts [OF nf]) (use nf in \<open>simp add: put_group_def\<close>)
  have 2: "until_error (put_action as) ?is (s\<lparr>au_redis := r1\<rparr>) = (None, s\<lparr>au_redis := r2\<rparr>)"
    using until_error_puts [of "s\<lparr>au_redis := r1\<rparr>" "put_action as" "\<lambda>i. action_key s (di_scene i)" ?A ?t ?is] nf
    by (simp add: r2_def put_action_def)
  have set: "set_cache env device config cs as s = (None, s\<lparr>au_redis := r\<rparr>)"
    using nf by (simp add: set_cache_def 1 2 r_def)
  have inj: "inj_on (\<lambda>i. action_key s (di_scene i)) (set ?is)"
    by (auto simp: inj_on_def scene_infos_def)
  have act: "r (action_key s (di_scene i)) = Some (?A i, ?t)" if "i \<in> set ?is" for i
    using puts_at [OF inj that] by (simp add: r_def r2_def)
  have grp: "r (group_key s g) = Some (RGroup (conditions_of g cs), ?t)" if "g \<in> set ?gs" for g
  proof -
    have "r2 (group_key s g) = r1 (group_key s g)" unfolding r2_def by (rule puts_other) auto
    moreover have "r1 (group_key s g) = Some (RGroup (conditions_of g cs), ?t)"
      unfolding r1_def by (rule puts_at [OF _ that]) (simp add: inj_on_def)
    ultimately show ?thesis by (simp add: r_def)
  qed
  have sub: "set (di_groups i) \<subseteq> set ?gs" if "i \<in> set ?is" for i
    using that by (auto simp: scene_infos_def groups_of_def set_ord [OF ord])
  have "cached_scene (later w (s\<lparr>au_redis := r\<rparr>)) i = Some (scene_of cs as i)"
    if w: "readable s w" and i: "i \<in> set ?is" for w i
  proof -
    have "get_group (group_key s g) (later w (s\<lparr>au_redis := r\<rparr>)) = Some (conditions_of g cs)"
      if "g \<in> set (di_groups i)" for g
      using rd_get_later [OF w] grp sub [OF i] that by (auto simp: get_group_def)
    moreover have "get_action (action_key s (di_scene i)) (later w (s\<lparr>au_redis := r\<rparr>)) =
        Some (di_groups i, filter (\<lambda>a. ac_scene a = di_scene i) as)"
      using rd_get_later [OF w] act [OF i] by (simp add: get_action_def)
    ultimately show ?thesis by (simp add: cached_scene_def scene_of_def cong: map_cong)
  qed
  moreover have "scan_infos ?b (later w (s\<lparr>au_redis := r\<rparr>)) = Inr (CacheOk, ?is)" if "readable s w" for w
    using rd_get_later [OF that, of "s\<lparr>au_redis := r\<rparr>" ?b] by (simp add: scan_infos_def r_def)
  ultimately have "get_cache_by_d_id device config ?b (later w (s\<lparr>au_redis := r\<rparr>)) =
      Inr (CacheOk, \<lparr>xp_device = device, xp_config = config, xp_scenes = map (scene_of cs as) ?is\<rparr>)"
    if "readable s w" for w
    using that by (simp add: get_cache_by_d_id_def map_filter_all)
  with set show ?thesis by blast
qed


lemma mset_concat_groups:
  "distinct gs \<Longrightarrow> mset (concat (map (\<lambda>g. filter (\<lambda>c. f c = g) cs) gs)) = mset (filter (\<lambda>c. f c \<in> set gs) cs)"
proof (induction gs)
  case (Cons g gs)
  have "mset (filter (\<lambda>c. f c \<in> set (g # gs)) cs) =
      mset (filter (\<lambda>c. f c = g) cs) + mset (filter (\<lambda>c. f c \<in> set gs) cs)"
    using Cons.prems by (induction cs) auto
  with Cons show ?case by simp
qed simp

lemma distinct_ord:
  assumes "\<And>xs. mset (ae_ord env xs) = mset xs" shows "distinct (ae_ord env xs) = distinct xs"
  by (metis assms mset_eq_imp_distinct_iff)

definition own_conditions :: "string \<Rightarrow> string \<Rightarrow> auto \<Rightarrow> trigger_condition list" where
  "own_conditions device config s = filter (\<lambda>c. tc_type c = kind_condition (kind_of config)
     \<and> tc_source c = Some (if config = '''' then device else config) \<and> tc_enabled c = ''Y'') (au_conditions s)"

text \<open>The rows the query reads for those conditions.\<close>

definition group_rows :: "string \<Rightarrow> string \<Rightarrow> auto \<Rightarrow> trigger_condition list" where
  "group_rows device config s = filter (\<lambda>c. tc_group c \<in> tc_group ` set (own_conditions device config s)
     \<and> tc_enabled c = ''Y'') (au_conditions s)"

definition scene_rows :: "string \<Rightarrow> string \<Rightarrow> auto \<Rightarrow> action_info list" where
  "scene_rows device config s =
     filter (\<lambda>a. ac_scene a \<in> tc_scene ` set (own_conditions device config s)) (au_actions s)"

lemma set_device_type_simps [simp]:
  "au_world (set_device_type k s) = au_world s" "au_redis (set_device_type k s) = au_redis s"
  "au_cache_device (set_device_type k s) = k" "au_conditions (set_device_type k s) = au_conditions s"
  "au_now (set_device_type k s) = au_now s" "no_redis_faults (set_device_type k s) = no_redis_faults s"
  "readable (set_device_type k s) = readable s"
  by (simp_all add: set_device_type_def au_now_def no_redis_faults_def readable_def fun_eq_iff)

lemma set_device_type_same: "au_cache_device u = k \<Longrightarrow> set_device_type k u = u"
  by (cases u) (simp add: set_device_type_def)

lemma query_automate_ok:
  assumes nf: "no_redis_faults s" and ord: "\<And>xs. mset (ae_ord env xs) = mset xs"
    and db: "\<forall>q. au_db_fault s q = None" and own: "own_conditions device config s \<noteq> []"
  defines "p \<equiv> \<lparr>xp_device = device, xp_config = config, xp_scenes =
      map (scene_of (group_rows device config s) (scene_rows device config s))
        (scene_infos env (group_rows device config s) (scene_rows device config s))\<rparr>"
  shows "\<exists>s'. query_automate_info env device config s = (Inr (CacheOk, p), s') \<and>
    (\<forall>w. readable s w \<longrightarrow> fst (get_cache_by_device_id device config (later w s')) = Inr (CacheOk, p))"
proof -
  let ?k = "set_device_type (kind_of config) s"
  let ?c = "group_rows device config s" and ?a = "scene_rows device config s"
  obtain r where r: "set_cache env device config ?c ?a ?k = (None, ?k\<lparr>au_redis := r\<rparr>)"
    and get: "\<And>w. readable s w \<Longrightarrow> get_cache_by_d_id device config
        (base_key ?k (if config \<noteq> '''' then config else device)) (later w (?k\<lparr>au_redis := r\<rparr>)) = Inr (CacheOk, p)"
    using set_cache_ok [of ?k env device config ?c ?a] nf ord unfolding p_def by auto
  have rd: "fst (get_cache_by_device_id device config (later w (?k\<lparr>au_redis := r\<rparr>))) = Inr (CacheOk, p)"
    if "readable s w" for w
    using get [OF that] by (simp add: get_cache_by_device_id_def set_device_type_same Let_def split: if_splits)
  have now: "readable s (au_world s)"
    using nf by (simp add: readable_def no_redis_faults_def au_now_def automate_ttl_def)
  have l: "later (au_world s) (?k\<lparr>au_redis := r\<rparr>) = ?k\<lparr>au_redis := r\<rparr>"
    by (cases s) (simp add: later_def set_device_type_def)
  have snd: "snd (get_cache_by_device_id device config (?k\<lparr>au_redis := r\<rparr>)) = ?k\<lparr>au_redis := r\<rparr>"
    by (simp add: get_cache_by_device_id_def set_device_type_same Let_def)
  have q1: "(if config \<noteq> '''' then conditions_by_device config ''11'' s else conditions_by_device device ''10'' s)
      = Inr (own_conditions device config s)"
    using db by (simp add: conditions_by_device_def own_conditions_def kind_of_def kind_condition_def)
  have q2: "conditions_by_groups (map tc_group (own_conditions device config s)) s = Inr ?c"
      "actions_by_scenes (remdups (map tc_scene (own_conditions device config s))) s = Inr ?a"
    using db by (simp_all add: conditions_by_groups_def actions_by_scenes_def group_rows_def scene_rows_def)
  obtain o1 os where o: "own_conditions device config s = o1 # os" using own by (cases "own_conditions device config s") auto
  have "query_automate_info env device config s = get_cache_by_device_id device config (?k\<lparr>au_redis := r\<rparr>)"
    using q2 unfolding query_automate_info_def q1 o
    by (simp only: sum.case list.case set_cache_by_device_id_def r prod.case option.case)
  also have "\<dots> = (Inr (CacheOk, p), ?k\<lparr>au_redis := r\<rparr>)"
    using rd [OF now] snd unfolding l by (simp add: prod_eq_iff)
  finally show ?thesis using rd by blast
qed


section \<open>Saving a scene\<close>

definition uncached :: "(string \<rightharpoonup> redis_value \<times> int) \<Rightarrow> int \<Rightarrow> string \<Rightarrow> bool" where
  "uncached r now k \<longleftrightarrow> (\<forall>v t. r k = Some (v, t) \<longrightarrow> t \<le> now)"

lemma add_scene_step:
  assumes "no_redis_faults s"
  shows "\<exists>r. add_scene info d s = (None, s\<lparr>au_redis := r\<rparr>) \<and>
    (\<forall>k. k \<noteq> base_key s d \<longrightarrow> r k = au_redis s k) \<and>
    (uncached (au_redis s) (au_now s) (base_key s d) \<longrightarrow>
       r (base_key s d) = Some (RInfos [info], au_now s + automate_ttl))"
proof (cases "scan_infos (base_key s d) s")
  case (Inl e)
  then have "\<not> uncached (au_redis s) (au_now s) (base_key s d)"
    using assms by (auto simp: scan_infos_def rd_get_ok uncached_def split: option.splits if_splits)
  with Inl show ?thesis by (intro exI [of _ "au_redis s"]) (simp add: add_scene_def)
next
  case (Inr p)
  then show ?thesis
    using assms by (intro exI [of _ "(au_redis s)(base_key s d \<mapsto> (RInfos (snd p @ [info]), au_now s + automate_ttl))"])
      (auto simp: add_scene_def scan_infos_def rd_get_ok uncached_def split: prod.split option.splits if_splits)
qed

lemma add_scenes:
  assumes "no_redis_faults s" "distinct ds"
  shows "\<exists>r. until_error (add_scene info) ds s = (None, s\<lparr>au_redis := r\<rparr>) \<and>
    (\<forall>k. k \<notin> base_key s ` set ds \<longrightarrow> r k = au_redis s k) \<and>
    (\<forall>d \<in> set ds. uncached (au_redis s) (au_now s) (base_key s d) \<longrightarrow>
       r (base_key s d) = Some (RInfos [info], au_now s + automate_ttl))"
  using assms
proof (induction ds arbitrary: s)
  case (Cons d ds)
  obtain r where r: "add_scene info d s = (None, s\<lparr>au_redis := r\<rparr>)"
      "\<And>k. k \<noteq> base_key s d \<Longrightarrow> r k = au_redis s k"
      "uncached (au_redis s) (au_now s) (base_key s d) \<Longrightarrow> r (base_key s d) = Some (RInfos [info], au_now s + automate_ttl)"
    using add_scene_step [OF Cons.prems(1)] by blast
  obtain r' where r': "until_error (add_scene info) ds (s\<lparr>au_redis := r\<rparr>) = (None, s\<lparr>au_redis := r'\<rparr>)"
      "\<And>k. k \<notin> base_key s ` set ds \<Longrightarrow> r' k = r k"
      "\<And>e. e \<in> set ds \<Longrightarrow> uncached r (au_now s) (base_key s e) \<Longrightarrow>
         r' (base_key s e) = Some (RInfos [info], au_now s + automate_ttl)"
    using Cons.IH [of "s\<lparr>au_redis := r\<rparr>"] Cons.prems by auto
  have "r' (base_key s e) = Some (RInfos [info], au_now s + automate_ttl)"
    if "e \<in> set (d # ds)" "uncached (au_redis s) (au_now s) (base_key s e)" for e
  proof (cases "e = d")
    case True
    have "base_key s e \<notin> base_key s ` set ds" using True Cons.prems(2) by (auto simp: image_iff)
    then have "r' (base_key s e) = r (base_key s e)" by (rule r'(2))
    with True r(3) that show ?thesis by simp
  next
    case False
    with r(2) have "r (base_key s e) = au_redis s (base_key s e)" by simp
    with that have "uncached r (au_now s) (base_key s e)" by (simp add: uncached_def)
    with False that r'(3) show ?thesis by simp
  qed
  moreover have "r' k = au_redis s k" if "k \<notin> base_key s ` set (d # ds)" for k
    using that r(2) r'(2) by simp
  ultimately show ?case using r(1) r'(1) by (intro exI [of _ r']) simp
next
  case Nil
  then show ?case by (intro exI [of _ "au_redis s"]) simp
qed

lemma scene_pass:
  assumes nf: "no_redis_faults s" and ord: "\<And>xs. mset (ae_ord env xs) = mset xs"
    and src: "sources (kind_condition (au_cache_device s)) cs = Some ds"
  shows "\<exists>r gs. set_cache_by_scene_aut_id env scene cs as s = Some (None, s\<lparr>au_redis := r\<rparr>) \<and>
    (\<forall>k i. k \<noteq> au_cache_device s \<longrightarrow> r (get_automate_cache_key k ''_'' i) = au_redis s (get_automate_cache_key k ''_'' i)) \<and>
    (\<forall>d \<in> set ds. uncached (au_redis s) (au_now s) (base_key s d) \<longrightarrow>
       r (base_key s d) = Some (RInfos [\<lparr>di_scene = scene, di_groups = gs\<rparr>], au_now s + automate_ttl) \<and>
       r (action_key s scene) = Some (RAction gs as, au_now s + automate_ttl))"
proof (cases "ds = []")
  case True
  with src show ?thesis by (intro exI [of _ "au_redis s"]) (simp add: set_cache_by_scene_aut_id_def)
next
  case False
  let ?ty = "kind_condition (au_cache_device s)" and ?t = "au_now s + automate_ttl"
  let ?gs = "filter (\<lambda>g. \<exists>c \<in> set cs. tc_group c = g \<and> tc_type c = ?ty) (groups_of env cs)"
  define r1 where "r1 = puts (group_key s) (\<lambda>g. RGroup (conditions_of g cs)) ?t ?gs (au_redis s)"
  have 1: "until_error (put_group cs) ?gs s = (None, s\<lparr>au_redis := r1\<rparr>)"
    unfolding r1_def by (rule until_error_puts [OF nf]) (use nf in \<open>simp add: put_group_def\<close>)
  have base: "r1 (get_automate_cache_key k ''_'' i) = au_redis s (get_automate_cache_key k ''_'' i)" for k i
    unfolding r1_def by (rule puts_other) (auto simp: group_key_def)
  let ?s2 = "s\<lparr>au_redis := r1(action_key s scene \<mapsto> (RAction ?gs as, ?t))\<rparr>"
  have d: "distinct (ae_ord env (remdups ds))" "set (ae_ord env (remdups ds)) = set ds"
    using distinct_ord [OF ord] set_ord [OF ord] by simp_all
  obtain r where r: "until_error (add_scene \<lparr>di_scene = scene, di_groups = ?gs\<rparr>) (ae_ord env (remdups ds)) ?s2 =
        (None, ?s2\<lparr>au_redis := r\<rparr>)"
      "\<And>k. k \<notin> base_key s ` set ds \<Longrightarrow> r k = au_redis ?s2 k"
      "\<And>d. d \<in> set ds \<Longrightarrow> uncached (au_redis ?s2) (au_now s) (base_key s d) \<Longrightarrow>
         r (base_key s d) = Some (RInfos [\<lparr>di_scene = scene, di_groups = ?gs\<rparr>], ?t)"
    using add_scenes [of ?s2 "ae_ord env (remdups ds)" "\<lparr>di_scene = scene, di_groups = ?gs\<rparr>", OF _ d(1)] nf
    unfolding d(2) by (auto simp del: fun_upd_apply)
  have "r (get_automate_cache_key k ''_'' i) = au_redis s (get_automate_cache_key k ''_'' i)"
    if "k \<noteq> au_cache_device s" for k i
  proof -
    have "get_automate_cache_key k ''_'' i \<notin> base_key s ` set ds" using that by (auto simp: base_key_def)
    from r(2) [OF this] base show ?thesis by (simp add: action_key_def)
  qed
  moreover have "r (base_key s e) = Some (RInfos [\<lparr>di_scene = scene, di_groups = ?gs\<rparr>], ?t) \<and>
      r (action_key s scene) = Some (RAction ?gs as, ?t)"
    if "e \<in> set ds" "uncached (au_redis s) (au_now s) (base_key s e)" for e
  proof -
    have "action_key s scene \<notin> base_key s ` set ds" by auto
    then have "r (action_key s scene) = Some (RAction ?gs as, ?t)" using r(2) by simp
    moreover have "au_redis ?s2 (base_key s e) = au_redis s (base_key s e)"
      using base by (simp add: base_key_def action_key_def)
    then have "uncached (au_redis ?s2) (au_now s) (base_key s e)" using that(2) by (simp only: uncached_def)
    ultimately show ?thesis using r(3) [OF that(1)] by blast
  qed
  moreover have "set_cache_by_scene_aut_id env scene cs as s = Some (None, s\<lparr>au_redis := r\<rparr>)"
    using False nf r(1) by (simp add: set_cache_by_scene_aut_id_def src 1 Let_def)
  ultimately show ?thesis by blast
qed


definition one_scene_per_group :: "trigger_condition list \<Rightarrow> bool" where
  "one_scene_per_group cs \<longleftrightarrow>
     (\<forall>c \<in> set cs. \<forall>c' \<in> set cs. tc_group c = tc_group c' \<longrightarrow> tc_scene c = tc_scene c')"

lemma own_rows:
  "set (own_conditions device config s) \<subseteq> set (group_rows device config s)"
  "set (group_rows device config s) \<subseteq> set (au_conditions s)"
  by (auto simp: own_conditions_def group_rows_def)

lemma group_row_own:
  assumes "one_scene_per_group (au_conditions s)" "c \<in> set (group_rows device config s)"
  shows "\<exists>o1 \<in> set (own_conditions device config s). tc_group o1 = tc_group c \<and> tc_scene o1 = tc_scene c"
proof -
  have "tc_group c \<in> tc_group ` set (own_conditions device config s)" using assms(2) by (simp add: group_rows_def)
  then obtain o1 where o1: "o1 \<in> set (own_conditions device config s)" "tc_group o1 = tc_group c" by force
  moreover have "o1 \<in> set (au_conditions s)" "c \<in> set (au_conditions s)" using own_rows o1(1) assms(2) by blast+
  with assms(1) o1(2) have "tc_scene o1 = tc_scene c" unfolding one_scene_per_group_def by blast
  ultimately show ?thesis by blast
qed

lemma scene_infos_scenes:
  assumes ord: "\<And>xs. mset (ae_ord env xs) = mset xs"
  shows "distinct (map di_scene (scene_infos env (group_rows device config s) (scene_rows device config s)))"
    and "di_scene ` set (scene_infos env (group_rows device config s) (scene_rows device config s)) =
      tc_scene ` set (own_conditions device config s) \<inter> ac_scene ` set (au_actions s)"
proof -
  let ?own = "own_conditions device config s" and ?c = "group_rows device config s" and ?a = "scene_rows device config s"
  let ?is = "scene_infos env ?c ?a"
  have m: "map di_scene ?is = filter (\<lambda>sc. \<exists>c \<in> set ?c. tc_scene c = sc) (ae_ord env (remdups (map ac_scene ?a)))"
    by (simp add: scene_infos_def comp_def)
  have a: "ac_scene ` set ?a = tc_scene ` set ?own \<inter> ac_scene ` set (au_actions s)"
    unfolding scene_rows_def set_filter by (intro equalityI subsetI) force+
  show "distinct (map di_scene ?is)" unfolding m using distinct_ord [OF ord] by simp
  have "set (map di_scene ?is) = {sc \<in> ac_scene ` set ?a. \<exists>c \<in> set ?c. tc_scene c = sc}"
    unfolding m using set_ord [OF ord] by simp
  also have "\<dots> = ac_scene ` set ?a" unfolding a using own_rows(1) [of device config s] by (auto 4 4)
  finally show "di_scene ` set ?is = tc_scene ` set ?own \<inter> ac_scene ` set (au_actions s)" unfolding a set_map .
qed

lemma scene_of_rows:
  assumes ord: "\<And>xs. mset (ae_ord env xs) = mset xs" and one: "one_scene_per_group (au_conditions s)"
    and i: "i \<in> set (scene_infos env (group_rows device config s) (scene_rows device config s))"
  defines "x \<equiv> scene_of (group_rows device config s) (scene_rows device config s) i"
  shows "si_actions x = filter (\<lambda>a. ac_scene a = di_scene i) (au_actions s)"
    and "mset (si_conditions x) = mset (filter (\<lambda>c. tc_enabled c = ''Y'' \<and>
      (\<exists>o1 \<in> set (own_conditions device config s). tc_scene o1 = di_scene i \<and> tc_group o1 = tc_group c)) (au_conditions s))"
proof -
  let ?own = "own_conditions device config s" and ?c = "group_rows device config s"
  have gs: "distinct (di_groups i)" "set (di_groups i) = {tc_group c | c. c \<in> set ?c \<and> tc_scene c = di_scene i}"
    using i distinct_ord [OF ord] set_ord [OF ord] by (auto simp: scene_infos_def groups_of_def)
  have m: "tc_group c \<in> set (di_groups i) \<longleftrightarrow>
      (\<exists>o1 \<in> set ?own. tc_scene o1 = di_scene i \<and> tc_group o1 = tc_group c)" for c
  proof
    assume "tc_group c \<in> set (di_groups i)"
    then obtain c' where "c' \<in> set ?c" "tc_scene c' = di_scene i" "tc_group c' = tc_group c" unfolding gs(2) by auto
    with group_row_own [OF one, of c' device config] show "\<exists>o1 \<in> set ?own. tc_scene o1 = di_scene i \<and> tc_group o1 = tc_group c"
      by auto
  next
    assume "\<exists>o1 \<in> set ?own. tc_scene o1 = di_scene i \<and> tc_group o1 = tc_group c"
    then obtain o1 where "o1 \<in> set ?own" "tc_scene o1 = di_scene i" "tc_group c = tc_group o1" by auto
    with own_rows(1) show "tc_group c \<in> set (di_groups i)" unfolding gs(2) by blast
  qed
  have "filter (\<lambda>c. tc_group c \<in> set (di_groups i)) ?c = filter (\<lambda>c. tc_enabled c = ''Y'' \<and>
      (\<exists>o1 \<in> set ?own. tc_scene o1 = di_scene i \<and> tc_group o1 = tc_group c)) (au_conditions s)"
    unfolding m group_rows_def filter_filter by (rule filter_cong) (auto intro: rev_image_eqI)
  then show "mset (si_conditions x) = mset (filter (\<lambda>c. tc_enabled c = ''Y'' \<and>
      (\<exists>o1 \<in> set ?own. tc_scene o1 = di_scene i \<and> tc_group o1 = tc_group c)) (au_conditions s))"
    using mset_concat_groups [OF gs(1), of tc_group ?c] by (simp add: x_def scene_of_def conditions_of_def)
  have "di_scene i \<in> tc_scene ` set ?own" using i scene_infos_scenes(2) [OF ord, of device config s] by blast
  then show "si_actions x = filter (\<lambda>a. ac_scene a = di_scene i) (au_actions s)"
    by (auto simp: x_def scene_of_def scene_rows_def intro!: filter_cong)
qed

lemma si_scene_of [simp]: "si_scene (scene_of cs as i) = di_scene i"
  by (simp add: scene_of_def)

section \<open>Properties\<close>

text \<open>C3: A device's report is checked against exactly the enabled rows of the tables. When the cache
  has nothing for the device (or its configuration) and nothing fails, filling it gives, for every
  order in which Go walks its maps, one entry per scene that has an enabled condition on it and an
  action: its actions are the scene's rows, and its conditions are all enabled rows of the groups the
  device occurs in, each once. Every read within the five minutes of the cache gives the same.\<close>
theorem cached_scenes_are_tables:
  assumes "no_redis_faults s" "\<forall>q. au_db_fault s q = None" "\<And>xs. mset (ae_ord env xs) = mset xs"
    and "one_scene_per_group (au_conditions s)"
    and "own_conditions device config s \<noteq> []"
  shows "\<exists>p s'. query_automate_info env device config s = (Inr (CacheOk, p), s') \<and>
    (\<forall>w. readable s w \<longrightarrow> fst (get_cache_by_device_id device config (later w s')) = Inr (CacheOk, p)) \<and>
    distinct (map si_scene (xp_scenes p)) \<and>
    si_scene ` set (xp_scenes p) = tc_scene ` set (own_conditions device config s) \<inter> ac_scene ` set (au_actions s) \<and>
    (\<forall>x \<in> set (xp_scenes p). si_actions x = filter (\<lambda>a. ac_scene a = si_scene x) (au_actions s) \<and>
      mset (si_conditions x) = mset (filter (\<lambda>c. tc_enabled c = ''Y'' \<and>
        (\<exists>o1 \<in> set (own_conditions device config s). tc_scene o1 = si_scene x \<and> tc_group o1 = tc_group c))
          (au_conditions s)))"
  using query_automate_ok [OF assms(1,3,2,5)] scene_infos_scenes [OF assms(3), of device config s]
    scene_of_rows [OF assms(3,4), of _ device config]
  by (auto simp: comp_def image_image)

text \<open>Saving a scene hides the other scenes of its devices. When the cache holds nothing (any
  more) for a single device, saving an enabled scene with a condition on that device leaves a cache
  entry that lists this scene alone: until it expires, the device's other scenes are not checked,
  whatever the tables say.\<close>
theorem scene_save_hides_others:
  assumes "no_redis_faults s" "\<And>xs. mset (ae_ord env xs) = mset xs"
    and "\<forall>c \<in> set cs. tc_type c \<in> {''10'', ''11''} \<longrightarrow> tc_source c \<noteq> None"
    and "\<exists>c \<in> set cs. tc_type c = ''10'' \<and> tc_source c = Some d"
    and "uncached (au_redis s) (au_now s) (get_automate_cache_key OneDevice ''_'' d)"
  shows "\<exists>s'. set_cache_by_scene env scene cs as s = Some (None, s') \<and> au_conditions s' = au_conditions s \<and>
    (\<forall>w. readable s w \<longrightarrow> (\<exists>p. fst (get_cache_by_device_id d '''' (later w s')) = Inr (CacheOk, p) \<and>
       map si_scene (xp_scenes p) = [scene]))"
proof -
  have src: "\<exists>ds. sources ty cs = Some ds \<and> (\<forall>c \<in> set cs. tc_type c = ty \<longrightarrow> the (tc_source c) \<in> set ds)"
    if "ty = ''10'' \<or> ty = ''11''" for ty
    using assms(3) that by (auto simp: sources_def image_iff)
  let ?m = "set_device_type MultipleDevice s"
  obtain ds0 where "sources (kind_condition (au_cache_device ?m)) cs = Some ds0"
    using src [of "''11''"] by (auto simp: kind_condition_def)
  from scene_pass [OF _ assms(2) this, of scene as] assms(1)
  obtain r where r: "set_cache_by_scene_aut_id env scene cs as ?m = Some (None, ?m\<lparr>au_redis := r\<rparr>)"
      "r (get_automate_cache_key OneDevice ''_'' d) = au_redis s (get_automate_cache_key OneDevice ''_'' d)"
    by auto
  let ?o = "set_device_type OneDevice (?m\<lparr>au_redis := r\<rparr>)"
  obtain ds where ds: "sources (kind_condition (au_cache_device ?o)) cs = Some ds" "d \<in> set ds"
    using src [of "''10''"] assms(4) by (force simp: kind_condition_def)
  have now: "au_now ?o = au_now s" "no_redis_faults ?o" "readable ?o = readable s"
    using assms(1) by (simp_all add: readable_def fun_eq_iff)
  have unc: "uncached (au_redis ?o) (au_now ?o) (base_key ?o d)"
    using assms(5) r(2) by (simp add: uncached_def base_key_def)
  obtain r' gs where r': "set_cache_by_scene_aut_id env scene cs as ?o = Some (None, ?o\<lparr>au_redis := r'\<rparr>)"
      "r' (base_key ?o d) = Some (RInfos [\<lparr>di_scene = scene, di_groups = gs\<rparr>], au_now s + automate_ttl)"
      "r' (action_key ?o scene) = Some (RAction gs as, au_now s + automate_ttl)"
    using scene_pass [OF now(2) assms(2) ds(1), of scene as] ds(2) unc unfolding now(1) by blast
  let ?s' = "?o\<lparr>au_redis := r'\<rparr>"
  have "\<exists>p. fst (get_cache_by_device_id d '''' (later w ?s')) = Inr (CacheOk, p) \<and> map si_scene (xp_scenes p) = [scene]"
    if w: "readable s w" for w
  proof -
    have g: "rd_get (base_key ?o d) (later w ?s') = Inr (RInfos [\<lparr>di_scene = scene, di_groups = gs\<rparr>])"
        "rd_get (action_key ?o scene) (later w ?s') = Inr (RAction gs as)"
      using rd_get_later [OF w] r'(2,3) by simp_all
    have k: "set_device_type OneDevice (later w ?s') = later w ?s'"
      by (rule set_device_type_same) simp
    show ?thesis
      using g by (simp add: get_cache_by_device_id_def k Let_def get_cache_by_d_id_def scan_infos_def
          cached_scene_def get_action_def kind_of_def List.map_filter_def)
  qed
  moreover have "set_cache_by_scene env scene cs as s = Some (None, ?s')"
    using r(1) r'(1) by (simp add: set_cache_by_scene_def for_both_def)
  ultimately show ?thesis by (intro exI [of _ ?s']) (simp add: set_device_type_def)
qed


section \<open>Witnesses\<close>

definition demo_env :: auto_env where
  "demo_env = \<lparr>ae_ord = (\<lambda>ks. ks), ae_fmt = (\<lambda>_. ''0''), ae_allow = (\<lambda>_ _. True), ae_put = (\<lambda>_ _ _ _. None)\<rparr>"

definition demo_condition :: trigger_condition where
  "demo_condition = \<lparr>tc_id = ''k1'', tc_scene = ''s1'', tc_enabled = ''Y'', tc_group = ''g1'', tc_type = ''10'',
     tc_source = Some ''d1'', tc_param_type = Some ''TEL'', tc_param = Some ''temp'', tc_operator = Some ''>'',
     tc_value = ''30''\<rparr>"

definition demo_action :: action_info where
  "demo_action = \<lparr>ac_scene = ''s1'', ac_target = Some ''d1'', ac_type = ''10'', ac_param_type = Some ''TEL'',
     ac_param = None, ac_value = Some ''x''\<rparr>"

definition demo_auto :: auto where
  "demo_auto = \<lparr>au_world = demo_world, au_conditions = [demo_condition], au_actions = [demo_action],
     au_scene_actions = [], au_scenes = [\<lparr>sa_id = ''s1'', sa_enabled = ''Y'', sa_tenant_id = ''t1''\<rparr>],
     au_scene_names = (\<lambda>_. None), au_current = (\<lambda>_ _. None), au_attribute = (\<lambda>_ _. None),
     au_event = (\<lambda>_ _. None), au_template = (\<lambda>_. None), au_identifier = (\<lambda>_ _ _. None), au_alarms = [],
     au_history = [], au_scene_logs = [], au_active_logs = [], au_redis = (\<lambda>_. None), au_cache_device = OneDevice,
     au_allowed = (\<lambda>_. 0), au_device = None,
     au_ext = \<lparr>ae_param_type = [], ae_param = [], ae_values = []\<rparr>, au_executed = [], au_effects = []\<rparr>"

lemma demo_auto_facts:
  "no_redis_faults demo_auto" "\<forall>q. au_db_fault demo_auto q = None"
  "one_scene_per_group (au_conditions demo_auto)" "mset (ae_ord demo_env xs) = mset xs"
  "own_conditions ''d1'' '''' demo_auto = [demo_condition]"
  "uncached (au_redis demo_auto) (au_now demo_auto) k"
  by (simp_all add: demo_auto_def demo_world_def empty_world_def no_redis_faults_def au_db_fault_def demo_env_def
      one_scene_per_group_def own_conditions_def demo_condition_def kind_of_def kind_condition_def uncached_def)

theorem cached_scenes_are_tables_witness:
  "\<exists>p s'. query_automate_info demo_env ''d1'' '''' demo_auto = (Inr (CacheOk, p), s') \<and>
     map si_scene (xp_scenes p) = [''s1''] \<and> (\<forall>x \<in> set (xp_scenes p). si_actions x = [demo_action])"
proof -
  obtain p s' where p: "query_automate_info demo_env ''d1'' '''' demo_auto = (Inr (CacheOk, p), s')"
      "distinct (map si_scene (xp_scenes p))"
      "si_scene ` set (xp_scenes p) = tc_scene ` set (own_conditions ''d1'' '''' demo_auto) \<inter> ac_scene ` set (au_actions demo_auto)"
      "\<And>x. x \<in> set (xp_scenes p) \<Longrightarrow> si_actions x = filter (\<lambda>a. ac_scene a = si_scene x) (au_actions demo_auto)"
    using cached_scenes_are_tables [OF demo_auto_facts(1,2,4,3), of "''d1''" "''''"] demo_auto_facts(5) by auto
  have "set (map si_scene (xp_scenes p)) = {''s1''}"
    using p(3) unfolding demo_auto_facts(5) by (simp add: demo_auto_def demo_action_def demo_condition_def)
  then have m: "map si_scene (xp_scenes p) = [''s1'']"
    using p(2) by (cases "map si_scene (xp_scenes p)") (auto simp: subset_singleton_iff)
  moreover have "si_actions x = [demo_action]" if "x \<in> set (xp_scenes p)" for x
  proof -
    have "si_scene x \<in> set (map si_scene (xp_scenes p))" using that by simp
    with m p(4) [OF that] show ?thesis by (simp add: demo_auto_def demo_action_def)
  qed
  ultimately show ?thesis using p(1) by (intro exI [of _ p] exI [of _ s']) simp
qed

theorem scene_save_hides_others_witness:
  "\<exists>s' p. set_cache_by_scene demo_env ''s2'' [demo_condition\<lparr>tc_scene := ''s2''\<rparr>] [] demo_auto = Some (None, s') \<and>
     fst (get_cache_by_device_id ''d1'' '''' (later demo_world s')) = Inr (CacheOk, p) \<and>
     map si_scene (xp_scenes p) = [''s2''] \<and> demo_condition \<in> set (au_conditions s')"
proof -
  let ?cs = "[demo_condition\<lparr>tc_scene := ''s2''\<rparr>]"
  have w: "readable demo_auto demo_world"
    by (simp add: readable_def demo_auto_def demo_world_def empty_world_def au_now_def automate_ttl_def)
  have c: "\<forall>c \<in> set ?cs. tc_type c \<in> {''10'', ''11''} \<longrightarrow> tc_source c \<noteq> None"
      "\<exists>c \<in> set ?cs. tc_type c = ''10'' \<and> tc_source c = Some ''d1''"
    by (simp_all add: demo_condition_def)
  from scene_save_hides_others [OF demo_auto_facts(1,4) c demo_auto_facts(6), of "''s2''" "[]"]
  obtain s' where s': "set_cache_by_scene demo_env ''s2'' ?cs [] demo_auto = Some (None, s')"
      "au_conditions s' = au_conditions demo_auto"
      "\<forall>w. readable demo_auto w \<longrightarrow> (\<exists>p. fst (get_cache_by_device_id ''d1'' '''' (later w s')) = Inr (CacheOk, p) \<and>
         map si_scene (xp_scenes p) = [''s2''])"
    by (elim exE conjE)
  from s'(3) w obtain p where "fst (get_cache_by_device_id ''d1'' '''' (later demo_world s')) = Inr (CacheOk, p)"
      "map si_scene (xp_scenes p) = [''s2'']" by (elim allE impE exE conjE)
  moreover have "demo_condition \<in> set (au_conditions s')" unfolding s'(2) by (simp add: demo_auto_def)
  ultimately show ?thesis using s'(1) by (intro exI [of _ s'] exI [of _ p]) simp
qed

end
