(* ===== verification/AlarmCache.thy ===== *)
theory AlarmCache
  imports AutomateCache
begin

text \<open>
  \<open>initialize/alarm_cache.go\<close>, the alarm decorations of \<open>automate_decoration.go\<close> and the two functions
  of \<open>alarm.go\<close> they call: which alarms are active, by condition group, so that an alarm that has
  fired is not repeated and is recovered when the group's condition no longer holds. The JSON of a
  notification is not modelled; its group, alarm and content are.
\<close>

section \<open>The cache\<close>

definition alarm_ttl :: int where "alarm_ttl = 518400000"

definition alarm_group_key :: "string \<Rightarrow> string" where
  "alarm_group_key g = ''alarm_cache_group_v6_'' @ g"

definition alarm_device_key :: "string \<Rightarrow> string" where
  "alarm_device_key d = ''alarm_cach_device_v6_'' @ d"

definition alarm_alarm_key :: "string \<Rightarrow> string \<Rightarrow> string" where
  "alarm_alarm_key a d = ''alarm_cach_alarm_v6_'' @ a @ ''_'' @ d"

definition alarm_scene_key :: "string \<Rightarrow> string" where
  "alarm_scene_key sc = ''alarm_cach_scene_v6_'' @ sc"

text \<open>A list of ids, empty when there is none; the stored group, the zero struct when there is none.
  The client returns \<open>redis.Nil\<close> itself, never wrapped.\<close>

definition get_ids :: "string \<Rightarrow> auto \<Rightarrow> string list res" where
  "get_ids k s = (case rd_get k s of
      Inl e \<Rightarrow> if e = RedisNil then Inr [] else Inl e
    | Inr (RIds is) \<Rightarrow> Inr is
    | Inr _ \<Rightarrow> Inl bad_value)"

definition no_alarm_group :: alarm_group where
  "no_alarm_group = \<lparr>ag_scene = [], ag_configs = [], ag_devices = [], ag_contents = []\<rparr>"

definition get_by_group_id :: "string \<Rightarrow> auto \<Rightarrow> alarm_group res" where
  "get_by_group_id g s = (case rd_get (alarm_group_key g) s of
      Inl e \<Rightarrow> if e = RedisNil then Inr no_alarm_group else Inl e
    | Inr (RAlarmGroup i) \<Rightarrow> Inr i
    | Inr _ \<Rightarrow> Inl bad_value)"

definition get_by_scene :: "string \<Rightarrow> auto \<Rightarrow> string list res" where
  "get_by_scene sc s = (case get_ids (alarm_scene_key sc) s of Inl e \<Rightarrow> Inl e | Inr gs \<Rightarrow> Inr gs)"

definition group_cache_add :: "string \<Rightarrow> string \<Rightarrow> auto \<Rightarrow> gerror option \<times> auto" where
  "group_cache_add g k s = (case get_ids k s of
      Inl e \<Rightarrow> (Some e, s)
    | Inr gs \<Rightarrow> if g \<in> set gs then (None, s) else rd_set k (RIds (gs @ [g])) alarm_ttl s)"

text \<open>The loop of \<open>groupCacheDel\<close> deletes while it ranges over the slice: \<open>b\<close> is the backing array,
  \<open>m\<close> the length the slice has shrunk to; a match past that length panics.\<close>

fun del_loop :: "string \<Rightarrow> nat \<Rightarrow> nat \<Rightarrow> nat \<Rightarrow> string list \<Rightarrow> string list option" where
  "del_loop g 0 i m b = Some (take m b)"
| "del_loop g (Suc n) i m b =
     (if b ! i = g
      then if m < i + 1 then None
           else del_loop g n (i + 1) (m - 1) (take i b @ take (m - 1 - i) (drop (i + 1) b) @ drop (m - 1) b)
      else del_loop g n (i + 1) m b)"

definition group_cache_del :: "string \<Rightarrow> string \<Rightarrow> auto \<Rightarrow> (gerror option \<times> auto) option" where
  "group_cache_del g k s = (case get_ids k s of
      Inl e \<Rightarrow> Some (Some e, s)
    | Inr gs \<Rightarrow> (case del_loop g (length gs) 0 (length gs) gs of
        None \<Rightarrow> None
      | Some gs' \<Rightarrow> Some (if gs' \<noteq> [] then rd_set k (RIds gs') alarm_ttl s else rd_del [k] s)))"

fun until_error_opt :: "('a \<Rightarrow> 's \<Rightarrow> (gerror option \<times> 's) option) \<Rightarrow> 'a list \<Rightarrow> 's \<Rightarrow> (gerror option \<times> 's) option" where
  "until_error_opt f [] s = Some (None, s)"
| "until_error_opt f (x # xs) s = (case f x s of
     None \<Rightarrow> None
   | Some (Some e, s') \<Rightarrow> Some (Some e, s')
   | Some (None, s') \<Rightarrow> until_error_opt f xs s')"

definition set_device :: "string \<Rightarrow> string \<Rightarrow> string list \<Rightarrow> string list \<Rightarrow> auto \<Rightarrow> gerror option \<times> auto" where
  "set_device g sc devices contents s = (case w_redis_fault (au_world s) ''exists'' (alarm_group_key g) of
      Some e \<Rightarrow> (Some (wrap (utf8 [230, 163, 128, 230, 159, 165, 231, 188, 147, 229, 173, 152, 230, 152, 175, 229, 144, 166, 229, 173, 152, 229, 156, 168, 229, 164, 177, 232, 180, 165]) e), s)
    | None \<Rightarrow>
        let present = (case au_redis s (alarm_group_key g) of None \<Rightarrow> False | Some (_, t) \<Rightarrow> au_now s < t);
            info = (if present
              then (case rd_get (alarm_group_key g) s of
                  Inl e \<Rightarrow> Inl (wrap (utf8 [232, 142, 183, 229, 143, 150, 231, 188, 147, 229, 173, 152, 229, 164, 177, 232, 180, 165]) e)
                | Inr (RAlarmGroup i) \<Rightarrow> Inr (i\<lparr>ag_contents := contents\<rparr>)
                | Inr _ \<Rightarrow> Inl (wrap (utf8 [232, 142, 183, 229, 143, 150, 231, 188, 147, 229, 173, 152, 229, 164, 177, 232, 180, 165]) bad_value))
              else Inr \<lparr>ag_scene = sc, ag_configs = [], ag_devices = devices, ag_contents = contents\<rparr>)
        in case info of
            Inl e \<Rightarrow> (Some e, s)
          | Inr i \<Rightarrow> (case rd_set (alarm_group_key g) (RAlarmGroup i) alarm_ttl s of
              (Some e, s1) \<Rightarrow> (Some e, s1)
            | (None, s1) \<Rightarrow> (case until_error (group_cache_add g) (map alarm_device_key devices) s1 of
                (Some e, s2) \<Rightarrow> (Some e, s2)
              | (None, s2) \<Rightarrow> group_cache_add g (alarm_scene_key sc) s2)))"

fun get_alarm_device_exists :: "string list \<Rightarrow> string \<Rightarrow> string \<Rightarrow> auto \<Rightarrow> bool res" where
  "get_alarm_device_exists [] a g s = Inr False"
| "get_alarm_device_exists (d # ds) a g s = (case get_ids (alarm_alarm_key a d) s of
     Inl e \<Rightarrow> Inl e
   | Inr gs \<Rightarrow> if g \<in> set gs then Inr True else get_alarm_device_exists ds a g s)"

definition set_alarm :: "string \<Rightarrow> string list \<Rightarrow> string \<Rightarrow> auto \<Rightarrow> gerror option \<times> auto" where
  "set_alarm g alarms d s = (case get_by_group_id g s of
      Inl e \<Rightarrow> (Some e, s)
    | Inr i \<Rightarrow> (case rd_set (alarm_group_key g) (RAlarmGroup (i\<lparr>ag_configs := alarms\<rparr>)) alarm_ttl s of
        (Some e, s1) \<Rightarrow> (Some e, s1)
      | (None, s1) \<Rightarrow> until_error (group_cache_add g) (map (\<lambda>a. alarm_alarm_key a d) alarms) s1))"

definition delete_by_group_id :: "string \<Rightarrow> auto \<Rightarrow> (gerror option \<times> auto) option" where
  "delete_by_group_id g s = (case get_by_group_id g s of
      Inl e \<Rightarrow> Some (Some e, s)
    | Inr i \<Rightarrow> (case until_error_opt (group_cache_del g)
          (concat (map (\<lambda>a. map (alarm_alarm_key a) (ag_devices i)) (ag_configs i)) @
           map alarm_device_key (ag_devices i) @ [alarm_scene_key (ag_scene i)]) s of
        None \<Rightarrow> None
      | Some (Some e, s1) \<Rightarrow> Some (Some e, s1)
      | Some (None, s1) \<Rightarrow> Some (rd_del [alarm_group_key g] s1)))"

text \<open>\<open>SCAN\<close> with the pattern of an alarm's keys, and their deletion.\<close>

definition delete_by_alarm_id :: "string \<Rightarrow> auto \<Rightarrow> gerror option \<times> auto" where
  "delete_by_alarm_id a s =
     (let pat = ''alarm_cach_alarm_v6_'' @ a @ ''_'' in
      case w_redis_fault (au_world s) ''scan'' pat of
        Some e \<Rightarrow> (Some (wrap (utf8 [230, 137, 171, 230, 143, 143, 229, 145, 138, 232, 173, 166, 231, 188, 147, 229, 173, 152, 107, 101, 121, 229, 164, 177, 232, 180, 165]) e), s)
      | None \<Rightarrow> (case w_redis_fault (au_world s) ''del'' pat of
          Some e \<Rightarrow> (Some (wrap (utf8 [229, 136, 160, 233, 153, 164, 229, 145, 138, 232, 173, 166, 231, 188, 147, 229, 173, 152, 229, 164, 177, 232, 180, 165]) e), s)
        | None \<Rightarrow> (None, s\<lparr>au_redis := (\<lambda>k. if has_prefix k pat then None else au_redis s k)\<rparr>)))"

section \<open>Raising and recovering an alarm\<close>

definition get_alarm_by_id :: "string \<Rightarrow> auto \<Rightarrow> alarm_config res" where
  "get_alarm_by_id a s = (case au_db_fault s ''alarm_config.first'' of
      Some e \<Rightarrow> Inl e
    | None \<Rightarrow> (case find (\<lambda>c. al_id c = a) (au_alarms s) of None \<Rightarrow> Inl RecordNotFound | Some c \<Rightarrow> Inr c))"

definition alarm_history_save :: "alarm_history \<Rightarrow> auto \<Rightarrow> gerror option \<times> auto" where
  "alarm_history_save h s = (case au_db_fault s ''alarm_history.save'' of
      Some e \<Rightarrow> (Some e, s) | None \<Rightarrow> (None, s\<lparr>au_history := au_history s @ [h]\<rparr>))"

definition history_row :: "alarm_config \<Rightarrow> string \<Rightarrow> string \<Rightarrow> string \<Rightarrow> string list \<Rightarrow> string \<Rightarrow> int \<Rightarrow> alarm_history" where
  "history_row c content sc g devices status now =
     \<lparr>ah_name = al_name c, ah_config_id = al_id c, ah_content = content, ah_description = al_description c,
      ah_tenant_id = al_tenant_id c, ah_scene = sc, ah_group = g,
      ah_devices = json_print (if devices = [] then JNull else JArr (map JStr devices)),
      ah_status = status, ah_create_at = now\<rparr>"

definition emit_auto :: "auto_effect \<Rightarrow> auto \<Rightarrow> auto" where
  "emit_auto e s = s\<lparr>au_effects := au_effects s @ [e]\<rparr>"

definition svc_alarm_execute :: "string \<Rightarrow> string \<Rightarrow> string \<Rightarrow> string \<Rightarrow> string list \<Rightarrow> auto \<Rightarrow>
    (bool \<times> string \<times> string) \<times> auto" where
  "svc_alarm_execute a content sc g devices s = (case get_alarm_by_id a s of
      Inl e \<Rightarrow> ((False, '''', error_msg e), s)
    | Inr c \<Rightarrow>
        if al_enabled c \<noteq> ''Y'' then ((False, '''', utf8 [229, 145, 138, 232, 173, 166, 233, 133, 141, 231, 189, 174, 230, 156, 170, 229, 144, 175, 231, 148, 168]), s)
        else let s1 = (if al_notification_group c \<noteq> '''' then emit_auto (Notify (al_notification_group c) a content) s else s)
          in case alarm_history_save (history_row c content sc g devices (al_level c) (au_now s)) s1 of
              (Some e, s2) \<Rightarrow> ((False, al_name c, error_msg e), s2)
            | (None, s2) \<Rightarrow> ((True, al_name c, ''''), s2))"

definition svc_alarm_recovery :: "string \<Rightarrow> string \<Rightarrow> string \<Rightarrow> string \<Rightarrow> string list \<Rightarrow> auto \<Rightarrow> auto" where
  "svc_alarm_recovery a content sc g devices s = (case get_alarm_by_id a s of
      Inl _ \<Rightarrow> s
    | Inr c \<Rightarrow> snd (alarm_history_save (history_row c content sc g devices ''N'' (au_now s)) s))"

definition join_contents :: "string \<Rightarrow> string list \<Rightarrow> string" where
  "join_contents head cs = head @ concat (map (\<lambda>c. '';'' @ c) cs)"

definition alarm_exists_reason :: string where
  "alarm_exists_reason = utf8 [229, 145, 138, 232, 173, 166, 229, 183, 178, 229, 173, 152, 229, 156, 168]"

fun alarm_groups :: "string \<Rightarrow> string \<Rightarrow> string list \<Rightarrow> bool \<times> string \<times> string \<Rightarrow> auto \<Rightarrow>
    (bool \<times> string \<times> string) \<times> auto" where
  "alarm_groups a sc [] r s = (r, s)"
| "alarm_groups a sc (g # gs) (ok, name, reason) s = (case get_by_group_id g s of
     Inl _ \<Rightarrow> ((ok, name, utf8 [229, 145, 138, 232, 173, 166, 231, 188, 147, 229, 173, 152, 228, 184, 141, 229, 173, 152, 229, 156, 168]), s)
   | Inr i \<Rightarrow> (case get_alarm_device_exists (ag_devices i) a g s of
       Inl _ \<Rightarrow> ((ok, name, utf8 [230, 159, 165, 232, 175, 162, 229, 145, 138, 232, 173, 166, 231, 188, 147, 229, 173, 152, 229, 164, 177, 232, 180, 165]), s)
     | Inr True \<Rightarrow> alarm_groups a sc gs (ok, name, alarm_exists_reason) s
     | Inr False \<Rightarrow> (case svc_alarm_execute a (join_contents (utf8 [229, 156, 186, 230, 153, 175, 232, 135, 170, 229, 138, 168, 229, 140, 150, 232, 167, 166, 229, 143, 145, 229, 145, 138, 232, 173, 166]) (ag_contents i)) sc g (ag_devices i) s of
         (r, s1) \<Rightarrow> alarm_groups a sc gs r s1)))"

definition alarm_execute :: "string \<Rightarrow> string \<Rightarrow> auto \<Rightarrow> (bool \<times> string \<times> string) \<times> auto" where
  "alarm_execute a sc s = (case get_by_scene sc s of
      Inl _ \<Rightarrow> ((False, '''', utf8 [229, 145, 138, 232, 173, 166, 231, 188, 147, 229, 173, 152, 228, 184, 141, 229, 173, 152, 229, 156, 168]), s)
    | Inr gs \<Rightarrow> if gs = [] then ((False, '''', utf8 [229, 145, 138, 232, 173, 166, 231, 188, 147, 229, 173, 152, 228, 184, 141, 229, 173, 152, 229, 156, 168]), s)
               else alarm_groups a sc gs (False, '''', '''') s)"

definition alarm_recovery :: "string \<Rightarrow> string list \<Rightarrow> auto \<Rightarrow> gerror option \<times> auto" where
  "alarm_recovery g contents s = (case get_by_group_id g s of
      Inl e \<Rightarrow> (Some e, s)
    | Inr i \<Rightarrow> (None, fold (\<lambda>a. svc_alarm_recovery a (join_contents (utf8 [229, 156, 186, 230, 153, 175, 232, 135, 170, 229, 138, 168, 229, 140, 150, 230, 129, 162, 229, 164, 141, 229, 145, 138, 232, 173, 166]) contents)
        (ag_scene i) g (ag_devices i)) (ag_configs i) s))"

section \<open>The decorations\<close>

text \<open>The devices of a group's conditions; a nil source panics.\<close>

fun condition_devices :: "string \<Rightarrow> trigger_condition list \<Rightarrow> string list option" where
  "condition_devices d [] = Some []"
| "condition_devices d (c # cs) =
     (if tc_type c = ''10'' then (case tc_source c of
          None \<Rightarrow> None | Some x \<Rightarrow> map_option (Cons x) (condition_devices d cs))
      else if tc_type c = ''11'' then map_option (Cons d) (condition_devices d cs)
      else condition_devices d cs)"

definition condition_after_alarm :: "bool \<Rightarrow> trigger_condition list \<Rightarrow> string \<Rightarrow> string list \<Rightarrow> auto \<Rightarrow>
    (gerror option \<times> auto) option" where
  "condition_after_alarm ok cs d contents s = (case condition_devices d cs of
      None \<Rightarrow> None
    | Some ds \<Rightarrow>
        if ds = [] then Some (None, s)
        else let g = tc_group (last cs); sc = tc_scene (last cs) in
          if ok then (case set_device g sc ds contents s of
              (Some e, s1) \<Rightarrow> Some (Some (wrap (utf8 [231, 188, 147, 229, 173, 152, 232, 174, 190, 231, 189, 174, 229, 164, 177, 232, 180, 165]) e), s1) | (None, s1) \<Rightarrow> Some (None, s1))
          else (case alarm_recovery g contents s of
              (Some e, s1) \<Rightarrow> Some (Some (wrap (utf8 [230, 129, 162, 229, 164, 141, 229, 145, 138, 232, 173, 166, 229, 164, 177, 232, 180, 165]) e), s1)
            | (None, s1) \<Rightarrow> (case delete_by_group_id g s1 of
                None \<Rightarrow> None
              | Some (Some e, s2) \<Rightarrow> Some (Some (wrap (utf8 [231, 188, 147, 229, 173, 152, 232, 174, 190, 231, 189, 174, 229, 164, 177, 232, 180, 165]) e), s2)
              | Some (None, s2) \<Rightarrow> Some (None, s2))))"

definition alarm_targets :: "action_info list \<Rightarrow> string list" where
  "alarm_targets as = List.map_filter (\<lambda>a. case ac_target a of
     Some t \<Rightarrow> if ac_type a = ''30'' \<and> t \<noteq> '''' then Some t else None | None \<Rightarrow> None) as"

text \<open>\<open>actions[0]\<close> panics on an empty list. An action that failed leaves the cache as it is.\<close>

definition action_after_alarm :: "action_info list \<Rightarrow> string \<Rightarrow> gerror option \<Rightarrow> auto \<Rightarrow>
    (gerror option \<times> auto) option" where
  "action_after_alarm as d err s = (case as of
      [] \<Rightarrow> None
    | a # _ \<Rightarrow> (case get_by_scene (ac_scene a) s of
        Inl e \<Rightarrow> Some (Some (wrap (utf8 [232, 142, 183, 229, 143, 150, 231, 188, 147, 229, 173, 152, 229, 164, 177, 232, 180, 165, 49]) e), s)
      | Inr gs \<Rightarrow> (case until_error_opt (\<lambda>g u.
            if alarm_targets as = [] then delete_by_group_id g u
            else if err = None then Some (set_alarm g (alarm_targets as) d u)
            else Some (None, u)) gs s of
          None \<Rightarrow> None
        | Some (Some e, s1) \<Rightarrow> Some (Some (wrap (utf8 [231, 188, 147, 229, 173, 152, 229, 136, 160, 233, 153, 164, 230, 136, 150, 232, 174, 190, 231, 189, 174, 229, 164, 177, 232, 180, 165]) e), s1)
        | Some (None, s1) \<Rightarrow> Some (None, s1))))"


section \<open>Lists of groups\<close>

lemma del_loop_none: "\<forall>j. i \<le> j \<and> j < i + k \<longrightarrow> b ! j \<noteq> g \<Longrightarrow> del_loop g k i m b = Some (take m b)"
  by (induction g k i m b rule: del_loop.induct) auto

text \<open>One match, at position \<open>i\<close> of a list without repetition: the list without it.\<close>

lemma del_loop_match:
  assumes "distinct b" "i < length b" "b ! i = g"
  shows "del_loop g (length b - i) i (length b) b = Some (remove1 g b)"
proof -
  let ?n = "length b"
  let ?b = "take i b @ take (?n - 1 - i) (drop (i + 1) b) @ drop (?n - 1) b"
  have k: "?n - i = Suc (?n - (i + 1))" using assms(2) by simp
  have "?b ! j \<noteq> g" if "i + 1 \<le> j" "j < ?n" for j
  proof (cases "j < ?n - 1")
    case True
    with that have "j - i < ?n - 1 - i" "\<not> j < i" by linarith+
    with that have "?b ! j = b ! (j + 1)" by (simp add: nth_append)
    moreover have "b ! (j + 1) \<noteq> b ! i" using True that assms(1,2) by (simp add: nth_eq_iff_index_eq)
    ultimately show ?thesis using assms(3) by simp
  next
    case False
    with that have "j = ?n - 1" by simp
    with that have "?b ! j = b ! (?n - 1)" by (simp add: nth_append)
    moreover have "b ! (?n - 1) \<noteq> b ! i" using that assms(1,2) by (simp add: nth_eq_iff_index_eq)
    ultimately show ?thesis using assms(3) by simp
  qed
  then have "del_loop g (?n - (i + 1)) (i + 1) (?n - 1) ?b = Some (take (?n - 1) ?b)"
    using assms(2) by (intro del_loop_none allI impI) (metis le_add_diff_inverse Suc_leI Suc_eq_plus1)
  moreover have "take (?n - 1) ?b = remove1 g b"
  proof -
    have b: "b = take i b @ g # drop (i + 1) b" using assms(2,3) id_take_nth_drop [OF assms(2)] by simp
    have "g \<notin> set (take i b)" using assms(1) unfolding b [symmetric] by (subst (asm) b) simp
    then have "remove1 g b = take i b @ drop (i + 1) b" by (subst b) (simp add: remove1_append)
    with assms(2) show ?thesis by simp
  qed
  ultimately show ?thesis using assms(2,3) by (simp add: k)
qed

lemma del_loop_distinct:
  assumes "distinct b" shows "del_loop g (length b) 0 (length b) b = Some (remove1 g b)"
proof -
  have "del_loop g (length b - i) i (length b) b = Some (remove1 g b)" if "g \<notin> set (take i b)" "i \<le> length b" for i
    using that
  proof (induction "length b - i" arbitrary: i)
    case 0
    then show ?case by (simp add: remove1_idem)
  next
    case (Suc k)
    show ?case
    proof (cases "b ! i = g")
      case True
      with Suc.hyps(2) show ?thesis by (intro del_loop_match [OF assms]) simp_all
    next
      case False
      with Suc.prems Suc.hyps(2) have "g \<notin> set (take (Suc i) b)" by (simp add: take_Suc_conv_app_nth)
      moreover have "length b - i = Suc (length b - Suc i)" using Suc.hyps(2) by simp
      ultimately show ?thesis using Suc.hyps(1) [of "Suc i"] Suc.hyps(2) False by simp
    qed
  qed
  from this [of 0] show ?thesis by simp
qed


section \<open>The invariant of the cache\<close>

lemma alarm_keys_distinct [simp]:
  "alarm_group_key g \<noteq> alarm_device_key d" "alarm_group_key g \<noteq> alarm_alarm_key a d" "alarm_group_key g \<noteq> alarm_scene_key sc"
  "alarm_device_key d \<noteq> alarm_group_key g" "alarm_alarm_key a d \<noteq> alarm_group_key g" "alarm_scene_key sc \<noteq> alarm_group_key g"
  "alarm_device_key d \<noteq> alarm_alarm_key a e" "alarm_device_key d \<noteq> alarm_scene_key sc"
  "alarm_alarm_key a e \<noteq> alarm_device_key d" "alarm_alarm_key a e \<noteq> alarm_scene_key sc"
  "alarm_scene_key sc \<noteq> alarm_device_key d" "alarm_scene_key sc \<noteq> alarm_alarm_key a e"
  "alarm_group_key g = alarm_group_key h \<longleftrightarrow> g = h"
  by (simp_all add: alarm_group_key_def alarm_device_key_def alarm_alarm_key_def alarm_scene_key_def)

definition list_key :: "string \<Rightarrow> bool" where
  "list_key k \<longleftrightarrow> (\<exists>a d. k = alarm_alarm_key a d \<or> k = alarm_device_key d \<or> k = alarm_scene_key d)"

lemma list_key_simps [simp]:
  "list_key (alarm_alarm_key a d)" "list_key (alarm_device_key d)" "list_key (alarm_scene_key sc)"
  "\<not> list_key (alarm_group_key g)"
  by (auto simp: list_key_def)

text \<open>Every list of groups is free of repetition, and every key holds its kind of value.\<close>

definition alarm_value_ok :: "string \<Rightarrow> redis_value \<Rightarrow> bool" where
  "alarm_value_ok k v \<longleftrightarrow> (list_key k \<longrightarrow> (\<exists>gs. v = RIds gs \<and> distinct gs)) \<and>
     (\<forall>g. k = alarm_group_key g \<longrightarrow> (\<exists>i. v = RAlarmGroup i))"

lemma alarm_value_ok_simps [simp]:
  "alarm_value_ok (alarm_group_key g) v \<longleftrightarrow> (\<exists>i. v = RAlarmGroup i)"
  "list_key k \<Longrightarrow> alarm_value_ok k v \<longleftrightarrow> (\<exists>gs. v = RIds gs \<and> distinct gs)"
  by (auto simp: alarm_value_ok_def)

definition alarm_ok :: "auto \<Rightarrow> bool" where
  "alarm_ok s \<longleftrightarrow> no_redis_faults s \<and> (\<forall>k v t. au_redis s k = Some (v, t) \<longrightarrow> alarm_value_ok k v)"

lemma alarm_okD: "alarm_ok s \<Longrightarrow> no_redis_faults s"
  by (simp add: alarm_ok_def)

lemma alarm_ok_redis:
  assumes "alarm_ok s" "\<And>k v t. r k = Some (v, t) \<Longrightarrow> r k \<noteq> au_redis s k \<Longrightarrow> alarm_value_ok k v"
  shows "alarm_ok (s\<lparr>au_redis := r\<rparr>)"
proof -
  have "alarm_value_ok k v" if "r k = Some (v, t)" for k v t
    using assms(1) assms(2) [OF that] that by (cases "r k = au_redis s k") (simp_all add: alarm_ok_def)
  with alarm_okD [OF assms(1)] show ?thesis by (simp add: alarm_ok_def)
qed

lemma rd_get_redis: "r k = au_redis s k \<Longrightarrow> rd_get k (s\<lparr>au_redis := r\<rparr>) = rd_get k s"
  by (simp add: rd_get_def split: option.split)

text \<open>What a read finds: nothing, or a value of the kind of its key.\<close>

lemma rd_get_alarm:
  assumes "alarm_ok s"
  shows "rd_get k s = Inl RedisNil \<or> (\<exists>v. rd_get k s = Inr v \<and> alarm_value_ok k v)"
  using assms by (auto simp: rd_get_ok [OF alarm_okD [OF assms]] alarm_ok_def split: option.split)

definition ids_at :: "auto \<Rightarrow> string \<Rightarrow> string list" where
  "ids_at s k = (case get_ids k s of Inl _ \<Rightarrow> [] | Inr gs \<Rightarrow> gs)"

lemma get_ids_ok:
  assumes "alarm_ok s" "list_key k"
  shows "get_ids k s = Inr (ids_at s k)" "distinct (ids_at s k)"
  using rd_get_alarm [OF assms(1), of k] assms(2) by (auto simp: get_ids_def ids_at_def)

lemma get_ids_redis: "r k = au_redis s k \<Longrightarrow> get_ids k (s\<lparr>au_redis := r\<rparr>) = get_ids k s"
  by (simp add: get_ids_def rd_get_redis)

lemma ids_at_redis: "r k = au_redis s k \<Longrightarrow> ids_at (s\<lparr>au_redis := r\<rparr>) k = ids_at s k"
  by (simp add: ids_at_def get_ids_redis)

lemma ids_at_put [simp]:
  "no_redis_faults s \<Longrightarrow> ids_at (s\<lparr>au_redis := (au_redis s)(k \<mapsto> (RIds gs, au_now s + alarm_ttl))\<rparr>) k = gs"
  "no_redis_faults s \<Longrightarrow> ids_at (s\<lparr>au_redis := (au_redis s)(k := None)\<rparr>) k = []"
  by (simp_all add: ids_at_def get_ids_def rd_get_ok alarm_ttl_def)

lemma get_by_group_id_ok: "alarm_ok s \<Longrightarrow> \<exists>i. get_by_group_id g s = Inr i"
  using rd_get_alarm [of s "alarm_group_key g"] by (auto simp: get_by_group_id_def)

text \<open>Adding and removing a group change one key, keep the invariant and do not fail.\<close>

lemma group_cache_add_ok:
  assumes "alarm_ok s" "list_key k"
  shows "\<exists>r. group_cache_add g k s = (None, s\<lparr>au_redis := r\<rparr>) \<and> alarm_ok (s\<lparr>au_redis := r\<rparr>) \<and>
    (\<forall>k'. k' \<noteq> k \<longrightarrow> r k' = au_redis s k') \<and>
    ids_at (s\<lparr>au_redis := r\<rparr>) k = (if g \<in> set (ids_at s k) then ids_at s k else ids_at s k @ [g])"
proof (cases "g \<in> set (ids_at s k)")
  case True
  then show ?thesis
    using get_ids_ok [OF assms] assms(1) by (intro exI [of _ "au_redis s"]) (simp add: group_cache_add_def)
next
  case False
  let ?r = "(au_redis s)(k \<mapsto> (RIds (ids_at s k @ [g]), au_now s + alarm_ttl))"
  have "alarm_ok (s\<lparr>au_redis := ?r\<rparr>)"
    by (rule alarm_ok_redis [OF assms(1)]) (use get_ids_ok(2) [OF assms] False assms(2) in \<open>auto split: if_splits\<close>)
  moreover have "ids_at (s\<lparr>au_redis := ?r\<rparr>) k = ids_at s k @ [g]"
    using alarm_okD [OF assms(1)] by simp
  ultimately show ?thesis
    using False get_ids_ok [OF assms] alarm_okD [OF assms(1)]
    by (intro exI [of _ ?r]) (simp add: group_cache_add_def)
qed

lemma group_cache_del_ok:
  assumes "alarm_ok s" "list_key k"
  shows "\<exists>r. group_cache_del g k s = Some (None, s\<lparr>au_redis := r\<rparr>) \<and> alarm_ok (s\<lparr>au_redis := r\<rparr>) \<and>
    (\<forall>k'. k' \<noteq> k \<longrightarrow> r k' = au_redis s k') \<and> ids_at (s\<lparr>au_redis := r\<rparr>) k = remove1 g (ids_at s k)"
proof -
  let ?gs = "remove1 g (ids_at s k)"
  let ?r = "if ?gs \<noteq> [] then (au_redis s)(k \<mapsto> (RIds ?gs, au_now s + alarm_ttl)) else (au_redis s)(k := None)"
  have "alarm_ok (s\<lparr>au_redis := ?r\<rparr>)"
    by (rule alarm_ok_redis [OF assms(1)])
      (use get_ids_ok(2) [OF assms] assms(2) in \<open>auto split: if_splits\<close>)
  moreover have "ids_at (s\<lparr>au_redis := ?r\<rparr>) k = ?gs"
    using alarm_okD [OF assms(1)] by simp
  moreover have "group_cache_del g k s = Some (None, s\<lparr>au_redis := ?r\<rparr>)"
    using get_ids_ok [OF assms] alarm_okD [OF assms(1)]
    by (simp add: group_cache_del_def del_loop_distinct rd_del_def no_faultD fun_upd_def)
  ultimately show ?thesis by (intro exI [of _ ?r]) simp
qed


lemma group_cache_adds_ok:
  assumes "alarm_ok s" "\<forall>k \<in> set ks. list_key k"
  shows "\<exists>r. until_error (group_cache_add g) ks s = (None, s\<lparr>au_redis := r\<rparr>) \<and> alarm_ok (s\<lparr>au_redis := r\<rparr>) \<and>
    (\<forall>k. k \<notin> set ks \<longrightarrow> r k = au_redis s k)"
  using assms
proof (induction ks arbitrary: s)
  case Nil
  then show ?case by (intro exI [of _ "au_redis s"]) simp
next
  case (Cons k ks)
  obtain r where r: "group_cache_add g k s = (None, s\<lparr>au_redis := r\<rparr>)" "alarm_ok (s\<lparr>au_redis := r\<rparr>)"
      "\<forall>k'. k' \<noteq> k \<longrightarrow> r k' = au_redis s k'"
    using group_cache_add_ok [OF Cons.prems(1), of k g] Cons.prems(2) by auto
  obtain r' where "until_error (group_cache_add g) ks (s\<lparr>au_redis := r\<rparr>) = (None, s\<lparr>au_redis := r'\<rparr>)"
      "alarm_ok (s\<lparr>au_redis := r'\<rparr>)" "\<forall>k. k \<notin> set ks \<longrightarrow> r' k = r k"
    using Cons.IH [OF r(2)] Cons.prems(2) by auto
  with r show ?case by (intro exI [of _ r']) simp
qed

lemma group_cache_dels_ok:
  assumes "alarm_ok s" "\<forall>k \<in> set ks. list_key k"
  shows "\<exists>r. until_error_opt (group_cache_del g) ks s = Some (None, s\<lparr>au_redis := r\<rparr>) \<and> alarm_ok (s\<lparr>au_redis := r\<rparr>) \<and>
    (\<forall>k. k \<notin> set ks \<longrightarrow> r k = au_redis s k) \<and>
    (\<forall>k. list_key k \<longrightarrow> set (ids_at (s\<lparr>au_redis := r\<rparr>) k) = set (ids_at s k) - (if k \<in> set ks then {g} else {}))"
  using assms
proof (induction ks arbitrary: s)
  case Nil
  then show ?case by (intro exI [of _ "au_redis s"]) simp
next
  case (Cons k ks)
  obtain r where r: "group_cache_del g k s = Some (None, s\<lparr>au_redis := r\<rparr>)" "alarm_ok (s\<lparr>au_redis := r\<rparr>)"
      "\<forall>k'. k' \<noteq> k \<longrightarrow> r k' = au_redis s k'" "ids_at (s\<lparr>au_redis := r\<rparr>) k = remove1 g (ids_at s k)"
    using group_cache_del_ok [OF Cons.prems(1), of k g] Cons.prems(2) by auto
  obtain r' where r': "until_error_opt (group_cache_del g) ks (s\<lparr>au_redis := r\<rparr>) = Some (None, s\<lparr>au_redis := r'\<rparr>)"
      "alarm_ok (s\<lparr>au_redis := r'\<rparr>)" "\<forall>k. k \<notin> set ks \<longrightarrow> r' k = r k"
      "\<forall>k. list_key k \<longrightarrow> set (ids_at (s\<lparr>au_redis := r'\<rparr>) k) = set (ids_at (s\<lparr>au_redis := r\<rparr>) k) - (if k \<in> set ks then {g} else {})"
    using Cons.IH [OF r(2)] Cons.prems(2) by auto
  have "set (ids_at (s\<lparr>au_redis := r\<rparr>) k') = set (ids_at s k') - (if k' = k then {g} else {})" if "list_key k'" for k'
  proof (cases "k' = k")
    case True
    with r(4) get_ids_ok(2) [OF Cons.prems(1), of k] that show ?thesis by simp
  next
    case False
    with r(3) ids_at_redis [of r k' s] show ?thesis by simp
  qed
  with r r' show ?case by (intro exI [of _ r']) auto
qed

text \<open>A present group only gets new contents: its devices stay those of its first report.\<close>

lemma set_device_present:
  assumes "alarm_ok s" "rd_get (alarm_group_key g) s = Inr (RAlarmGroup i)"
  shows "\<exists>r. set_device g sc ds contents s = (None, s\<lparr>au_redis := r\<rparr>) \<and> alarm_ok (s\<lparr>au_redis := r\<rparr>) \<and>
    rd_get (alarm_group_key g) (s\<lparr>au_redis := r\<rparr>) = Inr (RAlarmGroup (i\<lparr>ag_contents := contents\<rparr>)) \<and>
    (\<forall>k. k \<noteq> alarm_group_key g \<and> k \<noteq> alarm_scene_key sc \<and> k \<notin> alarm_device_key ` set ds \<longrightarrow> r k = au_redis s k) \<and>
    ids_at (s\<lparr>au_redis := r\<rparr>) (alarm_scene_key sc) =
      (if g \<in> set (ids_at s (alarm_scene_key sc)) then ids_at s (alarm_scene_key sc) else ids_at s (alarm_scene_key sc) @ [g])"
proof -
  note nf = alarm_okD [OF assms(1)]
  let ?v = "RAlarmGroup (i\<lparr>ag_contents := contents\<rparr>)"
  define r1 where "r1 = (au_redis s)(alarm_group_key g \<mapsto> (?v, au_now s + alarm_ttl))"
  have ok1: "alarm_ok (s\<lparr>au_redis := r1\<rparr>)"
    unfolding r1_def by (rule alarm_ok_redis [OF assms(1)]) (auto split: if_splits)
  obtain r2 where r2: "until_error (group_cache_add g) (map alarm_device_key ds) (s\<lparr>au_redis := r1\<rparr>) = (None, s\<lparr>au_redis := r2\<rparr>)"
      "alarm_ok (s\<lparr>au_redis := r2\<rparr>)" "\<forall>k. k \<notin> alarm_device_key ` set ds \<longrightarrow> r2 k = r1 k"
    using group_cache_adds_ok [OF ok1, of "map alarm_device_key ds" g] by auto
  obtain r3 where r3: "group_cache_add g (alarm_scene_key sc) (s\<lparr>au_redis := r2\<rparr>) = (None, s\<lparr>au_redis := r3\<rparr>)"
      "alarm_ok (s\<lparr>au_redis := r3\<rparr>)" "\<forall>k. k \<noteq> alarm_scene_key sc \<longrightarrow> r3 k = r2 k"
      "ids_at (s\<lparr>au_redis := r3\<rparr>) (alarm_scene_key sc) =
        (if g \<in> set (ids_at (s\<lparr>au_redis := r2\<rparr>) (alarm_scene_key sc)) then ids_at (s\<lparr>au_redis := r2\<rparr>) (alarm_scene_key sc)
         else ids_at (s\<lparr>au_redis := r2\<rparr>) (alarm_scene_key sc) @ [g])"
    using group_cache_add_ok [OF r2(2), of "alarm_scene_key sc" g] by auto
  have "alarm_scene_key sc \<notin> alarm_device_key ` set ds" "alarm_group_key g \<notin> alarm_device_key ` set ds" by auto
  then have k: "r2 (alarm_scene_key sc) = au_redis s (alarm_scene_key sc)" "r3 (alarm_group_key g) = Some (?v, au_now s + alarm_ttl)"
    using r2(3) r3(3) by (simp_all add: r1_def)
  have "present": "(case au_redis s (alarm_group_key g) of None \<Rightarrow> False | Some (_, t) \<Rightarrow> au_now s < t)"
    using assms(2) by (auto simp: rd_get_ok [OF nf] split: option.splits if_splits)
  have "set_device g sc ds contents s = (None, s\<lparr>au_redis := r3\<rparr>)"
    using "present" assms(2) nf r2(1) r3(1) by (simp add: set_device_def no_faultD Let_def r1_def)
  moreover have "rd_get (alarm_group_key g) (s\<lparr>au_redis := r3\<rparr>) = Inr ?v"
    using nf k(2) by (simp add: rd_get_ok alarm_ttl_def)
  moreover have "r3 k = au_redis s k"
    if "k \<noteq> alarm_group_key g \<and> k \<noteq> alarm_scene_key sc \<and> k \<notin> alarm_device_key ` set ds" for k
    using that r2(3) r3(3) by (simp add: r1_def)
  ultimately show ?thesis using r3(2,4) k(1) ids_at_redis [of r2 _ s] by (intro exI [of _ r3]) simp
qed


lemma delete_by_group_id_ok:
  assumes "alarm_ok s" "get_by_group_id g s = Inr i"
  shows "\<exists>r. delete_by_group_id g s = Some (None, s\<lparr>au_redis := r\<rparr>) \<and> alarm_ok (s\<lparr>au_redis := r\<rparr>) \<and>
    get_by_group_id g (s\<lparr>au_redis := r\<rparr>) = Inr no_alarm_group \<and>
    (\<forall>k. list_key k \<longrightarrow> set (ids_at (s\<lparr>au_redis := r\<rparr>) k) = set (ids_at s k) -
       (if k = alarm_scene_key (ag_scene i) \<or> k \<in> alarm_device_key ` set (ag_devices i) \<or>
           (\<exists>a \<in> set (ag_configs i). \<exists>d \<in> set (ag_devices i). k = alarm_alarm_key a d) then {g} else {}))"
proof -
  let ?ks = "concat (map (\<lambda>a. map (alarm_alarm_key a) (ag_devices i)) (ag_configs i)) @
      map alarm_device_key (ag_devices i) @ [alarm_scene_key (ag_scene i)]"
  have "\<forall>k \<in> set ?ks. list_key k" by auto
  from group_cache_dels_ok [OF assms(1) this, of g]
  obtain r where r: "until_error_opt (group_cache_del g) ?ks s = Some (None, s\<lparr>au_redis := r\<rparr>)" "alarm_ok (s\<lparr>au_redis := r\<rparr>)"
      "\<forall>k. list_key k \<longrightarrow> set (ids_at (s\<lparr>au_redis := r\<rparr>) k) = set (ids_at s k) - (if k \<in> set ?ks then {g} else {})"
    by blast
  let ?r = "\<lambda>k. if k \<in> {alarm_group_key g} then None else r k"
  have "alarm_ok (s\<lparr>au_redis := ?r\<rparr>)"
    using alarm_ok_redis [OF r(2), of ?r] by (force split: if_splits)
  moreover have "get_by_group_id g (s\<lparr>au_redis := ?r\<rparr>) = Inr no_alarm_group"
    using alarm_okD [OF assms(1)] by (simp add: get_by_group_id_def rd_get_ok)
  moreover have "delete_by_group_id g s = Some (None, s\<lparr>au_redis := ?r\<rparr>)"
    using assms(2) r(1) alarm_okD [OF assms(1)] by (simp add: delete_by_group_id_def rd_del_def no_faultD cong: if_cong)
  moreover have "ids_at (s\<lparr>au_redis := ?r\<rparr>) k = ids_at (s\<lparr>au_redis := r\<rparr>) k" if "list_key k" for k
  proof -
    have "k \<noteq> alarm_group_key g" using that by auto
    then show ?thesis using ids_at_redis [of ?r k "s\<lparr>au_redis := r\<rparr>"] by simp
  qed
  moreover have "k \<in> set ?ks \<longleftrightarrow> k = alarm_scene_key (ag_scene i) \<or> k \<in> alarm_device_key ` set (ag_devices i) \<or>
      (\<exists>a \<in> set (ag_configs i). \<exists>d \<in> set (ag_devices i). k = alarm_alarm_key a d)" for k by auto
  ultimately show ?thesis using r(3) by (intro exI [of _ ?r]) simp
qed

lemma au_history_simps [simp]:
  "au_now (s\<lparr>au_history := h\<rparr>) = au_now s" "rd_get k (s\<lparr>au_history := h\<rparr>) = rd_get k s"
  by (simp_all add: au_now_def rd_get_def cong: option.case_cong)

lemma device_exists_redis:
  "(\<And>a d. r (alarm_alarm_key a d) = au_redis s (alarm_alarm_key a d)) \<Longrightarrow>
     get_alarm_device_exists ds a g (s\<lparr>au_redis := r\<rparr>) = get_alarm_device_exists ds a g s"
  by (induction ds a g s rule: get_alarm_device_exists.induct) (simp_all add: get_ids_redis split: sum.split)

lemma condition_devices_multiple:
  "\<forall>x \<in> set cs. tc_type x = ''11'' \<Longrightarrow> condition_devices d cs = Some (map (\<lambda>_. d) cs)"
  by (induction cs) auto

lemma config_alarm_suppressed:
  assumes "alarm_ok s" "rd_get (alarm_group_key g) s = Inr (RAlarmGroup i)" "get_by_scene sc s = Inr [g]"
    and "get_alarm_device_exists (ag_devices i) a g s = Inr True"
  shows "\<exists>r. set_device g sc (map (\<lambda>_. d) cs) contents s = (None, s\<lparr>au_redis := r\<rparr>) \<and>
    alarm_execute a sc (s\<lparr>au_redis := r\<rparr>) = ((False, [], alarm_exists_reason), s\<lparr>au_redis := r\<rparr>)"
proof -
  have sc: "ids_at s (alarm_scene_key sc) = [g]"
    using assms(3) by (simp add: get_by_scene_def ids_at_def split: sum.splits)
  obtain r where r: "set_device g sc (map (\<lambda>_. d) cs) contents s = (None, s\<lparr>au_redis := r\<rparr>)" "alarm_ok (s\<lparr>au_redis := r\<rparr>)"
      "rd_get (alarm_group_key g) (s\<lparr>au_redis := r\<rparr>) = Inr (RAlarmGroup (i\<lparr>ag_contents := contents\<rparr>))"
      "\<forall>k. k \<noteq> alarm_group_key g \<and> k \<noteq> alarm_scene_key sc \<and> k \<notin> alarm_device_key ` set (map (\<lambda>_. d) cs) \<longrightarrow> r k = au_redis s k"
      "ids_at (s\<lparr>au_redis := r\<rparr>) (alarm_scene_key sc) = [g]"
    using set_device_present [OF assms(1,2), of sc "map (\<lambda>_. d) cs" contents] sc by auto
  have "get_alarm_device_exists (ag_devices i) a g (s\<lparr>au_redis := r\<rparr>) = Inr True"
  proof -
    have "r (alarm_alarm_key b e) = au_redis s (alarm_alarm_key b e)" for b e
    proof -
      have "alarm_alarm_key b e \<notin> alarm_device_key ` set (map (\<lambda>_. d) cs)" by auto
      with r(4) show ?thesis by simp
    qed
    from device_exists_redis [OF this] assms(4) show ?thesis by simp
  qed
  then have "alarm_execute a sc (s\<lparr>au_redis := r\<rparr>) = ((False, '''', alarm_exists_reason), s\<lparr>au_redis := r\<rparr>)"
    using r(3,5) get_ids_ok [OF r(2), of "alarm_scene_key sc"]
    by (simp add: alarm_execute_def get_by_scene_def get_by_group_id_def)
  with r(1) show ?thesis by blast
qed

lemma config_alarm_recovered:
  assumes "alarm_ok s" "\<forall>q. au_db_fault s q = None"
    and "get_by_group_id g s = Inr i" "ag_scene i = sc" "ag_configs i = [a]" "get_alarm_by_id a s = Inr c"
  shows "\<exists>s1 s2. alarm_recovery g contents s = (None, s1) \<and> delete_by_group_id g s1 = Some (None, s2) \<and>
    au_history s2 = au_history s @
      [history_row c (join_contents (utf8 [229, 156, 186, 230, 153, 175, 232, 135, 170, 229, 138, 168, 229, 140, 150, 230, 129, 162, 229, 164, 141, 229, 145, 138, 232, 173, 166]) contents) sc g (ag_devices i) ''N'' (au_now s)] \<and>
    get_by_group_id g s2 = Inr no_alarm_group"
proof -
  let ?h = "history_row c (join_contents (utf8 [229, 156, 186, 230, 153, 175, 232, 135, 170, 229, 138, 168, 229, 140, 150, 230, 129, 162, 229, 164, 141, 229, 145, 138, 232, 173, 166]) contents) sc g (ag_devices i) ''N'' (au_now s)"
  let ?s = "s\<lparr>au_history := au_history s @ [?h]\<rparr>"
  have rec: "alarm_recovery g contents s = (None, ?s)"
    using assms(3) assms(2,4,5,6) by (simp add: alarm_recovery_def svc_alarm_recovery_def alarm_history_save_def)
  have "alarm_ok ?s" "get_by_group_id g ?s = Inr i"
    using assms(1,3) by (simp_all add: alarm_ok_def no_redis_faults_def get_by_group_id_def)
  from delete_by_group_id_ok [OF this] obtain r' where "delete_by_group_id g ?s = Some (None, ?s\<lparr>au_redis := r'\<rparr>)"
      "get_by_group_id g (?s\<lparr>au_redis := r'\<rparr>) = Inr no_alarm_group" by blast
  with rec show ?thesis by (intro exI [of _ ?s] exI [of _ "?s\<lparr>au_redis := r'\<rparr>"]) simp
qed

section \<open>Properties\<close>

text \<open>An alarm of a device configuration is shared by all its devices. While an alarm that one
  device raised is active for a group of conditions on the configuration, another device (any device
  d) whose condition holds raises nothing: the alarm is reported as already existing and no history
  row is written. And when the condition does not hold for that other device, the first device's
  alarm is written as recovered and forgotten, although the first device has not reported.\<close>
theorem alarm_shared_by_config:
  assumes "alarm_ok s" "\<forall>q. au_db_fault s q = None" "cs \<noteq> []"
    and "\<forall>x \<in> set cs. tc_type x = ''11'' \<and> tc_group x = g \<and> tc_scene x = sc"
    and "rd_get (alarm_group_key g) s = Inr (RAlarmGroup i)" "ag_scene i = sc" "ag_configs i = [a]"
    and "get_by_scene sc s = Inr [g]" "get_alarm_device_exists (ag_devices i) a g s = Inr True"
    and "get_alarm_by_id a s = Inr c"
  shows "(\<exists>s1. condition_after_alarm True cs d contents s = Some (None, s1) \<and> au_history s1 = au_history s \<and>
      alarm_execute a sc s1 = ((False, '''', alarm_exists_reason), s1)) \<and>
    (\<exists>s2. condition_after_alarm False cs d contents s = Some (None, s2) \<and>
      au_history s2 = au_history s @
        [history_row c (join_contents (utf8 [229, 156, 186, 230, 153, 175, 232, 135, 170, 229, 138, 168, 229, 140, 150, 230, 129, 162, 229, 164, 141, 229, 145, 138, 232, 173, 166]) contents) sc g (ag_devices i) ''N'' (au_now s)] \<and>
      get_by_group_id g s2 = Inr no_alarm_group)"
proof
  have last: "tc_group (last cs) = g" "tc_scene (last cs) = sc" using assms(3,4) by simp_all
  have ds: "condition_devices d cs = Some (map (\<lambda>_. d) cs)" using assms(4) by (intro condition_devices_multiple) simp
  have grp: "get_by_group_id g s = Inr i" using assms(5) by (simp add: get_by_group_id_def)
  obtain r where "set_device g sc (map (\<lambda>_. d) cs) contents s = (None, s\<lparr>au_redis := r\<rparr>)"
      "alarm_execute a sc (s\<lparr>au_redis := r\<rparr>) = ((False, [], alarm_exists_reason), s\<lparr>au_redis := r\<rparr>)"
    using config_alarm_suppressed [OF assms(1,5,8,9)] by blast
  then show "\<exists>s1. condition_after_alarm True cs d contents s = Some (None, s1) \<and> au_history s1 = au_history s \<and>
      alarm_execute a sc s1 = ((False, [], alarm_exists_reason), s1)"
    using assms(3) ds last by (intro exI [of _ "s\<lparr>au_redis := r\<rparr>"]) (simp add: condition_after_alarm_def)
  show "\<exists>s2. condition_after_alarm False cs d contents s = Some (None, s2) \<and>
      au_history s2 = au_history s @
        [history_row c (join_contents (utf8 [229, 156, 186, 230, 153, 175, 232, 135, 170, 229, 138, 168, 229, 140, 150, 230, 129, 162, 229, 164, 141, 229, 145, 138, 232, 173, 166]) contents) sc g (ag_devices i) ''N'' (au_now s)] \<and>
      get_by_group_id g s2 = Inr no_alarm_group"
    using config_alarm_recovered [OF assms(1,2) grp assms(6,7,10), of contents] assms(3) ds last
    by (auto simp: condition_after_alarm_def)
qed

section \<open>A witness\<close>

definition demo_alarm :: alarm_config where
  "demo_alarm = \<lparr>al_id = ''a1'', al_name = ''hot'', al_description = None, al_level = ''H'',
     al_notification_group = [], al_tenant_id = ''t1'', al_enabled = ''Y''\<rparr>"

definition demo_active :: alarm_group where
  "demo_active = \<lparr>ag_scene = ''s1'', ag_configs = [''a1''], ag_devices = [''d1''], ag_contents = []\<rparr>"

text \<open>Device \<open>d1\<close> has raised the alarm.\<close>

definition demo_alarm_auto :: auto where
  "demo_alarm_auto = demo_auto\<lparr>au_alarms := [demo_alarm], au_redis := [
     alarm_group_key ''g1'' \<mapsto> (RAlarmGroup demo_active, 9000), alarm_scene_key ''s1'' \<mapsto> (RIds [''g1''], 9000),
     alarm_alarm_key ''a1'' ''d1'' \<mapsto> (RIds [''g1''], 9000)]\<rparr>"

lemma demo_alarm_facts:
  "alarm_ok demo_alarm_auto" "\<forall>q. au_db_fault demo_alarm_auto q = None"
  "rd_get (alarm_group_key ''g1'') demo_alarm_auto = Inr (RAlarmGroup demo_active)"
  "get_by_scene ''s1'' demo_alarm_auto = Inr [''g1'']"
  "get_alarm_device_exists (ag_devices demo_active) ''a1'' ''g1'' demo_alarm_auto = Inr True"
  "get_alarm_by_id ''a1'' demo_alarm_auto = Inr demo_alarm"
  by (auto simp: alarm_ok_def demo_alarm_auto_def demo_auto_def demo_world_def empty_world_def no_redis_faults_def
      au_db_fault_def rd_get_def au_now_def get_by_scene_def get_ids_def demo_active_def get_alarm_by_id_def demo_alarm_def
      split: if_splits)

theorem alarm_shared_by_config_witness:
  "\<exists>s1. condition_after_alarm True [demo_condition\<lparr>tc_type := ''11'', tc_source := Some ''c1''\<rparr>] ''d2'' [] demo_alarm_auto =
      Some (None, s1) \<and> alarm_execute ''a1'' ''s1'' s1 = ((False, [], alarm_exists_reason), s1)"
proof -
  let ?cs = "[demo_condition\<lparr>tc_type := ''11'', tc_source := Some ''c1''\<rparr>]"
  have cs: "?cs \<noteq> []" "\<forall>x \<in> set ?cs. tc_type x = ''11'' \<and> tc_group x = ''g1'' \<and> tc_scene x = ''s1''"
    by (simp_all add: demo_condition_def)
  have i: "ag_scene demo_active = ''s1''" "ag_configs demo_active = [''a1'']" by (simp_all add: demo_active_def)
  from alarm_shared_by_config [OF demo_alarm_facts(1,2) cs demo_alarm_facts(3) i demo_alarm_facts(4,5,6), of "''d2''" "[]"]
  show ?thesis by blast
qed

end
