(* ===== verification/Automate.thy ===== *)
theory Automate
  imports AlarmCache
begin

text \<open>
  \<open>internal/service/automate_telemetry.go\<close> and \<open>automate_telemetry_action.go\<close>: what a device's report
  triggers. The scenes of the device are read from the cache, filtered by what was reported, checked
  group by group against reported or stored values, and their actions executed, each scene once per
  report. \<open>defer a.ErrorRecover()\<close> calls a function that returns the recovering closure and never
  calls it, so a panic (\<open>None\<close>) is not recovered. A message an action sends to a device is an effect.
\<close>

section \<open>The value a condition is about\<close>

text \<open>The last non-null column wins.\<close>

definition column_value :: "value_columns option \<Rightarrow> json" where
  "column_value c = (case c of
      None \<Rightarrow> JNull
    | Some (b, n, t) \<Rightarrow> (case t of Some x \<Rightarrow> JStr x | None \<Rightarrow>
        (case n of Some x \<Rightarrow> JNum x | None \<Rightarrow> (case b of Some x \<Rightarrow> JBool x | None \<Rightarrow> JNull))))"

definition get_current_telemetry :: "string \<Rightarrow> string \<Rightarrow> auto \<Rightarrow> json" where
  "get_current_telemetry d k s = (if au_db_fault s ''telemetry_current_datas.first'' \<noteq> None then JNull
     else column_value (au_current s d k))"

definition get_attribute_one :: "string \<Rightarrow> string \<Rightarrow> auto \<Rightarrow> json" where
  "get_attribute_one d k s = (if au_db_fault s ''attribute_datas.first'' \<noteq> None then JNull
     else column_value (au_attribute s d k))"

definition get_device_event_one :: "string \<Rightarrow> string \<Rightarrow> auto \<Rightarrow> json" where
  "get_device_event_one d k s = (if au_db_fault s ''event_datas.first'' \<noteq> None then JStr ''''
     else (case au_event s d k of Some (Some x) \<Rightarrow> JStr x | _ \<Rightarrow> JStr ''''))"

definition get_device_current_status :: "string \<Rightarrow> auto \<Rightarrow> json" where
  "get_device_current_status d s = (case dal_get_device d (au_world s) of
      Inr r \<Rightarrow> JStr (if dev_is_online r = 1 then ''ON-LINE'' else ''OFF-LINE'') | Inl _ \<Rightarrow> JStr ''OFF-LINE'')"

text \<open>\<open>getActualValue\<close>: a reported value of that name first, whatever device the condition names.\<close>

definition get_actual_value :: "string \<Rightarrow> string \<Rightarrow> string \<Rightarrow> auto \<Rightarrow> json" where
  "get_actual_value d k ty s = (case map_of (ae_values (au_ext s)) k of
      Some v \<Rightarrow> v
    | None \<Rightarrow> if ty = ''TEL'' then get_current_telemetry d k s
        else if ty = ''ATTR'' then get_attribute_one d k s
        else if ty = ''EVT'' then get_device_event_one d k s
        else if ty = ''STATUS'' then get_device_current_status d s else JNull)"

text \<open>\<open>getTriggerParamsValue\<close> passes the key where the query expects a device id.\<close>

definition get_trigger_params_value :: "string \<Rightarrow> string \<Rightarrow> auto \<Rightarrow> string" where
  "get_trigger_params_value kind k s = (case au_template s k of
      None \<Rightarrow> k
    | Some t \<Rightarrow> if t = '''' then k else (case au_identifier s kind t k of None \<Rightarrow> k | Some n \<Rightarrow> n))"

section \<open>One condition\<close>

definition condition_text :: "string \<Rightarrow> string \<Rightarrow> string \<Rightarrow> string \<Rightarrow> string" where
  "condition_text name trigger shown detail =
     utf8 [232, 174, 190, 229, 164, 135, 40] @ name @ '')'' @ trigger @ '' ['' @ shown @ '']: '' @ detail"

definition compare_text :: "auto_env \<Rightarrow> json \<Rightarrow> string \<Rightarrow> string \<Rightarrow> string" where
  "compare_text env v operator tv = fmt_v (ae_fmt env) v @ '' '' @ operator @ '' '' @ tv"

text \<open>A condition on telemetry or an attribute; a nil parameter name panics.\<close>

definition check_value :: "auto_env \<Rightarrow> trigger_condition \<Rightarrow> string \<Rightarrow> string \<Rightarrow> string \<Rightarrow> string \<Rightarrow> string \<Rightarrow>
    auto \<Rightarrow> (bool \<times> string) option" where
  "check_value env c d name ty kind trigger s = (case tc_param c of
      None \<Rightarrow> None
    | Some k \<Rightarrow>
        let operator = (case tc_operator c of None \<Rightarrow> ''='' | Some x \<Rightarrow> x);
            v = get_actual_value d k ty s
        in Some (check_by_operator operator (tc_value c) v,
             condition_text name trigger (get_trigger_params_value kind k s) (compare_text env v operator (tc_value c))))"

definition check_event :: "auto_env \<Rightarrow> trigger_condition \<Rightarrow> string \<Rightarrow> string \<Rightarrow> auto \<Rightarrow> (bool \<times> string) option" where
  "check_event env c d name s = (case tc_param c of
      None \<Rightarrow> None
    | Some k \<Rightarrow>
        let v = get_actual_value d k ''EVT'' s; shown = get_trigger_params_value ''event'' k s;
            trigger = utf8 [228, 186, 139, 228, 187, 182]; plain = condition_text name trigger shown (compare_text env v ''='' (tc_value c))
        in Some (case event_param_condition_check (ae_fmt env) (tc_value c) v of
            Some (ok, detail) \<Rightarrow> (ok, if detail \<noteq> '''' then condition_text name trigger shown detail else plain)
          | None \<Rightarrow> (check_by_operator ''='' (tc_value c) v, plain)))"

text \<open>\<open>actualValue.(string)\<close> panics on a value that is no string.\<close>

definition check_status :: "trigger_condition \<Rightarrow> string \<Rightarrow> string \<Rightarrow> auto \<Rightarrow> (bool \<times> string) option" where
  "check_status c d name s = (case (tc_param c, get_actual_value d ''login'' ''STATUS'' s) of
      (Some p, JStr v) \<Rightarrow>
        let r = utf8 [232, 174, 190, 229, 164, 135, 40] @ name @ utf8 [41, 229, 183, 178] @ (if to_upper v = ''ON-LINE'' then utf8 [228, 184, 138, 231, 186, 191] else utf8 [228, 184, 139, 231, 186, 191])
        in Some (if to_upper p = ''ALL'' then True else check_by_operator ''='' p (JStr v), r)
    | _ \<Rightarrow> None)"

definition check_by_type :: "auto_env \<Rightarrow> trigger_condition \<Rightarrow> string \<Rightarrow> string \<Rightarrow> auto \<Rightarrow> (bool \<times> string) option" where
  "check_by_type env c d name s = (case tc_param_type c of
      None \<Rightarrow> None
    | Some t \<Rightarrow>
        let ty = to_upper t in
        if ty = ''TEL'' \<or> ty = ''TELEMETRY'' then check_value env c d name ''TEL'' ''telemetry'' (utf8 [233, 129, 165, 230, 181, 139]) s
        else if ty = ''ATTR'' \<or> ty = ''ATTRIBUTES'' then check_value env c d name ''ATTR'' ''attribute'' (utf8 [229, 177, 158, 230, 128, 167]) s
        else if ty = ''EVT'' \<or> ty = ''EVENT'' then check_event env c d name s
        else if ty = ''STATUS'' then check_status c d name s
        else Some (False, ''''))"

definition with_world :: "auto \<Rightarrow> world \<Rightarrow> auto" where
  "with_world s w = s\<lparr>au_world := w\<rparr>"

text \<open>A single device is read from the cache; otherwise it is the device that reports. A device
  without a name panics.\<close>

definition check_with_device :: "auto_env \<Rightarrow> trigger_condition \<Rightarrow> string \<Rightarrow> auto \<Rightarrow> ((bool \<times> string) \<times> auto) option" where
  "check_with_device env c d s = (case tc_source c of
      None \<Rightarrow> Some ((False, ''''), s)
    | Some src \<Rightarrow>
        if tc_type c = ''10'' then (case get_device_cache_by_id src (au_world s) of
            (Inl _, w) \<Rightarrow> Some ((False, ''''), with_world s w)
          | (Inr r, w) \<Rightarrow> (case dev_name r of
              None \<Rightarrow> None
            | Some name \<Rightarrow> map_option (\<lambda>x. (x, with_world s w)) (check_by_type env c src name (with_world s w))))
        else (case au_device s of
            None \<Rightarrow> None
          | Some r \<Rightarrow> (case dev_name r of
              None \<Rightarrow> None
            | Some name \<Rightarrow> map_option (\<lambda>x. (x, s)) (check_by_type env c d name s))))"

definition check_one :: "auto_env \<Rightarrow> trigger_condition \<Rightarrow> string \<Rightarrow> auto \<Rightarrow> ((bool \<times> string) \<times> auto) option" where
  "check_one env c d s =
     (if tc_type c = ''22'' then Some ((check_with_time (au_now s) (tc_value c), ''''), s)
      else if tc_type c = ''10'' \<or> tc_type c = ''11'' then check_with_device env c d s
      else Some ((True, ''''), s))"

section \<open>Groups and scenes\<close>

text \<open>A group holds when all its conditions do; the check stops at the first that does not.\<close>

fun check_group :: "auto_env \<Rightarrow> trigger_condition list \<Rightarrow> string \<Rightarrow> auto \<Rightarrow> ((bool \<times> string list) \<times> auto) option" where
  "check_group env [] d s = Some ((True, []), s)"
| "check_group env (c # cs) d s = (case check_one env c d s of
     None \<Rightarrow> None
   | Some ((ok, t), s1) \<Rightarrow>
       if ok then map_option (\<lambda>((ok', ts), s2). ((ok', t # ts), s2)) (check_group env cs d s1)
       else Some ((False, [t]), s1))"

text \<open>Every group is checked and decorated; an error of the decoration is only logged.\<close>

fun check_groups :: "auto_env \<Rightarrow> trigger_condition list list \<Rightarrow> string \<Rightarrow> bool \<Rightarrow> auto \<Rightarrow> (bool \<times> auto) option" where
  "check_groups env [] d res s = Some (res, s)"
| "check_groups env (g # gs) d res s = (case check_group env g d s of
     None \<Rightarrow> None
   | Some ((ok, contents), s1) \<Rightarrow> (case condition_after_alarm ok g d contents s1 of
       None \<Rightarrow> None
     | Some (_, s2) \<Rightarrow> check_groups env gs d (res \<or> ok) s2))"

definition condition_check :: "auto_env \<Rightarrow> trigger_condition list \<Rightarrow> string \<Rightarrow> auto \<Rightarrow> (bool \<times> auto) option" where
  "condition_check env cs d s =
     check_groups env (map (\<lambda>g. conditions_of g cs) (groups_of env cs)) d False s"

definition condition_reported :: "automate_ext \<Rightarrow> trigger_condition \<Rightarrow> bool" where
  "condition_reported x c = (case (tc_param_type c, tc_param c) of
      (Some t, Some p) \<Rightarrow>
        let ty = to_upper t; from_ty = ae_param_type x in
        from_ty = ''TEL'' \<and> (ty = ''TEL'' \<or> ty = ''TELEMETRY'') \<and> p \<in> set (ae_param x) \<or>
        from_ty = ''STATUS'' \<and> ty = ''STATUS'' \<or>
        from_ty = ''EVT'' \<and> (ty = ''EVT'' \<or> ty = ''EVENT'') \<and> p \<in> set (ae_param x) \<or>
        from_ty = ''ATTR'' \<and> (ty = ''ATTR'' \<or> ty = ''ATTRIBUTES'') \<and> p \<in> set (ae_param x)
    | _ \<Rightarrow> False)"

definition automate_filter :: "automate_ext \<Rightarrow> execute_params \<Rightarrow> execute_params" where
  "automate_filter x p = p\<lparr>xp_scenes := filter (\<lambda>sc. list_ex (condition_reported x) (si_conditions sc)) (xp_scenes p)\<rparr>"

definition limiter_allow :: "auto_env \<Rightarrow> string \<Rightarrow> auto \<Rightarrow> bool \<times> auto" where
  "limiter_allow env i s = (let k = ''SceneAutomationId:'' @ i
     in (ae_allow env k (au_allowed s k), s\<lparr>au_allowed := (au_allowed s)(k := au_allowed s k + 1)\<rparr>))"

definition check_has_close :: "string \<Rightarrow> auto \<Rightarrow> (bool \<times> auto) option" where
  "check_has_close sc s =
     (let closed = (au_db_fault s ''scene_automations.count'' = None \<and>
        length (filter (\<lambda>r. sa_id r = sc \<and> sa_enabled r = ''N'') (au_scenes s)) = 1)
      in if closed then map_option (\<lambda>(_, s'). (True, s')) (delete_cache_by_scene sc s) else Some (False, s))"

definition scene_tenant :: "string \<Rightarrow> auto \<Rightarrow> string" where
  "scene_tenant sc s = (if au_db_fault s ''scene_automations.scan'' \<noteq> None then ''''
     else case find (\<lambda>r. sa_id r = sc) (au_scenes s) of None \<Rightarrow> '''' | Some r \<Rightarrow> sa_tenant_id r)"

section \<open>Actions\<close>

definition put_message :: "auto_env \<Rightarrow> put_kind \<Rightarrow> string \<Rightarrow> string \<Rightarrow> string \<Rightarrow> auto \<Rightarrow> gerror option \<times> auto" where
  "put_message env k d v tenant s = (ae_put env k d v s, emit_auto (PutMessage k d v tenant) s)"

record command_info =
  ci_method :: string
  ci_params :: json

definition dec_command_info :: "command_info dec" where
  "dec_command_info = dec_struct
     [(''method'', on_field dec_string ci_method (\<lambda>v. ci_method_update (\<lambda>_. v))),
      (''params'', on_field dec_any ci_params (\<lambda>v. ci_params_update (\<lambda>_. v)))]"

text \<open>\<open>AutomateActionDeviceMqttSend\<close>: the text of the action and the result of the service.\<close>

definition mqtt_send :: "auto_env \<Rightarrow> string \<Rightarrow> action_info \<Rightarrow> string \<Rightarrow> auto \<Rightarrow>
    ((string \<times> gerror option) \<times> auto) option" where
  "mqtt_send env d a tenant s = (case get_device_cache_by_id d (au_world s) of (r, w) \<Rightarrow>
     let s1 = with_world s w in
     case (case r of Inl _ \<Rightarrow> Some (utf8 [232, 174, 190, 229, 164, 135, 105, 100, 58] @ d)
             | Inr x \<Rightarrow> map_option (\<lambda>n. utf8 [232, 174, 190, 229, 164, 135, 229, 144, 141, 231, 167, 176, 58] @ n) (dev_name x)) of
       None \<Rightarrow> None
     | Some m \<Rightarrow> Some (case (ac_param_type a, ac_value a) of
          (None, _) \<Rightarrow> ((m @ utf8 [32, 65, 99, 116, 105, 111, 110, 80, 97, 114, 97, 109, 84, 121, 112, 101, 228, 184, 141, 229, 173, 152, 229, 156, 168], Some (Errorf (utf8 [65, 99, 116, 105, 111, 110, 80, 97, 114, 97, 109, 84, 121, 112, 101, 228, 184, 141, 229, 173, 152, 229, 156, 168]))), s1)
        | (_, None) \<Rightarrow> ((m @ utf8 [32, 229, 138, 168, 228, 189, 156, 231, 155, 174, 230, 160, 135, 229, 128, 188, 228, 184, 141, 229, 173, 152, 229, 156, 168], Some (Errorf (utf8 [229, 138, 168, 228, 189, 156, 231, 155, 174, 230, 160, 135, 229, 128, 188, 228, 184, 141, 229, 173, 152, 229, 156, 168]))), s1)
        | (Some t, Some v) \<Rightarrow>
            if t \<in> {''TEL'', ''telemetry'', ''c_telemetry''} then
              (case put_message env PutTelemetry d v tenant s1 of (e, s2) \<Rightarrow> ((m @ utf8 [32, 233, 129, 165, 230, 181, 139, 230, 140, 135, 228, 187, 164, 58] @ v, e), s2))
            else if t \<in> {''ATTR'', ''attributes'', ''c_attribute''} then
              (case put_message env PutAttribute d v tenant s1 of (e, s2) \<Rightarrow> ((m @ utf8 [32, 229, 177, 158, 230, 128, 167, 232, 174, 190, 231, 189, 174, 58] @ v, e), s2))
            else if t \<in> {''CMD'', ''command'', ''c_command''} then
              (case unmarshal dec_command_info v \<lparr>ci_method = '''', ci_params = JNull\<rparr> of
                 Inl e \<Rightarrow> ((m @ utf8 [229, 145, 189, 228, 187, 164, 228, 184, 139, 229, 143, 145, 232, 167, 163, 230, 158, 144, 230, 149, 176, 230, 141, 174, 229, 164, 177, 232, 180, 165], Some e), s1)
               | Inr i \<Rightarrow> (case put_message env (PutCommand (ci_method i)) d (json_print (ci_params i)) tenant s1 of
                   (e, s2) \<Rightarrow> ((m @ utf8 [32, 229, 145, 189, 228, 187, 164, 228, 184, 139, 229, 143, 145, 58] @ json_print (ci_params i), e), s2)))
            else ((m @ utf8 [228, 184, 141, 230, 148, 175, 230, 140, 129, 231, 154, 132, 231, 177, 187, 229, 158, 139], Some (Errorf (utf8 [228, 184, 141, 230, 148, 175, 230, 140, 129, 231, 154, 132, 231, 177, 187, 229, 158, 139]))), s1)))"

fun mqtt_sends :: "auto_env \<Rightarrow> string list \<Rightarrow> action_info \<Rightarrow> string \<Rightarrow> auto \<Rightarrow>
    ((string list \<times> gerror option) \<times> auto) option" where
  "mqtt_sends env [] a tenant s = Some (([], None), s)"
| "mqtt_sends env (d # ds) a tenant s = (case mqtt_send env d a tenant s of
     None \<Rightarrow> None
   | Some ((m, e), s1) \<Rightarrow> map_option (\<lambda>((ms, e'), s2). ((m # ms, if e \<noteq> None then e else e'), s2))
       (mqtt_sends env ds a tenant s1))"

definition get_alarm_name_with_cache :: "string \<Rightarrow> auto \<Rightarrow> string \<times> auto" where
  "get_alarm_name_with_cache a s =
     (let k = ''GetAlarmNameWithCache:alarmId:'' @ a in
      case rd_get k s of
        Inr (RText n) \<Rightarrow> if n \<noteq> '''' then (n, s) else
          (case get_alarm_by_id a s of Inl _ \<Rightarrow> ('''', s) | Inr c \<Rightarrow> (al_name c, snd (rd_set k (RText (al_name c)) 3600000 s)))
      | _ \<Rightarrow> (case get_alarm_by_id a s of Inl _ \<Rightarrow> ('''', s) | Inr c \<Rightarrow> (al_name c, snd (rd_set k (RText (al_name c)) 3600000 s))))"

text \<open>The alarm action: its log statement dereferences the target before the nil check.\<close>

definition alarm_action :: "action_info \<Rightarrow> auto \<Rightarrow> ((string \<times> gerror option) \<times> auto) option" where
  "alarm_action a s = (case ac_target a of
      None \<Rightarrow> None
    | Some t \<Rightarrow>
        if t = '''' then Some ((utf8 [229, 145, 138, 232, 173, 166, 230, 156, 141, 229, 138, 161], Some (Errorf (utf8 [229, 145, 138, 232, 173, 166, 105, 100, 228, 184, 141, 229, 173, 152, 229, 156, 168]))), s)
        else (case alarm_execute t (ac_scene a) s of ((ok, name, reason), s1) \<Rightarrow>
          if ok then Some ((utf8 [229, 145, 138, 232, 173, 166, 230, 156, 141, 229, 138, 161, 40] @ name @ '')'', None), s1)
          else (case get_alarm_name_with_cache t s1 of (n, s2) \<Rightarrow>
            if reason = alarm_exists_reason
            then Some ((utf8 [229, 145, 138, 232, 173, 166, 230, 156, 141, 229, 138, 161, 40] @ n @ utf8 [41, 32, 45, 32, 229, 145, 138, 232, 173, 166, 229, 183, 178, 229, 173, 152, 229, 156, 168, 239, 188, 140, 228, 184, 141, 229, 134, 141, 233, 135, 141, 229, 164, 141, 232, 167, 166, 229, 143, 145], None), s2)
            else Some ((utf8 [229, 145, 138, 232, 173, 166, 230, 156, 141, 229, 138, 161, 40] @ n @ '')'', Some (Errorf (utf8 [230, 137, 167, 232, 161, 140, 229, 164, 177, 232, 180, 165, 44] @ reason))), s2))))"

text \<open>The actions other than activating a scene.\<close>

definition simple_action :: "auto_env \<Rightarrow> string \<Rightarrow> string list \<Rightarrow> action_info \<Rightarrow> auto \<Rightarrow>
    ((string \<times> gerror option) \<times> auto) option" where
  "simple_action env tenant ds a s =
     (if ac_type a = ''10'' then (case ac_target a of
          None \<Rightarrow> Some ((utf8 [229, 141, 149, 232, 174, 190, 229, 164, 135, 230, 137, 167, 232, 161, 140, 239, 188, 140, 232, 174, 190, 229, 164, 135, 105, 100, 228, 184, 141, 229, 173, 152, 229, 156, 168], Some (Errorf (utf8 [232, 174, 190, 229, 164, 135, 105, 100, 228, 184, 141, 229, 173, 152, 229, 156, 168]))), s)
        | Some d \<Rightarrow> mqtt_send env d a tenant s)
      else if ac_type a = ''11'' then map_option (\<lambda>((ms, e), s1).
          ((utf8 [229, 141, 149, 231, 177, 187, 232, 174, 190, 231, 189, 174, 58] @ ''['' @ join_with '' '' ms @ '']'', e), s1)) (mqtt_sends env ds a tenant s)
      else if ac_type a = ''30'' then alarm_action a s
      else Some ((utf8 [230, 156, 141, 229, 138, 161], None), s))"

definition supported_actions :: "string list" where
  "supported_actions = [''10'', ''11'', ''20'', ''30'', ''40'']"

definition get_scene_info :: "string \<Rightarrow> auto \<Rightarrow> string res" where
  "get_scene_info sc s = (case au_db_fault s ''scene_info.first'' of
      Some e \<Rightarrow> Inl e
    | None \<Rightarrow> (case au_scene_names s sc of None \<Rightarrow> Inl RecordNotFound | Some n \<Rightarrow> Inr n))"

definition device_ids_by_config :: "string list \<Rightarrow> auto \<Rightarrow> string list res" where
  "device_ids_by_config cfgs s = (case au_db_fault s ''devices.pluck'' of
      Some e \<Rightarrow> Inl e
    | None \<Rightarrow> Inr (map dev_id (filter (\<lambda>d. case dev_device_config_id d of
        None \<Rightarrow> False | Some c \<Rightarrow> c \<in> set cfgs) (w_devices (au_world s)))))"

definition config_targets :: "action_info list \<Rightarrow> string list" where
  "config_targets as = List.map_filter (\<lambda>a. if ac_type a = ''11'' then ac_target a else None) as"

text \<open>The rows of a scene and the devices of its configurations, read by \<open>ActiveSceneExecute\<close>: an
  error of the first query is returned as success.\<close>

definition scene_plan :: "string \<Rightarrow> auto \<Rightarrow> gerror option + (action_info list \<times> string list)" where
  "scene_plan sc s = (case au_db_fault s ''scene_action_info.scan'' of
      Some _ \<Rightarrow> Inl None
    | None \<Rightarrow>
        let as = filter (\<lambda>a. ac_scene a = sc) (au_scene_actions s); cfgs = config_targets as
        in if cfgs = [] then Inr (as, [])
           else (case device_ids_by_config cfgs s of Inl e \<Rightarrow> Inl (Some e) | Inr ds \<Rightarrow> Inr (as, ds)))"

definition scene_log_insert :: "string \<Rightarrow> string \<Rightarrow> gerror option \<Rightarrow> string \<Rightarrow> auto \<Rightarrow> gerror option \<times> auto" where
  "scene_log_insert sc details err tenant s = (case au_db_fault s ''scene_log.insert'' of
      Some e \<Rightarrow> (Some e, s)
    | None \<Rightarrow> (None, s\<lparr>au_active_logs := au_active_logs s @ [\<lparr>lg_scene = sc, lg_executed_at = au_now s,
        lg_detail = details, lg_result = (if err = None then ''S'' else ''F''), lg_tenant_id = tenant\<rparr>]\<rparr>))"

definition no_actions_text :: string where
  "no_actions_text = utf8 [230, 156, 170, 230, 137, 190, 229, 136, 176, 230, 137, 167, 232, 161, 140, 229, 138, 168, 228, 189, 156]"

text \<open>\<open>AutomateActionExecute\<close> from a position of its loop. A scene may activate scenes, itself too:
  a call that never returns is \<open>None\<close>, like the stack overflow it ends in.\<close>

partial_function (option) actions_run :: "auto_env \<Rightarrow> string \<Rightarrow> string list \<Rightarrow> action_info list \<Rightarrow> string \<Rightarrow>
    gerror option \<Rightarrow> auto \<Rightarrow> ((string \<times> gerror option) \<times> auto) option" where
  "actions_run env tenant ds as res err s = (case as of
      [] \<Rightarrow> Some ((res, err), s)
    | a # rest \<Rightarrow>
        if ac_type a \<notin> set supported_actions
        then Some ((utf8 [230, 154, 130, 228, 184, 141, 230, 148, 175, 230, 140, 129, 231, 154, 132, 229, 138, 168, 228, 189, 156, 231, 177, 187, 229, 158, 139], Some (Errorf (utf8 [230, 154, 130, 228, 184, 141, 230, 148, 175, 230, 140, 129, 231, 154, 132, 229, 138, 168, 228, 189, 156, 231, 177, 187, 229, 158, 139]))), s)
        else Option.bind
          (if ac_type a \<noteq> ''20'' then simple_action env tenant ds a s
           else case ac_target a of
             None \<Rightarrow> Some ((utf8 [229, 156, 186, 230, 153, 175, 230, 191, 128, 230, 180, 187], Some (Errorf (utf8 [229, 156, 186, 230, 153, 175, 105, 100, 228, 184, 141, 229, 173, 152, 229, 156, 168]))), s)
           | Some sc \<Rightarrow> (case get_scene_info sc s of
               Inl e \<Rightarrow> Some ((utf8 [229, 156, 186, 230, 153, 175, 230, 191, 128, 230, 180, 187], Some e), s)
             | Inr name \<Rightarrow> (case scene_plan sc s of
                 Inl e \<Rightarrow> Some ((utf8 [229, 156, 186, 230, 153, 175, 230, 191, 128, 230, 180, 187, 58] @ name, e), s)
               | Inr (as', ds') \<Rightarrow> Option.bind
                   (if as' = [] then Some ((no_actions_text, Some (Errorf no_actions_text)), s)
                    else actions_run env tenant ds' as' '''' None s)
                   (\<lambda>r. case scene_log_insert sc (fst (fst r)) (snd (fst r)) tenant (snd r) of
                      (e, s1) \<Rightarrow> Some ((utf8 [229, 156, 186, 230, 153, 175, 230, 191, 128, 230, 180, 187, 58] @ name, e), s1)))))
          (\<lambda>r. actions_run env tenant ds rest
             (res @ fst (fst r) @ (if snd (fst r) = None then utf8 [32, 230, 137, 167, 232, 161, 140, 230, 136, 144, 229, 138, 159, 59] else utf8 [32, 230, 137, 167, 232, 161, 140, 229, 164, 177, 232, 180, 165, 59]))
             (if err = None then snd (fst r) else err) (snd r)))"

declare actions_run.simps [code]

definition action_execute :: "auto_env \<Rightarrow> string list \<Rightarrow> action_info list \<Rightarrow> string \<Rightarrow> auto \<Rightarrow>
    ((string \<times> gerror option) \<times> auto) option" where
  "action_execute env ds as tenant s =
     (if as = [] then Some ((no_actions_text, Some (Errorf no_actions_text)), s)
      else actions_run env tenant ds as '''' None s)"

section \<open>Running the scenes\<close>

definition scene_execute_log_save :: "string \<Rightarrow> string \<Rightarrow> gerror option \<Rightarrow> auto \<Rightarrow> auto" where
  "scene_execute_log_save sc details err s = (case au_db_fault s ''scene_automation_log.insert'' of
      Some _ \<Rightarrow> s
    | None \<Rightarrow> s\<lparr>au_scene_logs := au_scene_logs s @ [\<lparr>lg_scene = sc, lg_executed_at = au_now s,
        lg_detail = (case err of None \<Rightarrow> details | Some e \<Rightarrow> details @ ''['' @ error_msg e @ '']''),
        lg_result = (if err = None then ''S'' else ''F''), lg_tenant_id = scene_tenant sc s\<rparr>]\<rparr>)"

definition scene_automate_execute :: "auto_env \<Rightarrow> string \<Rightarrow> string list \<Rightarrow> action_info list \<Rightarrow> auto \<Rightarrow>
    (gerror option \<times> auto) option" where
  "scene_automate_execute env sc ds as s =
     map_option (\<lambda>((details, err), s1). (err, scene_execute_log_save sc details err s1))
       (action_execute env ds as (scene_tenant sc s) s)"

definition run_scene :: "auto_env \<Rightarrow> string \<Rightarrow> scene_info \<Rightarrow> auto \<Rightarrow> auto option" where
  "run_scene env d x s =
     (if si_scene x \<in> set (au_executed s) then Some s
      else case limiter_allow env (si_scene x @ '':'' @ d) s of (allowed, s1) \<Rightarrow>
        if \<not> allowed then Some s1
        else Option.bind (check_has_close (si_scene x) s1) (\<lambda>(closed, s2).
          if closed then Some s2
          else Option.bind (condition_check env (si_conditions x) d s2) (\<lambda>(ok, s3).
            if \<not> ok then Some s3
            else Option.bind (scene_automate_execute env (si_scene x) [d] (si_actions x) s3) (\<lambda>(err, s4).
              map_option (\<lambda>(_, s5). s5\<lparr>au_executed := au_executed s5 @ [si_scene x]\<rparr>)
                (action_after_alarm (si_actions x) d err s4)))))"

definition execute_run :: "auto_env \<Rightarrow> execute_params \<Rightarrow> auto \<Rightarrow> auto option" where
  "execute_run env p s = each (run_scene env (xp_device p)) (xp_scenes p) s"

definition tel_execute :: "auto_env \<Rightarrow> string \<Rightarrow> string \<Rightarrow> auto \<Rightarrow> (gerror option \<times> auto) option" where
  "tel_execute env d config s = (case get_cache_by_device_id d config s of
      (Inl e, s1) \<Rightarrow> Some (Some (wrap (utf8 [230, 159, 165, 232, 175, 162, 231, 188, 147, 229, 173, 152, 228, 191, 161, 230, 129, 175, 229, 164, 177, 232, 180, 165]) e), s1)
    | (Inr (CacheNotTask, _), s1) \<Rightarrow> Some (None, s1)
    | (Inr (CacheOk, p), s1) \<Rightarrow> map_option (\<lambda>s2. (None, s2)) (execute_run env (automate_filter (au_ext s1) p) s1)
    | (Inr (CacheNotFound, _), s1) \<Rightarrow> (case query_automate_info env d config s1 of
          (Inl e, s2) \<Rightarrow> Some (Some (wrap (utf8 [230, 159, 165, 232, 175, 162, 232, 174, 190, 231, 189, 174, 32, 232, 174, 190, 231, 189, 174, 231, 188, 147, 229, 173, 152, 229, 164, 177, 232, 180, 165]) e), s2)
        | (Inr (CacheNotTask, _), s2) \<Rightarrow> Some (None, s2)
        | (Inr (_, p), s2) \<Rightarrow> map_option (\<lambda>s3. (None, s3)) (execute_run env (automate_filter (au_ext s2) p) s2)))"

text \<open>\<open>Execute\<close>: first the scenes of the device's configuration, then those of the device.\<close>

definition execute :: "auto_env \<Rightarrow> device \<Rightarrow> automate_ext \<Rightarrow> auto \<Rightarrow> (gerror option \<times> auto) option" where
  "execute env r x s =
     (let s0 = s\<lparr>au_device := Some r, au_ext := x, au_executed := []\<rparr> in
      case (case dev_device_config_id r of None \<Rightarrow> Some (None, s0) | Some c \<Rightarrow> tel_execute env (dev_id r) c s0) of
        None \<Rightarrow> None
      | Some (_, s1) \<Rightarrow> tel_execute env (dev_id r) '''' s1)"

text \<open>\<open>TaskAutomationExecute\<close>, for the timed tasks.\<close>

definition task_automation_execute :: "auto_env \<Rightarrow> string \<Rightarrow> auto \<Rightarrow> auto option" where
  "task_automation_execute env sc s = Option.bind (check_has_close sc s) (\<lambda>(closed, s1).
     if closed then Some s1
     else case actions_by_scenes [sc] s1 of
       Inl _ \<Rightarrow> Some s1
     | Inr as \<Rightarrow> (case (if config_targets as = [] then Inr [] else device_ids_by_config (config_targets as) s1) of
         Inl _ \<Rightarrow> Some s1
       | Inr ds \<Rightarrow> map_option snd (scene_automate_execute env sc ds as s1)))"

end
