(* ===== verification/SceneRun.thy ===== *)
theory SceneRun
  imports Automate
begin

text \<open>
  What the automation of \<open>Automate\<close> guarantees: which scenes a report fires, how often, and where it
  panics or does not return.
\<close>

section \<open>What a check reads\<close>

text \<open>The answer of the device cache for a device; asking for a device changes no later answer.\<close>

definition device_seen :: "world \<Rightarrow> string \<Rightarrow> device res" where
  "device_seen w i = fst (get_device_cache_by_id i w)"

lemma device_seen_stable [simp]: "device_seen (snd (get_device_cache_by_id i w)) = device_seen w"
  by (rule ext) (auto simp: device_seen_def get_device_cache_by_id_def load_device_def dal_get_device_def
      split: option.splits sum.splits if_splits)

text \<open>Two states that agree on everything a condition is checked against.\<close>

definition same_view :: "auto \<Rightarrow> auto \<Rightarrow> bool" where
  "same_view s s' \<longleftrightarrow> au_current s' = au_current s \<and> au_attribute s' = au_attribute s \<and> au_event s' = au_event s
     \<and> au_template s' = au_template s \<and> au_identifier s' = au_identifier s \<and> au_device s' = au_device s
     \<and> au_ext s' = au_ext s \<and> au_now s' = au_now s \<and> au_db_fault s' = au_db_fault s
     \<and> w_devices (au_world s') = w_devices (au_world s) \<and> device_seen (au_world s') = device_seen (au_world s)"

lemma same_view_refl [simp]: "same_view s s"
  by (simp add: same_view_def)

lemma same_view_trans: "same_view s t \<Longrightarrow> same_view t u \<Longrightarrow> same_view s u"
  by (simp add: same_view_def)

lemma same_view_redis [simp]:
  "same_view s (s\<lparr>au_redis := r\<rparr>)" "same_view s (s\<lparr>au_history := h\<rparr>)"
  "same_view s (s\<lparr>au_redis := r, au_history := h\<rparr>)"
  by (simp_all add: same_view_def au_now_def au_db_fault_def fun_eq_iff)

lemma same_view_world:
  "same_view s (with_world s (snd (get_device_cache_by_id i (au_world s))))"
  by (simp add: same_view_def with_world_def au_now_def au_db_fault_def fun_eq_iff)

lemma same_view_value:
  assumes "same_view s s'" shows "get_actual_value d k ty s' = get_actual_value d k ty s"
proof -
  have "dal_get_device d (au_world s') = dal_get_device d (au_world s)"
    using assms by (simp add: same_view_def dal_get_device_def au_db_fault_def fun_eq_iff cong: option.case_cong)
  with assms show ?thesis
    by (simp add: same_view_def get_actual_value_def get_current_telemetry_def get_attribute_one_def
        get_device_event_one_def get_device_current_status_def cong: option.case_cong if_cong)
qed

lemma same_view_shown: "same_view s s' \<Longrightarrow> get_trigger_params_value kind k s' = get_trigger_params_value kind k s"
  by (simp add: same_view_def get_trigger_params_value_def cong: option.case_cong if_cong)

lemma same_view_check:
  assumes "same_view s s'"
  shows "check_value env c d name ty kind trigger s' = check_value env c d name ty kind trigger s"
    "check_event env c d name s' = check_event env c d name s" "check_status c d name s' = check_status c d name s"
  unfolding check_value_def check_event_def check_status_def same_view_value [OF assms] same_view_shown [OF assms]
  by (rule refl)+

lemma same_view_type:
  assumes "same_view s s'" shows "check_by_type env c d name s' = check_by_type env c d name s"
  unfolding check_by_type_def same_view_check [OF assms] by (rule refl)

text \<open>The verdict on one condition, without the state the check leaves.\<close>

definition verdict :: "auto_env \<Rightarrow> auto \<Rightarrow> string \<Rightarrow> trigger_condition \<Rightarrow> (bool \<times> string) option" where
  "verdict env s d c =
     (if tc_type c = ''22'' then Some (check_with_time (au_now s) (tc_value c), '''')
      else if tc_type c = ''10'' then (case tc_source c of
          None \<Rightarrow> Some (False, '''')
        | Some src \<Rightarrow> (case device_seen (au_world s) src of
            Inl _ \<Rightarrow> Some (False, '''')
          | Inr r \<Rightarrow> Option.bind (dev_name r) (\<lambda>n. check_by_type env c src n s)))
      else if tc_type c = ''11'' then (case tc_source c of
          None \<Rightarrow> Some (False, '''')
        | Some _ \<Rightarrow> Option.bind (au_device s) (\<lambda>r. Option.bind (dev_name r) (\<lambda>n. check_by_type env c d n s)))
      else Some (True, ''''))"

lemma verdict_view:
  assumes "same_view s s'" shows "verdict env s' d c = verdict env s d c"
proof -
  have eq: "au_now s' = au_now s" "au_device s' = au_device s" "device_seen (au_world s') = device_seen (au_world s)"
    using assms by (simp_all add: same_view_def)
  show ?thesis unfolding verdict_def eq same_view_type [OF assms] by (rule refl)
qed

lemma check_one_verdict:
  obtains s' where "check_one env c d s = map_option (\<lambda>v. (v, s')) (verdict env s d c)" "same_view s s'"
    "au_world s' = au_world s \<or> (\<exists>i. au_world s' = snd (get_device_cache_by_id i (au_world s)))" "s' = with_world s (au_world s')"
proof (cases "tc_type c = ''10'' \<and> tc_source c \<noteq> None")
  case True
  then obtain src where src: "tc_type c = ''10''" "tc_source c = Some src" by blast
  obtain x w where x: "get_device_cache_by_id src (au_world s) = (x, w)" by fastforce
  have view: "same_view s (with_world s w)" using same_view_world [of s src] x by simp
  have "check_one env c d s = map_option (\<lambda>v. (v, with_world s w)) (verdict env s d c)"
    using src x same_view_type [OF view]
    by (cases x) (simp_all add: check_one_def check_with_device_def verdict_def device_seen_def split: option.split)
  then show ?thesis
  proof (rule that [OF _ view])
    show "au_world (with_world s w) = au_world s \<or> (\<exists>i. au_world (with_world s w) = snd (get_device_cache_by_id i (au_world s)))"
      using x by (intro disjI2 exI [of _ src]) (simp add: with_world_def)
  qed (simp add: with_world_def)
next
  case False
  then have "check_one env c d s = map_option (\<lambda>v. (v, s)) (verdict env s d c)"
    by (auto simp: check_one_def check_with_device_def verdict_def split: option.split)
  then show ?thesis by (rule that) (simp_all add: with_world_def)
qed


section \<open>The decoration of a group\<close>

lemma set_device_ok:
  assumes "alarm_ok s"
  shows "\<exists>r. set_device g sc ds contents s = (None, s\<lparr>au_redis := r\<rparr>) \<and> alarm_ok (s\<lparr>au_redis := r\<rparr>)"
proof (cases "case au_redis s (alarm_group_key g) of None \<Rightarrow> False | Some (_, t) \<Rightarrow> au_now s < t")
  case True
  then obtain v t where "au_redis s (alarm_group_key g) = Some (v, t)" "au_now s < t" by (auto split: option.splits)
  moreover from this(1) assms obtain i where "v = RAlarmGroup i" by (force simp: alarm_ok_def)
  ultimately have "rd_get (alarm_group_key g) s = Inr (RAlarmGroup i)"
    by (simp add: rd_get_ok [OF alarm_okD [OF assms]])
  from set_device_present [OF assms this] show ?thesis by blast
next
  case False
  note nf = alarm_okD [OF assms]
  let ?v = "RAlarmGroup \<lparr>ag_scene = sc, ag_configs = [], ag_devices = ds, ag_contents = contents\<rparr>"
  let ?r1 = "(au_redis s)(alarm_group_key g \<mapsto> (?v, au_now s + alarm_ttl))"
  have ok1: "alarm_ok (s\<lparr>au_redis := ?r1\<rparr>)"
    by (rule alarm_ok_redis [OF assms]) (auto split: if_splits)
  obtain r2 where r2: "until_error (group_cache_add g) (map alarm_device_key ds) (s\<lparr>au_redis := ?r1\<rparr>) = (None, s\<lparr>au_redis := r2\<rparr>)"
      "alarm_ok (s\<lparr>au_redis := r2\<rparr>)"
    using group_cache_adds_ok [OF ok1, of "map alarm_device_key ds" g] by auto
  obtain r3 where "group_cache_add g (alarm_scene_key sc) (s\<lparr>au_redis := r2\<rparr>) = (None, s\<lparr>au_redis := r3\<rparr>)"
      "alarm_ok (s\<lparr>au_redis := r3\<rparr>)"
    using group_cache_add_ok [OF r2(2), of "alarm_scene_key sc" g] by auto
  with False nf r2(1) show ?thesis by (intro exI [of _ r3]) (simp add: set_device_def no_faultD Let_def)
qed

lemma svc_recoveries_history: "\<exists>h. fold (\<lambda>a. svc_alarm_recovery a content sc g ds) as s = s\<lparr>au_history := h\<rparr>"
proof (induction "as" arbitrary: s)
  case Nil
  show ?case by (intro exI [of _ "au_history s"]) simp
next
  case (Cons a rest)
  have "\<exists>h. svc_alarm_recovery a content sc g ds s = s\<lparr>au_history := h\<rparr>"
    by (cases "get_alarm_by_id a s"; cases "au_db_fault s ''alarm_history.save''")
      (auto simp: svc_alarm_recovery_def alarm_history_save_def intro: exI [of _ "au_history s"])
  then obtain h where "svc_alarm_recovery a content sc g ds s = s\<lparr>au_history := h\<rparr>" by blast
  moreover obtain h' where "fold (\<lambda>a. svc_alarm_recovery a content sc g ds) rest (s\<lparr>au_history := h\<rparr>) = s\<lparr>au_history := h'\<rparr>"
    using Cons.IH [of "s\<lparr>au_history := h\<rparr>"] by auto
  ultimately show ?case by auto
qed

lemma alarm_ok_history [simp]: "alarm_ok (s\<lparr>au_history := h\<rparr>) = alarm_ok s"
  by (simp add: alarm_ok_def no_redis_faults_def)

text \<open>The decoration never fails on a well-formed cache, and changes nothing a check reads.\<close>

lemma condition_after_alarm_ok:
  assumes "alarm_ok s" "condition_devices d cs \<noteq> None"
  shows "\<exists>s'. condition_after_alarm ok cs d contents s = Some (None, s') \<and> alarm_ok s' \<and> same_view s s'"
proof (cases "condition_devices d cs = Some [] \<or> ok")
  case True
  then show ?thesis
    using assms set_device_ok [OF assms(1), of "tc_group (last cs)" "tc_scene (last cs)" "the (condition_devices d cs)" contents]
    by (auto simp: condition_after_alarm_def)
next
  case False
  then obtain ds where ds: "condition_devices d cs = Some ds" "ds \<noteq> []" using assms(2) by auto
  let ?g = "tc_group (last cs)"
  obtain i where i: "get_by_group_id ?g s = Inr i" using get_by_group_id_ok [OF assms(1)] by blast
  then obtain h where rec: "alarm_recovery ?g contents s = (None, s\<lparr>au_history := h\<rparr>)"
    using svc_recoveries_history by (fastforce simp: alarm_recovery_def)
  let ?u = "s\<lparr>au_history := h\<rparr>"
  have "alarm_ok ?u" "get_by_group_id ?g ?u = Inr i" using assms(1) i by (simp_all add: get_by_group_id_def)
  then obtain r where "delete_by_group_id ?g ?u = Some (None, ?u\<lparr>au_redis := r\<rparr>)" "alarm_ok (?u\<lparr>au_redis := r\<rparr>)"
    using delete_by_group_id_ok by blast
  moreover have "same_view s (?u\<lparr>au_redis := r\<rparr>)"
    by (rule same_view_trans [OF same_view_redis(2) same_view_redis(1)])
  ultimately show ?thesis using rec ds False
    by (intro exI [of _ "?u\<lparr>au_redis := r\<rparr>"]) (simp add: condition_after_alarm_def)
qed

section \<open>The check of a scene\<close>

lemma alarm_ok_world: "w_redis_fault w = w_redis_fault (au_world s) \<Longrightarrow> alarm_ok s \<Longrightarrow> alarm_ok (with_world s w)"
  by (simp add: alarm_ok_def with_world_def no_redis_faults_def)

definition holds :: "auto_env \<Rightarrow> auto \<Rightarrow> string \<Rightarrow> trigger_condition \<Rightarrow> bool" where
  "holds env s d c \<longleftrightarrow> (\<exists>t. verdict env s d c = Some (True, t))"

lemma check_group_holds:
  assumes "alarm_ok s" "same_view s0 s" "\<forall>c \<in> set cs. verdict env s0 d c \<noteq> None"
  shows "\<exists>ts s'. check_group env cs d s = Some ((list_all (holds env s0 d) cs, ts), s') \<and> alarm_ok s' \<and> same_view s0 s'"
  using assms
proof (induction cs arbitrary: s)
  case (Cons c cs)
  obtain s1 where s1: "check_one env c d s = map_option (\<lambda>v. (v, s1)) (verdict env s d c)" "same_view s s1"
      "au_world s1 = au_world s \<or> (\<exists>i. au_world s1 = snd (get_device_cache_by_id i (au_world s)))" "s1 = with_world s (au_world s1)"
    by (rule check_one_verdict)
  have ok: "alarm_ok s1"
    by (subst s1(4), rule alarm_ok_world) (use s1(3) Cons.prems(1) in auto)
  have view: "same_view s0 s1" using same_view_trans [OF Cons.prems(2) s1(2)] .
  obtain b t where v: "verdict env s0 d c = Some (b, t)" using Cons.prems(3) by fastforce
  have one: "check_one env c d s = Some ((b, t), s1)" using s1(1) v verdict_view [OF Cons.prems(2)] by simp
  have b: "holds env s0 d c = b" using v by (simp add: holds_def)
  show ?case
  proof (cases b)
    case True
    from Cons.IH [OF ok view] Cons.prems(3) obtain ts s' where
      "check_group env cs d s1 = Some ((list_all (holds env s0 d) cs, ts), s')" "alarm_ok s'" "same_view s0 s'" by auto
    with one b True show ?thesis by simp
  next
    case False
    with one b ok view show ?thesis by simp
  qed
qed simp


lemma check_groups_holds:
  assumes "alarm_ok s" "same_view s0 s"
    and "\<forall>g \<in> set gs. condition_devices d g \<noteq> None \<and> (\<forall>c \<in> set g. verdict env s0 d c \<noteq> None)"
  shows "\<exists>s'. check_groups env gs d res s = Some (res \<or> list_ex (list_all (holds env s0 d)) gs, s') \<and>
    alarm_ok s' \<and> same_view s0 s'"
  using assms
proof (induction gs arbitrary: s res)
  case (Cons g gs)
  let ?ok = "list_all (holds env s0 d) g"
  obtain ts s1 where s1: "check_group env g d s = Some ((?ok, ts), s1)" "alarm_ok s1" "same_view s0 s1"
    using check_group_holds [OF Cons.prems(1,2), of g env d] Cons.prems(3) by auto
  obtain s2 where s2: "condition_after_alarm ?ok g d ts s1 = Some (None, s2)" "alarm_ok s2" "same_view s1 s2"
    using condition_after_alarm_ok [OF s1(2), of d g ?ok ts] Cons.prems(3) by auto
  from Cons.IH [OF s2(2) same_view_trans [OF s1(3) s2(3)], of "res \<or> ?ok"] Cons.prems(3) s1(1) s2(1)
  show ?case by (auto simp: disj_assoc)
qed simp

text \<open>Nothing of the report, the devices and the condition makes a check panic.\<close>

definition complete :: "trigger_condition \<Rightarrow> bool" where
  "complete c \<longleftrightarrow> (tc_type c = ''10'' \<longrightarrow> tc_source c \<noteq> None) \<and>
     (tc_type c \<in> {''10'', ''11''} \<longrightarrow> tc_param_type c \<noteq> None \<and> tc_param c \<noteq> None)"

definition all_named :: "auto \<Rightarrow> bool" where
  "all_named s \<longleftrightarrow> (\<exists>r. au_device s = Some r \<and> dev_name r \<noteq> None) \<and>
     (\<forall>i r. device_seen (au_world s) i = Inr r \<longrightarrow> dev_name r \<noteq> None)"

definition login_is_text :: "auto \<Rightarrow> bool" where
  "login_is_text s \<longleftrightarrow> (\<forall>v. map_of (ae_values (au_ext s)) ''login'' = Some v \<longrightarrow> (\<exists>x. v = JStr x))"

lemma status_is_text:
  "login_is_text s \<Longrightarrow> \<exists>x. get_actual_value d ''login'' ''STATUS'' s = JStr x"
  by (auto simp: get_actual_value_def get_device_current_status_def login_is_text_def split: option.split sum.split)

lemma check_by_type_total:
  assumes "login_is_text s" "tc_param_type c \<noteq> None" "tc_param c \<noteq> None"
  shows "check_by_type env c d name s \<noteq> None"
  using assms(2,3) status_is_text [OF assms(1), of d]
  by (auto simp: check_by_type_def check_value_def check_event_def check_status_def Let_def)

lemma verdict_total:
  assumes "complete c" "all_named s" "login_is_text s" shows "verdict env s d c \<noteq> None"
  using assms(1,2) check_by_type_total [OF assms(3)]
  by (auto simp: complete_def all_named_def verdict_def Option.bind_eq_None_conv simp del: not_None_eq
      split: option.split sum.split)

lemma condition_devices_complete: "\<forall>c \<in> set cs. complete c \<Longrightarrow> condition_devices d cs \<noteq> None"
  by (induction cs) (auto simp: complete_def)

section \<open>What leaves the log of the scenes alone\<close>

text \<open>The log and the record of the scenes a report has executed; only \<open>scene_execute_log_save\<close>
  and the loop over the scenes change them.\<close>

definition trace :: "auto \<Rightarrow> scene_log list \<times> string list" where
  "trace s = (au_scene_logs s, au_executed s)"

lemma trace_simps [simp]:
  "trace (s\<lparr>au_redis := r\<rparr>) = trace s" "trace (s\<lparr>au_cache_device := k\<rparr>) = trace s" "trace (s\<lparr>au_history := h\<rparr>) = trace s"
  "trace (s\<lparr>au_effects := e\<rparr>) = trace s" "trace (s\<lparr>au_active_logs := l\<rparr>) = trace s" "trace (s\<lparr>au_allowed := a\<rparr>) = trace s"
  "trace (with_world s w) = trace s" "trace (emit_auto x s) = trace s" "trace (set_device_type k s) = trace s"
  by (simp_all add: trace_def with_world_def emit_auto_def set_device_type_def)

lemma trace_rd [simp]: "trace (snd (rd_set k v t s)) = trace s" "trace (snd (rd_del ks s)) = trace s"
  by (simp_all add: rd_set_def rd_del_def split: option.split)

lemma trace_pair: "f s = (x, s') \<Longrightarrow> trace (snd (f s)) = trace s \<Longrightarrow> trace s' = trace s"
  by simp

lemma trace_until_error:
  assumes "\<And>x s. trace (snd (f x s)) = trace s" shows "trace (snd (until_error f xs s)) = trace s"
proof (induction xs arbitrary: s)
  case (Cons x xs)
  show ?case using assms [of x s] Cons.IH by (auto split: prod.split option.split)
qed simp

lemma trace_until_error_opt:
  assumes "\<And>x s r. f x s = Some r \<Longrightarrow> trace (snd r) = trace s"
  shows "until_error_opt f xs s = Some r \<Longrightarrow> trace (snd r) = trace s"
proof (induction xs arbitrary: s)
  case (Cons x xs)
  obtain e s1 where s1: "f x s = Some (e, s1)" using Cons.prems by (cases "f x s") auto
  then have "trace s1 = trace s" using assms by fastforce
  with Cons s1 show ?case by (cases e) auto
qed auto

lemma trace_alarm [simp]:
  "trace (snd (group_cache_add g k s)) = trace s"
  "trace (snd (set_device g sc ds cs s)) = trace s" "trace (snd (set_alarm g as d s)) = trace s"
  "trace (snd (svc_alarm_execute a c sc g ds s)) = trace s" "trace (svc_alarm_recovery a c sc g ds s) = trace s"
proof -
  show add: "trace (snd (group_cache_add g k s)) = trace s" for g k s
    by (simp add: group_cache_add_def split: sum.split)
  note adds = trace_until_error [of "group_cache_add _", OF add]
  have rd: "rd_set k v t s = (e, s') \<Longrightarrow> trace s' = trace s" for k v t s e s'
    using trace_rd(1) [of k v t s] by simp
  have ad: "until_error (group_cache_add g) ks s = (e, s') \<Longrightarrow> trace s' = trace s" for g ks s e s'
    using adds [of g ks s] by simp
  have store: "trace (snd (case info of Inl e \<Rightarrow> (Some e, s) | Inr i \<Rightarrow> (case rd_set k (v i) t s of
      (Some e, s1) \<Rightarrow> (Some e, s1)
    | (None, s1) \<Rightarrow> (case until_error (group_cache_add g) ks s1 of
        (Some e, s2) \<Rightarrow> (Some e, s2) | (None, s2) \<Rightarrow> group_cache_add g k' s2)))) = trace s"
    for info :: "gerror + 'i" and k v t ks k'
    using rd ad add by (auto split: option.split sum.split prod.split)
  show "trace (snd (set_device g sc ds cs s)) = trace s"
    by (cases "w_redis_fault (au_world s) ''exists'' (alarm_group_key g)")
      (simp_all only: set_device_def Let_def option.case snd_conv store)
  show "trace (snd (set_alarm g as d s)) = trace s"
    using rd adds by (auto simp: set_alarm_def split: option.split sum.split prod.split)
  show "trace (snd (svc_alarm_execute a c sc g ds s)) = trace s"
    by (auto simp: svc_alarm_execute_def alarm_history_save_def Let_def split: option.split sum.split)
  show "trace (svc_alarm_recovery a c sc g ds s) = trace s"
    by (auto simp: svc_alarm_recovery_def alarm_history_save_def split: option.split sum.split)
qed


lemma trace_group_cache_del: "group_cache_del g k s = Some r \<Longrightarrow> trace (snd r) = trace s"
  by (auto simp: group_cache_del_def split: sum.splits option.splits if_splits)

lemma trace_dels: "until_error_opt (group_cache_del g) ks s = Some r \<Longrightarrow> trace (snd r) = trace s"
  by (erule trace_until_error_opt [rotated]) (rule trace_group_cache_del)

lemma trace_delete_by_group_id: "delete_by_group_id g s = Some r \<Longrightarrow> trace (snd r) = trace s"
  by (auto simp: delete_by_group_id_def split: sum.splits option.splits dest!: trace_dels)

lemma trace_alarm_groups: "trace (snd (alarm_groups a sc gs r s)) = trace s"
proof (induction gs arbitrary: r s)
  case (Cons g gs)
  have exec: "svc_alarm_execute a c sc g ds s = (r', s') \<Longrightarrow> trace s' = trace s" for c ds r' s'
    using trace_alarm(4) [of a c sc g ds s] by simp
  show ?case
    using Cons.IH exec by (cases r) (auto split: sum.split bool.split prod.split)
qed simp

lemma trace_alarm_execute [simp]: "trace (snd (alarm_execute a sc s)) = trace s"
  by (simp add: alarm_execute_def trace_alarm_groups split: sum.split)

lemma trace_recoveries: "trace (fold (\<lambda>a. svc_alarm_recovery a c sc g ds) as s) = trace s"
  by (induction "as" arbitrary: s) simp_all

lemma trace_alarm_recovery [simp]: "trace (snd (alarm_recovery g cs s)) = trace s"
  by (simp add: alarm_recovery_def trace_recoveries split: sum.split)

lemma trace_condition_after_alarm:
  assumes "condition_after_alarm ok cs d contents s = Some r" shows "trace (snd r) = trace s"
proof -
  have set: "set_device g sc ds contents s = (e, s') \<Longrightarrow> trace s' = trace s" for g sc ds e s'
    using trace_alarm(2) [of g sc ds contents s] by simp
  have rec: "alarm_recovery g contents s = (e, s') \<Longrightarrow> trace s' = trace s" for g e s'
    using trace_alarm_recovery [of g contents s] by simp
  show ?thesis
    using assms by (auto simp: condition_after_alarm_def Let_def split: option.splits if_splits prod.splits
        dest!: set rec trace_delete_by_group_id)
qed

lemma trace_action_after_alarm: "action_after_alarm as d err s = Some r \<Longrightarrow> trace (snd r) = trace s"
proof -
  have alarm: "set_alarm g xs d u = (e, u') \<Longrightarrow> trace u' = trace u" for g xs u e u'
    using trace_alarm(3) [of g xs d u] by simp
  have loop: "until_error_opt (\<lambda>g u. if ts = [] then delete_by_group_id g u
      else if err = None then Some (set_alarm g ts d u) else Some (None, u)) gs s = Some r \<Longrightarrow> trace (snd r) = trace s" for ts gs s r
    by (erule trace_until_error_opt [rotated]) (auto dest: trace_delete_by_group_id alarm split: if_splits)
  show "action_after_alarm as d err s = Some r \<Longrightarrow> trace (snd r) = trace s"
    by (auto simp: action_after_alarm_def split: list.splits sum.splits option.splits dest!: loop)
qed

lemma trace_check_group: "check_group env cs d s = Some r \<Longrightarrow> trace (snd r) = trace s"
proof (induction cs arbitrary: s r)
  case (Cons c cs)
  obtain s1 where one: "check_one env c d s = map_option (\<lambda>v. (v, s1)) (verdict env s d c)" and w: "s1 = with_world s (au_world s1)"
    by (rule check_one_verdict)
  have "trace s1 = trace s" by (subst w) simp
  with Cons one show ?case by (fastforce split: option.splits if_splits)
qed simp

lemma trace_check_groups: "check_groups env gs d res s = Some r \<Longrightarrow> trace (snd r) = trace s"
proof (induction gs arbitrary: res s)
  case (Cons g gs)
  from Cons.prems obtain ok ts s1 e s2 where s1: "check_group env g d s = Some ((ok, ts), s1)"
    and s2: "condition_after_alarm ok g d ts s1 = Some (e, s2)" and r: "check_groups env gs d (res \<or> ok) s2 = Some r"
    by (auto split: option.splits)
  from trace_check_group [OF s1] trace_condition_after_alarm [OF s2] Cons.IH [OF r] show ?case by simp
qed auto


lemma trace_device_cache_delete: "trace (snd (snd (device_cache_delete sc ds ks s))) = trace s"
proof (induction sc ds ks s rule: device_cache_delete.induct)
  case (2 sc d ds ks s)
  have set: "rd_set (base_key s d) (RInfos []) automate_ttl s = (e, s1) \<Longrightarrow> trace s1 = trace s" for e s1
    using trace_rd(1) [of "base_key s d" "RInfos []" automate_ttl s] by simp
  show ?case using 2 set by (auto simp del: rd_set_ok split: sum.split redis_value.split prod.split option.split)
qed simp

lemma trace_delete_scene: "delete_cache_by_scene_aut_id sc s = Some r \<Longrightarrow> trace (snd r) = trace s"
proof -
  have del: "device_cache_delete sc ds ks s = (e, ks', s1) \<Longrightarrow> trace s1 = trace s" for ds ks e ks' s1
    using trace_device_cache_delete [of sc ds ks s] by simp
  show "delete_cache_by_scene_aut_id sc s = Some r \<Longrightarrow> trace (snd r) = trace s"
    by (auto simp: delete_cache_by_scene_aut_id_def Let_def split: sum.splits option.splits prod.splits dest: del)
qed

lemma trace_check_has_close: "check_has_close sc s = Some r \<Longrightarrow> trace (snd r) = trace s"
proof -
  have del: "delete_cache_by_scene_aut_id sc s = Some (e, s1) \<Longrightarrow> trace s1 = trace s" for s e s1
    using trace_delete_scene [of sc s "(e, s1)"] by simp
  show "check_has_close sc s = Some r \<Longrightarrow> trace (snd r) = trace s"
    by (auto simp: check_has_close_def delete_cache_by_scene_def for_both_def Let_def
        split: if_splits option.splits prod.splits dest!: del)
qed

lemma trace_get_cache [simp]: "trace (snd (get_cache_by_device_id device config s)) = trace s"
  by (simp add: get_cache_by_device_id_def Let_def)

lemma trace_set_cache: "trace (snd (set_cache env device config cs as s)) = trace s"
proof -
  have "trace (snd (until_error (put_group cs) gs s)) = trace s" for gs s
    by (rule trace_until_error) (simp add: put_group_def del: rd_set_ok)
  moreover have "trace (snd (until_error (put_action as) is s)) = trace s" for "is" s
    by (rule trace_until_error) (simp add: put_action_def del: rd_set_ok)
  ultimately have "until_error (put_group cs) gs s = (e, s') \<Longrightarrow> trace s' = trace s"
    "until_error (put_action as) is s = (e, s') \<Longrightarrow> trace s' = trace s" for gs "is" s e s'
    by (metis snd_conv)+
  then show ?thesis by (auto simp: set_cache_def simp del: rd_set_ok split: prod.split option.split)
qed

lemma trace_query_automate_info [simp]: "trace (snd (query_automate_info env device config s)) = trace s"
proof -
  have none: "set_cache_with_no_task device config s = (e, s') \<Longrightarrow> trace s' = trace s" for e s'
  proof -
    have "trace (snd (set_cache_with_no_task device config s)) = trace s"
      by (simp add: set_cache_with_no_task_def Let_def del: rd_set_ok)
    then show "set_cache_with_no_task device config s = (e, s') \<Longrightarrow> trace s' = trace s" by simp
  qed
  have set: "set_cache_by_device_id env device config cs as s = (e, s') \<Longrightarrow> trace s' = trace s" for cs as e s'
    using trace_set_cache [of env device config cs as "set_device_type (kind_of config) s"] by (simp add: set_cache_by_device_id_def)
  define q where "q = (if config \<noteq> '''' then conditions_by_device config ''11'' s else conditions_by_device device ''10'' s)"
  show ?thesis unfolding query_automate_info_def q_def [symmetric]
    by (cases q) (auto split: sum.split list.split prod.split option.split dest: none set)
qed


lemma trace_put [simp]: "trace (snd (put_message env k d v tenant s)) = trace s"
  by (simp add: put_message_def)

lemma trace_mqtt_send:
  assumes "mqtt_send env d a tenant s = Some r" shows "trace (snd r) = trace s"
proof -
  obtain x w where w: "get_device_cache_by_id d (au_world s) = (x, w)" by fastforce
  have cmd: "trace (snd (case u of Inl e \<Rightarrow> (f e, with_world s w)
      | Inr i \<Rightarrow> (case put_message env (k i) d (v i) tenant (with_world s w) of (e, s2) \<Rightarrow> (g i e, s2)))) = trace s"
    for u :: "gerror + 'i" and f g k v
    by (cases u) (simp_all add: case_prod_beta)
  from assms show ?thesis
    unfolding mqtt_send_def w prod.case Let_def
    by (cases "ac_param_type a"; cases "ac_value a"; clarsimp simp: cmd case_prod_beta split: option.splits simp del: insert_iff)
qed

lemma trace_mqtt_sends: "mqtt_sends env ds a tenant s = Some r \<Longrightarrow> trace (snd r) = trace s"
proof (induction ds arbitrary: s r)
  case (Cons d ds)
  from Cons.prems obtain m e s1 r' where s1: "mqtt_send env d a tenant s = Some ((m, e), s1)"
    and r': "mqtt_sends env ds a tenant s1 = Some r'" "snd r = snd r'"
    by (auto split: option.splits prod.splits)
  from trace_mqtt_send [OF s1] Cons.IH [OF r'(1)] r'(2) show ?case by simp
qed simp

lemma trace_alarm_name [simp]: "trace (snd (get_alarm_name_with_cache a s)) = trace s"
  by (simp add: get_alarm_name_with_cache_def Let_def del: rd_set_ok split: sum.split redis_value.split)

lemma trace_alarm_action: "alarm_action a s = Some r \<Longrightarrow> trace (snd r) = trace s"
proof -
  have ex: "alarm_execute t sc s = (x, s') \<Longrightarrow> trace s' = trace s" for t sc x s'
    using trace_alarm_execute [of t sc s] by simp
  have nm: "get_alarm_name_with_cache t u = (n, s') \<Longrightarrow> trace s' = trace u" for t u n s'
    using trace_alarm_name [of t u] by simp
  show "alarm_action a s = Some r \<Longrightarrow> trace (snd r) = trace s"
    by (auto simp: alarm_action_def Let_def split: option.splits if_splits prod.splits dest!: ex nm)
qed

lemma trace_simple_action: "simple_action env tenant ds a s = Some r \<Longrightarrow> trace (snd r) = trace s"
  by (auto simp: simple_action_def split: if_splits option.splits
      dest: trace_mqtt_send trace_mqtt_sends trace_alarm_action)

lemma trace_scene_log [simp]: "trace (snd (scene_log_insert sc t e tenant s)) = trace s"
  by (simp add: scene_log_insert_def split: option.split)

text \<open>By induction over the calls of the action executor.\<close>


text \<open>By induction over the calls of the action executor.\<close>

lemma trace_actions_run: "actions_run env tenant ds as res err s = Some r \<Longrightarrow> trace (snd r) = trace s"
proof (induction rule: actions_run.raw_induct [rotated, consumes 1, case_names step])
  case (step run env tenant ds as res err s r)
  note IH = step.IH and body = step.hyps
  show ?case
  proof (cases as)
    case Nil
    with body show ?thesis by auto
  next
    case (Cons a rest)
    show ?thesis
      using body unfolding Cons
      by (auto simp: Option.bind_eq_Some_conv case_prod_beta split: if_splits option.splits sum.splits
          dest!: IH trace_simple_action)
  qed
qed


section \<open>Running the scenes of a report\<close>

lemma trace_action_execute: "action_execute env ds as tenant s = Some r \<Longrightarrow> trace (snd r) = trace s"
  by (auto simp: action_execute_def split: if_splits dest: trace_actions_run)

text \<open>What a report has logged since the state \<open>s0\<close>: each scene once, and only executed scenes.\<close>

definition logged_since :: "auto \<Rightarrow> auto \<Rightarrow> bool" where
  "logged_since s0 s \<longleftrightarrow> (\<exists>new. au_scene_logs s = au_scene_logs s0 @ new \<and> distinct (map lg_scene new) \<and>
     lg_scene ` set new \<subseteq> set (au_executed s))"

lemma logged_since_trace: "trace s' = trace s \<Longrightarrow> logged_since s0 s' = logged_since s0 s"
  by (simp add: logged_since_def trace_def)

lemma scene_automate_execute_logs:
  assumes "scene_automate_execute env sc ds as s = Some (e, s')"
  shows "au_executed s' = au_executed s \<and> (\<exists>new. au_scene_logs s' = au_scene_logs s @ new \<and> (new = [] \<or> (\<exists>l. new = [l] \<and> lg_scene l = sc)))"
proof -
  obtain t e' s1 where "action_execute env ds as (scene_tenant sc s) s = Some ((t, e'), s1)"
    and s': "s' = scene_execute_log_save sc t e' s1"
    using assms by (auto simp: scene_automate_execute_def split: prod.splits)
  from trace_action_execute [OF this(1)] have "trace s1 = trace s" by simp
  with s' show ?thesis
    by (cases "au_db_fault s1 ''scene_automation_log.insert''") (simp_all add: trace_def scene_execute_log_save_def)
qed

lemma logged_step:
  assumes "logged_since s0 s" "trace s3 = trace s" "sc \<notin> set (au_executed s)"
    and "scene_automate_execute env sc ds as s3 = Some (e, s4)" "trace s5 = trace s4"
  shows "logged_since s0 (s5\<lparr>au_executed := au_executed s5 @ [sc]\<rparr>)"
proof -
  obtain old where "au_scene_logs s = au_scene_logs s0 @ old" "distinct (map lg_scene old)" "lg_scene ` set old \<subseteq> set (au_executed s)"
    using assms(1) by (auto simp: logged_since_def)
  moreover obtain new where "au_scene_logs s4 = au_scene_logs s3 @ new" "new = [] \<or> (\<exists>l. new = [l] \<and> lg_scene l = sc)"
      "au_executed s4 = au_executed s3"
    using scene_automate_execute_logs [OF assms(4)] by blast
  ultimately show ?thesis
    using assms(2,3,5) unfolding logged_since_def trace_def by (intro exI [of _ "old @ new"]) auto
qed

lemma run_scene_logged:
  assumes "logged_since s0 s" "run_scene env d x s = Some s'" shows "logged_since s0 s'"
proof (cases "si_scene x \<in> set (au_executed s)")
  case False
  obtain allowed s1 where s1: "limiter_allow env (si_scene x @ '':'' @ d) s = (allowed, s1)" "trace s1 = trace s"
    by (simp add: limiter_allow_def Let_def)
  note t = trace_check_has_close [of _ s1] trace_check_groups trace_action_after_alarm
  from assms(2) False s1(1) consider (same) "s' = s1"
    | (closed) s2 where "check_has_close (si_scene x) s1 = Some (True, s2)" "s' = s2"
    | (run) s2 ok s3 where "check_has_close (si_scene x) s1 = Some (False, s2)" "condition_check env (si_conditions x) d s2 = Some (ok, s3)"
        "ok \<longrightarrow> (\<exists>err s4 e s5. scene_automate_execute env (si_scene x) [d] (si_actions x) s3 = Some (err, s4) \<and>
           action_after_alarm (si_actions x) d err s4 = Some (e, s5) \<and> s' = s5\<lparr>au_executed := au_executed s5 @ [si_scene x]\<rparr>)"
        "\<not> ok \<longrightarrow> s' = s3"
    by (fastforce simp: run_scene_def Option.bind_eq_Some_conv split: if_splits)
  then show ?thesis
  proof cases
    case same
    with assms(1) s1(2) logged_since_trace show ?thesis by blast
  next
    case closed
    with t(1) s1(2) have "trace s' = trace s" by fastforce
    with assms(1) logged_since_trace show ?thesis by blast
  next
    case run
    have s3: "trace s3 = trace s"
      using t(1) [OF run(1)] t(2) [of _ _ _ _ s2 "(ok, s3)"] run(2) s1(2) by (simp add: condition_check_def)
    show ?thesis
    proof (cases ok)
      case True
      then obtain err s4 e s5 where "scene_automate_execute env (si_scene x) [d] (si_actions x) s3 = Some (err, s4)"
        and e: "action_after_alarm (si_actions x) d err s4 = Some (e, s5)" and s': "s' = s5\<lparr>au_executed := au_executed s5 @ [si_scene x]\<rparr>"
        using run(3) by blast
      from logged_step [OF assms(1) s3 False this(1)] t(3) [OF e] s' show ?thesis by simp
    next
      case False
      with run(4) s3 assms(1) logged_since_trace show ?thesis by blast
    qed
  qed
qed (use assms in \<open>simp add: run_scene_def\<close>)


lemma execute_run_logged:
  assumes "logged_since s0 s" "execute_run env p s = Some s'" shows "logged_since s0 s'"
proof -
  have "each (run_scene env d) xs s = Some s' \<Longrightarrow> logged_since s0 s \<Longrightarrow> logged_since s0 s'" for d xs s
    by (induction xs arbitrary: s) (auto simp: Option.bind_eq_Some_conv dest: run_scene_logged)
  with assms show ?thesis by (simp add: execute_run_def)
qed

lemma tel_execute_logged:
  assumes "logged_since s0 s" "tel_execute env d config s = Some (e, s')" shows "logged_since s0 s'"
proof -
  obtain x s1 where s1: "get_cache_by_device_id d config s = (x, s1)" by fastforce
  obtain y s2 where s2: "query_automate_info env d config s1 = (y, s2)" by fastforce
  have "trace s1 = trace s" "trace s2 = trace s1"
    using trace_get_cache [of d config s] trace_query_automate_info [of env d config s1] s1 s2 by simp_all
  with assms(1) have "logged_since s0 s1" "logged_since s0 s2" using logged_since_trace by metis+
  with assms(2) show ?thesis
    by (auto simp: tel_execute_def s1 s2 split: sum.splits prod.splits cache_result.splits dest: execute_run_logged)
qed


section \<open>The check of a scene, for every order of the groups\<close>

lemma condition_check_ok:
  assumes "alarm_ok s" "all_named s" "login_is_text s" "\<forall>c \<in> set cs. complete c"
    and "\<And>xs. mset (ae_ord env xs) = mset xs"
  shows "\<exists>s'. condition_check env cs d s =
      Some (\<exists>g \<in> tc_group ` set cs. \<forall>c \<in> set cs. tc_group c = g \<longrightarrow> holds env s d c, s') \<and>
    alarm_ok s' \<and> same_view s s'"
proof -
  let ?gs = "map (\<lambda>g. conditions_of g cs) (groups_of env cs)"
  have "\<forall>g \<in> set ?gs. condition_devices d g \<noteq> None \<and> (\<forall>c \<in> set g. verdict env s d c \<noteq> None)"
    using assms(4) condition_devices_complete verdict_total [OF _ assms(2,3)] by (auto simp: conditions_of_def)
  from check_groups_holds [OF assms(1) same_view_refl this, of False]
  have "\<exists>s'. condition_check env cs d s = Some (list_ex (list_all (holds env s d)) ?gs, s') \<and> alarm_ok s' \<and> same_view s s'"
    by (simp add: condition_check_def)
  moreover have "set (groups_of env cs) = tc_group ` set cs"
    using set_ord [OF assms(5)] by (simp add: groups_of_def)
  then have "list_ex (list_all (holds env s d)) ?gs =
      (\<exists>g \<in> tc_group ` set cs. \<forall>c \<in> set cs. tc_group c = g \<longrightarrow> holds env s d c)"
    by (auto simp: list_ex_iff list_all_iff conditions_of_def)
  ultimately show ?thesis by simp
qed

definition operator_of :: "trigger_condition \<Rightarrow> string" where
  "operator_of c = (case tc_operator c of None \<Rightarrow> ''='' | Some x \<Rightarrow> x)"

lemma holds_reported:
  assumes "tc_type c = ''10''" "tc_param_type c = Some ''TEL''" "tc_param c = Some k"
    and "tc_source c = Some i" "device_seen (au_world s) i = Inr r" "dev_name r \<noteq> None"
    and "map_of (ae_values (au_ext s)) k = Some v"
  shows "holds env s d c = check_by_operator (operator_of c) (tc_value c) v"
proof -
  have up: "to_upper ''TEL'' = ''TEL''" by (simp add: to_upper_def upper_char_def)
  from assms show ?thesis
    by (auto simp: holds_def verdict_def check_by_type_def check_value_def get_actual_value_def operator_of_def up Let_def)
qed

section \<open>Scenes that activate scenes\<close>

text \<open>A set of scenes each of which begins with activating one of them.\<close>

definition activation_cycle :: "string set \<Rightarrow> auto \<Rightarrow> bool" where
  "activation_cycle S s \<longleftrightarrow> (\<forall>sc \<in> S. (\<exists>name. get_scene_info sc s = Inr name) \<and>
     (\<exists>a rest ds sc'. scene_plan sc s = Inr (a # rest, ds) \<and> ac_type a = ''20'' \<and> ac_target a = Some sc' \<and> sc' \<in> S))"

lemma activation_diverges:
  assumes "actions_run env tenant ds as res err u = Some r" "activation_cycle S u"
    and "as = a # rest" "ac_type a = ''20''" "ac_target a = Some sc" "sc \<in> S"
  shows False
  using assms
proof (induction arbitrary: a rest sc rule: actions_run.raw_induct [rotated, consumes 1, case_names step])
  case (step run env tenant ds as res err s r)
  note body = step.hyps and pre = step.prems
  obtain name a' rest' ds' sc' where n: "get_scene_info sc s = Inr name" and p: "scene_plan sc s = Inr (a' # rest', ds')"
      "ac_type a' = ''20''" "ac_target a' = Some sc'" "sc' \<in> S"
    using pre(1,5) by (auto simp: activation_cycle_def)
  from body pre(2-4) n p(1) obtain q where "run env tenant ds' (a' # rest') '''' None s = Some q"
    by (auto simp: supported_actions_def Option.bind_eq_Some_conv)
  from step.IH [OF this pre(1) refl p(2-4)] show ?case .
qed


section \<open>Properties\<close>

text \<open>C4: A scene's conditions hold exactly when all conditions of one of its groups do. On complete
  conditions and a report that names its devices, the check returns, whatever the alarm cache holds
  and in whatever order Go walks the groups, with the answer that some group has only conditions that
  hold in the state the check began in: neither the early exit of a group nor the alarms that the
  checked groups raise, keep or recover on the way change what a later group is checked against.\<close>
theorem condition_check_dnf:
  assumes "alarm_ok s" "all_named s" "login_is_text s" "\<forall>c \<in> set cs. complete c"
    and "\<And>xs. mset (ae_ord env xs) = mset xs"
  shows "\<exists>s'. condition_check env cs d s =
      Some (\<exists>g \<in> tc_group ` set cs. \<forall>c \<in> set cs. tc_group c = g \<longrightarrow> holds env s d c, s') \<and>
    alarm_ok s' \<and> same_view s s'"
  by (rule condition_check_ok [OF assms])

text \<open>C8: A report executes a scene at most once. Whatever the cache lists, whatever a scene's actions
  do and whatever fails, an execution that returns has appended to the log of executions entries of
  distinct scenes, all of them recorded as executed: a scene found both through the device and through
  its configuration runs once.\<close>
theorem scene_once_per_report:
  assumes "execute env r x s = Some (e, s')"
  shows "\<exists>new. au_scene_logs s' = au_scene_logs s @ new \<and> distinct (map lg_scene new) \<and>
    lg_scene ` set new \<subseteq> set (au_executed s')"
proof -
  let ?s0 = "s\<lparr>au_device := Some r, au_ext := x, au_executed := []\<rparr>"
  have start: "logged_since ?s0 ?s0" by (simp add: logged_since_def)
  obtain e1 s1 where s1: "(case dev_device_config_id r of None \<Rightarrow> Some (None, ?s0) | Some c \<Rightarrow> tel_execute env (dev_id r) c ?s0) =
      Some (e1, s1)" "tel_execute env (dev_id r) '''' s1 = Some (e, s')"
    using assms by (auto simp: execute_def Let_def split: option.splits)
  then have "logged_since ?s0 s1"
    using start tel_execute_logged [OF start] by (cases "dev_device_config_id r") auto
  from tel_execute_logged [OF this s1(2)] show ?thesis by (simp add: logged_since_def)
qed

text \<open>A condition on another device is checked against the value of the device that reports. When
  every condition of a scene is on the telemetry key k of a device of its own, and the report carries
  a value of k, the check compares that one value with the thresholds of all the devices, whichever
  device reported it and whatever the tables hold for the others.\<close>
theorem other_device_sees_report:
  assumes "alarm_ok s" "all_named s" "login_is_text s" "\<And>xs. mset (ae_ord env xs) = mset xs"
    and "\<forall>c \<in> set cs. tc_type c = ''10'' \<and> tc_param_type c = Some ''TEL'' \<and> tc_param c = Some k \<and>
      (\<exists>i r. tc_source c = Some i \<and> device_seen (au_world s) i = Inr r)"
    and "map_of (ae_values (au_ext s)) k = Some v"
  shows "\<exists>s'. condition_check env cs d (s\<lparr>au_current := stored\<rparr>) =
    Some (\<exists>g \<in> tc_group ` set cs. \<forall>c \<in> set cs. tc_group c = g \<longrightarrow> check_by_operator (operator_of c) (tc_value c) v, s')"
proof -
  let ?s = "s\<lparr>au_current := stored\<rparr>"
  have "alarm_ok ?s" "all_named ?s" "login_is_text ?s"
    using assms(1-3) by (simp_all add: alarm_ok_def no_redis_faults_def all_named_def login_is_text_def)
  moreover have "\<forall>c \<in> set cs. complete c" using assms(5) by (auto simp: complete_def)
  ultimately obtain s' where "condition_check env cs d ?s =
      Some (\<exists>g \<in> tc_group ` set cs. \<forall>c \<in> set cs. tc_group c = g \<longrightarrow> holds env ?s d c, s')"
    using condition_check_ok [OF _ _ _ _ assms(4)] by blast
  moreover have "holds env ?s d c = check_by_operator (operator_of c) (tc_value c) v" if c: "c \<in> set cs" for c
  proof -
    obtain i r where "tc_source c = Some i" "device_seen (au_world s) i = Inr r" using assms(5) c by blast
    moreover have "dev_name r \<noteq> None" using calculation(2) assms(2) by (auto simp: all_named_def)
    ultimately show ?thesis using assms(5,6) c by (intro holds_reported [where k = k and i = i and r = r]) auto
  qed
  ultimately show ?thesis by (intro exI [of _ s']) (simp cong: ball_cong)
qed

text \<open>C34: Scenes that activate each other never stop. If each scene of a set begins with an action that
  activates a scene of the set (one scene that activates itself is enough), executing an action that
  activates one of them never returns, whatever other actions there are: nothing bounds the depth, and
  the stack overflow ends the process.\<close>
theorem activation_cycle_never_returns:
  assumes "activation_cycle S s" "ac_type a = ''20''" "ac_target a = Some sc" "sc \<in> S"
  shows "action_execute env ds (a # rest) tenant s = None"
proof (cases "action_execute env ds (a # rest) tenant s")
  case (Some r)
  then have "actions_run env tenant ds (a # rest) '''' None s = Some r" by (simp add: action_execute_def)
  from activation_diverges [OF this assms(1) refl assms(2-4)] show ?thesis by blast
qed


section \<open>Witnesses\<close>

definition demo_named :: "string \<Rightarrow> device" where
  "demo_named i = demo_device\<lparr>dev_id := i, dev_name := Some i, dev_device_config_id := None\<rparr>"

text \<open>Device \<open>d1\<close> reports that it is hot.\<close>

definition demo_hot :: automate_ext where
  "demo_hot = \<lparr>ae_param_type = ''TEL'', ae_param = [''temp''], ae_values = [(''temp'', JStr ''hot'')]\<rparr>"

definition demo_hot_condition :: "string \<Rightarrow> trigger_condition" where
  "demo_hot_condition i = demo_condition\<lparr>tc_source := Some i, tc_operator := Some ''='', tc_value := ''hot''\<rparr>"

definition demo_hot_auto :: auto where
  "demo_hot_auto = demo_auto\<lparr>au_world := demo_world\<lparr>w_devices := [demo_named ''d1'', demo_named ''d2'']\<rparr>,
     au_conditions := [demo_hot_condition ''d1''], au_device := Some (demo_named ''d1''), au_ext := demo_hot\<rparr>"


lemma demo_hot_facts:
  "alarm_ok demo_hot_auto" "all_named demo_hot_auto" "login_is_text demo_hot_auto"
  "device_seen (au_world demo_hot_auto) ''d2'' = Inr (demo_named ''d2'')"
  "device_seen (au_world demo_hot_auto) ''d1'' = Inr (demo_named ''d1'')"
proof -
  have seen: "device_seen (au_world demo_hot_auto) i =
      (if i = ''d1'' then Inr (demo_named ''d1'') else if i = ''d2'' then Inr (demo_named ''d2'') else Inl RecordNotFound)" for i
    by (simp add: device_seen_def get_device_cache_by_id_def load_device_def dal_get_device_def demo_hot_auto_def
        demo_world_def empty_world_def demo_named_def)
  then show "all_named demo_hot_auto" "device_seen (au_world demo_hot_auto) ''d2'' = Inr (demo_named ''d2'')"
    "device_seen (au_world demo_hot_auto) ''d1'' = Inr (demo_named ''d1'')"
    by (auto simp: all_named_def demo_hot_auto_def demo_named_def split: if_splits)
  show "alarm_ok demo_hot_auto" "login_is_text demo_hot_auto"
    by (simp_all add: alarm_ok_def no_redis_faults_def login_is_text_def demo_hot_auto_def demo_auto_def demo_world_def
        empty_world_def demo_hot_def)
qed

lemma demo_hot_check: "check_by_operator ''='' ''hot'' (JStr ''hot'')"
  by code_simp

theorem condition_check_dnf_witness:
  "\<exists>s'. condition_check demo_env [demo_hot_condition ''d1''] ''d1'' demo_hot_auto = Some (True, s')"
proof -
  have "complete (demo_hot_condition ''d1'')" by (simp add: complete_def demo_hot_condition_def demo_condition_def)
  moreover have "holds demo_env demo_hot_auto ''d1'' (demo_hot_condition ''d1'')"
    using demo_hot_check demo_hot_facts(5)
    by (subst holds_reported [where k = "''temp''" and i = "''d1''" and r = "demo_named ''d1''" and v = "JStr ''hot''"])
      (simp_all add: demo_hot_condition_def demo_condition_def operator_of_def demo_named_def demo_hot_auto_def demo_hot_def)
  ultimately show ?thesis
    using condition_check_dnf [OF demo_hot_facts(1-3) _ demo_auto_facts(4), of "[demo_hot_condition ''d1'']" "''d1''"] by auto
qed

text \<open>The report executes the scene.\<close>

lemma demo_hot_run:
  "map_option (\<lambda>(e, s'). map lg_scene (au_scene_logs s')) (execute demo_env (demo_named ''d1'') demo_hot demo_hot_auto) = Some [''s1'']"
  by code_simp

theorem scene_once_per_report_witness:
  "\<exists>e s'. execute demo_env (demo_named ''d1'') demo_hot demo_hot_auto = Some (e, s') \<and>
     distinct (map lg_scene (au_scene_logs s')) \<and> lg_scene ` set (au_scene_logs s') = {''s1''} \<and> ''s1'' \<in> set (au_executed s')"
proof -
  obtain e s' where run: "execute demo_env (demo_named ''d1'') demo_hot demo_hot_auto = Some (e, s')"
    and logs: "map lg_scene (au_scene_logs s') = [''s1'']"
    using demo_hot_run by (auto split: prod.splits)
  have start: "au_scene_logs demo_hot_auto = []" by (simp add: demo_hot_auto_def demo_auto_def)
  from scene_once_per_report [OF run] start have "distinct (map lg_scene (au_scene_logs s'))"
    "lg_scene ` set (au_scene_logs s') \<subseteq> set (au_executed s')" by auto
  moreover have "lg_scene ` set (au_scene_logs s') = {''s1''}" using arg_cong [OF logs, of set] by simp
  ultimately show ?thesis using run by auto
qed

text \<open>The tables say that \<open>d2\<close> is cold; the scene that needs both devices hot fires.\<close>

theorem other_device_sees_report_witness:
  "\<exists>s'. condition_check demo_env [demo_hot_condition ''d1'', demo_hot_condition ''d2''] ''d1''
     (demo_hot_auto\<lparr>au_current := (\<lambda>d k. if d = ''d2'' then Some (None, None, Some ''cold'') else None)\<rparr>) = Some (True, s')"
proof -
  let ?cs = "[demo_hot_condition ''d1'', demo_hot_condition ''d2'']"
  have c: "\<forall>c \<in> set ?cs. tc_type c = ''10'' \<and> tc_param_type c = Some ''TEL'' \<and> tc_param c = Some ''temp'' \<and>
      (\<exists>i r. tc_source c = Some i \<and> device_seen (au_world demo_hot_auto) i = Inr r)"
    using demo_hot_facts(4,5) by (simp add: demo_hot_condition_def demo_condition_def)
  have v: "map_of (ae_values (au_ext demo_hot_auto)) ''temp'' = Some (JStr ''hot'')"
    by (simp add: demo_hot_auto_def demo_hot_def)
  have h: "check_by_operator (operator_of (demo_hot_condition i)) (tc_value (demo_hot_condition i)) (JStr ''hot'')" for i
    using demo_hot_check by (simp add: operator_of_def demo_hot_condition_def)
  from other_device_sees_report [OF demo_hot_facts(1-3) demo_auto_facts(4) c v, of "''d1''"] h show ?thesis by (auto simp: ex_disj_distrib)
qed

definition demo_activate :: action_info where
  "demo_activate = demo_action\<lparr>ac_type := ''20'', ac_target := Some ''s1''\<rparr>"

theorem activation_cycle_never_returns_witness:
  "action_execute demo_env [''d1''] [demo_activate] ''t1''
     (demo_auto\<lparr>au_scene_actions := [demo_activate], au_scene_names := [''s1'' \<mapsto> ''loop'']\<rparr>) = None"
proof (rule activation_cycle_never_returns [where S = "{''s1''}" and sc = "''s1''"])
  show "activation_cycle {''s1''} (demo_auto\<lparr>au_scene_actions := [demo_activate], au_scene_names := [''s1'' \<mapsto> ''loop'']\<rparr>)"
    by (simp add: activation_cycle_def get_scene_info_def scene_plan_def au_db_fault_def demo_auto_def demo_world_def
        empty_world_def demo_activate_def demo_action_def config_targets_def List.map_filter_def)
qed (simp_all add: demo_activate_def)

end
