(* ===== verification/PutMessages.thy ===== *)
theory PutMessages
  imports Downlink
begin

text \<open>
  The services that send something to a device: \<open>CommandPutMessage\<close> (\<open>command_data.go\<close>),
  \<open>AttributePutMessage\<close> and \<open>AttributeGetMessage\<close> (\<open>attribute_data.go\<close>) and \<open>TelemetryPutMessage\<close>
  (\<open>telemetry_data.go\<close>). They nest the payload for the gateways above the device, find the top
  gateway, write a log row and publish on the downlink bus. The three files hold copies of the search
  for the top gateway and of the nesting; they are one definition here. An id the code generates is an
  argument.
\<close>

section \<open>State\<close>

record service_plugin =
  sp_identifier :: string
  sp_service_type :: int
  sp_service_config :: "string option"

text \<open>The shared world, the table of service plugins, and the bus the services are given, if any.\<close>

record put_state =
  ps_world :: world
  ps_plugins :: "service_plugin list"
  ps_bus :: "dl_bus option"

text \<open>\<open>errcode.New\<close> and its siblings, as far as \<open>Error()\<close> shows them.\<close>

definition err_code :: "nat \<Rightarrow> gerror" where
  "err_code n = Errorf (''Error Code: '' @ show_nat n)"

definition code_param_error :: gerror where "code_param_error = err_code 100002"
definition code_db_error :: gerror where "code_db_error = err_code 101001"
definition code_system_error :: gerror where "code_system_error = err_code 100000"

section \<open>The topic prefix of a protocol plugin\<close>

record access_config =
  pa_device_type :: int
  pa_access_address :: string
  pa_http_address :: string
  pa_prefix :: string

definition dec_protocol_access :: "access_config dec" where
  "dec_protocol_access = dec_struct
     [(''device_type'', on_field dec_int pa_device_type (\<lambda>v. pa_device_type_update (\<lambda>_. v))),
      (''access_address'', on_field dec_string pa_access_address (\<lambda>v. pa_access_address_update (\<lambda>_. v))),
      (''http_address'', on_field dec_string pa_http_address (\<lambda>v. pa_http_address_update (\<lambda>_. v))),
      (''sub_topic_prefix'', on_field dec_string pa_prefix (\<lambda>v. pa_prefix_update (\<lambda>_. v)))]"

definition dec_service_access :: "access_config dec" where
  "dec_service_access = dec_struct
     [(''http_address'', on_field dec_string pa_http_address (\<lambda>v. pa_http_address_update (\<lambda>_. v))),
      (''sub_topic_prefix'', on_field dec_string pa_prefix (\<lambda>v. pa_prefix_update (\<lambda>_. v)))]"

definition no_access :: access_config where
  "no_access = \<lparr>pa_device_type = 0, pa_access_address = '''', pa_http_address = '''', pa_prefix = ''''\<rparr>"

definition plugin_by_identifier :: "string \<Rightarrow> put_state \<Rightarrow> service_plugin res" where
  "plugin_by_identifier i s =
     (if i = ''MQTT'' then Inr \<lparr>sp_identifier = ''MQTT'', sp_service_type = 1, sp_service_config = None\<rparr>
      else case w_db_fault (ps_world s) ''service_plugins.first'' of
        Some e \<Rightarrow> Inl e
      | None \<Rightarrow> (case find (\<lambda>p. sp_identifier p = i) (ps_plugins s) of None \<Rightarrow> Inl RecordNotFound | Some p \<Rightarrow> Inr p))"

text \<open>\<open>GetServicePluginSubTopicPrefixByDeviceConfigID\<close>; a configuration without protocol panics.\<close>

definition sub_topic_prefix :: "string \<Rightarrow> put_state \<Rightarrow> (string res \<times> put_state) option" where
  "sub_topic_prefix cfg s = (case get_device_config_by_id cfg (ps_world s) of
      (Inl e, w) \<Rightarrow> Some (Inl e, s\<lparr>ps_world := w\<rparr>)
    | (Inr c, w) \<Rightarrow> map_option (\<lambda>proto. (case plugin_by_identifier proto (s\<lparr>ps_world := w\<rparr>) of
          Inl e \<Rightarrow> Inl e
        | Inr p \<Rightarrow>
            if sp_service_type p = 1 \<or> sp_service_type p = 2 then (case sp_service_config p of
                None \<Rightarrow> Inl (Errorf ''service config is empty'')
              | Some t \<Rightarrow> (case unmarshal (if sp_service_type p = 1 then dec_protocol_access else dec_service_access) t no_access of
                  Inl e \<Rightarrow> Inl e | Inr a \<Rightarrow> Inr (pa_prefix a)))
            else Inr '''', s\<lparr>ps_world := w\<rparr>)) (dc_protocol_type c))"

section \<open>The payload of nested gateways\<close>

text \<open>A payload under single-key objects, as it is marshalled.\<close>

datatype down = Payload string | Under string down

primrec render :: "down \<Rightarrow> string" where
  "render (Payload p) = p"
| "render (Under k d) = ''{'' @ print_str k @ '':'' @ render d @ ''}''"

text \<open>\<open>buildNestedSubGatewayData\<close> and its two copies. Parents that form a cycle recurse forever, a
  sub-gateway without address panics: both are \<open>None\<close>.\<close>

partial_function (option) build_nested :: "device \<Rightarrow> string \<Rightarrow> down \<Rightarrow> world \<Rightarrow> (down \<times> world) option" where
  "build_nested g a p w = (case dev_parent_id g of
      None \<Rightarrow> Some (Under ''sub_device_data'' (Under a p), w)
    | Some i \<Rightarrow> (case get_device_cache_by_id i w of
        (Inl _, w1) \<Rightarrow> map_option (\<lambda>ga. (Under ''sub_gateway_data'' (Under ga (Under ''sub_device_data'' (Under a p))), w1))
          (dev_sub_device_addr g)
      | (Inr q, w1) \<Rightarrow> Option.bind (build_nested q a p w1) (\<lambda>(inner, w2).
          map_option (\<lambda>ga. (Under ''sub_gateway_data'' (Under ga
            (if dev_parent_id q \<noteq> None then inner else Under ''sub_device_data'' (Under a p))), w2))
          (dev_sub_device_addr g))))"

text \<open>\<open>transformCommandDataForMultiLevelGateway\<close>; a sub-device without parent panics.\<close>

definition transform_down :: "down \<Rightarrow> device \<Rightarrow> string \<Rightarrow> world \<Rightarrow> (down res \<times> world) option" where
  "transform_down p d ty w =
     (if ty = ''3'' then (case dev_sub_device_addr d of
          None \<Rightarrow> Some (Inl (Errorf (utf8 [229, 173, 144, 232, 174, 190, 229, 164, 135, 231, 154, 132, 83, 117, 98, 68, 101, 118, 105, 99, 101, 65, 100, 100, 114, 228, 184, 186, 231, 169, 186])), w)
        | Some a \<Rightarrow> (case dev_parent_id d of
            None \<Rightarrow> None
          | Some i \<Rightarrow> (case get_device_cache_by_id i w of
              (Inl e, w1) \<Rightarrow> Some (Inl (Errorf (utf8 [232, 142, 183, 229, 143, 150, 231, 136, 182, 232, 174, 190, 229, 164, 135, 228, 191, 161, 230, 129, 175, 229, 164, 177, 232, 180, 165, 58, 32] @ error_msg e)), w1)
            | (Inr g, w1) \<Rightarrow>
                if dev_parent_id g = None then Some (Inr (Under ''sub_device_data'' (Under a p)), w1)
                else if dev_sub_device_addr g = None then Some (Inl (Errorf (utf8 [231, 136, 182, 231, 189, 145, 229, 133, 179, 231, 154, 132, 83, 117, 98, 68, 101, 118, 105, 99, 101, 65, 100, 100, 114, 228, 184, 186, 231, 169, 186])), w1)
                else map_option (\<lambda>(o1, w2). (Inr o1, w2)) (build_nested g a p w1))))
      else if ty = ''2'' then
        (if dev_parent_id d \<noteq> None then Some (case dev_sub_device_addr d of
            None \<Rightarrow> (Inl (Errorf (utf8 [229, 173, 144, 231, 189, 145, 229, 133, 179, 231, 154, 132, 83, 117, 98, 68, 101, 118, 105, 99, 101, 65, 100, 100, 114, 228, 184, 186, 231, 169, 186])), w)
          | Some a \<Rightarrow> (Inr (Under ''sub_gateway_data'' (Under a (Under ''gateway_data'' p))), w))
         else Some (Inr (Under ''gateway_data'' p), w))
      else Some (Inr p, w))"

section \<open>The device that receives the message\<close>

definition too_deep :: gerror where
  "too_deep = Errorf (utf8 [231, 189, 145, 229, 133, 179, 229, 177, 130, 231, 186, 167, 232, 191, 135, 230, 183, 177, 239, 188, 140, 232, 182, 133, 232, 191, 135, 230, 156, 128, 229, 164, 167, 230, 183, 177, 229, 186, 166, 233, 153, 144, 229, 136, 182])"

text \<open>The loop of \<open>findTopLevelGateway\<close>: at most ten steps up.\<close>

fun climb :: "nat \<Rightarrow> device \<Rightarrow> world \<Rightarrow> device res \<times> world" where
  "climb 0 d w = (Inl too_deep, w)"
| "climb (Suc n) d w = (case dev_parent_id d of
     None \<Rightarrow> (Inr d, w)
   | Some i \<Rightarrow> (case get_device_cache_by_id i w of
       (Inl e, w1) \<Rightarrow> (Inl (Errorf (utf8 [232, 142, 183, 229, 143, 150, 231, 136, 182, 232, 174, 190, 229, 164, 135, 228, 191, 161, 230, 129, 175, 229, 164, 177, 232, 180, 165, 58, 32] @ error_msg e)), w1)
     | (Inr p, w1) \<Rightarrow> climb n p w1))"

definition check_top :: "device \<Rightarrow> world \<Rightarrow> device res \<times> world" where
  "check_top d w = (case dev_device_config_id d of
      None \<Rightarrow> (Inr d, w)
    | Some c \<Rightarrow> (case get_device_config_by_id c w of
        (Inl e, w1) \<Rightarrow> (Inl (Errorf (utf8 [232, 142, 183, 229, 143, 150, 232, 174, 190, 229, 164, 135, 233, 133, 141, 231, 189, 174, 229, 164, 177, 232, 180, 165, 58, 32] @ error_msg e)), w1)
      | (Inr cfg, w1) \<Rightarrow>
          (if dc_device_type cfg \<noteq> ''2'' then Inl (Errorf (utf8 [233, 161, 182, 229, 177, 130, 232, 174, 190, 229, 164, 135, 228, 184, 141, 230, 152, 175, 231, 189, 145, 229, 133, 179, 231, 177, 187, 229, 158, 139])) else Inr d, w1)))"

definition find_top_level_gateway :: "device \<Rightarrow> string \<Rightarrow> world \<Rightarrow> device res \<times> world" where
  "find_top_level_gateway d ty w =
     (case (if ty = ''3'' then (case dev_parent_id d of
          None \<Rightarrow> (Inl (Errorf (utf8 [229, 173, 144, 232, 174, 190, 229, 164, 135, 231, 154, 132, 112, 97, 114, 101, 110, 116, 73, 68, 228, 184, 186, 231, 169, 186])), w)
        | Some i \<Rightarrow> (case get_device_cache_by_id i w of
            (Inl e, w1) \<Rightarrow> (Inl (Errorf (utf8 [232, 142, 183, 229, 143, 150, 231, 136, 182, 232, 174, 190, 229, 164, 135, 228, 191, 161, 230, 129, 175, 229, 164, 177, 232, 180, 165, 58, 32] @ error_msg e)), w1)
          | (Inr p, w1) \<Rightarrow> (Inr p, w1))) else (Inr d, w)) of
        (Inl e, w1) \<Rightarrow> (Inl e, w1)
      | (Inr p, w1) \<Rightarrow> (case climb 10 p w1 of (Inl e, w2) \<Rightarrow> (Inl e, w2) | (Inr t, w2) \<Rightarrow> check_top t w2))"


text \<open>The type and the protocol of a device; without a configuration a direct MQTT device.\<close>

definition device_kind :: "device \<Rightarrow> world \<Rightarrow> (string \<times> string) res \<times> world" where
  "device_kind d w = (case dev_device_config_id d of
      None \<Rightarrow> (Inr (''1'', ''MQTT''), w)
    | Some c \<Rightarrow> (case get_device_config_by_id c w of
        (Inl e, w1) \<Rightarrow> (Inl e, w1)
      | (Inr cfg, w1) \<Rightarrow> (Inr (dc_device_type cfg, case dc_protocol_type cfg of None \<Rightarrow> ''MQTT'' | Some p \<Rightarrow> p), w1)))"

definition config_id_of :: "device \<Rightarrow> string" where
  "config_id_of d = (case dev_device_config_id d of None \<Rightarrow> '''' | Some c \<Rightarrow> c)"

text \<open>\<open>resolveDeviceInfo\<close>: the target device and the topic prefix. A missing prefix is only logged.\<close>

definition resolve_device_info :: "device \<Rightarrow> string \<Rightarrow> string \<Rightarrow> put_state \<Rightarrow>
    ((device \<times> string) res \<times> put_state) option" where
  "resolve_device_info d ty proto s =
     (case (if proto = ''MQTT'' \<and> dev_parent_id d \<noteq> None \<and> dev_parent_id d \<noteq> Some ''''
            then find_top_level_gateway d ty (ps_world s) else (Inr d, ps_world s)) of
        (Inl e, w) \<Rightarrow> Some (Inl (Wrapped ''failed to find top level gateway: '' e), s\<lparr>ps_world := w\<rparr>)
      | (Inr t, w) \<Rightarrow>
          let s1 = s\<lparr>ps_world := w\<rparr> in
          if proto \<noteq> ''MQTT'' \<and> dev_device_config_id t \<noteq> None
          then map_option (\<lambda>(r, s2). (Inr (t, case r of Inl _ \<Rightarrow> '''' | Inr x \<Rightarrow> x), s2)) (sub_topic_prefix (config_id_of t) s1)
          else Some (Inr (t, ''''), s1))"

definition down_message :: "device \<Rightarrow> device \<Rightarrow> string \<Rightarrow> string \<Rightarrow> string \<Rightarrow> string \<Rightarrow> string \<Rightarrow> dl_message" where
  "down_message d target ty kind payload prefix message_id =
     \<lparr>dm_device_id = dev_id d, dm_device_number = dev_device_number target, dm_device_type = ty,
      dm_device_config_id = config_id_of target, dm_type = kind, dm_data = payload, dm_topic = '''',
      dm_topic_prefix = prefix, dm_message_id = message_id\<rparr>"

text \<open>Publishing on the bus, when there is one.\<close>

definition put_on_bus :: "dl_kind \<Rightarrow> dl_message \<Rightarrow> gerror \<Rightarrow> put_state \<Rightarrow> put_state call" where
  "put_on_bus k m missing s = (case ps_bus s of
      None \<Rightarrow> Returns (Some missing) s
    | Some b \<Rightarrow> (case dl_publish k (Some m) b of
        Returns _ b' \<Rightarrow> Returns None (s\<lparr>ps_bus := Some b'\<rparr>) | Waits \<Rightarrow> Waits | Panics \<Rightarrow> Panics))"

definition set_world :: "put_state \<Rightarrow> (world \<Rightarrow> world) \<Rightarrow> put_state" where
  "set_world s f = s\<lparr>ps_world := f (ps_world s)\<rparr>"

section \<open>Commands\<close>

text \<open>\<open>appendCompact\<close> with HTML escaping, which \<open>Marshal\<close> applies to a valid \<open>RawMessage\<close>: blanks
  outside strings go, \<open><\<close>, \<open>>\<close>, \<open>&\<close> and the two Unicode line separators are escaped.\<close>

fun compact :: "bool \<Rightarrow> string \<Rightarrow> string" where
  "compact q [] = []"
| "compact q (c # r) =
     (if c \<in> {CHR ''<'', CHR ''>'', CHR ''&''} then print_char c @ compact q r
      else if c = CHR 0xE2 \<and> length r \<ge> 2 \<and> r ! 0 = CHR 0x80 \<and> (r ! 1 = CHR 0xA8 \<or> r ! 1 = CHR 0xA9)
      then CHR 0x5C # ''u202'' @ (if r ! 1 = CHR 0xA8 then ''8'' else ''9'') @ compact q (drop 2 r)
      else if q then (if c = CHR 0x5C then (case r of [] \<Rightarrow> [c] | x # r' \<Rightarrow> c # x # compact True r')
        else c # compact (c \<noteq> CHR 0x22) r)
      else if c \<in> {CHR 0x20, CHR 0x09, CHR 0x0A, CHR 0x0D} then compact False r
      else c # compact (c = CHR 0x22) r)"

text \<open>The command as JSON: the method and, unless blank, the parameters.\<close>

definition command_payload :: "string \<Rightarrow> string option \<Rightarrow> string res" where
  "command_payload identify v =
     (let method = CHR 0x22 # ''method'' @ [CHR 0x22] @ '':'' @ print_str identify;
          t = (case v of None \<Rightarrow> '''' | Some x \<Rightarrow> trim_space x)
      in if t = '''' then Inr (''{'' @ method @ ''}'')
         else if json_parse t = None then Inl code_param_error
         else Inr (''{'' @ method @ '','' @ CHR 0x22 # ''params'' @ [CHR 0x22] @ '':'' @ compact False t @ ''}''))"

definition pending_log :: "string \<Rightarrow> string \<Rightarrow> string option \<Rightarrow> string option \<Rightarrow> set_log" where
  "pending_log i d message_id status =
     \<lparr>sl_id = i, sl_device_id = d, sl_message_id = message_id, sl_status = status, sl_error_message = None\<rparr>"

definition create_command_log :: "set_log \<Rightarrow> world \<Rightarrow> world" where
  "create_command_log l w = (case w_db_fault w ''command_set_logs.create'' of
      Some _ \<Rightarrow> w | None \<Rightarrow> w\<lparr>w_command_logs := w_command_logs w @ [l]\<rparr>)"

definition create_attribute_log :: "set_log \<Rightarrow> world \<Rightarrow> world" where
  "create_attribute_log l w = (case w_db_fault w ''attribute_set_logs.create'' of
      Some _ \<Rightarrow> w | None \<Rightarrow> w\<lparr>w_attribute_logs := w_attribute_logs w @ [l]\<rparr>)"

text \<open>The last steps of a command and of an attribute message: the target, the log row, the bus.\<close>

definition send_logged :: "dl_kind \<Rightarrow> string \<Rightarrow> (world \<Rightarrow> world) \<Rightarrow> string \<Rightarrow> device \<Rightarrow> string \<Rightarrow> string \<Rightarrow> string \<Rightarrow>
    put_state \<Rightarrow> put_state call" where
  "send_logged k kind create message_id d ty proto payload s = (case resolve_device_info d ty proto s of
      None \<Rightarrow> Panics
    | Some (Inl e, s1) \<Rightarrow> Returns (Some e) s1
    | Some (Inr (t, prefix), s1) \<Rightarrow>
        put_on_bus k (down_message d t ty kind payload prefix message_id)
          (Errorf ''downlink service not available'') (set_world s1 create))"

text \<open>\<open>CommandPutMessage\<close>, given the UUID it cuts the message id from and the id of the log row.\<close>

definition command_put_message :: "string \<Rightarrow> string \<Rightarrow> string \<Rightarrow> string \<Rightarrow> string option \<Rightarrow> put_state \<Rightarrow> put_state call" where
  "command_put_message uuid row device identify v s = (case get_device_cache_by_id device (ps_world s) of
      (Inl e, w) \<Rightarrow> Returns (Some (Wrapped ''device not found: '' e)) (s\<lparr>ps_world := w\<rparr>)
    | (Inr d, w) \<Rightarrow> (case device_kind d w of
        (Inl e, w1) \<Rightarrow> Returns (Some (Wrapped ''failed to get device config: '' e)) (s\<lparr>ps_world := w1\<rparr>)
      | (Inr (ty, proto), w1) \<Rightarrow> (case command_payload identify v of
          Inl e \<Rightarrow> Returns (Some e) (s\<lparr>ps_world := w1\<rparr>)
        | Inr p \<Rightarrow> (case transform_down (Payload p) d ty w1 of
            None \<Rightarrow> Panics
          | Some (Inl e, w2) \<Rightarrow> Returns (Some (Wrapped ''failed to transform command data: '' e)) (s\<lparr>ps_world := w2\<rparr>)
          | Some (Inr o1, w2) \<Rightarrow>
              send_logged DCommand ''command''
                (create_command_log (pending_log row (dev_id d) (Some (take 8 uuid)) (Some ''0'')))
                (take 8 uuid) d ty proto (render o1) (s\<lparr>ps_world := w2\<rparr>)))))"


section \<open>Attributes\<close>

text \<open>A value read into a map; a JSON null is the nil map, printed as null.\<close>

definition map_payload :: "string \<Rightarrow> string res" where
  "map_payload v = (case unmarshal (dec_map dec_any JNull) v None of
      Inl e \<Rightarrow> Inl e | Inr m \<Rightarrow> Inr (json_print (case m of None \<Rightarrow> JNull | Some kvs \<Rightarrow> JObj kvs)))"

definition attribute_put_message :: "string \<Rightarrow> string \<Rightarrow> string \<Rightarrow> string \<Rightarrow> put_state \<Rightarrow> put_state call" where
  "attribute_put_message uuid row device v s = (case get_device_cache_by_id device (ps_world s) of
      (Inl e, w) \<Rightarrow> Returns (Some (Wrapped ''device not found: '' e)) (s\<lparr>ps_world := w\<rparr>)
    | (Inr d, w) \<Rightarrow> (case device_kind d w of
        (Inl e, w1) \<Rightarrow> Returns (Some (Wrapped ''failed to get device config: '' e)) (s\<lparr>ps_world := w1\<rparr>)
      | (Inr (ty, proto), w1) \<Rightarrow> (case map_payload v of
          Inl e \<Rightarrow> Returns (Some (Wrapped ''failed to transform attribute data: ''
              (Errorf (utf8 [232, 167, 163, 230, 158, 144, 232, 190, 147, 229, 133, 165, 74, 83, 79, 78, 229, 164, 177, 232, 180, 165, 58, 32] @ error_msg e)))) (s\<lparr>ps_world := w1\<rparr>)
        | Inr p \<Rightarrow> (case transform_down (Payload p) d ty w1 of
            None \<Rightarrow> Panics
          | Some (Inl e, w2) \<Rightarrow> Returns (Some (Wrapped ''failed to transform attribute data: '' e)) (s\<lparr>ps_world := w2\<rparr>)
          | Some (Inr o1, w2) \<Rightarrow>
              send_logged DAttributeSet ''attribute_set''
                (create_attribute_log (pending_log row (dev_id d) (Some (take 8 uuid)) (Some ''0'')))
                (take 8 uuid) d ty proto (render o1) (s\<lparr>ps_world := w2\<rparr>)))))"

text \<open>\<open>AttributeGetMessage\<close>: no nesting and no log; a device without number is skipped.\<close>

definition attribute_get_message :: "string \<Rightarrow> string list \<Rightarrow> put_state \<Rightarrow> put_state call" where
  "attribute_get_message device ks s = (case dal_get_device device (ps_world s) of
      Inl e \<Rightarrow> Returns (Some code_db_error) s
    | Inr d \<Rightarrow>
        if dev_device_number d = '''' then Returns None s
        else (case device_kind d (ps_world s) of
          (Inl e, w1) \<Rightarrow> Returns (Some code_db_error) (s\<lparr>ps_world := w1\<rparr>)
        | (Inr (ty, proto), w1) \<Rightarrow> (case resolve_device_info d ty proto (s\<lparr>ps_world := w1\<rparr>) of
            None \<Rightarrow> Panics
          | Some (Inl e, s1) \<Rightarrow> Returns (Some code_system_error) s1
          | Some (Inr (t, prefix), s1) \<Rightarrow>
              put_on_bus DAttributeGet (down_message d t ty ''attribute_get''
                (json_print (JObj [(''keys'', JArr (map JStr ks))])) prefix '''') code_system_error s1)))"

section \<open>Telemetry\<close>

text \<open>Steps 2 to 4 of \<open>TelemetryPutMessage\<close>: kind, prefix and number of the device to publish to.\<close>

definition telemetry_kind :: "device \<Rightarrow> world \<Rightarrow> (string \<times> string) res \<times> world" where
  "telemetry_kind d w = (case dev_device_config_id d of
      None \<Rightarrow> (Inr (''1'', ''MQTT''), w)
    | Some c \<Rightarrow> (case get_device_config_by_id c w of
        (Inl e, w1) \<Rightarrow> (Inl code_db_error, w1)
      | (Inr cfg, w1) \<Rightarrow> (case dc_protocol_type cfg of
          None \<Rightarrow> (Inl code_param_error, w1) | Some p \<Rightarrow> (Inr (dc_device_type cfg, p), w1))))"

definition telemetry_target :: "device \<Rightarrow> string \<Rightarrow> string \<Rightarrow> put_state \<Rightarrow> ((string \<times> string) res \<times> put_state) option" where
  "telemetry_target d ty proto s =
     (if proto \<noteq> ''MQTT'' then (case dev_device_config_id d of
          None \<Rightarrow> None
        | Some c \<Rightarrow> map_option (\<lambda>(r, s1). (case r of
            Inl _ \<Rightarrow> Inl code_param_error | Inr x \<Rightarrow> Inr (x, dev_device_number d), s1)) (sub_topic_prefix c s))
      else if ty = ''2'' \<or> ty = ''3'' then Some (case find_top_level_gateway d ty (ps_world s) of
          (Inl e, w) \<Rightarrow> (Inl code_param_error, s\<lparr>ps_world := w\<rparr>)
        | (Inr t, w) \<Rightarrow> (Inr ('''', dev_device_number t), s\<lparr>ps_world := w\<rparr>))
      else Some (Inr ('''', dev_device_number d), s))"

text \<open>Step 5: nesting, for an MQTT gateway or sub-device only; a failed read of the parent is a
  database error, the other failures are parameter errors.\<close>

definition telemetry_payload :: "string \<Rightarrow> device \<Rightarrow> string \<Rightarrow> string \<Rightarrow> world \<Rightarrow> (string res \<times> world) option" where
  "telemetry_payload v d ty proto w =
     (if proto = ''MQTT'' \<and> (ty = ''3'' \<or> ty = ''2'') then (case map_payload v of
          Inl _ \<Rightarrow> Some (Inl code_param_error, w)
        | Inr p \<Rightarrow> map_option (\<lambda>(r, w1). (case r of
            Inl _ \<Rightarrow> Inl (if ty = ''3'' \<and> dev_sub_device_addr d \<noteq> None \<and>
                isl (fst (get_device_cache_by_id (the (dev_parent_id d)) w)) then code_db_error else code_param_error)
          | Inr o1 \<Rightarrow> Inr (render o1), w1)) (transform_down (Payload p) d ty w))
      else Some (Inr v, w))"

text \<open>The row of \<open>telemetry_set_logs\<close>: written before the send, failed when there is no bus.\<close>

definition telemetry_put_message :: "string \<Rightarrow> string \<Rightarrow> string \<Rightarrow> put_state \<Rightarrow> put_state call" where
  "telemetry_put_message row device v s =
     (if json_parse v = None then Returns (Some code_param_error) s
      else case get_device_cache_by_id device (ps_world s) of
        (Inl e, w) \<Rightarrow> Returns (Some code_db_error) (s\<lparr>ps_world := w\<rparr>)
      | (Inr d, w) \<Rightarrow> (case telemetry_kind d w of
          (Inl e, w1) \<Rightarrow> Returns (Some e) (s\<lparr>ps_world := w1\<rparr>)
        | (Inr (ty, proto), w1) \<Rightarrow> (case telemetry_target d ty proto (s\<lparr>ps_world := w1\<rparr>) of
            None \<Rightarrow> Panics
          | Some (Inl e, s2) \<Rightarrow> Returns (Some e) s2
          | Some (Inr (prefix, number), s2) \<Rightarrow> (case telemetry_payload v d ty proto (ps_world s2) of
              None \<Rightarrow> Panics
            | Some (Inl e, w3) \<Rightarrow> Returns (Some e) (s2\<lparr>ps_world := w3\<rparr>)
            | Some (Inr p, w3) \<Rightarrow>
                let l = pending_log row device None None in
                if w_db_fault w3 ''telemetry_set_logs.create'' \<noteq> None then Returns (Some code_db_error) (s2\<lparr>ps_world := w3\<rparr>)
                else let s4 = s2\<lparr>ps_world := w3\<lparr>w_telemetry_logs := w_telemetry_logs w3 @ [l]\<rparr>\<rparr> in
                  put_on_bus DTelemetry \<lparr>dm_device_id = dev_id d, dm_device_number = number, dm_device_type = ty,
                      dm_device_config_id = config_id_of d, dm_type = ''telemetry'', dm_data = p, dm_topic = '''',
                      dm_topic_prefix = prefix, dm_message_id = row\<rparr>
                    (Errorf ''downlink bus not initialized'')
                    (if ps_bus s4 \<noteq> None \<or> w_db_fault w3 ''telemetry_set_logs.updates'' \<noteq> None then s4
                     else set_world s4 (\<lambda>u. u\<lparr>w_telemetry_logs := save_log
                       (l\<lparr>sl_status := Some ''2'', sl_error_message := Some ''downlink bus not initialized''\<rparr>) (w_telemetry_logs u)\<rparr>))))))"

end
