(* ===== verification/GatewayPath.thy ===== *)
theory GatewayPath
  imports PutMessages
begin

text \<open>
  Whether a message that was nested for the gateways above a device comes out at that device. A gateway
  reads a message as the uplink flows read a report: the data of a sub-gateway, of a sub-device, or its
  own, the address resolved among the children of the gateway.
\<close>

section \<open>Reading a nested message\<close>

definition child :: "world \<Rightarrow> string \<Rightarrow> string \<Rightarrow> device option" where
  "child w g a = (case get_device_by_sub_device_address [a] g w of Inl _ \<Rightarrow> None | Inr m \<Rightarrow> m a)"

text \<open>The device that gets the payload, from a gateway down.\<close>

fun deliver :: "world \<Rightarrow> string \<Rightarrow> down \<Rightarrow> (string \<times> string) option" where
  "deliver w g (Under k (Payload p)) = (if k = ''gateway_data'' then Some (g, p) else None)"
| "deliver w g (Under k (Under a d)) =
     (if k = ''sub_device_data'' then (case d of
          Payload p \<Rightarrow> map_option (\<lambda>r. (dev_id r, p)) (child w g a) | Under _ _ \<Rightarrow> None)
      else if k = ''sub_gateway_data'' then Option.bind (child w g a) (\<lambda>r. deliver w (dev_id r) d)
      else None)"
| "deliver w g (Payload p) = None"

primrec path_down :: "string list \<Rightarrow> down \<Rightarrow> down" where
  "path_down [] d = d"
| "path_down (a # as) d = Under ''sub_gateway_data'' (Under a (path_down as d))"

section \<open>The gateways above a device\<close>

text \<open>The devices from the parent of \<open>d\<close> to the top gateway.\<close>

primrec above :: "world \<Rightarrow> device \<Rightarrow> device list \<Rightarrow> bool" where
  "above w d [] \<longleftrightarrow> dev_parent_id d = None"
| "above w d (g # gs) \<longleftrightarrow> dev_parent_id d = Some (dev_id g) \<and> device_row w (dev_id g) = Some g \<and> above w g gs"

text \<open>Nothing fails, the cache agrees with the table, ids are unique, and so are the addresses below
  one gateway.\<close>

definition unique_children :: "device list \<Rightarrow> bool" where
  "unique_children ds \<longleftrightarrow> (\<forall>x \<in> set ds. \<forall>y \<in> set ds. dev_parent_id x \<noteq> None \<and> dev_parent_id x = dev_parent_id y \<and>
     dev_sub_device_addr x \<noteq> None \<and> dev_sub_device_addr x = dev_sub_device_addr y \<longrightarrow> x = y)"

definition sound_tree :: "world \<Rightarrow> bool" where
  "sound_tree w \<longleftrightarrow> device_cache.coherent w \<and> (\<forall>q. w_db_fault w q = None) \<and> (\<forall>c k. w_redis_fault w c k = None) \<and>
     distinct (map dev_id (w_devices w)) \<and>
     unique_children (w_devices w)"

lemma get_device_sound:
  assumes "sound_tree w" "device_row w i = Some r"
  obtains w' where "get_device_cache_by_id i w = (Inr r, w')" "sound_tree w'" "w_devices w' = w_devices w" "w_configs w' = w_configs w"
proof -
  have dal: "dal_get_device i w = Inr r"
    using assms by (simp add: dal_get_device_def device_row_def sound_tree_def)
  have hit: "w_device_cache w i = Some c \<Longrightarrow> c = r" for c
    using assms by (auto simp: sound_tree_def device_cache.coherent_def)
  obtain x w' where g: "get_device_cache_by_id i w = (x, w')" by fastforce
  have "x = Inr r"
    using g dal hit assms(1) by (auto simp: get_device_cases load_device_def sound_tree_def split: if_splits)
  moreover have "device_cache.coherent w'"
    using device_cache.coherent_lookup [OF _ _ g] assms(1) by (simp add: sound_tree_def)
  moreover have "w_devices w' = w_devices w" "w_configs w' = w_configs w" "w_db_fault w' = w_db_fault w" "w_redis_fault w' = w_redis_fault w"
    using get_device_cache_by_id_frame [of i w] g by simp_all
  moreover from calculation have "sound_tree w'" using assms(1) by (simp add: sound_tree_def)
  ultimately show thesis using g that by blast
qed

lemma above_devices: "w_devices w' = w_devices w \<Longrightarrow> above w' d gs = above w d gs"
  by (induction gs arbitrary: d) (simp_all add: device_row_def)


section \<open>Children\<close>

lemma child_iff:
  assumes "sound_tree w"
  shows "child w g a = Some r \<longleftrightarrow> r \<in> set (w_devices w) \<and> dev_parent_id r = Some g \<and> dev_sub_device_addr r = Some a"
proof -
  let ?f = "\<lambda>m d. case dev_sub_device_addr d of
      Some b \<Rightarrow> if b \<in> set [a] \<and> dev_parent_id d = Some g then m(b \<mapsto> d) else m | None \<Rightarrow> m"
  let ?P = "\<lambda>r. dev_parent_id r = Some g \<and> dev_sub_device_addr r = Some a"
  have fold: "foldl ?f m ds a = (case find ?P (rev ds) of Some r \<Rightarrow> Some r | None \<Rightarrow> m a)" for m ds
    by (induction ds rule: rev_induct) (auto split: option.splits)
  have "child w g a = find ?P (rev (w_devices w))"
    using assms fold [of "\<lambda>_. None" "w_devices w"]
    by (simp add: child_def get_device_by_sub_device_address_def sound_tree_def split: option.split)
  moreover have "find ?P (rev (w_devices w)) = Some r \<longleftrightarrow> r \<in> set (w_devices w) \<and> ?P r"
  proof
    assume "find ?P (rev (w_devices w)) = Some r"
    then show "r \<in> set (w_devices w) \<and> ?P r" by (auto simp: find_Some_iff) (metis nth_mem length_rev set_rev)
  next
    assume r: "r \<in> set (w_devices w) \<and> ?P r"
    then obtain x where x: "find ?P (rev (w_devices w)) = Some x" by (cases "find ?P (rev (w_devices w))") (auto simp: find_None_iff)
    then have "x \<in> set (w_devices w) \<and> ?P x" by (auto simp: find_Some_iff) (metis nth_mem length_rev set_rev)
    then have "x = r" using assms r by (auto simp: sound_tree_def unique_children_def)
    with x show "find ?P (rev (w_devices w)) = Some r" by simp
  qed
  ultimately show ?thesis by simp
qed

lemma row_iff:
  assumes "sound_tree w" shows "device_row w i = Some r \<longleftrightarrow> r \<in> set (w_devices w) \<and> dev_id r = i"
proof -
  have "distinct (map dev_id ds) \<Longrightarrow> find (\<lambda>d. dev_id d = i) ds = Some r \<longleftrightarrow> r \<in> set ds \<and> dev_id r = i" for ds
    by (induction ds) auto
  with assms show ?thesis by (simp add: device_row_def sound_tree_def)
qed

lemma child_to:
  assumes "sound_tree w" "device_row w (dev_id g) = Some g" "dev_parent_id g = Some i"
  shows "child w k b = Some r \<and> dev_id r = dev_id g \<longleftrightarrow> r = g \<and> k = i \<and> dev_sub_device_addr g = Some b"
proof -
  have "r \<in> set (w_devices w) \<and> dev_id r = dev_id g \<longleftrightarrow> r = g"
    using row_iff [OF assms(1), of "dev_id g" r] assms(2) by auto
  with assms(3) show ?thesis unfolding child_iff [OF assms(1)] by (metis option.inject)
qed

section \<open>Delivery along a path\<close>

primrec follow :: "world \<Rightarrow> string \<Rightarrow> string list \<Rightarrow> string option" where
  "follow w g [] = Some g"
| "follow w g (a # as) = Option.bind (child w g a) (\<lambda>r. follow w (dev_id r) as)"

lemma bind_map:
  "Option.bind x (\<lambda>h. map_option f (g h)) = Some z \<longleftrightarrow> (\<exists>k r. x = Some k \<and> g k = Some r \<and> f r = z)"
  by (cases x) auto

lemma follow_snoc:
  "follow w g (as @ [a]) = Option.bind (follow w g as) (\<lambda>h. map_option dev_id (child w h a))"
proof (induction "as" arbitrary: g)
  case Nil
  then show ?case by (cases "child w g a") simp_all
next
  case (Cons b bs)
  then show ?case by (cases "child w g b") simp_all
qed

lemma deliver_path:
  "deliver w g (path_down as (Under ''sub_device_data'' (Under a (Payload p)))) =
     Option.bind (follow w g as) (\<lambda>h. map_option (\<lambda>r. (dev_id r, p)) (child w h a))"
proof (induction "as" arbitrary: g)
  case (Cons b bs)
  then show ?case by (cases "child w g b") simp_all
qed simp

text \<open>The sub-gateways from \<open>g\<close> up to the top gateway, which is left out.\<close>

primrec subs :: "device \<Rightarrow> device list \<Rightarrow> device list" where
  "subs g [] = []"
| "subs g (h # hs) = g # subs h hs"

lemma length_subs [simp]: "length (subs g hs) = length hs"
  by (induction hs arbitrary: g) simp_all

text \<open>Following addresses from the top reaches \<open>g\<close> exactly when they are the addresses of the
  sub-gateways, from the top down.\<close>

lemma follow_iff:
  assumes "sound_tree w" "device_row w (dev_id g) = Some g" "above w g hs" "length as = length hs"
  shows "follow w (dev_id (last (g # hs))) as = Some (dev_id g) \<longleftrightarrow> map Some as = map dev_sub_device_addr (rev (subs g hs))"
  using assms
proof (induction hs arbitrary: g "as")
  case (Cons h hs)
  obtain bs b where as: "as = bs @ [b]" "length bs = length hs" using Cons.prems(4) by (cases "as" rule: rev_cases) auto
  have h: "device_row w (dev_id h) = Some h" "dev_parent_id g = Some (dev_id h)" "above w h hs" using Cons.prems(3) by simp_all
  let ?t = "dev_id (last (h # hs))"
  note child = child_to [OF assms(1) Cons.prems(2) h(2)]
  have "follow w ?t as = Some (dev_id g) \<longleftrightarrow> (\<exists>k r. follow w ?t bs = Some k \<and> child w k b = Some r \<and> dev_id r = dev_id g)"
    unfolding as(1) follow_snoc by (simp only: bind_map)
  also have "\<dots> \<longleftrightarrow> follow w ?t bs = Some (dev_id h) \<and> dev_sub_device_addr g = Some b"
    unfolding child by simp
  also have "\<dots> \<longleftrightarrow> map Some bs = map dev_sub_device_addr (rev (subs h hs)) \<and> dev_sub_device_addr g = Some b"
    unfolding Cons.IH [OF assms(1) h(1,3) as(2)] by (rule refl)
  also have "\<dots> \<longleftrightarrow> map Some as = map dev_sub_device_addr (rev (subs g (h # hs)))"
    unfolding as(1) by (simp add: eq_commute)
  finally show ?case by simp
qed simp

lemma deliver_iff:
  assumes "sound_tree w" "device_row w (dev_id d) = Some d" "above w d (g # hs)" "length as = length hs"
  shows "deliver w (dev_id (last (g # hs))) (path_down as (Under ''sub_device_data'' (Under a (Payload p)))) = Some (dev_id d, p) \<longleftrightarrow>
    dev_sub_device_addr d = Some a \<and> map Some as = map dev_sub_device_addr (rev (subs g hs))"
proof -
  have g: "device_row w (dev_id g) = Some g" "dev_parent_id d = Some (dev_id g)" "above w g hs" using assms(3) by simp_all
  note child = child_to [OF assms(1,2) g(2)]
  have "deliver w (dev_id (last (g # hs))) (path_down as (Under ''sub_device_data'' (Under a (Payload p)))) = Some (dev_id d, p) \<longleftrightarrow>
      (\<exists>k r. follow w (dev_id (last (g # hs))) as = Some k \<and> child w k a = Some r \<and> dev_id r = dev_id d)"
    unfolding deliver_path by (simp add: bind_map)
  also have "\<dots> \<longleftrightarrow> follow w (dev_id (last (g # hs))) as = Some (dev_id g) \<and> dev_sub_device_addr d = Some a"
    unfolding child by simp
  finally show ?thesis unfolding follow_iff [OF assms(1) g(1,3) assms(4)] by (simp only: conj_commute)
qed

section \<open>What is written\<close>

lemma build_nested_path:
  assumes "sound_tree w" "above w g hs" "\<forall>x \<in> set (subs g hs). dev_sub_device_addr x \<noteq> None"
  shows "\<exists>w'. build_nested g a p w = Some (path_down (map (the \<circ> dev_sub_device_addr) (subs g hs))
      (Under ''sub_device_data'' (Under a p)), w') \<and> sound_tree w' \<and> w_devices w' = w_devices w \<and> w_configs w' = w_configs w"
  using assms
proof (induction hs arbitrary: g w)
  case Nil
  then show ?case by (subst build_nested.simps) simp
next
  case (Cons h hs)
  then obtain w1 where w1: "get_device_cache_by_id (dev_id h) w = (Inr h, w1)" "sound_tree w1" "w_devices w1 = w_devices w" "w_configs w1 = w_configs w"
    using get_device_sound by (metis above.simps(2))
  let ?o = "path_down (map (the \<circ> dev_sub_device_addr) (subs h hs)) (Under ''sub_device_data'' (Under a p))"
  have "above w1 h hs" "\<forall>x \<in> set (subs h hs). dev_sub_device_addr x \<noteq> None"
    using Cons.prems(2,3) above_devices [OF w1(3)] by simp_all
  from Cons.IH [OF w1(2) this] obtain w2 where
    w2: "build_nested h a p w1 = Some (?o, w2)" "sound_tree w2" "w_devices w2 = w_devices w1" "w_configs w2 = w_configs w1" by blast
  have top: "dev_parent_id h = None \<longleftrightarrow> hs = []" using Cons.prems(2) by (cases hs) auto
  have g: "dev_parent_id g = Some (dev_id h)" using Cons.prems(2) by simp
  obtain b where b: "dev_sub_device_addr g = Some b" using Cons.prems(3) by auto
  have "build_nested g a p w = Some (Under ''sub_gateway_data'' (Under b
      (if hs \<noteq> [] then ?o else Under ''sub_device_data'' (Under a p))), w2)"
    by (subst build_nested.simps) (simp add: w1(1) w2(1) top g b)
  moreover have "(if hs \<noteq> [] then ?o else Under ''sub_device_data'' (Under a p)) = ?o" by (cases hs) simp_all
  ultimately show ?case using w1 w2 b by (simp add: comp_def)
qed


section \<open>The top gateway\<close>

lemma climb_above:
  assumes "sound_tree w" "above w g hs"
  shows "\<exists>w'. climb n g w = (if length hs < n then Inr (last (g # hs)) else
      Inl too_deep, w') \<and>
    sound_tree w' \<and> w_devices w' = w_devices w \<and> w_configs w' = w_configs w"
  using assms
proof (induction n arbitrary: g hs w)
  case (Suc n)
  show ?case
  proof (cases hs)
    case (Cons h hs')
    obtain w1 where w1: "get_device_cache_by_id (dev_id h) w = (Inr h, w1)" "sound_tree w1" "w_devices w1 = w_devices w" "w_configs w1 = w_configs w"
      using get_device_sound [OF Suc.prems(1)] Suc.prems(2) Cons by (metis above.simps(2))
    have "above w1 h hs'" using Suc.prems(2) Cons above_devices [OF w1(3)] by simp
    from Suc.IH [OF w1(2) this] obtain w2 where w2: "climb n h w1 = (if length hs' < n then Inr (last (h # hs')) else Inl too_deep, w2)"
        "sound_tree w2" "w_devices w2 = w_devices w1" "w_configs w2 = w_configs w1" by blast
    have "climb (Suc n) g w = climb n h w1" using Suc.prems(2) Cons w1(1) by simp
    moreover have "(if length hs' < n then Inr (last (h # hs')) else Inl too_deep) = (if length hs < Suc n then Inr (last (g # hs)) else Inl too_deep)"
      by (simp add: Cons)
    ultimately show ?thesis using w1(3,4) w2 by (intro exI [of _ w2]) simp
  qed (use Suc.prems in simp)
qed (simp add: too_deep_def)

section \<open>Properties\<close>

text \<open>C35: What is sent to a sub-device comes out at the sub-device only if its gateways are nested
  symmetrically. In a sound tree (no failing read, cache as the table, unique addresses below a
  gateway) nesting a payload for a sub-device succeeds, and read from the top gateway downwards the
  nested message leads to that sub-device exactly when the list of the addresses of the
  sub-gateways above it equals its own reverse: always with at most one sub-gateway, never with two
  that have different addresses, because the code writes the innermost sub-gateway outermost.\<close>
theorem sub_device_addressed:
  assumes "sound_tree w" "device_row w (dev_id d) = Some d" "above w d (g # hs)"
    and "dev_sub_device_addr d = Some a" "\<forall>x \<in> set (subs g hs). dev_sub_device_addr x \<noteq> None"
  shows "\<exists>o1 w'. transform_down (Payload p) d ''3'' w = Some (Inr o1, w') \<and>
    (deliver w (dev_id (last (g # hs))) o1 = Some (dev_id d, p) \<longleftrightarrow>
     map dev_sub_device_addr (subs g hs) = rev (map dev_sub_device_addr (subs g hs)))"
proof -
  obtain w1 where w1: "get_device_cache_by_id (dev_id g) w = (Inr g, w1)" "sound_tree w1" "w_devices w1 = w_devices w" "w_configs w1 = w_configs w"
    using get_device_sound [OF assms(1)] assms(3) by (metis above.simps(2))
  let ?as = "map (the \<circ> dev_sub_device_addr) (subs g hs)"
  let ?o = "path_down ?as (Under ''sub_device_data'' (Under a (Payload p)))"
  have "above w1 g hs" using assms(3) above_devices [OF w1(3)] by simp
  from build_nested_path [OF w1(2) this assms(5)] obtain w2 where
    b: "build_nested g a (Payload p) w1 = Some (?o, w2)" by blast
  have "dev_parent_id g = None \<longleftrightarrow> hs = []" using assms(3) by (cases hs) auto
  moreover have "hs \<noteq> [] \<Longrightarrow> dev_sub_device_addr g \<noteq> None" using assms(5) by (cases hs) auto
  ultimately have "\<exists>w'. transform_down (Payload p) d ''3'' w = Some (Inr ?o, w')"
    using assms(3,4) w1(1) b by (cases hs) (auto simp: transform_down_def)
  moreover have "map Some ?as = map dev_sub_device_addr (subs g hs)" using assms(5) by auto
  then have "deliver w (dev_id (last (g # hs))) ?o = Some (dev_id d, p) \<longleftrightarrow>
      map dev_sub_device_addr (subs g hs) = map dev_sub_device_addr (rev (subs g hs))"
    using deliver_iff [OF assms(1-3), of ?as a p] assms(4) by (simp only: length_map length_subs simp_thms)
  ultimately show ?thesis by (auto simp: rev_map)
qed

text \<open>A sub-device \<open>s\<close> below \<open>h\<close> below \<open>g\<close> below the top gateway \<open>t\<close>.\<close>

definition demo_node :: "string \<Rightarrow> string option \<Rightarrow> device" where
  "demo_node i q = demo_device\<lparr>dev_id := i, dev_parent_id := q, dev_device_config_id := None,
     dev_sub_device_addr := (if q = None then None else Some i)\<rparr>"

definition demo_tree :: world where
  "demo_tree = empty_world\<lparr>w_devices := [demo_node ''t'' None, demo_node ''g'' (Some ''t''), demo_node ''h'' (Some ''g''),
     demo_node ''s'' (Some ''h'')]\<rparr>"

lemma demo_tree_sound: "sound_tree demo_tree"
  by (simp add: sound_tree_def demo_tree_def empty_world_def device_cache.coherent_def unique_children_def demo_node_def demo_device_def)

theorem sub_device_addressed_witness:
  "(\<exists>o1 w'. transform_down (Payload ''1'') (demo_node ''h'' (Some ''g'')) ''3'' demo_tree = Some (Inr o1, w') \<and>
      deliver demo_tree ''t'' o1 = Some (''h'', ''1'')) \<and>
   (\<exists>o1 w'. transform_down (Payload ''1'') (demo_node ''s'' (Some ''h'')) ''3'' demo_tree = Some (Inr o1, w') \<and>
      deliver demo_tree ''t'' o1 \<noteq> Some (''s'', ''1''))"
proof -
  note defs = demo_tree_def empty_world_def demo_node_def demo_device_def device_row_def
  let ?g = "demo_node ''g'' (Some ''t'')" and ?h = "demo_node ''h'' (Some ''g'')" and ?t = "demo_node ''t'' None"
  have "\<exists>o1 w'. transform_down (Payload ''1'') ?h ''3'' demo_tree = Some (Inr o1, w') \<and> deliver demo_tree ''t'' o1 = Some (''h'', ''1'')"
    using sub_device_addressed [OF demo_tree_sound, of ?h ?g "[?t]" "''h''" "''1''"] by (simp add: defs)
  moreover have "\<exists>o1 w'. transform_down (Payload ''1'') (demo_node ''s'' (Some ''h'')) ''3'' demo_tree = Some (Inr o1, w') \<and>
      deliver demo_tree ''t'' o1 \<noteq> Some (''s'', ''1'')"
    using sub_device_addressed [OF demo_tree_sound, of "demo_node ''s'' (Some ''h'')" ?h "[?g, ?t]" "''s''" "''1''"] by (simp add: defs)
  ultimately show ?thesis by blast
qed

end
