(* ===== verification/CommandTrip.thy ===== *)
theory CommandTrip
  imports GatewayPath
begin

text \<open>
  A command from the service that sends it to the answer that settles its log: \<open>command_data.go\<close>, the
  downlink bus and handler, and the response flow, one after the other.
\<close>

lemma command_payload_nonempty: "command_payload identify v = Inr p \<Longrightarrow> p \<noteq> ''''"
  by (auto simp: command_payload_def Let_def split: if_split_asm)

lemma find_log_new:
  assumes "\<forall>l \<in> set rows. sl_message_id l \<noteq> Some i"
  shows "find_log i (sl_device_id x) (rows @ [x]) = (if sl_message_id x = Some i then Some x else None)"
proof -
  have "find (\<lambda>l. sl_message_id l = Some i \<and> sl_device_id l = sl_device_id x) rows = None"
    using assms by (auto simp: find_None_iff)
  then have "find_log i (sl_device_id x) (rows @ [x]) = find_log i (sl_device_id x) [x]"
    unfolding find_log_def by (induction rows) (auto split: if_split_asm)
  then show ?thesis by (simp add: find_log_def)
qed

lemma save_log_new: "\<forall>l \<in> set rows. sl_id l \<noteq> sl_id x \<Longrightarrow> sl_id y = sl_id x \<Longrightarrow> save_log y (rows @ [x]) = rows @ [y]"
  by (induction rows) (simp_all add: save_log_def)

lemma settle_log_new:
  "\<forall>l \<in> set rows. sl_message_id l \<noteq> Some i \<Longrightarrow> settle_log i s e (rows @ [x]) = rows @ settle_log i s e [x]"
  by (induction rows) (simp_all add: settle_log_def)

lemma get_device_logs: "get_device_cache_by_id i w = (r, w') \<Longrightarrow> logs_view w' = logs_view w"
  by (auto simp: get_device_cases load_device_def logs_view_def split: if_splits option.splits sum.splits)

text \<open>The service, for a device without configuration: one row, one message on the bus.\<close>

lemma command_put:
  fixes uuid :: string
  assumes "sound_tree (ps_world s)" "device_row (ps_world s) dev = Some d"
    and "dev_device_config_id d = None" "dev_parent_id d = None"
    and "command_payload identify v = Inr p" "ps_bus s = Some b"
    and "\<not> ch_closed (db_chan b DCommand)" "length (ch_buf (db_chan b DCommand)) < ch_cap (db_chan b DCommand)"
  defines "m \<equiv> down_message d d ''1'' ''command'' p '''' (take 8 uuid)"
  obtains s' b' where "command_put_message uuid row dev identify v s = Returns None s'" "ps_bus s' = Some b'"
    and "ch_buf (db_chan b' DCommand) = ch_buf (db_chan b DCommand) @ [Some m]"
    and "\<And>k. k \<noteq> DCommand \<Longrightarrow> db_chan b' k = db_chan b k"
    and "logs_view (ps_world s') = logs_view ((ps_world s)\<lparr>w_command_logs := w_command_logs (ps_world s) @
      [pending_log row (dev_id d) (Some (take 8 uuid)) (Some ''0'')]\<rparr>)"
proof -
  obtain w1 where w1: "get_device_cache_by_id dev (ps_world s) = (Inr d, w1)" "sound_tree w1"
    using get_device_sound [OF assms(1,2)] by metis
  have v1: "logs_view w1 = logs_view (ps_world s)"
    using get_device_logs [OF w1(1)] .
  have f: "w_db_fault w1 ''command_set_logs.create'' = None" using w1(2) by (simp add: sound_tree_def)
  let ?w = "create_command_log (pending_log row (dev_id d) (Some (take 8 uuid)) (Some ''0'')) w1"
  let ?b = "b\<lparr>db_chan := (db_chan b)(DCommand := (db_chan b DCommand)\<lparr>ch_buf := ch_buf (db_chan b DCommand) @ [Some m]\<rparr>)\<rparr>"
  have pub: "dl_publish DCommand (Some m) b = Returns None ?b"
    using assms(7,8) by (simp add: dl_publish_def ch_send_def)
  have "command_put_message uuid row dev identify v s = Returns None (s\<lparr>ps_world := ?w, ps_bus := Some ?b\<rparr>)"
    using assms(3-6) pub
    by (simp add: command_put_message_def w1 device_kind_def transform_down_def send_logged_def resolve_device_info_def
        put_on_bus_def set_world_def m_def)
  then show thesis
    using v1 f by (intro that [of "s\<lparr>ps_world := ?w, ps_bus := Some ?b\<rparr>" ?b]) (simp_all add: create_command_log_def logs_view_def)
qed

lemma dl_handle_raw:
  assumes "dm_device_id m \<noteq> ''''" "dm_device_number m \<noteq> ''''" "dm_data m \<noteq> ''''" "dm_device_config_id m = ''''"
    and "dm_type m = ''command''" "dm_message_id m \<noteq> ''''" "\<forall>q. w_db_fault w q = None"
    and "find_log (dm_message_id m) (dm_device_id m) (w_command_logs w) = Some l"
  obtains topic w' where "dl_handle vm (Some (\<lambda>_. Delivered)) DCommand (Some m) w = Some w'"
    and "downlink_topic (dm_device_number m) ''command'' (dm_device_type m) (dm_topic_prefix m) (dm_message_id m) = Some topic"
    and "logs_view w' = logs_view (w\<lparr>w_command_logs := save_log (mark_log ''1'' '''' l) (w_command_logs w),
      w_effects := w_effects w @ [MqttPublish topic 1 (dm_data m)]\<rparr>)"
proof -
  obtain topic where t: "downlink_topic (dm_device_number m) ''command'' (dm_device_type m) (dm_topic_prefix m) (dm_message_id m) = Some topic"
    by (simp add: downlink_topic_def Let_def)
  let ?w = "emit (MqttPublish topic 1 (dm_data m)) (diag_downlink_total (dm_device_id m) w)"
  have "dl_handle vm (Some (\<lambda>_. Delivered)) DCommand (Some m) w =
      Some (update_log_status (dm_message_id m) (dm_device_id m) ''1'' '''' ''command'' ?w)"
    using assms(1-5) t by (simp add: dl_handle_def Let_def dl_encode_def dl_publish_message_def publish_message_def)
  then show thesis
    using t assms by (intro that) (auto simp: update_log_status_def update_found_def logs_view_def emit_def diag_downlink_total_def)
qed

section \<open>Properties\<close>

text \<open>C10: A command makes the round trip. For an enabled bus with room and a direct device without
  configuration, in a sound world where the row id and the message id are new, sending a command puts
  one row with status 0 and one message on the bus; handling that message publishes exactly its JSON
  on the command topic of the device and turns the row to status 1; and the successful answer that
  carries the message id turns it to status 3. All other rows stay as they were.\<close>
theorem command_round_trip:
  assumes "sound_tree (ps_world s)" "device_row (ps_world s) dev = Some d"
    and "dev_device_config_id d = None" "dev_parent_id d = None" "dev_device_number d \<noteq> ''''" "dev \<noteq> ''''" "uuid \<noteq> ''''"
    and "command_payload identify v = Inr p" "ps_bus s = Some b"
    and "\<not> ch_closed (db_chan b DCommand)" "length (ch_buf (db_chan b DCommand)) < ch_cap (db_chan b DCommand)"
    and "\<forall>l \<in> set (w_command_logs (ps_world s)). sl_id l \<noteq> row \<and> sl_message_id l \<noteq> Some (take 8 uuid)"
    and "msg_type a = MessageTypeCommandResponse" "map_of (msg_metadata a) ''message_id'' = Some (JStr (take 8 uuid))"
    and "snd (parse_response (msg_payload a))"
  defines "old \<equiv> w_command_logs (ps_world s)"
    and "entry \<equiv> \<lambda>st. pending_log row dev (Some (take 8 uuid)) (Some st)"
  shows "\<exists>s' b' m w2 topic. command_put_message uuid row dev identify v s = Returns None s' \<and>
    w_command_logs (ps_world s') = old @ [entry ''0''] \<and>
    ps_bus s' = Some b' \<and> ch_buf (db_chan b' DCommand) = ch_buf (db_chan b DCommand) @ [Some m] \<and>
    dl_handle vm (Some (\<lambda>_. Delivered)) DCommand (Some m) (ps_world s') = Some w2 \<and>
    downlink_topic (dev_device_number d) ''command'' ''1'' '''' (take 8 uuid) = Some topic \<and>
    w_effects w2 = w_effects (ps_world s) @ [MqttPublish topic 1 p] \<and>
    w_command_logs w2 = old @ [entry ''1''] \<and>
    w_command_logs (response_process_message a w2) = old @ [entry ''3'']"
proof -
  let ?m = "down_message d d ''1'' ''command'' p '''' (take 8 uuid)"
  have d: "dev_id d = dev" using row_iff [OF assms(1)] assms(2) by simp
  obtain s' b' where put: "command_put_message uuid row dev identify v s = Returns None s'" "ps_bus s' = Some b'"
      "ch_buf (db_chan b' DCommand) = ch_buf (db_chan b DCommand) @ [Some ?m]"
      "logs_view (ps_world s') = logs_view ((ps_world s)\<lparr>w_command_logs := old @ [entry ''0'']\<rparr>)"
    using command_put [OF assms(1-4,8-11)] d unfolding old_def entry_def by metis
  have s': "w_command_logs (ps_world s') = old @ [entry ''0'']" "w_effects (ps_world s') = w_effects (ps_world s)"
      "\<forall>q. w_db_fault (ps_world s') q = None"
    using put(4) assms(1) by (simp_all add: logs_view_def sound_tree_def)
  have m: "dm_device_id ?m = dev" "dm_device_number ?m = dev_device_number d" "dm_data ?m = p" "dm_device_config_id ?m = ''''"
      "dm_type ?m = ''command''" "dm_message_id ?m = take 8 uuid" "dm_device_type ?m = ''1''" "dm_topic_prefix ?m = ''''"
    using d assms(3) by (simp_all add: down_message_def config_id_of_def)
  have id: "take 8 uuid \<noteq> ''''" using assms(7) by (cases uuid) simp_all
  have found: "find_log (take 8 uuid) dev (w_command_logs (ps_world s')) = Some (entry ''0'')"
    using find_log_new [of old "take 8 uuid" "entry ''0''"] assms(12) s'(1) by (simp add: old_def entry_def pending_log_def)
  obtain topic w2 where h: "dl_handle vm (Some (\<lambda>_. Delivered)) DCommand (Some ?m) (ps_world s') = Some w2"
      "downlink_topic (dev_device_number d) ''command'' ''1'' '''' (take 8 uuid) = Some topic"
      "logs_view w2 = logs_view ((ps_world s')\<lparr>w_command_logs := save_log (mark_log ''1'' '''' (entry ''0'')) (w_command_logs (ps_world s')),
        w_effects := w_effects (ps_world s') @ [MqttPublish topic 1 p]\<rparr>)"
    using dl_handle_raw [of ?m "ps_world s'" "entry ''0''" vm] m assms(5,6) id found s'(3) command_payload_nonempty [OF assms(8)]
    by metis
  have mark: "save_log (mark_log ''1'' '''' (entry ''0'')) (old @ [entry ''0'']) = old @ [entry ''1'']"
    using save_log_new [of old "entry ''0''" "mark_log ''1'' '''' (entry ''0'')"] assms(12)
    by (simp add: old_def entry_def pending_log_def mark_log_def)
  have w2: "w_command_logs w2 = old @ [entry ''1'']" "w_effects w2 = w_effects (ps_world s) @ [MqttPublish topic 1 p]"
      "w_db_fault w2 ''command_set_logs.update'' = None"
    using h(3) s' mark by (simp_all add: logs_view_def)
  have "settle_log (take 8 uuid) True e (old @ [entry ''1'']) = old @ [entry ''3'']" for e
    using settle_log_new [of old] assms(12) by (simp add: old_def entry_def pending_log_def settle_log_def)
  then have "w_command_logs (response_process_message a w2) = old @ [entry ''3'']"
    using assms(13-15) id w2(1,3) by (simp add: response_process_message_def split_beta update_command_log_def)
  with put(1-3) s'(1) h(1,2) w2(1,2) show ?thesis by blast
qed

theorem command_round_trip_witness:
  "\<exists>s' w2. command_put_message ''12345678-9'' ''r1'' ''d1'' ''reboot'' None
      \<lparr>ps_world = demo_world\<lparr>w_devices := [demo_device\<lparr>dev_device_config_id := None\<rparr>]\<rparr>, ps_plugins = [], ps_bus = Some (new_dl_bus 1)\<rparr> =
        Returns None s' \<and>
    map sl_status (w_command_logs (response_process_message
      ((demo_response ''{}'')\<lparr>msg_metadata := [(''message_id'', JStr ''12345678'')]\<rparr>) w2)) = [Some ''3'']"
proof -
  let ?s = "\<lparr>ps_world = demo_world\<lparr>w_devices := [demo_device\<lparr>dev_device_config_id := None\<rparr>]\<rparr>, ps_plugins = [], ps_bus = Some (new_dl_bus 1)\<rparr>"
  let ?a = "(demo_response ''{}'')\<lparr>msg_metadata := [(''message_id'', JStr ''12345678'')]\<rparr>"
  have w: "sound_tree (ps_world ?s)"
    by (simp add: sound_tree_def demo_world_def empty_world_def device_cache.coherent_def unique_children_def)
  have p: "snd (parse_response ''{}'')" by code_simp
  have "command_payload ''reboot'' None = Inr (''{'' @ CHR 0x22 # ''method'' @ [CHR 0x22] @ '':'' @ print_str ''reboot'' @ ''}'')"
    by (simp add: command_payload_def)
  from command_round_trip [OF w _ _ _ _ _ _ this, of "''d1''" "demo_device\<lparr>dev_device_config_id := None\<rparr>" "''12345678-9''"
      "new_dl_bus 1" "''r1''" ?a demo_vm] p
  obtain s' w2 where "command_put_message ''12345678-9'' ''r1'' ''d1'' ''reboot'' None ?s = Returns None s'"
      "w_command_logs (response_process_message ?a w2) = [pending_log ''r1'' ''d1'' (Some ''12345678'') (Some ''3'')]"
    by (auto simp: demo_world_def empty_world_def device_row_def demo_device_def new_dl_bus_def make_chan_def demo_response_def)
  then show ?thesis by (intro exI [of _ s'] exI [of _ w2]) (simp add: pending_log_def)
qed

end
