(* ===== verification/DeviceAdmin.thy ===== *)
theory DeviceAdmin
  imports PutMessages AutoState
begin

text \<open>
  The administration of devices: \<open>internal/service/device.go\<close> as far as it changes device rows,
  \<open>device_auth.go\<close>, the statements of \<open>internal/dal/devices.go\<close> and the notice to a protocol plugin
  (\<open>protocol_plugin/notify_plugin.go\<close>). The constraints of the table are those of \<open>sql/1.sql\<close>. A row
  of the data tables is its device id, the only column the modelled statements read. The ids and
  passwords the code generates are the values of a function \<open>u\<close>, one index per generated value.
\<close>

section \<open>State\<close>

text \<open>\<open>model.Group\<close>, as far as the automatic membership reads it.\<close>

record dev_group =
  gr_id :: string
  gr_parent_id :: string
  gr_tenant_id :: string

record admin =
  ad_world :: world
  ad_plugins :: "service_plugin list"
  ad_conditions :: "trigger_condition list"
  ad_groups :: "dev_group list"
  ad_members :: "(string \<times> string) list"
  ad_products :: "string list"
  ad_current :: "string list"
  ad_telemetry :: "string list"
  ad_attributes :: "string list"
  ad_events :: "string list"

definition ad_fault :: "string \<Rightarrow> admin \<Rightarrow> gerror option" where
  "ad_fault q s = w_db_fault (ad_world s) q"

definition on_world :: "(world \<Rightarrow> world) \<Rightarrow> admin \<Rightarrow> admin" where
  "on_world f s = s\<lparr>ad_world := f (ad_world s)\<rparr>"

definition ad_del_cache :: "string \<Rightarrow> admin \<Rightarrow> admin" where
  "ad_del_cache i = on_world (\<lambda>w. snd (del_device_cache i w))"

section \<open>The device table\<close>

definition constraint_error :: gerror where
  "constraint_error = Errorf ''constraint violated''"

text \<open>Primary key, unique number, unique voucher, and the reference to a configuration.\<close>

definition device_constraints :: "device_config list \<Rightarrow> device list \<Rightarrow> bool" where
  "device_constraints cs ds \<longleftrightarrow> distinct (map dev_id ds) \<and> distinct (map dev_device_number ds) \<and>
     distinct (map dev_voucher ds) \<and>
     (\<forall>d \<in> set ds. case dev_device_config_id d of None \<Rightarrow> True | Some c \<Rightarrow> c \<in> dc_id ` set cs)"

definition put_devices :: "device list \<Rightarrow> world \<Rightarrow> gerror option \<times> world" where
  "put_devices ds w = (if device_constraints (w_configs w) ds then (None, w\<lparr>w_devices := ds\<rparr>) else (Some constraint_error, w))"

definition insert_devices :: "device list \<Rightarrow> world \<Rightarrow> gerror option \<times> world" where
  "insert_devices ds w = (case w_db_fault w ''devices.create'' of
      Some e \<Rightarrow> (Some e, w) | None \<Rightarrow> put_devices (foldr (insort_key dev_id) ds (w_devices w)) w)"

text \<open>An update of the rows that match, with their number.\<close>

definition update_where :: "(device \<Rightarrow> bool) \<Rightarrow> (device \<Rightarrow> device) \<Rightarrow> world \<Rightarrow> nat res \<times> world" where
  "update_where P f w = (case w_db_fault w ''devices.update'' of
      Some e \<Rightarrow> (Inl e, w)
    | None \<Rightarrow> (case put_devices (map (\<lambda>d. if P d then f d else d) (w_devices w)) w of
        (Some e, w1) \<Rightarrow> (Inl e, w1) | (None, w1) \<Rightarrow> (Inr (length (filter P (w_devices w))), w1)))"

definition no_rows :: gerror where
  "no_rows = Errorf ''no rows affected''"

text \<open>\<open>createDevicesWithDefaultRootGroup\<close>: one transaction; the devices of the first one's tenant join
  the root group of the tenant when it has exactly one.\<close>

definition create_devices :: "device list \<Rightarrow> admin \<Rightarrow> gerror option \<times> admin" where
  "create_devices ds s = (case ds of
      [] \<Rightarrow> (None, s)
    | d # _ \<Rightarrow> (case insert_devices ds (ad_world s) of
        (Some e, w) \<Rightarrow> (Some e, s)
      | (None, w) \<Rightarrow>
          let t = dev_tenant_id d; s1 = s\<lparr>ad_world := w\<rparr> in
          if t = '''' then (None, s1)
          else (case ad_fault ''groups.find'' s of
              Some e \<Rightarrow> (Some e, s)
            | None \<Rightarrow> (case filter (\<lambda>g. gr_tenant_id g = t \<and> gr_parent_id g = ''0'') (ad_groups s) of
                [g] \<Rightarrow>
                  if gr_id g = '''' then (None, s1)
                  else let new = map (\<lambda>x. (gr_id g, dev_id x)) (filter (\<lambda>x. dev_id x \<noteq> '''' \<and> dev_tenant_id x = t) ds) in
                    if new = [] then (None, s1)
                    else (case ad_fault ''r_group_device.create'' s of
                        Some e \<Rightarrow> (Some e, s) | None \<Rightarrow> (None, s1\<lparr>ad_members := ad_members s @ new\<rparr>))
              | _ \<Rightarrow> (None, s1)))))"

definition check_device_number_exists :: "string \<Rightarrow> world \<Rightarrow> bool res" where
  "check_device_number_exists n w = (case w_db_fault w ''devices.count'' of
      Some e \<Rightarrow> Inl e | None \<Rightarrow> Inr (\<exists>d \<in> set (w_devices w). dev_device_number d = n))"

definition check_voucher_exists :: "string \<Rightarrow> string \<Rightarrow> world \<Rightarrow> bool res" where
  "check_voucher_exists v i w = (case w_db_fault w ''devices.count'' of
      Some e \<Rightarrow> Inl e | None \<Rightarrow> Inr (\<exists>d \<in> set (w_devices w). dev_voucher d = v \<and> dev_id d \<noteq> i))"

text \<open>Also true when the count fails.\<close>

definition get_sub_device_exists :: "string \<Rightarrow> string \<Rightarrow> world \<Rightarrow> bool" where
  "get_sub_device_exists p a w \<longleftrightarrow> w_db_fault w ''devices.count'' \<noteq> None \<or>
     (\<exists>d \<in> set (w_devices w). dev_parent_id d = Some p \<and> dev_sub_device_addr d = Some a)"

definition get_sub_device_list :: "string \<Rightarrow> world \<Rightarrow> device list res" where
  "get_sub_device_list p w = (case w_db_fault w ''devices.find'' of
      Some e \<Rightarrow> Inl e | None \<Rightarrow> Inr (filter (\<lambda>d. dev_parent_id d = Some p) (w_devices w)))"

definition get_device_config_id_by_name :: "string \<Rightarrow> world \<Rightarrow> string option" where
  "get_device_config_id_by_name n w = (case w_db_fault w ''device_configs.scan'' of
      Some _ \<Rightarrow> None
    | None \<Rightarrow> (case find (\<lambda>c. dc_name c = n) (w_configs w) of None \<Rightarrow> Some '''' | Some c \<Rightarrow> Some (dc_id c)))"

section \<open>The notice to a protocol plugin\<close>

definition plugin_host :: "service_plugin \<Rightarrow> string res" where
  "plugin_host p = (case sp_service_config p of
      None \<Rightarrow> Inl (err_code 200065)
    | Some c \<Rightarrow>
        if c = '''' then Inl (err_code 200065)
        else (case unmarshal dec_service_access c no_access of
            Inl _ \<Rightarrow> Inl (err_code 200066)
          | Inr a \<Rightarrow> if pa_http_address a = '''' then Inl (err_code 200067) else Inr (pa_http_address a)))"

text \<open>\<open>DisconnectDeviceByDeviceID\<close>, whose result its callers only log. A sub-device without gateway
  panics (\<open>None\<close>).\<close>

definition disconnect :: "string \<Rightarrow> admin \<Rightarrow> admin option" where
  "disconnect i s = (case dal_get_device i (ad_world s) of
      Inl _ \<Rightarrow> Some s
    | Inr d \<Rightarrow> (case dev_device_config_id d of
        None \<Rightarrow> Some s
      | Some c \<Rightarrow> (case get_device_config_by_id c (ad_world s) of
          (Inl _, w) \<Rightarrow> Some (s\<lparr>ad_world := w\<rparr>)
        | (Inr cfg, w) \<Rightarrow>
            let s1 = s\<lparr>ad_world := w\<rparr> in
            (case dc_protocol_type cfg of
              None \<Rightarrow> Some s1
            | Some proto \<Rightarrow>
                if proto = ''MQTT'' then Some s1
                else (case plugin_by_identifier proto \<lparr>ps_world = w, ps_plugins = ad_plugins s, ps_bus = None\<rparr> of
                    Inl _ \<Rightarrow> Some s1
                  | Inr p \<Rightarrow> (case plugin_host p of
                      Inl _ \<Rightarrow> Some s1
                    | Inr host \<Rightarrow>
                        if dc_device_type cfg = ''3''
                        then map_option (\<lambda>q. on_world (emit (PluginDisconnect q host)) s1) (dev_parent_id d)
                        else Some (on_world (emit (PluginDisconnect i host)) s1)))))))"

section \<open>Vouchers\<close>

definition quoted :: "string \<Rightarrow> string" where
  "quoted t = CHR 0x22 # t @ [CHR 0x22]"

definition username_voucher :: "string \<Rightarrow> string" where
  "username_voucher n = ''{'' @ quoted ''username'' @ '':'' @ quoted n @ ''}''"

definition basic_voucher :: "string \<Rightarrow> string \<Rightarrow> string" where
  "basic_voucher n p = ''{'' @ quoted ''username'' @ '':'' @ quoted n @ '','' @ quoted ''password'' @ '':'' @ quoted p @ ''}''"

definition plain_voucher :: "string \<Rightarrow> string \<Rightarrow> string" where
  "plain_voucher k v = ''{'' @ quoted k @ '':'' @ quoted v @ ''}''"

section \<open>Creating devices\<close>

definition new_device :: "string \<Rightarrow> string \<Rightarrow> string \<Rightarrow> string \<Rightarrow> device" where
  "new_device i number voucher tenant =
     \<lparr>dev_id = i, dev_name = None, dev_voucher = voucher, dev_tenant_id = tenant, dev_is_enabled = '''',
      dev_activate_flag = ''active'', dev_device_number = number, dev_parent_id = None, dev_sub_device_addr = None,
      dev_device_config_id = None, dev_is_online = 0, dev_last_offline = None\<rparr>"

record create_req =
  cr_id :: "string option"
  cr_name :: "string option"
  cr_voucher :: "string option"
  cr_number :: "string option"
  cr_parent :: "string option"
  cr_sub_addr :: "string option"
  cr_config :: "string option"

definition id_char :: "char \<Rightarrow> bool" where
  "id_char c \<longleftrightarrow> is_digit c \<or> (let n = of_char (lower_char c) in 97 \<le> n \<and> n \<le> (122::nat)) \<or> c \<in> set ''-_''"

definition is_valid_device_id :: "string \<Rightarrow> bool" where
  "is_valid_device_id i \<longleftrightarrow> length i \<in> {8..36} \<and> list_all id_char i"

text \<open>An absent or empty text.\<close>

definition opt_text :: "string option \<Rightarrow> string option" where
  "opt_text x = (if x = Some '''' then None else x)"

definition create_voucher :: "(nat \<Rightarrow> string) \<Rightarrow> create_req \<Rightarrow> world \<Rightarrow> string res \<times> world" where
  "create_voucher u r w = (case cr_voucher r of
      Some v \<Rightarrow> (Inr v, w)
    | None \<Rightarrow> (case opt_text (cr_config r) of
        None \<Rightarrow> (Inr (basic_voucher (take 22 (u 1)) (take 7 (u 2))), w)
      | Some c \<Rightarrow> (case get_device_config_by_id c w of
          (Inl e, w1) \<Rightarrow> (Inl e, w1)
        | (Inr cfg, w1) \<Rightarrow>
            (Inr (if dc_protocol_type cfg = Some ''MQTT''
                  then (if dc_voucher_type cfg = Some ''BASIC'' then basic_voucher (take 22 (u 1)) (take 7 (u 2))
                        else username_voucher (take 22 (u 1)))
                  else plain_voucher ''default'' (u 1)), w1))))"

definition create_device :: "(nat \<Rightarrow> string) \<Rightarrow> string \<Rightarrow> create_req \<Rightarrow> admin \<Rightarrow> device res \<times> admin" where
  "create_device u tenant r s =
     (let i = (case opt_text (cr_id r) of Some x \<Rightarrow> x | None \<Rightarrow> u 0)
      in if opt_text (cr_id r) \<noteq> None \<and> (\<not> is_valid_device_id i \<or> \<not> isl (dal_get_device i (ad_world s)))
         then (Inl code_param_error, s)
         else (case create_voucher u r (ad_world s) of
             (Inl e, w) \<Rightarrow> (Inl e, s\<lparr>ad_world := w\<rparr>)
           | (Inr v, w) \<Rightarrow>
               let d = (new_device i (case cr_number r of None \<Rightarrow> i | Some n \<Rightarrow> n) v tenant)
                   \<lparr>dev_name := cr_name r, dev_parent_id := cr_parent r, dev_sub_device_addr := cr_sub_addr r,
                    dev_device_config_id := opt_text (cr_config r)\<rparr>
               in (case create_devices [d] (s\<lparr>ad_world := w\<rparr>) of
                   (Some e, s1) \<Rightarrow> (Inl code_db_error, s1) | (None, s1) \<Rightarrow> (Inr d, s1))))"

text \<open>\<open>CreateDeviceBatch\<close> up to the notice to the service: the list of name, number and
  configuration; a number that exists is skipped.\<close>

fun batch_devices :: "(nat \<Rightarrow> string) \<Rightarrow> string \<Rightarrow> (string \<times> string \<times> string) list \<Rightarrow> world \<Rightarrow> device list res" where
  "batch_devices u tenant [] w = Inr []"
| "batch_devices u tenant ((name, number, cfg) # r) w =
     (if name = '''' \<and> number = '''' \<and> cfg = '''' then batch_devices u tenant r w
      else if number = '''' \<or> cfg = '''' \<or> name = '''' then Inl (err_code 100005)
      else (case check_device_number_exists number w of
          Inl e \<Rightarrow> Inl code_db_error
        | Inr True \<Rightarrow> batch_devices u tenant r w
        | Inr False \<Rightarrow> (case batch_devices (\<lambda>k. u (k + 2)) tenant r w of
            Inl e \<Rightarrow> Inl e
          | Inr ds \<Rightarrow> Inr ((new_device (u 0) number (username_voucher (take 22 (u 1))) tenant)
              \<lparr>dev_name := Some name, dev_device_config_id := Some cfg\<rparr> # ds))))"

definition create_device_batch :: "(nat \<Rightarrow> string) \<Rightarrow> string \<Rightarrow> (string \<times> string \<times> string) list \<Rightarrow> admin \<Rightarrow>
    device list res \<times> admin" where
  "create_device_batch u tenant rs s = (case batch_devices u tenant rs (ad_world s) of
      Inl e \<Rightarrow> (Inl e, s)
    | Inr ds \<Rightarrow> (case create_devices ds s of (Some e, s1) \<Rightarrow> (Inl code_db_error, s1) | (None, s1) \<Rightarrow> (Inr ds, s1)))"

section \<open>Registration by the device itself\<close>

record auth_req =
  aq_secret :: string
  aq_number :: string
  aq_name :: "string option"
  aq_product :: "string option"
  aq_sub_addr :: "string option"
  aq_parent_number :: "string option"

definition config_by_secret :: "string \<Rightarrow> world \<Rightarrow> device_config option res" where
  "config_by_secret t w = (case w_db_fault w ''device_configs.first'' of
      Some e \<Rightarrow> Inl e | None \<Rightarrow> Inr (find (\<lambda>c. dc_template_secret c = Some t) (w_configs w)))"

text \<open>The parent of a sub-device: id and address, or the error.\<close>

definition auth_parent :: "auth_req \<Rightarrow> world \<Rightarrow> (string \<times> string) res" where
  "auth_parent r w = (case (opt_text (aq_sub_addr r), opt_text (aq_parent_number r)) of
      (Some a, Some n) \<Rightarrow> (case get_device_by_device_number n w of
          Inl e \<Rightarrow> Inl (err_code 200085)
        | Inr p \<Rightarrow> if get_sub_device_exists (dev_id p) a w then Inl (err_code 200086) else Inr (dev_id p, a))
    | _ \<Rightarrow> Inl (err_code 200084))"

definition auth_voucher :: "(nat \<Rightarrow> string) \<Rightarrow> device_config \<Rightarrow> string" where
  "auth_voucher u c =
     (if dc_protocol_type c = Some ''MQTT''
      then (if dc_voucher_type c = Some ''BASIC'' then basic_voucher (u 1) (take 7 (u 2)) else username_voucher (u 1))
      else plain_voucher ''voucher'' (u 1))"

definition auth :: "(nat \<Rightarrow> string) \<Rightarrow> auth_req \<Rightarrow> admin \<Rightarrow> (string \<times> string) res \<times> admin" where
  "auth u r s = (case config_by_secret (aq_secret r) (ad_world s) of
      Inl e \<Rightarrow> (Inl code_db_error, s)
    | Inr None \<Rightarrow> (Inl (err_code 200080), s)
    | Inr (Some c) \<Rightarrow>
        if dc_auto_register c \<noteq> 1 then (Inl (err_code 200081), s)
        else (case get_device_by_device_number (aq_number r) (ad_world s) of
            Inr d \<Rightarrow> (Inl (err_code 200082), s)
          | Inl e \<Rightarrow>
              if e \<noteq> RecordNotFound then (Inl code_db_error, s)
              else if opt_text (aq_product r) \<noteq> None \<and> ad_fault ''products.first'' s \<noteq> None then (Inl code_db_error, s)
              else if opt_text (aq_product r) \<noteq> None \<and> the (opt_text (aq_product r)) \<notin> set (ad_products s)
              then (Inl (err_code 200083), s)
              else (case (if dc_device_type c = ''3'' then (case auth_parent r (ad_world s) of
                        Inl e \<Rightarrow> Inl e | Inr pa \<Rightarrow> Inr (Some pa)) else Inr None) of
                  Inl e \<Rightarrow> (Inl e, s)
                | Inr pa \<Rightarrow>
                    let d = (new_device (u 0) (aq_number r) (auth_voucher u c) (dc_tenant_id c))
                        \<lparr>dev_is_enabled := ''enable'', dev_device_config_id := Some (dc_id c),
                         dev_parent_id := map_option fst pa, dev_sub_device_addr := map_option snd pa,
                         dev_name := (case opt_text (aq_name r) of Some n \<Rightarrow> Some n | None \<Rightarrow> Some (''Device_'' @ aq_number r))\<rparr>
                    in (case create_devices [d] s of
                        (Some e, s1) \<Rightarrow> (Inl code_db_error, s1) | (None, s1) \<Rightarrow> (Inr (dev_id d, dev_voucher d), s1)))))"

text \<open>A text field of a JSON object, as far as decoding gets: a value of another type is skipped.\<close>

definition voucher_field :: "string \<Rightarrow> string \<Rightarrow> string" where
  "voucher_field n v = (case json_parse v of
      Some (JObj kvs) \<Rightarrow> foldl (\<lambda>x (k, j). if fold_eq n k then (case j of JStr t \<Rightarrow> t | _ \<Rightarrow> x) else x) '''' kvs
    | _ \<Rightarrow> '''')"

text \<open>\<open>GatewayRegister\<close>: user name, password and client id, and the error of the insert.\<close>

definition gateway_register :: "(nat \<Rightarrow> string) \<Rightarrow> string \<Rightarrow> string \<Rightarrow> string \<Rightarrow> admin \<Rightarrow>
    (string \<times> string \<times> string) \<times> gerror option \<times> admin" where
  "gateway_register u gateway tenant m s = (case get_device_by_device_number gateway (ad_world s) of
      Inr d \<Rightarrow> ((voucher_field ''username'' (dev_voucher d), voucher_field ''password'' (dev_voucher d), dev_id d), None, s)
    | Inl _ \<Rightarrow>
        let d = (new_device (u 2) gateway (basic_voucher (take 22 (u 0)) (take 7 (u 1))) tenant)
              \<lparr>dev_name := Some m, dev_device_config_id := opt_text (get_device_config_id_by_name m (ad_world s)), dev_is_online := 1\<rparr>
        in ((take 22 (u 0), take 7 (u 1), u 2), create_devices [d] s))"

text \<open>\<open>GatewayDeviceRegister\<close>: the answers by address, a later one in place of an earlier one. A
  gateway that is not found is dereferenced: a panic.\<close>

fun register_subs :: "(nat \<Rightarrow> string) \<Rightarrow> device \<Rightarrow> string \<Rightarrow> (string \<times> string) list \<Rightarrow> (int \<times> string) gmap \<Rightarrow> admin \<Rightarrow>
    (int \<times> string) gmap \<times> admin" where
  "register_subs u g gateway [] m s = (m, s)"
| "register_subs u g gateway ((a, model) # r) m s =
     (if get_sub_device_exists gateway a (ad_world s) then register_subs u g gateway r (map_put a (1, ''exists'') m) s
      else let d = (new_device (u 0) (u 2) (username_voucher (u 1)) (dev_tenant_id g))
                 \<lparr>dev_name := Some model, dev_parent_id := Some gateway, dev_sub_device_addr := Some a,
                  dev_device_config_id := opt_text (get_device_config_id_by_name model (ad_world s)), dev_is_online := 1\<rparr>
           in (case create_devices [d] s of
               (e, s1) \<Rightarrow> register_subs (\<lambda>k. u (k + 3)) g gateway r
                 (map_put a (if e = None then (0, '''') else (1, ''exists'')) m) s1))"

definition gateway_device_register :: "(nat \<Rightarrow> string) \<Rightarrow> string \<Rightarrow> (string \<times> string) list \<Rightarrow> admin \<Rightarrow>
    ((int \<times> string) gmap \<times> admin) option" where
  "gateway_device_register u gateway regs s = (case dal_get_device gateway (ad_world s) of
      Inl _ \<Rightarrow> None
    | Inr g \<Rightarrow> Some (register_subs u g gateway regs [] s))"

section \<open>Binding to a gateway\<close>

definition son_row :: "string \<Rightarrow> world \<Rightarrow> device res" where
  "son_row i w = (case w_db_fault w ''devices.first'' of
      Some e \<Rightarrow> Inl e
    | None \<Rightarrow> (case find (\<lambda>d. dev_id d = i \<and> dev_parent_id d = None \<and> dev_device_config_id d \<noteq> None) (w_devices w) of
        None \<Rightarrow> Inl RecordNotFound | Some d \<Rightarrow> Inr d))"

definition config_first :: "string \<Rightarrow> world \<Rightarrow> device_config res" where
  "config_first c w = (case w_db_fault w ''device_configs.first'' of
      Some e \<Rightarrow> Inl e
    | None \<Rightarrow> (case find (\<lambda>x. dc_id x = c) (w_configs w) of None \<Rightarrow> Inl RecordNotFound | Some x \<Rightarrow> Inr x))"

text \<open>One son of \<open>CreateSonDevice\<close>. A failed update is only logged; \<open>None\<close> is a panic.\<close>

definition bind_son :: "string \<Rightarrow> string \<Rightarrow> admin \<Rightarrow> (gerror option \<times> admin) option" where
  "bind_son gateway son s = (case son_row son (ad_world s) of
      Inl e \<Rightarrow> Some (Some code_db_error, s)
    | Inr d \<Rightarrow> (case config_first (the (dev_device_config_id d)) (ad_world s) of
        Inl e \<Rightarrow> Some (Some code_db_error, s)
      | Inr c \<Rightarrow>
          if dc_device_type c \<noteq> ''2'' \<and> dc_device_type c \<noteq> ''3'' then Some (Some code_param_error, s)
          else (case update_where (\<lambda>x. dev_id x = son)
                    (\<lambda>x. x\<lparr>dev_parent_id := Some gateway, dev_sub_device_addr := Some son\<rparr>) (ad_world s) of
              (Inl e, w) \<Rightarrow> Some (None, s\<lparr>ad_world := w\<rparr>)
            | (Inr n, w) \<Rightarrow> map_option (\<lambda>s1. (None, s1)) (disconnect gateway (s\<lparr>ad_world := w\<rparr>)))))"

fun bind_sons :: "string \<Rightarrow> string list \<Rightarrow> admin \<Rightarrow> (gerror option \<times> admin) option" where
  "bind_sons gateway [] s = Some (None, s)"
| "bind_sons gateway (i # is) s = (case bind_son gateway i s of
     None \<Rightarrow> None | Some (Some e, s1) \<Rightarrow> Some (Some e, s1) | Some (None, s1) \<Rightarrow> bind_sons gateway is s1)"

definition create_son_device :: "string \<Rightarrow> string \<Rightarrow> admin \<Rightarrow> (gerror option \<times> admin) option" where
  "create_son_device gateway sons = bind_sons gateway (split_on (CHR '','') sons)"

definition remove_sub_device :: "string \<Rightarrow> string \<Rightarrow> admin \<Rightarrow> (gerror option \<times> admin) option" where
  "remove_sub_device i tenant s = (case dal_get_device i (ad_world s) of
      Inl e \<Rightarrow> Some (Some code_db_error, s)
    | Inr d \<Rightarrow> (case update_where (\<lambda>x. dev_id x = i \<and> dev_tenant_id x = tenant)
          (\<lambda>x. x\<lparr>dev_parent_id := None, dev_sub_device_addr := None\<rparr>) (ad_world s) of
        (Inl e, w) \<Rightarrow> Some (Some code_db_error, s\<lparr>ad_world := w\<rparr>)
      | (Inr n, w) \<Rightarrow>
          if n = 0 then Some (Some code_db_error, s\<lparr>ad_world := w\<rparr>)
          else map_option (\<lambda>s1. (None, ad_del_cache i s1))
            (case dev_parent_id d of None \<Rightarrow> Some (s\<lparr>ad_world := w\<rparr>) | Some q \<Rightarrow> disconnect q (s\<lparr>ad_world := w\<rparr>))))"

section \<open>Changing a device\<close>

record update_req =
  uq_id :: string
  uq_name :: "string option"
  uq_voucher :: "string option"
  uq_number :: "string option"
  uq_parent :: "string option"
  uq_sub_addr :: "string option"
  uq_config :: "string option"
  uq_online :: "int option"
  uq_additional_info :: "string option"
  uq_protocol_config :: "string option"

definition changed_by :: "update_req \<Rightarrow> device \<Rightarrow> device" where
  "changed_by r d = d
     \<lparr>dev_name := (if uq_name r = None then dev_name d else uq_name r),
      dev_voucher := (case uq_voucher r of None \<Rightarrow> dev_voucher d | Some v \<Rightarrow> v),
      dev_device_number := (case uq_number r of None \<Rightarrow> dev_device_number d | Some n \<Rightarrow> n),
      dev_parent_id := (if uq_parent r = None then dev_parent_id d else uq_parent r),
      dev_sub_device_addr := (if uq_sub_addr r = None then dev_sub_device_addr d else uq_sub_addr r),
      dev_device_config_id := (if uq_config r = None then dev_device_config_id d else uq_config r),
      dev_is_online := (case uq_online r of None \<Rightarrow> dev_is_online d | Some o1 \<Rightarrow> o1)\<rparr>"

definition json_or_absent :: "string option \<Rightarrow> bool" where
  "json_or_absent x = (case x of None \<Rightarrow> True | Some t \<Rightarrow> json_parse t \<noteq> None)"

text \<open>The row the request means: by id, or by number when the id is the text \<open>EMPTY\<close>.\<close>

definition update_target :: "update_req \<Rightarrow> world \<Rightarrow> device res" where
  "update_target r w =
     (if uq_id r \<noteq> ''EMPTY'' then (case dal_get_device (uq_id r) w of Inl e \<Rightarrow> Inl code_db_error | Inr d \<Rightarrow> Inr d)
      else case opt_text (uq_number r) of
        None \<Rightarrow> Inl (err_code 204003)
      | Some n \<Rightarrow> (case get_device_by_device_number n w of Inl e \<Rightarrow> Inl code_db_error | Inr d \<Rightarrow> Inr d))"

text \<open>The checks of a changed number: it is new, and a direct device or gateway of a protocol plugin
  is disconnected.\<close>

definition renumber :: "update_req \<Rightarrow> device \<Rightarrow> admin \<Rightarrow> (gerror option \<times> admin) option" where
  "renumber r d s = (case opt_text (uq_number r) of
      None \<Rightarrow> Some (None, s)
    | Some n \<Rightarrow>
        if n = dev_device_number d then Some (None, s)
        else (case check_device_number_exists n (ad_world s) of
            Inl e \<Rightarrow> Some (Some code_db_error, s)
          | Inr True \<Rightarrow> Some (Some (err_code 204004), s)
          | Inr False \<Rightarrow> (case (if uq_config r = None then dev_device_config_id d else uq_config r) of
              None \<Rightarrow> Some (None, s)
            | Some c \<Rightarrow> (case get_device_config_by_id c (ad_world s) of
                (Inl e, w) \<Rightarrow> Some (Some code_db_error, s\<lparr>ad_world := w\<rparr>)
              | (Inr cfg, w) \<Rightarrow>
                  if dc_protocol_type cfg \<noteq> None \<and> dc_protocol_type cfg \<noteq> Some ''MQTT'' \<and>
                     (dc_device_type cfg = ''1'' \<or> dc_device_type cfg = ''2'')
                  then map_option (\<lambda>s1. (None, s1)) (disconnect (dev_id d) (s\<lparr>ad_world := w\<rparr>))
                  else Some (None, s\<lparr>ad_world := w\<rparr>)))))"

definition update_device :: "string \<Rightarrow> update_req \<Rightarrow> admin \<Rightarrow> (device res \<times> admin) option" where
  "update_device tenant r s = (case update_target r (ad_world s) of
      Inl e \<Rightarrow> Some (Inl e, s)
    | Inr d \<Rightarrow>
        if dev_tenant_id d \<noteq> tenant then Some (Inl (err_code 201001), s)
        else Option.bind (renumber r d s) (\<lambda>(e, s1). (case e of
            Some e \<Rightarrow> Some (Inl e, s1)
          | None \<Rightarrow>
              if \<not> json_or_absent (uq_additional_info r) \<or> \<not> json_or_absent (uq_protocol_config r)
              then Some (Inl code_param_error, s1)
              else (case update_where (\<lambda>x. dev_id x = dev_id d) (changed_by r) (ad_world s1) of
                  (Inl e, w) \<Rightarrow> Some (Inl code_db_error, s1\<lparr>ad_world := w\<rparr>)
                | (Inr n, w) \<Rightarrow>
                    if n = 0 then Some (Inl code_db_error, s1\<lparr>ad_world := w\<rparr>)
                    else (case dal_get_device (dev_id d) w of
                        Inl e \<Rightarrow> Some (Inl code_db_error, s1\<lparr>ad_world := w\<rparr>)
                      | Inr d' \<Rightarrow>
                          let s2 = ad_del_cache (dev_id d) (s1\<lparr>ad_world := w\<rparr>) in
                          map_option (\<lambda>s3. (Inr d', s3))
                            (if opt_text (uq_sub_addr r) \<noteq> None \<and> opt_text (dev_sub_device_addr d) \<noteq> None \<and>
                                uq_sub_addr r \<noteq> dev_sub_device_addr d
                             then disconnect (dev_id d) s2 else Some s2))))))"

text \<open>\<open>UpdateDeviceConfig\<close>: not for a gateway that has sub-devices, nor for a sub-device that has a gateway.\<close>

definition config_blocked :: "device \<Rightarrow> world \<Rightarrow> gerror option \<times> world" where
  "config_blocked d w = (case dev_device_config_id d of
      None \<Rightarrow> (None, w)
    | Some c \<Rightarrow> (case get_device_config_by_id c w of
        (Inl e, w1) \<Rightarrow> (Some code_db_error, w1)
      | (Inr cfg, w1) \<Rightarrow>
          (if dc_device_type cfg = ''2'' then (case get_sub_device_list (dev_id d) w1 of
              Inl e \<Rightarrow> Some code_db_error | Inr ds \<Rightarrow> if ds = [] then None else Some (err_code 200061))
           else if dc_device_type cfg = ''3'' \<and> dev_parent_id d \<noteq> None then Some (err_code 200063)
           else None, w1)))"

definition update_device_config :: "string \<Rightarrow> string option \<Rightarrow> admin \<Rightarrow> gerror option \<times> admin" where
  "update_device_config i c s = (case dal_get_device i (ad_world s) of
      Inl e \<Rightarrow> (Some code_db_error, s)
    | Inr d \<Rightarrow> (case config_blocked d (ad_world s) of
        (Some e, w) \<Rightarrow> (Some e, s\<lparr>ad_world := w\<rparr>)
      | (None, w) \<Rightarrow>
          if c = None then (Some code_system_error, s\<lparr>ad_world := w\<rparr>)
          else (case update_where (\<lambda>x. dev_id x = i) (\<lambda>x. x\<lparr>dev_device_config_id := opt_text c\<rparr>) w of
              (Inl e, w1) \<Rightarrow> (Some code_db_error, s\<lparr>ad_world := w1\<rparr>)
            | (Inr n, w1) \<Rightarrow>
                if n = 0 then (Some code_db_error, s\<lparr>ad_world := w1\<rparr>)
                else (None, ad_del_cache i (s\<lparr>ad_world := w1\<rparr>)))))"

text \<open>\<open>UpdateDeviceVoucher\<close>: a text as it is, any other JSON value as its text. The old voucher is also
  the broker's cache key.\<close>

definition voucher_notice :: "device \<Rightarrow> admin \<Rightarrow> admin option" where
  "voucher_notice d s = (case dev_device_config_id d of
      None \<Rightarrow> Some s
    | Some c \<Rightarrow> (case get_device_config_by_id c (ad_world s) of
        (Inl e, w) \<Rightarrow> Some (s\<lparr>ad_world := w\<rparr>)
      | (Inr cfg, w) \<Rightarrow>
          if dc_protocol_type cfg \<noteq> None \<and> dc_protocol_type cfg \<noteq> Some ''MQTT'' \<and>
             (dc_device_type cfg = ''1'' \<or> dc_device_type cfg = ''2'')
          then disconnect (dev_id d) (s\<lparr>ad_world := w\<rparr>)
          else Some (s\<lparr>ad_world := w\<rparr>)))"

definition update_device_voucher :: "string \<Rightarrow> json \<Rightarrow> admin \<Rightarrow> (string res \<times> admin) option" where
  "update_device_voucher i j s = (case dal_get_device i (ad_world s) of
      Inl e \<Rightarrow> Some (Inl code_db_error, s)
    | Inr d \<Rightarrow>
        let v = (case j of JStr t \<Rightarrow> t | _ \<Rightarrow> json_print j) in
        if j = JStr ''{}'' then Some (Inr '''', s)
        else (case (if dev_voucher d \<noteq> v then check_voucher_exists v i (ad_world s) else Inr False) of
            Inl e \<Rightarrow> Some (Inl code_db_error, s)
          | Inr True \<Rightarrow> Some (Inl (err_code 204005), s)
          | Inr False \<Rightarrow> (case update_where (\<lambda>x. dev_id x = i) (\<lambda>x. x\<lparr>dev_voucher := v\<rparr>) (ad_world s) of
              (Inl e, w) \<Rightarrow> Some (Inl e, s\<lparr>ad_world := w\<rparr>)
            | (Inr n, w) \<Rightarrow>
                let s1 = ad_del_cache i (s\<lparr>ad_world := w\<rparr>) in
                Option.bind (if dev_voucher d \<noteq> v
                    then voucher_notice d (on_world (\<lambda>w. snd (redis_del (dev_voucher d) w)) s1) else Some s1) (\<lambda>s2.
                  (case dal_get_device i (ad_world s2) of
                    Inl e \<Rightarrow> None | Inr d' \<Rightarrow> Some (Inr (dev_voucher d'), s2))))))"

definition active_device :: "(nat \<Rightarrow> string) \<Rightarrow> string \<Rightarrow> string \<Rightarrow> admin \<Rightarrow> device res \<times> admin" where
  "active_device u number name s =
     (let n = trim_space number; m = trim_space name
      in case get_device_by_device_number n (ad_world s) of
          Inl e \<Rightarrow> (Inl (if e = RecordNotFound then err_code 204001 else code_db_error), s)
        | Inr d \<Rightarrow>
            if dev_activate_flag d = ''active'' then (Inl (err_code 204002), s)
            else let d' = d\<lparr>dev_device_number := n, dev_name := Some (if m = '''' then take 8 (u 0) else m),
                            dev_activate_flag := ''active''\<rparr>
              in (case update_where (\<lambda>x. dev_id x = dev_id d) (\<lambda>x. d') (ad_world s) of
                  (Inl e, w) \<Rightarrow> (Inl code_db_error, s\<lparr>ad_world := w\<rparr>)
                | (Inr k, w) \<Rightarrow>
                    if k = 0 then (Inl code_db_error, s\<lparr>ad_world := w\<rparr>)
                    else (Inr d', ad_del_cache (dev_id d) (s\<lparr>ad_world := w\<rparr>))))"

text \<open>The code and whether the number can be activated.\<close>

definition check_device_number :: "string \<Rightarrow> world \<Rightarrow> gerror \<times> bool" where
  "check_device_number n w = (case get_device_by_device_number n w of
      Inl e \<Rightarrow> (if e = RecordNotFound then err_code 204001 else code_db_error, False)
    | Inr d \<Rightarrow> if dev_activate_flag d = ''active'' then (err_code 204002, False) else (err_code 204003, True))"

section \<open>Deleting a device\<close>

datatype data_table = CurrentTable | TelemetryTable | TelemetrySetTable | AttributeTable | EventTable | CommandSetTable

definition delete_query :: "data_table \<Rightarrow> string" where
  "delete_query t = (case t of CurrentTable \<Rightarrow> ''telemetry_current_datas.delete'' | TelemetryTable \<Rightarrow> ''telemetry_datas.delete''
     | TelemetrySetTable \<Rightarrow> ''telemetry_set_logs.delete'' | AttributeTable \<Rightarrow> ''attribute_datas.delete''
     | EventTable \<Rightarrow> ''event_datas.delete'' | CommandSetTable \<Rightarrow> ''command_set_logs.delete'')"

definition delete_rows :: "string \<Rightarrow> data_table \<Rightarrow> admin \<Rightarrow> admin" where
  "delete_rows i t s = (case t of
      CurrentTable \<Rightarrow> s\<lparr>ad_current := filter (\<lambda>x. x \<noteq> i) (ad_current s)\<rparr>
    | TelemetryTable \<Rightarrow> s\<lparr>ad_telemetry := filter (\<lambda>x. x \<noteq> i) (ad_telemetry s)\<rparr>
    | TelemetrySetTable \<Rightarrow> on_world (\<lambda>w. w\<lparr>w_telemetry_logs := filter (\<lambda>l. sl_device_id l \<noteq> i) (w_telemetry_logs w)\<rparr>) s
    | AttributeTable \<Rightarrow> s\<lparr>ad_attributes := filter (\<lambda>x. x \<noteq> i) (ad_attributes s)\<rparr>
    | EventTable \<Rightarrow> s\<lparr>ad_events := filter (\<lambda>x. x \<noteq> i) (ad_events s)\<rparr>
    | CommandSetTable \<Rightarrow> on_world (\<lambda>w. w\<lparr>w_command_logs := filter (\<lambda>l. sl_device_id l \<noteq> i) (w_command_logs w)\<rparr>) s)"

fun delete_tables :: "string \<Rightarrow> data_table list \<Rightarrow> admin \<Rightarrow> gerror option \<times> admin" where
  "delete_tables i [] s = (None, s)"
| "delete_tables i (t # ts) s = (case ad_fault (delete_query t) s of
     Some e \<Rightarrow> (Some e, s) | None \<Rightarrow> delete_tables i ts (delete_rows i t s))"

text \<open>The row of the device, if it is the tenant's; the rows of the set logs go with it (\<open>ON DELETE
  CASCADE\<close> in \<open>sql/2.sql\<close>).\<close>

definition delete_device_row :: "string \<Rightarrow> string \<Rightarrow> admin \<Rightarrow> gerror option \<times> admin" where
  "delete_device_row i tenant s = (case ad_fault ''devices.delete'' s of
      Some e \<Rightarrow> (Some e, s)
    | None \<Rightarrow>
        (None, if \<exists>d \<in> set (w_devices (ad_world s)). dev_id d = i \<and> dev_tenant_id d = tenant
         then (on_world (\<lambda>w. w\<lparr>w_devices := filter (\<lambda>d. dev_id d \<noteq> i) (w_devices w),
                w_command_logs := filter (\<lambda>l. sl_device_id l \<noteq> i) (w_command_logs w),
                w_attribute_logs := filter (\<lambda>l. sl_device_id l \<noteq> i) (w_attribute_logs w),
                w_telemetry_logs := filter (\<lambda>l. sl_device_id l \<noteq> i) (w_telemetry_logs w)\<rparr>) s)
              \<lparr>ad_members := filter (\<lambda>(g, d). d \<noteq> i) (ad_members s)\<rparr>
         else s))"

text \<open>The tables in the order they are emptied; the attribute values are deleted twice.\<close>

definition delete_order :: "data_table list" where
  "delete_order = [CurrentTable, TelemetryTable, TelemetrySetTable, AttributeTable, AttributeTable, EventTable, CommandSetTable]"

definition delete_device :: "string \<Rightarrow> string \<Rightarrow> admin \<Rightarrow> (gerror option \<times> admin) option" where
  "delete_device i tenant s = (case dal_get_device i (ad_world s) of
      Inl e \<Rightarrow> Some (Some code_db_error, s)
    | Inr d \<Rightarrow> (case get_sub_device_list i (ad_world s) of
        Inl e \<Rightarrow> Some (Some code_db_error, s)
      | Inr subs \<Rightarrow>
          if subs \<noteq> [] then Some (Some (err_code 200063), s)
          else (case ad_fault ''device_trigger_condition.scan'' s of
              Some e \<Rightarrow> Some (Some e, s)
            | None \<Rightarrow>
                if \<exists>c \<in> set (ad_conditions s). tc_source c = Some i then Some (Some (err_code 200062), s)
                else (case delete_tables i delete_order s of
                    (Some e, s1) \<Rightarrow> Some (Some code_db_error, s)
                  | (None, s1) \<Rightarrow> (case delete_device_row i tenant s1 of
                      (Some e, s2) \<Rightarrow> Some (Some code_db_error, s)
                    | (None, s2) \<Rightarrow>
                        let s3 = on_world (\<lambda>w. snd (redis_del (dev_voucher d) w)) (ad_del_cache i s2)
                        in map_option (\<lambda>s4. (None, s4)) (disconnect i s3))))))"

end
