(* ===== verification/DeviceTree.thy ===== *)
theory DeviceTree
  imports DeviceAdmin GatewayPath
begin

text \<open>
  What the administration of devices keeps true: the constraints of the table, the addresses below
  a gateway, the cache; and where it does not.
\<close>

section \<open>Runs\<close>

datatype admin_op =
    Create "nat \<Rightarrow> string" string create_req
  | CreateBatch "nat \<Rightarrow> string" string "(string \<times> string \<times> string) list"
  | Auth "nat \<Rightarrow> string" auth_req
  | RegisterGateway "nat \<Rightarrow> string" string string string
  | RegisterSubs "nat \<Rightarrow> string" string "(string \<times> string) list"
  | BindSons string string
  | RemoveSub string string
  | Update string update_req
  | UpdateConfig string "string option"
  | UpdateVoucher string json
  | Activate "nat \<Rightarrow> string" string string
  | Delete string string

text \<open>The state after an operation; \<open>None\<close> when it panics.\<close>

definition admin_step :: "admin_op \<Rightarrow> admin \<Rightarrow> admin option" where
  "admin_step op s = (case op of
      Create u t r \<Rightarrow> Some (snd (create_device u t r s))
    | CreateBatch u t rs \<Rightarrow> Some (snd (create_device_batch u t rs s))
    | Auth u r \<Rightarrow> Some (snd (auth u r s))
    | RegisterGateway u g t m \<Rightarrow> Some (snd (snd (gateway_register u g t m s)))
    | RegisterSubs u g rs \<Rightarrow> map_option snd (gateway_device_register u g rs s)
    | BindSons g is \<Rightarrow> map_option snd (create_son_device g is s)
    | RemoveSub i t \<Rightarrow> map_option snd (remove_sub_device i t s)
    | Update t r \<Rightarrow> map_option snd (update_device t r s)
    | UpdateConfig i c \<Rightarrow> Some (snd (update_device_config i c s))
    | UpdateVoucher i j \<Rightarrow> map_option snd (update_device_voucher i j s)
    | Activate u n m \<Rightarrow> Some (snd (active_device u n m s))
    | Delete i t \<Rightarrow> map_option snd (delete_device i t s))"

fun admin_run :: "admin_op list \<Rightarrow> admin \<Rightarrow> admin option" where
  "admin_run [] s = Some s"
| "admin_run (op # ops) s = Option.bind (admin_step op s) (admin_run ops)"

section \<open>What an operation may do to table and cache\<close>

text \<open>The table and the cache of devices change in steps: rows are inserted, one row is changed or
  removed and its cache entry with it, or an entry is evicted. With \<open>K\<close> the steps also respect the
  addresses below a gateway.\<close>

definition free_address :: "device \<Rightarrow> device list \<Rightarrow> bool" where
  "free_address d ds \<longleftrightarrow> dev_parent_id d = None \<or> dev_sub_device_addr d = None \<or>
     (\<forall>x \<in> set ds. dev_parent_id x = dev_parent_id d \<longrightarrow> dev_sub_device_addr x \<noteq> dev_sub_device_addr d)"

type_synonym table_view = "device list \<times> (string \<rightharpoonup> device)"

inductive moves :: "bool \<Rightarrow> device_config list \<Rightarrow> table_view \<Rightarrow> table_view \<Rightarrow> bool" for K cs v where
  m_refl: "moves K cs v v"
| m_insert: "moves K cs v (D, C) \<Longrightarrow> device_constraints cs (foldr (insort_key dev_id) ds D) \<Longrightarrow>
    (K \<Longrightarrow> (\<forall>d \<in> set ds. dev_parent_id d = None) \<or> (\<exists>d. ds = [d] \<and> free_address d D)) \<Longrightarrow>
    moves K cs v (foldr (insort_key dev_id) ds D, C)"
| m_change: "moves K cs v (D, C) \<Longrightarrow> device_constraints cs (map (\<lambda>d. if P d then f d else d) D) \<Longrightarrow>
    (\<And>d. d \<in> set D \<Longrightarrow> P d \<Longrightarrow> dev_id d = i \<and> dev_id (f d) = i) \<Longrightarrow>
    (\<And>d. K \<Longrightarrow> d \<in> set D \<Longrightarrow> P d \<Longrightarrow> dev_parent_id (f d) = None \<or>
      dev_parent_id (f d) = dev_parent_id d \<and> dev_sub_device_addr (f d) = dev_sub_device_addr d) \<Longrightarrow>
    moves K cs v (map (\<lambda>d. if P d then f d else d) D, C(i := None))"
| m_remove: "moves K cs v (D, C) \<Longrightarrow> moves K cs v (filter (\<lambda>d. dev_id d \<noteq> i) D, C(i := None))"
| m_evict: "moves K cs v (D, C) \<Longrightarrow> moves K cs v (D, C(i := None))"

lemma moves_trans: "moves K cs v' v'' \<Longrightarrow> moves K cs v v' \<Longrightarrow> moves K cs v v''"
proof (induction rule: moves.induct)
  case (m_insert D C ds)
  show ?case by (rule moves.m_insert [OF m_insert.IH [OF m_insert.prems] m_insert.hyps(2,3)])
next
  case (m_change D C P f i)
  show ?case by (rule moves.m_change [OF m_change.IH [OF m_change.prems] m_change.hyps(2-4)])
qed (simp_all add: m_remove m_evict)

lemma set_insert_rows: "set (foldr (insort_key f) ds D) = set ds \<union> set D"
  by (induction ds) (auto simp: set_insort_key)

subsection \<open>Constraints and order\<close>

text \<open>The table satisfies its constraints and is in the order of its primary key.\<close>

definition table_ok :: "device_config list \<Rightarrow> device list \<Rightarrow> bool" where
  "table_ok cs ds \<longleftrightarrow> device_constraints cs ds \<and> sorted (map dev_id ds)"

lemma constraints_filter: "device_constraints cs ds \<Longrightarrow> device_constraints cs (filter Q ds)"
  by (simp add: device_constraints_def distinct_map_filter)

lemma sorted_insert_rows: "sorted (map f D) \<Longrightarrow> sorted (map f (foldr (insort_key f) ds D))"
  by (induction ds) (simp_all add: sorted_insort_key)

lemma map_id_change:
  "(\<And>d. d \<in> set D \<Longrightarrow> P d \<Longrightarrow> dev_id d = i \<and> dev_id (f d) = i) \<Longrightarrow>
     map dev_id (map (\<lambda>d. if P d then f d else d) D) = map dev_id D"
  by auto

lemma moves_table_ok: "moves K cs v v' \<Longrightarrow> table_ok cs (fst v) \<Longrightarrow> table_ok cs (fst v')"
proof (induction rule: moves.induct)
  case (m_insert D C ds)
  from m_insert.IH [OF m_insert.prems] m_insert.hyps(2) show ?case by (simp add: table_ok_def sorted_insert_rows)
next
  case (m_change D C P f i)
  have "sorted (map dev_id D)" using m_change.IH [OF m_change.prems] by (simp add: table_ok_def)
  then have "sorted (map dev_id (map (\<lambda>d. if P d then f d else d) D))"
    by (subst map_id_change [OF m_change.hyps(3)]) assumption
  with m_change.hyps(2) show ?case by (simp only: table_ok_def fst_conv)
next
  case (m_remove D C i)
  from m_remove.IH [OF m_remove.prems] show ?case by (simp add: table_ok_def constraints_filter sorted_filter)
qed simp_all

subsection \<open>The cache\<close>

definition cache_sound :: "table_view \<Rightarrow> bool" where
  "cache_sound v \<longleftrightarrow> (\<forall>k d. snd v k = Some d \<longrightarrow> d \<in> set (fst v) \<and> dev_id d = k)"

lemma moves_cache_sound: "moves K cs v v' \<Longrightarrow> cache_sound v \<Longrightarrow> cache_sound v'"
proof (induction rule: moves.induct)
  case (m_insert D C ds)
  from m_insert.IH [OF m_insert.prems] show ?case by (simp add: cache_sound_def set_insert_rows)
next
  case (m_change D C P f i)
  show ?case unfolding cache_sound_def
  proof (intro allI impI)
    fix k d assume "snd (map (\<lambda>d. if P d then f d else d) D, C(i := None)) k = Some d"
    then have k: "k \<noteq> i" "C k = Some d" by (simp_all split: if_split_asm)
    then have "d \<in> set D" "dev_id d = k" using m_change.IH [OF m_change.prems] by (simp_all add: cache_sound_def)
    then show "d \<in> set (fst (map (\<lambda>d. if P d then f d else d) D, C(i := None))) \<and> dev_id d = k"
      using m_change.hyps(3) [of d] k(1) by (auto intro!: image_eqI [of _ _ d])
  qed
next
  case (m_remove D C i)
  from m_remove.IH [OF m_remove.prems] show ?case by (simp add: cache_sound_def)
next
  case (m_evict D C i)
  from m_evict.IH [OF m_evict.prems] show ?case by (simp add: cache_sound_def)
qed

lemma coherent_iff:
  assumes "distinct (map dev_id (w_devices w))"
  shows "device_cache.coherent w \<longleftrightarrow> cache_sound (w_devices w, w_device_cache w)"
proof -
  have "distinct (map dev_id ds) \<Longrightarrow> find (\<lambda>d. dev_id d = i) ds = Some r \<longleftrightarrow> r \<in> set ds \<and> dev_id r = i" for ds i r
    by (induction ds) auto
  from this [OF assms] show ?thesis unfolding device_cache.coherent_def cache_sound_def device_row_def by simp
qed

subsection \<open>Addresses\<close>

lemma unique_insert:
  assumes "unique_children ds" "free_address d ds" shows "unique_children (insort_key dev_id d ds)"
  using assms unfolding unique_children_def free_address_def set_insort_key by (metis insertE)

lemma unique_insert_rows:
  "\<forall>d \<in> set ds. dev_parent_id d = None \<Longrightarrow> unique_children D \<Longrightarrow> unique_children (foldr (insort_key dev_id) ds D)"
  by (induction ds) (auto intro!: unique_insert simp: free_address_def)

lemma moves_unique_children:
  "moves True cs v v' \<Longrightarrow> device_constraints cs (fst v) \<Longrightarrow> unique_children (fst v) \<Longrightarrow> unique_children (fst v')"
proof (induction rule: moves.induct)
  case (m_insert D C ds)
  then show ?case using unique_insert [of D] unique_insert_rows [of ds D] by auto
next
  case (m_change D C P f i)
  have "distinct (map dev_id (map (\<lambda>d. if P d then f d else d) D))" using m_change.hyps(2) by (simp only: device_constraints_def)
  then have ids: "distinct (map dev_id D)" using map_id_change [of D P i f] m_change.hyps(3) by metis
  have u: "unique_children D" using m_change by simp
  show ?case unfolding unique_children_def fst_conv
  proof (intro ballI impI)
    fix x y assume x: "x \<in> set (map (\<lambda>d. if P d then f d else d) D)" and y: "y \<in> set (map (\<lambda>d. if P d then f d else d) D)"
      and same: "dev_parent_id x \<noteq> None \<and> dev_parent_id x = dev_parent_id y \<and> dev_sub_device_addr x \<noteq> None \<and>
        dev_sub_device_addr x = dev_sub_device_addr y"
    obtain x0 y0 where o1: "x0 \<in> set D" "x = (if P x0 then f x0 else x0)" "y0 \<in> set D" "y = (if P y0 then f y0 else y0)"
      using x y by auto
    have "dev_parent_id x = dev_parent_id x0 \<and> dev_sub_device_addr x = dev_sub_device_addr x0"
      using o1(1,2) same m_change.hyps(4) [of x0] by (cases "P x0") auto
    moreover have "dev_parent_id y = dev_parent_id y0 \<and> dev_sub_device_addr y = dev_sub_device_addr y0"
      using o1(3,4) same m_change.hyps(4) [of y0] by (cases "P y0") auto
    ultimately have "x0 = y0" using u o1(1,3) same unfolding unique_children_def by metis
    then show "x = y" using o1 by simp
  qed
next
  case (m_remove D C i)
  then show ?case by (auto simp: unique_children_def)
qed auto

section \<open>Every operation moves\<close>

definition world_view :: "world \<Rightarrow> table_view" where
  "world_view w = (w_devices w, w_device_cache w)"

definition same_view :: "world \<Rightarrow> world \<Rightarrow> bool" where
  "same_view w w' \<longleftrightarrow> w_devices w' = w_devices w \<and> w_device_cache w' = w_device_cache w \<and> w_configs w' = w_configs w \<and>
     w_redis_fault w' = w_redis_fault w \<and> w_db_fault w' = w_db_fault w"

definition quiet :: "bool \<Rightarrow> world \<Rightarrow> world \<Rightarrow> bool" where
  "quiet K w w' \<longleftrightarrow> moves K (w_configs w) (world_view w) (world_view w') \<and> w_configs w' = w_configs w \<and>
     w_redis_fault w' = w_redis_fault w \<and> w_db_fault w' = w_db_fault w"

lemma quiet_same [intro]: "same_view w w' \<Longrightarrow> quiet K w w'"
  by (simp add: same_view_def quiet_def world_view_def m_refl)

lemma quiet_refl [simp]: "quiet K w w"
  by (simp add: quiet_def m_refl)

lemma same_refl [simp]: "same_view w w"
  by (simp add: same_view_def)

lemma same_trans: "same_view w w' \<Longrightarrow> same_view w' w'' \<Longrightarrow> same_view w w''"
  by (simp add: same_view_def)

lemma quiet_trans: "quiet K w w' \<Longrightarrow> quiet K w' w'' \<Longrightarrow> quiet K w w''"
  unfolding quiet_def by (metis moves_trans)

lemma same_config: "get_device_config_by_id c w = (r, w') \<Longrightarrow> same_view w w'"
  by (auto simp: get_config_cases load_device_config_def same_view_def split: if_splits option.splits)

lemma same_emit [simp]: "same_view w (emit e w)"
  by (simp add: same_view_def emit_def)

lemma same_redis_del [simp]: "same_view w (snd (redis_del k w))"
  by (simp add: same_view_def redis_del_def split: option.split)

lemma same_disconnect: "disconnect i s = Some s' \<Longrightarrow> same_view (ad_world s) (ad_world s')"
  by (auto simp: disconnect_def Let_def on_world_def dest!: same_config
      split: sum.splits option.splits prod.splits if_splits intro: same_trans)

lemma put_devices_ok:
  "put_devices ds w = (None, w') \<Longrightarrow> device_constraints (w_configs w) ds \<and> w' = w\<lparr>w_devices := ds\<rparr>"
  by (simp add: put_devices_def split: if_splits)

lemma put_devices_err: "put_devices ds w = (Some e, w') \<Longrightarrow> w' = w"
  by (simp add: put_devices_def split: if_splits)

lemma quiet_create:
  assumes "create_devices ds s = (e, s')"
    and "K \<Longrightarrow> (\<forall>d \<in> set ds. dev_parent_id d = None) \<or> (\<exists>d. ds = [d] \<and> free_address d (w_devices (ad_world s)))"
  shows "quiet K (ad_world s) (ad_world s')"
proof -
  have ins: "quiet K (ad_world s) w" if i: "insert_devices ds (ad_world s) = (None, w)" for w
  proof -
    have "device_constraints (w_configs (ad_world s)) (foldr (insort_key dev_id) ds (w_devices (ad_world s))) \<and>
        w = (ad_world s)\<lparr>w_devices := foldr (insort_key dev_id) ds (w_devices (ad_world s))\<rparr>"
      using i put_devices_ok by (auto simp: insert_devices_def split: option.splits)
    then have w: "device_constraints (w_configs (ad_world s)) (foldr (insort_key dev_id) ds (w_devices (ad_world s)))"
        "w = (ad_world s)\<lparr>w_devices := foldr (insort_key dev_id) ds (w_devices (ad_world s))\<rparr>" by blast+
    from m_insert [OF m_refl w(1) assms(2), of K "w_device_cache (ad_world s)"] w(2) show ?thesis
      by (simp add: quiet_def world_view_def)
  qed
  have "ad_world s' = ad_world s \<or> (\<exists>w. insert_devices ds (ad_world s) = (None, w) \<and> ad_world s' = w)"
    using assms(1) unfolding create_devices_def
    by (auto simp: Let_def split: list.splits prod.splits option.splits if_splits)
  then show ?thesis using ins by auto
qed

text \<open>An update of one row, followed by the eviction of its entry.\<close>

lemma quiet_update:
  assumes "update_where P f w = (Inr n, w1)" "same_view w1 w2" "\<forall>k. w_redis_fault w ''del'' k = None"
    and "\<And>d. d \<in> set (w_devices w) \<Longrightarrow> P d \<Longrightarrow> dev_id d = i \<and> dev_id (f d) = i"
    and "\<And>d. K \<Longrightarrow> d \<in> set (w_devices w) \<Longrightarrow> P d \<Longrightarrow> dev_parent_id (f d) = None \<or>
      dev_parent_id (f d) = dev_parent_id d \<and> dev_sub_device_addr (f d) = dev_sub_device_addr d"
  shows "quiet K w (snd (del_device_cache i w2))"
proof -
  let ?D = "map (\<lambda>d. if P d then f d else d) (w_devices w)"
  have u: "device_constraints (w_configs w) ?D" "w1 = w\<lparr>w_devices := ?D\<rparr>"
    using assms(1) put_devices_ok [of ?D w] by (auto simp: update_where_def split: option.splits prod.splits)
  have "moves K (w_configs w) (world_view w) (?D, (w_device_cache w)(i := None))"
    unfolding world_view_def by (rule m_change [OF m_refl u(1) assms(4,5)])
  then show ?thesis
    using assms(2,3) u(2) by (simp add: quiet_def world_view_def del_device_cache_def same_view_def)
qed

lemma update_none: "update_where P f w = (Inl e, w') \<Longrightarrow> w' = w"
  by (auto simp: update_where_def split: option.splits prod.splits dest: put_devices_err)

lemma update_zero: "update_where P f w = (Inr 0, w') \<Longrightarrow> w' = w"
proof -
  assume "update_where P f w = (Inr 0, w')"
  then have u: "w' = w\<lparr>w_devices := map (\<lambda>d. if P d then f d else d) (w_devices w)\<rparr>" "filter P (w_devices w) = []"
    by (auto simp: update_where_def split: option.splits prod.splits dest!: put_devices_ok)
  have "map (\<lambda>d. if P d then f d else d) (w_devices w) = w_devices w"
    using u(2) by (intro map_idI) (auto simp: filter_empty_conv)
  with u(1) show "w' = w" by simp
qed

subsection \<open>Creation and registration\<close>

lemma same_create_voucher: "create_voucher u r w = (x, w') \<Longrightarrow> same_view w w'"
  by (auto simp: create_voucher_def dest: same_config split: option.splits prod.splits sum.splits)

lemma quiet_create_device:
  assumes "K \<Longrightarrow> cr_parent r = None \<or> cr_sub_addr r = None" "create_device u t r s = (x, s')"
  shows "quiet K (ad_world s) (ad_world s')"
proof -
  obtain v w where v: "create_voucher u r (ad_world s) = (v, w)" by fastforce
  have same: "quiet K (ad_world s) w" using same_create_voucher [OF v] by (rule quiet_same)
  have create: "quiet K w (ad_world s1)"
    if c: "create_devices [d] (s\<lparr>ad_world := w\<rparr>) = (e, s1)" and "dev_parent_id d = cr_parent r" "dev_sub_device_addr d = cr_sub_addr r" for d e s1
    using quiet_create [OF c, of K] that(2,3) assms(1) by (auto simp: free_address_def)
  show ?thesis
    using assms(2) v same quiet_trans [OF same create] unfolding create_device_def Let_def
    by (auto split: if_splits sum.splits prod.splits option.splits)
qed

lemma batch_devices_top: "batch_devices u t rs w = Inr ds \<Longrightarrow> \<forall>d \<in> set ds. dev_parent_id d = None"
  by (induction u t rs w arbitrary: ds rule: batch_devices.induct)
    (auto simp: new_device_def split: if_splits sum.splits bool.splits)

lemma quiet_create_device_batch: "create_device_batch u t rs s = (x, s') \<Longrightarrow> quiet K (ad_world s) (ad_world s')"
  using batch_devices_top [of u t rs "ad_world s"] quiet_create [of _ s _ _ K]
  by (auto simp: create_device_batch_def split: sum.splits prod.splits option.splits)

lemma free_after_check:
  "\<not> get_sub_device_exists p a w \<Longrightarrow> dev_parent_id d = Some p \<Longrightarrow> dev_sub_device_addr d = Some a \<Longrightarrow> free_address d (w_devices w)"
  by (auto simp: get_sub_device_exists_def free_address_def)

lemma auth_parent_free: "auth_parent r w = Inr (p, a) \<Longrightarrow> \<not> get_sub_device_exists p a w"
  by (auto simp: auth_parent_def split: option.splits sum.splits if_splits)

text \<open>What a successful registration by a device inserts.\<close>

definition auth_device :: "(nat \<Rightarrow> string) \<Rightarrow> auth_req \<Rightarrow> device_config \<Rightarrow> (string \<times> string) option \<Rightarrow> device" where
  "auth_device u r c pa = (new_device (u 0) (aq_number r) (auth_voucher u c) (dc_tenant_id c))
     \<lparr>dev_is_enabled := ''enable'', dev_device_config_id := Some (dc_id c),
      dev_parent_id := map_option fst pa, dev_sub_device_addr := map_option snd pa,
      dev_name := (case opt_text (aq_name r) of Some n \<Rightarrow> Some n | None \<Rightarrow> Some (''Device_'' @ aq_number r))\<rparr>"

lemma auth_cases:
  assumes "auth u r s = (x, s')" "\<not> (isl x \<and> s' = s)"
  obtains c pa e where "config_by_secret (aq_secret r) (ad_world s) = Inr (Some c)" "dc_auto_register c = 1"
    and "get_device_by_device_number (aq_number r) (ad_world s) = Inl RecordNotFound"
    and "if dc_device_type c = ''3'' then pa \<noteq> None \<and> auth_parent r (ad_world s) = Inr (the pa) else pa = None"
    and "create_devices [auth_device u r c pa] s = (e, s')"
    and "x = (case e of None \<Rightarrow> Inr (dev_id (auth_device u r c pa), dev_voucher (auth_device u r c pa)) | Some _ \<Rightarrow> Inl code_db_error)"
proof -
  have err: "auth u r s \<noteq> (Inl e, s)" for e using assms by auto
  obtain c where c: "config_by_secret (aq_secret r) (ad_world s) = Inr (Some c)"
  proof (cases "config_by_secret (aq_secret r) (ad_world s)")
    case (Inr b)
    then show thesis using err that by (cases b) (auto simp: auth_def)
  qed (use err in \<open>auto simp: auth_def\<close>)
  have r: "dc_auto_register c = 1" by (rule ccontr) (use err c in \<open>auto simp: auth_def\<close>)
  have n: "get_device_by_device_number (aq_number r) (ad_world s) = Inl RecordNotFound"
  proof (cases "get_device_by_device_number (aq_number r) (ad_world s)")
    case (Inl e)
    have "e = RecordNotFound" by (rule ccontr) (use err c r Inl in \<open>auto simp: auth_def\<close>)
    with Inl show ?thesis by simp
  qed (use err c r in \<open>auto simp: auth_def\<close>)
  have p1: "\<not> (opt_text (aq_product r) \<noteq> None \<and> ad_fault ''products.first'' s \<noteq> None)"
    by (rule notI) (use err c r n in \<open>auto simp: auth_def\<close>)
  have p: "\<not> (opt_text (aq_product r) \<noteq> None \<and> the (opt_text (aq_product r)) \<notin> set (ad_products s))"
    by (rule notI) (use err c r n p1 in \<open>auto simp: auth_def\<close>)
  define q where "q = (if dc_device_type c = ''3'' then (case auth_parent r (ad_world s) of Inl e \<Rightarrow> Inl e | Inr pa \<Rightarrow> Inr (Some pa)) else Inr None)"
  have a: "auth u r s = (case q of Inl e \<Rightarrow> (Inl e, s) | Inr pa \<Rightarrow>
      (case create_devices [auth_device u r c pa] s of (Some e, s1) \<Rightarrow> (Inl code_db_error, s1)
       | (None, s1) \<Rightarrow> (Inr (dev_id (auth_device u r c pa), dev_voucher (auth_device u r c pa)), s1)))"
    unfolding auth_def c sum.case option.case n q_def auth_device_def Let_def
    by (simp only: r n p1 p if_False sum.case option.case simp_thms)
  obtain pa where pa: "q = Inr pa" using err a by (cases q) auto
  obtain e s1 where e: "create_devices [auth_device u r c pa] s = (e, s1)" by fastforce
  have "if dc_device_type c = ''3'' then pa \<noteq> None \<and> auth_parent r (ad_world s) = Inr (the pa) else pa = None"
    using pa by (auto simp: q_def split: if_splits sum.splits)
  then show thesis using that [OF c r n _ ] e a pa assms(1) by (cases e) auto
qed

lemma quiet_auth:
  assumes "auth u r s = (x, s')" shows "quiet K (ad_world s) (ad_world s')"
proof (cases "isl x \<and> s' = s")
  case False
  from auth_cases [OF assms this] obtain c pa e where
    p: "if dc_device_type c = ''3'' then pa \<noteq> None \<and> auth_parent r (ad_world s) = Inr (the pa) else pa = None"
    and c: "create_devices [auth_device u r c pa] s = (e, s')" by metis
  have "free_address (auth_device u r c pa) (w_devices (ad_world s))"
  proof (cases pa)
    case None
    then show ?thesis by (simp add: auth_device_def new_device_def free_address_def)
  next
    case (Some pq)
    then have "auth_parent r (ad_world s) = Inr (fst pq, snd pq)" using p by (simp split: if_splits)
    from auth_parent_free [OF this] show ?thesis by (rule free_after_check) (simp_all add: auth_device_def Some)
  qed
  then show ?thesis using c quiet_create [of "[auth_device u r c pa]" s _ s' K] by blast
qed simp

lemma quiet_gateway_register: "gateway_register u g t m s = (x, e, s') \<Longrightarrow> quiet K (ad_world s) (ad_world s')"
  using quiet_create [of _ s e s' K]
  by (auto simp: gateway_register_def Let_def new_device_def split: sum.splits)

lemma quiet_register_subs: "register_subs u g gw rs m s = (m', s') \<Longrightarrow> quiet K (ad_world s) (ad_world s')"
proof (induction u g gw rs m s rule: register_subs.induct)
  case (2 u g gateway a model r m s)
  show ?case
  proof (cases "get_sub_device_exists gateway a (ad_world s)")
    case True
    then show ?thesis using 2 by simp
  next
    case False
    let ?d = "(new_device (u 0) (u 2) (username_voucher (u 1)) (dev_tenant_id g))
                 \<lparr>dev_name := Some model, dev_parent_id := Some gateway, dev_sub_device_addr := Some a,
                  dev_device_config_id := opt_text (get_device_config_id_by_name model (ad_world s)), dev_is_online := 1\<rparr>"
    obtain e s1 where c: "create_devices [?d] s = (e, s1)" by fastforce
    have "free_address ?d (w_devices (ad_world s))" using False by (rule free_after_check) simp_all
    then have "quiet K (ad_world s) (ad_world s1)" using quiet_create [OF c, of K] by blast
    moreover have "quiet K (ad_world s1) (ad_world s')"
      using 2(2) [OF False refl c [symmetric]] 2(3) False c by (simp add: Let_def)
    ultimately show ?thesis by (rule quiet_trans)
  qed
qed simp

subsection \<open>Changes and removal\<close>

lemma quiet_remove_sub:
  assumes "remove_sub_device i t s = Some (x, s')" "\<forall>k. w_redis_fault (ad_world s) ''del'' k = None"
  shows "quiet K (ad_world s) (ad_world s')"
proof -
  let ?P = "\<lambda>x. dev_id x = i \<and> dev_tenant_id x = t" and ?f = "\<lambda>x. x\<lparr>dev_parent_id := None, dev_sub_device_addr := None\<rparr>"
  obtain r w where u: "update_where ?P ?f (ad_world s) = (r, w)" by fastforce
  have q: "quiet K (ad_world s) (snd (del_device_cache i w2))" if "r = Inr n" "same_view w w2" for n w2
    by (rule quiet_update [OF u [unfolded that(1)] that(2) assms(2)]) simp_all
  show ?thesis
    using assms(1) u q update_none [of ?P ?f "ad_world s"] update_zero [of ?P ?f "ad_world s" w]
    by (auto simp: remove_sub_device_def ad_del_cache_def on_world_def split: sum.splits if_splits option.splits
        dest!: same_disconnect)
qed

lemma same_renumber: "renumber r d s = Some (e, s') \<Longrightarrow> same_view (ad_world s) (ad_world s')"
  by (auto simp: renumber_def dest!: same_config same_disconnect split: option.splits if_splits sum.splits bool.splits prod.splits
      intro: same_trans)

lemma update_target_row: "update_target r w = Inr d \<Longrightarrow> d \<in> set (w_devices w) \<and> w_db_fault w ''devices.first'' = None"
  by (auto simp: update_target_def dal_get_device_def get_device_by_device_number_def find_Some_iff
      split: if_splits option.splits sum.splits)

lemma dal_get_some: "d \<in> set (w_devices w) \<Longrightarrow> w_db_fault w ''devices.first'' = None \<Longrightarrow> \<exists>x. dal_get_device (dev_id d) w = Inr x"
  by (auto simp: dal_get_device_def find_None_iff split: option.split)

lemma quiet_update_device:
  assumes "update_device t r s = Some (x, s')" "\<forall>k. w_redis_fault (ad_world s) ''del'' k = None"
    and "K \<Longrightarrow> uq_parent r = None \<and> uq_sub_addr r = None"
  shows "quiet K (ad_world s) (ad_world s')"
proof (cases "update_target r (ad_world s)")
  case (Inr d)
  show ?thesis
  proof (cases "dev_tenant_id d = t")
    case True
    obtain e s1 where rn: "renumber r d s = Some (e, s1)"
      using assms(1) Inr True by (auto simp: update_device_def bind_eq_Some_conv)
    have v1: "same_view (ad_world s) (ad_world s1)" by (rule same_renumber [OF rn])
    let ?P = "\<lambda>x. dev_id x = dev_id d"
    obtain q w where u: "update_where ?P (changed_by r) (ad_world s1) = (q, w)" by fastforce
    have d: "d \<in> set (w_devices (ad_world s1))" "w_db_fault (ad_world s1) ''devices.first'' = None"
      using update_target_row [OF Inr] v1 by (simp_all add: same_view_def)
    have row: "\<exists>x. dal_get_device (dev_id d) w = Inr x" if "q = Inr n" for n
    proof -
      have "w = (ad_world s1)\<lparr>w_devices := map (\<lambda>x. if ?P x then changed_by r x else x) (w_devices (ad_world s1))\<rparr>"
        using u that by (auto simp: update_where_def split: option.splits prod.splits dest!: put_devices_ok)
      then have "changed_by r d \<in> set (w_devices w)" "w_db_fault w ''devices.first'' = None" using d by force+
      from dal_get_some [OF this] show ?thesis by (simp add: changed_by_def)
    qed
    have q: "quiet K (ad_world s1) (snd (del_device_cache (dev_id d) w))" if "q = Inr n" for n
      by (rule quiet_update [OF u [unfolded that]]) (use assms(2,3) v1 in \<open>auto simp: same_view_def changed_by_def\<close>)
    have q': "quiet K (ad_world s) (snd (del_device_cache (dev_id d) w))" if "q = Inr n" for n
      using quiet_trans [OF quiet_same [OF v1] q [OF that]] .
    have z: "same_view (ad_world s) w" if "q = Inl e \<or> q = Inr 0" for e
      using that u v1 update_none [of ?P "changed_by r" "ad_world s1"] update_zero [of ?P "changed_by r" "ad_world s1" w] by auto
    show ?thesis
    proof (cases "e = None \<and> json_or_absent (uq_additional_info r) \<and> json_or_absent (uq_protocol_config r)")
      case False
      then have "s' = s1" using assms(1) Inr True rn by (auto simp: update_device_def split: option.splits if_splits)
      with v1 show ?thesis by (simp add: quiet_same)
    next
      case ok: True
      show ?thesis
      proof (cases q)
        case (Inl e)
        then have "ad_world s' = w" using assms(1) Inr True rn ok u by (auto simp: update_device_def)
        then show ?thesis using z Inl by (simp add: quiet_same)
      next
        case n: (Inr n)
        show ?thesis
        proof (cases "n = 0")
          case zero: True
          then have "ad_world s' = w" using assms(1) Inr True rn ok u n by (auto simp: update_device_def)
          then show ?thesis using z n zero by (simp add: quiet_same)
        next
          case False
          obtain y where y: "dal_get_device (dev_id d) w = Inr y" using row [OF n] by blast
          have "same_view (snd (del_device_cache (dev_id d) w)) (ad_world s')"
            using assms(1) Inr True rn ok u n False y
            by (auto simp: update_device_def Let_def ad_del_cache_def on_world_def split: if_splits dest!: same_disconnect)
          then show ?thesis using quiet_trans [OF q' [OF n] quiet_same] by blast
        qed
      qed
    qed
  qed (use assms(1) Inr in \<open>auto simp: update_device_def\<close>)
qed (use assms(1) in \<open>auto simp: update_device_def\<close>)

lemma same_config_blocked: "config_blocked d w = (e, w') \<Longrightarrow> same_view w w'"
  by (auto simp: config_blocked_def dest!: same_config split: option.splits prod.splits sum.splits)

lemma quiet_update_config:
  assumes "update_device_config i c s = (x, s')" "\<forall>k. w_redis_fault (ad_world s) ''del'' k = None"
  shows "quiet K (ad_world s) (ad_world s')"
proof (cases "dal_get_device i (ad_world s)")
  case (Inr d)
  obtain e w where b: "config_blocked d (ad_world s) = (e, w)" by fastforce
  have v: "same_view (ad_world s) w" by (rule same_config_blocked [OF b])
  let ?P = "\<lambda>x. dev_id x = i" and ?f = "\<lambda>x. x\<lparr>dev_device_config_id := opt_text c\<rparr>"
  obtain q w1 where u: "update_where ?P ?f w = (q, w1)" by fastforce
  have q: "quiet K (ad_world s) (snd (del_device_cache i w1))" if "q = Inr n" for n
    using quiet_trans [OF quiet_same [OF v] quiet_update [OF u [unfolded that] same_refl]] assms(2) v by (simp add: same_view_def)
  have z: "quiet K (ad_world s) w1" if "q = Inl e \<or> q = Inr 0" for e
    using that u v update_none [of ?P ?f w] update_zero [of ?P ?f w w1] by auto
  show ?thesis
    using assms(1) Inr b u q z v
    by (auto simp: update_device_config_def ad_del_cache_def on_world_def split: option.splits if_splits sum.splits)
qed (use assms(1) in \<open>auto simp: update_device_config_def\<close>)

lemma same_voucher_notice: "voucher_notice d s = Some s' \<Longrightarrow> same_view (ad_world s) (ad_world s')"
  by (auto simp: voucher_notice_def dest!: same_config same_disconnect split: option.splits prod.splits sum.splits if_splits
      intro: same_trans)

lemma quiet_update_voucher:
  assumes "update_device_voucher i j s = Some (x, s')" "\<forall>k. w_redis_fault (ad_world s) ''del'' k = None"
  shows "quiet K (ad_world s) (ad_world s')"
proof -
  define v where "v = (case j of JStr t \<Rightarrow> t | _ \<Rightarrow> json_print j)"
  let ?P = "\<lambda>x. dev_id x = i" and ?f = "\<lambda>x. x\<lparr>dev_voucher := v\<rparr>"
  obtain q w where u: "update_where ?P ?f (ad_world s) = (q, w)" by fastforce
  have q: "quiet K (ad_world s) (snd (del_device_cache i w))" if "q = Inr n" for n
    using quiet_update [OF u [unfolded that] same_refl assms(2)] by simp
  have notice: "same_view w1 (ad_world s2)" if "voucher_notice d (s1\<lparr>ad_world := snd (redis_del k w1)\<rparr>) = Some s2" for d k s1 s2 w1
    using same_trans [OF same_redis_del same_voucher_notice [OF that, simplified]] by simp
  show ?thesis
  proof (cases "ad_world s' = ad_world s")
    case False
    then obtain n where n: "q = Inr n"
      using assms(1) u update_none [of ?P ?f "ad_world s"]
      by (cases q) (auto simp: update_device_voucher_def v_def [symmetric] Let_def split: sum.splits if_splits bool.splits)
    have found: "(case r of Inl e \<Rightarrow> None | Inr d \<Rightarrow> Some (Inr (dev_voucher d), s2)) = Some (x, s') \<longleftrightarrow>
        s2 = s' \<and> (\<exists>d. r = Inr d \<and> x = Inr (dev_voucher d))" for r s2
      by (cases r) auto
    have "same_view (snd (del_device_cache i w)) (ad_world s')"
      using assms(1) False u n
      by (auto simp: update_device_voucher_def v_def [symmetric] Let_def bind_eq_Some_conv found ad_del_cache_def on_world_def
          split: sum.splits if_splits bool.splits dest!: notice)
    then show ?thesis using quiet_trans [OF q [OF n] quiet_same] by blast
  qed simp
qed

lemma same_id_row: "distinct (map dev_id ds) \<Longrightarrow> x \<in> set ds \<Longrightarrow> y \<in> set ds \<Longrightarrow> dev_id x = dev_id y \<Longrightarrow> x = y"
  by (simp add: distinct_map inj_on_def)

lemma quiet_active_device:
  assumes "active_device u n m s = (x, s')" "\<forall>k. w_redis_fault (ad_world s) ''del'' k = None"
    and "distinct (map dev_id (w_devices (ad_world s)))"
  shows "quiet K (ad_world s) (ad_world s')"
proof (cases "isl x \<and> s' = s")
  case False
  let ?n = "trim_space n"
  obtain d where d: "get_device_by_device_number ?n (ad_world s) = Inr d"
    using assms(1) False by (cases "get_device_by_device_number ?n (ad_world s)") (auto simp: active_device_def Let_def)
  have mem: "d \<in> set (w_devices (ad_world s))"
    using d by (auto simp: get_device_by_device_number_def find_Some_iff split: option.splits)
  define d' where "d' = d\<lparr>dev_device_number := ?n, dev_name := Some (if trim_space m = '''' then take 8 (u 0) else trim_space m),
                            dev_activate_flag := ''active''\<rparr>"
  let ?P = "\<lambda>x. dev_id x = dev_id d" and ?f = "\<lambda>x :: device. d'"
  obtain q w where u: "update_where ?P ?f (ad_world s) = (q, w)" by fastforce
  have ids: "x = d" if "x \<in> set (w_devices (ad_world s))" "dev_id x = dev_id d" for x
    using same_id_row [OF assms(3) that(1) mem that(2)] .
  have q: "quiet K (ad_world s) (snd (del_device_cache (dev_id d) w))" if "q = Inr k" for k
    by (rule quiet_update [OF u [unfolded that] same_refl assms(2)]) (auto simp: d'_def dest: ids)
  have z: "quiet K (ad_world s) w" if "q = Inl e \<or> q = Inr 0" for e
    using that u update_none [of ?P ?f "ad_world s"] update_zero [of ?P ?f "ad_world s" w] by auto
  show ?thesis
    using assms(1) False d u q z
    by (auto simp: active_device_def Let_def d'_def [symmetric] ad_del_cache_def on_world_def split: if_splits sum.splits)
qed simp

lemma same_delete_tables: "delete_tables i ts s = (e, s') \<Longrightarrow> same_view (ad_world s) (ad_world s')"
proof (induction ts arbitrary: s)
  case (Cons t ts)
  have "same_view (ad_world s) (ad_world (delete_rows i t s))"
    by (cases t) (simp_all add: delete_rows_def on_world_def same_view_def)
  then show ?case using Cons by (auto split: option.splits intro: same_trans)
qed simp

lemma delete_device_row_view:
  assumes "delete_device_row i t s = (None, s')" "distinct (map dev_id (w_devices (ad_world s)))"
    and "\<forall>k. w_redis_fault (ad_world s) ''del'' k = None"
  shows "quiet K (ad_world s) (snd (del_device_cache i (ad_world s')))"
proof -
  let ?w = "ad_world s"
  have "world_view (snd (del_device_cache i (ad_world s'))) = (filter (\<lambda>d. dev_id d \<noteq> i) (w_devices ?w), (w_device_cache ?w)(i := None)) \<or>
      world_view (snd (del_device_cache i (ad_world s'))) = (w_devices ?w, (w_device_cache ?w)(i := None))"
    using assms(1,3) by (auto simp: delete_device_row_def world_view_def del_device_cache_def on_world_def split: option.splits if_splits)
  then have "moves K (w_configs ?w) (world_view ?w) (world_view (snd (del_device_cache i (ad_world s'))))"
    by (auto simp: world_view_def intro: m_remove [OF m_refl] m_evict [OF m_refl])
  then show ?thesis
    using assms(1,3) by (auto simp: quiet_def delete_device_row_def del_device_cache_def on_world_def split: option.splits if_splits)
qed

lemma quiet_delete:
  assumes "delete_device i t s = Some (x, s')" "distinct (map dev_id (w_devices (ad_world s)))"
    and "\<forall>k. w_redis_fault (ad_world s) ''del'' k = None"
  shows "quiet K (ad_world s) (ad_world s')"
proof (cases "s' = s")
  case False
  obtain e1 s1 where t: "delete_tables i delete_order s = (e1, s1)" by fastforce
  obtain e2 s2 where r: "delete_device_row i t s1 = (e2, s2)" by fastforce
  have none: "e1 = None" "e2 = None"
      and d: "\<exists>k. disconnect i (on_world (\<lambda>w. snd (redis_del k w)) (ad_del_cache i s2)) = Some s'"
    using assms(1) False t r by (auto simp: delete_device_def Let_def split: sum.splits if_splits option.splits)
  have v: "same_view (ad_world s) (ad_world s1)" by (rule same_delete_tables [OF t])
  have "quiet K (ad_world s1) (snd (del_device_cache i (ad_world s2)))"
    using delete_device_row_view [of i t s1 s2 K] r none(2) v assms(2,3) by (simp add: same_view_def)
  moreover have "same_view (snd (del_device_cache i (ad_world s2))) (ad_world s')"
    using d by (auto simp: on_world_def ad_del_cache_def dest!: same_disconnect intro: same_trans [OF same_redis_del])
  ultimately show ?thesis using v by (blast intro: quiet_trans)
qed simp

section \<open>Runs of operations\<close>

text \<open>The operations that keep the addresses below a gateway apart, and all but the binding to a gateway,
  which keep the cache.\<close>

definition keeps :: "bool \<Rightarrow> admin_op \<Rightarrow> bool" where
  "keeps K op \<longleftrightarrow> (case op of
      BindSons _ _ \<Rightarrow> False
    | Create _ _ r \<Rightarrow> K \<longrightarrow> cr_parent r = None \<or> cr_sub_addr r = None
    | Update _ r \<Rightarrow> K \<longrightarrow> uq_parent r = None \<and> uq_sub_addr r = None
    | _ \<Rightarrow> True)"

lemma admin_step_quiet:
  assumes "admin_step op s = Some s'" "keeps K op" "\<forall>k. w_redis_fault (ad_world s) ''del'' k = None"
    and "distinct (map dev_id (w_devices (ad_world s)))"
  shows "quiet K (ad_world s) (ad_world s')"
proof (cases op)
  case (Create u t r)
  then show ?thesis using assms(1,2) quiet_create_device [of K r u t s _ s']
    by (cases "create_device u t r s") (auto simp: admin_step_def keeps_def)
next
  case (CreateBatch u t rs)
  then show ?thesis using assms(1) quiet_create_device_batch [of u t rs s _ s']
    by (cases "create_device_batch u t rs s") (auto simp: admin_step_def)
next
  case (Auth u r)
  then show ?thesis using assms(1) quiet_auth [of u r s _ s'] by (cases "auth u r s") (auto simp: admin_step_def)
next
  case (RegisterGateway u g t m)
  then show ?thesis using assms(1) quiet_gateway_register [of u g t m s _ _ s']
    by (cases "gateway_register u g t m s") (auto simp: admin_step_def)
next
  case (RegisterSubs u g rs)
  then show ?thesis using assms(1) quiet_register_subs [of u _ g rs _ s _ s']
    by (auto simp: admin_step_def gateway_device_register_def split: sum.splits prod.splits)
next
  case (RemoveSub i t)
  then show ?thesis using assms(1,3) quiet_remove_sub [of i t s _ s'] by (auto simp: admin_step_def)
next
  case (Update t r)
  then show ?thesis using assms(1,2,3) quiet_update_device [of t r s _ s' K] by (auto simp: admin_step_def keeps_def)
next
  case (UpdateConfig i c)
  then show ?thesis using assms(1,3) quiet_update_config [of i c s _ s']
    by (cases "update_device_config i c s") (auto simp: admin_step_def)
next
  case (UpdateVoucher i j)
  then show ?thesis using assms(1,3) quiet_update_voucher [of i j s _ s'] by (auto simp: admin_step_def)
next
  case (Activate u n m)
  then show ?thesis using assms(1,3,4) quiet_active_device [of u n m s _ s']
    by (cases "active_device u n m s") (auto simp: admin_step_def)
next
  case (Delete i t)
  then show ?thesis using assms(1,3,4) quiet_delete [of i t s _ s'] by (auto simp: admin_step_def)
qed (use assms(2) in \<open>simp add: keeps_def\<close>)

lemma admin_run_quiet:
  assumes "admin_run ops s = Some s'" "list_all (keeps K) ops" "\<forall>k. w_redis_fault (ad_world s) ''del'' k = None"
    and "table_ok (w_configs (ad_world s)) (w_devices (ad_world s))"
  shows "quiet K (ad_world s) (ad_world s')"
  using assms
proof (induction ops arbitrary: s)
  case (Cons op ops)
  obtain s1 where s1: "admin_step op s = Some s1" "admin_run ops s1 = Some s'" using Cons.prems(1) by (auto simp: bind_eq_Some_conv)
  have ids: "distinct (map dev_id (w_devices (ad_world s)))" using Cons.prems(4) by (simp add: table_ok_def device_constraints_def)
  have q: "quiet K (ad_world s) (ad_world s1)" using admin_step_quiet [OF s1(1) _ Cons.prems(3) ids] Cons.prems(2) by simp
  then have "table_ok (w_configs (ad_world s1)) (w_devices (ad_world s1))"
    using moves_table_ok [of K _ "world_view (ad_world s)"] Cons.prems(4) unfolding quiet_def world_view_def by (metis fst_conv)
  then have "quiet K (ad_world s1) (ad_world s')"
    using Cons.IH [OF s1(2)] Cons.prems(2,3) q by (simp add: quiet_def)
  with q show ?case by (rule quiet_trans)
qed simp

section \<open>Properties\<close>


text \<open>Registration keeps sub-devices apart. Along every run of operations that do not set parent
  and address by hand (registration by the device itself, registration of sub-devices by their
  gateway, and all the rest but binding), no two devices below one gateway ever have the same
  address.\<close>
theorem registration_keeps_addresses:
  assumes "admin_run ops s = Some s'" "list_all (keeps True) ops" "\<forall>k. w_redis_fault (ad_world s) ''del'' k = None"
    and "table_ok (w_configs (ad_world s)) (w_devices (ad_world s))" "unique_children (w_devices (ad_world s))"
  shows "unique_children (w_devices (ad_world s'))"
proof -
  have "moves True (w_configs (ad_world s)) (w_devices (ad_world s), w_device_cache (ad_world s))
      (w_devices (ad_world s'), w_device_cache (ad_world s'))"
    using admin_run_quiet [OF assms(1-4)] by (simp add: quiet_def world_view_def)
  from moves_unique_children [OF this] assms(4,5) show ?thesis by (simp add: table_ok_def)
qed

section \<open>Binding\<close>

lemma find_by_id:
  "distinct (map dev_id ds) \<Longrightarrow> find (\<lambda>d. dev_id d = i) ds = Some r \<longleftrightarrow> r \<in> set ds \<and> dev_id r = i"
  by (induction ds) auto

lemma table_ids: "table_ok cs ds \<Longrightarrow> distinct (map dev_id ds)"
  by (simp add: table_ok_def device_constraints_def)

text \<open>An update that keeps ids, numbers, vouchers and configurations is accepted.\<close>

lemma update_accepted:
  assumes "w_db_fault w ''devices.update'' = None" "device_constraints (w_configs w) (w_devices w)"
    and "\<And>d. dev_id (f d) = dev_id d \<and> dev_device_number (f d) = dev_device_number d \<and> dev_voucher (f d) = dev_voucher d \<and>
      dev_device_config_id (f d) = dev_device_config_id d"
  shows "update_where P f w = (Inr (length (filter P (w_devices w))), w\<lparr>w_devices := map (\<lambda>d. if P d then f d else d) (w_devices w)\<rparr>)"
proof -
  have same: "map g (map (\<lambda>d. if P d then f d else d) (w_devices w)) = map g (w_devices w)" if "\<And>d. g (f d) = g d" for g :: "device \<Rightarrow> 'b"
    using that by auto
  have "device_constraints (w_configs w) (map (\<lambda>d. if P d then f d else d) (w_devices w))"
    using assms(2,3) unfolding device_constraints_def by (subst same, simp)+ auto
  then show ?thesis using assms(1) by (simp add: update_where_def put_devices_def)
qed

text \<open>A gateway or sub-device that has no gateway is bound, for a gateway reached over MQTT.\<close>

definition bindable :: "string \<Rightarrow> string \<Rightarrow> admin \<Rightarrow> device \<Rightarrow> bool" where
  "bindable gateway i s d \<longleftrightarrow> device_row (ad_world s) i = Some d \<and> dev_parent_id d = None \<and> CHR '','' \<notin> set i \<and>
     (\<forall>q. ad_fault q s = None) \<and> table_ok (w_configs (ad_world s)) (w_devices (ad_world s)) \<and>
     (case Option.bind (dev_device_config_id d) (config_row (ad_world s)) of
        None \<Rightarrow> False | Some c \<Rightarrow> dc_device_type c \<in> {''2'', ''3''}) \<and>
     disconnect gateway (on_world (\<lambda>w. w\<lparr>w_devices := map (\<lambda>x. if dev_id x = i
        then x\<lparr>dev_parent_id := Some gateway, dev_sub_device_addr := Some i\<rparr> else x) (w_devices w)\<rparr>) s) \<noteq> None"

lemma bound:
  assumes "bindable gateway i s d"
  obtains s' where "create_son_device gateway i s = Some (None, s')"
    and "device_row (ad_world s') i = Some (d\<lparr>dev_parent_id := Some gateway, dev_sub_device_addr := Some i\<rparr>)"
    and "w_device_cache (ad_world s') = w_device_cache (ad_world s)"
    and "w_redis_fault (ad_world s') = w_redis_fault (ad_world s)" "w_db_fault (ad_world s') = w_db_fault (ad_world s)"
proof -
  let ?w = "ad_world s" and ?f = "\<lambda>x. x\<lparr>dev_parent_id := Some gateway, dev_sub_device_addr := Some i\<rparr>"
  have d: "device_row ?w i = Some d" "dev_parent_id d = None" and t: "table_ok (w_configs ?w) (w_devices ?w)"
    and nf: "\<And>q. w_db_fault ?w q = None"
    using assms by (simp_all add: bindable_def ad_fault_def)
  obtain c where c: "dev_device_config_id d = Some (dc_id c)" "config_row ?w (dc_id c) = Some c" "dc_device_type c \<in> {''2'', ''3''}"
    using assms by (auto simp: bindable_def config_row_def bind_eq_Some_conv split: option.splits dest: find_Some_iff_mem)
  have mem: "d \<in> set (w_devices ?w)" "dev_id d = i"
    using d(1) find_by_id [OF table_ids [OF t]] by (simp_all add: device_row_def)
  have only: "x = d" if "x \<in> set (w_devices ?w)" "dev_id x = i" for x
    using same_id_row [OF table_ids [OF t] that(1) mem(1)] that(2) mem(2) by simp
  have "find (\<lambda>x. dev_id x = i \<and> dev_parent_id x = None \<and> dev_device_config_id x \<noteq> None) (w_devices ?w) = Some d"
  proof -
    obtain y where y: "find (\<lambda>x. dev_id x = i \<and> dev_parent_id x = None \<and> dev_device_config_id x \<noteq> None) (w_devices ?w) = Some y"
      using mem d(2) c(1) by (cases "find (\<lambda>x. dev_id x = i \<and> dev_parent_id x = None \<and> dev_device_config_id x \<noteq> None) (w_devices ?w)")
        (auto simp: find_None_iff)
    with find_Some_iff_mem [OF y] only show ?thesis by blast
  qed
  then have row: "son_row i ?w = Inr d" using nf by (simp add: son_row_def)
  have cfg: "config_first (dc_id c) ?w = Inr c" using c(2) nf by (simp add: config_first_def config_row_def)
  let ?w1 = "?w\<lparr>w_devices := map (\<lambda>x. if dev_id x = i then ?f x else x) (w_devices ?w)\<rparr>"
  have u: "update_where (\<lambda>x. dev_id x = i) ?f ?w = (Inr (length (filter (\<lambda>x. dev_id x = i) (w_devices ?w))), ?w1)"
    by (rule update_accepted) (use nf t in \<open>simp_all add: table_ok_def\<close>)
  obtain s' where s': "disconnect gateway (s\<lparr>ad_world := ?w1\<rparr>) = Some s'" using assms by (auto simp: bindable_def on_world_def)
  have v: "same_view ?w1 (ad_world s')" using same_disconnect [OF s'] by simp
  have "bind_son gateway i s = Some (None, s')"
    using row cfg c(1,3) u s' by (auto simp: bind_son_def)
  then have "create_son_device gateway i s = Some (None, s')"
    using assms by (simp add: create_son_device_def bindable_def)
  moreover have "device_row (ad_world s') i = Some (?f d)"
  proof -
    have e: "map dev_id (w_devices ?w1) = map dev_id (w_devices ?w)" by simp
    have "distinct (map dev_id (w_devices ?w1))" unfolding e by (rule table_ids [OF t])
    moreover have "?f d \<in> set (w_devices ?w1)" using mem by force
    moreover have "dev_id (?f d) = i" using mem(2) by simp
    ultimately have "find (\<lambda>x. dev_id x = i) (w_devices ?w1) = Some (?f d)" using find_by_id by blast
    then show ?thesis using v by (simp add: device_row_def same_view_def)
  qed
  ultimately show thesis using that v by (simp add: same_view_def)
qed

text \<open>Binding a device to a gateway does not reach its cached readers. When a device without
  gateway whose entry is cached is bound, its row names the gateway and its new address, but every
  cached read still gives the device without them; so its data goes on being handled as that of a
  device without gateway until the entry is evicted otherwise.\<close>
theorem binding_forgets_cache:
  assumes "bindable gateway i s d" "w_device_cache (ad_world s) i = Some d" "w_redis_fault (ad_world s) ''get'' i = None"
  shows "\<exists>s'. create_son_device gateway i s = Some (None, s') \<and>
    device_row (ad_world s') i = Some (d\<lparr>dev_parent_id := Some gateway, dev_sub_device_addr := Some i\<rparr>) \<and>
    get_device_cache_by_id i (ad_world s') = (Inr d, ad_world s') \<and> dev_parent_id d = None"
proof -
  obtain s' where "create_son_device gateway i s = Some (None, s')"
      "device_row (ad_world s') i = Some (d\<lparr>dev_parent_id := Some gateway, dev_sub_device_addr := Some i\<rparr>)"
      "w_device_cache (ad_world s') = w_device_cache (ad_world s)" "w_redis_fault (ad_world s') = w_redis_fault (ad_world s)"
    using bound [OF assms(1)] by metis
  then show ?thesis using assms by (intro exI [of _ s']) (simp add: get_device_cases bindable_def)
qed

text \<open>Reading a gateway that is its own parent never ends.\<close>

lemma build_nested_cycle:
  assumes "build_nested g a p w = Some r" "dev_parent_id g = Some i"
    and "\<And>w. R w \<Longrightarrow> \<exists>w'. get_device_cache_by_id i w = (Inr g, w') \<and> R w'" "R w"
  shows False
  using assms
proof (induction rule: build_nested.raw_induct [rotated, consumes 1, case_names step])
  case (step run g' a p w r)
  obtain w' where w': "get_device_cache_by_id i w = (Inr g', w')" "R w'" using step.prems(2,3) by blast
  from step.hyps step.prems(1) w'(1) obtain q where "run g' a p w' = Some q" by (auto simp: Option.bind_eq_Some_conv)
  from step.IH [OF this step.prems(1,2) w'(2)] show ?case .
qed

text \<open>A gateway can be bound to itself, and then sending to a sub-device below it never returns.
  Binding a gateway without parent to itself succeeds; afterwards, when the gateway is not cached,
  nesting a message for any of its sub-devices recurses without end.\<close>
theorem self_binding_never_returns:
  assumes "bindable i i s g" "w_device_cache (ad_world s) i = None"
    and "w_redis_fault (ad_world s) = (\<lambda>_ _. None)"
    and "dev_parent_id d = Some i" "dev_sub_device_addr d \<noteq> None"
  shows "\<exists>s'. create_son_device i i s = Some (None, s') \<and> transform_down p d ''3'' (ad_world s') = None"
proof -
  obtain s' where s': "create_son_device i i s = Some (None, s')"
      "device_row (ad_world s') i = Some (g\<lparr>dev_parent_id := Some i, dev_sub_device_addr := Some i\<rparr>)"
      "w_device_cache (ad_world s') = w_device_cache (ad_world s)"
      "w_redis_fault (ad_world s') = w_redis_fault (ad_world s)" "w_db_fault (ad_world s') = w_db_fault (ad_world s)"
    using bound [OF assms(1)] by metis
  let ?g = "g\<lparr>dev_parent_id := Some i, dev_sub_device_addr := Some i\<rparr>"
  define R where "R w \<longleftrightarrow> device_row w i = Some ?g \<and> (w_device_cache w i = None \<or> w_device_cache w i = Some ?g) \<and>
      w_redis_fault w = (\<lambda>_ _. None) \<and> (\<forall>q. w_db_fault w q = None)" for w
  have step: "\<exists>w'. get_device_cache_by_id i w = (Inr ?g, w') \<and> R w'" if "R w" for w
    using that by (auto simp: R_def get_device_cases load_device_def dal_get_device_def device_row_def)
  have "R (ad_world s')" using s' assms(1-3) by (simp add: R_def bindable_def ad_fault_def)
  from step [OF this] obtain w' where w': "get_device_cache_by_id i (ad_world s') = (Inr ?g, w')" "R w'" by blast
  have "build_nested ?g a p w' = None" for a
  proof (cases "build_nested ?g a p w'")
    case (Some r)
    have "dev_parent_id ?g = Some i" by simp
    from build_nested_cycle [OF Some this step w'(2)] show ?thesis by simp
  qed
  then have "transform_down p d ''3'' (ad_world s') = None"
    using assms(4,5) w'(1) by (auto simp: transform_down_def)
  with s'(1) show ?thesis by blast
qed

section \<open>Deletion and registration\<close>

lemma delete_tables_rows:
  "delete_tables i ts s = (None, s') \<Longrightarrow> s' = foldl (\<lambda>s t. delete_rows i t s) s ts"
  by (induction ts arbitrary: s) (auto split: option.splits)


text \<open>C12: A device registers itself once, and only where it is allowed to. When the registration by
  secret and number succeeds, the secret is that of a configuration that permits it, the number was
  new, and exactly one device has been added to the table, with that number, configuration and
  tenant and, for a sub-device, below an existing device under an address unused there; and trying
  again with the same request is refused.\<close>
theorem registered_once:
  assumes "auth u r s = (Inr (i, v), s')" "ad_fault ''devices.first'' s = None"
  shows "\<exists>c d. config_by_secret (aq_secret r) (ad_world s) = Inr (Some c) \<and> dc_auto_register c = 1 \<and>
    (\<forall>x \<in> set (w_devices (ad_world s)). dev_device_number x \<noteq> aq_number r) \<and>
    w_devices (ad_world s') = insort_key dev_id d (w_devices (ad_world s)) \<and>
    dev_id d = i \<and> dev_voucher d = v \<and> dev_device_number d = aq_number r \<and> dev_device_config_id d = Some (dc_id c) \<and>
    dev_tenant_id d = dc_tenant_id c \<and>
    (dc_device_type c = ''3'' \<longrightarrow> (\<exists>p \<in> set (w_devices (ad_world s)). dev_parent_id d = Some (dev_id p) \<and>
       dev_sub_device_addr d = aq_sub_addr r \<and> (\<forall>x \<in> set (w_devices (ad_world s)).
         dev_parent_id x = Some (dev_id p) \<longrightarrow> dev_sub_device_addr x \<noteq> aq_sub_addr r))) \<and>
    auth u' r s' = (Inl (err_code 200082), s')"
proof -
  have "\<not> (isl (Inr (i, v) :: (string \<times> string) res) \<and> s' = s)" by simp
  then show ?thesis
  proof (rule auth_cases [OF assms(1)])
    fix c pa e assume
      c: "config_by_secret (aq_secret r) (ad_world s) = Inr (Some c)" "dc_auto_register c = 1"
      and n: "get_device_by_device_number (aq_number r) (ad_world s) = Inl RecordNotFound"
      and p: "if dc_device_type c = ''3'' then pa \<noteq> None \<and> auth_parent r (ad_world s) = Inr (the pa) else pa = None"
      and cr: "create_devices [auth_device u r c pa] s = (e, s')"
      and x: "Inr (i, v) = (case e of None \<Rightarrow> Inr (dev_id (auth_device u r c pa), dev_voucher (auth_device u r c pa)) | Some _ \<Rightarrow> Inl code_db_error)"
    let ?d = "auth_device u r c pa" and ?w = "ad_world s"
    have e: "e = None" "dev_id ?d = i" "dev_voucher ?d = v" using x by (simp_all split: option.splits)
    have f: "w_db_fault ?w ''devices.first'' = None" using assms(2) by (simp add: ad_fault_def)
    have new: "\<forall>x \<in> set (w_devices ?w). dev_device_number x \<noteq> aq_number r"
    proof -
      have "find (\<lambda>x. dev_device_number x = aq_number r) (w_devices ?w) = None"
        using n f by (cases "find (\<lambda>x. dev_device_number x = aq_number r) (w_devices ?w)") (simp_all add: get_device_by_device_number_def)
      then show ?thesis unfolding find_None_iff by blast
    qed
    have ins: "insert_devices [?d] ?w = (None, ad_world s')"
      using cr e(1) by (auto simp: create_devices_def Let_def split: prod.splits option.splits if_splits list.splits)
    then have s': "ad_world s' = ?w\<lparr>w_devices := insort_key dev_id ?d (w_devices ?w)\<rparr>"
      by (auto simp: insert_devices_def split: option.splits dest!: put_devices_ok)
    have d: "dev_device_number ?d = aq_number r" "dev_device_config_id ?d = Some (dc_id c)" "dev_tenant_id ?d = dc_tenant_id c"
      by (simp_all add: auth_device_def new_device_def)
    have again: "auth u' r s' = (Inl (err_code 200082), s')"
    proof -
      have "config_by_secret (aq_secret r) (ad_world s') = Inr (Some c)" using c(1) unfolding s' by (simp add: config_by_secret_def cong: option.case_cong)
      moreover have "\<exists>x. get_device_by_device_number (aq_number r) (ad_world s') = Inr x"
      proof (cases "find (\<lambda>x. dev_device_number x = aq_number r) (w_devices (ad_world s'))")
        case None
        then have "dev_device_number ?d \<noteq> aq_number r" unfolding find_None_iff s' by (auto simp: set_insort_key)
        with d(1) show ?thesis by simp
      next
        case (Some y)
        with f show ?thesis by (simp add: get_device_by_device_number_def s')
      qed
      ultimately show ?thesis using c(2) by (auto simp: auth_def)
    qed
    have sub: "\<exists>p \<in> set (w_devices ?w). dev_parent_id ?d = Some (dev_id p) \<and> dev_sub_device_addr ?d = aq_sub_addr r \<and>
        (\<forall>x \<in> set (w_devices ?w). dev_parent_id x = Some (dev_id p) \<longrightarrow> dev_sub_device_addr x \<noteq> aq_sub_addr r)"
      if three: "dc_device_type c = ''3''"
    proof -
      obtain q a where pa: "pa = Some (q, a)" "auth_parent r ?w = Inr (q, a)" using p three by (cases pa) auto
      then obtain y where y: "aq_sub_addr r = Some a" "y \<in> set (w_devices ?w)" "dev_id y = q" "\<not> get_sub_device_exists q a ?w"
        by (auto simp: auth_parent_def opt_text_def get_device_by_device_number_def
            split: option.splits sum.splits if_splits dest!: find_Some_iff_mem)
      then show ?thesis using pa(1) by (intro bexI [of _ y]) (auto simp: auth_device_def get_sub_device_exists_def)
    qed
    show ?thesis using c e(2,3) new s' d sub again by (intro exI [of _ c] exI [of _ ?d]) simp
  qed
qed

section \<open>Witnesses\<close>

text \<open>A gateway \<open>g1\<close> of tenant \<open>t1\<close>, and a configuration under which sub-devices register themselves.\<close>

definition demo_gateway_row :: device where
  "demo_gateway_row = demo_device\<lparr>dev_id := ''g1'', dev_device_config_id := Some ''c2''\<rparr>"

definition demo_admin_configs :: "device_config list" where
  "demo_admin_configs = [demo_config\<lparr>dc_id := ''c2'', dc_device_type := ''2''\<rparr>,
     demo_config\<lparr>dc_id := ''c3'', dc_device_type := ''3'', dc_template_secret := Some ''k'', dc_auto_register := 1\<rparr>]"

definition demo_admin :: admin where
  "demo_admin = \<lparr>ad_world = empty_world\<lparr>w_devices := [demo_gateway_row], w_configs := demo_admin_configs\<rparr>,
     ad_plugins = [], ad_conditions = [], ad_groups = [], ad_members = [], ad_products = [],
     ad_current = [''g1'', ''x''], ad_telemetry = [''g1''], ad_attributes = [], ad_events = []\<rparr>"

definition demo_auth :: auth_req where
  "demo_auth = \<lparr>aq_secret = ''k'', aq_number = ''n2'', aq_name = None, aq_product = None, aq_sub_addr = Some ''a'',
     aq_parent_number = Some ''n1''\<rparr>"

definition demo_ids :: "nat \<Rightarrow> string" where
  "demo_ids k = (if k = 0 then ''s1'' else ''w'')"

lemmas demo_admin_defs = demo_admin_def demo_gateway_row_def demo_admin_configs_def demo_auth_def demo_ids_def
  demo_device_def demo_config_def empty_world_def

lemma demo_admin_ok: "table_ok (w_configs (ad_world demo_admin)) (w_devices (ad_world demo_admin))"
  by (simp add: table_ok_def device_constraints_def demo_admin_defs)


theorem registration_keeps_addresses_witness:
  "unique_children (w_devices (ad_world (snd (auth demo_ids demo_auth demo_admin))))"
proof -
  have "admin_run [Auth demo_ids demo_auth] demo_admin = Some (snd (auth demo_ids demo_auth demo_admin))"
    by (simp add: admin_step_def)
  from registration_keeps_addresses [OF this _ _ demo_admin_ok] show ?thesis
    by (simp add: keeps_def demo_admin_defs unique_children_def)
qed

definition demo_cached :: admin where
  "demo_cached = on_world (\<lambda>w. w\<lparr>w_device_cache := (\<lambda>i. if i = ''g1'' then Some demo_gateway_row else None)\<rparr>) demo_admin"

lemma demo_bindable: "bindable q ''g1'' demo_cached demo_gateway_row" "bindable ''g1'' ''g1'' demo_admin demo_gateway_row"
  using demo_admin_ok
  by (simp_all add: bindable_def demo_cached_def on_world_def device_row_def config_row_def ad_fault_def disconnect_def dal_get_device_def
      get_config_cases load_device_config_def config_cached_def Let_def demo_admin_defs)

theorem binding_forgets_cache_witness:
  "\<exists>s'. create_son_device ''q'' ''g1'' demo_cached = Some (None, s') \<and>
     get_device_cache_by_id ''g1'' (ad_world s') = (Inr demo_gateway_row, ad_world s')"
  using binding_forgets_cache [OF demo_bindable(1)] by (auto simp: demo_cached_def on_world_def demo_admin_defs)

theorem self_binding_never_returns_witness:
  "\<exists>s'. create_son_device ''g1'' ''g1'' demo_admin = Some (None, s') \<and>
     transform_down (Payload ''1'') (demo_node ''s'' (Some ''g1'')) ''3'' (ad_world s') = None"
  using self_binding_never_returns [OF demo_bindable(2), of "demo_node ''s'' (Some ''g1'')" "Payload ''1''"]
  by (simp add: demo_admin_defs demo_node_def)


theorem registered_once_witness:
  "map dev_id (w_devices (ad_world (snd (auth demo_ids demo_auth demo_admin)))) = [''g1'', ''s1'']"
proof -
  obtain s' where s': "auth demo_ids demo_auth demo_admin = (Inr (''s1'', username_voucher ''w''), s')"
    by (simp add: auth_def config_by_secret_def get_device_by_device_number_def opt_text_def auth_parent_def get_sub_device_exists_def
        create_devices_def insert_devices_def put_devices_def device_constraints_def new_device_def auth_voucher_def ad_fault_def
        username_voucher_def quoted_def Let_def demo_admin_defs)
  from registered_once [OF s', of demo_ids] obtain d where
    "w_devices (ad_world s') = insort_key dev_id d (w_devices (ad_world demo_admin))" "dev_id d = ''s1''"
    by (auto simp: ad_fault_def demo_admin_defs)
  moreover have "w_devices (ad_world demo_admin) = [demo_gateway_row]" by (simp add: demo_admin_def)
  ultimately show ?thesis unfolding s' snd_conv by (simp add: demo_gateway_row_def)
qed

end
