(* ===== verification/ExpectedData.thy ===== *)
theory ExpectedData
  imports PutMessages
begin

text \<open>
  Data kept for a device until it is online: \<open>internal/service/expected_data.go\<close> and
  \<open>internal/dal/expected_datas.go\<close>. A row is pending, then sent or expired; the status flow sends what
  is pending when the device comes online. The ids the code generates are the values of \<open>u\<close>.
\<close>

section \<open>State\<close>

record expected_data =
  ed_id :: string
  ed_device_id :: string
  ed_send_type :: string
  ed_payload :: string
  ed_status :: string
  ed_message :: "string option"
  ed_expiry :: "int option"
  ed_send_time :: "int option"
  ed_label :: "string option"
  ed_tenant_id :: string

record expect_state =
  ex_put :: put_state
  ex_rows :: "expected_data list"

definition ex_world :: "expect_state \<Rightarrow> world" where
  "ex_world s = ps_world (ex_put s)"

definition ex_fault :: "string \<Rightarrow> expect_state \<Rightarrow> gerror option" where
  "ex_fault q s = w_db_fault (ex_world s) q"

section \<open>Statements\<close>

definition expected_by_id :: "string \<Rightarrow> expect_state \<Rightarrow> expected_data res" where
  "expected_by_id i s = (case ex_fault ''expected_datas.first'' s of
      Some e \<Rightarrow> Inl e
    | None \<Rightarrow> (case find (\<lambda>r. ed_id r = i) (ex_rows s) of None \<Rightarrow> Inl RecordNotFound | Some r \<Rightarrow> Inr r))"

definition pending_for :: "string \<Rightarrow> expect_state \<Rightarrow> expected_data list res" where
  "pending_for d s = (case ex_fault ''expected_datas.find'' s of
      Some e \<Rightarrow> Inl e | None \<Rightarrow> Inr (filter (\<lambda>r. ed_device_id r = d \<and> ed_status r = ''pending'') (ex_rows s)))"

definition delete_expected :: "string \<Rightarrow> expect_state \<Rightarrow> gerror option \<times> expect_state" where
  "delete_expected i s = (case ex_fault ''expected_datas.delete'' s of
      Some e \<Rightarrow> (Some e, s)
    | None \<Rightarrow> if \<forall>r \<in> set (ex_rows s). ed_id r \<noteq> i then (Some (Errorf ''no data''), s)
        else (None, s\<lparr>ex_rows := filter (\<lambda>r. ed_id r \<noteq> i) (ex_rows s)\<rparr>))"

text \<open>\<open>updateStatus\<close>: the send time is written in any case, as the zero time unless the row was sent.\<close>

definition mark_expected :: "string \<Rightarrow> string option \<Rightarrow> int \<Rightarrow> expected_data \<Rightarrow> expected_data" where
  "mark_expected status message t r = r\<lparr>ed_status := status, ed_message := (if message = None then ed_message r else message),
     ed_send_time := Some t\<rparr>"

definition update_expected :: "string \<Rightarrow> string \<Rightarrow> string option \<Rightarrow> expect_state \<Rightarrow> gerror option \<times> expect_state" where
  "update_expected i status message s = (case ex_fault ''expected_datas.update'' s of
      Some e \<Rightarrow> (Some e, s)
    | None \<Rightarrow>
        if \<forall>r \<in> set (ex_rows s). ed_id r \<noteq> i then (Some (Errorf ''no data''), s)
        else (None, s\<lparr>ex_rows := map (\<lambda>r. if ed_id r = i
            then mark_expected status message (if status = ''sent'' then w_now (ex_world s) else zero_time) r else r) (ex_rows s)\<rparr>))"

section \<open>Sending\<close>

definition send_success :: string where "send_success = ''send success''"

text \<open>A payload of method and parameters, back into a command.\<close>

definition send_command :: "string \<Rightarrow> string \<Rightarrow> string \<Rightarrow> string \<Rightarrow> put_state \<Rightarrow> (string \<times> gerror option \<times> put_state) call" where
  "send_command a b d payload s = (case unmarshal dec_any_map payload None of
      Inl e \<Rightarrow> Returns None (''Error parsing JSON payload: '' @ error_msg e, Some e, s)
    | Inr m \<Rightarrow>
        let kvs = (case m of None \<Rightarrow> [] | Some x \<Rightarrow> x) in
        (case map_of kvs ''method'' of
          Some (JStr method) \<Rightarrow> (case command_put_message a b d method (map_option json_print (map_of kvs ''params'')) s of
              Returns None s' \<Rightarrow> Returns None (send_success, None, s')
            | Returns (Some e) s' \<Rightarrow> Returns None (error_msg e, Some e, s')
            | Waits \<Rightarrow> Waits | Panics \<Rightarrow> Panics)
        | _ \<Rightarrow> Returns None (''identify is required'', Some (Errorf ''identify is required''), s)))"

text \<open>The message and the error of a send, for the three send types; another type is not sent.\<close>

definition send_one :: "string \<Rightarrow> string \<Rightarrow> string \<Rightarrow> expected_data \<Rightarrow> put_state \<Rightarrow> (string \<times> gerror option \<times> put_state) call option" where
  "send_one a b d r s =
     (let wrap = (\<lambda>c. (case c of
              Returns None s' \<Rightarrow> Returns None (send_success, None, s')
            | Returns (Some e) s' \<Rightarrow> Returns None (error_msg e, Some e, s')
            | Waits \<Rightarrow> Waits | Panics \<Rightarrow> Panics))
      in if ed_send_type r = ''telemetry'' then Some (wrap (telemetry_put_message b d (ed_payload r) s))
         else if ed_send_type r = ''attribute'' then Some (wrap (attribute_put_message a b d (ed_payload r) s))
         else if ed_send_type r = ''command'' then Some (send_command a b d (ed_payload r) s)
         else None)"

definition is_expired :: "int \<Rightarrow> expected_data \<Rightarrow> bool" where
  "is_expired now r = (case ed_expiry r of None \<Rightarrow> False | Some t \<Rightarrow> t < now)"

text \<open>The loop of \<open>Send\<close>; a failed update ends it.\<close>

fun send_rows :: "(nat \<Rightarrow> string) \<Rightarrow> string \<Rightarrow> expected_data list \<Rightarrow> expect_state \<Rightarrow> expect_state call" where
  "send_rows u d [] s = Returns None s"
| "send_rows u d (r # rs) s =
     (if is_expired (w_now (ex_world s)) r then (case update_expected (ed_id r) ''expired'' None s of
          (Some e, s1) \<Rightarrow> Returns (Some e) s1 | (None, s1) \<Rightarrow> send_rows u d rs s1)
      else (case send_one (u 0) (u 1) d r (ex_put s) of
          None \<Rightarrow> send_rows u d rs s
        | Some Waits \<Rightarrow> Waits
        | Some Panics \<Rightarrow> Panics
        | Some (Returns _ (message, err, p)) \<Rightarrow>
            (case update_expected (ed_id r) (if err = None then ''sent'' else ''expired'') (Some message) (s\<lparr>ex_put := p\<rparr>) of
              (Some e, s1) \<Rightarrow> Returns (Some e) s1 | (None, s1) \<Rightarrow> send_rows (\<lambda>k. u (k + 2)) d rs s1)))"

definition send :: "(nat \<Rightarrow> string) \<Rightarrow> string \<Rightarrow> expect_state \<Rightarrow> expect_state call" where
  "send u d s = (case pending_for d s of Inl e \<Rightarrow> Returns (Some e) s | Inr rs \<Rightarrow> send_rows u d rs s)"

section \<open>Creating\<close>

definition merge_identify :: "string \<Rightarrow> string option \<Rightarrow> string res" where
  "merge_identify identify payload = (case payload of
      None \<Rightarrow> Inr (json_print (JObj [(''method'', JStr identify)]))
    | Some p \<Rightarrow> (case unmarshal dec_any p JNull of
        Inl e \<Rightarrow> Inl (Wrapped ''error parsing payload JSON: '' e)
      | Inr j \<Rightarrow> Inr (json_print (JObj [(''method'', JStr identify), (''params'', j)]))))"

record expected_req =
  eq_device_id :: string
  eq_send_type :: string
  eq_payload :: "string option"
  eq_expiry :: "int option"
  eq_label :: "string option"
  eq_identify :: "string option"

definition expected_payload :: "expected_req \<Rightarrow> string res" where
  "expected_payload r =
     (if eq_send_type r = ''command'' then (case eq_identify r of
          None \<Rightarrow> Inl code_param_error
        | Some i \<Rightarrow> (case merge_identify i (eq_payload r) of Inl e \<Rightarrow> Inl code_param_error | Inr p \<Rightarrow> Inr p))
      else (case eq_payload r of None \<Rightarrow> Inl code_param_error | Some p \<Rightarrow> Inr p))"

text \<open>\<open>Create\<close>: the row is read back before what is pending is sent to an online device.\<close>

definition create_expected :: "(nat \<Rightarrow> string) \<Rightarrow> string \<Rightarrow> expected_req \<Rightarrow> expect_state \<Rightarrow>
    (expected_data option \<times> expect_state) call" where
  "create_expected u tenant r s = (case expected_payload r of
      Inl e \<Rightarrow> Returns (Some e) (None, s)
    | Inr p \<Rightarrow>
        let row = \<lparr>ed_id = u 0, ed_device_id = eq_device_id r, ed_send_type = eq_send_type r, ed_payload = p,
                   ed_status = ''pending'', ed_message = None, ed_expiry = eq_expiry r, ed_send_time = None,
                   ed_label = eq_label r, ed_tenant_id = tenant\<rparr>
        in if ex_fault ''expected_datas.create'' s \<noteq> None \<or> (\<exists>x \<in> set (ex_rows s). ed_id x = u 0)
           then Returns (Some code_db_error) (None, s)
           else let s1 = s\<lparr>ex_rows := insort_key ed_id row (ex_rows s)\<rparr> in
             (case expected_by_id (u 0) s1 of
               Inl e \<Rightarrow> Returns (Some code_db_error) (None, s1)
             | Inr x \<Rightarrow> (case dal_get_device (eq_device_id r) (ex_world s1) of
                 Inl e \<Rightarrow> Returns (Some code_db_error) (None, s1)
               | Inr d \<Rightarrow>
                   if dev_is_online d = 1 then (case send (\<lambda>k. u (k + 1)) (eq_device_id r) s1 of
                       Waits \<Rightarrow> Waits | Panics \<Rightarrow> Panics
                     | Returns (Some e) s2 \<Rightarrow> Returns (Some code_db_error) (None, s2)
                     | Returns None s2 \<Rightarrow> Returns None (Some x, s2))
                   else Returns None (Some x, s1))))"

section \<open>Frames\<close>

text \<open>Clock and faults, which sending leaves alone.\<close>

definition env_of :: "world \<Rightarrow> int \<times> (string \<Rightarrow> gerror option) \<times> (string \<Rightarrow> string \<Rightarrow> gerror option)" where
  "env_of w = (w_now w, w_db_fault w, w_redis_fault w)"

lemma env_device: "get_device_cache_by_id i w = (r, w') \<Longrightarrow> env_of w' = env_of w"
  by (auto simp: get_device_cases load_device_def env_of_def split: if_splits option.splits sum.splits)

lemma env_device_snd [simp]: "env_of (snd (get_device_cache_by_id i w)) = env_of w"
  by (simp add: env_of_def)

lemma env_config: "get_device_config_by_id i w = (r, w') \<Longrightarrow> env_of w' = env_of w"
  by (auto simp: get_config_cases load_device_config_def env_of_def split: if_splits option.splits)

lemma env_build_nested: "build_nested g a p w = Some r \<Longrightarrow> env_of (snd r) = env_of w"
proof (induction rule: build_nested.raw_induct [rotated, consumes 1, case_names step])
  case (step run g a p w r)
  from step.hyps show ?case
    by (auto simp: Option.bind_eq_Some_conv case_prod_beta split: if_splits option.splits sum.splits
        dest!: step.IH)
qed

lemma env_transform: "transform_down p d ty w = Some (r, w') \<Longrightarrow> env_of w' = env_of w"
  by (auto simp: transform_down_def split: if_splits option.splits sum.splits prod.splits dest!: env_device env_build_nested)

lemma env_climb: "climb n d w = (r, w') \<Longrightarrow> env_of w' = env_of w"
  by (induction n d w rule: climb.induct) (auto split: option.splits prod.splits sum.splits dest: env_device)

lemma env_check_top: "check_top d w = (r, w') \<Longrightarrow> env_of w' = env_of w"
  by (auto simp: check_top_def split: option.splits prod.splits sum.splits dest: env_config)

lemma env_find_top: "find_top_level_gateway d ty w = (r, w') \<Longrightarrow> env_of w' = env_of w"
  by (auto simp: find_top_level_gateway_def split: option.splits prod.splits sum.splits if_splits
      dest!: env_device env_climb env_check_top)

lemma env_device_kind: "device_kind d w = (r, w') \<Longrightarrow> env_of w' = env_of w"
  by (auto simp: device_kind_def split: option.splits prod.splits sum.splits dest: env_config)

lemma env_telemetry_kind: "telemetry_kind d w = (r, w') \<Longrightarrow> env_of w' = env_of w"
  by (auto simp: telemetry_kind_def split: option.splits prod.splits sum.splits dest: env_config)

lemma map_fst_Some: "map_option (\<lambda>(r, w). (f r, w)) x = Some (q, w') \<Longrightarrow> \<exists>r. x = Some (r, w')"
  by auto

lemma env_prefix: "sub_topic_prefix c s = Some (r, s') \<Longrightarrow> env_of (ps_world s') = env_of (ps_world s)"
  by (cases "get_device_config_by_id c (ps_world s)"; cases "fst (get_device_config_by_id c (ps_world s))")
    (auto simp: sub_topic_prefix_def dest: env_config)

lemma env_resolve: "resolve_device_info d ty proto s = Some (r, s') \<Longrightarrow> env_of (ps_world s') = env_of (ps_world s)"
  by (auto simp: resolve_device_info_def Let_def simp del: map_option_eq_Some
      split: prod.split_asm sum.split_asm if_split_asm dest!: map_fst_Some env_find_top env_prefix)

lemma env_put_on_bus: "put_on_bus k m e s = Returns x s' \<Longrightarrow> env_of (ps_world s') = env_of (ps_world s)"
  by (auto simp: put_on_bus_def split: option.splits call.splits)

lemma env_send_logged:
  assumes "send_logged k kind create i d ty proto p s = Returns e s'" "\<And>w. env_of (create w) = env_of w"
  shows "env_of (ps_world s') = env_of (ps_world s)"
  using assms by (auto simp: send_logged_def set_world_def split: option.splits sum.splits prod.splits dest!: env_resolve env_put_on_bus)

lemma env_logs [simp]: "env_of (create_command_log l w) = env_of w" "env_of (create_attribute_log l w) = env_of w"
  by (simp_all add: create_command_log_def create_attribute_log_def env_of_def split: option.splits)

lemma env_command_put: "command_put_message a b d i v s = Returns e s' \<Longrightarrow> env_of (ps_world s') = env_of (ps_world s)"
  by (auto simp: command_put_message_def split: prod.splits sum.splits option.splits
      dest!: env_device env_device_kind env_transform env_send_logged)

lemma env_attribute_put: "attribute_put_message a b d v s = Returns e s' \<Longrightarrow> env_of (ps_world s') = env_of (ps_world s)"
  by (auto simp: attribute_put_message_def split: prod.splits sum.splits option.splits
      dest!: env_device env_device_kind env_transform env_send_logged)

lemma env_telemetry_target: "telemetry_target d ty proto s = Some (r, s') \<Longrightarrow> env_of (ps_world s') = env_of (ps_world s)"
  by (auto simp: telemetry_target_def simp del: map_option_eq_Some
      split: if_split_asm option.split_asm sum.split_asm prod.split_asm dest!: map_fst_Some env_prefix env_find_top)

lemma env_telemetry_payload: "telemetry_payload v d ty proto w = Some (r, w') \<Longrightarrow> env_of w' = env_of w"
  by (auto simp: telemetry_payload_def simp del: map_option_eq_Some
      split: if_split_asm sum.split_asm dest!: map_fst_Some env_transform)

lemma env_telemetry_put: "telemetry_put_message b d v s = Returns e s' \<Longrightarrow> env_of (ps_world s') = env_of (ps_world s)"
proof -
  have logs: "env_of (w\<lparr>w_telemetry_logs := x\<rparr>) = env_of w" for w x by (simp add: env_of_def)
  show "telemetry_put_message b d v s = Returns e s' \<Longrightarrow> env_of (ps_world s') = env_of (ps_world s)"
    by (auto simp: telemetry_put_message_def Let_def logs set_world_def split: prod.splits sum.splits option.splits if_splits
        dest!: env_device env_telemetry_kind env_telemetry_target env_telemetry_payload env_put_on_bus)
qed

lemma env_send_one:
  "send_one a b d r s = Some (Returns x (message, err, s')) \<Longrightarrow> env_of (ps_world s') = env_of (ps_world s)"
  by (auto simp: send_one_def send_command_def Let_def split: if_splits call.splits option.splits sum.splits json.splits
      dest: env_command_put env_attribute_put env_telemetry_put)

section \<open>Lemmas\<close>

definition known_type :: "expected_data \<Rightarrow> bool" where
  "known_type r \<longleftrightarrow> ed_send_type r \<in> {''telemetry'', ''attribute'', ''command''}"

lemma send_one_type: "send_one a b d r s = None \<longleftrightarrow> \<not> known_type r"
  by (simp add: send_one_def known_type_def Let_def)

lemma update_expected_rows:
  "update_expected i st m s = (None, s') \<Longrightarrow>
     \<exists>t. s' = s\<lparr>ex_rows := map (\<lambda>r. if ed_id r = i then mark_expected st m t r else r) (ex_rows s)\<rparr>"
  by (auto simp: update_expected_def split: option.splits if_splits)

text \<open>The columns a send never touches.\<close>

definition core_of :: "expected_data \<Rightarrow> string \<times> string \<times> string \<times> string \<times> int option \<times> string option \<times> string" where
  "core_of r = (ed_id r, ed_device_id r, ed_send_type r, ed_payload r, ed_expiry r, ed_label r, ed_tenant_id r)"

lemma core_mark [simp]: "core_of (mark_expected st m t r) = core_of r"
  by (simp add: core_of_def mark_expected_def)

lemma status_mark [simp]: "ed_status (mark_expected st m t r) = st"
  by (simp add: mark_expected_def)

lemma core_id: "core_of r = core_of r' \<Longrightarrow> ed_id r = ed_id r'"
  by (simp add: core_of_def)

definition sent_by :: "expected_data list \<Rightarrow> (expected_data \<Rightarrow> expected_data) \<Rightarrow> bool" where
  "sent_by rs g \<longleftrightarrow> (\<forall>r. core_of (g r) = core_of r \<and> (ed_id r \<notin> ed_id ` set rs \<longrightarrow> g r = r) \<and>
     (\<forall>x \<in> set rs. ed_id x = ed_id r \<longrightarrow> (if known_type x then ed_status (g r) \<in> {''sent'', ''expired''}
        else g r = r \<or> ed_status (g r) = ''expired'')))"

lemma sent_by_cons:
  assumes "sent_by rs g" "ed_id x \<notin> ed_id ` set rs" "st \<in> {''sent'', ''expired''}" "known_type x \<or> st = ''expired''"
  shows "sent_by (x # rs) (\<lambda>r. g (if ed_id r = ed_id x then mark_expected st m t r else r))"
proof -
  have id: "ed_id (mark_expected st m t r) = ed_id r" for r by (simp add: mark_expected_def)
  show ?thesis unfolding sent_by_def
  proof (intro allI conjI)
    fix r
    let ?r = "if ed_id r = ed_id x then mark_expected st m t r else r"
    note g = assms(1) [unfolded sent_by_def, rule_format, of ?r]
    show "core_of (g ?r) = core_of r" using g by simp
    show "ed_id r \<notin> ed_id ` set (x # rs) \<longrightarrow> g ?r = r" using g by auto
    show "\<forall>y \<in> set (x # rs). ed_id y = ed_id r \<longrightarrow> (if known_type y then ed_status (g ?r) \<in> {''sent'', ''expired''}
        else g ?r = r \<or> ed_status (g ?r) = ''expired'')"
    proof (cases "ed_id r = ed_id x")
      case True
      then have gr: "g ?r = mark_expected st m t r" using g assms(2) id by simp
      show ?thesis
      proof (intro ballI impI)
        fix y assume y: "y \<in> set (x # rs)" "ed_id y = ed_id r"
        then have "y = x" using True assms(2) imageI [of y "set rs" ed_id] by (cases "y = x") auto
        then show "if known_type y then ed_status (g ?r) \<in> {''sent'', ''expired''} else g ?r = r \<or> ed_status (g ?r) = ''expired''"
          unfolding gr status_mark using assms(3,4) by auto
      qed
    next
      case False
      then show ?thesis using g by auto
    qed
  qed
qed

lemma sent_by_skip:
  assumes "sent_by rs g" "ed_id x \<notin> ed_id ` set rs" "\<not> known_type x"
  shows "sent_by (x # rs) g"
  unfolding sent_by_def
proof (intro allI conjI)
  fix r
  note g = assms(1) [unfolded sent_by_def, rule_format, of r]
  show "core_of (g r) = core_of r" using g by simp
  show "ed_id r \<notin> ed_id ` set (x # rs) \<longrightarrow> g r = r" using g by auto
  show "\<forall>y \<in> set (x # rs). ed_id y = ed_id r \<longrightarrow> (if known_type y then ed_status (g r) \<in> {''sent'', ''expired''}
      else g r = r \<or> ed_status (g r) = ''expired'')"
  proof (cases "ed_id r = ed_id x")
    case True
    then have "g r = r" using g assms(2) by simp
    moreover have "y = x" if "y \<in> set (x # rs)" "ed_id y = ed_id r" for y
      using that True assms(2) imageI [of y "set rs" ed_id] by (cases "y = x") auto
    ultimately show ?thesis using assms(3) by metis
  next
    case False
    then show ?thesis using g by auto
  qed
qed

lemma send_rows_result:
  assumes "send_rows u d rs s = Returns None s'" "distinct (map ed_id rs)"
  shows "\<exists>g. ex_rows s' = map g (ex_rows s) \<and> sent_by rs g \<and> env_of (ex_world s') = env_of (ex_world s)"
  using assms
proof (induction u d rs s rule: send_rows.induct)
  case (1 u d s)
  then show ?case by (intro exI [of _ id]) (simp add: sent_by_def)
next
  case (2 u d r rs s)
  have dist: "ed_id r \<notin> ed_id ` set rs" "distinct (map ed_id rs)" using 2(5) by simp_all
  have after: ?case
    if u: "update_expected (ed_id r) st m s0 = (None, s1)" and rows: "ex_rows s0 = ex_rows s"
      and env: "env_of (ex_world s0) = env_of (ex_world s)" and st: "st \<in> {''sent'', ''expired''}" "known_type r \<or> st = ''expired''"
      and ih: "\<exists>g. ex_rows s' = map g (ex_rows s1) \<and> sent_by rs g \<and> env_of (ex_world s') = env_of (ex_world s1)" for st m s0 s1
  proof -
    obtain t where s1: "s1 = s0\<lparr>ex_rows := map (\<lambda>x. if ed_id x = ed_id r then mark_expected st m t x else x) (ex_rows s0)\<rparr>"
      using update_expected_rows [OF u] by blast
    obtain g where g: "ex_rows s' = map g (ex_rows s1)" "sent_by rs g" "env_of (ex_world s') = env_of (ex_world s1)" using ih by blast
    have "ex_rows s' = map (\<lambda>x. g (if ed_id x = ed_id r then mark_expected st m t x else x)) (ex_rows s)"
      by (simp add: g(1) s1 rows)
    moreover have "env_of (ex_world s1) = env_of (ex_world s)" using env by (simp add: s1 ex_world_def)
    ultimately show ?thesis using sent_by_cons [OF g(2) dist(1) st] g(3) by (intro exI conjI) (assumption+, simp)
  qed
  show ?case
  proof (cases "is_expired (w_now (ex_world s)) r")
    case True
    then obtain s1 where s1: "update_expected (ed_id r) ''expired'' None s = (None, s1)" "send_rows u d rs s1 = Returns None s'"
      using 2(4) by (auto split: prod.splits option.splits)
    show ?thesis by (rule after [OF s1(1) refl refl _ _ 2(1) [OF True s1(1) [symmetric] refl s1(2) dist(2)]]) simp_all
  next
    case False
    show ?thesis
    proof (cases "send_one (u 0) (u 1) d r (ex_put s)")
      case None
      obtain g where "ex_rows s' = map g (ex_rows s)" "sent_by rs g" "env_of (ex_world s') = env_of (ex_world s)"
        using 2(2) [OF False None _ dist(2)] 2(4) False None by auto
      moreover have "\<not> known_type r" using None send_one_type by blast
      ultimately show ?thesis using sent_by_skip [OF _ dist(1)] by blast
    next
      case (Some c)
      then obtain x m err p where c: "c = Returns x (m, err, p)" using 2(4) False by (cases c) auto
      let ?st = "if err = None then ''sent'' else ''expired''"
      obtain s1 where s1: "update_expected (ed_id r) ?st (Some m) (s\<lparr>ex_put := p\<rparr>) = (None, s1)"
          "send_rows (\<lambda>k. u (k + 2)) d rs s1 = Returns None s'"
        using 2(4) False Some c by (auto split: prod.splits option.splits)
      have env: "env_of (ex_world (s\<lparr>ex_put := p\<rparr>)) = env_of (ex_world s)"
        using env_send_one Some c by (simp add: ex_world_def)
      have "known_type r" using Some send_one_type [of "u 0" "u 1" d r "ex_put s"] by auto
      with 2(3) [OF False Some c refl refl s1(1) [symmetric] refl s1(2) dist(2)] show ?thesis
        by (intro after [OF s1(1) _ env]) simp_all
    qed
  qed
qed

lemma pending_for_rows:
  "pending_for d s = Inr rs \<Longrightarrow> rs = filter (\<lambda>r. ed_device_id r = d \<and> ed_status r = ''pending'') (ex_rows s)"
  by (simp add: pending_for_def split: option.splits)

lemma distinct_ids_filter: "distinct (map ed_id rows) \<Longrightarrow> distinct (map ed_id (filter P rows))"
  by (simp add: distinct_map_filter)

section \<open>Properties\<close>

text \<open>C13: Data kept for a device is sent once. When a send returns without error, every row that was
  pending for the device is sent or expired, if it has one of the three send types, and no other row
  has changed; the order and the contents of the rows are the same. If the pending rows all have one
  of the three types, a second send finds nothing and does nothing.\<close>
theorem expected_sent_once:
  assumes "send u d s = Returns None s'" "distinct (map ed_id (ex_rows s))"
  shows "list_all2 (\<lambda>r r'. core_of r' = core_of r \<and>
      (if ed_device_id r = d \<and> ed_status r = ''pending''
       then (if known_type r then ed_status r' \<in> {''sent'', ''expired''} else r' = r \<or> ed_status r' = ''expired'')
       else r' = r)) (ex_rows s) (ex_rows s') \<and>
    ((\<forall>r \<in> set (ex_rows s). ed_device_id r = d \<and> ed_status r = ''pending'' \<longrightarrow> known_type r) \<longrightarrow> send u' d s' = Returns None s')"
proof -
  obtain rs where rs: "pending_for d s = Inr rs" "send_rows u d rs s = Returns None s'"
    using assms(1) by (auto simp: send_def split: sum.splits)
  let ?P = "\<lambda>r. ed_device_id r = d \<and> ed_status r = ''pending''"
  note f = pending_for_rows [OF rs(1)]
  have dist: "distinct (map ed_id rs)" unfolding f by (rule distinct_ids_filter [OF assms(2)])
  obtain g where g: "ex_rows s' = map g (ex_rows s)" "sent_by rs g" "env_of (ex_world s') = env_of (ex_world s)"
    using send_rows_result [OF rs(2) dist] by blast
  have row: "core_of (g r) = core_of r \<and> (if ?P r then (if known_type r then ed_status (g r) \<in> {''sent'', ''expired''}
      else g r = r \<or> ed_status (g r) = ''expired'') else g r = r)" if r: "r \<in> set (ex_rows s)" for r
  proof -
    note gr = g(2) [unfolded sent_by_def, rule_format, of r]
    show ?thesis
    proof (cases "?P r")
      case True
      then have "r \<in> set rs" using r by (simp add: f)
      then show ?thesis using gr True by auto
    next
      case False
      have "ed_id r \<notin> ed_id ` set rs"
      proof
        assume "ed_id r \<in> ed_id ` set rs"
        then obtain x where x: "x \<in> set (ex_rows s)" "?P x" "ed_id x = ed_id r" by (auto simp: f)
        then have "x = r" using assms(2) r by (simp add: distinct_map inj_on_def)
        with x(2) False show False by simp
      qed
      then show ?thesis using gr False by simp
    qed
  qed
  have "send u' d s' = Returns None s'" if known: "\<forall>r \<in> set (ex_rows s). ?P r \<longrightarrow> known_type r"
  proof -
    have "\<not> ?P r'" if mem: "r' \<in> set (ex_rows s')" for r'
    proof -
      obtain r where r: "r \<in> set (ex_rows s)" "r' = g r" using mem g(1) by auto
      show ?thesis using row [OF r(1)] known r by (cases "?P r") auto
    qed
    then have "filter ?P (ex_rows s') = []" by (simp add: filter_empty_conv)
    moreover have "ex_fault ''expected_datas.find'' s' = None"
      using rs(1) g(3) by (auto simp: pending_for_def ex_fault_def env_of_def split: option.splits)
    ultimately show ?thesis by (simp add: send_def pending_for_def)
  qed
  then show ?thesis unfolding g(1) list_all2_map2 list_all2_same using row by blast
qed

text \<open>What was sent can be sent again. When the status of a row cannot be written, a send that has
  put the first pending row's message on the bus returns the error and leaves the row pending, and the
  next send puts the message of the same row there once more.\<close>
theorem expected_sent_again:
  assumes "pending_for d s = Inr (r # rs)" "\<not> is_expired (w_now (ex_world s)) r"
    and "ex_fault ''expected_datas.update'' s = Some e"
    and "send_one (u 0) (u 1) d r (ex_put s) = Some (Returns x (m, err, p))"
    and "send_one (u' 0) (u' 1) d r p = Some (Returns x' (m', err', p'))"
  shows "send u d s = Returns (Some e) (s\<lparr>ex_put := p\<rparr>) \<and>
    send u' d (s\<lparr>ex_put := p\<rparr>) = Returns (Some e) (s\<lparr>ex_put := p'\<rparr>)"
proof -
  have env: "env_of (ps_world p) = env_of (ex_world s)" "env_of (ps_world p') = env_of (ex_world s)"
    using env_send_one [OF assms(4)] env_send_one [OF assms(5)] by (simp_all add: ex_world_def)
  then have f: "ex_fault q (s\<lparr>ex_put := p\<rparr>) = ex_fault q s" "ex_fault q (s\<lparr>ex_put := p'\<rparr>) = ex_fault q s"
      "w_now (ex_world (s\<lparr>ex_put := p\<rparr>)) = w_now (ex_world s)" for q
    by (simp_all add: ex_fault_def ex_world_def env_of_def)
  have "pending_for d (s\<lparr>ex_put := p\<rparr>) = Inr (r # rs)" using assms(1) by (simp add: pending_for_def f split: option.splits)
  then show ?thesis using assms f by (simp add: send_def update_expected_def)
qed

definition demo_expected :: "string \<Rightarrow> string \<Rightarrow> expected_data" where
  "demo_expected i ty = \<lparr>ed_id = i, ed_device_id = ''d1'', ed_send_type = ty, ed_payload = ''{}'', ed_status = ''pending'',
     ed_message = None, ed_expiry = None, ed_send_time = None, ed_label = None, ed_tenant_id = ''t1''\<rparr>"

definition demo_expect :: "(string \<Rightarrow> gerror option) \<Rightarrow> expect_state" where
  "demo_expect fault = \<lparr>ex_put = \<lparr>ps_world = demo_world\<lparr>w_devices := [demo_device\<lparr>dev_device_config_id := None\<rparr>], w_db_fault := fault\<rparr>,
      ps_plugins = [], ps_bus = Some (new_dl_bus 9)\<rparr>,
     ex_rows = [demo_expected ''e1'' ''telemetry'', demo_expected ''e2'' ''other'']\<rparr>"

definition no_updates :: "string \<Rightarrow> gerror option" where
  "no_updates q = (if q = ''expected_datas.update'' then Some (Errorf ''lost'') else None)"

theorem expected_sent_once_witness:
  "\<exists>s'. send (\<lambda>_. ''u'') ''d1'' (demo_expect (\<lambda>_. None)) = Returns None s' \<and> ed_status (ex_rows s' ! 0) \<in> {''sent'', ''expired''} \<and>
     ex_rows s' ! 1 \<in> {demo_expected ''e2'' ''other'', (demo_expected ''e2'' ''other'')\<lparr>ed_status := ''expired''\<rparr>} \<union> {r. ed_status r = ''expired''}"
proof -
  have "case send (\<lambda>_. ''u'') ''d1'' (demo_expect (\<lambda>_. None)) of Returns None _ \<Rightarrow> True | _ \<Rightarrow> False" by code_simp
  then obtain s' where s': "send (\<lambda>_. ''u'') ''d1'' (demo_expect (\<lambda>_. None)) = Returns None s'" by (auto split: call.splits option.splits)
  have d: "distinct (map ed_id (ex_rows (demo_expect (\<lambda>_. None))))" by (simp add: demo_expect_def demo_expected_def)
  have "list_all2 (\<lambda>r r'. core_of r' = core_of r \<and>
      (if ed_device_id r = ''d1'' \<and> ed_status r = ''pending''
       then (if known_type r then ed_status r' \<in> {''sent'', ''expired''} else r' = r \<or> ed_status r' = ''expired'')
       else r' = r)) (ex_rows (demo_expect (\<lambda>_. None))) (ex_rows s')"
    using expected_sent_once [OF s' d] by blast
  then obtain a b where "ex_rows s' = [a, b]" "ed_status a \<in> {''sent'', ''expired''}" "b = demo_expected ''e2'' ''other'' \<or> ed_status b = ''expired''"
    by (auto simp: demo_expect_def demo_expected_def known_type_def list_all2_Cons1)
  with s' show ?thesis by auto
qed

theorem expected_sent_again_witness:
  "\<exists>p p'. send (\<lambda>_. ''u'') ''d1'' (demo_expect no_updates) = Returns (Some (Errorf ''lost'')) ((demo_expect no_updates)\<lparr>ex_put := p\<rparr>) \<and>
     send (\<lambda>_. ''v'') ''d1'' ((demo_expect no_updates)\<lparr>ex_put := p\<rparr>) = Returns (Some (Errorf ''lost'')) ((demo_expect no_updates)\<lparr>ex_put := p'\<rparr>)"
proof -
  let ?r = "demo_expected ''e1'' ''telemetry''" and ?s = "demo_expect no_updates"
  let ?one = "send_one ''u'' ''u'' ''d1'' ?r (ex_put ?s)" and ?two = "\<lambda>p. send_one ''v'' ''v'' ''d1'' ?r p"
  have "case ?one of Some (Returns _ (_, _, p)) \<Rightarrow> (case ?two p of Some (Returns _ _) \<Rightarrow> True | _ \<Rightarrow> False) | _ \<Rightarrow> False"
    by code_simp
  then obtain x m err p where one: "?one = Some (Returns x (m, err, p))" and two: "case ?two p of Some (Returns _ _) \<Rightarrow> True | _ \<Rightarrow> False"
    by (cases ?one; cases "the ?one") auto
  obtain x' q where q: "?two p = Some (Returns x' q)" using two by (cases "?two p"; cases "the (?two p)") auto
  obtain m' err' p' where "q = (m', err', p')" by (cases q)
  note o1 = one q [unfolded this]
  have "pending_for ''d1'' ?s = Inr [?r, demo_expected ''e2'' ''other'']"
    by (simp add: pending_for_def demo_expect_def demo_expected_def ex_fault_def ex_world_def no_updates_def)
  from expected_sent_again [OF this _ _ o1] show ?thesis
    by (auto simp: is_expired_def demo_expected_def demo_expect_def ex_fault_def ex_world_def no_updates_def)
qed

end
