(* ===== verification/SceneAdmin.thy ===== *)
theory SceneAdmin
  imports Automate PutMessages
begin

text \<open>
  The administration of scene automations: \<open>internal/service/scene_automations.go\<close> and the statements of
  \<open>internal/dal\<close> it calls. A scene owns trigger conditions, single and periodic tasks and actions; an edit
  replaces them in one transaction and then, in a goroutine of its own, brings the Redis caches up to
  date. The deletion of a scene cascades (\<open>sql/1.sql\<close>, \<open>sql/4.sql\<close>). Generated ids are the values of
  a function \<open>u\<close>, one index per generated value.
\<close>

section \<open>Tables\<close>

text \<open>\<open>model.OneTimeTask\<close> and \<open>model.PeriodicTask\<close>; the expiry is in minutes.\<close>

record one_time_task =
  ot_id :: string
  ot_scene :: string
  ot_execution :: int
  ot_state :: string
  ot_enabled :: string
  ot_expiration :: int

record periodic_task =
  pt_id :: string
  pt_scene :: string
  pt_type :: string
  pt_param :: string
  pt_execution :: int
  pt_enabled :: string
  pt_expiration :: int

record scene_db =
  sb_auto :: auto
  sb_once :: "one_time_task list"
  sb_periodic :: "periodic_task list"

definition sb_fault :: "string \<Rightarrow> scene_db \<Rightarrow> gerror option" where
  "sb_fault q s = au_db_fault (sb_auto s) q"

definition on_auto :: "(auto \<Rightarrow> auto) \<Rightarrow> scene_db \<Rightarrow> scene_db" where
  "on_auto f s = s\<lparr>sb_auto := f (sb_auto s)\<rparr>"

text \<open>A statement that fails or changes rows, and an insert that also fails when the key is taken.\<close>

definition statement :: "string \<Rightarrow> (scene_db \<Rightarrow> scene_db) \<Rightarrow> scene_db \<Rightarrow> gerror option \<times> scene_db" where
  "statement q f s = (case sb_fault q s of Some _ \<Rightarrow> (Some code_db_error, s) | None \<Rightarrow> (None, f s))"

definition insert_row :: "string \<Rightarrow> bool \<Rightarrow> (scene_db \<Rightarrow> scene_db) \<Rightarrow> scene_db \<Rightarrow> gerror option \<times> scene_db" where
  "insert_row q taken f s = (if taken then (Some code_db_error, s) else statement q f s)"

definition run_statements :: "(string \<times> (scene_db \<Rightarrow> scene_db)) list \<Rightarrow> scene_db \<Rightarrow> gerror option \<times> scene_db" where
  "run_statements = until_error (\<lambda>(q, f). statement q f)"

text \<open>\<open>None\<close> is a panic; the transaction is then rolled back like on an error. The error of the commit
  is ignored.\<close>

definition in_transaction :: "(scene_db \<Rightarrow> ('a res \<times> scene_db) option) \<Rightarrow> scene_db \<Rightarrow> ('a res \<times> scene_db) option" where
  "in_transaction body s = (case sb_fault ''begin'' s of
      Some _ \<Rightarrow> Some (Inl code_db_error, s)
    | None \<Rightarrow> (case body s of
        None \<Rightarrow> None
      | Some (Inl e, _) \<Rightarrow> Some (Inl e, s)
      | Some (Inr x, s1) \<Rightarrow> Some (Inr x, if sb_fault ''commit'' s = None then s1 else s)))"

definition answer :: "'a \<Rightarrow> gerror option \<times> scene_db \<Rightarrow> 'a res \<times> scene_db" where
  "answer x r = (case fst r of None \<Rightarrow> Inr x | Some e \<Rightarrow> Inl e, snd r)"

section \<open>Requests\<close>

record scene_condition =
  sc_type :: string
  sc_source :: "string option"
  sc_param_type :: "string option"
  sc_param :: "string option"
  sc_operator :: "string option"
  sc_value :: "string option"
  sc_execution :: "int option"
  sc_expiration :: "int option"
  sc_task :: "string option"
  sc_params :: "string option"

record scene_action =
  sx_type :: string
  sx_target :: string
  sx_param_type :: string
  sx_param :: string
  sx_value :: string

record scene_req =
  sr_id :: string
  sr_enabled :: string
  sr_groups :: "scene_condition list list"
  sr_actions :: "scene_action list"

section \<open>Rows of a request\<close>

definition or_empty :: "string option \<Rightarrow> string" where
  "or_empty x = (case x of None \<Rightarrow> '''' | Some t \<Rightarrow> t)"

definition condition_row :: "string \<Rightarrow> string \<Rightarrow> string \<Rightarrow> string \<Rightarrow> scene_condition \<Rightarrow> trigger_condition" where
  "condition_row i sc g enabled c = \<lparr>tc_id = i, tc_scene = sc, tc_enabled = enabled, tc_group = g, tc_type = sc_type c,
     tc_source = sc_source c, tc_param_type = sc_param_type c, tc_param = sc_param c, tc_operator = sc_operator c,
     tc_value = or_empty (sc_value c)\<rparr>"

definition task_row :: "string \<Rightarrow> string \<Rightarrow> string \<Rightarrow> scene_condition \<Rightarrow> one_time_task" where
  "task_row i sc enabled c = \<lparr>ot_id = i, ot_scene = sc,
     ot_execution = (case sc_execution c of None \<Rightarrow> zero_time | Some t \<Rightarrow> t), ot_state = ''NEX'', ot_enabled = enabled,
     ot_expiration = (case sc_expiration c of None \<Rightarrow> 0 | Some m \<Rightarrow> m)\<rparr>"

text \<open>Only the creation takes over the execution time; a periodic task is enabled whatever the request says.\<close>

definition periodic_row :: "bool \<Rightarrow> string \<Rightarrow> string \<Rightarrow> scene_condition \<Rightarrow> periodic_task" where
  "periodic_row create i sc c = \<lparr>pt_id = i, pt_scene = sc, pt_type = or_empty (sc_task c), pt_param = or_empty (sc_params c),
     pt_execution = (case sc_execution c of Some t \<Rightarrow> if create then t else zero_time | None \<Rightarrow> zero_time),
     pt_enabled = ''Y'', pt_expiration = (case sc_expiration c of None \<Rightarrow> 0 | Some m \<Rightarrow> m)\<rparr>"

definition action_row :: "string \<Rightarrow> scene_action \<Rightarrow> action_info" where
  "action_row sc a = \<lparr>ac_scene = sc, ac_target = Some (sx_target a), ac_type = sx_type a,
     ac_param_type = Some (sx_param_type a), ac_param = Some (sx_param a), ac_value = Some (sx_value a)\<rparr>"

section \<open>Inserting them\<close>

text \<open>One condition with its generated id. A type that is not supported is an error of the update; the
  creation formats a nil error there, a panic.\<close>

definition add_condition :: "bool \<Rightarrow> string \<Rightarrow> string \<Rightarrow> string \<Rightarrow> string \<times> scene_condition \<Rightarrow> scene_db \<Rightarrow>
    (gerror option \<times> scene_db) option" where
  "add_condition create sc enabled g ic s = (case ic of (i, c) \<Rightarrow>
     if sc_type c \<in> {''10'', ''11'', ''22''}
     then Some (insert_row ''device_trigger_condition.create'' (\<exists>x \<in> set (au_conditions (sb_auto s)). tc_id x = i)
            (on_auto (\<lambda>a. a\<lparr>au_conditions := au_conditions a @ [condition_row i sc g enabled c]\<rparr>)) s)
     else if sc_type c = ''20''
     then Some (insert_row ''one_time_tasks.create'' (\<exists>x \<in> set (sb_once s). ot_id x = i)
            (\<lambda>s. s\<lparr>sb_once := sb_once s @ [task_row i sc enabled c]\<rparr>) s)
     else if sc_type c = ''21''
     then Some (insert_row ''periodic_tasks.create'' (\<exists>x \<in> set (sb_periodic s). pt_id x = i)
            (\<lambda>s. s\<lparr>sb_periodic := sb_periodic s @ [periodic_row create i sc c]\<rparr>) s)
     else if create then None else Some (Some code_param_error, s))"

text \<open>A group may not mix conditions on a single device with conditions on a device configuration.\<close>

definition mixed :: "scene_condition list \<Rightarrow> bool" where
  "mixed cs \<longleftrightarrow> (\<exists>c \<in> set cs. sc_type c = ''10'') \<and> (\<exists>c \<in> set cs. sc_type c = ''11'')"

fun add_groups :: "bool \<Rightarrow> (nat \<Rightarrow> string) \<Rightarrow> string \<Rightarrow> string \<Rightarrow> scene_condition list list \<Rightarrow> scene_db \<Rightarrow>
    (gerror option \<times> scene_db) option" where
  "add_groups create u sc enabled [] s = Some (None, s)"
| "add_groups create u sc enabled (cs # gs) s =
     (case until_error_opt (add_condition create sc enabled (u 0)) (zip (map u [1 ..< Suc (length cs)]) cs) s of
        None \<Rightarrow> None
      | Some (Some e, s1) \<Rightarrow> Some (Some e, s1)
      | Some (None, s1) \<Rightarrow>
          if mixed cs then Some (Some (err_code 200060), s1)
          else add_groups create (\<lambda>k. u (k + Suc (length cs))) sc enabled gs s1)"

definition add_action :: "string \<Rightarrow> scene_action \<Rightarrow> scene_db \<Rightarrow> gerror option \<times> scene_db" where
  "add_action sc a = statement ''action_info.create'' (on_auto (\<lambda>t. t\<lparr>au_actions := au_actions t @ [action_row sc a]\<rparr>))"

definition add_rows :: "bool \<Rightarrow> (nat \<Rightarrow> string) \<Rightarrow> string \<Rightarrow> scene_req \<Rightarrow> scene_db \<Rightarrow> (gerror option \<times> scene_db) option" where
  "add_rows create u sc r s = (case add_groups create u sc (sr_enabled r) (sr_groups r) s of
      None \<Rightarrow> None
    | Some (Some e, s1) \<Rightarrow> Some (Some e, s1)
    | Some (None, s1) \<Rightarrow> Some (until_error (add_action sc) (sr_actions r) s1))"

section \<open>Creating\<close>

text \<open>The scene is stored as closed, whatever the request says; the result is its id.\<close>

definition create_scene_automation :: "(nat \<Rightarrow> string) \<Rightarrow> string \<Rightarrow> scene_req \<Rightarrow> scene_db \<Rightarrow>
    (string res \<times> scene_db) option" where
  "create_scene_automation u tenant r = in_transaction (\<lambda>s. map_option (answer (u 0))
     (case insert_row ''scene_automations.create'' (\<exists>x \<in> set (au_scenes (sb_auto s)). sa_id x = u 0)
         (on_auto (\<lambda>a. a\<lparr>au_scenes := au_scenes a @ [\<lparr>sa_id = u 0, sa_enabled = ''N'', sa_tenant_id = tenant\<rparr>]\<rparr>)) s of
       (Some e, s1) \<Rightarrow> Some (Some e, s1)
     | (None, s1) \<Rightarrow> add_rows True (\<lambda>k. u (Suc k)) (u 0) r s1))"

section \<open>Updating\<close>

text \<open>\<open>Save\<close> inserts the row or overwrites the one with its id.\<close>

definition save_scene :: "scene_automation \<Rightarrow> scene_automation list \<Rightarrow> scene_automation list" where
  "save_scene x xs = (if \<exists>y \<in> set xs. sa_id y = sa_id x then map (\<lambda>y. if sa_id y = sa_id x then x else y) xs else xs @ [x])"

definition update_order :: "string \<Rightarrow> (string \<times> (scene_db \<Rightarrow> scene_db)) list" where
  "update_order sc =
    [(''device_trigger_condition.delete'', on_auto (\<lambda>a. a\<lparr>au_conditions := filter (\<lambda>c. tc_scene c \<noteq> sc) (au_conditions a)\<rparr>)),
     (''one_time_tasks.delete'', \<lambda>s. s\<lparr>sb_once := filter (\<lambda>t. ot_scene t \<noteq> sc) (sb_once s)\<rparr>),
     (''periodic_tasks.delete'', \<lambda>s. s\<lparr>sb_periodic := filter (\<lambda>t. pt_scene t \<noteq> sc) (sb_periodic s)\<rparr>),
     (''action_info.delete'', on_auto (\<lambda>a. a\<lparr>au_actions := filter (\<lambda>x. ac_scene x \<noteq> sc) (au_actions a)\<rparr>))]"

definition update_scene_automation :: "(nat \<Rightarrow> string) \<Rightarrow> string \<Rightarrow> scene_req \<Rightarrow> scene_db \<Rightarrow>
    (string res \<times> scene_db) option" where
  "update_scene_automation u tenant r = in_transaction (\<lambda>s. map_option (answer (sr_id r))
     (case run_statements ((''scene_automations.save'', on_auto (\<lambda>a. a\<lparr>au_scenes := save_scene
             \<lparr>sa_id = sr_id r, sa_enabled = sr_enabled r, sa_tenant_id = tenant\<rparr> (au_scenes a)\<rparr>)) # update_order (sr_id r)) s of
       (Some e, s1) \<Rightarrow> Some (Some e, s1)
     | (None, s1) \<Rightarrow> add_rows False u (sr_id r) r s1))"

section \<open>Switching and deleting\<close>

definition switch_target :: "string \<Rightarrow> string \<Rightarrow> scene_db \<Rightarrow> string res" where
  "switch_target sc target s = (if target \<noteq> '''' then Inr target
     else case sb_fault ''scene_automations.first'' s of
       Some e \<Rightarrow> Inl e
     | None \<Rightarrow> (case find (\<lambda>x. sa_id x = sc) (au_scenes (sb_auto s)) of
         None \<Rightarrow> Inl RecordNotFound | Some x \<Rightarrow> Inr (if sa_enabled x = ''Y'' then ''N'' else ''Y'')))"

definition switch_order :: "string \<Rightarrow> string \<Rightarrow> (string \<times> (scene_db \<Rightarrow> scene_db)) list" where
  "switch_order sc target =
    [(''scene_automations.update'', on_auto (\<lambda>a. a\<lparr>au_scenes :=
        map (\<lambda>x. if sa_id x = sc then x\<lparr>sa_enabled := target\<rparr> else x) (au_scenes a)\<rparr>)),
     (''device_trigger_condition.update'', on_auto (\<lambda>a. a\<lparr>au_conditions :=
        map (\<lambda>c. if tc_scene c = sc then c\<lparr>tc_enabled := target\<rparr> else c) (au_conditions a)\<rparr>)),
     (''one_time_tasks.update'', \<lambda>s. s\<lparr>sb_once := map (\<lambda>t. if ot_scene t = sc then t\<lparr>ot_enabled := target\<rparr> else t) (sb_once s)\<rparr>),
     (''periodic_tasks.update'', \<lambda>s. s\<lparr>sb_periodic :=
        map (\<lambda>t. if pt_scene t = sc then t\<lparr>pt_enabled := target\<rparr> else t) (sb_periodic s)\<rparr>)]"

text \<open>The result is the target, by which the goroutine after the commit goes.\<close>

definition switch_scene_automation :: "string \<Rightarrow> string \<Rightarrow> scene_db \<Rightarrow> (string res \<times> scene_db) option" where
  "switch_scene_automation sc target = in_transaction (\<lambda>s. case switch_target sc target s of
      Inl e \<Rightarrow> Some (Inl e, s) | Inr t \<Rightarrow> Some (answer t (run_statements (switch_order sc t) s)))"

definition delete_scene_automation :: "string \<Rightarrow> scene_db \<Rightarrow> gerror option \<times> scene_db" where
  "delete_scene_automation sc = statement ''scene_automations.delete'' (fold snd (update_order sc) \<circ>
     on_auto (\<lambda>a. a\<lparr>au_scenes := filter (\<lambda>x. sa_id x \<noteq> sc) (au_scenes a),
       au_scene_logs := filter (\<lambda>l. lg_scene l \<noteq> sc) (au_scene_logs a)\<rparr>))"

section \<open>Reading a scene back\<close>

datatype scene_detail =
    PeriodicDetail string int string
  | OnceDetail int int
  | ConditionDetail trigger_condition

text \<open>\<open>GetSceneAutomation\<close>: every task is a group of its own, the conditions are grouped in the order
  of Go's map.\<close>

definition get_scene_automation :: "auto_env \<Rightarrow> string \<Rightarrow> scene_db \<Rightarrow>
    (scene_automation \<times> scene_detail list list \<times> action_info list) res" where
  "get_scene_automation env sc s =
     (if \<exists>q \<in> {''scene_automations.first'', ''device_trigger_condition.find'', ''one_time_tasks.find'', ''periodic_tasks.find'',
          ''action_info.find''}. sb_fault q s \<noteq> None then Inl code_db_error
      else case find (\<lambda>x. sa_id x = sc) (au_scenes (sb_auto s)) of
        None \<Rightarrow> Inl code_db_error
      | Some x \<Rightarrow>
          let cs = filter (\<lambda>c. tc_scene c = sc) (au_conditions (sb_auto s))
          in Inr (x,
            map (\<lambda>t. [PeriodicDetail (pt_type t) (pt_expiration t) (pt_param t)]) (filter (\<lambda>t. pt_scene t = sc) (sb_periodic s)) @
            map (\<lambda>t. [OnceDetail (ot_execution t) (ot_expiration t)]) (filter (\<lambda>t. ot_scene t = sc) (sb_once s)) @
            map (\<lambda>g. map ConditionDetail (conditions_of g cs)) (groups_of env cs),
            filter (\<lambda>a. ac_scene a = sc) (au_actions (sb_auto s))))"

section \<open>The caches afterwards\<close>

text \<open>\<open>AutomateCacheSet\<close>: the enabled conditions and the actions of the scene.\<close>

definition automate_cache_set :: "auto_env \<Rightarrow> string \<Rightarrow> auto \<Rightarrow> (gerror option \<times> auto) option" where
  "automate_cache_set env sc a =
     (if au_db_fault a ''device_trigger_condition.find'' \<noteq> None \<or> au_db_fault a ''action_info.find'' \<noteq> None
      then Some (Some code_db_error, a)
      else map_option (\<lambda>(e, a1). (if e = None then None else Some code_db_error, a1))
        (set_cache_by_scene env sc (filter (\<lambda>c. tc_scene c = sc \<and> tc_enabled c = ''Y'') (au_conditions a))
           (filter (\<lambda>x. ac_scene x = sc) (au_actions a)) a))"

definition after_create :: "auto_env \<Rightarrow> string \<Rightarrow> scene_req \<Rightarrow> auto \<Rightarrow> auto option" where
  "after_create env sc r a = (if sr_enabled r = ''Y'' then map_option snd (automate_cache_set env sc a) else Some a)"

text \<open>Both caches of the scene; errors are only logged.\<close>

definition clear_scene_caches :: "string \<Rightarrow> auto \<Rightarrow> auto option" where
  "clear_scene_caches sc a = Option.bind (delete_cache_by_scene sc a) (\<lambda>(_, a1).
     case get_by_scene sc a1 of
       Inl _ \<Rightarrow> Some a1
     | Inr gs \<Rightarrow> each (\<lambda>g a. map_option snd (delete_by_group_id g a)) gs a1)"

definition after_update :: "auto_env \<Rightarrow> scene_req \<Rightarrow> auto \<Rightarrow> auto option" where
  "after_update env r a = Option.bind (clear_scene_caches (sr_id r) a) (\<lambda>a1.
     if sr_enabled r = ''Y'' then map_option snd (automate_cache_set env (sr_id r) a1) else Some a1)"

definition after_switch :: "auto_env \<Rightarrow> string \<Rightarrow> string \<Rightarrow> auto \<Rightarrow> auto option" where
  "after_switch env sc target a =
     (if target = ''Y'' then map_option snd (automate_cache_set env sc a)
      else if target = ''N'' then map_option snd (delete_cache_by_scene sc a) else Some a)"

end
