(* ===== verification/SceneEdits.thy ===== *)
theory SceneEdits
  imports SceneAdmin
begin

text \<open>
  What the administration of scene automations guarantees: an update replaces the rows of its scene and
  no others, in one step or not at all; a scene reads back as it was requested; a scene that is switched
  off is checked no more; a condition without a source ends the process.
\<close>

section \<open>The rows of a request\<close>

text \<open>Every condition of a request with the ids of its group and its row.\<close>

fun placed :: "(nat \<Rightarrow> string) \<Rightarrow> scene_condition list list \<Rightarrow> (string \<times> string \<times> scene_condition) list" where
  "placed u [] = []"
| "placed u (cs # gs) = map (Pair (u 0)) (zip (map u [1 ..< Suc (length cs)]) cs) @ placed (\<lambda>k. u (k + Suc (length cs))) gs"

definition is_device :: "scene_condition \<Rightarrow> bool" where
  "is_device c \<longleftrightarrow> sc_type c \<in> {''10'', ''11'', ''22''}"

definition device_rows :: "string \<Rightarrow> string \<Rightarrow> (string \<times> string \<times> scene_condition) list \<Rightarrow> trigger_condition list" where
  "device_rows sc en ws = map (\<lambda>(g, i, c). condition_row i sc g en c) (filter (\<lambda>(g, i, c). is_device c) ws)"

definition once_rows :: "string \<Rightarrow> string \<Rightarrow> (string \<times> string \<times> scene_condition) list \<Rightarrow> one_time_task list" where
  "once_rows sc en ws = map (\<lambda>(g, i, c). task_row i sc en c) (filter (\<lambda>(g, i, c). sc_type c = ''20'') ws)"

definition periodic_rows :: "bool \<Rightarrow> string \<Rightarrow> (string \<times> string \<times> scene_condition) list \<Rightarrow> periodic_task list" where
  "periodic_rows create sc ws = map (\<lambda>(g, i, c). periodic_row create i sc c) (filter (\<lambda>(g, i, c). sc_type c = ''21'') ws)"

lemmas row_defs = device_rows_def once_rows_def periodic_rows_def

lemma rows_append [simp]:
  "device_rows sc en (ws @ ws') = device_rows sc en ws @ device_rows sc en ws'"
  "once_rows sc en (ws @ ws') = once_rows sc en ws @ once_rows sc en ws'"
  "periodic_rows b sc (ws @ ws') = periodic_rows b sc ws @ periodic_rows b sc ws'"
  "device_rows sc en [] = []" "once_rows sc en [] = []" "periodic_rows b sc [] = []"
  by (simp_all add: row_defs)

definition put_rows :: "bool \<Rightarrow> string \<Rightarrow> string \<Rightarrow> (string \<times> string \<times> scene_condition) list \<Rightarrow> scene_db \<Rightarrow> scene_db" where
  "put_rows create sc en ws s = s
     \<lparr>sb_auto := (sb_auto s)\<lparr>au_conditions := au_conditions (sb_auto s) @ device_rows sc en ws\<rparr>,
      sb_once := sb_once s @ once_rows sc en ws, sb_periodic := sb_periodic s @ periodic_rows create sc ws\<rparr>"

lemma put_rows_append: "put_rows b sc en (ws @ ws') s = put_rows b sc en ws' (put_rows b sc en ws s)"
  by (simp add: put_rows_def)

lemma put_rows_Nil [simp]: "put_rows b sc en [] s = s"
  by (simp add: put_rows_def)

definition supported :: "scene_condition \<Rightarrow> bool" where
  "supported c \<longleftrightarrow> is_device c \<or> sc_type c = ''20'' \<or> sc_type c = ''21''"

lemma add_condition_ok:
  "add_condition b sc en g (i, c) s = Some (None, s') \<Longrightarrow> s' = put_rows b sc en [(g, i, c)] s \<and> supported c"
  by (auto simp: add_condition_def insert_row_def statement_def on_auto_def put_rows_def row_defs is_device_def supported_def
      split: if_split_asm option.split_asm)

lemma add_conditions_ok:
  "until_error_opt (add_condition b sc en g) ics s = Some (None, s') \<Longrightarrow>
     s' = put_rows b sc en (map (Pair g) ics) s \<and> (\<forall>(i, c) \<in> set ics. supported c)"
proof (induction ics arbitrary: s)
  case (Cons ic ics)
  obtain i c where ic: "ic = (i, c)" by (cases ic)
  from Cons.prems obtain s1 where 1: "add_condition b sc en g (i, c) s = Some (None, s1)"
      "until_error_opt (add_condition b sc en g) ics s1 = Some (None, s')"
    by (auto simp: ic split: option.split_asm prod.split_asm)
  from add_condition_ok [OF 1(1)] Cons.IH [OF 1(2)] put_rows_append [of b sc en "[(g, i, c)]" "map (Pair g) ics" s]
  show ?case by (auto simp: ic)
qed simp

lemma zip_values: "length xs = length ys \<Longrightarrow> y \<in> set ys \<Longrightarrow> \<exists>x. (x, y) \<in> set (zip xs ys)"
  by (metis in_set_impl_in_set_zip2)

lemma add_groups_ok:
  "add_groups b u sc en gs s = Some (None, s') \<Longrightarrow>
     s' = put_rows b sc en (placed u gs) s \<and> (\<forall>cs \<in> set gs. \<not> mixed cs \<and> (\<forall>c \<in> set cs. supported c))"
proof (induction b u sc en gs s rule: add_groups.induct)
  case (2 b u sc en cs gs s)
  let ?z = "zip (map u [1 ..< Suc (length cs)]) cs"
  from "2.prems" obtain s1 where 1: "until_error_opt (add_condition b sc en (u 0)) ?z s = Some (None, s1)"
      "\<not> mixed cs" "add_groups b (\<lambda>k. u (k + Suc (length cs))) sc en gs s1 = Some (None, s')"
    by (auto simp del: upt_Suc split: option.split_asm prod.split_asm if_split_asm)
  have "\<forall>c \<in> set cs. supported c"
  proof
    fix c assume "c \<in> set cs"
    then obtain i where "(i, c) \<in> set ?z"
      using zip_values [of "map u [1 ..< Suc (length cs)]" cs c] by (auto simp del: upt_Suc)
    with add_conditions_ok [OF 1(1)] show "supported c" by blast
  qed
  moreover have "s1 = put_rows b sc en (map (Pair (u 0)) ?z) s" using add_conditions_ok [OF 1(1)] by blast
  moreover have "s' = put_rows b sc en (placed (\<lambda>k. u (k + Suc (length cs))) gs) s1"
      "\<forall>cs \<in> set gs. \<not> mixed cs \<and> (\<forall>c \<in> set cs. supported c)"
    using "2.IH" [OF 1(1) refl refl 1(2,3)] by blast+
  ultimately show ?case using 1(2) by (simp add: put_rows_append del: upt_Suc)
qed simp

lemma add_actions_ok:
  "until_error (add_action sc) xs s = (None, s') \<Longrightarrow>
     s' = on_auto (\<lambda>t. t\<lparr>au_actions := au_actions t @ map (action_row sc) xs\<rparr>) s"
proof (induction xs arbitrary: s)
  case (Cons a xs)
  from Cons.prems obtain s1 where "add_action sc a s = (None, s1)" "until_error (add_action sc) xs s1 = (None, s')"
    by (auto split: prod.split_asm option.split_asm)
  moreover from this(1) have "s1 = on_auto (\<lambda>t. t\<lparr>au_actions := au_actions t @ [action_row sc a]\<rparr>) s"
    by (auto simp: add_action_def statement_def split: option.split_asm)
  ultimately show ?case using Cons.IH [of s1] by (simp add: on_auto_def)
qed (simp add: on_auto_def)

text \<open>All rows of a request, after those of other scenes.\<close>

definition put_request :: "bool \<Rightarrow> (nat \<Rightarrow> string) \<Rightarrow> string \<Rightarrow> scene_req \<Rightarrow> scene_db \<Rightarrow> scene_db" where
  "put_request create u sc r s = on_auto (\<lambda>t. t\<lparr>au_actions := au_actions t @ map (action_row sc) (sr_actions r)\<rparr>)
     (put_rows create sc (sr_enabled r) (placed u (sr_groups r)) s)"

lemma add_rows_ok:
  "add_rows b u sc r s = Some (None, s') \<Longrightarrow> s' = put_request b u sc r s \<and>
     (\<forall>cs \<in> set (sr_groups r). \<not> mixed cs \<and> (\<forall>c \<in> set cs. supported c))"
proof -
  assume "add_rows b u sc r s = Some (None, s')"
  then obtain s1 where 1: "add_groups b u sc (sr_enabled r) (sr_groups r) s = Some (None, s1)"
      "until_error (add_action sc) (sr_actions r) s1 = (None, s')"
    by (auto simp: add_rows_def split: option.split_asm prod.split_asm)
  show ?thesis using add_groups_ok [OF 1(1)] add_actions_ok [OF 1(2)] unfolding put_request_def by blast
qed

section \<open>Edits\<close>

lemma transaction_cases:
  assumes "in_transaction body s = Some (x, s')"
  obtains (refused) e where "x = Inl e" "s' = s"
  | (accepted) y s1 where "body s = Some (Inr y, s1)" "x = Inr y" "s' = (if sb_fault ''commit'' s = None then s1 else s)"
proof (cases "sb_fault ''begin'' s")
  case None
  with assms obtain r s1 where r: "body s = Some (r, s1)" by (cases "body s") (auto simp: in_transaction_def)
  show ?thesis
  proof (cases r)
    case (Inl e)
    with r None assms show ?thesis by (intro refused) (auto simp: in_transaction_def)
  next
    case (Inr y)
    with r None assms show ?thesis by (intro accepted) (auto simp: in_transaction_def)
  qed
next
  case (Some e)
  with assms show ?thesis by (intro refused) (auto simp: in_transaction_def)
qed

lemma run_statements_ok: "run_statements qs s = (None, s') \<Longrightarrow> s' = fold snd qs s"
proof (induction qs arbitrary: s)
  case (Cons q qs)
  from Cons.prems obtain s1 where "statement (fst q) (snd q) s = (None, s1)" "run_statements qs s1 = (None, s')"
    by (auto simp: run_statements_def split: prod.split_asm option.split_asm)
  moreover from this(1) have "s1 = snd q s" by (auto simp: statement_def split: option.split_asm)
  ultimately show ?case using Cons.IH [of s1] by simp
qed (simp add: run_statements_def)

definition without_scene :: "string \<Rightarrow> scene_db \<Rightarrow> scene_db" where
  "without_scene sc s = s
     \<lparr>sb_auto := (sb_auto s)\<lparr>au_conditions := filter (\<lambda>c. tc_scene c \<noteq> sc) (au_conditions (sb_auto s)),
        au_actions := filter (\<lambda>x. ac_scene x \<noteq> sc) (au_actions (sb_auto s))\<rparr>,
      sb_once := filter (\<lambda>t. ot_scene t \<noteq> sc) (sb_once s), sb_periodic := filter (\<lambda>t. pt_scene t \<noteq> sc) (sb_periodic s)\<rparr>"

lemma update_order_fold: "fold snd (update_order sc) s = without_scene sc s"
  by (simp add: update_order_def without_scene_def on_auto_def)

definition saved :: "string \<Rightarrow> scene_req \<Rightarrow> scene_db \<Rightarrow> scene_db" where
  "saved tenant r = on_auto (\<lambda>a. a\<lparr>au_scenes := save_scene
     \<lparr>sa_id = sr_id r, sa_enabled = sr_enabled r, sa_tenant_id = tenant\<rparr> (au_scenes a)\<rparr>)"

lemma body_ok:
  assumes "map_option (answer z) (case R of (Some e, s) \<Rightarrow> Some (Some e, s) | (None, s) \<Rightarrow> f s) = Some (Inr y, s1)"
  obtains s0 where "R = (None, s0)" "f s0 = Some (None, s1)" "y = z"
proof (cases R)
  case (Pair e s0)
  show ?thesis
  proof (cases e)
    case None
    with assms Pair obtain p where "f s0 = Some p" "answer z p = (Inr y, s1)" by auto
    with that [of s0] Pair None show ?thesis by (cases p) (auto simp: answer_def split: option.split_asm)
  qed (use assms Pair in \<open>simp add: answer_def\<close>)
qed

lemma update_ok:
  assumes "update_scene_automation u tenant r s = Some (x, s')"
  shows "(\<exists>e. x = Inl e) \<and> s' = s \<or> x = Inr (sr_id r) \<and>
    s' = (if sb_fault ''commit'' s = None then put_request False u (sr_id r) r (without_scene (sr_id r) (saved tenant r s)) else s) \<and>
    (\<forall>cs \<in> set (sr_groups r). \<not> mixed cs \<and> (\<forall>c \<in> set cs. supported c))"
  using assms unfolding update_scene_automation_def
proof (cases rule: transaction_cases)
  case (accepted y s1)
  from accepted(1) obtain s0 where "run_statements ((''scene_automations.save'', saved tenant r) # update_order (sr_id r)) s = (None, s0)"
      "add_rows False u (sr_id r) r s0 = Some (None, s1)" "y = sr_id r"
    unfolding saved_def by (rule body_ok)
  moreover from this(1) have "s0 = without_scene (sr_id r) (saved tenant r s)"
    by (auto dest!: run_statements_ok simp: update_order_fold)
  ultimately show ?thesis using accepted(2,3) add_rows_ok by blast
qed simp

lemma insert_row_cases: "insert_row q t f s = (None, f s) \<and> \<not> t \<or> (\<exists>e. insert_row q t f s = (Some e, s))"
  by (simp add: insert_row_def statement_def split: option.split)

lemma create_ok:
  assumes "create_scene_automation u tenant r s = Some (Inr sc, s')"
  shows "sc = u 0 \<and> (\<forall>x \<in> set (au_scenes (sb_auto s)). sa_id x \<noteq> u 0) \<and>
    s' = (if sb_fault ''commit'' s = None
      then put_request True (\<lambda>k. u (Suc k)) (u 0) r (on_auto (\<lambda>a. a\<lparr>au_scenes := au_scenes a @
        [\<lparr>sa_id = u 0, sa_enabled = ''N'', sa_tenant_id = tenant\<rparr>]\<rparr>) s) else s)"
  using assms unfolding create_scene_automation_def
proof (cases rule: transaction_cases)
  case (accepted y s1)
  define F where "F = on_auto (\<lambda>a. a\<lparr>au_scenes := au_scenes a @ [\<lparr>sa_id = u 0, sa_enabled = ''N'', sa_tenant_id = tenant\<rparr>]\<rparr>)"
  define T where "T \<longleftrightarrow> (\<exists>x \<in> set (au_scenes (sb_auto s)). sa_id x = u 0)"
  let ?row = "insert_row ''scene_automations.create'' T F s"
  have body: "map_option (answer (u 0)) (case ?row of (Some e, s1) \<Rightarrow> Some (Some e, s1)
      | (None, s1) \<Rightarrow> add_rows True (\<lambda>k. u (Suc k)) (u 0) r s1) = Some (Inr y, s1)"
    using accepted(1) unfolding F_def T_def .
  obtain s0 where p: "?row = (None, s0)" "add_rows True (\<lambda>k. u (Suc k)) (u 0) r s0 = Some (None, s1)" "y = u 0"
    using body by (rule body_ok)
  then have row: "s0 = F s" "\<not> T" using insert_row_cases [of "''scene_automations.create''" T F s] by auto
  with add_rows_ok [of True "\<lambda>k. u (Suc k)" "u 0" r "F s" s1] p(2,3) row accepted(2,3)
  show ?thesis unfolding F_def T_def by blast
qed simp

text \<open>C14: An update replaces a scene as a whole. When UpdateSceneAutomation fails, on whatever
  statement, nothing has changed. When it answers with the id and the commit was not lost, no group
  mixes single devices with configurations, every condition has a supported type, and the tables hold
  the rows of the other scenes as they were, followed by exactly the rows the request describes.\<close>
theorem scene_update_replaces:
  assumes "update_scene_automation u tenant r s = Some (x, s')"
  shows "case x of Inl e \<Rightarrow> s' = s
    | Inr sc \<Rightarrow> sc = sr_id r \<and> (if sb_fault ''commit'' s \<noteq> None then s' = s
       else (\<forall>cs \<in> set (sr_groups r). \<not> mixed cs \<and> (\<forall>c \<in> set cs. supported c)) \<and>
         au_scenes (sb_auto s') = save_scene \<lparr>sa_id = sc, sa_enabled = sr_enabled r, sa_tenant_id = tenant\<rparr> (au_scenes (sb_auto s)) \<and>
         au_conditions (sb_auto s') = filter (\<lambda>c. tc_scene c \<noteq> sc) (au_conditions (sb_auto s)) @
           device_rows sc (sr_enabled r) (placed u (sr_groups r)) \<and>
         au_actions (sb_auto s') = filter (\<lambda>a. ac_scene a \<noteq> sc) (au_actions (sb_auto s)) @ map (action_row sc) (sr_actions r) \<and>
         sb_once s' = filter (\<lambda>t. ot_scene t \<noteq> sc) (sb_once s) @ once_rows sc (sr_enabled r) (placed u (sr_groups r)) \<and>
         sb_periodic s' = filter (\<lambda>t. pt_scene t \<noteq> sc) (sb_periodic s) @ periodic_rows False sc (placed u (sr_groups r)) \<and>
         au_redis (sb_auto s') = au_redis (sb_auto s))"
  using update_ok [OF assms]
  by (auto simp: put_request_def put_rows_def without_scene_def saved_def on_auto_def split: sum.split)

section \<open>Reading back\<close>

definition detail_of :: "string \<Rightarrow> string \<Rightarrow> scene_condition \<Rightarrow> scene_detail" where
  "detail_of sc en c =
     (let expiration = (case sc_expiration c of None \<Rightarrow> 0 | Some m \<Rightarrow> m)
      in if sc_type c = ''21'' then PeriodicDetail (or_empty (sc_task c)) expiration (or_empty (sc_params c))
         else if sc_type c = ''20'' then OnceDetail (case sc_execution c of None \<Rightarrow> zero_time | Some t \<Rightarrow> t) expiration
         else ConditionDetail (condition_row '''' sc '''' en c))"

definition anonymous :: "scene_detail \<Rightarrow> scene_detail" where
  "anonymous d = (case d of ConditionDetail c \<Rightarrow> ConditionDetail (c\<lparr>tc_id := '''', tc_group := ''''\<rparr>) | _ \<Rightarrow> d)"

text \<open>Conditions on devices only, or a single task.\<close>

definition one_kind :: "scene_condition list \<Rightarrow> bool" where
  "one_kind cs \<longleftrightarrow> cs \<noteq> [] \<and> list_all is_device cs \<or> (\<exists>c. cs = [c] \<and> sc_type c \<in> {''20'', ''21''})"

definition grouped :: "trigger_condition list \<Rightarrow> scene_detail list list" where
  "grouped cs = map (\<lambda>g. map ConditionDetail (conditions_of g cs)) (remdups (map tc_group cs))"

definition details :: "string \<Rightarrow> string \<Rightarrow> (string \<times> string \<times> scene_condition) list \<Rightarrow> scene_detail list list" where
  "details sc en ws =
     map (\<lambda>t. [PeriodicDetail (pt_type t) (pt_expiration t) (pt_param t)]) (periodic_rows False sc ws) @
     map (\<lambda>t. [OnceDetail (ot_execution t) (ot_expiration t)]) (once_rows sc en ws) @ grouped (device_rows sc en ws)"

lemma remdups_append_disjoint: "set xs \<inter> set ys = {} \<Longrightarrow> remdups (xs @ ys) = remdups xs @ remdups ys"
  by (induction xs) auto

lemma grouped_append:
  assumes "tc_group ` set xs \<inter> tc_group ` set ys = {}"
  shows "grouped (xs @ ys) = grouped xs @ grouped ys"
proof -
  have "conditions_of g (xs @ ys) = (if g \<in> tc_group ` set xs then conditions_of g xs else conditions_of g ys)" for g
    using assms by (auto simp: conditions_of_def filter_empty_conv image_iff)
  moreover have "g \<notin> tc_group ` set xs" if "g \<in> tc_group ` set ys" for g using assms that by auto
  ultimately show ?thesis using assms by (simp add: grouped_def remdups_append_disjoint)
qed

lemma grouped_single: "xs \<noteq> [] \<Longrightarrow> \<forall>x \<in> set xs. tc_group x = g \<Longrightarrow> grouped xs = [map ConditionDetail xs]"
proof -
  assume a: "xs \<noteq> []" "\<forall>x \<in> set xs. tc_group x = g"
  then have m: "map tc_group xs = replicate (length xs) g" by (simp add: map_replicate_const [symmetric] cong: map_cong)
  have "remdups (replicate n g) = (if n = 0 then [] else [g])" for n by (induction n) auto
  moreover have "conditions_of g xs = xs" using a(2) by (simp add: conditions_of_def filter_id_conv)
  ultimately show ?thesis using a(1) by (simp add: grouped_def m)
qed

lemma placed_group: "(g, i, c) \<in> set (placed u gs) \<Longrightarrow> g \<in> range u"
  by (induction u gs rule: placed.induct) auto

lemma details_append:
  assumes "tc_group ` set (device_rows sc en ws) \<inter> tc_group ` set (device_rows sc en ws') = {}"
  shows "mset (map f (details sc en (ws @ ws'))) = mset (map f (details sc en ws)) + mset (map f (details sc en ws'))"
  by (simp add: details_def grouped_append [OF assms])

lemma block_details:
  assumes "one_kind cs" "length is = length cs"
  shows "map (map anonymous) (details sc en (map (Pair g) (zip is cs))) = [map (detail_of sc en) cs]"
  using assms(1) unfolding one_kind_def
proof (elim disjE conjE exE)
  assume cs: "cs \<noteq> []" "list_all is_device cs"
  let ?ws = "map (Pair g) (zip is cs)"
  have d: "is_device c" "sc_type c \<noteq> ''20''" "sc_type c \<noteq> ''21''" if "(i, c) \<in> set (zip is cs)" for i c
    using cs(2) that by (auto simp: list_all_iff is_device_def dest!: set_zip_rightD)
  then have "filter (\<lambda>(g, i, c). is_device c) ?ws = ?ws" "filter (\<lambda>(g, i, c). sc_type c = ''20'') ?ws = []"
      "filter (\<lambda>(g, i, c). sc_type c = ''21'') ?ws = []"
    by (auto simp: filter_id_conv filter_empty_conv)
  then have r: "device_rows sc en ?ws = map (\<lambda>(i, c). condition_row i sc g en c) (zip is cs)"
      "once_rows sc en ?ws = []" "periodic_rows False sc ?ws = []"
    by (simp_all add: row_defs)
  have "zip is cs \<noteq> []" using cs(1) assms(2) by (cases cs; cases "is") auto
  then have "grouped (device_rows sc en ?ws) = [map ConditionDetail (device_rows sc en ?ws)]"
    by (intro grouped_single [where g = g]) (auto simp: r(1) condition_row_def)
  moreover have "map (anonymous \<circ> ConditionDetail) (device_rows sc en ?ws) = map (detail_of sc en) cs"
  proof -
    have "map (anonymous \<circ> ConditionDetail) (device_rows sc en ?ws) = map (detail_of sc en \<circ> snd) (zip is cs)"
      unfolding r(1) map_map using d by (intro map_cong) (auto simp: anonymous_def detail_of_def condition_row_def)
    also have "\<dots> = map (detail_of sc en) cs" using assms(2) by (simp add: map_snd_zip flip: map_map)
    finally show ?thesis .
  qed
  ultimately show ?thesis by (simp add: details_def r(2,3))
next
  fix c assume c: "cs = [c]" "sc_type c \<in> {''20'', ''21''}"
  then obtain i where "is = [i]" using assms(2) by (cases "is") auto
  with c show ?thesis
    by (auto simp: details_def row_defs grouped_def is_device_def detail_of_def anonymous_def task_row_def periodic_row_def
        split: option.split)
qed

lemma device_rows_group: "tc_group ` set (device_rows sc en ws) \<subseteq> fst ` set ws"
  by (force simp: row_defs condition_row_def)

lemma placed_details:
  "inj u \<Longrightarrow> \<forall>cs \<in> set gs. one_kind cs \<Longrightarrow>
     mset (map (map anonymous) (details sc en (placed u gs))) = mset (map (map (detail_of sc en)) gs)"
proof (induction u gs rule: placed.induct)
  case (1 u)
  show ?case by (simp add: details_def grouped_def)
next
  case (2 u cs gs)
  let ?b = "map (Pair (u 0)) (zip (map u [1 ..< Suc (length cs)]) cs)" and ?u = "\<lambda>k. u (k + Suc (length cs))"
  have "inj ?u" by (rule injI) (use "2.prems"(1) in \<open>auto dest: injD\<close>)
  with "2.IH" "2.prems"(2)
  have rest: "mset (map (map anonymous) (details sc en (placed ?u gs))) = mset (map (map (detail_of sc en)) gs)" by simp
  have "u 0 \<notin> range ?u" using "2.prems"(1) by (auto simp: inj_eq)
  then have "fst ` set ?b \<inter> fst ` set (placed ?u gs) = {}" by (auto dest!: placed_group simp del: upt_Suc)
  then have disj: "tc_group ` set (device_rows sc en ?b) \<inter> tc_group ` set (device_rows sc en (placed ?u gs)) = {}"
    using device_rows_group [of sc en ?b] device_rows_group [of sc en "placed ?u gs"] by blast
  have block: "map (map anonymous) (details sc en ?b) = [map (detail_of sc en) cs]"
    by (rule block_details) (use "2.prems"(2) in \<open>auto simp del: upt_Suc\<close>)
  show ?case
    using details_append [OF disj, of "map anonymous"] unfolding placed.simps rest block
    by (simp del: upt_Suc)
qed

lemma device_rows_scene [simp]:
  "filter (\<lambda>c. tc_scene c = sc) (device_rows sc en ws) = device_rows sc en ws"
  "filter (\<lambda>t. ot_scene t = sc) (once_rows sc en ws) = once_rows sc en ws"
  "filter (\<lambda>t. pt_scene t = sc) (periodic_rows b sc ws) = periodic_rows b sc ws"
  "filter (\<lambda>a. ac_scene a = sc) (map (action_row sc) xs) = map (action_row sc) xs"
  by (auto simp: row_defs condition_row_def task_row_def periodic_row_def action_row_def filter_id_conv)

lemma find_saved: "find (\<lambda>y. sa_id y = sa_id x) (save_scene x xs) = Some x"
proof -
  have "find (\<lambda>y. sa_id y = sa_id x) (map (\<lambda>y. if sa_id y = sa_id x then x else y) xs) = Some x"
    if "\<exists>y \<in> set xs. sa_id y = sa_id x" using that by (induction xs) auto
  moreover have "find (\<lambda>y. sa_id y = sa_id x) (xs @ [x]) = Some x" if "\<not> (\<exists>y \<in> set xs. sa_id y = sa_id x)"
    using that by (induction xs) auto
  ultimately show ?thesis by (simp add: save_scene_def)
qed

lemma mset_groups_of:
  assumes "\<And>xs. mset (ae_ord env xs) = mset xs"
  shows "mset (map f (groups_of env cs)) = mset (map f (remdups (map tc_group cs)))"
  unfolding groups_of_def mset_map assms ..


section \<open>Switching off\<close>

lemma rd_set_redis: "rd_set k v ttl s = (e, s') \<Longrightarrow> \<exists>r. s' = s\<lparr>au_redis := r\<rparr> \<and> (e = None \<longrightarrow> r k = Some (v, au_now s + ttl))"
  by (auto simp: rd_set_def intro: exI [of _ "au_redis s"] split: option.split_asm)

lemma until_error_redis:
  assumes "\<And>x s e s'. f x s = (e, s') \<Longrightarrow> \<exists>r. s' = s\<lparr>au_redis := r\<rparr>" "until_error f xs s = (e, s')"
  shows "\<exists>r. s' = s\<lparr>au_redis := r\<rparr>"
  using assms(2)
proof (induction xs arbitrary: s)
  case (Cons x xs)
  obtain e1 s1 where 1: "f x s = (e1, s1)" by (cases "f x s")
  with assms(1) obtain r where r: "s1 = s\<lparr>au_redis := r\<rparr>" by blast
  show ?case
  proof (cases e1)
    case None
    with Cons.prems 1 have "until_error f xs s1 = (e, s')" by simp
    with Cons.IH r show ?thesis by fastforce
  qed (use Cons.prems 1 r in auto)
next
  case Nil
  then show ?case by (intro exI [of _ "au_redis s"]) simp
qed

lemma set_cache_base:
  assumes "set_cache env d config cs as s = (None, s')"
  shows "\<exists>r. s' = s\<lparr>au_redis := r\<rparr> \<and>
    r (base_key s (if config \<noteq> '''' then config else d)) = Some (RInfos (scene_infos env cs as), au_now s + automate_ttl)"
proof -
  obtain e1 s1 where 1: "until_error (put_group cs) (groups_of env cs) s = (e1, s1)"
    by (cases "until_error (put_group cs) (groups_of env cs) s")
  have e1: "e1 = None" using assms 1 by (cases e1) (auto simp: set_cache_def)
  obtain e2 s2 where 2: "until_error (put_action as) (scene_infos env cs as) s1 = (e2, s2)"
    by (cases "until_error (put_action as) (scene_infos env cs as) s1")
  have e2: "e2 = None" using assms 1 2 e1 by (cases e2) (auto simp: set_cache_def)
  obtain r1 where r1: "s1 = s\<lparr>au_redis := r1\<rparr>"
    using until_error_redis [OF _ 1] by (auto simp: put_group_def dest: rd_set_redis)
  obtain r2 where r2: "s2 = s1\<lparr>au_redis := r2\<rparr>"
    using until_error_redis [OF _ 2] by (auto simp: put_action_def dest: rd_set_redis)
  have "rd_set (base_key s2 (if config \<noteq> '''' then config else d)) (RInfos (scene_infos env cs as)) automate_ttl s2 = (None, s')"
    using assms 1 2 e1 e2 by (simp add: set_cache_def)
  from rd_set_redis [OF this] show ?thesis by (auto simp: r1 r2)
qed

lemma cached_scene_id: "cached_scene s i = Some x \<Longrightarrow> si_scene x = di_scene i \<and> get_action (action_key s (di_scene i)) s \<noteq> None"
  by (auto simp: cached_scene_def split: option.split_asm)

lemma cache_scenes:
  assumes "get_cache_by_d_id d config k s = Inr (y, p)" "x \<in> set (xp_scenes p)"
  obtains "is" i where "scan_infos k s = Inr (CacheOk, is)" "i \<in> set is" "cached_scene s i = Some x"
proof -
  obtain z "is" where z: "scan_infos k s = Inr (z, is)" using assms(1) by (auto simp: get_cache_by_d_id_def split: sum.split_asm)
  with assms have ok: "z = CacheOk" "x \<in> set (List.map_filter (cached_scene s) is)"
    by (auto simp: get_cache_by_d_id_def split: if_split_asm)
  then obtain i where "i \<in> set is" "cached_scene s i = Some x" by (auto simp: List.map_filter_def)
  with z ok(1) show ?thesis by (intro that) auto
qed

text \<open>What is loaded from the tables is enabled there.\<close>

lemma query_scenes:
  assumes "query_automate_info env d config s = (Inr (y, p), s')" "x \<in> set (xp_scenes p)"
  shows "\<exists>c \<in> set (au_conditions s). tc_scene c = si_scene x \<and> tc_enabled c = ''Y''"
proof -
  let ?own = "if config \<noteq> '''' then conditions_by_device config ''11'' s else conditions_by_device d ''10'' s"
  obtain own where own: "?own = Inr own" using assms by (auto simp: query_automate_info_def split: sum.split_asm)
  have ne: "own \<noteq> []" using assms own by (auto simp: query_automate_info_def split: prod.split_asm option.split_asm)
  obtain cs where cs: "conditions_by_groups (map tc_group own) s = Inr cs"
    using assms own ne by (cases own) (auto simp: query_automate_info_def split: sum.split_asm)
  obtain as where as: "actions_by_scenes (remdups (map tc_scene own)) s = Inr as"
    using assms own ne cs by (cases own) (auto simp: query_automate_info_def split: sum.split_asm)
  obtain e s1 where 1: "set_cache_by_device_id env d config cs as s = (e, s1)" by (cases "set_cache_by_device_id env d config cs as s")
  have eq: "query_automate_info env d config s = (case e of
      Some e \<Rightarrow> (Inl (wrap (utf8 [232, 174, 190, 231, 189, 174, 232, 135, 170, 229, 138, 168, 229, 140, 150, 231, 188, 147, 229, 173, 152, 229, 164, 177, 232, 180, 165]) e), s1)
    | None \<Rightarrow> get_cache_by_device_id d config s1)"
    using own ne cs as 1 by (cases own) (simp_all add: query_automate_info_def)
  then have e: "e = None" using assms(1) by (cases e) auto
  let ?k = "if config \<noteq> '''' then config else d"
  obtain r where r: "s1 = (set_device_type (kind_of config) s)\<lparr>au_redis := r\<rparr>"
      "r (base_key (set_device_type (kind_of config) s) ?k) = Some (RInfos (scene_infos env cs as), au_now s + automate_ttl)"
    using set_cache_base [OF 1 [unfolded set_cache_by_device_id_def e]] by auto
  have same: "set_device_type (kind_of config) s1 = s1" by (rule set_device_type_same) (simp add: r(1) set_device_type_def)
  have swap: "(if config = '''' then d else config) = ?k" by simp
  have "get_cache_by_d_id d config (base_key s1 ?k) s1 = Inr (y, p)"
    using assms(1) eq e unfolding get_cache_by_device_id_def same Let_def swap by auto
  from cache_scenes [OF this assms(2)] obtain "is" i where i: "scan_infos (base_key s1 ?k) s1 = Inr (CacheOk, is)" "i \<in> set is"
      "cached_scene s1 i = Some x" by blast
  have "is = scene_infos env cs as" using i(1) r
    by (auto simp: scan_infos_def rd_get_def automate_ttl_def split: option.split_asm if_split_asm)
  with i(2,3) obtain c where "c \<in> set cs" "tc_scene c = si_scene x" by (auto simp: scene_infos_def dest!: cached_scene_id)
  with cs show ?thesis by (auto simp: conditions_by_groups_def split: option.split_asm)
qed

text \<open>What the deletion of a scene does to the store: keys go, and the lists of devices change.\<close>

definition shrinks :: "auto \<Rightarrow> (string \<rightharpoonup> redis_value \<times> int) \<Rightarrow> bool" where
  "shrinks s r \<longleftrightarrow> (\<forall>k. r k = au_redis s k \<or> r k = None \<or> k \<in> range (base_key s))"

lemma shrinks_refl [simp]: "shrinks s (au_redis s)"
  by (simp add: shrinks_def)

lemma device_cache_delete_ok:
  "no_redis_faults s \<Longrightarrow> \<exists>r ks'. device_cache_delete sc ds ks s = (None, ks @ ks', s\<lparr>au_redis := r\<rparr>) \<and> shrinks s r"
proof (induction ds arbitrary: ks s)
  case Nil
  show ?case by (intro exI [of _ "au_redis s"] exI [of _ "[]"]) simp
next
  case (Cons d ds)
  show ?case
  proof (cases "\<exists>is. rd_get (base_key s d) s = Inr (RInfos is)")
    case True
    then obtain "is" where "is": "rd_get (base_key s d) s = Inr (RInfos is)" by blast
    show ?thesis
    proof (cases "drop_scene sc is = []")
      case True
      define s1 where "s1 = s\<lparr>au_redis := (au_redis s)(base_key s d \<mapsto> (RInfos [], au_now s + automate_ttl))\<rparr>"
      have set: "rd_set (base_key s d) (RInfos []) automate_ttl s = (None, s1)" using Cons.prems by (simp add: s1_def)
      have "no_redis_faults s1" using Cons.prems by (simp add: s1_def)
      from Cons.IH [OF this, of ks] obtain r ks' where
        r: "device_cache_delete sc ds ks s1 = (None, ks @ ks', s1\<lparr>au_redis := r\<rparr>)" "shrinks s1 r" by blast
      have "shrinks s r" using r(2) unfolding shrinks_def by (auto simp del: not_None_eq simp: s1_def fun_upd_def split: if_split_asm)
      moreover have "device_cache_delete sc (d # ds) ks s = (None, ks @ ks', s\<lparr>au_redis := r\<rparr>)"
        using r(1) True set "is" by (simp add: s1_def)
      ultimately show ?thesis by blast
    next
      case False
      from Cons.IH [OF Cons.prems, of "ks @ [base_key s d]"] False "is" show ?thesis by auto
    qed
  next
    case False
    with Cons.IH [OF Cons.prems, of ks] show ?thesis by (auto split: sum.split redis_value.split)
  qed
qed

definition typed_actions :: "(string \<rightharpoonup> redis_value \<times> int) \<Rightarrow> bool" where
  "typed_actions r \<longleftrightarrow> (\<forall>k i v t. r (get_automate_cache_key k ''_action_'' i) = Some (v, t) \<longrightarrow> (\<exists>gs as. v = RAction gs as))"

lemma shrinks_action:
  "shrinks s r \<Longrightarrow> r (get_automate_cache_key k ''_action_'' i) \<in>
     {au_redis s (get_automate_cache_key k ''_action_'' i), None}"
  by (auto simp: shrinks_def base_key_def)

lemma shrinks_typed:
  assumes "shrinks s r" "typed_actions (au_redis s)" shows "typed_actions r"
  unfolding typed_actions_def
proof (intro allI impI)
  fix k i v t assume "r (get_automate_cache_key k ''_action_'' i) = Some (v, t)"
  with shrinks_action [OF assms(1), of k i] have "au_redis s (get_automate_cache_key k ''_action_'' i) = Some (v, t)" by simp
  with assms(2) show "\<exists>gs as. v = RAction gs as" unfolding typed_actions_def by blast
qed

lemma delete_pass:
  assumes "no_redis_faults s" "typed_actions (au_redis s)" "delete_cache_by_scene_aut_id sc s = Some (e, s')"
  shows "e = None \<and> (\<exists>r. s' = s\<lparr>au_redis := r\<rparr> \<and> shrinks s r \<and> uncached r (au_now s) (action_key s sc))"
proof (cases "rd_get (action_key s sc) s")
  case (Inl err)
  then have "err = RedisNil" "uncached (au_redis s) (au_now s) (action_key s sc)"
    using assms(1) by (auto simp: rd_get_ok uncached_def split: option.split_asm if_split_asm)
  with Inl assms(3) show ?thesis by (auto simp: delete_cache_by_scene_aut_id_def intro: exI [of _ "au_redis s"])
next
  case (Inr v)
  then obtain gs as where v: "v = RAction gs as"
    using assms(1,2) by (fastforce simp: rd_get_ok typed_actions_def action_key_def split: option.split_asm if_split_asm)
  let ?ks = "action_key s sc # map (group_key s) gs"
  let ?cs = "concat (map (\<lambda>g. case get_group (group_key s g) s of None \<Rightarrow> [] | Some cs \<Rightarrow> cs) gs)"
  obtain ds where ds: "sources (kind_condition (au_cache_device s)) ?cs = Some ds"
    using assms(3) Inr v by (auto simp: delete_cache_by_scene_aut_id_def Let_def split: option.split_asm)
  obtain r ks' where r: "device_cache_delete sc ds ?ks s = (None, ?ks @ ks', s\<lparr>au_redis := r\<rparr>)" "shrinks s r"
    using device_cache_delete_ok [OF assms(1)] by blast
  let ?r = "\<lambda>k. if k \<in> set (?ks @ ks') then None else r k"
  have "rd_del (?ks @ ks') (s\<lparr>au_redis := r\<rparr>) = (None, s\<lparr>au_redis := ?r\<rparr>)"
    using assms(1) by (simp add: rd_del_def no_faultD fun_eq_iff)
  then have "(e, s') = (None, s\<lparr>au_redis := ?r\<rparr>)"
    using assms(3) Inr v ds r(1) by (simp add: delete_cache_by_scene_aut_id_def Let_def)
  moreover have "shrinks s ?r" using r(2) by (auto simp: shrinks_def)
  ultimately show ?thesis by (auto simp: uncached_def)
qed

lemma delete_scene_uncached:
  assumes "no_redis_faults s" "typed_actions (au_redis s)" "delete_cache_by_scene sc s = Some (e, s')"
  shows "(\<exists>r k. s' = s\<lparr>au_redis := r, au_cache_device := k\<rparr>) \<and>
    (\<forall>k. uncached (au_redis s') (au_now s) (get_automate_cache_key k ''_action_'' sc))"
proof -
  let ?m = "set_device_type MultipleDevice s"
  obtain e1 s1 where 1: "delete_cache_by_scene_aut_id sc ?m = Some (e1, s1)"
    using assms(3) by (auto simp: delete_cache_by_scene_def for_both_def split: option.split_asm)
  from delete_pass [OF _ _ this] assms(1,2)
  obtain r where e1: "e1 = None" and r: "s1 = ?m\<lparr>au_redis := r\<rparr>" "shrinks ?m r" "uncached r (au_now s) (action_key ?m sc)" by auto
  let ?o = "set_device_type OneDevice s1"
  have 2: "delete_cache_by_scene_aut_id sc ?o = Some (e, s')"
    using assms(3) 1 e1 by (simp add: delete_cache_by_scene_def for_both_def)
  have nf: "no_redis_faults ?o" "typed_actions (au_redis ?o)" "au_now ?o = au_now s"
    using assms(1) shrinks_typed [OF r(2)] assms(2) by (simp_all add: r(1))
  obtain r' where r': "s' = ?o\<lparr>au_redis := r'\<rparr>" "shrinks ?o r'" "uncached r' (au_now s) (action_key ?o sc)"
    using delete_pass [OF nf(1,2) 2] nf(3) by auto
  have "uncached r' (au_now s) (get_automate_cache_key k ''_action_'' sc)" for k
  proof (cases k)
    case OneDevice
    with r'(3) show ?thesis by (simp add: action_key_def set_device_type_def)
  next
    case MultipleDevice
    with r(3) have "uncached r (au_now s) (get_automate_cache_key k ''_action_'' sc)" by (simp add: action_key_def set_device_type_def)
    with shrinks_action [OF r'(2), of k sc] show ?thesis by (auto simp: uncached_def r(1))
  qed
  moreover have "\<exists>r k. s' = s\<lparr>au_redis := r, au_cache_device := k\<rparr>"
    by (intro exI [of _ r'] exI [of _ OneDevice]) (simp add: r(1) r'(1) set_device_type_def)
  ultimately show ?thesis by (simp add: r'(1))
qed

lemma cached_is_stored:
  assumes "get_cache_by_d_id d config k s = Inr (y, p)" "x \<in> set (xp_scenes p)"
  shows "\<not> uncached (au_redis s) (au_now s) (action_key s (si_scene x))"
proof -
  from cache_scenes [OF assms] obtain "is" i where i: "cached_scene s i = Some x" by blast
  then have "get_action (action_key s (si_scene x)) s \<noteq> None" by (auto dest: cached_scene_id)
  then show ?thesis by (auto simp: get_action_def rd_get_def uncached_def split: sum.split_asm option.split_asm if_split_asm)
qed

lemma switch_ok:
  assumes "switch_scene_automation sc target s = Some (Inr t, s')" "sb_fault ''commit'' s = None"
  shows "s' = fold snd (switch_order sc t) s"
  using assms(1) unfolding switch_scene_automation_def
proof (cases rule: transaction_cases)
  case (accepted y s1)
  then obtain t' where "switch_target sc target s = Inr t'" "answer t' (run_statements (switch_order sc t') s) = (Inr y, s1)"
    by (auto split: sum.split_asm)
  moreover obtain e s0 where 0: "run_statements (switch_order sc t') s = (e, s0)" by (cases "run_statements (switch_order sc t') s")
  ultimately have "e = None" "t' = y" "s0 = s1" by (auto simp: answer_def split: option.split_asm)
  with run_statements_ok [of "switch_order sc t'" s s0] 0 accepted(2,3) assms(2) show ?thesis by simp
qed simp

lemma get_cache_device: "fst (get_cache_by_device_id d config s) = Inr (y, p) \<Longrightarrow>
    \<exists>k. get_cache_by_d_id d config k (set_device_type (kind_of config) s) = Inr (y, p)"
  by (auto simp: get_cache_by_device_id_def Let_def)

text \<open>C25: A scene that is switched off is checked no more. Once SwitchSceneAutomation has answered
  with the target N, was committed, and its goroutine has run without Redis errors, no report sees the
  scene: whatever the clock and the faults are by then, neither reading the cache of any device or
  configuration nor filling it again from the tables gives the scene.\<close>
theorem switch_off_takes_effect:
  assumes "switch_scene_automation sc target s = Some (Inr ''N'', s')" "sb_fault ''commit'' s = None"
    and "no_redis_faults (sb_auto s)" "typed_actions (au_redis (sb_auto s))"
    and "after_switch env sc ''N'' (sb_auto s') = Some a" "au_now (sb_auto s) \<le> w_now w"
    and "fst (get_cache_by_device_id d config (later w a)) = Inr (y, p) \<or>
      fst (query_automate_info env d config (later w a)) = Inr (y, p)"
  shows "\<forall>x \<in> set (xp_scenes p). si_scene x \<noteq> sc"
proof
  fix x assume x: "x \<in> set (xp_scenes p)"
  note s' = switch_ok [OF assms(1,2)]
  have off: "\<forall>c \<in> set (au_conditions (sb_auto s')). tc_scene c = sc \<longrightarrow> tc_enabled c = ''N''"
  proof (intro ballI impI)
    fix c assume c: "c \<in> set (au_conditions (sb_auto s'))" "tc_scene c = sc"
    have "au_conditions (sb_auto s') =
        map (\<lambda>c. if tc_scene c = sc then c\<lparr>tc_enabled := ''N''\<rparr> else c) (au_conditions (sb_auto s))"
      by (simp add: s' switch_order_def on_auto_def)
    with c(1) have "c \<in> (\<lambda>c. if tc_scene c = sc then c\<lparr>tc_enabled := ''N''\<rparr> else c) ` set (au_conditions (sb_auto s))"
      by simp
    then obtain b where "c = (if tc_scene b = sc then b\<lparr>tc_enabled := ''N''\<rparr> else b)" by (rule imageE)
    with c(2) show "tc_enabled c = ''N''" by (cases "tc_scene b = sc") simp_all
  qed
  have a': "no_redis_faults (sb_auto s')" "typed_actions (au_redis (sb_auto s'))" "au_now (sb_auto s') = au_now (sb_auto s)"
    using assms(3,4) by (simp_all add: s' switch_order_def on_auto_def no_redis_faults_def au_now_def)
  obtain e where "delete_cache_by_scene sc (sb_auto s') = Some (e, a)" using assms(5) by (auto simp: after_switch_def)
  from delete_scene_uncached [OF a'(1,2) this] obtain r k where a: "a = (sb_auto s')\<lparr>au_redis := r, au_cache_device := k\<rparr>"
      and unc: "\<And>k. uncached (au_redis a) (au_now (sb_auto s)) (get_automate_cache_key k ''_action_'' sc)"
    using a'(3) by auto
  from assms(7) show "si_scene x \<noteq> sc"
  proof
    assume "fst (get_cache_by_device_id d config (later w a)) = Inr (y, p)"
    then obtain q where "get_cache_by_d_id d config q (set_device_type (kind_of config) (later w a)) = Inr (y, p)"
      using get_cache_device by blast
    from cached_is_stored [OF this x] assms(6) unc [of "kind_of config"] show ?thesis
      by (fastforce simp: uncached_def action_key_def au_now_def)
  next
    assume "fst (query_automate_info env d config (later w a)) = Inr (y, p)"
    then obtain t where "query_automate_info env d config (later w a) = (Inr (y, p), t)"
      by (cases "query_automate_info env d config (later w a)") simp
    from query_scenes [OF this x] off show ?thesis by (auto simp: later_def a)
  qed
qed

section \<open>A condition without a source\<close>

lemma sources_None: "c \<in> set cs \<Longrightarrow> tc_type c = ty \<Longrightarrow> tc_source c = None \<Longrightarrow> sources ty cs = None"
  by (force simp: sources_def image_iff)

lemma placed_has:
  "cs \<in> set gs \<Longrightarrow> c \<in> set cs \<Longrightarrow> \<exists>g i. (g, i, c) \<in> set (placed u gs)"
proof (induction u gs rule: placed.induct)
  case (2 u cs' gs)
  show ?case
  proof (cases "cs = cs'")
    case True
    then obtain i where "(i, c) \<in> set (zip (map u [1 ..< Suc (length cs')]) cs')"
      using zip_values [of "map u [1 ..< Suc (length cs')]" cs' c] "2.prems"(2) by (auto simp del: upt_Suc)
    then show ?thesis by (force simp del: upt_Suc)
  next
    case False
    with "2" show ?thesis by (simp del: upt_Suc) blast
  qed
qed simp

text \<open>A request can end the process. A condition on a single device or a configuration may come
  without a source; when such a scene is created as enabled, the request is answered with its id, and
  the goroutine that caches it dereferences the missing source, a panic nothing recovers.\<close>
theorem missing_source_crashes:
  assumes "create_scene_automation u tenant r s = Some (Inr sc, s')" "sb_fault ''commit'' s = None"
    and "sr_enabled r = ''Y''" "cs \<in> set (sr_groups r)" "c \<in> set cs" "sc_type c \<in> {''10'', ''11''}" "sc_source c = None"
    and "no_redis_faults (sb_auto s)" "\<forall>q. sb_fault q s = None" "\<And>xs. mset (ae_ord env xs) = mset xs"
  shows "after_create env sc r (sb_auto s') = None"
proof -
  let ?a = "sb_auto s'" and ?ws = "placed (\<lambda>k. u (Suc k)) (sr_groups r)"
  have s': "s' = put_request True (\<lambda>k. u (Suc k)) sc r (on_auto (\<lambda>a. a\<lparr>au_scenes := au_scenes a @
        [\<lparr>sa_id = sc, sa_enabled = ''N'', sa_tenant_id = tenant\<rparr>]\<rparr>) s)"
    using create_ok [OF assms(1)] assms(2) by simp
  then have au: "au_conditions ?a = au_conditions (sb_auto s) @ device_rows sc ''Y'' ?ws" "au_world ?a = au_world (sb_auto s)"
    by (simp_all add: put_request_def put_rows_def on_auto_def assms(3))
  let ?cs = "filter (\<lambda>c. tc_scene c = sc \<and> tc_enabled c = ''Y'') (au_conditions ?a)"
  obtain g i where "(g, i, c) \<in> set ?ws" using placed_has [OF assms(4,5)] by blast
  then have "condition_row i sc g ''Y'' c \<in> set ?cs"
    using assms(6) by (force simp: au(1) row_defs is_device_def condition_row_def)
  then have src: "sources (sc_type c) ?cs = None" by (rule sources_None) (simp_all add: condition_row_def assms(7))
  have nf: "no_redis_faults ?a" using assms(8) by (simp add: no_redis_faults_def au(2))
  have "set_cache_by_scene env sc ?cs as ?a = None" for as
  proof (cases "sources ''11'' ?cs")
    case None
    then show ?thesis
      by (simp add: set_cache_by_scene_def for_both_def set_cache_by_scene_aut_id_def Let_def kind_condition_def set_device_type_def)
  next
    case (Some ds)
    with src assms(6) have ten: "sources ''10'' ?cs = None" by auto
    let ?m = "set_device_type MultipleDevice ?a"
    have "sources (kind_condition (au_cache_device ?m)) ?cs = Some ds"
      using Some by (simp add: kind_condition_def set_device_type_def)
    from scene_pass [OF _ assms(10) this, of sc as] nf
    obtain q where "set_cache_by_scene_aut_id env sc ?cs as ?m = Some (None, ?m\<lparr>au_redis := q\<rparr>)" by auto
    with ten show ?thesis
      by (simp add: set_cache_by_scene_def for_both_def set_cache_by_scene_aut_id_def Let_def kind_condition_def set_device_type_def)
  qed
  moreover have "au_db_fault ?a q = None" for q using assms(9) by (simp add: sb_fault_def au_db_fault_def au(2))
  ultimately show ?thesis by (simp add: after_create_def assms(3) automate_cache_set_def)
qed

section \<open>Witnesses\<close>

definition demo_scene_condition :: scene_condition where
  "demo_scene_condition = \<lparr>sc_type = ''10'', sc_source = Some ''d1'', sc_param_type = Some ''TEL'', sc_param = Some ''temp'',
     sc_operator = Some ''>'', sc_value = Some ''30'', sc_execution = None, sc_expiration = None, sc_task = None, sc_params = None\<rparr>"

definition demo_scene_req :: scene_req where
  "demo_scene_req = \<lparr>sr_id = ''s1'', sr_enabled = ''Y'',
     sr_groups = [[demo_scene_condition, demo_scene_condition\<lparr>sc_type := ''22''\<rparr>], [demo_scene_condition\<lparr>sc_type := ''20''\<rparr>]],
     sr_actions = [\<lparr>sx_type = ''10'', sx_target = ''d1'', sx_param_type = ''TEL'', sx_param = '''', sx_value = ''x''\<rparr>]\<rparr>"

definition demo_scenes :: scene_db where
  "demo_scenes = \<lparr>sb_auto = demo_auto\<lparr>au_conditions := [demo_condition, demo_condition\<lparr>tc_scene := ''s2'', tc_group := ''g2''\<rparr>],
     au_actions := [demo_action, demo_action\<lparr>ac_scene := ''s2''\<rparr>]\<rparr>, sb_once = [], sb_periodic = []\<rparr>"

definition demo_uuid :: "nat \<Rightarrow> string" where
  "demo_uuid k = replicate k (CHR ''u'')"

lemma demo_uuid_inj: "inj demo_uuid"
  unfolding demo_uuid_def by (rule injI) (metis length_replicate)

lemma demo_scenes_facts: "sb_fault q demo_scenes = None" "no_redis_faults (sb_auto demo_scenes)"
  "typed_actions (au_redis (sb_auto demo_scenes))" "au_now (sb_auto demo_scenes) = w_now demo_world"
  by (simp_all add: demo_scenes_def sb_fault_def au_db_fault_def demo_auto_def demo_world_def empty_world_def
      no_redis_faults_def typed_actions_def au_now_def)

lemma demo_update: "\<exists>s'. update_scene_automation demo_uuid ''t1'' demo_scene_req demo_scenes = Some (Inr ''s1'', s') \<and>
    (\<forall>q. sb_fault q s' = None)"
proof -
  have "case update_scene_automation demo_uuid ''t1'' demo_scene_req demo_scenes of Some (Inr i, _) \<Rightarrow> i = ''s1'' | _ \<Rightarrow> False"
    by code_simp
  then obtain s' where s': "update_scene_automation demo_uuid ''t1'' demo_scene_req demo_scenes = Some (Inr ''s1'', s')"
    by (auto split: option.split_asm sum.split_asm prod.split_asm)
  have "sb_fault q s' = None" for q
    using update_ok [OF s'] demo_scenes_facts(1)
    by (auto simp: put_request_def put_rows_def without_scene_def saved_def on_auto_def sb_fault_def au_db_fault_def)
  with s' show ?thesis by blast
qed

theorem scene_update_replaces_witness:
  "\<exists>s'. update_scene_automation demo_uuid ''t1'' demo_scene_req demo_scenes = Some (Inr ''s1'', s') \<and>
     map tc_scene (au_conditions (sb_auto s')) = [''s2'', ''s1'', ''s1''] \<and> map ot_state (sb_once s') = [''NEX'']"
proof -
  obtain s' where s': "update_scene_automation demo_uuid ''t1'' demo_scene_req demo_scenes = Some (Inr ''s1'', s')"
    using demo_update by blast
  have rows: "filter (\<lambda>c. tc_scene c \<noteq> ''s1'') (au_conditions (sb_auto demo_scenes)) = [demo_condition\<lparr>tc_scene := ''s2'', tc_group := ''g2''\<rparr>]"
      "map tc_scene (device_rows ''s1'' ''Y'' (placed demo_uuid (sr_groups demo_scene_req))) = [''s1'', ''s1'']"
      "map ot_state (once_rows ''s1'' ''Y'' (placed demo_uuid (sr_groups demo_scene_req))) = [''NEX'']"
      "sr_enabled demo_scene_req = ''Y''" "sb_once demo_scenes = []"
    by code_simp+
  from scene_update_replaces [OF s'] s' rows demo_scenes_facts(1) show ?thesis by auto
qed


theorem switch_off_takes_effect_witness:
  "\<exists>s' a p t. switch_scene_automation ''s1'' '''' demo_scenes = Some (Inr ''N'', s') \<and>
     after_switch demo_env ''s1'' ''N'' (sb_auto s') = Some a \<and>
     query_automate_info demo_env ''d1'' '''' (later demo_world a) = (Inr (CacheOk, p), t) \<and>
     map si_scene (xp_scenes p) = [''s2''] \<and> (\<forall>x \<in> set (xp_scenes p). si_scene x \<noteq> ''s1'')"
proof -
  let ?sw = "switch_scene_automation ''s1'' '''' demo_scenes"
  let ?off = "after_switch demo_env ''s1'' ''N'' (sb_auto (snd (the ?sw)))"
  let ?query = "query_automate_info demo_env ''d1'' '''' (later demo_world (the ?off))"
  have "map_option fst ?sw = Some (Inr ''N'')" by code_simp
  then obtain s' where s': "?sw = Some (Inr ''N'', s')" by auto
  have "?off \<noteq> None" by code_simp
  then obtain a where a: "after_switch demo_env ''s1'' ''N'' (sb_auto s') = Some a" unfolding s' by auto
  have "case fst ?query of Inl _ \<Rightarrow> False | Inr (y, p) \<Rightarrow> y = CacheOk \<and> map si_scene (xp_scenes p) = [''s2'']"
    by code_simp
  then obtain y p where q: "fst ?query = Inr (y, p)" "y = CacheOk" "map si_scene (xp_scenes p) = [''s2'']"
    by (auto split: sum.split_asm)
  obtain t where "?query = (Inr (CacheOk, p), t)" using q(1,2) by (cases ?query) auto
  then have "query_automate_info demo_env ''d1'' '''' (later demo_world a) = (Inr (CacheOk, p), t)"
    unfolding s' option.sel snd_conv a .
  note h = s' a this q(3)
  have "\<forall>x \<in> set (xp_scenes p). si_scene x \<noteq> ''s1''"
    using switch_off_takes_effect [OF h(1) demo_scenes_facts(1,2,3) h(2), of demo_world "''d1''" "''''" CacheOk p]
      demo_scenes_facts(4) h(3) by simp
  with h show ?thesis by (intro exI conjI) assumption+
qed

theorem missing_source_crashes_witness:
  "\<exists>s' r. create_scene_automation demo_uuid ''t1'' r demo_scenes = Some (Inr '''', s') \<and> after_create demo_env '''' r (sb_auto s') = None"
proof -
  let ?c = "demo_scene_condition\<lparr>sc_source := None\<rparr>"
  let ?r = "demo_scene_req\<lparr>sr_groups := [[?c]]\<rparr>"
  have "case create_scene_automation demo_uuid ''t1'' ?r demo_scenes of Some (Inr i, _) \<Rightarrow> i = '''' | _ \<Rightarrow> False" by code_simp
  then obtain s' where s': "create_scene_automation demo_uuid ''t1'' ?r demo_scenes = Some (Inr '''', s')"
    by (auto split: option.split_asm sum.split_asm prod.split_asm)
  have c: "sr_enabled ?r = ''Y''" "[?c] \<in> set (sr_groups ?r)" "?c \<in> set [?c]" "sc_type ?c \<in> {''10'', ''11''}" "sc_source ?c = None"
    by (simp_all add: demo_scene_req_def demo_scene_condition_def)
  have "\<forall>q. sb_fault q demo_scenes = None" using demo_scenes_facts(1) by simp
  from missing_source_crashes [OF s' demo_scenes_facts(1) c demo_scenes_facts(2) this demo_auto_facts(4)] s'
  show ?thesis by blast
qed

end
