(* ===== verification/SceneTime.thy ===== *)
theory SceneTime
  imports Conditions World
begin

text \<open>
  When a periodic task runs next: \<open>pkg/common/time.go\<close>, over the calendar of Go's \<open>time\<close> package. A time
  is milliseconds since the epoch; the offset of the server's zone is fixed, and a local time has it added.
  \<open>time.Date\<close> accepts months and days out of range and carries them over. The schedules of \<open>github.com/robfig/cron\<close> are a
  parameter: the next time for a specification, \<open>None\<close> when it does not parse.
\<close>

section \<open>The calendar\<close>

definition leap_year :: "int \<Rightarrow> bool" where
  "leap_year y \<longleftrightarrow> y mod 4 = 0 \<and> (y mod 100 \<noteq> 0 \<or> y mod 400 = 0)"

text \<open>Days from the epoch to the first of January, and within the year to the first of a month.\<close>

definition year_start :: "int \<Rightarrow> int" where
  "year_start y = 365 * (y - 1970) + ((y - 1) div 4 - (y - 1) div 100 + (y - 1) div 400) - 477"

definition month_starts :: "int list" where
  "month_starts = [0, 31, 59, 90, 120, 151, 181, 212, 243, 273, 304, 334]"

definition month_start :: "int \<Rightarrow> int \<Rightarrow> int" where
  "month_start y m = month_starts ! nat (m - 1) + (if 2 < m \<and> leap_year y then 1 else 0)"

text \<open>The day of \<open>time.Date\<close>, months and days carried over.\<close>

definition date_day :: "int \<Rightarrow> int \<Rightarrow> int \<Rightarrow> int" where
  "date_day y m d = (let y' = y + (m - 1) div 12; m' = (m - 1) mod 12 + 1
     in year_start y' + month_start y' m' + d - 1)"

definition year_of :: "int \<Rightarrow> int" where
  "year_of n = (let g = 1970 + (400 * n) div 146097
     in if year_start (g + 1) \<le> n then g + 1 else if year_start g \<le> n then g else g - 1)"

text \<open>The last month that has begun.\<close>

definition month_of :: "int \<Rightarrow> int" where
  "month_of n = (case find (\<lambda>m. month_start (year_of n) m \<le> n - year_start (year_of n)) [12, 11, 10, 9, 8, 7, 6, 5, 4, 3, 2] of
     Some m \<Rightarrow> m | None \<Rightarrow> 1)"

definition day_of :: "int \<Rightarrow> int" where
  "day_of n = n - year_start (year_of n) - month_start (year_of n) (month_of n) + 1"

definition day_ms :: int where "day_ms = 86400000"

definition at_clock :: "int \<Rightarrow> int \<Rightarrow> int \<Rightarrow> int \<Rightarrow> int" where
  "at_clock day h m s = day * day_ms + (h * 3600 + m * 60 + s) * 1000"

definition day_number :: "int \<Rightarrow> int" where "day_number t = t div day_ms"

definition minute_of :: "int \<Rightarrow> int" where "minute_of t = t div 60000 mod 60"

definition hour_of :: "int \<Rightarrow> int" where "hour_of t = t div 3600000 mod 24"

text \<open>\<open>time.Weekday\<close>: Sunday is 0; the epoch is a Thursday.\<close>

definition weekday :: "int \<Rightarrow> int" where "weekday day = (day + 4) mod 7"

text \<open>\<open>AddDate(0, 1, 0)\<close>.\<close>

definition add_month :: "int \<Rightarrow> int" where
  "add_month t = (let n = day_number t in date_day (year_of n) (month_of n + 1) (day_of n) * day_ms + t mod day_ms)"

section \<open>The next execution\<close>

text \<open>The first day of a range that is one of the weekdays and passes a test. Times here are local; \<open>None\<close>
  stands for the zero time.\<close>

definition first_day :: "(int \<Rightarrow> bool) \<Rightarrow> int list \<Rightarrow> int list \<Rightarrow> int option" where
  "first_day ok wds ds = find (\<lambda>d. \<exists>w \<in> set wds. w = weekday d \<and> ok d) ds"

definition get_next_time :: "int \<Rightarrow> int list \<Rightarrow> int \<times> int \<times> int \<Rightarrow> int option" where
  "get_next_time now wds c = (case c of (h, m, s) \<Rightarrow>
     let today = day_number now in
     case first_day (\<lambda>d. now < at_clock d h m s) wds (map (\<lambda>i. today + i) [0..6]) of
       Some d \<Rightarrow> Some (at_clock d h m s)
     | None \<Rightarrow> map_option (\<lambda>d. at_clock d h m s) (first_day (\<lambda>_. True) wds (map (\<lambda>i. today + 7 + i) [0..6])))"

definition get_month_next_time :: "int \<Rightarrow> int \<Rightarrow> int \<times> int \<times> int \<Rightarrow> int" where
  "get_month_next_time now target c = (case c of (h, m, s) \<Rightarrow>
     let n = day_number now; month = (if day_of n \<le> target then month_of n else month_of n + 1);
         t = at_clock (date_day (year_of n) month target) h m s
     in if t < now then add_month t else t)"

definition weekdays_of :: "string \<Rightarrow> int list" where
  "weekdays_of s = map (\<lambda>c. int (digit_val c) mod 7) (filter (\<lambda>c. is_digit c \<and> 1 \<le> digit_val c \<and> digit_val c \<le> 7) s)"

definition clock_of :: "string \<Rightarrow> (int \<times> int \<times> int) option" where
  "clock_of s = map_option (\<lambda>(h, m, sec, _, _). (h, m, sec)) (clock_fields s)"

text \<open>\<open>time.Parse("2T15:04:05-07:00", s)\<close>: the day of the first month of the year 0.\<close>

definition day_clock_of :: "string \<Rightarrow> (int \<times> int \<times> int \<times> int) option" where
  "day_clock_of s = Option.bind (one_or_two_digits s) (\<lambda>(d, r). case r of
     [] \<Rightarrow> None | c # r1 \<Rightarrow> if c = CHR ''T'' \<and> 1 \<le> d \<and> d \<le> 31 then map_option (Pair d) (clock_of r1) else None)"

definition bad_format :: gerror where "bad_format = Errorf (utf8 [230, 151, 182, 233, 151, 180, 230, 160, 188, 229, 188, 143, 233, 148, 153, 232, 175, 175])"
definition bad_month :: gerror where "bad_month = Errorf (utf8 [230, 151, 182, 233, 151, 180, 232, 167, 163, 230, 158, 144, 233, 148, 153, 232, 175, 175, 239, 188, 154])"
definition bad_cron :: gerror where "bad_cron = Errorf (''cron'' @ utf8 [230, 160, 188, 229, 188, 143, 233, 148, 153, 232, 175, 175])"
definition bad_type :: gerror where "bad_type = Errorf (utf8 [230, 156, 170, 230, 148, 175, 230, 140, 129, 231, 154, 132, 230, 151, 182, 233, 151, 180, 230, 160, 188, 229, 188, 143])"

text \<open>The offset, the time, the type of the task and its parameter; a slice of a text that is too short
  panics: \<open>None\<close>.\<close>

definition get_scene_execute_time :: "(string \<Rightarrow> int \<Rightarrow> int option) \<Rightarrow> int \<Rightarrow> int \<Rightarrow> string \<Rightarrow> string \<Rightarrow> int res option" where
  "get_scene_execute_time cron off utc ty cond =
     (let now = utc + off; today = day_number now in
      if ty = ''HOUR'' then
        (if length cond < 2 then None
         else Some (case atoi (take 2 cond) of
             None \<Rightarrow> Inl bad_format
           | Some m \<Rightarrow> if 59 < m \<or> m < 0 then Inl bad_format
               else Inr (at_clock today (if minute_of now < m then hour_of now else hour_of now + 1) m 0 - off)))
      else if ty = ''DAY'' then Some (case clock_of cond of
          None \<Rightarrow> Inl bad_format
        | Some (h, m, s) \<Rightarrow> let t = at_clock today h m s in Inr ((if t < now then t + day_ms else t) - off))
      else if ty = ''WEEK'' then Some (case split_on (CHR ''|'') cond of
          [ds, clock] \<Rightarrow> (case clock_of clock of
              None \<Rightarrow> Inl bad_format
            | Some c \<Rightarrow> Inr (case get_next_time now (weekdays_of ds) c of None \<Rightarrow> zero_time | Some t \<Rightarrow> t - off))
        | _ \<Rightarrow> Inl bad_format)
      else if ty = ''MONTH'' then Some (case day_clock_of cond of
          None \<Rightarrow> Inl bad_month | Some (d, c) \<Rightarrow> Inr (get_month_next_time now d c - off))
      else if ty = ''CRON'' then Some (case cron cond utc of None \<Rightarrow> Inl bad_cron | Some t \<Rightarrow> Inr t)
      else Some (Inl bad_type))"

section \<open>The calendar is one\<close>

lemma div_bounds: "0 < (n :: int) \<Longrightarrow> n * (x div n) \<le> x \<and> x < n * (x div n) + n"
  using mult_div_mod_eq [of n x] pos_mod_sign [of n x] pos_mod_bound [of n x] by linarith

lemma div_pred:
  assumes "0 < (n :: int)" shows "y div n = (y - 1) div n + (if y mod n = 0 then 1 else 0)"
proof (cases "y mod n = 0")
  case True
  then have "y - 1 = n * (y div n - 1) + (n - 1)" using mult_div_mod_eq [of n y] by (simp add: algebra_simps)
  then have "(y - 1) div n = y div n - 1" by (rule int_div_pos_eq) (use assms in auto)
  with True show ?thesis by simp
next
  case False
  have "y - 1 = n * (y div n) + (y mod n - 1)" using mult_div_mod_eq [of n y] by simp
  then have "(y - 1) div n = y div n"
    by (rule int_div_pos_eq) (use assms False pos_mod_sign [of n y] pos_mod_bound [of n y] in linarith)+
  with False show ?thesis by simp
qed

lemma year_start_bounds:
  "- 506 \<le> 400 * year_start y - 146097 * (y - 1970)" "400 * year_start y - 146097 * (y - 1970) \<le> 589"
  using div_bounds [of 4 "y - 1"] div_bounds [of 100 "y - 1"] div_bounds [of 400 "y - 1"]
  by (simp_all add: year_start_def)

lemma year_of_bounds: "year_start (year_of n) \<le> n" "n < year_start (year_of n + 1)"
proof -
  define g where "g = 1970 + (400 * n) div 146097"
  have g: "146097 * (g - 1970) \<le> 400 * n" "400 * n < 146097 * (g - 1970) + 146097"
    using div_bounds [of 146097 "400 * n"] by (simp_all add: g_def)
  note b = year_start_bounds [of "g - 1"] year_start_bounds [of "g + 2"]
  have o: "n < year_start (g + 2)" using b(3) g(2) by (simp add: algebra_simps)
  have o': "year_start (g - 1) \<le> n" using b(2) g(1) by (simp add: algebra_simps)
  have y: "year_of n = (if year_start (g + 1) \<le> n then g + 1 else if year_start g \<le> n then g else g - 1)"
    by (simp add: year_of_def g_def Let_def)
  have "year_start (year_of n) \<le> n \<and> n < year_start (year_of n + 1)"
  proof (cases "year_start (g + 1) \<le> n")
    case True
    then have "year_of n = g + 1" by (simp add: y)
    with True o show ?thesis by (simp add: add.assoc)
  next
    case False
    show ?thesis
    proof (cases "year_start g \<le> n")
      case True
      with False y have "year_of n = g" by simp
      with True False show ?thesis by simp
    next
      case g0: False
      with False y have "year_of n = g - 1" by simp
      with g0 o' show ?thesis by simp
    qed
  qed
  then show "year_start (year_of n) \<le> n" "n < year_start (year_of n + 1)" by simp_all
qed

lemma mod_steps: "(y :: int) mod 100 = 0 \<Longrightarrow> y mod 4 = 0" "(y :: int) mod 400 = 0 \<Longrightarrow> y mod 100 = 0"
  by (simp_all add: mod_eq_0_iff_dvd) (auto elim!: dvd_trans [rotated])

lemma year_length: "year_start (y + 1) = year_start y + (if leap_year y then 366 else 365)"
proof -
  define q4 q100 q400 where q: "q4 = (y - 1) div 4" "q100 = (y - 1) div 100" "q400 = (y - 1) div 400"
  have d: "y div 4 = q4 + (if y mod 4 = 0 then 1 else 0)" "y div 100 = q100 + (if y mod 100 = 0 then 1 else 0)"
      "y div 400 = q400 + (if y mod 400 = 0 then 1 else 0)"
    unfolding q by (rule div_pred; simp)+
  have s: "year_start y = 365 * (y - 1970) + (q4 - q100 + q400) - 477" by (simp add: year_start_def q)
  have t: "year_start (y + 1) = 365 * (y + 1 - 1970) + (y div 4 - y div 100 + y div 400) - 477"
    by (simp add: year_start_def)
  show ?thesis unfolding s t d leap_year_def using mod_steps [of y]
    by (cases "y mod 4 = 0"; cases "y mod 100 = 0"; cases "y mod 400 = 0"; simp only: if_True if_False; simp)
qed

lemma month_starts_nth [simp]:
  "month_start y 1 = 0" "month_start y 2 = 31" "month_start y 3 = 59 + (if leap_year y then 1 else 0)"
  "month_start y 4 = 90 + (if leap_year y then 1 else 0)" "month_start y 5 = 120 + (if leap_year y then 1 else 0)"
  "month_start y 6 = 151 + (if leap_year y then 1 else 0)" "month_start y 7 = 181 + (if leap_year y then 1 else 0)"
  "month_start y 8 = 212 + (if leap_year y then 1 else 0)" "month_start y 9 = 243 + (if leap_year y then 1 else 0)"
  "month_start y 10 = 273 + (if leap_year y then 1 else 0)" "month_start y 11 = 304 + (if leap_year y then 1 else 0)"
  "month_start y 12 = 334 + (if leap_year y then 1 else 0)"
  by (simp_all add: month_start_def month_starts_def)

lemma month_of_range: "1 \<le> month_of n" "month_of n \<le> 12"
  by (auto simp: month_of_def)

lemma month_of_bounds:
  "month_start (year_of n) (month_of n) \<le> n - year_start (year_of n)"
  "month_of n < 12 \<Longrightarrow> n - year_start (year_of n) < month_start (year_of n) (month_of n + 1)"
  using year_of_bounds(1) [of n] by (auto simp: month_of_def)

lemma date_day_year: "1 \<le> m \<Longrightarrow> m \<le> 12 \<Longrightarrow> date_day y m d = year_start y + month_start y m + d - 1"
proof -
  assume m: "1 \<le> m" "m \<le> 12"
  then have "(m - 1) div 12 = 0" "(m - 1) mod 12 = m - 1" by (simp_all add: div_pos_pos_trivial)
  then show ?thesis by (simp add: date_day_def)
qed

text \<open>Year, month and day are those of the day, and the day is before the next month.\<close>

lemma date_of_day: "date_day (year_of n) (month_of n) (day_of n) = n"
  using month_of_range [of n] by (simp add: date_day_year day_of_def)

lemma day_of_pos: "1 \<le> day_of n"
  using month_of_bounds(1) [of n] by (simp add: day_of_def)

lemma date_day_shift: "date_day y m d = date_day y m 1 + d - 1"
  by (simp add: date_day_def Let_def)

lemma before_next_month: "n < date_day (year_of n) (month_of n + 1) 1"
proof (cases "month_of n = 12")
  case True
  then have "date_day (year_of n) (month_of n + 1) 1 = year_start (year_of n + 1)" by (simp add: date_day_def)
  with year_of_bounds(2) [of n] show ?thesis by simp
next
  case False
  with month_of_range [of n] month_of_bounds(2) [of n] show ?thesis by (simp add: date_day_year)
qed

lemma same_month: "date_day (year_of n) (month_of n) d = n + d - day_of n"
  using date_day_shift [of "year_of n" "month_of n" d] date_day_shift [of "year_of n" "month_of n" "day_of n"] date_of_day [of n]
  by simp

section \<open>The next execution is the next one\<close>

lemma clock_parts:
  obtains c where "0 \<le> c" "c < 60000" "0 \<le> minute_of t" "minute_of t < 60" "0 \<le> hour_of t" "hour_of t < 24"
    "t = day_number t * day_ms + hour_of t * 3600000 + minute_of t * 60000 + c"
proof -
  define B where "B = t div 60000"
  define A where "A = B div 60"
  have d: "t div 60000 = B" "t div 3600000 = A" "t div day_ms = A div 24"
    by (simp_all add: A_def B_def day_ms_def zdiv_zmult2_eq [symmetric])
  have dn: "day_number t = A div 24" unfolding day_number_def by (rule d(3))
  have "t = 60000 * B + t mod 60000" by (simp add: B_def)
  moreover have "B = 60 * A + minute_of t" by (simp add: A_def minute_of_def d)
  moreover have "A = 24 * (A div 24) + hour_of t" by (simp add: hour_of_def d)
  ultimately have "t = day_number t * day_ms + hour_of t * 3600000 + minute_of t * 60000 + t mod 60000"
    unfolding dn day_ms_def by linarith
  then show ?thesis by (intro that [of "t mod 60000"]) (simp_all add: minute_of_def hour_of_def)
qed

lemma day_bounds: "day_number t * day_ms \<le> t" "t < day_number t * day_ms + day_ms"
  using div_bounds [of day_ms t] by (simp_all add: day_number_def day_ms_def mult.commute)

lemma clock_of_range: "clock_of s = Some (h, m, sec) \<Longrightarrow> 0 \<le> h \<and> h < 24 \<and> 0 \<le> m \<and> m < 60 \<and> 0 \<le> sec \<and> sec < 60"
proof -
  have two: "two_digits r = Some (x, q) \<Longrightarrow> 0 \<le> x" for r x q
    by (auto simp: two_digits_def split: list.split_asm if_split_asm)
  have one: "one_or_two_digits r = Some (x, q) \<Longrightarrow> 0 \<le> x" for r x q
    by (auto simp: one_or_two_digits_def split: option.split_asm list.split_asm if_split_asm dest: two)
  assume "clock_of s = Some (h, m, sec)"
  then show ?thesis
    by (auto simp: clock_of_def clock_fields_def Option.bind_eq_Some_conv case_prod_beta split: if_split_asm dest: one two)
qed

definition clock_ms :: "int \<times> int \<times> int \<Rightarrow> int" where
  "clock_ms c = (case c of (h, m, s) \<Rightarrow> (h * 3600 + m * 60 + s) * 1000)"

lemma at_clock_ms: "at_clock d h m s = d * day_ms + clock_ms (h, m, s)"
  by (simp add: at_clock_def clock_ms_def)

lemma clock_ms_range: "clock_of s = Some c \<Longrightarrow> 0 \<le> clock_ms c \<and> clock_ms c < day_ms"
  using clock_of_range [of s] by (cases c) (force simp: clock_ms_def day_ms_def)

lemma first_day_some:
  assumes "first_day ok wds ds = Some d"
  shows "d \<in> set ds" "weekday d \<in> set wds" "ok d" "\<exists>k. d = ds ! k \<and> (\<forall>j < k. \<not> (weekday (ds ! j) \<in> set wds \<and> ok (ds ! j)))"
proof -
  from assms obtain k where k: "k < length ds" "d = ds ! k" "\<exists>w \<in> set wds. w = weekday d \<and> ok d"
      "\<forall>j < k. \<not> (\<exists>w \<in> set wds. w = weekday (ds ! j) \<and> ok (ds ! j))"
    unfolding first_day_def find_Some_iff by blast
  then show "d \<in> set ds" "weekday d \<in> set wds" "ok d" by auto
  from k show "\<exists>k. d = ds ! k \<and> (\<forall>j < k. \<not> (weekday (ds ! j) \<in> set wds \<and> ok (ds ! j)))" by (intro exI [of _ k]) auto
qed

lemma first_day_none: "first_day ok wds ds = None \<Longrightarrow> d \<in> set ds \<Longrightarrow> weekday d \<in> set wds \<Longrightarrow> \<not> ok d"
  by (auto simp: first_day_def find_None_iff)

lemma week_covered:
  assumes "w \<in> set wds" "0 \<le> w" "w < 7"
  shows "\<exists>d. today \<le> d \<and> d < today + 7 \<and> weekday d \<in> set wds"
proof -
  let ?d = "today + (w - (today + 4)) mod 7"
  have "weekday ?d = ((today + 4) + (w - (today + 4)) mod 7) mod 7" by (simp add: weekday_def algebra_simps)
  also have "\<dots> = (today + 4 + (w - (today + 4))) mod 7" by (rule mod_add_right_eq)
  also have "\<dots> = w" using assms(2,3) by simp
  finally have "weekday ?d = w" .
  with assms(1) show ?thesis by (intro exI [of _ ?d]) auto
qed

lemma upto_days: "map (\<lambda>i. today + i) [0..6] = [today, today + 1, today + 2, today + 3, today + 4, today + 5, today + 6]"
  by (simp add: upto.simps)

lemma first_day_least:
  assumes "first_day ok wds (map (\<lambda>i. a + i) [0..6]) = Some d" "a \<le> d'" "d' < d" "weekday d' \<in> set wds"
  shows "\<not> ok d'"
proof -
  let ?ds = "map (\<lambda>i. a + i) [0..6]"
  from first_day_some(4) [OF assms(1)] obtain k where k: "d = ?ds ! k" "\<forall>j < k. \<not> (weekday (?ds ! j) \<in> set wds \<and> ok (?ds ! j))"
    by blast
  have range: "d < a + 7" using first_day_some(1) [OF assms(1)] by auto
  have nth: "?ds ! nat (e - a) = e" if "a \<le> e" "e < a + 7" for e using that by (simp add: nth_upto)
  have "k < 7 \<longrightarrow> ?ds ! k = a + int k" by (simp add: nth_upto)
  moreover have "nat (d' - a) < k"
  proof (rule ccontr)
    assume "\<not> nat (d' - a) < k"
    then have "k < 7" "int k \<le> d' - a" using assms(2,3) range by linarith+
    then show False using k(1) assms(3) by (simp add: nth_upto)
  qed
  ultimately show ?thesis using k(2) nth [OF assms(2)] assms(3,4) range by fastforce
qed

lemma at_day:
  assumes "0 \<le> cm" "cm < day_ms"
  shows "day_number (d * day_ms + cm) = d" "(d * day_ms + cm) mod day_ms = cm"
  using assms by (simp_all add: day_number_def)

lemma get_next_time_week:
  assumes c: "0 \<le> clock_ms c" "clock_ms c < day_ms" and w: "wds \<noteq> []" "\<forall>w \<in> set wds. 0 \<le> w \<and> w < 7"
  obtains t where "get_next_time now wds c = Some t" "now < t" "weekday (day_number t) \<in> set wds" "t mod day_ms = clock_ms c"
    "\<And>t'. now < t' \<Longrightarrow> weekday (day_number t') \<in> set wds \<Longrightarrow> t' mod day_ms = clock_ms c \<Longrightarrow> t \<le> t'"
proof -
  let ?T = "\<lambda>d. d * day_ms + clock_ms c" and ?a = "day_number now"
  have T: "day_number (?T d) = d" "?T d mod day_ms = clock_ms c" for d by (rule at_day [OF c])+
  have form: "t' = ?T (day_number t')" if "t' mod day_ms = clock_ms c" for t'
    using that div_mult_mod_eq [of t' day_ms] by (simp add: day_number_def)
  have pos: "0 < day_ms" by (simp add: day_ms_def)
  have later: "now < ?T d" if "?a < d" for d
  proof -
    have "(?a + 1) * day_ms \<le> d * day_ms" using that pos by (intro mult_right_mono) auto
    with day_bounds(2) [of now] c(1) show ?thesis by (simp add: algebra_simps)
  qed
  have past: "d < ?a \<Longrightarrow> ?T d < now" for d
  proof -
    assume "d < ?a"
    then have "(d + 1) * day_ms \<le> ?a * day_ms" using pos by (intro mult_right_mono) auto
    with day_bounds(1) [of now] c(2) show ?thesis by (simp add: algebra_simps)
  qed
  have mono: "?T d \<le> ?T d'" if "d \<le> d'" for d d' using that pos by (simp add: mult_right_mono)
  obtain h m s where hms: "c = (h, m, s)" by (cases c)
  have eq: "at_clock d h m s = ?T d" for d by (simp add: at_clock_ms hms)
  let ?now = "first_day (\<lambda>d. now < ?T d) wds (map (\<lambda>i. ?a + i) [0..6])"
  let ?next = "first_day (\<lambda>_. True) wds (map (\<lambda>i. ?a + 7 + i) [0..6])"
  have val: "get_next_time now wds c = (case ?now of Some d \<Rightarrow> Some (?T d) | None \<Rightarrow> map_option ?T ?next)"
    unfolding get_next_time_def hms at_clock_ms Let_def prod.case ..
  show ?thesis
  proof (cases ?now)
    case (Some d)
    note f = first_day_some [OF Some]
    have "?T d \<le> t'" if t': "now < t'" "weekday (day_number t') \<in> set wds" "t' mod day_ms = clock_ms c" for t'
    proof (rule ccontr)
      assume "\<not> ?T d \<le> t'"
      then have "day_number t' < d" using form [OF t'(3)] mono [of d "day_number t'"] by linarith
      moreover have "?a \<le> day_number t'" using past [of "day_number t'"] form [OF t'(3)] t'(1) by linarith
      ultimately have "\<not> now < ?T (day_number t')" using t'(2) by (intro first_day_least [OF Some])
      then show False using form [OF t'(3)] t'(1) by simp
    qed
    with Some f(2,3) T val show ?thesis by (intro that [of "?T d"]) auto
  next
    case None
    obtain w0 where w0: "w0 \<in> set wds" using w(1) by (cases wds) auto
    obtain d0 where d0: "?a + 7 \<le> d0" "d0 < ?a + 7 + 7" "weekday d0 \<in> set wds"
      using week_covered [OF w0, of "?a + 7"] w(2) w0 by auto
    have "?next \<noteq> None"
    proof
      assume "?next = None"
      from first_day_none [OF this, of d0] d0 show False by (auto simp: image_iff intro: bexI [of _ "d0 - ?a - 7"])
    qed
    then obtain d where d: "?next = Some d" by blast
    note f = first_day_some [OF d]
    have "?T d \<le> t'" if t': "now < t'" "weekday (day_number t') \<in> set wds" "t' mod day_ms = clock_ms c" for t'
    proof (rule ccontr)
      assume "\<not> ?T d \<le> t'"
      then have "day_number t' < d" using form [OF t'(3)] mono [of d "day_number t'"] by linarith
      moreover have "?a \<le> day_number t'" using past [of "day_number t'"] form [OF t'(3)] t'(1) by linarith
      moreover have "\<not> day_number t' < ?a + 7"
      proof
        assume "day_number t' < ?a + 7"
        with \<open>?a \<le> day_number t'\<close> have "day_number t' \<in> set (map (\<lambda>i. ?a + i) [0..6])"
          by (auto simp: image_iff intro: bexI [of _ "day_number t' - ?a"])
        from first_day_none [OF None this t'(2)] form [OF t'(3)] t'(1) show False by simp
      qed
      ultimately have "\<not> True" using t'(2) by (intro first_day_least [OF d, of "day_number t'"]) simp_all
      then show False by simp
    qed
    moreover have "now < ?T d" using later [of d] f(1) by auto
    ultimately show ?thesis using None d f(2) T val by (intro that [of "?T d"]) auto
  qed
qed

lemma add_month_later: "t < add_month t"
proof -
  let ?n = "day_number t"
  have "?n < date_day (year_of ?n) (month_of ?n + 1) (day_of ?n)"
    using before_next_month [of ?n] day_of_pos [of ?n] date_day_shift [of "year_of ?n" "month_of ?n + 1" "day_of ?n"] by simp
  then have "(?n + 1) * day_ms \<le> date_day (year_of ?n) (month_of ?n + 1) (day_of ?n) * day_ms"
    by (intro mult_right_mono) (auto simp: day_ms_def)
  moreover have "t = ?n * day_ms + t mod day_ms" by (simp add: day_number_def)
  moreover have "0 < day_ms" by (simp add: day_ms_def)
  ultimately show ?thesis by (simp add: add_month_def Let_def algebra_simps)
qed

lemma day_clock_of_range:
  assumes "day_clock_of s = Some (d, c)" shows "1 \<le> d \<and> d \<le> 31 \<and> 0 \<le> clock_ms c \<and> clock_ms c < day_ms"
proof -
  obtain e r where r: "one_or_two_digits s = Some (e, r)" using assms by (cases "one_or_two_digits s") (auto simp: day_clock_of_def)
  show ?thesis
  proof (cases r)
    case (Cons x q)
    have "(if x = CHR ''T'' \<and> 1 \<le> e \<and> e \<le> 31 then map_option (Pair e) (clock_of q) else None) = Some (d, c)"
      using assms by (simp add: day_clock_of_def r Cons)
    then have "1 \<le> d" "d \<le> 31" "clock_of q = Some c" by (auto split: if_split_asm)
    with clock_ms_range show ?thesis by blast
  qed (use assms r in \<open>simp add: day_clock_of_def\<close>)
qed

lemma month_time_later:
  assumes "0 \<le> clock_ms c" "1 \<le> target" shows "now \<le> get_month_next_time now target c"
proof -
  obtain h m s where c: "c = (h, m, s)" by (cases c)
  let ?n = "day_number now"
  let ?month = "if day_of ?n \<le> target then month_of ?n else month_of ?n + 1"
  let ?t = "date_day (year_of ?n) ?month target * day_ms + clock_ms c"
  have t: "get_month_next_time now target c = (if ?t < now then add_month ?t else ?t)"
    by (simp add: get_month_next_time_def c at_clock_ms Let_def)
  show ?thesis
  proof (cases "?t < now")
    case True
    have "date_day (year_of ?n) ?month target \<le> ?n"
    proof (rule ccontr)
      assume "\<not> ?thesis"
      then have "(?n + 1) * day_ms \<le> date_day (year_of ?n) ?month target * day_ms"
        by (intro mult_right_mono) (auto simp: day_ms_def)
      with day_bounds(2) [of now] True assms(1) show False by (simp add: algebra_simps)
    qed
    have target: "target = day_of ?n"
    proof (cases "day_of ?n \<le> target")
      case True
      with \<open>date_day (year_of ?n) ?month target \<le> ?n\<close> same_month [of ?n target] show ?thesis by simp
    next
      case False
      have "?n < date_day (year_of ?n) (month_of ?n + 1) target"
        using before_next_month [of ?n] assms(2) date_day_shift [of "year_of ?n" "month_of ?n + 1" target] by linarith
      with False \<open>date_day (year_of ?n) ?month target \<le> ?n\<close> show ?thesis by simp
    qed
    let ?m = "date_day (year_of ?n) (month_of ?n + 1) target"
    have nx: "?n < ?m"
      using before_next_month [of ?n] assms(2) date_day_shift [of "year_of ?n" "month_of ?n + 1" target] by linarith
    have n: "date_day (year_of ?n) (month_of ?n) target = ?n" using same_month [of ?n target] target by simp
    show ?thesis
    proof (cases "clock_ms c < day_ms")
      case True': True
      have "day_number ?t = ?n" using at_day(1) [OF assms(1) True', of ?n] target n by simp
      then have "add_month ?t = ?m * day_ms + clock_ms c"
        using at_day(2) [OF assms(1) True'] target n by (simp add: add_month_def Let_def)
      moreover have "(?n + 1) * day_ms \<le> ?m * day_ms"
        using nx by (intro mult_right_mono) (auto simp: day_ms_def)
      ultimately show ?thesis using True day_bounds(2) [of now] assms(1) unfolding t by (simp add: algebra_simps)
    next
      case False
      with True target n day_bounds(2) [of now] show ?thesis by (simp add: day_ms_def algebra_simps)
    qed
  qed (simp add: t)
qed

lemma weekdays_range: "\<forall>w \<in> set (weekdays_of s). 0 \<le> w \<and> w < 7"
  by (auto simp: weekdays_of_def)

text \<open>Within an hour, a day: the next full minute, the next time of the clock.\<close>

lemma next_minute:
  assumes "0 \<le> m" "m \<le> 59"
  shows "now < at_clock (day_number now) (if minute_of now < m then hour_of now else hour_of now + 1) m 0 \<and>
    at_clock (day_number now) (if minute_of now < m then hour_of now else hour_of now + 1) m 0 \<le> now + 3600000"
proof -
  obtain c where c: "0 \<le> c" "c < 60000" "0 \<le> minute_of now" "minute_of now < 60"
      "now = day_number now * day_ms + hour_of now * 3600000 + minute_of now * 60000 + c"
    by (rule clock_parts [of now])
  define D where "D = day_number now * day_ms"
  have "at_clock (day_number now) h m 0 = D + h * 3600000 + m * 60000" for h by (simp add: at_clock_def D_def)
  with c assms show ?thesis unfolding D_def [symmetric] by simp
qed

lemma next_clock:
  fixes now :: int
  assumes "0 \<le> clock_ms c" "clock_ms c < day_ms"
  defines "t \<equiv> day_number now * day_ms + clock_ms c"
  shows "now \<le> (if t < now then t + day_ms else t) \<and> (if t < now then t + day_ms else t) < now + day_ms \<and>
    (if t < now then t + day_ms else t) mod day_ms = clock_ms c"
  using day_bounds [of now] assms(1,2) at_day(2) [OF assms(1,2), of "day_number now"] by (auto simp: t_def)

lemma hour_case:
  assumes "get_scene_execute_time cron off utc ''HOUR'' cond = Some (Inr t)"
  shows "utc < t \<and> t \<le> utc + 3600000"
proof -
  let ?now = "utc + off"
  obtain m where m: "atoi (take 2 cond) = Some m" "0 \<le> m" "m \<le> 59"
      "t = at_clock (day_number ?now) (if minute_of ?now < m then hour_of ?now else hour_of ?now + 1) m 0 - off"
    using assms by (auto simp: get_scene_execute_time_def Let_def split: if_split_asm option.split_asm)
  show ?thesis using next_minute [OF m(2,3), of ?now] unfolding m(4) by simp
qed

lemma day_case:
  assumes "get_scene_execute_time cron off utc ''DAY'' cond = Some (Inr t)"
  shows "utc \<le> t \<and> t < utc + day_ms \<and> (\<exists>c. clock_of cond = Some c \<and> (t + off) mod day_ms = clock_ms c)"
proof -
  let ?now = "utc + off"
  obtain h m s where c: "clock_of cond = Some (h, m, s)"
    using assms by (cases "clock_of cond") (auto simp: get_scene_execute_time_def)
  let ?x = "day_number ?now * day_ms + clock_ms (h, m, s)"
  have t: "t = (if ?x < ?now then ?x + day_ms else ?x) - off"
    using assms by (auto simp: get_scene_execute_time_def c at_clock_ms Let_def)
  have "0 \<le> clock_ms (h, m, s)" "clock_ms (h, m, s) < day_ms" using clock_ms_range [OF c] by auto
  from next_clock [OF this, of ?now] show ?thesis unfolding t c by (auto split: if_split_asm)
qed

lemma week_case:
  assumes "get_scene_execute_time cron off utc ''WEEK'' cond = Some (Inr t)"
  shows "\<exists>ds clock c. split_on (CHR ''|'') cond = [ds, clock] \<and> clock_of clock = Some c \<and>
    (if weekdays_of ds = [] then t = zero_time
     else utc < t \<and> weekday (day_number (t + off)) \<in> set (weekdays_of ds) \<and> (t + off) mod day_ms = clock_ms c \<and>
       (\<forall>t'. utc < t' \<and> weekday (day_number (t' + off)) \<in> set (weekdays_of ds) \<and> (t' + off) mod day_ms = clock_ms c \<longrightarrow> t \<le> t'))"
proof -
  let ?now = "utc + off"
  obtain ds clock c where c: "split_on (CHR ''|'') cond = [ds, clock]" "clock_of clock = Some c"
      "t = (case get_next_time ?now (weekdays_of ds) c of None \<Rightarrow> zero_time | Some t \<Rightarrow> t - off)"
    using assms by (auto simp: get_scene_execute_time_def Let_def split: list.split_asm option.split_asm)
  have r: "0 \<le> clock_ms c" "clock_ms c < day_ms" using clock_ms_range [OF c(2)] by auto
  show ?thesis
  proof (cases "weekdays_of ds = []")
    case True
    have "first_day ok [] xs = None" for ok xs by (simp add: first_day_def find_None_iff)
    then have "get_next_time ?now [] c = None" by (cases c) (simp add: get_next_time_def Let_def)
    with c True show ?thesis by (intro exI [of _ ds] exI [of _ clock] exI [of _ c]) simp
  next
    case False
    obtain x where x: "get_next_time ?now (weekdays_of ds) c = Some x" "?now < x" "weekday (day_number x) \<in> set (weekdays_of ds)"
        "x mod day_ms = clock_ms c"
        "\<And>t'. ?now < t' \<Longrightarrow> weekday (day_number t') \<in> set (weekdays_of ds) \<Longrightarrow> t' mod day_ms = clock_ms c \<Longrightarrow> x \<le> t'"
      by (rule get_next_time_week [OF r False weekdays_range, of ?now]) blast
    have t: "t = x - off" using c(3) x(1) by simp
    have "\<forall>t'. utc < t' \<and> weekday (day_number (t' + off)) \<in> set (weekdays_of ds) \<and> (t' + off) mod day_ms = clock_ms c \<longrightarrow> t \<le> t'"
      using x(5) unfolding t by (metis add_less_cancel_right diff_le_eq)
    with False c(1,2) x(2-4) show ?thesis by (intro exI [of _ ds] exI [of _ clock] exI [of _ c]) (simp add: t)
  qed
qed

lemma month_case:
  assumes "get_scene_execute_time cron off utc ''MONTH'' cond = Some (Inr t)" shows "utc \<le> t"
proof -
  obtain d c where d: "day_clock_of cond = Some (d, c)" "t = get_month_next_time (utc + off) d c - off"
    using assms by (auto simp: get_scene_execute_time_def Let_def split: option.split_asm prod.split_asm)
  with month_time_later [of c d "utc + off"] day_clock_of_range [OF d(1)] show ?thesis by simp
qed


text \<open>A monthly task for the 31st runs on the 1st. In a month of thirty days, before a day later than
  the 30th, the next execution of a task for the 31st is on the first day of the following month.\<close>
theorem month_day_overflows:
  assumes "month_of (day_number (utc + off)) \<in> {4, 6, 9, 11}" "day_of (day_number (utc + off)) \<le> 30"
    and "day_clock_of cond = Some (31, h, m, s)"
  shows "get_scene_execute_time cron off utc ''MONTH'' cond =
    Some (Inr (at_clock (date_day (year_of (day_number (utc + off))) (month_of (day_number (utc + off)) + 1) 1) h m s - off))"
proof -
  let ?now = "utc + off" let ?n = "day_number ?now" let ?y = "year_of ?n" and ?m = "month_of ?n"
  have first: "date_day ?y ?m 31 = date_day ?y (?m + 1) 1"
    using assms(1) by (auto simp: date_day_year)
  have "0 \<le> clock_ms (h, m, s)" using day_clock_of_range [OF assms(3)] by simp
  moreover have "(?n + 1) * day_ms \<le> date_day ?y ?m 31 * day_ms"
    using before_next_month [of ?n] unfolding first by (intro mult_right_mono) (auto simp: day_ms_def)
  ultimately have "\<not> at_clock (date_day ?y ?m 31) h m s < ?now"
    using day_bounds(2) [of ?now] by (simp add: at_clock_ms algebra_simps)
  then show ?thesis using assms(2,3) first by (simp add: get_scene_execute_time_def get_month_next_time_def Let_def)
qed


theorem month_day_overflows_witness:
  "\<exists>h m s. get_scene_execute_time (\<lambda>_ _. None) 0 1681300000000 ''MONTH'' ''31T08:30:00+08:00'' =
     Some (Inr (at_clock (date_day 2023 5 1) h m s - 0))"
proof -
  have d: "month_of (day_number (1681300000000 + 0)) = 4" "day_of (day_number (1681300000000 + 0)) = 12"
      "year_of (day_number (1681300000000 + 0)) = 2023" "day_clock_of ''31T08:30:00+08:00'' = Some (31, 8, 30, 0)"
    by code_simp+
  have "month_of (day_number (1681300000000 + 0)) \<in> {4, 6, 9, 11}" "day_of (day_number (1681300000000 + 0)) \<le> 30"
    by (simp_all only: d) simp_all
  from month_day_overflows [OF this d(4), of "\<lambda>_ _. None"] show ?thesis unfolding d by auto
qed

end
