(* ===== verification/TaskPoll.thy ===== *)
theory TaskPoll
  imports SceneEdits SceneTime
begin

text \<open>
  The polling of timed tasks: \<open>internal/service/automate_task.go\<close>, the queries of
  \<open>internal/dal/one_time_tasks.go\<close> and \<open>periodic_tasks.go\<close>, and the lock of \<open>pkg/common/lock.go\<close>, a Redis
  key that expires after five seconds. Cron starts a poll every five seconds, each in a goroutine of its
  own, on every instance of the program: the second part is their interleaving.
\<close>

section \<open>The lock\<close>

definition acquire_lock :: "string \<Rightarrow> int \<Rightarrow> auto \<Rightarrow> bool \<times> auto" where
  "acquire_lock k ttl a = (case w_redis_fault (au_world a) ''setnx'' k of
      Some _ \<Rightarrow> (False, a)
    | None \<Rightarrow> (case au_redis a k of
        Some (v, t) \<Rightarrow> if au_now a < t then (False, a) else (True, a\<lparr>au_redis := (au_redis a)(k \<mapsto> (RText ''1'', au_now a + ttl))\<rparr>)
      | None \<Rightarrow> (True, a\<lparr>au_redis := (au_redis a)(k \<mapsto> (RText ''1'', au_now a + ttl))\<rparr>)))"

definition release_lock :: "string \<Rightarrow> scene_db \<Rightarrow> scene_db" where
  "release_lock k = on_auto (\<lambda>a. snd (rd_del [k] a))"

definition once_lock :: string where "once_lock = ''irrigation-iot-platform:onceTask''"
definition periodic_lock :: string where "periodic_lock = ''irrigation-iot-platform:periodicTask''"
definition lock_ttl :: int where "lock_ttl = 5000"

definition not_locked :: gerror where "not_locked = Errorf (utf8 [230, 156, 170, 232, 142, 183, 229, 143, 150, 229, 136, 176, 233, 148, 129])"

section \<open>Expiry\<close>

text \<open>\<open>time.Duration(m) * time.Minute\<close> in nanoseconds, in 64 bits.\<close>

definition minutes_ns :: "int \<Rightarrow> int" where
  "minutes_ns m = (m * 60000000000 + 2 ^ 63) mod 2 ^ 64 - 2 ^ 63"

definition task_expired :: "int \<Rightarrow> int \<Rightarrow> int \<Rightarrow> bool" where
  "task_expired now execution expiration \<longleftrightarrow>
     0 < expiration \<and> execution * 1000000 + minutes_ns expiration < now * 1000000"

section \<open>Single tasks\<close>

definition once_due :: "nat \<Rightarrow> int \<Rightarrow> one_time_task list \<Rightarrow> one_time_task list" where
  "once_due limit now ts = take limit (sort_key ot_execution
     (filter (\<lambda>t. ot_execution t \<le> now \<and> ot_enabled t = ''Y'' \<and> ot_state t = ''NEX'') ts))"

definition mark_state :: "string list \<Rightarrow> string \<Rightarrow> one_time_task list \<Rightarrow> one_time_task list" where
  "mark_state is st = map (\<lambda>t. if ot_id t \<in> set is then t\<lparr>ot_state := st\<rparr> else t)"

definition get_once_tasks :: "nat \<Rightarrow> scene_db \<Rightarrow> one_time_task list res \<times> scene_db" where
  "get_once_tasks limit s = (case acquire_lock once_lock lock_ttl (sb_auto s) of
      (False, a) \<Rightarrow> (Inl not_locked, s\<lparr>sb_auto := a\<rparr>)
    | (True, a) \<Rightarrow>
        let s1 = s\<lparr>sb_auto := a\<rparr>; ts = once_due limit (au_now a) (sb_once s) in
        (case sb_fault ''one_time_tasks.find'' s of
          Some e \<Rightarrow> (Inl e, release_lock once_lock s1)
        | None \<Rightarrow>
            if ts = [] then (Inr [], release_lock once_lock s1)
            else (case sb_fault ''one_time_tasks.update'' s of
                Some e \<Rightarrow> (Inl e, release_lock once_lock s1)
              | None \<Rightarrow> (Inr ts, release_lock once_lock (s1\<lparr>sb_once := mark_state (map ot_id ts) ''EXE'' (sb_once s)\<rparr>)))))"

definition run_task :: "auto_env \<Rightarrow> string \<Rightarrow> scene_db \<Rightarrow> scene_db option" where
  "run_task env sc s = map_option (\<lambda>a. s\<lparr>sb_auto := a\<rparr>) (task_automation_execute env sc (sb_auto s))"

definition task_expiration_save :: "string list \<Rightarrow> scene_db \<Rightarrow> gerror option \<times> scene_db" where
  "task_expiration_save is s = (case sb_fault ''one_time_tasks.expire'' s of
      Some e \<Rightarrow> (Some e, s) | None \<Rightarrow> (None, s\<lparr>sb_once := mark_state is ''EXP'' (sb_once s)\<rparr>))"

text \<open>\<open>OnceTaskExecute\<close>; \<open>None\<close> when a scene never returns.\<close>

definition once_task_execute :: "auto_env \<Rightarrow> nat \<Rightarrow> scene_db \<Rightarrow> (gerror option \<times> scene_db) option" where
  "once_task_execute env limit s = (case get_once_tasks limit s of
      (Inl e, s1) \<Rightarrow> Some (Some e, s1)
    | (Inr ts, s1) \<Rightarrow>
        if ts = [] then Some (None, s1)
        else
          let late = (\<lambda>t. task_expired (au_now (sb_auto s)) (ot_execution t) (ot_expiration t))
          in map_option (task_expiration_save (map ot_id (filter late ts)))
               (each (\<lambda>t s. if late t then Some s else run_task env (ot_scene t) s) ts s1))"

section \<open>Periodic tasks\<close>

definition periodic_due :: "nat \<Rightarrow> int \<Rightarrow> periodic_task list \<Rightarrow> periodic_task list" where
  "periodic_due limit now ts = take limit (sort_key pt_execution (filter (\<lambda>t. pt_execution t \<le> now \<and> pt_enabled t = ''Y'') ts))"

definition set_execution :: "string \<Rightarrow> int \<Rightarrow> scene_db \<Rightarrow> scene_db" where
  "set_execution i t s = (if sb_fault ''periodic_tasks.update'' s \<noteq> None then s
     else s\<lparr>sb_periodic := map (\<lambda>x. if pt_id x = i then x\<lparr>pt_execution := t\<rparr> else x) (sb_periodic s)\<rparr>)"

text \<open>How the loop of \<open>GetPeriodicTaskListWithLock\<close> ends.\<close>

datatype loop_end = Finished | Failed gerror | Panicked

fun reschedule :: "(string \<Rightarrow> int \<Rightarrow> int option) \<Rightarrow> int \<Rightarrow> periodic_task list \<Rightarrow> scene_db \<Rightarrow>
    loop_end \<times> periodic_task list \<times> scene_db" where
  "reschedule cron off [] s = (Finished, [], s)"
| "reschedule cron off (t # ts) s =
     (case get_scene_execute_time cron off (au_now (sb_auto s)) (pt_type t) (pt_param t) of
        None \<Rightarrow> (Panicked, [], s)
      | Some (Inl e) \<Rightarrow> (Failed e, [], s)
      | Some (Inr next_time) \<Rightarrow> (case reschedule cron off ts (set_execution (pt_id t) next_time s) of
          (e, r, s1) \<Rightarrow> (e, if pt_execution t = zero_time then r else t # r, s1)))"

definition get_periodic_tasks :: "(string \<Rightarrow> int \<Rightarrow> int option) \<Rightarrow> int \<Rightarrow> nat \<Rightarrow> scene_db \<Rightarrow>
    loop_end \<times> periodic_task list \<times> scene_db" where
  "get_periodic_tasks cron off limit s = (case acquire_lock periodic_lock lock_ttl (sb_auto s) of
      (False, a) \<Rightarrow> (Failed not_locked, [], s\<lparr>sb_auto := a\<rparr>)
    | (True, a) \<Rightarrow>
        let s1 = s\<lparr>sb_auto := a\<rparr> in
        (case sb_fault ''periodic_tasks.find'' s of
          Some e \<Rightarrow> (Failed e, [], release_lock periodic_lock s1)
        | None \<Rightarrow> (case reschedule cron off (periodic_due limit (au_now a) (sb_periodic s)) s1 of
            (e, r, s2) \<Rightarrow> (e, r, release_lock periodic_lock s2))))"

text \<open>\<open>PeriodicTaskExecute\<close>. Cron recovers a panic.\<close>

definition periodic_task_execute :: "auto_env \<Rightarrow> (string \<Rightarrow> int \<Rightarrow> int option) \<Rightarrow> int \<Rightarrow> nat \<Rightarrow> scene_db \<Rightarrow>
    (loop_end \<times> scene_db) option" where
  "periodic_task_execute env cron off limit s = (case get_periodic_tasks cron off limit s of
      (Finished, ts, s1) \<Rightarrow> map_option (Pair Finished) (each (\<lambda>t s.
          if task_expired (au_now (sb_auto s1)) (pt_execution t) (pt_expiration t) then Some s else run_task env (pt_scene t) s) ts s1)
    | (e, _, s1) \<Rightarrow> Some (e, s1))"

section \<open>Interleaved polls\<close>

text \<open>Where a poll stands, with the time it got the lock.\<close>

datatype phase = Idle | Locked int | Selected int "one_time_task list" | Marked int

record poll_sys =
  pl_clock :: int
  pl_lock :: "int option"
  pl_tasks :: "one_time_task list"
  pl_phase :: "nat \<Rightarrow> phase"
  pl_claimed :: "string list"

definition lock_free :: "poll_sys \<Rightarrow> bool" where
  "lock_free s \<longleftrightarrow> (case pl_lock s of None \<Rightarrow> True | Some t \<Rightarrow> t \<le> pl_clock s)"

fun since :: "phase \<Rightarrow> int option" where
  "since Idle = None" | "since (Locked t) = Some t" | "since (Selected t ts) = Some t" | "since (Marked t) = Some t"

definition enter :: "nat \<Rightarrow> phase \<Rightarrow> poll_sys \<Rightarrow> poll_sys" where
  "enter p ph s = s\<lparr>pl_phase := (pl_phase s)(p := ph)\<rparr>"

text \<open>The steps of the polls \<open>p\<close>, the clock, and the administration of tasks. \<open>pl_claimed\<close> collects the
  ids of the tasks that are handed out for execution. In a prompt run every poll is over before its
  lock expires.\<close>

inductive poll_step :: "bool \<Rightarrow> nat \<Rightarrow> poll_sys \<Rightarrow> poll_sys \<Rightarrow> bool" for prompt limit where
  poll_lock: "pl_phase s p = Idle \<Longrightarrow> lock_free s \<Longrightarrow>
    poll_step prompt limit s (enter p (Locked (pl_clock s)) (s\<lparr>pl_lock := Some (pl_clock s + lock_ttl)\<rparr>))"
| poll_select: "pl_phase s p = Locked t \<Longrightarrow>
    poll_step prompt limit s (enter p (Selected t (once_due limit (pl_clock s) (pl_tasks s))) s)"
| poll_mark: "pl_phase s p = Selected t ts \<Longrightarrow>
    poll_step prompt limit s (enter p (Marked t) (s\<lparr>pl_tasks := mark_state (map ot_id ts) ''EXE'' (pl_tasks s),
      pl_claimed := pl_claimed s @ map ot_id ts\<rparr>))"
| poll_fail: "since (pl_phase s p) = Some t \<Longrightarrow> poll_step prompt limit s (enter p (Marked t) s)"
| poll_release: "pl_phase s p = Marked t \<Longrightarrow> poll_step prompt limit s (enter p Idle (s\<lparr>pl_lock := None\<rparr>))"
| poll_tick: "pl_clock s \<le> c \<Longrightarrow> (prompt \<longrightarrow> (\<forall>p t. since (pl_phase s p) = Some t \<longrightarrow> c < t + lock_ttl)) \<Longrightarrow>
    poll_step prompt limit s (s\<lparr>pl_clock := c\<rparr>)"
| poll_expire: "poll_step prompt limit s (s\<lparr>pl_tasks := mark_state is ''EXP'' (pl_tasks s)\<rparr>)"
| poll_insert: "ot_id t \<notin> set (pl_claimed s) \<union> ot_id ` set (pl_tasks s) \<Longrightarrow>
    poll_step prompt limit s (s\<lparr>pl_tasks := pl_tasks s @ [t]\<rparr>)"
| poll_delete: "poll_step prompt limit s (s\<lparr>pl_tasks := filter (\<lambda>t. ot_scene t \<noteq> sc) (pl_tasks s)\<rparr>)"
| poll_switch: "poll_step prompt limit s
    (s\<lparr>pl_tasks := map (\<lambda>t. if ot_scene t = sc then t\<lparr>ot_enabled := e\<rparr> else t) (pl_tasks s)\<rparr>)"

inductive poll_reach :: "bool \<Rightarrow> nat \<Rightarrow> poll_sys \<Rightarrow> poll_sys \<Rightarrow> bool" for prompt limit s where
  poll_refl: "poll_reach prompt limit s s"
| poll_next: "poll_reach prompt limit s s' \<Longrightarrow> poll_step prompt limit s' s'' \<Longrightarrow> poll_reach prompt limit s s''"

section \<open>Prompt polls hand out a task once\<close>

definition exclusive :: "poll_sys \<Rightarrow> bool" where
  "exclusive s \<longleftrightarrow> (\<forall>p t. since (pl_phase s p) = Some t \<longrightarrow> pl_lock s = Some (t + lock_ttl) \<and> pl_clock s < t + lock_ttl) \<and>
     (\<forall>p q. since (pl_phase s p) \<noteq> None \<longrightarrow> since (pl_phase s q) \<noteq> None \<longrightarrow> p = q)"

definition claims_ok :: "poll_sys \<Rightarrow> bool" where
  "claims_ok s \<longleftrightarrow> distinct (map ot_id (pl_tasks s)) \<and> distinct (pl_claimed s) \<and>
     (\<forall>t \<in> set (pl_tasks s). ot_id t \<in> set (pl_claimed s) \<longrightarrow> ot_state t \<noteq> ''NEX'') \<and>
     (\<forall>p t ts. pl_phase s p = Selected t ts \<longrightarrow> distinct (map ot_id ts) \<and> set (map ot_id ts) \<inter> set (pl_claimed s) = {})"

lemma mark_state_ids [simp]: "map ot_id (mark_state is st ts) = map ot_id ts"
  by (induction ts) (auto simp: mark_state_def)

lemma mark_state_mem:
  "t \<in> set (mark_state is st ts) \<Longrightarrow> \<exists>x \<in> set ts. ot_id t = ot_id x \<and> ot_state t = (if ot_id x \<in> set is then st else ot_state x)"
  by (auto simp: mark_state_def)

lemma since_enter: "since (pl_phase (enter p ph s) q) = (if q = p then since ph else since (pl_phase s q))"
  by (simp add: enter_def)

lemma enter_simps [simp]:
  "pl_clock (enter p ph s) = pl_clock s" "pl_lock (enter p ph s) = pl_lock s" "pl_tasks (enter p ph s) = pl_tasks s"
  "pl_claimed (enter p ph s) = pl_claimed s" "pl_phase (enter p ph s) = (pl_phase s)(p := ph)"
  by (simp_all add: enter_def)

lemma nobody_busy: "exclusive s \<Longrightarrow> lock_free s \<Longrightarrow> since (pl_phase s p) = None"
  by (cases "since (pl_phase s p)") (fastforce simp: exclusive_def lock_free_def)+

lemma exclusive_keep:
  assumes "exclusive s" "since (pl_phase s p) = Some t" "since ph = Some t"
    "pl_lock s' = pl_lock s" "pl_clock s' = pl_clock s" "pl_phase s' = pl_phase s"
  shows "exclusive (enter p ph s')"
proof -
  have "since (pl_phase (enter p ph s') q) = since (pl_phase s q)" for q using assms by (simp add: since_enter)
  with assms(1,4,5) show ?thesis unfolding exclusive_def enter_simps(1,2) by metis
qed

lemma exclusive_step: "poll_step True limit s s' \<Longrightarrow> exclusive s \<Longrightarrow> exclusive s'"
proof (induction rule: poll_step.induct)
  case (poll_lock s p)
  then have n: "since (pl_phase s q) = None" for q by (intro nobody_busy)
  show ?case unfolding exclusive_def by (auto simp: since_enter n lock_ttl_def)
next
  case (poll_release s p t)
  then have "since (pl_phase s q) = None" if "q \<noteq> p" for q using that unfolding exclusive_def by (metis since.simps(4) option.distinct(1))
  then show ?case unfolding exclusive_def by (auto simp: since_enter)
qed (auto intro: exclusive_keep simp: exclusive_def [where s = "pl_clock_update _ _"] exclusive_def [where s = "pl_tasks_update _ _"],
     auto simp: exclusive_def)

lemma due_distinct: "distinct (map ot_id ts) \<Longrightarrow> distinct (map ot_id (once_due limit now ts))"
proof -
  assume d: "distinct (map ot_id ts)"
  have "mset (map ot_id (sort_key ot_execution (filter P ts))) = mset (map ot_id (filter P ts))" for P by simp
  then have "distinct (map ot_id (sort_key ot_execution (filter P ts)))" for P
    using d by (metis distinct_map_filter mset_eq_imp_distinct_iff)
  then show ?thesis by (simp add: once_due_def flip: take_map)
qed

lemma due_mem: "t \<in> set (once_due limit now ts) \<Longrightarrow> t \<in> set ts \<and> ot_state t = ''NEX'' \<and> ot_enabled t = ''Y'' \<and> ot_execution t \<le> now"
  by (auto simp: once_due_def dest!: in_set_takeD)

lemma claims_step: "poll_step True limit s s' \<Longrightarrow> exclusive s \<Longrightarrow> claims_ok s \<Longrightarrow> claims_ok s'"
proof (induction rule: poll_step.induct)
  case (poll_select s p t)
  let ?ts = "once_due limit (pl_clock s) (pl_tasks s)"
  have "set (map ot_id ?ts) \<inter> set (pl_claimed s) = {}" using poll_select.prems(2) by (auto simp: claims_ok_def dest!: due_mem)
  moreover have "distinct (map ot_id ?ts)" using poll_select.prems(2) by (auto simp: claims_ok_def intro: due_distinct)
  ultimately show ?case using poll_select.prems(2) by (auto simp: claims_ok_def)
next
  case (poll_mark s p t ts)
  then have ts: "distinct (map ot_id ts)" "set (map ot_id ts) \<inter> set (pl_claimed s) = {}" unfolding claims_ok_def by blast+
  have other: "pl_phase s q \<noteq> Selected u us" if "q \<noteq> p" for q u us
    using poll_mark.prems(1) poll_mark.hyps that unfolding exclusive_def by (metis since.simps(3) option.distinct(1))
  have "ot_state x \<noteq> ''NEX''" if "x \<in> set (mark_state (map ot_id ts) ''EXE'' (pl_tasks s))"
      "ot_id x \<in> set (pl_claimed s @ map ot_id ts)" for x
    using mark_state_mem [OF that(1)] that(2) poll_mark.prems(2) by (auto simp: claims_ok_def split: if_split_asm)
  then show ?case using ts poll_mark.prems(2) other by (auto simp: claims_ok_def)
next
  case (poll_expire s "is")
  have "ot_state x \<noteq> ''NEX''" if x: "x \<in> set (mark_state is ''EXP'' (pl_tasks s))" "ot_id x \<in> set (pl_claimed s)" for x
  proof -
    obtain y where y: "y \<in> set (pl_tasks s)" "ot_id x = ot_id y" "ot_state x = (if ot_id y \<in> set is then ''EXP'' else ot_state y)"
      using mark_state_mem [OF x(1)] by blast
    with x(2) poll_expire.prems(2) have "ot_state y \<noteq> ''NEX''" by (simp add: claims_ok_def)
    with y(3) show ?thesis by simp
  qed
  then show ?case using poll_expire.prems(2) by (simp add: claims_ok_def)
next
  case (poll_switch s sc e)
  have "ot_id \<circ> (\<lambda>t :: one_time_task. if ot_scene t = sc then t\<lparr>ot_enabled := e\<rparr> else t) = ot_id" by auto
  moreover have "ot_state x \<noteq> ''NEX''"
    if "x \<in> set (map (\<lambda>t. if ot_scene t = sc then t\<lparr>ot_enabled := e\<rparr> else t) (pl_tasks s))" "ot_id x \<in> set (pl_claimed s)" for x
    using that poll_switch.prems(2) by (auto simp: claims_ok_def)
  ultimately show ?case using poll_switch.prems(2) by (simp add: claims_ok_def)
next
  case (poll_delete s sc)
  then show ?case by (auto simp: claims_ok_def distinct_map_filter)
qed (auto simp: claims_ok_def)

definition idle_polls :: "poll_sys \<Rightarrow> bool" where
  "idle_polls s \<longleftrightarrow> pl_lock s = None \<and> pl_phase s = (\<lambda>_. Idle) \<and> pl_claimed s = [] \<and> distinct (map ot_id (pl_tasks s))"

lemma reach_exclusive:
  "poll_reach True limit s s' \<Longrightarrow> idle_polls s \<Longrightarrow> exclusive s' \<and> claims_ok s'"
proof (induction rule: poll_reach.induct)
  case poll_refl
  then show ?case by (simp add: idle_polls_def exclusive_def claims_ok_def)
next
  case (poll_next s' s'')
  with exclusive_step claims_step show ?case by blast
qed

text \<open>C19: The lock makes single tasks run once, as long as polls are quick. In every interleaving of any
  number of polls, on one or several instances, with failing statements and with tasks being added,
  deleted, switched and expired meanwhile: if every poll ends before its lock expires, at most one poll
  is at work at a time, and no task is handed out for execution twice.\<close>
theorem once_tasks_claimed_once:
  assumes "poll_reach True limit s s'" "idle_polls s"
  shows "distinct (pl_claimed s') \<and> (\<forall>p q. pl_phase s' p \<noteq> Idle \<and> pl_phase s' q \<noteq> Idle \<longrightarrow> p = q)"
proof -
  have b: "since ph \<noteq> None" if "ph \<noteq> Idle" for ph using that by (cases ph) auto
  from reach_exclusive [OF assms] have x: "exclusive s'" and c: "distinct (pl_claimed s')" by (simp_all add: claims_ok_def)
  have "p = q" if "pl_phase s' p \<noteq> Idle" "pl_phase s' q \<noteq> Idle" for p q
    using x b [OF that(1)] b [OF that(2)] unfolding exclusive_def by blast
  with c show ?thesis by blast
qed

text \<open>C38: A slow poll runs a task twice. When a poll has selected a due task and is delayed for the five
  seconds of its lock, the next poll gets the lock, selects the same task, and both mark it and hand it
  out; the first one's release then deletes the lock of the second.\<close>
theorem slow_poll_claims_twice:
  assumes "idle_polls s" "pl_tasks s = [t]" "ot_execution t \<le> pl_clock s" "ot_enabled t = ''Y''" "ot_state t = ''NEX''" "0 < limit"
  shows "\<exists>s'. poll_reach False limit s s' \<and> pl_claimed s' = [ot_id t, ot_id t] \<and> pl_phase s' 1 \<noteq> Idle \<and> pl_lock s' = None"
proof -
  let ?c = "pl_clock s" and ?late = "pl_clock s + lock_ttl"
  have due: "once_due limit c [t] = [t]" if "?c \<le> c" for c
    using assms(3-6) that by (simp add: once_due_def)
  define s1 where "s1 = enter 0 (Locked ?c) (s\<lparr>pl_lock := Some ?late\<rparr>)"
  define s2 where "s2 = enter 0 (Selected ?c [t]) s1"
  define s3 where "s3 = s2\<lparr>pl_clock := ?late\<rparr>"
  define s4 where "s4 = enter 1 (Locked ?late) (s3\<lparr>pl_lock := Some (?late + lock_ttl)\<rparr>)"
  define s5 where "s5 = enter 1 (Selected ?late [t]) s4"
  define s6 where "s6 = enter 0 (Marked ?c) (s5\<lparr>pl_tasks := mark_state [ot_id t] ''EXE'' (pl_tasks s5), pl_claimed := pl_claimed s5 @ [ot_id t]\<rparr>)"
  define s7 where "s7 = enter 1 (Marked ?late) (s6\<lparr>pl_tasks := mark_state [ot_id t] ''EXE'' (pl_tasks s6), pl_claimed := pl_claimed s6 @ [ot_id t]\<rparr>)"
  define s8 where "s8 = enter 0 Idle (s7\<lparr>pl_lock := None\<rparr>)"
  note d = s1_def s2_def s3_def s4_def s5_def s6_def s7_def s8_def
  have i: "pl_phase s = (\<lambda>_. Idle)" "pl_lock s = None" "pl_claimed s = []" using assms(1) by (simp_all add: idle_polls_def)
  have "poll_step False limit s s1" unfolding s1_def by (rule poll_lock) (simp_all add: i lock_free_def)
  moreover have "poll_step False limit s1 s2"
    using poll_select [of s1 0 ?c False limit] due [of ?c] by (simp add: s2_def s1_def assms(2))
  moreover have "poll_step False limit s2 s3" unfolding s3_def by (rule poll_tick) (simp_all add: d lock_ttl_def)
  moreover have "poll_step False limit s3 s4"
    using poll_lock [of s3 1 False limit] by (simp add: s4_def s3_def s2_def s1_def i lock_free_def)
  moreover have "poll_step False limit s4 s5"
    using poll_select [of s4 1 ?late False limit] due [of ?late] by (simp add: s5_def s4_def s3_def s2_def s1_def assms(2) lock_ttl_def)
  moreover have "poll_step False limit s5 s6"
    using poll_mark [of s5 0 ?c "[t]" False limit] by (simp add: s6_def s5_def s4_def s3_def s2_def)
  moreover have "poll_step False limit s6 s7"
    using poll_mark [of s6 1 ?late "[t]" False limit] by (simp add: s7_def s6_def s5_def)
  moreover have "poll_step False limit s7 s8"
    using poll_release [of s7 0 ?c False limit] by (simp add: s8_def s7_def s6_def)
  ultimately have "poll_reach False limit s s8" by (meson poll_reach.intros)
  then show ?thesis by (intro exI [of _ s8]) (simp add: d i)
qed

section \<open>One bad parameter stops all periodic tasks\<close>

lemma sort_key_least:
  assumes "t \<in> set xs" "\<forall>x \<in> set xs. x \<noteq> t \<longrightarrow> f t < f x" "distinct xs"
  shows "\<exists>ys. sort_key f xs = t # ys"
proof (cases "sort_key f xs")
  case Nil
  then have "length xs = 0" by (metis length_sort list.size(3))
  with assms(1) show ?thesis by simp
next
  case (Cons y ys)
  then have "y \<in> set xs" "\<forall>x \<in> set xs. f y \<le> f x"
    using sorted_sort_key [of f xs] by (auto simp flip: set_sort [of f xs])
  with assms(1,2) have "y = t" by force
  with Cons show ?thesis by simp
qed

text \<open>One malformed parameter stops the periodic tasks of everybody. When the due and enabled task with
  the earliest execution time has a parameter its type does not accept, a poll reports the error and
  does nothing else: no table, no log and no device sees a change, so every later poll, at whatever
  time, meets the same task first and fails as well.\<close>
theorem bad_periodic_blocks_all:
  assumes "t \<in> set (sb_periodic s)" "pt_enabled t = ''Y''" "pt_execution t \<le> au_now (sb_auto s)" "distinct (sb_periodic s)"
    and "\<forall>x \<in> set (sb_periodic s). x \<noteq> t \<longrightarrow> pt_execution t < pt_execution x"
    and "\<forall>now. \<exists>e. get_scene_execute_time cron off now (pt_type t) (pt_param t) = Some (Inl e)" "0 < limit"
  shows "\<exists>e s'. periodic_task_execute env cron off limit s = Some (Failed e, s') \<and> sb_periodic s' = sb_periodic s \<and>
    sb_once s' = sb_once s \<and> (\<exists>r. sb_auto s' = (sb_auto s)\<lparr>au_redis := r\<rparr>)"
proof -
  obtain b a where l: "acquire_lock periodic_lock lock_ttl (sb_auto s) = (b, a)" by fastforce
  then obtain r where r: "a = (sb_auto s)\<lparr>au_redis := r\<rparr>"
    by (auto simp: acquire_lock_def split: option.split_asm prod.split_asm if_split_asm intro: that [of "au_redis (sb_auto s)"])
  have release: "\<exists>r. release_lock k u = u\<lparr>sb_auto := (sb_auto u)\<lparr>au_redis := r\<rparr>\<rparr>" for k u
    by (auto simp: release_lock_def on_auto_def rd_del_def split: option.split intro: exI [of _ "au_redis (sb_auto u)"])
  let ?s1 = "s\<lparr>sb_auto := a\<rparr>"
  let ?due = "filter (\<lambda>x. pt_execution x \<le> au_now a \<and> pt_enabled x = ''Y'') (sb_periodic s)"
  have "\<exists>ys. sort_key pt_execution ?due = t # ys"
    using assms(1-5) by (intro sort_key_least) (auto simp: r)
  then obtain ys where "periodic_due limit (au_now a) (sb_periodic s) = t # ys"
    using assms(7) by (cases limit) (auto simp: periodic_due_def)
  moreover obtain e where "get_scene_execute_time cron off (au_now a) (pt_type t) (pt_param t) = Some (Inl e)"
    using assms(6) by blast
  ultimately have loop: "reschedule cron off (periodic_due limit (au_now a) (sb_periodic s)) ?s1 = (Failed e, [], ?s1)" by simp
  obtain q where q: "release_lock periodic_lock ?s1 = ?s1\<lparr>sb_auto := a\<lparr>au_redis := q\<rparr>\<rparr>"
    using release [of periodic_lock ?s1] by auto
  show ?thesis
  proof (cases b)
    case False
    with l show ?thesis
      by (intro exI [of _ not_locked] exI [of _ ?s1]) (auto simp: periodic_task_execute_def get_periodic_tasks_def r)
  next
    case True
    with l loop q r show ?thesis
      by (cases "sb_fault ''periodic_tasks.find'' s") (auto simp: periodic_task_execute_def get_periodic_tasks_def)
  qed
qed

section \<open>Examples\<close>

definition demo_once :: one_time_task where
  "demo_once = \<lparr>ot_id = ''o1'', ot_scene = ''s1'', ot_execution = 1000, ot_state = ''NEX'',
    ot_enabled = ''Y'', ot_expiration = 0\<rparr>"

definition demo_polls :: poll_sys where
  "demo_polls = \<lparr>pl_clock = 2000, pl_lock = None, pl_tasks = [demo_once], pl_phase = (\<lambda>_. Idle), pl_claimed = []\<rparr>"

lemma demo_polls_facts: "idle_polls demo_polls" "pl_tasks demo_polls = [demo_once]" "pl_clock demo_polls = 2000"
  "pl_phase demo_polls = (\<lambda>_. Idle)" "pl_claimed demo_polls = []" "pl_lock demo_polls = None"
  by (simp_all add: demo_polls_def idle_polls_def)

lemma demo_due: "once_due 10 2000 [demo_once] = [demo_once]"
  by (simp add: once_due_def demo_once_def)

theorem once_tasks_claimed_once_witness:
  "\<exists>s'. poll_reach True 10 demo_polls s' \<and> pl_claimed s' = [''o1''] \<and> distinct (pl_claimed s')"
proof -
  define s1 where "s1 = enter 3 (Locked 2000) (demo_polls\<lparr>pl_lock := Some (2000 + lock_ttl)\<rparr>)"
  define s2 where "s2 = enter 3 (Selected 2000 [demo_once]) s1"
  define s3 where "s3 = enter 3 (Marked 2000) (s2\<lparr>pl_tasks := mark_state [''o1''] ''EXE'' (pl_tasks s2), pl_claimed := pl_claimed s2 @ [''o1'']\<rparr>)"
  have "poll_step True 10 demo_polls s1"
    using poll_lock [of demo_polls 3 True 10] by (simp add: s1_def demo_polls_facts lock_free_def)
  moreover have "poll_step True 10 s1 s2"
    using poll_select [of s1 3 2000 True 10] by (simp add: s2_def s1_def demo_polls_facts demo_due)
  moreover have "poll_step True 10 s2 s3"
    using poll_mark [of s2 3 2000 "[demo_once]" True 10] by (simp add: s3_def s2_def demo_once_def)
  ultimately have r: "poll_reach True 10 demo_polls s3" by (meson poll_reach.intros)
  have "pl_claimed s3 = [''o1'']" by (simp add: s3_def s2_def s1_def demo_polls_facts)
  with r once_tasks_claimed_once [OF r demo_polls_facts(1)] show ?thesis by blast
qed

theorem slow_poll_claims_twice_witness:
  "\<exists>s'. poll_reach False 10 demo_polls s' \<and> pl_claimed s' = [''o1'', ''o1'']"
proof -
  have t: "ot_execution demo_once \<le> pl_clock demo_polls" "ot_enabled demo_once = ''Y''" "ot_state demo_once = ''NEX''"
      "ot_id demo_once = ''o1''" "0 < (10 :: nat)"
    by (simp_all add: demo_once_def demo_polls_facts)
  from slow_poll_claims_twice [OF demo_polls_facts(1,2) t(1,2,3,5)] t(4) show ?thesis by auto
qed

definition demo_periodic :: periodic_task where
  "demo_periodic = \<lparr>pt_id = ''p1'', pt_scene = ''s1'', pt_type = ''DAY'', pt_param = ''x'', pt_execution = 5, pt_enabled = ''Y'',
    pt_expiration = 0\<rparr>"

theorem bad_periodic_blocks_all_witness:
  "let s = demo_scenes\<lparr>sb_periodic := [demo_periodic\<lparr>pt_id := ''p2'', pt_param := ''08:00:00+08:00'', pt_execution := 6\<rparr>, demo_periodic]\<rparr> in
   \<exists>e s'. periodic_task_execute demo_env (\<lambda>_ _. None) 28800000 10 s = Some (Failed e, s') \<and> sb_periodic s' = sb_periodic s"
proof -
  let ?s = "demo_scenes\<lparr>sb_periodic := [demo_periodic\<lparr>pt_id := ''p2'', pt_param := ''08:00:00+08:00'', pt_execution := 6\<rparr>, demo_periodic]\<rparr>"
  have "clock_of ''x'' = None" by code_simp
  then have bad: "\<forall>now. \<exists>e. get_scene_execute_time (\<lambda>_ _. None) 28800000 now (pt_type demo_periodic) (pt_param demo_periodic) = Some (Inl e)"
    by (simp add: get_scene_execute_time_def demo_periodic_def Let_def)
  have p: "demo_periodic \<in> set (sb_periodic ?s)" "pt_enabled demo_periodic = ''Y''" "distinct (sb_periodic ?s)"
      "\<forall>x \<in> set (sb_periodic ?s). x \<noteq> demo_periodic \<longrightarrow> pt_execution demo_periodic < pt_execution x" "0 < (10 :: nat)"
    by (simp_all add: demo_periodic_def)
  have "pt_execution demo_periodic \<le> au_now (sb_auto ?s)" by code_simp
  from bad_periodic_blocks_all [OF p(1,2) this p(3,4) bad p(5), of demo_env] show ?thesis by (auto simp: Let_def)
qed

end
