(* ===== verification/Accounts.thy ===== *)
theory Accounts
  imports PutMessages
begin

text \<open>
  Accounts and sessions: \<open>internal/service/sys_user.go\<close> with the user queries of \<open>internal/dal/users.go\<close>, the
  lock of \<open>login_lock.go\<close>, the login handler of \<open>internal/api/sys_user.go\<close> and the token check of
  \<open>internal/middleware/jwt_auth.go\<close>. Users are rows in the order of their ids; a Redis entry has its value and
  the time it expires, if any. Third-party code is a field of the environment: bcrypt, JWT, the RSA
  decryption, the mail service, casbin, random ids and codes. \<open>None\<close> is a panic, before which nothing is changed.
\<close>

section \<open>State\<close>

record user =
  us_id :: string
  us_name :: "string option"
  us_phone :: string
  us_email :: string
  us_status :: "string option"
  us_authority :: "string option"
  us_password :: string
  us_tenant :: "string option"
  us_remark :: "string option"
  us_additional :: "string option"
  us_organization :: "string option"
  us_timezone :: "string option"
  us_language :: "string option"
  us_last_visit :: "int option"
  us_password_updated :: "int option"
  us_updated :: "int option"

text \<open>An address has the columns \<open>country\<close>, \<open>province\<close>, \<open>city\<close> and so on; those absent are NULL.\<close>

record address =
  ad_user :: string
  ad_columns :: "string gmap"

text \<open>A value in Redis: a text, or the RFC 3339 text of a time in seconds.\<close>

datatype cell = Text string | Stamp int

record accounts =
  ss_now :: int
  ss_users :: "user list"
  ss_addresses :: "address list"
  ss_functions :: "(string \<times> string) list"
  ss_boards :: "string list"
  ss_roles :: "(string \<times> string list option) list"
  ss_mails :: "(string \<times> string) list"
  ss_redis :: "string \<rightharpoonup> cell \<times> int option"
  ss_db_fault :: "string \<Rightarrow> gerror option"
  ss_redis_fault :: "string \<Rightarrow> string \<Rightarrow> gerror option"

record claims =
  cl_id :: string
  cl_email :: string
  cl_authority :: string
  cl_tenant :: string
  cl_created :: int

datatype rune_kind = UpperRune | LowerRune | DigitRune | SpecialRune | OtherRune

record account_env =
  ev_key :: string
  ev_timeout :: int
  ev_reset :: bool
  ev_max_attempts :: int
  ev_lock_seconds :: int
  ev_uuid :: string
  ev_tenant_uuid :: string
  ev_code :: "string res"
  ev_tenant :: "string res"
  ev_hash :: "string \<Rightarrow> string"
  ev_check :: "string \<Rightarrow> string \<Rightarrow> bool"
  ev_sign :: "claims \<Rightarrow> string res"
  ev_parse :: "string \<Rightarrow> claims res"
  ev_decrypt :: "string \<Rightarrow> string res"
  ev_mail :: "gerror option"
  ev_roles_added :: bool
  ev_runes :: "string \<Rightarrow> rune_kind list"
  ev_sets_key :: bool
  ev_time_text :: "int \<Rightarrow> string"

type_synonym 'a outcome = "('a res \<times> accounts) option"

definition deny :: "int \<Rightarrow> accounts \<Rightarrow> 'a outcome" where
  "deny n s = Some (Inl (err_code (nat n)), s)"

definition and_then :: "'a outcome \<Rightarrow> ('a \<Rightarrow> accounts \<Rightarrow> 'b outcome) \<Rightarrow> 'b outcome" where
  "and_then m f = (case m of None \<Rightarrow> None | Some (Inl e, s) \<Rightarrow> Some (Inl e, s) | Some (Inr x, s) \<Rightarrow> f x s)"

text \<open>The error of a call is replaced by one with a code.\<close>

definition or_deny :: "int \<Rightarrow> 'a res \<Rightarrow> accounts \<Rightarrow> ('a \<Rightarrow> 'b outcome) \<Rightarrow> 'b outcome" where
  "or_deny n r s f = (case r of Inl _ \<Rightarrow> deny n s | Inr x \<Rightarrow> f x)"

definition after :: "int \<Rightarrow> gerror option \<times> accounts \<Rightarrow> (accounts \<Rightarrow> 'b outcome) \<Rightarrow> 'b outcome" where
  "after n r f = (case r of (Some _, s) \<Rightarrow> deny n s | (None, s) \<Rightarrow> f s)"

section \<open>Redis\<close>

definition live :: "int option \<Rightarrow> accounts \<Rightarrow> bool" where
  "live t s \<longleftrightarrow> (case t of None \<Rightarrow> True | Some x \<Rightarrow> ss_now s < x)"

definition sv_get :: "string \<Rightarrow> accounts \<Rightarrow> cell res" where
  "sv_get k s = (case ss_redis_fault s ''get'' k of
      Some e \<Rightarrow> Inl e
    | None \<Rightarrow> (case ss_redis s k of None \<Rightarrow> Inl RedisNil | Some (v, t) \<Rightarrow> if live t s then Inr v else Inl RedisNil))"

text \<open>An expiration that is not positive means none.\<close>

definition sv_set :: "string \<Rightarrow> cell \<Rightarrow> int \<Rightarrow> accounts \<Rightarrow> gerror option \<times> accounts" where
  "sv_set k v ttl s = (case ss_redis_fault s ''set'' k of
      Some e \<Rightarrow> (Some e, s)
    | None \<Rightarrow> (None, s\<lparr>ss_redis := (ss_redis s)(k \<mapsto> (v, if 0 < ttl then Some (ss_now s + ttl) else None))\<rparr>))"

definition sv_del :: "string \<Rightarrow> accounts \<Rightarrow> gerror option \<times> accounts" where
  "sv_del k s = (case ss_redis_fault s ''del'' k of
      Some e \<Rightarrow> (Some e, s) | None \<Rightarrow> (None, s\<lparr>ss_redis := (ss_redis s)(k := None)\<rparr>))"

definition not_an_integer :: gerror where "not_an_integer = Errorf ''ERR value is not an integer or out of range''"

definition incr_overflow :: gerror where "incr_overflow = Errorf ''ERR increment or decrement would overflow''"

definition sv_incr :: "string \<Rightarrow> accounts \<Rightarrow> int res \<times> accounts" where
  "sv_incr k s = (case ss_redis_fault s ''incr'' k of
      Some e \<Rightarrow> (Inl e, s)
    | None \<Rightarrow> (case (case ss_redis s k of None \<Rightarrow> None | Some (v, t) \<Rightarrow> if live t s then Some (v, t) else None) of
        None \<Rightarrow> (Inr 1, s\<lparr>ss_redis := (ss_redis s)(k \<mapsto> (Text (show_int 1), None))\<rparr>)
      | Some (Text v, t) \<Rightarrow> (case atoi v of
            None \<Rightarrow> (Inl not_an_integer, s)
          | Some n \<Rightarrow> if n + 1 = 2 ^ 63 then (Inl incr_overflow, s)
              else (Inr (n + 1), s\<lparr>ss_redis := (ss_redis s)(k \<mapsto> (Text (show_int (n + 1)), t))\<rparr>))
      | Some (Stamp _, _) \<Rightarrow> (Inl not_an_integer, s)))"

section \<open>The lock after failed logins\<close>

definition lock_key :: "string \<Rightarrow> string" where "lock_key u = ''user:'' @ u @ '':lock_until''"

definition fail_key :: "string \<Rightarrow> string" where "fail_key u = ''user:'' @ u @ '':failed_attempts''"

definition lock_ms :: "account_env \<Rightarrow> int" where "lock_ms env = ev_lock_seconds env * 1000"

definition get_allow_login :: "string \<Rightarrow> accounts \<Rightarrow> gerror option" where
  "get_allow_login u s = (case sv_get (lock_key u) s of
      Inr (Stamp t) \<Rightarrow> if ss_now s < t * 1000 then Some (err_code 200006) else None | _ \<Rightarrow> None)"

definition login_success :: "string \<Rightarrow> accounts \<Rightarrow> gerror option \<times> accounts" where
  "login_success u = sv_del (fail_key u)"

definition login_fail :: "account_env \<Rightarrow> string \<Rightarrow> accounts \<Rightarrow> gerror option \<times> accounts" where
  "login_fail env u s = (case sv_incr (fail_key u) s of
      (Inl e, s1) \<Rightarrow> (Some (Errorf (''Error incrementing failed attempts for '' @ u @ '': '' @ error_msg e)), s1)
    | (Inr n, s1) \<Rightarrow>
        if n < ev_max_attempts env then (None, s1)
        else (case sv_set (lock_key u) (Stamp ((ss_now s + lock_ms env) div 1000)) (lock_ms env) s1 of
            (Some e, s2) \<Rightarrow> (Some (Errorf (''Error setting login lock for '' @ u @ '': '' @ error_msg e)), s2)
          | (None, s2) \<Rightarrow> (case sv_del (fail_key u) s2 of
              (Some e, s3) \<Rightarrow> (Some (Errorf (''Error resetting failed attempts for '' @ u @ '': '' @ error_msg e)), s3)
            | (None, s3) \<Rightarrow> (None, s3))))"

section \<open>Looking users up\<close>

definition first_user :: "(user \<Rightarrow> bool) \<Rightarrow> accounts \<Rightarrow> user res" where
  "first_user p s = (case ss_db_fault s ''users.first'' of
      Some e \<Rightarrow> Inl e
    | None \<Rightarrow> (case find p (ss_users s) of None \<Rightarrow> Inl RecordNotFound | Some u \<Rightarrow> Inr u))"

definition users_by_id :: "string \<Rightarrow> accounts \<Rightarrow> user res" where
  "users_by_id i = first_user (\<lambda>u. us_id u = i)"

definition users_by_email :: "string \<Rightarrow> accounts \<Rightarrow> user res" where
  "users_by_email m = first_user (\<lambda>u. us_email u = m)"

text \<open>The \<open>LIKE\<close> of SQL.\<close>

fun sql_like :: "string \<Rightarrow> string \<Rightarrow> bool" where
  "sql_like [] t = (t = [])"
| "sql_like (c # p) t =
     (if c = CHR ''%'' then sql_like p t \<or> (case t of [] \<Rightarrow> False | _ # r \<Rightarrow> sql_like (c # p) r)
      else case t of
        [] \<Rightarrow> False
      | x # r \<Rightarrow> if c = CHR ''_'' then sql_like p r
          else if c = CHR 0x5C then (case p of [] \<Rightarrow> False | d # q \<Rightarrow> d = x \<and> sql_like q r)
          else c = x \<and> sql_like p r)"

definition users_by_phone :: "string \<Rightarrow> accounts \<Rightarrow> user res" where
  "users_by_phone n s = (if n = '''' then Inl (Errorf ''phone number is empty'')
     else if has_prefix n ''+'' then first_user (\<lambda>u. us_phone u = n) s
     else first_user (\<lambda>u. sql_like (CHR ''%'' # n) (us_phone u)) s)"

definition check_phone_exists :: "string \<Rightarrow> string \<Rightarrow> accounts \<Rightarrow> bool res" where
  "check_phone_exists n exclude s = (if n = '''' then Inr False
     else case users_by_phone n s of
       Inl e \<Rightarrow> if errors_is e RecordNotFound then Inr False else Inl e
     | Inr u \<Rightarrow> Inr (\<not> (exclude \<noteq> '''' \<and> us_id u = exclude)))"

definition function_enabled :: "string \<Rightarrow> accounts \<Rightarrow> bool" where
  "function_enabled n s = (if ss_db_fault s ''sys_function.first'' \<noteq> None then False
     else case map_of (ss_functions s) n of None \<Rightarrow> False | Some flag \<Rightarrow> flag \<noteq> ''disable'')"

definition user_is_encrypt :: "accounts \<Rightarrow> bool" where "user_is_encrypt = function_enabled ''frontend_res''"

definition user_is_share :: "accounts \<Rightarrow> bool" where "user_is_share = function_enabled ''shared_account''"

section \<open>Tokens\<close>

definition claims_of :: "user \<Rightarrow> int \<Rightarrow> claims option" where
  "claims_of u now = (case (us_authority u, us_tenant u) of
      (Some a, Some t) \<Rightarrow> Some \<lparr>cl_id = us_id u, cl_email = us_email u, cl_authority = a, cl_tenant = t, cl_created = now\<rparr>
    | _ \<Rightarrow> None)"

definition token_key :: "string \<Rightarrow> string" where "token_key m = m @ ''_token''"

definition code_key :: "string \<Rightarrow> string" where "code_key m = m @ ''_code''"

text \<open>The last part of \<open>UserLoginAfter\<close>: where accounts are not shared, the former token of the
  account is deleted.\<close>

definition sole_token :: "string \<Rightarrow> string \<Rightarrow> accounts \<Rightarrow> unit outcome" where
  "sole_token m token s =
     (let old = sv_get (token_key m) s;
          drop_old = (case old of Inr (Text t) \<Rightarrow> if t = '''' then (None, s) else sv_del t s | _ \<Rightarrow> (None, s))
      in case old of
        Inl e \<Rightarrow> if errors_is e RedisNil then after 103002 (sv_set (token_key m) (Text token) 0 s) (\<lambda>s. Some (Inr (), s)) else deny 103002 s
      | Inr _ \<Rightarrow> after 103002 drop_old (\<lambda>s. after 103002 (sv_set (token_key m) (Text token) 0 s) (\<lambda>s. Some (Inr (), s))))"

definition user_login_after :: "account_env \<Rightarrow> user \<Rightarrow> accounts \<Rightarrow> (string \<times> int) outcome" where
  "user_login_after env u s =
     (if trim_space (ev_key env) = '''' then deny 103001 s
      else case claims_of u (ss_now s) of
        None \<Rightarrow> None
      | Some c \<Rightarrow> or_deny 103001 (ev_sign env c) s (\<lambda>token.
          let timeout = (if ev_reset env \<and> ev_timeout env = 0 then 60 else ev_timeout env) in
          after 103002 (sv_set token (Text ''1'') (timeout * 60000) s) (\<lambda>s1.
            if user_is_share s1 then Some (Inr (token, timeout * 60), s1)
            else and_then (sole_token (us_email u) token s1) (\<lambda>_ s2. Some (Inr (token, timeout * 60), s2)))))"

text \<open>The two tokens that are valid for a week.\<close>

definition week_ms :: int where "week_ms = 7 * 24 * 3600000"

definition week_token :: "account_env \<Rightarrow> claims \<Rightarrow> accounts \<Rightarrow> string res \<times> (gerror option \<times> accounts)" where
  "week_token env c s = (case ev_sign env c of
      Inl e \<Rightarrow> (Inl e, None, s) | Inr token \<Rightarrow> (Inr token, sv_set token (Text ''1'') week_ms s))"

definition refresh_token :: "account_env \<Rightarrow> claims \<Rightarrow> accounts \<Rightarrow> (string \<times> int) outcome" where
  "refresh_token env cl s = or_deny 101001 (users_by_email (cl_email cl) s) s (\<lambda>u.
     case us_status u of
       None \<Rightarrow> None
     | Some st \<Rightarrow> if st \<noteq> ''N'' then deny 200005 s
         else case claims_of u (ss_now s) of
           None \<Rightarrow> None
         | Some c \<Rightarrow> (case week_token env c s of
             (Inl _, _, s1) \<Rightarrow> deny 103001 s1 | (Inr token, _, s1) \<Rightarrow> Some (Inr (token, week_ms div 1000), s1)))"

definition logout :: "string \<Rightarrow> accounts \<Rightarrow> unit outcome" where
  "logout token s = after 103003 (sv_del token s) (\<lambda>s. Some (Inr (), s))"

text \<open>\<open>isValidJWT\<close>: the value is compared, the expiration extended, and only then the token parsed.\<close>

definition token_known :: "string \<Rightarrow> accounts \<Rightarrow> bool" where
  "token_known token s = (case sv_get token s of Inr (Text v) \<Rightarrow> v = ''1'' | _ \<Rightarrow> False)"

definition extend_token :: "account_env \<Rightarrow> string \<Rightarrow> accounts \<Rightarrow> accounts" where
  "extend_token env token s = snd (sv_set token (Text ''1'') (ev_timeout env * 60000) s)"

definition is_valid_jwt :: "account_env \<Rightarrow> string \<Rightarrow> accounts \<Rightarrow> claims option \<times> accounts" where
  "is_valid_jwt env token s = (if \<not> token_known token s then (None, s)
     else let s1 = extend_token env token s in (case ev_parse env token of Inl _ \<Rightarrow> (None, s1) | Inr c \<Rightarrow> (Some c, s1)))"

end
