(* ===== verification/AccountAdmin.thy ===== *)
theory AccountAdmin
  imports Accounts
begin

text \<open>
  The operations of \<open>internal/service/sys_user.go\<close> that change accounts, and what they share: the rules
  for passwords and login names, the rows of users and addresses.
\<close>

section \<open>Passwords and login names\<close>

definition lower_letters :: string where "lower_letters = ''abcdefghijklmnopqrstuvwxyz''"
definition upper_letters :: string where "upper_letters = ''ABCDEFGHIJKLMNOPQRSTUVWXYZ''"
definition special_chars :: string where "special_chars = ''!@#$%^&*()_+-=[]{};:,./<>?|'' @ [CHR 0x5C, CHR 0x27, CHR 0x22]"

definition char_kind :: "char \<Rightarrow> rune_kind" where
  "char_kind c = (if c \<in> set upper_letters then UpperRune else if c \<in> set lower_letters then LowerRune
     else if is_digit c then DigitRune else if c \<in> set special_chars then SpecialRune else OtherRune)"

text \<open>How Unicode classifies text outside ASCII is up to the environment.\<close>

definition rune_kinds :: "account_env \<Rightarrow> string \<Rightarrow> rune_kind list" where
  "rune_kinds env p = (if \<forall>c \<in> set p. of_char c < (128 :: nat) then map char_kind p else ev_runes env p)"

definition validate_password :: "account_env \<Rightarrow> string \<Rightarrow> gerror option" where
  "validate_password env p = (if length p < 6 then Some (err_code 200040)
     else let ks = rune_kinds env p in
       if OtherRune \<in> set ks then Some (err_code 200053)
       else if LowerRune \<notin> set ks \<or> DigitRune \<notin> set ks then Some (err_code 200054) else None)"

definition local_chars :: string where "local_chars = lower_letters @ upper_letters @ ''0123456789._%+-''"
definition domain_chars :: string where "domain_chars = lower_letters @ upper_letters @ ''0123456789.-''"

text \<open>The two regular expressions of \<open>ValidateInput\<close>: one \<open>@\<close>, and letters after the last dot.\<close>

definition is_email :: "string \<Rightarrow> bool" where
  "is_email t = (case split_on (CHR ''@'') t of
      [l, d] \<Rightarrow>
        let tld = rev (takeWhile (\<lambda>c. c \<noteq> CHR ''.'') (rev d)); host = take (length d - length tld - 1) d in
        l \<noteq> [] \<and> set l \<subseteq> set local_chars \<and> 2 \<le> length tld \<and> set tld \<subseteq> set (lower_letters @ upper_letters) \<and>
        length tld < length d \<and> host \<noteq> [] \<and> set host \<subseteq> set domain_chars
    | _ \<Rightarrow> False)"

definition is_phone :: "string \<Rightarrow> bool" where
  "is_phone t \<longleftrightarrow> length t = 11 \<and> list_all is_digit t \<and> hd t = CHR ''1'' \<and> t ! 1 \<in> set ''3456789''"

datatype input_type = EmailInput | PhoneInput

definition validate_input :: "string \<Rightarrow> input_type option" where
  "validate_input t = (let x = trim_space t in
     if is_email x then Some EmailInput else if is_phone x then Some PhoneInput else None)"

section \<open>Logging in\<close>

record login_req =
  lr_email :: string
  lr_password :: string
  lr_salt :: string

definition trim_suffix :: "string \<Rightarrow> string \<Rightarrow> string" where
  "trim_suffix t p = (if has_suffix t p then take (length t - length p) t else t)"

definition set_users :: "string \<Rightarrow> (user \<Rightarrow> user) \<Rightarrow> accounts \<Rightarrow> accounts" where
  "set_users i f s = s\<lparr>ss_users := map (\<lambda>u. if us_id u = i then f u else u) (ss_users s)\<rparr>"

definition clear_password :: "account_env \<Rightarrow> string \<Rightarrow> string \<Rightarrow> accounts \<Rightarrow> string res" where
  "clear_password env p salt s = (if user_is_encrypt s
     then (case ev_decrypt env p of Inl e \<Rightarrow> Inl e | Inr t \<Rightarrow> Inr (trim_suffix t salt)) else Inr p)"

definition login :: "account_env \<Rightarrow> login_req \<Rightarrow> accounts \<Rightarrow> (string \<times> int) outcome" where
  "login env r s = (case users_by_email (lr_email r) s of
      Inl e \<Rightarrow> deny (if errors_is e RecordNotFound then 200002 else 101001) s
    | Inr u \<Rightarrow> or_deny 100003 (clear_password env (lr_password r) (lr_salt r) s) s (\<lambda>p.
        if \<not> ev_check env p (us_password u) then deny 200002 s
        else case us_status u of
          None \<Rightarrow> None
        | Some st \<Rightarrow> if st \<noteq> ''N'' then deny 200005 s
            else and_then (user_login_after env u s) (\<lambda>x s1. case ss_db_fault s1 ''users.update'' of
                Some e \<Rightarrow> Some (Inl e, s1)
              | None \<Rightarrow> Some (Inr x, set_users (us_id u) (\<lambda>v. v\<lparr>us_last_visit := Some (ss_now s1), us_updated := Some (ss_now s1)\<rparr>) s1))))"

definition email_by_phone :: "string \<Rightarrow> accounts \<Rightarrow> string res" where
  "email_by_phone n s = (case users_by_phone n s of
      Inl e \<Rightarrow> Inl (if errors_is e RecordNotFound then err_code 200013 else code_db_error) | Inr u \<Rightarrow> Inr (us_email u))"

text \<open>The handler, from the validated name on: the check of the lock, the login, and its count.\<close>

definition try_login :: "account_env \<Rightarrow> login_req \<Rightarrow> accounts \<Rightarrow> (string \<times> int) outcome" where
  "try_login env r s = (case login env r s of
      None \<Rightarrow> None
    | Some (Inl e, s1) \<Rightarrow> Some (Inl e, snd (login_fail env (lr_email r) s1))
    | Some (Inr x, s1) \<Rightarrow> Some (Inr x, snd (login_success (lr_email r) s1)))"

definition handle_login :: "account_env \<Rightarrow> login_req \<Rightarrow> accounts \<Rightarrow> (string \<times> int) outcome" where
  "handle_login env r s = (case validate_input (lr_email r) of
      None \<Rightarrow> deny 200013 s
    | Some t \<Rightarrow> (case (if t = PhoneInput then email_by_phone (lr_email r) s else Inr (lr_email r)) of
        Inl e \<Rightarrow> Some (Inl e, s)
      | Inr m \<Rightarrow> (case (if 0 < ev_max_attempts env then get_allow_login m s else None) of
          Some e \<Rightarrow> Some (Inl e, s) | None \<Rightarrow> try_login env (r\<lparr>lr_email := m\<rparr>) s)))"

section \<open>Codes by mail\<close>

definition code_ms :: int where "code_ms = 300000"

definition get_verification_code :: "account_env \<Rightarrow> string \<Rightarrow> string \<Rightarrow> accounts \<Rightarrow> unit outcome" where
  "get_verification_code env m reg s =
     (let u = users_by_email m s;
          send = or_deny 200009 (ev_code env) s (\<lambda>code. after 102001 (sv_set (code_key m) (Text code) code_ms s) (\<lambda>s1.
            if ev_mail env \<noteq> None then deny 200010 s1
            else Some (Inr (), s1\<lparr>ss_mails := ss_mails s1 @ [(m, ''Your verification code is '' @ code)]\<rparr>)))
      in case u of
        Inl e \<Rightarrow> if \<not> errors_is e RecordNotFound then deny 101001 s else if reg \<noteq> ''1'' then deny 200015 s else send
      | Inr _ \<Rightarrow> if reg = ''1'' then deny 200008 s else send)"

text \<open>The code is compared and stays.\<close>

definition check_code :: "string \<Rightarrow> string \<Rightarrow> accounts \<Rightarrow> gerror option" where
  "check_code m code s = (case sv_get (code_key m) s of
      Inl _ \<Rightarrow> Some (err_code 200011) | Inr v \<Rightarrow> if v = Text code then None else Some (err_code 200012))"

definition reset_password :: "account_env \<Rightarrow> string \<Rightarrow> string \<Rightarrow> string \<Rightarrow> accounts \<Rightarrow> unit outcome" where
  "reset_password env m code p s = (case validate_password env p of
      Some e \<Rightarrow> Some (Inl e, s)
    | None \<Rightarrow> (case check_code m code s of
        Some e \<Rightarrow> Some (Inl e, s)
      | None \<Rightarrow> or_deny 101001 (users_by_email m s) s (\<lambda>u.
          if ss_db_fault s ''users.update'' \<noteq> None then deny 101001 s
          else Some (Inr (), s\<lparr>ss_users := map (\<lambda>v. if us_email v = us_email u
              then v\<lparr>us_password := ev_hash env p, us_password_updated := Some (ss_now s)\<rparr> else v) (ss_users s)\<rparr>))))"

section \<open>Rows\<close>

definition duplicate :: "string \<Rightarrow> gerror" where
  "duplicate c = Errorf (''duplicate key value violates unique constraint '' @ c)"

definition insert_user :: "user \<Rightarrow> accounts \<Rightarrow> gerror option \<times> accounts" where
  "insert_user u s = (case ss_db_fault s ''users.create'' of
      Some e \<Rightarrow> (Some e, s)
    | None \<Rightarrow>
        if \<exists>v \<in> set (ss_users s). us_id v = us_id u then (Some (duplicate ''users_pkey''), s)
        else if \<exists>v \<in> set (ss_users s). us_email v = us_email u then (Some (duplicate ''users_un''), s)
        else (None, s\<lparr>ss_users := insort_key us_id u (ss_users s)\<rparr>))"

definition insert_address :: "address \<Rightarrow> accounts \<Rightarrow> gerror option \<times> accounts" where
  "insert_address a s = (case ss_db_fault s ''user_address.create'' of
      Some e \<Rightarrow> (Some e, s)
    | None \<Rightarrow> if \<exists>b \<in> set (ss_addresses s). ad_user b = ad_user a then (Some (duplicate ''uk_user_address_user_id''), s)
        else (None, s\<lparr>ss_addresses := ss_addresses s @ [a]\<rparr>))"

text \<open>What a transaction leaves of its statements.\<close>

definition all_or_nothing :: "accounts \<Rightarrow> gerror option \<times> accounts \<Rightarrow> gerror option \<times> accounts" where
  "all_or_nothing s r = (case r of (Some e, _) \<Rightarrow> (Some e, s) | (None, s1) \<Rightarrow> (None, s1))"

definition create_user_with_address :: "user \<Rightarrow> string gmap option \<Rightarrow> accounts \<Rightarrow> gerror option \<times> accounts" where
  "create_user_with_address u a s = all_or_nothing s (case insert_user u s of
      (Some e, s1) \<Rightarrow> (Some e, s1)
    | (None, s1) \<Rightarrow> (case a of None \<Rightarrow> (None, s1) | Some cs \<Rightarrow> insert_address \<lparr>ad_user = us_id u, ad_columns = cs\<rparr> s1))"

definition save_address :: "string \<Rightarrow> string gmap \<Rightarrow> accounts \<Rightarrow> gerror option \<times> accounts" where
  "save_address i cs s = (case ss_db_fault s ''user_address.first'' of
      Some e \<Rightarrow> (Some e, s)
    | None \<Rightarrow>
        if \<forall>b \<in> set (ss_addresses s). ad_user b \<noteq> i then insert_address \<lparr>ad_user = i, ad_columns = cs\<rparr> s
        else if cs = [] then (None, s)
        else (case ss_db_fault s ''user_address.update'' of
            Some e \<Rightarrow> (Some e, s)
          | None \<Rightarrow> (None, s\<lparr>ss_addresses := map (\<lambda>b. if ad_user b = i then b\<lparr>ad_columns := map_puts cs (ad_columns b)\<rparr> else b)
              (ss_addresses s)\<rparr>)))"

text \<open>\<open>Updates\<close> writes the columns that are not nil; \<open>additional_info\<close> is a column of JSON.\<close>

definition put :: "'a option \<Rightarrow> 'a option \<Rightarrow> 'a option" where
  "put new old = (case new of None \<Rightarrow> old | Some x \<Rightarrow> Some x)"

definition invalid_json :: gerror where "invalid_json = Errorf ''invalid input syntax for type json''"

definition update_user_with_address :: "string \<Rightarrow> (user \<Rightarrow> user) \<Rightarrow> string option \<Rightarrow> string gmap option \<Rightarrow> accounts \<Rightarrow>
    gerror option \<times> accounts" where
  "update_user_with_address i f info a s = all_or_nothing s (case ss_db_fault s ''users.update'' of
      Some e \<Rightarrow> (Some e, s)
    | None \<Rightarrow>
        if (case info of None \<Rightarrow> False | Some t \<Rightarrow> json_parse t = None) then (Some invalid_json, s)
        else (case a of None \<Rightarrow> (None, set_users i f s) | Some cs \<Rightarrow> save_address i cs (set_users i f s)))"

section \<open>Creating users\<close>

record user_req =
  ur_id :: string
  ur_email :: string
  ur_password :: "string option"
  ur_name :: "string option"
  ur_phone :: "string option"
  ur_additional :: "string option"
  ur_status :: "string option"
  ur_remark :: "string option"
  ur_organization :: "string option"
  ur_timezone :: "string option"
  ur_language :: "string option"
  ur_roles :: "string list option"
  ur_address :: "string gmap option"

definition given :: "string option \<Rightarrow> string" where
  "given t = (case t of None \<Rightarrow> '''' | Some x \<Rightarrow> x)"

text \<open>The authority and the tenant of a new user follow from the creator.\<close>

definition new_role :: "account_env \<Rightarrow> claims \<Rightarrow> accounts \<Rightarrow> (string \<times> string option) res" where
  "new_role env cl s =
     (if cl_authority cl = ''SYS_ADMIN'' then Inr (''TENANT_ADMIN'', Some (hd (split_on (CHR ''-'') (ev_tenant_uuid env))))
      else if cl_authority cl = ''TENANT_ADMIN'' then
        (case users_by_id (cl_id cl) s of Inl _ \<Rightarrow> Inl code_db_error | Inr u \<Rightarrow> Inr (''TENANT_USER'', us_tenant u))
      else Inl (err_code 201001))"

definition new_user :: "account_env \<Rightarrow> user_req \<Rightarrow> string \<Rightarrow> string option \<Rightarrow> int \<Rightarrow> user" where
  "new_user env r a t now = \<lparr>us_id = ev_uuid env, us_name = ur_name r, us_phone = given (ur_phone r), us_email = ur_email r,
     us_status = Some ''N'', us_authority = Some a, us_password = ev_hash env (given (ur_password r)), us_tenant = t,
     us_remark = ur_remark r, us_additional = Some (case ur_additional r of None \<Rightarrow> ''{}'' | Some x \<Rightarrow> x),
     us_organization = ur_organization r, us_timezone = ur_timezone r, us_language = ur_language r,
     us_last_visit = None, us_password_updated = Some now, us_updated = Some now\<rparr>"

definition add_roles :: "account_env \<Rightarrow> string \<Rightarrow> string list \<Rightarrow> accounts \<Rightarrow> unit outcome" where
  "add_roles env i rs s = (if rs = [] then Some (Inr (), s)
     else let s1 = s\<lparr>ss_roles := ss_roles s @ [(i, Some rs)]\<rparr> in
       if ev_roles_added env then Some (Inr (), s1) else deny 100000 s1)"

definition default_board :: "string \<Rightarrow> accounts \<Rightarrow> gerror option \<times> accounts" where
  "default_board t s = (case ss_db_fault s ''boards.create'' of
      Some e \<Rightarrow> (Some e, s) | None \<Rightarrow> (None, s\<lparr>ss_boards := ss_boards s @ [t]\<rparr>))"

definition create_user :: "account_env \<Rightarrow> user_req \<Rightarrow> claims \<Rightarrow> accounts \<Rightarrow> unit outcome" where
  "create_user env r cl s = (case check_phone_exists (given (ur_phone r)) '''' s of
      Inl e \<Rightarrow> Some (Inl e, s)
    | Inr dup \<Rightarrow>
        if dup then deny 200007 s
        else if (case ur_additional r of None \<Rightarrow> False | Some t \<Rightarrow> \<not> is_ok (unmarshal dec_any_map t None)) then deny 100000 s
        else (case new_role env cl s of
          Inl e \<Rightarrow> Some (Inl e, s)
        | Inr (a, t) \<Rightarrow>
            if length (given (ur_password r)) < 6 then deny 200040 s
            else if ev_hash env (given (ur_password r)) = '''' then deny 100003 s
            else (case create_user_with_address (new_user env r a t (ss_now s)) (ur_address r) s of
              (Some e, s1) \<Rightarrow> deny (if contains_str (error_msg e) ''users_un'' then 200008 else 101001) s1
            | (None, s1) \<Rightarrow>
                let (e, s2) = (if cl_authority cl = ''SYS_ADMIN'' then default_board (given t) s1 else (None, s1))
                in and_then (add_roles env (ev_uuid env) (case ur_roles r of None \<Rightarrow> [] | Some rs \<Rightarrow> rs) s2)
                     (\<lambda>_ s3. Some (case e of None \<Rightarrow> Inr () | Some x \<Rightarrow> Inl x, s3)))))"

section \<open>Changing and deleting users\<close>

definition of_tenant :: "claims \<Rightarrow> bool" where
  "of_tenant cl \<longleftrightarrow> cl_authority cl = ''TENANT_ADMIN'' \<or> cl_authority cl = ''TENANT_USER''"

text \<open>Whether the caller may touch the user's row; \<open>None\<close> when a NULL is read.\<close>

definition tenant_check :: "claims \<Rightarrow> user \<Rightarrow> bool option" where
  "tenant_check cl u = (if of_tenant cl then map_option (\<lambda>t. t = cl_tenant cl) (us_tenant u) else Some True)"

text \<open>A tenant administrator may not change the status of one.\<close>

definition status_denied :: "claims \<Rightarrow> user_req \<Rightarrow> user \<Rightarrow> bool option" where
  "status_denied cl r u = (if cl_authority cl \<noteq> ''TENANT_ADMIN'' then Some False
     else case us_authority u of
       None \<Rightarrow> None
     | Some a \<Rightarrow> if a \<noteq> ''TENANT_ADMIN'' then Some False
         else case ur_status r of
           None \<Rightarrow> Some False
         | Some st \<Rightarrow> map_option (\<lambda>x. x \<noteq> st) (us_status u))"

definition changed_user :: "user_req \<Rightarrow> string option \<Rightarrow> int \<Rightarrow> user \<Rightarrow> user" where
  "changed_user r hash now u = u\<lparr>us_updated := Some now, us_name := put (ur_name r) (us_name u),
     us_phone := (if given (ur_phone r) = '''' then us_phone u else given (ur_phone r)),
     us_password := (case hash of None \<Rightarrow> us_password u | Some h \<Rightarrow> h),
     us_password_updated := (case hash of None \<Rightarrow> us_password_updated u | Some _ \<Rightarrow> Some now),
     us_additional := put (ur_additional r) (us_additional u), us_status := put (ur_status r) (us_status u),
     us_remark := put (ur_remark r) (us_remark u), us_organization := put (ur_organization r) (us_organization u),
     us_timezone := put (ur_timezone r) (us_timezone u), us_language := put (ur_language r) (us_language u)\<rparr>"

definition set_roles :: "account_env \<Rightarrow> user_req \<Rightarrow> accounts \<Rightarrow> unit outcome" where
  "set_roles env r s = (case ur_roles r of
      None \<Rightarrow> Some (Inr (), s)
    | Some rs \<Rightarrow> add_roles env (ur_id r) rs (s\<lparr>ss_roles := ss_roles s @ [(ur_id r, None)]\<rparr>))"

definition update_user :: "account_env \<Rightarrow> user_req \<Rightarrow> claims \<Rightarrow> accounts \<Rightarrow> unit outcome" where
  "update_user env r cl s =
     (let pw = (if given (ur_password r) = '''' then None else ur_password r) in
      case check_phone_exists (given (ur_phone r)) (ur_id r) s of
        Inl e \<Rightarrow> Some (Inl e, s)
      | Inr dup \<Rightarrow>
          if dup then deny 200007 s
          else if (case pw of None \<Rightarrow> False | Some p \<Rightarrow> length p < 6) then deny 200040 s
          else or_deny 101001 (users_by_id (ur_id r) s) s (\<lambda>u. case tenant_check cl u of
              None \<Rightarrow> None
            | Some False \<Rightarrow> deny 201001 s
            | Some True \<Rightarrow> (case (if of_tenant cl then status_denied cl r u else Some False) of
                None \<Rightarrow> None
              | Some True \<Rightarrow> deny 201002 s
              | Some False \<Rightarrow>
                  let hash = map_option (ev_hash env) pw in
                  if hash = Some '''' then deny 100003 s
                  else after 101001 (update_user_with_address (ur_id r) (changed_user r hash (ss_now s))
                      (ur_additional r) (ur_address r) s) (set_roles env r))))"

definition delete_user :: "string \<Rightarrow> claims \<Rightarrow> accounts \<Rightarrow> unit outcome" where
  "delete_user i cl s = or_deny 101001 (users_by_id i s) s (\<lambda>u. case tenant_check cl u of
      None \<Rightarrow> None
    | Some False \<Rightarrow> deny 201001 s
    | Some True \<Rightarrow> (case us_authority u of
        None \<Rightarrow> None
      | Some a \<Rightarrow> if a = ''SYS_ADMIN'' then deny 201002 s
          else if ss_db_fault s ''users.delete'' \<noteq> None then deny 101001 s
          else Some (Inr (), s\<lparr>ss_users := filter (\<lambda>v. us_id v \<noteq> i) (ss_users s),
            ss_addresses := filter (\<lambda>b. ad_user b \<noteq> i) (ss_addresses s)\<rparr>)))"

definition update_user_address :: "string \<Rightarrow> string gmap \<Rightarrow> claims \<Rightarrow> accounts \<Rightarrow> unit outcome" where
  "update_user_address i cs cl s = or_deny 101001 (users_by_id i s) s (\<lambda>u. case tenant_check cl u of
      None \<Rightarrow> None
    | Some False \<Rightarrow> deny 201001 s
    | Some True \<Rightarrow> after 101001 (all_or_nothing s (save_address i cs s)) (\<lambda>s1. Some (Inr (), s1)))"

text \<open>\<open>GetUser\<close>: here a NULL tenant passes.\<close>

definition get_user :: "string \<Rightarrow> claims \<Rightarrow> accounts \<Rightarrow> (user \<times> address option) res" where
  "get_user i cl s = (case users_by_id i s of
      Inl _ \<Rightarrow> Inl code_db_error
    | Inr u \<Rightarrow> if of_tenant cl \<and> us_tenant u \<noteq> None \<and> us_tenant u \<noteq> Some (cl_tenant cl) then Inl (err_code 201001)
        else Inr (u, find (\<lambda>b. ad_user b = i) (ss_addresses s)))"

section \<open>One's own data\<close>

record info_req =
  ir_id :: string
  ir_name :: "string option"
  ir_remark :: "string option"
  ir_password :: "string option"
  ir_salt :: string

text \<open>Whether the update also writes the id of the request, a field of the struct like the others, is up
  to the library.\<close>

definition info_id :: "account_env \<Rightarrow> info_req \<Rightarrow> string \<Rightarrow> string" where
  "info_id env r i = (if ev_sets_key env \<and> ir_id r \<noteq> '''' then ir_id r else i)"

definition update_user_info :: "account_env \<Rightarrow> info_req \<Rightarrow> claims \<Rightarrow> accounts \<Rightarrow> unit outcome" where
  "update_user_info env r cl s = or_deny 101001 (users_by_id (cl_id cl) s) s (\<lambda>u.
     let i = us_id u; i' = info_id env r i in
     if user_is_encrypt s \<and> ir_password r = None then None
     else or_deny 100003 (case ir_password r of None \<Rightarrow> Inr None
           | Some p \<Rightarrow> (case clear_password env p (ir_salt r) s of Inl e \<Rightarrow> Inl e | Inr t \<Rightarrow> Inr (Some t))) s (\<lambda>p.
       if ss_db_fault s ''users.update'' \<noteq> None \<or>
          i' \<noteq> i \<and> ((\<exists>v \<in> set (ss_users s). us_id v = i') \<or> (\<exists>b \<in> set (ss_addresses s). ad_user b = i))
       then deny 101001 s
       else let f = (\<lambda>v. v\<lparr>us_id := i', us_name := put (ir_name r) (us_name v), us_remark := put (ir_remark r) (us_remark v),
                us_password := (case p of None \<Rightarrow> us_password v | Some t \<Rightarrow> ev_hash env t), us_updated := Some (ss_now s)\<rparr>)
            in Some (Inr (), s\<lparr>ss_users := sort_key us_id (map (\<lambda>v. if us_id v = i then f v else v) (ss_users s))\<rparr>)))"

section \<open>Acting as another user\<close>

definition transform_denied :: "claims \<Rightarrow> user \<Rightarrow> bool" where
  "transform_denied cl u \<longleftrightarrow> cl_authority cl = ''TENANT_ADMIN'' \<and>
     (us_tenant u \<noteq> Some (cl_tenant cl) \<or> us_authority u = None \<or> us_authority u = Some ''SYS_ADMIN'')"

definition transform_user :: "account_env \<Rightarrow> string \<Rightarrow> claims \<Rightarrow> accounts \<Rightarrow> (string \<times> int) outcome" where
  "transform_user env i cl s =
     (if cl_authority cl \<noteq> ''SYS_ADMIN'' \<and> cl_authority cl \<noteq> ''TENANT_ADMIN'' then deny 201001 s
      else or_deny 101001 (users_by_id i s) s (\<lambda>u.
        if transform_denied cl u then deny 201001 s
        else case us_status u of
          None \<Rightarrow> None
        | Some st \<Rightarrow>
            if st \<noteq> ''N'' then deny 200005 s
            else if ev_key env = '''' then deny 100000 s
            else case claims_of u (ss_now s) of
              None \<Rightarrow> None
            | Some c \<Rightarrow> (case week_token env c s of
                (Inl _, _) \<Rightarrow> deny 103001 s
              | (Inr token, r) \<Rightarrow> after 103002 r (\<lambda>s1. Some (Inr (token, week_ms div 1000), s1)))))"

section \<open>Registering\<close>

record register_req =
  rr_email :: string
  rr_code :: string
  rr_password :: string
  rr_confirm :: "string option"
  rr_phone :: string
  rr_prefix :: string
  rr_salt :: "string option"

definition plain_user :: "account_env \<Rightarrow> string \<Rightarrow> string \<Rightarrow> string \<Rightarrow> string \<Rightarrow> string \<Rightarrow> string option \<Rightarrow> int \<Rightarrow> user" where
  "plain_user env m ph a t hash rem now = \<lparr>us_id = ev_uuid env, us_name = Some m, us_phone = ph, us_email = m, us_status = Some ''N'',
     us_authority = Some a, us_password = hash, us_tenant = Some t, us_remark = rem, us_additional = Some ''{}'',
     us_organization = None, us_timezone = None, us_language = None, us_last_visit = None,
     us_password_updated = Some now, us_updated = Some now\<rparr>"

definition year_ms :: int where "year_ms = 365 * 24 * 3600000"

definition email_register :: "account_env \<Rightarrow> register_req \<Rightarrow> accounts \<Rightarrow> (string \<times> int) outcome" where
  "email_register env r s =
     (let phone = rr_prefix r @ '' '' @ rr_phone r; m = rr_email r in
      case check_phone_exists phone '''' s of
        Inl e \<Rightarrow> Some (Inl e, s)
      | Inr True \<Rightarrow> deny 200007 s
      | Inr False \<Rightarrow> (case validate_password env (rr_password r) of
          Some e \<Rightarrow> Some (Inl e, s)
        | None \<Rightarrow> (case check_code m (rr_code r) s of
            Some e \<Rightarrow> Some (Inl e, s)
          | None \<Rightarrow>
              if rr_confirm r \<noteq> None \<and> rr_confirm r \<noteq> Some (rr_password r) then deny 200041 s
              else case users_by_email m s of
                Inr _ \<Rightarrow> deny 200008 s
              | Inl e \<Rightarrow>
                  if \<not> errors_is e RecordNotFound then deny 101001 s
                  else if user_is_encrypt s \<and> rr_salt r = None then deny 200042 s
                  else or_deny 200043 (clear_password env (rr_password r) (given (rr_salt r)) s) s (\<lambda>p.
                    or_deny 100000 (ev_tenant env) s (\<lambda>t.
                      let u = plain_user env m phone ''TENANT_ADMIN'' t (ev_hash env p) (Some (ev_time_text env (ss_now s + year_ms))) (ss_now s) in
                      after 101001 (insert_user u s) (\<lambda>s1. after 101001 (default_board t s1) (user_login_after env u)))))))"

section \<open>The first administrator\<close>

definition sys_admin_exists :: "accounts \<Rightarrow> bool res" where
  "sys_admin_exists s = (case ss_db_fault s ''users.find'' of
      Some e \<Rightarrow> Inl e | None \<Rightarrow> Inr (\<exists>u \<in> set (ss_users s). us_authority u = Some ''SYS_ADMIN''))"

definition setup_entry :: "accounts \<Rightarrow> (bool \<times> string) res" where
  "setup_entry s = (case sys_admin_exists s of Inl e \<Rightarrow> Inl e | Inr b \<Rightarrow> Inr (b, if b then ''login'' else ''register''))"

text \<open>\<open>InitSuperAdmin\<close> in three parts: the tests before the transaction, its statements once it holds the
  lock, and the login.\<close>

definition init_admin :: "account_env \<Rightarrow> string \<Rightarrow> string \<Rightarrow> int \<Rightarrow> user" where
  "init_admin env m p now = (plain_user env m '''' ''SYS_ADMIN'' '''' (ev_hash env p) None now)"

definition init_precheck :: "account_env \<Rightarrow> string \<Rightarrow> string \<Rightarrow> accounts \<Rightarrow> gerror option" where
  "init_precheck env p confirm s =
     (if confirm \<noteq> '''' \<and> p \<noteq> confirm then Some (err_code 200041)
      else case sys_admin_exists s of
        Inl _ \<Rightarrow> Some (err_code 200058)
      | Inr True \<Rightarrow> Some (err_code 200072)
      | Inr False \<Rightarrow> validate_password env p)"

definition init_transaction :: "user \<Rightarrow> accounts \<Rightarrow> gerror option \<times> accounts" where
  "init_transaction u s =
     (if ss_db_fault s ''advisory_lock'' \<noteq> None \<or> ss_db_fault s ''users.first'' \<noteq> None then (Some (err_code 200058), s)
      else if \<exists>v \<in> set (ss_users s). us_authority v = Some ''SYS_ADMIN'' then (Some (err_code 200072), s)
      else if \<exists>v \<in> set (ss_users s). us_email v = us_email u then (Some (err_code 200008), s)
      else case insert_user u s of (Some _, s1) \<Rightarrow> (Some (err_code 200058), s1) | (None, s1) \<Rightarrow> (None, s1))"

definition init_super_admin :: "account_env \<Rightarrow> string \<Rightarrow> string \<Rightarrow> string \<Rightarrow> accounts \<Rightarrow> (string \<times> int) outcome" where
  "init_super_admin env email p confirm s =
     (let m = trim_space email; u = init_admin env m p (ss_now s) in
      case init_precheck env p confirm s of
        Some e \<Rightarrow> Some (Inl e, s)
      | None \<Rightarrow> (case init_transaction u s of
          (Some e, s1) \<Rightarrow> Some (Inl e, s1)
        | (None, s1) \<Rightarrow> (case user_login_after env u s1 of
            None \<Rightarrow> None | Some (Inl _, s2) \<Rightarrow> deny 200059 s2 | Some (Inr x, s2) \<Rightarrow> Some (Inr x, s2))))"

end
