(* ===== verification/AccountSafety.thy ===== *)
theory AccountSafety
  imports AccountAdmin
begin

text \<open>
  What the operations on accounts may do to the table of users. Every operation is one of four kinds
  of change (\<open>changed\<close>), and the properties of runs are proved once over those.
\<close>

section \<open>Operations and runs\<close>

datatype account_op =
    OpLogin login_req | OpLogout string | OpRequest string | OpRefresh claims
  | OpCode string string | OpReset string string string
  | OpCreate user_req claims | OpUpdate user_req claims | OpDelete string claims
  | OpAddress string "string gmap" claims | OpInfo info_req claims | OpTransform string claims
  | OpRegister register_req | OpInit string string string | OpWait int

text \<open>The state after an operation; a panic changes nothing.\<close>

definition left :: "'a outcome \<Rightarrow> accounts \<Rightarrow> accounts" where
  "left m s = (case m of None \<Rightarrow> s | Some (_, s1) \<Rightarrow> s1)"

lemma left_simps [simp]: "left None s = s" "left (Some (r, s1)) s = s1" "left (deny n s1) s = s1"
  by (simp_all add: left_def deny_def)

fun account_step :: "account_env \<Rightarrow> account_op \<Rightarrow> accounts \<Rightarrow> accounts" where
  "account_step env (OpLogin r) s = left (handle_login env r s) s"
| "account_step env (OpLogout t) s = left (logout t s) s"
| "account_step env (OpRequest t) s = snd (is_valid_jwt env t s)"
| "account_step env (OpRefresh cl) s = left (refresh_token env cl s) s"
| "account_step env (OpCode m reg) s = left (get_verification_code env m reg s) s"
| "account_step env (OpReset m code p) s = left (reset_password env m code p s) s"
| "account_step env (OpCreate r cl) s = left (create_user env r cl s) s"
| "account_step env (OpUpdate r cl) s = left (update_user env r cl s) s"
| "account_step env (OpDelete i cl) s = left (delete_user i cl s) s"
| "account_step env (OpAddress i cs cl) s = left (update_user_address i cs cl s) s"
| "account_step env (OpInfo r cl) s = left (update_user_info env r cl s) s"
| "account_step env (OpTransform i cl) s = left (transform_user env i cl s) s"
| "account_step env (OpRegister r) s = left (email_register env r s) s"
| "account_step env (OpInit m p c) s = left (init_super_admin env m p c s) s"
| "account_step env (OpWait d) s = s\<lparr>ss_now := ss_now s + max 0 d\<rparr>"

fun account_run :: "(account_env \<times> account_op) list \<Rightarrow> accounts \<Rightarrow> accounts" where
  "account_run [] s = s"
| "account_run ((env, op) # ops) s = account_run ops (account_step env op s)"

section \<open>Kinds of change\<close>

definition in_reach :: "claims \<Rightarrow> user \<Rightarrow> bool" where
  "in_reach cl u \<longleftrightarrow> (of_tenant cl \<longrightarrow> us_tenant u = Some (cl_tenant cl))"

fun may_set_password :: "account_op \<Rightarrow> accounts \<Rightarrow> user \<Rightarrow> bool" where
  "may_set_password (OpReset m code p) s u = (us_email u = m \<and> sv_get (code_key m) s = Inr (Text code))"
| "may_set_password (OpUpdate r cl) s u = (us_id u = ur_id r \<and> in_reach cl u)"
| "may_set_password (OpInfo r cl) s u = (us_id u = cl_id cl)"
| "may_set_password _ s u = False"

fun may_edit :: "account_op \<Rightarrow> accounts \<Rightarrow> user \<Rightarrow> bool" where
  "may_edit (OpLogin r) s u = True"
| "may_edit op s u = may_set_password op s u"

fun may_drop :: "account_op \<Rightarrow> user \<Rightarrow> bool" where
  "may_drop (OpDelete i cl) u = (us_id u = i \<and> in_reach cl u \<and> us_authority u \<noteq> Some ''SYS_ADMIN'')"
| "may_drop _ u = False"

fun may_add :: "account_op \<Rightarrow> accounts \<Rightarrow> user \<Rightarrow> bool" where
  "may_add (OpCreate r cl) s u =
     (cl_authority cl = ''SYS_ADMIN'' \<and> us_authority u = Some ''TENANT_ADMIN'' \<or>
      cl_authority cl = ''TENANT_ADMIN'' \<and> us_authority u = Some ''TENANT_USER'' \<and>
        (\<exists>a \<in> set (ss_users s). us_id a = cl_id cl \<and> us_tenant u = us_tenant a))"
| "may_add (OpRegister r) s u = (us_authority u = Some ''TENANT_ADMIN'' \<and> sv_get (code_key (us_email u)) s = Inr (Text (rr_code r)))"
| "may_add (OpInit m p c) s u = (us_authority u = Some ''SYS_ADMIN'' \<and> (\<forall>v \<in> set (ss_users s). us_authority v \<noteq> Some ''SYS_ADMIN''))"
| "may_add _ s u = False"

definition same_account :: "user \<Rightarrow> user \<Rightarrow> bool" where
  "same_account u v \<longleftrightarrow> us_email v = us_email u \<and> us_authority v = us_authority u \<and> us_tenant v = us_tenant u"

inductive changed :: "account_op \<Rightarrow> accounts \<Rightarrow> user list \<Rightarrow> bool" for op s where
  unchanged: "changed op s (ss_users s)"
| edited: "(\<And>u. u \<in> set (ss_users s) \<Longrightarrow> same_account u (f u) \<and> (f u \<noteq> u \<longrightarrow> may_edit op s u) \<and>
      (us_password (f u) \<noteq> us_password u \<longrightarrow> may_set_password op s u)) \<Longrightarrow>
    (distinct (map us_id (ss_users s)) \<Longrightarrow> distinct (map us_id (map f (ss_users s)))) \<Longrightarrow>
    mset us = mset (map f (ss_users s)) \<Longrightarrow> changed op s us"
| added: "may_add op s u \<Longrightarrow> us_id u \<notin> us_id ` set (ss_users s) \<Longrightarrow> us_email u \<notin> us_email ` set (ss_users s) \<Longrightarrow>
    us = insort_key us_id u (ss_users s) \<Longrightarrow> changed op s us"
| dropped: "(\<And>u. u \<in> set (ss_users s) \<Longrightarrow> \<not> keep u \<Longrightarrow> may_drop op u) \<Longrightarrow> us = filter keep (ss_users s) \<Longrightarrow> changed op s us"

section \<open>Most of an operation leaves the table alone\<close>

lemma sv_users [simp]:
  "ss_users (snd (sv_set k v ttl s)) = ss_users s" "ss_users (snd (sv_del k s)) = ss_users s" "ss_users (snd (sv_incr k s)) = ss_users s"
  by (simp_all add: sv_set_def sv_del_def sv_incr_def split: option.split cell.split prod.split)

lemma sv_users_dest:
  "sv_set k v ttl s = (e, s1) \<Longrightarrow> ss_users s1 = ss_users s" "sv_del k s = (e, s1) \<Longrightarrow> ss_users s1 = ss_users s"
  "sv_incr k s = (n, s1) \<Longrightarrow> ss_users s1 = ss_users s"
  by (metis snd_conv sv_users)+

lemma login_count_users [simp]:
  "ss_users (snd (login_success u s)) = ss_users s" "ss_users (snd (login_fail env u s)) = ss_users s"
  by (auto simp: login_success_def login_fail_def dest!: sv_users_dest split: prod.split sum.split option.split)

text \<open>A part \<open>g\<close> of the state that an outcome leaves alone.\<close>

definition kept :: "(accounts \<Rightarrow> 'x) \<Rightarrow> 'a outcome \<Rightarrow> accounts \<Rightarrow> bool" where
  "kept g m s \<longleftrightarrow> g (left m s) = g s"

lemma kept_simps [simp]: "kept g None s" "kept g (Some (r, s1)) s \<longleftrightarrow> g s1 = g s" "kept g (deny n s1) s \<longleftrightarrow> g s1 = g s"
  by (simp_all add: kept_def)

lemma kept_after: "g (snd r) = g s \<Longrightarrow> (\<And>s1. g s1 = g s \<Longrightarrow> kept g (f s1) s) \<Longrightarrow> kept g (after n r f) s"
  by (cases r) (simp add: after_def split: option.split)

lemma kept_or_deny: "(\<And>x. kept g (f x) s) \<Longrightarrow> kept g (or_deny n r s f) s"
  by (simp add: or_deny_def split: sum.split)

lemma kept_and_then: "kept g m s \<Longrightarrow> (\<And>x s1. g s1 = g s \<Longrightarrow> kept g (f x s1) s) \<Longrightarrow> kept g (and_then m f) s"
proof -
  assume m: "kept g m s" and f: "\<And>x s1. g s1 = g s \<Longrightarrow> kept g (f x s1) s"
  show ?thesis
  proof (cases m)
    case None
    then show ?thesis by (simp add: and_then_def)
  next
    case (Some r)
    with m have "g (snd r) = g s" by (cases r) simp
    with Some f show ?thesis by (cases r) (simp add: and_then_def split: sum.split)
  qed
qed

lemma left_renamed [simp]: "left (and_then m (\<lambda>x s1. Some (f x, s1))) s = left m s" "kept g (and_then m (\<lambda>x s1. Some (f x, s1))) s = kept g m s"
  by (auto simp: and_then_def left_def kept_def split: option.split sum.split)

lemmas kept_rules = kept_after kept_or_deny kept_and_then

lemma kept_cong: "g s1 = g s \<Longrightarrow> kept g m s1 \<Longrightarrow> kept g m s"
  by (auto simp: kept_def left_def split: option.split_asm)

lemma kept_sole_token: "kept ss_users (sole_token m token s) s"
  unfolding sole_token_def by (auto simp: Let_def intro!: kept_rules split: sum.split cell.split)

lemma kept_user_login_after: "kept ss_users (user_login_after env u s) s"
  unfolding user_login_after_def
  by (auto simp: Let_def intro!: kept_rules intro: kept_cong [OF _ kept_sole_token] split: option.split)

lemma kept_week_token: "week_token env c s = (r, e, s1) \<Longrightarrow> ss_users s1 = ss_users s"
  by (auto simp: week_token_def dest: sv_users_dest split: sum.split_asm)

lemma kept_refresh: "kept ss_users (refresh_token env cl s) s"
  unfolding refresh_token_def
  by (auto intro!: kept_rules dest!: kept_week_token split: option.split prod.split sum.split)

lemma kept_transform: "kept ss_users (transform_user env i cl s) s"
  unfolding transform_user_def
  by (auto intro!: kept_rules dest!: kept_week_token split: option.split prod.split sum.split)

lemma kept_logout: "kept ss_users (logout t s) s"
  unfolding logout_def by (intro kept_rules) simp_all

lemma kept_code: "kept ss_users (get_verification_code env m reg s) s"
  unfolding get_verification_code_def Let_def by (auto intro!: kept_rules split: sum.split)

lemma insert_address_users: "insert_address a s = (e, s1) \<Longrightarrow> ss_users s1 = ss_users s"
  by (auto simp: insert_address_def split: option.split_asm if_split_asm)

lemma save_address_users: "save_address i cs s = (e, s1) \<Longrightarrow> ss_users s1 = ss_users s"
  by (auto simp: save_address_def dest: insert_address_users split: option.split_asm if_split_asm)

lemma all_or_nothing_users: "(\<And>e s2. r = (e, s2) \<Longrightarrow> ss_users s2 = ss_users s) \<Longrightarrow> ss_users (snd (all_or_nothing s r)) = ss_users s"
  by (cases r) (auto simp: all_or_nothing_def split: option.split)

lemma kept_address: "kept ss_users (update_user_address i cs cl s) s"
  unfolding update_user_address_def
  by (auto intro!: kept_rules all_or_nothing_users dest: save_address_users split: option.split bool.split)

lemma request_users: "ss_users (snd (is_valid_jwt env t s)) = ss_users s"
  by (simp add: is_valid_jwt_def extend_token_def Let_def split: sum.split)

lemma changed_kept: "kept ss_users m s \<Longrightarrow> changed op s (ss_users (left m s))"
  using unchanged by (simp add: kept_def)

section \<open>Every operation makes one change\<close>

lemma same_account_refl [simp]: "same_account u u"
  by (simp add: same_account_def)

lemma changed_map:
  assumes "\<And>u. u \<in> set (ss_users s) \<Longrightarrow> p u \<Longrightarrow> same_account u (f u) \<and> may_edit op s u \<and> us_id (f u) = us_id u \<and>
      (us_password (f u) \<noteq> us_password u \<longrightarrow> may_set_password op s u)"
  shows "changed op s (map (\<lambda>u. if p u then f u else u) (ss_users s))"
proof (rule edited [where f = "\<lambda>u. if p u then f u else u"])
  have "map (us_id \<circ> (\<lambda>u. if p u then f u else u)) (ss_users s) = map us_id (ss_users s)"
    using assms by (auto simp: map_eq_conv)
  then show "distinct (map us_id (map (\<lambda>u. if p u then f u else u) (ss_users s)))" if "distinct (map us_id (ss_users s))"
    using that by (simp only: map_map)
qed (use assms in auto)

lemma changed_set_users:
  assumes "\<And>u. u \<in> set (ss_users s) \<Longrightarrow> us_id u = i \<Longrightarrow> same_account u (f u) \<and> may_edit op s u \<and> us_id (f u) = us_id u \<and>
      (us_password (f u) \<noteq> us_password u \<longrightarrow> may_set_password op s u)"
  shows "changed op s (ss_users (set_users i f s))"
  unfolding set_users_def using changed_map [of s "\<lambda>u. us_id u = i" f op] assms by simp

lemma first_user_some: "first_user p s = Inr u \<Longrightarrow> u \<in> set (ss_users s) \<and> p u"
  by (auto simp: first_user_def dest: find_Some_iff [THEN iffD1] split: option.split_asm)

lemma step_login: "changed (OpLogin r) s (ss_users (left (handle_login env r s) s))"
proof -
  let ?ok = "\<lambda>m :: (string \<times> int) outcome. changed (OpLogin r) s (ss_users (left m s))"
  have l: "?ok (login env q s)" for q
  proof (cases "users_by_email (lr_email q) s")
    case (Inl e)
    then show ?thesis using unchanged by (simp add: login_def deny_def left_def)
  next
    case (Inr u)
    show ?thesis
    proof (cases "user_login_after env u s")
      case None
      then show ?thesis using unchanged
        by (auto simp: login_def Inr deny_def or_deny_def and_then_def left_def split: sum.split option.split)
    next
      case (Some rs)
      obtain x s1 where rs: "rs = (x, s1)" by fastforce
      have s1: "ss_users s1 = ss_users s" using kept_user_login_after [of env u s] by (simp add: Some rs)
      have "changed (OpLogin r) s (ss_users (set_users i (\<lambda>v. v\<lparr>us_last_visit := t, us_updated := t\<rparr>) s1))" for i t
        using changed_set_users [of s i "\<lambda>v. v\<lparr>us_last_visit := t, us_updated := t\<rparr>" "OpLogin r"] s1
        by (simp add: set_users_def same_account_def)
      with s1 show ?thesis using unchanged [of "OpLogin r" s]
        by (auto simp: login_def Inr Some rs deny_def or_deny_def and_then_def left_def split: sum.split option.split)
    qed
  qed
  have t: "?ok (try_login env q s)" for q
    using l [of q] by (auto simp: try_login_def left_def split: sum.split option.split)
  show ?thesis
  proof (cases "validate_input (lr_email r)")
    case None
    then show ?thesis using unchanged by (simp add: handle_login_def deny_def left_def)
  next
    case (Some i)
    show ?thesis
    proof (cases "if i = PhoneInput then email_by_phone (lr_email r) s else Inr (lr_email r)")
      case (Inl e)
      then show ?thesis using unchanged by (simp add: handle_login_def Some left_def)
    next
      case (Inr m)
      show ?thesis
        using t [of "r\<lparr>lr_email := m\<rparr>"] unchanged [of "OpLogin r" s] unfolding handle_login_def Some option.case Inr sum.case
        by (cases "if 0 < ev_max_attempts env then get_allow_login m s else None") (simp_all add: left_def)
    qed
  qed
qed

lemma code_checked: "check_code m code s = None \<Longrightarrow> sv_get (code_key m) s = Inr (Text code)"
  by (auto simp: check_code_def split: sum.split_asm if_split_asm)

lemma step_reset: "changed (OpReset m code p) s (ss_users (left (reset_password env m code p s) s))"
proof (cases "validate_password env p = None \<and> check_code m code s = None \<and> ss_db_fault s ''users.update'' = None \<and> is_ok (users_by_email m s)")
  case False
  then have "kept ss_users (reset_password env m code p s) s"
    by (auto simp: reset_password_def or_deny_def is_ok_def split: option.split sum.split)
  then show ?thesis by (rule changed_kept)
next
  case True
  then obtain u where u: "users_by_email m s = Inr u" by (auto simp: is_ok_def split: sum.split_asm)
  then have m: "us_email u = m" using first_user_some by (fastforce simp: users_by_email_def)
  let ?f = "\<lambda>v. v\<lparr>us_password := ev_hash env p, us_password_updated := Some (ss_now s)\<rparr>"
  have "changed (OpReset m code p) s (map (\<lambda>v. if us_email v = m then ?f v else v) (ss_users s))"
    by (rule changed_map) (use code_checked [of m code s] True in \<open>simp add: same_account_def\<close>)
  then show ?thesis using True by (simp add: reset_password_def or_deny_def u m left_def)
qed

lemma insert_user_cases:
  assumes "insert_user u s = (e, s1)"
  obtains (refused) "ss_users s1 = ss_users s" "e \<noteq> None"
  | (stored) "e = None" "us_id u \<notin> us_id ` set (ss_users s)" "us_email u \<notin> us_email ` set (ss_users s)"
      "s1 = s\<lparr>ss_users := insort_key us_id u (ss_users s)\<rparr>"
proof (cases "ss_db_fault s ''users.create'' = None \<and> us_id u \<notin> us_id ` set (ss_users s) \<and> us_email u \<notin> us_email ` set (ss_users s)")
  case True
  then have "\<not> (\<exists>v \<in> set (ss_users s). us_id v = us_id u)" "\<not> (\<exists>v \<in> set (ss_users s). us_email v = us_email u)"
    by (metis image_eqI)+
  with True assms show ?thesis by (intro stored) (simp_all add: insert_user_def)
next
  case False
  show ?thesis
  proof (cases "ss_db_fault s ''users.create''")
    case None
    with False have "(\<exists>v \<in> set (ss_users s). us_id v = us_id u) \<or> (\<exists>v \<in> set (ss_users s). us_email v = us_email u)"
      by (metis imageE)
    with None assms show ?thesis by (intro refused) (auto simp: insert_user_def split: if_split_asm)
  next
    case (Some x)
    with assms have "e = Some x" "s1 = s" by (simp_all add: insert_user_def)
    then show ?thesis by (intro refused) simp_all
  qed
qed

lemma changed_insert:
  assumes "insert_user u s = (e, s1)" "may_add op s u"
  shows "changed op s (ss_users s1)"
  using assms(1)
proof (cases rule: insert_user_cases)
  case refused
  then show ?thesis using unchanged by simp
next
  case stored
  then show ?thesis by (intro added [OF assms(2)]) auto
qed

lemma kept_add_roles: "kept ss_users (add_roles env i rs s) s"
  by (simp add: add_roles_def Let_def)

lemma default_board_users: "default_board t s = (e, s1) \<Longrightarrow> ss_users s1 = ss_users s"
  by (auto simp: default_board_def split: option.split_asm)

lemma create_with_address_users:
  assumes "create_user_with_address u a s = (e, s1)" "may_add op s u"
  shows "changed op s (ss_users s1)"
proof -
  obtain e0 s0 where i: "insert_user u s = (e0, s0)" by fastforce
  have c: "changed op s (ss_users s0)" by (rule changed_insert [OF i assms(2)])
  have ad: "ss_users (snd (insert_address b s0)) = ss_users s0" for b using insert_address_users [of b s0] by (metis prod.collapse)
  obtain e1 s2 where r: "(case a of None \<Rightarrow> (None, s0) | Some cs \<Rightarrow> insert_address \<lparr>ad_user = us_id u, ad_columns = cs\<rparr> s0) = (e1, s2)"
    by fastforce
  then have "ss_users s2 = ss_users s0" using ad by (auto split: option.split_asm) (metis snd_conv)
  with c r assms(1) unchanged [of op s] show ?thesis
    by (auto simp: create_user_with_address_def all_or_nothing_def i split: option.split_asm)
qed

lemma step_create: "changed (OpCreate r cl) s (ss_users (left (create_user env r cl s) s))"
proof (cases "new_role env cl s")
  case (Inl e)
  then have "kept ss_users (create_user env r cl s) s" by (auto simp: create_user_def split: sum.split)
  then show ?thesis by (rule changed_kept)
next
  case (Inr role)
  obtain a t where role: "role = (a, t)" by fastforce
  let ?u = "new_user env r a t (ss_now s)"
  have may: "may_add (OpCreate r cl) s ?u"
    using Inr role by (auto simp: new_role_def new_user_def users_by_id_def dest: first_user_some split: if_split_asm sum.split_asm)
  obtain e s1 where c: "create_user_with_address ?u (ur_address r) s = (e, s1)" by fastforce
  note c1 = create_with_address_users [OF c may]
  have "changed (OpCreate r cl) s (ss_users (left (add_roles env i rs s2) s))" if "ss_users s2 = ss_users s1" for i rs s2
    using c1 that by (simp add: add_roles_def Let_def)
  moreover obtain e2 s2 where "default_board (given t) s1 = (e2, s2)" "ss_users s2 = ss_users s1" using default_board_users by (metis prod.collapse)
  ultimately show ?thesis using c1 unchanged [of "OpCreate r cl" s]
    unfolding create_user_def Inr role c sum.case prod.case
    by (auto split: sum.split option.split)
qed

lemma update_with_address_users:
  assumes "update_user_with_address i f info a s = (e, s1)"
  shows "ss_users s1 = ss_users s \<or> ss_users s1 = ss_users (set_users i f s)"
proof -
  have ad: "ss_users (snd (save_address i cs (set_users i f s))) = ss_users (set_users i f s)" for cs
    using save_address_users by (metis prod.collapse)
  then show ?thesis using assms
    by (auto simp: update_user_with_address_def all_or_nothing_def split: option.split_asm if_split_asm prod.split_asm)
      (metis snd_conv)+
qed

lemma tenant_checked: "tenant_check cl u = Some True \<Longrightarrow> in_reach cl u"
  by (auto simp: tenant_check_def in_reach_def split: if_split_asm)

lemma users_by_id_some: "users_by_id i s = Inr u \<Longrightarrow> u \<in> set (ss_users s) \<and> us_id u = i"
  using first_user_some by (fastforce simp: users_by_id_def)

lemma id_unique: "distinct (map us_id us) \<Longrightarrow> u \<in> set us \<Longrightarrow> v \<in> set us \<Longrightarrow> us_id u = us_id v \<Longrightarrow> u = v"
  by (auto simp: distinct_map inj_on_def)

lemma step_update:
  assumes "distinct (map us_id (ss_users s))"
  shows "changed (OpUpdate r cl) s (ss_users (left (update_user env r cl s) s))"
proof (cases "users_by_id (ur_id r) s")
  case (Inl e)
  then show ?thesis using unchanged by (auto simp: update_user_def or_deny_def Let_def split: sum.split option.split)
next
  case (Inr u)
  note u = users_by_id_some [OF Inr]
  show ?thesis
  proof (cases "tenant_check cl u = Some True")
    case False
    then show ?thesis using unchanged
      by (auto simp: update_user_def or_deny_def Let_def Inr split: sum.split option.split bool.split)
  next
    case True
    note reach = tenant_checked [OF True]
    have row: "changed (OpUpdate r cl) s (ss_users (set_users (ur_id r) (changed_user r h (ss_now s)) s))" for h
      by (rule changed_set_users) (use id_unique [OF assms] u reach in \<open>fastforce simp: changed_user_def same_account_def\<close>)
    have done': "changed (OpUpdate r cl) s (ss_users (left (after n (update_user_with_address (ur_id r) (changed_user r h (ss_now s)) info a s)
        (set_roles env r)) s))" for n h info a
    proof -
      obtain e s1 where e: "update_user_with_address (ur_id r) (changed_user r h (ss_now s)) info a s = (e, s1)" by fastforce
      have "changed (OpUpdate r cl) s (ss_users s1)" using update_with_address_users [OF e] row [of h] unchanged [of "OpUpdate r cl" s] by auto
      then show ?thesis by (auto simp: e after_def set_roles_def add_roles_def Let_def split: option.split)
    qed
    then show ?thesis using unchanged [of "OpUpdate r cl" s] True
      by (auto simp: update_user_def or_deny_def Let_def Inr split: sum.split option.split bool.split)
  qed
qed

lemma step_delete:
  assumes "distinct (map us_id (ss_users s))"
  shows "changed (OpDelete i cl) s (ss_users (left (delete_user i cl s) s))"
proof (cases "users_by_id i s")
  case (Inl e)
  then show ?thesis using unchanged by (simp add: delete_user_def or_deny_def)
next
  case (Inr u)
  note u = users_by_id_some [OF Inr]
  have row: "changed (OpDelete i cl) s (filter (\<lambda>v. us_id v \<noteq> i) (ss_users s))"
    if "tenant_check cl u = Some True" "us_authority u \<noteq> Some ''SYS_ADMIN''"
    using id_unique [OF assms] u that by (intro dropped [OF _ refl]) (fastforce dest: tenant_checked)
  then show ?thesis using unchanged [of "OpDelete i cl" s]
    by (auto simp: delete_user_def or_deny_def Inr split: option.split bool.split)
qed

lemma step_info:
  assumes "distinct (map us_id (ss_users s))"
  shows "changed (OpInfo r cl) s (ss_users (left (update_user_info env r cl s) s))"
proof (cases "users_by_id (cl_id cl) s")
  case (Inl e)
  then show ?thesis using unchanged by (simp add: update_user_info_def or_deny_def)
next
  case (Inr u)
  note u = users_by_id_some [OF Inr]
  let ?i = "cl_id cl" and ?j = "info_id env r (cl_id cl)"
  have row: "changed (OpInfo r cl) s (sort_key us_id (map (\<lambda>v. if us_id v = ?i then f v else v) (ss_users s)))"
    if f: "\<And>v. same_account v (f v) \<and> us_id (f v) = ?j" and j: "?j \<noteq> ?i \<longrightarrow> (\<forall>v \<in> set (ss_users s). us_id v \<noteq> ?j)" for f
  proof (rule edited [where f = "\<lambda>v. if us_id v = ?i then f v else v"])
    have "inj_on (us_id \<circ> (\<lambda>v. if us_id v = ?i then f v else v)) (set (ss_users s))"
      using id_unique [OF assms] f j by (intro inj_onI) (force split: if_split_asm)
    then show "distinct (map us_id (map (\<lambda>v. if us_id v = ?i then f v else v) (ss_users s)))"
      using assms by (simp add: distinct_map)
  qed (use f in auto)
  have "changed (OpInfo r cl) s (sort_key us_id (map (\<lambda>v. if us_id v = ?i then v\<lparr>us_id := ?j, us_name := put (ir_name r) (us_name v),
      us_remark := put (ir_remark r) (us_remark v), us_password := (case q of None \<Rightarrow> us_password v | Some t \<Rightarrow> ev_hash env t),
      us_updated := Some (ss_now s)\<rparr> else v) (ss_users s)))"
    if "?j \<noteq> ?i \<longrightarrow> (\<forall>v \<in> set (ss_users s). us_id v \<noteq> ?j)" for q
    by (rule row) (use that in \<open>simp_all add: same_account_def\<close>)
  then show ?thesis using unchanged [of "OpInfo r cl" s] u
    by (auto simp: update_user_info_def or_deny_def Inr Let_def simp del: if_cong split: sum.split option.split)
qed

lemma step_register: "changed (OpRegister r) s (ss_users (left (email_register env r s) s))"
proof (cases "check_code (rr_email r) (rr_code r) s")
  case (Some e)
  then show ?thesis using unchanged [of "OpRegister r" s]
    by (auto simp: email_register_def Let_def split: sum.split option.split bool.split)
next
  case None
  have row: "changed (OpRegister r) s (ss_users (left (after 101001 (insert_user u s) (\<lambda>s1. after 101001 (default_board t s1) (user_login_after env u))) s))"
    if u: "us_authority u = Some ''TENANT_ADMIN''" "us_email u = rr_email r" for u t
  proof -
    obtain e s1 where i: "insert_user u s = (e, s1)" by fastforce
    have c: "changed (OpRegister r) s (ss_users s1)"
      by (rule changed_insert [OF i]) (use u code_checked [OF None] in simp)
    have "ss_users (left (after 101001 (default_board t s1) (user_login_after env u)) s) \<in> {ss_users s, ss_users s1}"
    proof -
      obtain e2 s2 where b: "default_board t s1 = (e2, s2)" by fastforce
      have "left (user_login_after env u s2) s = s \<or> ss_users (left (user_login_after env u s2) s) = ss_users s2"
        using kept_user_login_after [of env u s2] by (cases "user_login_after env u s2") (auto simp: kept_def left_def)
      then show ?thesis using default_board_users [OF b] by (auto simp: b after_def split: option.split)
    qed
    with c i unchanged [of "OpRegister r" s] show ?thesis by (auto simp: after_def split: option.split)
  qed
  show ?thesis using unchanged [of "OpRegister r" s] row
    by (auto simp: email_register_def Let_def or_deny_def plain_user_def split: sum.split option.split bool.split)
qed

lemma step_init: "changed (OpInit m p c) s (ss_users (left (init_super_admin env m p c s) s))"
proof -
  let ?u = "init_admin env (trim_space m) p (ss_now s)"
  obtain e s1 where t: "init_transaction ?u s = (e, s1)" by fastforce
  have "changed (OpInit m p c) s (ss_users s1)"
  proof (cases "\<exists>v \<in> set (ss_users s). us_authority v = Some ''SYS_ADMIN''")
    case True
    then show ?thesis using t unchanged by (auto simp: init_transaction_def split: if_split_asm)
  next
    case False
    obtain e2 s2 where i: "insert_user ?u s = (e2, s2)" by fastforce
    have "changed (OpInit m p c) s (ss_users s2)"
      by (rule changed_insert [OF i]) (use False in \<open>auto simp: init_admin_def plain_user_def\<close>)
    then show ?thesis using t i unchanged [of "OpInit m p c" s] by (auto simp: init_transaction_def split: if_split_asm option.split_asm)
  qed
  moreover have "left (user_login_after env ?u s1) s = s \<or> ss_users (left (user_login_after env ?u s1) s) = ss_users s1"
    using kept_user_login_after [of env ?u s1] by (cases "user_login_after env ?u s1") (auto simp: kept_def left_def)
  ultimately show ?thesis using unchanged [of "OpInit m p c" s]
    by (auto simp: init_super_admin_def Let_def t split: option.split sum.split)
qed

lemma step_changed:
  assumes "distinct (map us_id (ss_users s))"
  shows "changed op s (ss_users (account_step env op s))"
proof (cases op)
  case (OpWait d)
  then show ?thesis using unchanged [of op s] by simp
next
  case (OpRequest t)
  then show ?thesis using unchanged [of op s] by (simp add: request_users)
qed (use assms in \<open>simp_all add: step_login step_reset step_create step_update step_delete step_info step_register step_init
  changed_kept kept_logout kept_refresh kept_code kept_address kept_transform\<close>)

section \<open>Runs\<close>

definition admins :: "user list \<Rightarrow> nat" where
  "admins us = length (filter (\<lambda>u. us_authority u = Some ''SYS_ADMIN'') us)"

definition tidy :: "user list \<Rightarrow> bool" where
  "tidy us \<longleftrightarrow> distinct (map us_id us) \<and> distinct (map us_email us) \<and> admins us \<le> 1"

definition is_delete :: "account_op \<Rightarrow> bool" where
  "is_delete op \<longleftrightarrow> (case op of OpDelete i cl \<Rightarrow> True | _ \<Rightarrow> False)"

lemma admins_mset: "mset us = mset vs \<Longrightarrow> admins us = admins vs"
  by (simp add: admins_def) (metis mset_filter size_mset)

lemma admins_filter: "admins (filter keep us) \<le> admins us"
  by (induction us) (auto simp: admins_def)

lemma distinct_mset: "mset us = mset vs \<Longrightarrow> distinct (map f us) = distinct (map f vs)"
  by (metis mset_eq_imp_distinct_iff mset_map)

lemma tidy_mset: "mset us = mset vs \<Longrightarrow> tidy us = tidy vs"
  using distinct_mset [of us vs us_id] distinct_mset [of us vs us_email] admins_mset [of us vs] by (simp add: tidy_def)

lemma tidy_edit:
  assumes "tidy us" "distinct (map us_id (map f us))" "\<And>u. u \<in> set us \<Longrightarrow> same_account u (f u)"
  shows "tidy (map f us)"
proof -
  have "map (us_email \<circ> f) us = map us_email us" using assms(3) by (simp add: same_account_def)
  moreover have "admins (map f us) = admins us" using assms(3)
    by (induction us) (auto simp: admins_def same_account_def)
  ultimately show ?thesis using assms(1,2) by (simp only: tidy_def map_map)
qed

lemma tidy_changed:
  assumes "changed op s us" "tidy (ss_users s)"
  shows "tidy us"
  using assms(1)
proof cases
  case unchanged
  with assms(2) show ?thesis by simp
next
  case (edited f)
  have "tidy (map f (ss_users s))"
    using assms(2) edited(1) edited(2) by (intro tidy_edit) (simp_all add: tidy_def)
  with tidy_mset [OF edited(3)] show ?thesis by blast
next
  case (added u)
  have "admins (u # ss_users s) \<le> 1"
  proof (cases "us_authority u = Some ''SYS_ADMIN''")
    case True
    then have "\<forall>v \<in> set (ss_users s). us_authority v \<noteq> Some ''SYS_ADMIN''" using added(1) by (cases op) auto
    then show ?thesis by (simp add: admins_def)
  qed (use assms(2) in \<open>simp add: tidy_def admins_def\<close>)
  then have "tidy (u # ss_users s)" using assms(2) added(2,3) by (simp add: tidy_def)
  moreover have "mset us = mset (u # ss_users s)" using added(4) by simp
  ultimately show ?thesis using tidy_mset by blast
next
  case (dropped keep)
  with assms(2) admins_filter [of keep "ss_users s"] show ?thesis by (auto simp: tidy_def distinct_map_filter)
qed

lemma changed_survives:
  assumes "changed op s us" "u \<in> set (ss_users s)" "us_authority u = Some ''SYS_ADMIN'' \<or> \<not> is_delete op"
  obtains v where "v \<in> set us" "same_account u v"
  using assms(1)
proof cases
  case unchanged
  with assms(2) that show ?thesis by auto
next
  case (edited f)
  from edited(3) have "set us = f ` set (ss_users s)" by (metis mset_eq_setD set_map)
  with edited(1) [OF assms(2)] assms(2) that show ?thesis by blast
next
  case (added w)
  with assms(2) that [of u] show ?thesis by (simp add: set_insort_key)
next
  case (dropped keep)
  have "keep u"
    using dropped(1) [OF assms(2)] assms(3) by (cases op) (auto simp: is_delete_def)
  with dropped(2) assms(2) that [of u] show ?thesis by simp
qed

lemma run_tidy: "tidy (ss_users s) \<Longrightarrow> tidy (ss_users (account_run ops s))"
proof (induction ops s rule: account_run.induct)
  case (2 env op ops s)
  from 2(2) have "changed op s (ss_users (account_step env op s))" by (intro step_changed) (simp add: tidy_def)
  with 2 show ?case by (simp add: tidy_changed)
qed simp

lemma run_survives:
  assumes "tidy (ss_users s)" "u \<in> set (ss_users s)"
    "us_authority u = Some ''SYS_ADMIN'' \<or> (\<forall>(env, op) \<in> set ops. \<not> is_delete op)"
  shows "\<exists>v \<in> set (ss_users (account_run ops s)). same_account u v"
  using assms
proof (induction ops s arbitrary: u rule: account_run.induct)
  case (1 s)
  then show ?case by (intro bexI [of _ u]) simp_all
next
  case (2 env op ops s)
  have c: "changed op s (ss_users (account_step env op s))" using 2(2) by (intro step_changed) (simp add: tidy_def)
  obtain v where v: "v \<in> set (ss_users (account_step env op s))" "same_account u v"
    using changed_survives [OF c 2(3)] 2(4) by auto
  have "\<exists>w \<in> set (ss_users (account_run ops (account_step env op s))). same_account v w"
    using 2(4) v by (intro 2(1) tidy_changed [OF c 2(2)]) (auto simp: same_account_def)
  with v(2) show ?case by (auto simp: same_account_def)
qed



section \<open>Tenants\<close>

definition claims_used :: "account_op \<Rightarrow> claims option" where
  "claims_used op = (case op of OpRefresh cl \<Rightarrow> Some cl | OpCreate r cl \<Rightarrow> Some cl | OpUpdate r cl \<Rightarrow> Some cl
     | OpDelete i cl \<Rightarrow> Some cl | OpAddress i cs cl \<Rightarrow> Some cl | OpInfo r cl \<Rightarrow> Some cl | OpTransform i cl \<Rightarrow> Some cl | _ \<Rightarrow> None)"

text \<open>C17: A tenant keeps to itself. A request on behalf of a tenant's administrator or user, whose claims
  name the tenant of the row they are about, leaves every user of another tenant exactly as it was, and
  the users it adds or changes are of the tenant.\<close>
theorem tenant_confined:
  assumes "tidy (ss_users s)" "claims_used op = Some cl" "of_tenant cl"
    "\<forall>a \<in> set (ss_users s). us_id a = cl_id cl \<longrightarrow> us_tenant a = Some (cl_tenant cl)"
  shows "(\<forall>u \<in> set (ss_users s). us_tenant u \<noteq> Some (cl_tenant cl) \<longrightarrow> u \<in> set (ss_users (account_step env op s))) \<and>
    (\<forall>v \<in> set (ss_users (account_step env op s)). v \<notin> set (ss_users s) \<longrightarrow> us_tenant v = Some (cl_tenant cl))"
proof -
  have e: "may_edit op s u \<or> may_drop op u \<Longrightarrow> u \<in> set (ss_users s) \<Longrightarrow> us_tenant u = Some (cl_tenant cl)" for u
    using assms(2-4) by (cases op) (auto simp: claims_used_def in_reach_def)
  have n: "may_add op s u \<Longrightarrow> us_tenant u = Some (cl_tenant cl)" for u
    using assms(2-4) by (cases op) (auto simp: claims_used_def of_tenant_def)
  have d: "distinct (map us_id (ss_users s))" using assms(1) by (simp add: tidy_def)
  show ?thesis
    using step_changed [OF d, of op env]
  proof cases
    case unchanged
    then show ?thesis by simp
  next
    case (edited f)
    from edited(3) have s': "set (ss_users (account_step env op s)) = f ` set (ss_users s)" by (metis mset_eq_setD set_map)
    have "u = f u" if "u \<in> set (ss_users s)" "us_tenant u \<noteq> Some (cl_tenant cl)" for u using edited(1) [OF that(1)] e that by metis
    then have "u \<in> f ` set (ss_users s)" if "u \<in> set (ss_users s)" "us_tenant u \<noteq> Some (cl_tenant cl)" for u using that by (intro image_eqI)
    moreover have "us_tenant (f u) = Some (cl_tenant cl)" if "u \<in> set (ss_users s)" "f u \<notin> set (ss_users s)" for u
    proof -
      have "f u \<noteq> u" using that by auto
      with edited(1) [OF that(1)] e that(1) show ?thesis by (auto simp: same_account_def)
    qed
    ultimately show ?thesis unfolding s' by blast
  next
    case (added u)
    with n [OF added(1)] show ?thesis by (simp add: set_insort_key)
  next
    case (dropped keep)
    with e show ?thesis by auto
  qed
qed

section \<open>Examples\<close>

definition demo_user :: user where
  "demo_user = \<lparr>us_id = ''u1'', us_name = None, us_phone = ''+86 1'', us_email = ''a@t.org'', us_status = Some ''N'',
     us_authority = Some ''TENANT_ADMIN'', us_password = ''h:old123'', us_tenant = Some ''t1'', us_remark = None, us_additional = None,
     us_organization = None, us_timezone = None, us_language = None, us_last_visit = None, us_password_updated = None,
     us_updated = None\<rparr>"

definition demo_accounts :: accounts where
  "demo_accounts = \<lparr>ss_now = 1000000, ss_users = [demo_user, demo_user\<lparr>us_id := ''u2'', us_email := ''b@t.org'', us_tenant := Some ''t2''\<rparr>,
       demo_user\<lparr>us_id := ''u3'', us_email := ''root@t.org'', us_authority := Some ''SYS_ADMIN'', us_tenant := Some ''''\<rparr>],
     ss_addresses = [], ss_functions = [], ss_boards = [], ss_roles = [], ss_mails = [],
     ss_redis = [code_key ''a@t.org'' \<mapsto> (Text ''123456'', Some 1200000)], ss_db_fault = (\<lambda>_. None), ss_redis_fault = (\<lambda>_ _. None)\<rparr>"

text \<open>Stand-ins for bcrypt and JWT.\<close>

definition demo_account_env :: account_env where
  "demo_account_env = \<lparr>ev_key = ''k'', ev_timeout = 60, ev_reset = True, ev_max_attempts = 3, ev_lock_seconds = 900,
     ev_uuid = ''u4'', ev_tenant_uuid = ''t4-x'', ev_code = Inr ''654321'', ev_tenant = Inr ''t5'', ev_hash = (\<lambda>p. ''h:'' @ p),
     ev_check = (\<lambda>p h. h = ''h:'' @ p), ev_sign = (\<lambda>c. Inr (''jwt.'' @ cl_email c @ ''.'' @ show_int (cl_created c))),
     ev_parse = (\<lambda>_. Inl not_an_integer), ev_decrypt = Inr, ev_mail = None, ev_roles_added = True, ev_runes = (\<lambda>_. []),
     ev_sets_key = False, ev_time_text = show_int\<rparr>"

definition demo_claims :: claims where
  "demo_claims = \<lparr>cl_id = ''u1'', cl_email = ''a@t.org'', cl_authority = ''TENANT_ADMIN'', cl_tenant = ''t1'', cl_created = 0\<rparr>"

definition demo_user_req :: user_req where
  "demo_user_req = \<lparr>ur_id = '''', ur_email = ''c@t.org'', ur_password = Some ''new123'', ur_name = None, ur_phone = Some ''+86 2'',
     ur_additional = None, ur_status = None, ur_remark = None, ur_organization = None, ur_timezone = None, ur_language = None,
     ur_roles = None, ur_address = None\<rparr>"

lemma demo_accounts_tidy: "tidy (ss_users demo_accounts)"
  by (simp add: demo_accounts_def demo_user_def tidy_def admins_def)



theorem tenant_confined_witness:
  "let s = account_step demo_account_env (OpDelete ''u1'' demo_claims) demo_accounts in
   map us_id (ss_users s) = [''u2'', ''u3''] \<and> demo_user\<lparr>us_id := ''u2'', us_email := ''b@t.org'', us_tenant := Some ''t2''\<rparr> \<in> set (ss_users s)"
proof -
  let ?s = "account_step demo_account_env (OpDelete ''u1'' demo_claims) demo_accounts"
  let ?b = "demo_user\<lparr>us_id := ''u2'', us_email := ''b@t.org'', us_tenant := Some ''t2''\<rparr>"
  have "map us_id (ss_users ?s) = [''u2'', ''u3'']" by code_simp
  moreover have c: "claims_used (OpDelete ''u1'' demo_claims) = Some demo_claims" "of_tenant demo_claims"
      "\<forall>a \<in> set (ss_users demo_accounts). us_id a = cl_id demo_claims \<longrightarrow> us_tenant a = Some (cl_tenant demo_claims)"
      "?b \<in> set (ss_users demo_accounts)" "us_tenant ?b \<noteq> Some (cl_tenant demo_claims)"
    by (simp_all add: claims_used_def of_tenant_def demo_claims_def demo_accounts_def demo_user_def)
  then have "?b \<in> set (ss_users ?s)"
    using tenant_confined [OF demo_accounts_tidy c(1-3), of demo_account_env] by blast
  ultimately show ?thesis by (simp add: Let_def)
qed

end
