(* ===== verification/Sessions.thy ===== *)
theory Sessions
  imports AccountSafety
begin

text \<open>
  What the operations on accounts do to the session keys in Redis. A login without sharing leaves one
  token per account; the lock after failed logins; and what concurrent requests can do to both.
\<close>

section \<open>Operations that leave Redis alone\<close>

definition redis_part :: "accounts \<Rightarrow> (string \<rightharpoonup> cell \<times> int option) \<times> (string \<Rightarrow> string \<Rightarrow> gerror option) \<times> int" where
  "redis_part s = (ss_redis s, ss_redis_fault s, ss_now s)"

lemma redis_part_update [simp]:
  "redis_part (s\<lparr>ss_users := us\<rparr>) = redis_part s" "redis_part (s\<lparr>ss_addresses := as\<rparr>) = redis_part s"
  "redis_part (s\<lparr>ss_boards := bs\<rparr>) = redis_part s" "redis_part (s\<lparr>ss_roles := rs\<rparr>) = redis_part s"
  "redis_part (s\<lparr>ss_mails := ms\<rparr>) = redis_part s" "redis_part (set_users i f s) = redis_part s"
  by (simp_all add: redis_part_def set_users_def)

lemma insert_user_redis: "insert_user u s = (e, s1) \<Longrightarrow> redis_part s1 = redis_part s"
  by (auto simp: insert_user_def split: option.split_asm if_split_asm)

lemma insert_address_redis: "insert_address a s = (e, s1) \<Longrightarrow> redis_part s1 = redis_part s"
  by (auto simp: insert_address_def split: option.split_asm if_split_asm)

lemma save_address_redis: "save_address i cs s = (e, s1) \<Longrightarrow> redis_part s1 = redis_part s"
  by (auto simp: save_address_def dest: insert_address_redis split: option.split_asm if_split_asm)

lemma default_board_redis: "default_board t s = (e, s1) \<Longrightarrow> redis_part s1 = redis_part s"
  by (auto simp: default_board_def split: option.split_asm)

lemma all_or_nothing_redis: "(\<And>e s2. r = (e, s2) \<Longrightarrow> redis_part s2 = redis_part s) \<Longrightarrow> redis_part (snd (all_or_nothing s r)) = redis_part s"
  by (cases r) (auto simp: all_or_nothing_def split: option.split)

lemma create_address_redis: "redis_part (snd (create_user_with_address u a s)) = redis_part s"
  unfolding create_user_with_address_def
  by (intro all_or_nothing_redis) (auto dest!: insert_user_redis insert_address_redis split: prod.split_asm option.split_asm)

lemma update_address_redis: "redis_part (snd (update_user_with_address i f info a s)) = redis_part s"
  unfolding update_user_with_address_def
  by (intro all_or_nothing_redis) (auto dest: save_address_redis split: option.split_asm if_split_asm)

lemma add_roles_redis: "kept redis_part (add_roles env i rs s) s"
  by (simp add: add_roles_def Let_def)

lemma create_redis: "kept redis_part (create_user env r cl s) s"
proof -
  have c: "redis_part s1 = redis_part s" if "create_user_with_address u a s = (e, s1)" for u a e s1
    using create_address_redis [of u a s] that by simp
  show ?thesis unfolding create_user_def
    by (auto dest!: c default_board_redis intro!: kept_cong [OF _ add_roles_redis] split: sum.split option.split prod.split)
qed

lemma update_redis: "kept redis_part (update_user env r cl s) s"
proof -
  have "kept redis_part (set_roles env r s1) s" if "redis_part s1 = redis_part s" for s1
    using that by (auto simp: set_roles_def intro!: kept_cong [OF _ add_roles_redis] split: option.split)
  then show ?thesis unfolding update_user_def Let_def
    by (auto intro!: kept_rules simp: update_address_redis split: sum.split option.split bool.split)
qed

lemma other_redis:
  "kept redis_part (reset_password env m code p s) s" "kept redis_part (delete_user i cl s) s" "kept redis_part (update_user_info env q cl s) s"
  unfolding reset_password_def delete_user_def update_user_info_def Let_def
  by (auto intro!: kept_rules split: sum.split option.split bool.split)

lemma address_redis: "kept redis_part (update_user_address i cs cl s) s"
  unfolding update_user_address_def
  by (auto intro!: kept_rules all_or_nothing_redis dest: save_address_redis split: option.split bool.split)

section \<open>Tokens that are accepted\<close>

text \<open>A token is none of the other keys, and not one of their values.\<close>

definition proper_token :: "string \<Rightarrow> bool" where
  "proper_token t \<longleftrightarrow> t \<noteq> '''' \<and> t \<noteq> ''1'' \<and> (\<forall>m. t \<noteq> token_key m \<and> t \<noteq> code_key m \<and> t \<noteq> lock_key m \<and> t \<noteq> fail_key m)"

lemma keys_differ [simp]:
  "code_key m \<noteq> token_key m'" "lock_key m \<noteq> token_key m'" "fail_key m \<noteq> token_key m'"
  "token_key m = token_key m' \<longleftrightarrow> m = m'"
proof -
  have l: "last (code_key m) = CHR ''e''" "last (lock_key m) = CHR ''l''" "last (fail_key m) = CHR ''s''" "last (token_key m') = CHR ''n''"
    by (simp_all add: code_key_def lock_key_def fail_key_def token_key_def)
  then show "code_key m \<noteq> token_key m'" "lock_key m \<noteq> token_key m'" "fail_key m \<noteq> token_key m'" by auto
  show "token_key m = token_key m' \<longleftrightarrow> m = m'" by (simp add: token_key_def)
qed

text \<open>Nothing becomes an accepted token but those of \<open>F\<close>, and no account gets another recorded one.\<close>

definition calm :: "string set \<Rightarrow> accounts \<Rightarrow> accounts \<Rightarrow> bool" where
  "calm F s s' \<longleftrightarrow> (\<forall>t. proper_token t \<longrightarrow> token_known t s' \<longrightarrow> token_known t s \<or> t \<in> F) \<and>
     (\<forall>m. ss_redis s' (token_key m) = ss_redis s (token_key m)) \<and> ss_redis_fault s' = ss_redis_fault s"

lemma calm_refl [simp]: "calm F s s"
  by (simp add: calm_def)

lemma calm_trans: "calm F s s1 \<Longrightarrow> calm F s1 s2 \<Longrightarrow> calm F s s2"
  unfolding calm_def by metis

lemma calm_mono: "calm F s s' \<Longrightarrow> F \<subseteq> G \<Longrightarrow> calm G s s'"
  by (auto simp: calm_def)

lemma token_known_part: "redis_part s' = redis_part s \<Longrightarrow> token_known t s' = token_known t s"
proof -
  assume p: "redis_part s' = redis_part s"
  then have "sv_get t s' = sv_get t s" by (auto simp: sv_get_def live_def redis_part_def split: option.split)
  then show ?thesis by (simp add: token_known_def)
qed

lemma calm_part: "redis_part s' = redis_part s \<Longrightarrow> calm F s s'"
  using token_known_part [of s' s] unfolding calm_def by (simp add: redis_part_def)

lemma calm_kept: "kept redis_part m s \<Longrightarrow> calm F s (left m s)"
  by (simp add: kept_def calm_part)

lemma token_known_set: "token_known t (s\<lparr>ss_redis := (ss_redis s)(k := x)\<rparr>) =
  (if t = k then ss_redis_fault s ''get'' t = None \<and> (\<exists>e. x = Some (Text ''1'', e) \<and> live e s) else token_known t s)"
  by (auto simp: token_known_def sv_get_def live_def split: option.splits cell.splits if_splits)

lemma calm_set_key: "(\<And>m. k \<noteq> token_key m) \<Longrightarrow> (proper_token k \<Longrightarrow> k \<in> F) \<Longrightarrow> calm F s (s\<lparr>ss_redis := (ss_redis s)(k := x)\<rparr>)"
  by (auto simp: calm_def token_known_set)

lemma calm_drop: "(\<And>m. k \<noteq> token_key m) \<Longrightarrow> calm F s (s\<lparr>ss_redis := (ss_redis s)(k := None)\<rparr>)"
  by (auto simp: calm_def token_known_set)

lemma other_keys [simp]: "\<not> proper_token (code_key m)" "\<not> proper_token (lock_key m)" "\<not> proper_token (fail_key m)"
  by (auto simp: proper_token_def)

lemma calm_count: "calm F s (snd (login_success u s))" "calm F s (snd (login_fail env u s))"
proof -
  have del: "calm F s1 (snd (sv_del (fail_key u) s1))" for s1
    by (auto simp: sv_del_def intro: calm_drop split: option.split)
  have set1: "calm F s1 (snd (sv_set (lock_key u) v ttl s1))" for s1 v ttl
    by (auto simp: sv_set_def intro: calm_set_key split: option.split)
  have incr: "calm F s (snd (sv_incr (fail_key u) s))"
    by (auto simp: sv_incr_def intro: calm_set_key split: option.split cell.split prod.split)
  show "calm F s (snd (login_success u s))" by (simp add: login_success_def del)
  obtain n s1 where 1: "sv_incr (fail_key u) s = (n, s1)" by fastforce
  obtain e s2 where 2: "sv_set (lock_key u) (Stamp ((ss_now s + lock_ms env) div 1000)) (lock_ms env) s1 = (e, s2)" by fastforce
  obtain e3 s3 where 3: "sv_del (fail_key u) s2 = (e3, s3)" by fastforce
  have "calm F s s1" using incr 1 by simp
  moreover have "calm F s s2" using calm_trans [OF \<open>calm F s s1\<close>] set1 2 by (metis snd_conv)
  moreover have "calm F s s3" using calm_trans [OF \<open>calm F s s2\<close>] del 3 by (metis snd_conv)
  ultimately show "calm F s (snd (login_fail env u s))" by (simp add: login_fail_def 1 2 3 split: sum.split option.split)
qed

section \<open>One token per account\<close>

text \<open>After a login the new token is the recorded one, and what was recorded before is not accepted.\<close>

definition replaced :: "string \<Rightarrow> string \<Rightarrow> accounts \<Rightarrow> accounts \<Rightarrow> bool" where
  "replaced m t s s' \<longleftrightarrow> ss_redis s' (token_key m) = Some (Text t, None) \<and>
     (\<forall>m'. m' \<noteq> m \<longrightarrow> ss_redis s' (token_key m') = ss_redis s (token_key m')) \<and>
     (\<forall>x. proper_token x \<longrightarrow> token_known x s' \<longrightarrow> x = t \<or> token_known x s \<and> ss_redis s (token_key m) \<noteq> Some (Text x, None)) \<and>
     ss_redis_fault s' = ss_redis_fault s"

definition recorded_ok :: "accounts \<Rightarrow> bool" where
  "recorded_ok s \<longleftrightarrow> (\<forall>m v x. ss_redis s (token_key m) = Some (v, x) \<longrightarrow> x = None \<and> (\<exists>t. v = Text t \<and> proper_token t)) \<and>
     (\<forall>c k e. ss_redis_fault s c k = Some e \<longrightarrow> \<not> errors_is e RedisNil)"

definition record_token :: "string \<Rightarrow> string \<Rightarrow> accounts \<Rightarrow> accounts" where
  "record_token m t s = s\<lparr>ss_redis := (ss_redis s)(token_key m \<mapsto> (Text t, None))\<rparr>"

lemma set_record: "sv_set (token_key m) (Text t) 0 s = (None, record_token m t s) \<or> (\<exists>e. sv_set (token_key m) (Text t) 0 s = (Some e, s))"
  by (auto simp: sv_set_def record_token_def split: option.split)

lemma replaced_record:
  assumes "\<And>m'. ss_redis u (token_key m') = ss_redis s (token_key m')"
    "\<And>x. proper_token x \<Longrightarrow> token_known x u \<Longrightarrow> token_known x s \<and> ss_redis s (token_key m) \<noteq> Some (Text x, None)"
    "ss_redis_fault u = ss_redis_fault s"
  shows "replaced m t s (record_token m t u)"
proof -
  have "token_known x (record_token m t u) = token_known x u" if "proper_token x" for x
    using that by (auto simp: record_token_def token_known_set proper_token_def)
  with assms show ?thesis by (auto simp: replaced_def record_token_def)
qed

lemma record_after:
  assumes "replaced m t s (record_token m t u)" "calm F s u"
  shows "case after n (sv_set (token_key m) (Text t) 0 u) (\<lambda>s. Some (Inr (), s)) of None \<Rightarrow> False
    | Some (Inl e, s') \<Rightarrow> calm F s s' | Some (Inr _, s') \<Rightarrow> replaced m t s s'"
  using set_record [of m t u] assms by (auto simp: after_def deny_def)

lemma sole_token_effect:
  assumes "recorded_ok s"
  shows "case sole_token m t s of None \<Rightarrow> False | Some (Inl e, s') \<Rightarrow> calm F s s' | Some (Inr _, s') \<Rightarrow> replaced m t s s'"
proof (cases "sv_get (token_key m) s")
  case (Inl e)
  show ?thesis
  proof (cases "errors_is e RedisNil")
    case False
    then show ?thesis by (simp add: sole_token_def Inl Let_def deny_def)
  next
    case True
    have "ss_redis s (token_key m) = None"
    proof (cases "ss_redis s (token_key m)")
      case (Some q)
      then have "snd q = None" using assms by (cases q) (auto simp: recorded_ok_def)
      then have "ss_redis_fault s ''get'' (token_key m) = Some e"
        using Inl Some by (cases q) (auto simp: sv_get_def live_def split: option.split_asm)
      with True assms show ?thesis by (auto simp: recorded_ok_def)
    qed
    then have "replaced m t s (record_token m t s)" by (intro replaced_record) simp_all
    from record_after [OF this, of F] True show ?thesis by (simp add: sole_token_def Inl Let_def)
  qed
next
  case (Inr c)
  have "\<exists>x. ss_redis s (token_key m) = Some (c, x)"
    using Inr by (auto simp: sv_get_def split: option.split_asm prod.split_asm if_split_asm)
  then obtain old where old: "ss_redis s (token_key m) = Some (Text old, None)" "c = Text old" "proper_token old"
    using assms unfolding recorded_ok_def by blast
  have ne: "old \<noteq> ''''" "\<And>m'. old \<noteq> token_key m'" using old(3) by (auto simp: proper_token_def)
  show ?thesis
  proof (cases "ss_redis_fault s ''del'' old")
    case (Some e)
    then show ?thesis by (simp add: sole_token_def Inr Let_def old(2) ne(1) sv_del_def after_def deny_def)
  next
    case None
    let ?u = "s\<lparr>ss_redis := (ss_redis s)(old := None)\<rparr>"
    have "replaced m t s (record_token m t ?u)"
      using old(1) ne(2) by (intro replaced_record) (auto simp: token_known_set split: if_split_asm)
    moreover have "calm F s ?u" using ne(2) by (intro calm_drop)
    ultimately show ?thesis using record_after [of m t s ?u F]
      by (simp add: sole_token_def Inr Let_def old(2) ne(1) sv_del_def None after_def [of _ "(None, _)"])
  qed
qed

text \<open>What can be signed, and that all of it is new.\<close>

definition signed :: "account_env \<Rightarrow> string set" where
  "signed env = {t. \<exists>c. ev_sign env c = Inr t}"

definition new_tokens :: "account_env \<Rightarrow> accounts \<Rightarrow> bool" where
  "new_tokens env s \<longleftrightarrow> (\<forall>t \<in> signed env. proper_token t \<and> \<not> token_known t s)"

lemma user_login_after_effect:
  assumes "recorded_ok s" "\<not> user_is_share s" "new_tokens env s"
  shows "case user_login_after env u s of None \<Rightarrow> True | Some (Inl e, s') \<Rightarrow> calm (signed env) s s'
    | Some (Inr (t, n), s') \<Rightarrow> replaced (us_email u) t s s' \<and> t \<in> signed env \<and> proper_token t"
proof -
  let ?F = "signed env"
  have set1: "\<exists>x. sv_set t (Text ''1'') ttl s = (None, s\<lparr>ss_redis := (ss_redis s)(t \<mapsto> x)\<rparr>) \<or> (\<exists>e. sv_set t (Text ''1'') ttl s = (Some e, s))"
    for t ttl by (auto simp: sv_set_def split: option.split)
  have main: "case and_then (sole_token m t s1) (\<lambda>_ s2. Some (Inr (t, n), s2)) of None \<Rightarrow> True | Some (Inl e, s') \<Rightarrow> calm ?F s s'
      | Some (Inr (t', n'), s') \<Rightarrow> replaced m t' s s' \<and> t' \<in> ?F \<and> proper_token t'"
    if s1: "s1 = s\<lparr>ss_redis := (ss_redis s)(t \<mapsto> x)\<rparr>" and t: "proper_token t" "t \<in> ?F" "\<not> token_known t s" for m t n s1 x
  proof -
    have tk: "t \<noteq> token_key m'" for m' using t(1) by (auto simp: proper_token_def)
    then have "recorded_ok s1" using assms(1) by (auto simp: recorded_ok_def s1)
    from sole_token_effect [OF this, where m = m and t = t and F = ?F] have e: "case sole_token m t s1 of None \<Rightarrow> False | Some (Inl e, s') \<Rightarrow> calm ?F s1 s'
      | Some (Inr _, s') \<Rightarrow> replaced m t s1 s'" .
    have c: "calm ?F s s1" unfolding s1 by (rule calm_set_key) (use tk t(2) in auto)
    have "replaced m t s s'" if "replaced m t s1 s'" for s'
      using that tk by (auto simp: replaced_def s1 token_known_set split: if_split_asm)
    then show ?thesis using e c t(1,2) by (auto simp: and_then_def intro: calm_trans split: option.split sum.split)
  qed
  show ?thesis
  proof (cases "claims_of u (ss_now s)")
    case None
    then show ?thesis by (simp add: user_login_after_def deny_def)
  next
    case (Some c)
    show ?thesis
    proof (cases "ev_sign env c")
      case (Inl e)
      then show ?thesis by (simp add: user_login_after_def Some or_deny_def deny_def)
    next
      case (Inr t)
      have t: "proper_token t \<and> t \<in> signed env \<and> \<not> token_known t s" using Inr assms(3) by (auto simp: new_tokens_def signed_def)
      let ?ttl = "(if ev_reset env \<and> ev_timeout env = 0 then 60 else ev_timeout env) * 60000"
      consider x where "sv_set t (Text ''1'') ?ttl s = (None, s\<lparr>ss_redis := (ss_redis s)(t \<mapsto> x)\<rparr>)"
        | e where "sv_set t (Text ''1'') ?ttl s = (Some e, s)" using set1 by blast
      then show ?thesis
      proof cases
        case (1 x)
        let ?s1 = "s\<lparr>ss_redis := (ss_redis s)(t \<mapsto> x)\<rparr>"
        have m: "case and_then (sole_token (us_email u) t ?s1) (\<lambda>_ s2. Some (Inr (t, k), s2)) of None \<Rightarrow> True | Some (Inl e, s') \<Rightarrow> calm ?F s s'
            | Some (Inr (t', n'), s') \<Rightarrow> replaced (us_email u) t' s s' \<and> t' \<in> ?F \<and> proper_token t'" for k
          by (rule main [OF refl]) (use t in auto)
        have "\<not> user_is_share ?s1" using assms(2) by (auto simp: user_is_share_def function_enabled_def split: if_splits option.splits)
        then have "user_login_after env u s = (if trim_space (ev_key env) = '''' then deny 103001 s
            else and_then (sole_token (us_email u) t ?s1) (\<lambda>_ s2. Some (Inr (t, (if ev_reset env \<and> ev_timeout env = 0 then 60 else ev_timeout env) * 60), s2)))"
          using 1 unfolding user_login_after_def Some option.case Let_def or_deny_def Inr sum.case after_def by simp
        then show ?thesis using m by (cases "trim_space (ev_key env) = []") (simp add: deny_def, simp only: if_False)
      next
        case (2 e)
        then show ?thesis by (simp add: user_login_after_def Some or_deny_def Inr Let_def after_def deny_def)
      qed
    qed
  qed
qed

section \<open>Runs of sessions\<close>

text \<open>The account and the token of a login that succeeded.\<close>

definition login_name :: "login_req \<Rightarrow> accounts \<Rightarrow> string" where
  "login_name r s = (if validate_input (lr_email r) = Some PhoneInput
     then (case email_by_phone (lr_email r) s of Inl _ \<Rightarrow> '''' | Inr m \<Rightarrow> m) else lr_email r)"

definition issued :: "account_env \<Rightarrow> account_op \<Rightarrow> accounts \<Rightarrow> (string \<times> string) list" where
  "issued env op s = (let token = (\<lambda>m q. case q of Some (Inr (t, _), _) \<Rightarrow> [(m, t)] | _ \<Rightarrow> []) in case op of
     OpLogin r \<Rightarrow> token (login_name r s) (handle_login env r s)
   | OpRegister r \<Rightarrow> token (rr_email r) (email_register env r s)
   | OpInit m p c \<Rightarrow> token (trim_space m) (init_super_admin env m p c s)
   | _ \<Rightarrow> [])"

text \<open>Accounts are not shared; the tokens that are signed are new; and a token that logs out has passed
  the check.\<close>

inductive session_run :: "accounts \<Rightarrow> accounts \<Rightarrow> (string \<times> string) list \<Rightarrow> bool" for s0 where
  session_start: "session_run s0 s0 []"
| session_serve: "session_run s0 s ts \<Longrightarrow> \<not> user_is_share s \<Longrightarrow>
    new_tokens env s \<Longrightarrow> signed env \<inter> snd ` set ts = {} \<Longrightarrow>
    (\<And>t. op = OpLogout t \<Longrightarrow> token_known t s) \<Longrightarrow>
    session_run s0 (account_step env op s) (ts @ issued env op s)"

definition sole :: "accounts \<Rightarrow> (string \<times> string) list \<Rightarrow> bool" where
  "sole s ts \<longleftrightarrow> recorded_ok s \<and>
     (\<forall>(m, t) \<in> set ts. proper_token t \<and> (token_known t s \<longrightarrow> ss_redis s (token_key m) = Some (Text t, None)))"

text \<open>What a request may do: nothing of this kind, or one login, whose token may get lost on the way back.\<close>

definition settled :: "account_env \<Rightarrow> accounts \<Rightarrow> accounts \<Rightarrow> bool" where
  "settled env s s' \<longleftrightarrow> calm (signed env) s s' \<or> (\<exists>m. \<exists>t \<in> signed env. replaced m t s s')"

definition serves :: "account_env \<Rightarrow> accounts \<Rightarrow> accounts \<Rightarrow> (string \<times> string) list \<Rightarrow> bool" where
  "serves env s s' ts \<longleftrightarrow> (ts = [] \<and> settled env s s') \<or>
     (\<exists>m t. ts = [(m, t)] \<and> replaced m t s s' \<and> t \<in> signed env)"

lemma settled_refl [simp]: "settled env s s"
  by (simp add: settled_def)

lemma calm_sole:
  assumes "calm (signed env) s s'" "sole s ts" "signed env \<inter> snd ` set ts = {}"
  shows "sole s' ts"
proof -
  have k: "token_known t s" if "(m, t) \<in> set ts" "token_known t s'" for m t
  proof -
    have "proper_token t" "t \<in> snd ` set ts" using that(1) assms(2) by (force simp: sole_def)+
    with assms(1,3) that(2) show ?thesis unfolding calm_def by blast
  qed
  have "recorded_ok s'" using assms(1,2) by (simp add: recorded_ok_def sole_def calm_def)
  moreover have "proper_token t \<and> (token_known t s' \<longrightarrow> ss_redis s' (token_key m) = Some (Text t, None))" if "(m, t) \<in> set ts" for m t
    using k [OF that] that assms(1,2) unfolding sole_def calm_def by fastforce
  ultimately show ?thesis by (auto simp: sole_def)
qed

lemma replaced_sole:
  assumes r: "replaced m t s s'" and s: "sole s ts" and p: "proper_token t" "t \<notin> snd ` set ts"
  shows "sole s' ts" "sole s' (ts @ [(m, t)])"
proof -
  have "recorded_ok s'" unfolding recorded_ok_def
  proof (intro conjI allI impI)
    fix m' v x
    assume "ss_redis s' (token_key m') = Some (v, x)"
    then show "x = None" "\<exists>t. v = Text t \<and> proper_token t"
      using r p(1) s by (cases "m' = m"; auto simp: replaced_def sole_def recorded_ok_def)+
  qed (use r s in \<open>auto simp: sole_def recorded_ok_def replaced_def\<close>)
  moreover have "ss_redis s' (token_key n) = Some (Text x, None)" if x: "(n, x) \<in> set ts" "token_known x s'" for n x
  proof -
    have "proper_token x" "x \<noteq> t" using x(1) p(2) s by (force simp: sole_def)+
    then have o: "token_known x s" "ss_redis s (token_key m) \<noteq> Some (Text x, None)" using r x(2) by (auto simp: replaced_def)
    then have "ss_redis s (token_key n) = Some (Text x, None)" using x(1) s by (auto simp: sole_def)
    with o(2) r show ?thesis by (auto simp: replaced_def)
  qed
  ultimately show "sole s' ts" using s by (auto simp: sole_def)
  with r p(1) show "sole s' (ts @ [(m, t)])" by (auto simp: sole_def replaced_def)
qed

lemma serves_sole:
  assumes "serves env s s' us" "sole s ts" "new_tokens env s" "signed env \<inter> snd ` set ts = {}"
  shows "sole s' (ts @ us)"
proof -
  have t: "proper_token t" "t \<notin> snd ` set ts" if "t \<in> signed env" for t using assms(3,4) that by (auto simp: new_tokens_def)
  show ?thesis using assms(1) calm_sole [OF _ assms(2,4)] replaced_sole [OF _ assms(2)] t
    by (auto simp: serves_def settled_def)
qed

section \<open>What each request does to the sessions\<close>

lemma serves_calm: "calm (signed env) s s' \<Longrightarrow> serves env s s' []"
  by (simp add: serves_def settled_def)

lemma known_no_record: "recorded_ok s \<Longrightarrow> token_known t s \<Longrightarrow> t \<noteq> token_key m"
proof
  assume r: "recorded_ok s" "token_known t s" "t = token_key m"
  then obtain x where "ss_redis s (token_key m) = Some (Text ''1'', x)"
    by (auto simp: token_known_def sv_get_def split: option.split_asm sum.split_asm cell.split_asm if_split_asm)
  with r(1) have "proper_token ''1''" unfolding recorded_ok_def by blast
  then show False by (simp add: proper_token_def)
qed

lemma serves_logout:
  assumes "recorded_ok s" "token_known t s"
  shows "serves env s (left (logout t s) s) []"
  using known_no_record [OF assms]
  by (intro serves_calm) (auto simp: logout_def after_def sv_del_def split: option.split intro: calm_drop)

lemma calm_known:
  assumes "recorded_ok s" "token_known t s"
  shows "calm F s (extend_token env t s)"
  using known_no_record [OF assms] assms(2)
  by (auto simp: extend_token_def sv_set_def calm_def token_known_set split: option.split)

lemma serves_request:
  assumes "recorded_ok s"
  shows "serves env s (snd (is_valid_jwt env t s)) []"
  using calm_known [OF assms] by (intro serves_calm) (auto simp: is_valid_jwt_def Let_def split: sum.split)

lemma calm_week:
  assumes "week_token env c s = (q, e, s1)" "new_tokens env s"
  shows "calm (signed env) s s1"
proof -
  have "t \<noteq> token_key m" if "ev_sign env c = Inr t" for t m using assms(2) that by (force simp: new_tokens_def signed_def proper_token_def)
  then show ?thesis using assms(1)
    by (auto simp: week_token_def sv_set_def signed_def intro!: calm_set_key split: sum.split_asm option.split_asm)
qed

lemma serves_week:
  assumes "new_tokens env s"
  shows "serves env s (left (refresh_token env cl s) s) []" "serves env s (left (transform_user env i cl s) s) []"
  using calm_week [OF _ assms]
  by (auto intro!: serves_calm simp: refresh_token_def transform_user_def or_deny_def after_def
      split: sum.split option.split prod.split)

lemma serves_code: "serves env s (left (get_verification_code env m reg s) s) []"
proof (rule serves_calm)
  have set1: "calm F s s1" if "sv_set (code_key m) v ttl s = (e, s1)" for F v ttl e s1
    using that by (auto simp: sv_set_def intro: calm_set_key split: option.split_asm)
  have mail: "calm F s (s1\<lparr>ss_mails := x\<rparr>)" if "calm F s s1" for F s1 x
    using that calm_part [of "s1\<lparr>ss_mails := x\<rparr>" s1 F] by (auto intro: calm_trans)
  show "calm (signed env) s (left (get_verification_code env m reg s) s)"
    by (auto simp: get_verification_code_def Let_def or_deny_def after_def intro: set1 mail split: sum.split prod.split option.split)
qed

lemma serves_wait: "serves env s (s\<lparr>ss_now := ss_now s + max 0 d\<rparr>) []"
  by (intro serves_calm)
    (auto simp: calm_def token_known_def sv_get_def live_def split: option.split_asm sum.split_asm cell.split_asm if_split_asm prod.split_asm)

text \<open>A login either fails and changes nothing of this kind, or puts its token in place.\<close>

definition logs_in :: "account_env \<Rightarrow> string \<Rightarrow> accounts \<Rightarrow> (string \<times> int) outcome \<Rightarrow> bool" where
  "logs_in env m s q \<longleftrightarrow> (case q of None \<Rightarrow> True | Some (Inl e, s') \<Rightarrow> settled env s s'
     | Some (Inr (t, n), s') \<Rightarrow> replaced m t s s' \<and> t \<in> signed env)"

lemma logs_in_simps [simp]: "logs_in env m s None" "logs_in env m s (Some (Inl e, s')) \<longleftrightarrow> settled env s s'"
  "logs_in env m s (Some (Inr (t, n), s')) \<longleftrightarrow> replaced m t s s' \<and> t \<in> signed env"
  "logs_in env m s (deny k s') \<longleftrightarrow> settled env s s'"
  by (simp_all add: logs_in_def deny_def)

lemma logs_in_cases:
  obtains (panic) "q = None" | (failed) e s' where "q = Some (Inl e, s')" | (token) t n s' where "q = Some (Inr (t, n), s')"
  by (cases q) (auto, metis prod.exhaust sum.exhaust)

lemma logs_in_or_deny: "(\<And>x. logs_in env m s (f x)) \<Longrightarrow> logs_in env m s (or_deny k r s f)"
  by (simp add: or_deny_def split: sum.split)

lemma after_login:
  assumes "redis_part s1 = redis_part s" "recorded_ok s" "\<not> user_is_share s1" "new_tokens env s"
  shows "logs_in env (us_email u) s (user_login_after env u s1)"
proof -
  note k = token_known_part [OF assms(1)]
  have f: "recorded_ok s1" "new_tokens env s1" using assms(1,2,4) k by (auto simp: recorded_ok_def redis_part_def new_tokens_def)
  have "calm (signed env) s s1" using assms(1) by (rule calm_part)
  note c = calm_trans [OF this]
  have r: "replaced m t s s'" if "replaced m t s1 s'" for m t s'
    using that assms(1) k by (auto simp: replaced_def redis_part_def)
  show ?thesis
    by (cases "user_login_after env u s1" rule: logs_in_cases) (use user_login_after_effect [OF f(1) assms(3) f(2), of u] c r in \<open>auto simp: settled_def\<close>)
qed

lemma replaced_calm: "replaced m t s s1 \<Longrightarrow> calm {} s1 s2 \<Longrightarrow> replaced m t s s2"
  unfolding replaced_def calm_def by (metis empty_iff)

lemma recorded_part: "redis_part s1 = redis_part s \<Longrightarrow> recorded_ok s1 = recorded_ok s"
  by (simp add: recorded_ok_def redis_part_def)

lemma serves_logs_in:
  assumes "logs_in env m s q" "us = (case q of Some (Inr (t, _), _) \<Rightarrow> [(m, t)] | _ \<Rightarrow> [])"
  shows "serves env s (left q s) us"
  using assms by (cases q rule: logs_in_cases) (auto simp: serves_def)

lemma settled_calm: "settled env s s1 \<Longrightarrow> calm {} s1 s2 \<Longrightarrow> settled env s s2"
  unfolding settled_def by (metis replaced_calm calm_trans calm_mono empty_subsetI)

lemma logs_in_login:
  assumes "recorded_ok s" "\<not> user_is_share s" "new_tokens env s"
  shows "logs_in env (lr_email q) s (login env q s)"
proof (cases "users_by_email (lr_email q) s")
  case (Inl e)
  then show ?thesis by (simp add: login_def)
next
  case (Inr u)
  then have m: "us_email u = lr_email q" using first_user_some by (fastforce simp: users_by_email_def)
  have upd: "calm {} s1 (set_users i f s1)" for s1 i f by (simp add: calm_part)
  have a: "logs_in env (lr_email q) s (user_login_after env u s)" unfolding m [symmetric] by (rule after_login [OF refl assms])
  have v: "logs_in env (lr_email q) s (and_then (user_login_after env u s) (\<lambda>x s1. case ss_db_fault s1 ''users.update'' of
      Some e \<Rightarrow> Some (Inl e, s1) | None \<Rightarrow> Some (Inr x, set_users i (f s1) s1)))" for i f
    using a by (cases "user_login_after env u s" rule: logs_in_cases)
      (auto simp: and_then_def settled_def split: option.split intro: replaced_calm [OF _ upd])
  show ?thesis unfolding login_def Inr sum.case
    by (auto intro!: logs_in_or_deny v split: option.split)
qed

lemma logs_in_try:
  assumes "recorded_ok s" "\<not> user_is_share s" "new_tokens env s"
  shows "logs_in env (lr_email q) s (try_login env q s)"
  using logs_in_login [OF assms, of q]
  by (cases "login env q s" rule: logs_in_cases) (auto simp: try_login_def intro: settled_calm replaced_calm calm_count)

lemma serves_login:
  assumes "recorded_ok s" "\<not> user_is_share s" "new_tokens env s"
  shows "serves env s (left (handle_login env r s) s) (issued env (OpLogin r) s)"
proof -
  have "logs_in env (login_name r s) s (handle_login env r s)"
  proof (cases "validate_input (lr_email r)")
    case None
    then show ?thesis by (simp add: handle_login_def)
  next
    case (Some i)
    show ?thesis
    proof (cases "if i = PhoneInput then email_by_phone (lr_email r) s else Inr (lr_email r)")
      case (Inl e)
      then show ?thesis by (simp add: handle_login_def Some)
    next
      case (Inr m)
      then have n: "login_name r s = m" by (auto simp: login_name_def Some split: if_split_asm sum.split)
      show ?thesis
        using logs_in_try [OF assms, of "r\<lparr>lr_email := m\<rparr>"] unfolding handle_login_def Some option.case Inr sum.case n
        by (cases "if 0 < ev_max_attempts env then get_allow_login m s else None") simp_all
    qed
  qed
  then show ?thesis by (rule serves_logs_in) (simp add: issued_def Let_def)
qed

lemma serves_register:
  assumes "recorded_ok s" "\<not> user_is_share s" "new_tokens env s"
  shows "serves env s (left (email_register env r s) s) (issued env (OpRegister r) s)"
proof -
  have row: "logs_in env (us_email u) s (after 101001 (insert_user u s) (\<lambda>s1. after 101001 (default_board t s1) (user_login_after env u)))" for u t
  proof -
    obtain e s1 where i: "insert_user u s = (e, s1)" by fastforce
    obtain e2 s2 where b: "default_board t s1 = (e2, s2)" by fastforce
    note p1 = insert_user_redis [OF i]
    have p2: "redis_part s2 = redis_part s" using default_board_redis [OF b] p1 by simp
    have "ss_functions s2 = ss_functions s \<and> ss_db_fault s2 = ss_db_fault s"
      using i b by (auto simp: insert_user_def default_board_def split: option.split_asm if_split_asm)
    then have "\<not> user_is_share s2" using assms(2) by (simp add: user_is_share_def function_enabled_def split: if_split_asm option.split_asm)
    from after_login [OF p2 assms(1) this assms(3)] p1 p2 show ?thesis
      by (auto simp: after_def i b settled_def intro: calm_part split: option.split)
  qed
  have "logs_in env (rr_email r) s (email_register env r s)"
    using row [of "plain_user env (rr_email r) ph a t h rm now" for ph a t h rm now]
    by (auto simp: email_register_def Let_def plain_user_def intro!: logs_in_or_deny split: sum.split option.split bool.split)
  then show ?thesis by (rule serves_logs_in) (simp add: issued_def Let_def)
qed

lemma serves_init:
  assumes "recorded_ok s" "\<not> user_is_share s" "new_tokens env s"
  shows "serves env s (left (init_super_admin env m p c s) s) (issued env (OpInit m p c) s)"
proof -
  let ?u = "init_admin env (trim_space m) p (ss_now s)"
  obtain e s1 where t: "init_transaction ?u s = (e, s1)" by fastforce
  then have p1: "redis_part s1 = redis_part s" and "ss_functions s1 = ss_functions s \<and> ss_db_fault s1 = ss_db_fault s"
    by (auto simp: init_transaction_def insert_user_def split: if_split_asm option.split_asm)
  then have "\<not> user_is_share s1" using assms(2) by (simp add: user_is_share_def function_enabled_def split: if_split_asm option.split_asm)
  from after_login [OF p1 assms(1) this assms(3), of ?u]
  have "logs_in env (trim_space m) s (user_login_after env ?u s1)" by (simp add: init_admin_def plain_user_def)
  then have "logs_in env (trim_space m) s (init_super_admin env m p c s)"
    using p1 by (cases "user_login_after env ?u s1" rule: logs_in_cases)
      (auto simp: init_super_admin_def Let_def t settled_def intro: calm_part split: option.split)
  then show ?thesis by (rule serves_logs_in) (simp add: issued_def Let_def)
qed

lemma serves_kept: "kept redis_part q s \<Longrightarrow> serves env s (left q s) []"
  by (intro serves_calm calm_kept)

lemma step_serves:
  assumes "recorded_ok s" "\<not> user_is_share s" "new_tokens env s" "\<And>t. op = OpLogout t \<Longrightarrow> token_known t s"
  shows "serves env s (account_step env op s) (issued env op s)"
proof (cases op)
  case (OpLogin r)
  then show ?thesis using serves_login [OF assms(1-3)] by simp
next
  case (OpLogout t)
  then show ?thesis using serves_logout [OF assms(1) assms(4)] by (simp add: issued_def)
next
  case (OpRegister r)
  then show ?thesis using serves_register [OF assms(1-3)] by simp
next
  case (OpInit m p c)
  then show ?thesis using serves_init [OF assms(1-3)] by simp
qed (simp_all add: issued_def serves_request [OF assms(1)] serves_week [OF assms(3)] serves_code serves_wait serves_kept
  create_redis update_redis other_redis address_redis)

lemma run_sole: "session_run s0 s ts \<Longrightarrow> recorded_ok s0 \<Longrightarrow> sole s ts"
proof (induction rule: session_run.induct)
  case session_start
  then show ?case by (simp add: sole_def)
next
  case (session_serve s ts env op)
  then have "sole s ts" by simp
  moreover from this have "serves env s (account_step env op s) (issued env op s)"
    using session_serve.hyps by (intro step_serves) (auto simp: sole_def)
  ultimately show ?case using session_serve.hyps by (intro serves_sole)
qed

text \<open>C16: One login per account. In every sequence of requests on accounts, while accounts are not shared and
  whichever statements and Redis commands fail: of all tokens that were handed out to an account by a
  login, a registration or the first installation, at most one is accepted, and it is the one Redis
  records for the account. The tokens of a refresh and of acting as another user are not counted.\<close>
theorem one_session_per_account:
  assumes "session_run s0 s ts" "recorded_ok s0" "(m, t) \<in> set ts" "(m, t') \<in> set ts" "token_known t s" "token_known t' s"
  shows "t = t' \<and> ss_redis s (token_key m) = Some (Text t, None)"
proof -
  have "sole s ts" by (rule run_sole [OF assms(1,2)])
  then have "ss_redis s (token_key m) = Some (Text x, None)" if "(m, x) \<in> set ts" "token_known x s" for x
    using that by (auto simp: sole_def)
  from this [OF assms(3,5)] this [OF assms(4,6)] show ?thesis by simp
qed

section \<open>Example\<close>

definition demo_signer :: "string \<Rightarrow> account_env" where
  "demo_signer t = demo_account_env\<lparr>ev_sign := (\<lambda>_. Inr t)\<rparr>"

definition demo_login :: login_req where
  "demo_login = \<lparr>lr_email = ''a@t.org'', lr_password = ''old123'', lr_salt = ''''\<rparr>"

lemma signer_tokens: "signed (demo_signer t) = {t}"
  by (auto simp: signed_def demo_signer_def)

lemma demo_proper: "t = ''jwt.x'' \<or> t = ''jwt.y'' \<Longrightarrow> proper_token t"
proof -
  assume t: "t = ''jwt.x'' \<or> t = ''jwt.y''"
  have l: "last (code_key m) = CHR ''e''" "last (lock_key m) = CHR ''l''" "last (fail_key m) = CHR ''s''" "last (token_key m) = CHR ''n''" for m
    by (simp_all add: code_key_def lock_key_def fail_key_def token_key_def)
  have "last t \<notin> {CHR ''e'', CHR ''l'', CHR ''s'', CHR ''n''}" using t by auto
  with l have "t \<noteq> token_key m" "t \<noteq> code_key m" "t \<noteq> lock_key m" "t \<noteq> fail_key m" for m by (metis insertCI)+
  with t show ?thesis by (auto simp: proper_token_def)
qed

lemma demo_recorded: "recorded_ok demo_accounts"
  by (simp add: recorded_ok_def demo_accounts_def keys_differ(1) [THEN not_sym])

text \<open>Of two logins only the second token is accepted.\<close>

theorem one_session_per_account_witness:
  "let s1 = account_step (demo_signer ''jwt.x'') (OpLogin demo_login) demo_accounts;
       s2 = account_step (demo_signer ''jwt.y'') (OpLogin demo_login) s1
   in token_known ''jwt.x'' s1 \<and> token_known ''jwt.y'' s2 \<and> \<not> token_known ''jwt.x'' s2"
proof -
  define s1 where s1: "s1 = account_step (demo_signer ''jwt.x'') (OpLogin demo_login) demo_accounts"
  define s2 where s2: "s2 = account_step (demo_signer ''jwt.y'') (OpLogin demo_login) s1"
  let ?x = "(''a@t.org'', ''jwt.x'')" and ?y = "(''a@t.org'', ''jwt.y'')"
  have i1: "issued (demo_signer ''jwt.x'') (OpLogin demo_login) demo_accounts = [?x]" by code_simp
  have i2: "issued (demo_signer ''jwt.y'') (OpLogin demo_login) s1 = [?y]" unfolding s1 by code_simp
  have k0: "\<not> token_known ''jwt.x'' demo_accounts" "\<not> user_is_share demo_accounts" by code_simp+
  have k1: "token_known ''jwt.x'' s1" "\<not> token_known ''jwt.y'' s1" "\<not> user_is_share s1" unfolding s1 by code_simp+
  have k2: "token_known ''jwt.y'' s2" unfolding s2 s1 by code_simp
  have "session_run demo_accounts s1 ([] @ [?x])"
    unfolding s1 i1 [symmetric] using k0 demo_proper by (intro session_serve session_start) (auto simp: new_tokens_def signer_tokens)
  then have r: "session_run demo_accounts s2 (([] @ [?x]) @ [?y])"
    unfolding s2 i2 [symmetric] using k1 demo_proper by (intro session_serve) (auto simp: new_tokens_def signer_tokens)
  have "''jwt.x'' = ''jwt.y''" if "token_known ''jwt.x'' s2"
    using one_session_per_account [OF r demo_recorded _ _ that k2, of "''a@t.org''"] by simp
  then have "\<not> token_known ''jwt.x'' s2" by auto
  with k1 k2 show ?thesis unfolding Let_def s1 [symmetric] s2 [symmetric] by simp
qed

end
