(* ===== verification/LoginLock.thy ===== *)
theory LoginLock
  imports Sessions
begin

text \<open>
  The lock after failed logins: how many wrong passwords it takes and how long it lasts when attempts
  come one after another, and what attempts that overlap can do.
\<close>

section \<open>One attempt\<close>

text \<open>The account \<open>m\<close> exists, passwords come unencrypted, and Redis answers.\<close>

definition lockable :: "string \<Rightarrow> user \<Rightarrow> accounts \<Rightarrow> bool" where
  "lockable m u s \<longleftrightarrow> validate_input m = Some EmailInput \<and> users_by_email m s = Inr u \<and> \<not> user_is_encrypt s \<and>
     ss_redis_fault s = (\<lambda>_ _. None)"

definition wrong :: "account_env \<Rightarrow> string \<Rightarrow> user \<Rightarrow> login_req \<Rightarrow> bool" where
  "wrong env m u r \<longleftrightarrow> lr_email r = m \<and> \<not> ev_check env (lr_password r) (us_password u)"

lemma lockable_redis [simp]:
  "lockable m u (s\<lparr>ss_redis := r\<rparr>) = lockable m u s" "lockable m u (s\<lparr>ss_now := n\<rparr>) = lockable m u s"
proof -
  have "users_by_email m (s\<lparr>ss_redis := r\<rparr>) = users_by_email m s" "users_by_email m (s\<lparr>ss_now := n\<rparr>) = users_by_email m s"
    "user_is_encrypt (s\<lparr>ss_redis := r\<rparr>) = user_is_encrypt s" "user_is_encrypt (s\<lparr>ss_now := n\<rparr>) = user_is_encrypt s"
    by (auto simp: users_by_email_def first_user_def user_is_encrypt_def function_enabled_def split: option.split)
  then show "lockable m u (s\<lparr>ss_redis := r\<rparr>) = lockable m u s" "lockable m u (s\<lparr>ss_now := n\<rparr>) = lockable m u s"
    by (simp_all add: lockable_def)
qed

lemma wrong_login: "lockable m u s \<Longrightarrow> wrong env m u r \<Longrightarrow> login env r s = deny 200002 s"
  by (simp add: lockable_def wrong_def login_def clear_password_def or_deny_def)

lemma wrong_try: "lockable m u s \<Longrightarrow> wrong env m u r \<Longrightarrow> try_login env r s = Some (Inl (err_code 200002), snd (login_fail env m s))"
  using wrong_login [of m u s env r] by (simp add: try_login_def deny_def) (simp add: wrong_def)

lemma handled_by_mail:
  assumes "validate_input m = Some EmailInput" "lr_email r = m"
  shows "handle_login env r s = (case (if 0 < ev_max_attempts env then get_allow_login m s else None) of
    Some e \<Rightarrow> Some (Inl e, s) | None \<Rightarrow> try_login env r s)"
proof -
  have "r\<lparr>lr_email := m\<rparr> = r" using assms(2) by (cases r) simp
  moreover have "handle_login env (r\<lparr>lr_email := m\<rparr>) s = (case (if 0 < ev_max_attempts env then get_allow_login m s else None) of
      Some e \<Rightarrow> Some (Inl e, s) | None \<Rightarrow> try_login env (r\<lparr>lr_email := m\<rparr>) s)"
    by (auto simp: handle_login_def assms(1) split: option.split)
  ultimately show ?thesis by (auto split: option.split)
qed

text \<open>The count in Redis.\<close>

definition counted :: "string \<Rightarrow> int \<Rightarrow> accounts \<Rightarrow> accounts" where
  "counted m k s = s\<lparr>ss_redis := (ss_redis s)(fail_key m := if k = 0 then None else Some (Text (show_int k), None))\<rparr>"

definition locked_at :: "account_env \<Rightarrow> string \<Rightarrow> int \<Rightarrow> accounts \<Rightarrow> accounts" where
  "locked_at env m t s = s\<lparr>ss_redis := (ss_redis s)(lock_key m \<mapsto> (Stamp ((t + lock_ms env) div 1000), Some (t + lock_ms env)), fail_key m := None)\<rparr>"

lemma lock_fail_keys [simp]: "lock_key m \<noteq> fail_key m'" "fail_key m' \<noteq> lock_key m"
proof -
  have "last (lock_key m) = CHR ''l''" "last (fail_key m') = CHR ''s''" by (simp_all add: lock_key_def fail_key_def)
  then show "lock_key m \<noteq> fail_key m'" "fail_key m' \<noteq> lock_key m" by auto
qed

lemma login_fail_counts:
  assumes "ss_redis_fault s = (\<lambda>_ _. None)" "0 \<le> k" "k + 1 < 2 ^ 63" "0 < ev_lock_seconds env"
  shows "snd (login_fail env m (counted m k s)) =
    (if k + 1 < ev_max_attempts env then counted m (k + 1) s else locked_at env m (ss_now s) s)"
proof -
  have "sv_incr (fail_key m) (counted m k s) = (Inr (k + 1), counted m (k + 1) s)"
  proof (cases "k = 0")
    case False
    have "atoi (show_int k) = Some k" using assms(2,3) by (intro atoi_show_int) simp_all
    with False show ?thesis using assms(1-3) by (simp add: sv_incr_def counted_def live_def)
  qed (use assms(1) in \<open>simp add: sv_incr_def counted_def\<close>)
  then show ?thesis using assms
    by (simp add: login_fail_def sv_set_def sv_del_def counted_def locked_at_def lock_ms_def fun_upd_twist)
qed

section \<open>Attempts one after another\<close>

text \<open>Attempts with the time of each.\<close>

fun attempts :: "account_env \<Rightarrow> (int \<times> login_req) list \<Rightarrow> accounts \<Rightarrow> accounts" where
  "attempts env [] s = s"
| "attempts env ((t, r) # rs) s = (let s1 = s\<lparr>ss_now := t\<rparr> in attempts env rs (left (handle_login env r s1) s1))"

lemma attempts_append: "attempts env (xs @ ys) s = attempts env ys (attempts env xs s)"
  by (induction env xs s rule: attempts.induct) (simp_all add: Let_def)

definition allowed_again :: "account_env \<Rightarrow> int \<Rightarrow> int" where
  "allowed_again env t = (t + lock_ms env) div 1000 * 1000"

lemma attempts_counted:
  assumes "lockable m u s" "0 \<le> k" "ss_redis s (lock_key m) = None" "0 < ev_lock_seconds env"
    "\<forall>(t, r) \<in> set rs. wrong env m u r" "k + int (length rs) < ev_max_attempts env"
    "ev_max_attempts env < 2 ^ 63"
  shows "\<exists>t. attempts env rs (counted m k s) = counted m (k + int (length rs)) (s\<lparr>ss_now := t\<rparr>)"
  using assms
proof (induction rs arbitrary: k s)
  case Nil
  then show ?case by (intro exI [of _ "ss_now s"]) simp
next
  case (Cons q rs)
  obtain t r where q: "q = (t, r)" by fastforce
  let ?s = "s\<lparr>ss_now := t\<rparr>"
  have c: "(counted m k s)\<lparr>ss_now := t\<rparr> = counted m k ?s" by (simp add: counted_def)
  have l: "lockable m u (counted m k ?s)" using Cons.prems(1) by (simp add: counted_def)
  have f: "ss_redis_fault ?s = (\<lambda>_ _. None)" using Cons.prems(1) by (simp add: lockable_def)
  have w: "wrong env m u r" using Cons.prems(5) by (simp add: q)
  have "get_allow_login m (counted m k ?s) = None"
    using Cons.prems(3) f by (simp add: get_allow_login_def sv_get_def counted_def)
  then have "handle_login env r (counted m k ?s) = try_login env r (counted m k ?s)"
    using w Cons.prems(1) handled_by_mail [of m r env "counted m k ?s"] by (simp add: wrong_def lockable_def)
  also have "left \<dots> (counted m k ?s) = counted m (k + 1) ?s"
    using wrong_try [OF l w] login_fail_counts [OF f Cons.prems(2) _ Cons.prems(4), of m] Cons.prems(6,7) by simp
  finally have step: "left (handle_login env r (counted m k ?s)) (counted m k ?s) = counted m (k + 1) ?s" .
  have "\<exists>t'. attempts env rs (counted m (k + 1) ?s) = counted m (k + 1 + int (length rs)) (?s\<lparr>ss_now := t'\<rparr>)"
    using Cons.prems by (intro Cons.IH) (auto simp: q)
  then show ?case by (simp add: q Let_def c step algebra_simps)
qed

text \<open>C23: The lock after failed logins. Attempts with wrong passwords that come one after another, at
  whatever times, are all answered as long as there are fewer than the configured number. The last of
  them locks the account: until the lock duration has passed since that attempt, rounded down to a full
  second, every login to the account is refused whatever its password, and changes nothing; from then on
  logins are allowed again.\<close>
theorem wrong_passwords_lock:
  assumes "lockable m u s" "ss_redis s (fail_key m) = None" "ss_redis s (lock_key m) = None" "0 < ev_lock_seconds env"
    "\<forall>(t, r) \<in> set (rs @ [(T, r1)]). wrong env m u r" "int (length rs) + 1 = ev_max_attempts env"
    "ev_max_attempts env < 2 ^ 63"
  shows "(\<forall>k. get_allow_login m (attempts env (take k rs) s) = None) \<and>
    (let s' = attempts env (rs @ [(T, r1)]) s in
      (\<forall>r t. lr_email r = m \<longrightarrow> t < allowed_again env T \<longrightarrow>
        handle_login env r (s'\<lparr>ss_now := t\<rparr>) = Some (Inl (err_code 200006), s'\<lparr>ss_now := t\<rparr>)) \<and>
      (\<forall>t \<ge> allowed_again env T. get_allow_login m (s'\<lparr>ss_now := t\<rparr>) = None))"
proof -
  have s: "s = counted m 0 s" using assms(2) by (simp add: counted_def fun_upd_idem)
  have f: "ss_redis_fault s = (\<lambda>_ _. None)" using assms(1) by (simp add: lockable_def)
  have free: "get_allow_login m (counted m k (s\<lparr>ss_now := t\<rparr>)) = None" for k t
    using assms(3) f by (simp add: get_allow_login_def sv_get_def counted_def)
  have "get_allow_login m (attempts env (take k rs) s) = None" for k
  proof -
    have "\<exists>t. attempts env (take k rs) (counted m 0 s) = counted m (0 + int (length (take k rs))) (s\<lparr>ss_now := t\<rparr>)"
      using assms by (intro attempts_counted) (auto dest: in_set_takeD)
    with free s show ?thesis by metis
  qed
  moreover obtain t0 where "attempts env rs (counted m 0 s) = counted m (0 + int (length rs)) (s\<lparr>ss_now := t0\<rparr>)"
    using attempts_counted [OF assms(1) _ assms(3,4), of 0 rs] assms(5-7) by auto
  then have a: "attempts env rs s = counted m (int (length rs)) (s\<lparr>ss_now := t0\<rparr>)" using s by simp
  let ?c = "counted m (int (length rs)) (s\<lparr>ss_now := T\<rparr>)"
  have w: "wrong env m u r1" using assms(5) by simp
  have e: "validate_input m = Some EmailInput" "lr_email r1 = m" using assms(1) w by (simp_all add: lockable_def wrong_def)
  have "lockable m u ?c" using assms(1) by (simp add: counted_def)
  then have last: "left (handle_login env r1 ?c) ?c = locked_at env m T (s\<lparr>ss_now := T\<rparr>)"
    using wrong_try [OF _ w, of ?c] free [of "int (length rs)" T] login_fail_counts [of "s\<lparr>ss_now := T\<rparr>" "int (length rs)" env m] assms(4,6,7) f
    by (simp add: handled_by_mail [OF e])
  let ?l = "locked_at env m T (s\<lparr>ss_now := T\<rparr>)"
  have s': "attempts env (rs @ [(T, r1)]) s = ?l"
  proof -
    have "(counted m (int (length rs)) (s\<lparr>ss_now := t0\<rparr>))\<lparr>ss_now := T\<rparr> = ?c" by (simp add: counted_def)
    then show ?thesis using a last by (simp add: attempts_append Let_def)
  qed
  have get: "get_allow_login m (?l\<lparr>ss_now := t\<rparr>) = (if t < allowed_again env T then Some (err_code 200006) else None)" for t
  proof -
    have "allowed_again env T \<le> T + lock_ms env" using div_mult_mod_eq [of "T + lock_ms env" 1000] pos_mod_sign [of 1000 "T + lock_ms env"]
      unfolding allowed_again_def by linarith
    then show ?thesis using f by (auto simp: get_allow_login_def sv_get_def locked_at_def live_def allowed_again_def)
  qed
  have "0 < ev_max_attempts env" using assms(6) by linarith
  then have "handle_login env r (?l\<lparr>ss_now := t\<rparr>) = Some (Inl (err_code 200006), ?l\<lparr>ss_now := t\<rparr>)"
    if "lr_email r = m" "t < allowed_again env T" for r t
    using handled_by_mail [OF e(1) that(1)] get [of t] that(2) by simp
  ultimately show ?thesis unfolding Let_def s' using get by simp
qed

section \<open>Attempts that overlap\<close>

text \<open>Requests that have all passed the check of the lock before the first of them is answered: what is
  left of each is \<open>try_login\<close>.\<close>

fun overlapping :: "account_env \<Rightarrow> login_req list \<Rightarrow> accounts \<Rightarrow> accounts" where
  "overlapping env [] s = s"
| "overlapping env (r # rs) s = overlapping env rs (left (try_login env r s) s)"

definition only_redis :: "accounts \<Rightarrow> accounts \<Rightarrow> bool" where
  "only_redis s s' \<longleftrightarrow> s'\<lparr>ss_redis := ss_redis s\<rparr> = s"

lemma only_redis_refl [simp]: "only_redis s s" "only_redis s (s\<lparr>ss_redis := x\<rparr>)"
  by (simp_all add: only_redis_def)

lemma only_redis_at: "only_redis s s' \<Longrightarrow> s' = s\<lparr>ss_redis := ss_redis s'\<rparr>"
  unfolding only_redis_def by (metis accounts.surjective accounts.update_convs(8))

lemma only_redis_trans: "only_redis s s1 \<Longrightarrow> only_redis s1 s2 \<Longrightarrow> only_redis s s2"
  using only_redis_at [of s s1] only_redis_at [of s1 s2] unfolding only_redis_def by (metis accounts.update_convs(8) accounts.surjective)

lemma redis_commands: "only_redis s (snd (sv_incr k s))" "only_redis s (snd (sv_set k v ttl s))" "only_redis s (snd (sv_del k s))"
  by (auto simp: sv_incr_def sv_set_def sv_del_def split: option.split cell.split)

lemma login_fail_only: "only_redis s (snd (login_fail env m s))"
proof -
  obtain n s1 where a: "sv_incr (fail_key m) s = (n, s1)" by fastforce
  obtain e s2 where b: "sv_set (lock_key m) (Stamp ((ss_now s + lock_ms env) div 1000)) (lock_ms env) s1 = (e, s2)" by fastforce
  obtain e3 s3 where c: "sv_del (fail_key m) s2 = (e3, s3)" by fastforce
  have 1: "only_redis s s1" using redis_commands(1) [of s "fail_key m"] a by simp
  have 2: "only_redis s s2" using only_redis_trans [OF 1] redis_commands(2) b by (metis snd_conv)
  have 3: "only_redis s s3" using only_redis_trans [OF 2] redis_commands(3) c by (metis snd_conv)
  from 1 2 3 show ?thesis by (simp add: login_fail_def a b c split: sum.split option.split)
qed

lemma overlapping_wrong:
  assumes "lockable m u s" "\<forall>r \<in> set rs. wrong env m u r"
  shows "only_redis s (overlapping env rs s)"
  using assms
proof (induction rs arbitrary: s)
  case (Cons r rs)
  let ?s = "snd (login_fail env m s)"
  have o: "only_redis s ?s" by (rule login_fail_only)
  have "lockable m u ?s" using Cons.prems(1) only_redis_at [OF o] lockable_redis(1) by metis
  then have "only_redis ?s (overlapping env rs ?s)" using Cons.prems(2) by (intro Cons.IH) simp_all
  then show ?case using only_redis_trans [OF o] wrong_try [of m u s env r] Cons.prems by simp
qed simp

lemma sole_token_answers:
  assumes "ss_redis_fault s = (\<lambda>_ _. None)"
  shows "\<exists>s'. only_redis s s' \<and> sole_token m t s = Some (Inr (), s')"
  using assms by (auto simp: sole_token_def Let_def after_def sv_get_def sv_set_def sv_del_def only_redis_def split: option.split cell.split)

lemma only_redis_fields:
  assumes "only_redis s s'"
  shows "ss_now s' = ss_now s" "ss_redis_fault s' = ss_redis_fault s" "ss_db_fault s' = ss_db_fault s"
  using arg_cong [OF assms [unfolded only_redis_def], of ss_now] arg_cong [OF assms [unfolded only_redis_def], of ss_redis_fault]
    arg_cong [OF assms [unfolded only_redis_def], of ss_db_fault]
  by simp_all

text \<open>What a login is answered, as long as Redis answers.\<close>

definition login_answer :: "account_env \<Rightarrow> user \<Rightarrow> int \<Rightarrow> (string \<times> int) res option" where
  "login_answer env u now = (if trim_space (ev_key env) = '''' then Some (Inl (err_code 103001))
     else case claims_of u now of None \<Rightarrow> None
       | Some c \<Rightarrow> Some (case ev_sign env c of Inl _ \<Rightarrow> Inl (err_code 103001)
           | Inr t \<Rightarrow> Inr (t, (if ev_reset env \<and> ev_timeout env = 0 then 60 else ev_timeout env) * 60)))"

lemma user_login_answers:
  assumes "ss_redis_fault s = (\<lambda>_ _. None)"
  shows "\<exists>s'. only_redis s s' \<and> user_login_after env u s = map_option (\<lambda>q. (q, s')) (login_answer env u (ss_now s))"
proof (cases "trim_space (ev_key env) = '''' \<or> claims_of u (ss_now s) = None \<or> (\<exists>c e. claims_of u (ss_now s) = Some c \<and> ev_sign env c = Inl e)")
  case True
  then show ?thesis by (intro exI [of _ s]) (auto simp: user_login_after_def login_answer_def or_deny_def deny_def split: option.split)
next
  case False
  then obtain c t where c: "claims_of u (ss_now s) = Some c" "ev_sign env c = Inr t"
    by (metis option.exhaust sum.exhaust)
  let ?n = "if ev_reset env \<and> ev_timeout env = 0 then 60 else ev_timeout env"
  obtain e s1 where s1: "sv_set t (Text ''1'') (?n * 60000) s = (e, s1)" by fastforce
  then have e: "e = None" "ss_redis_fault s1 = (\<lambda>_ _. None)" using assms by (auto simp: sv_set_def)
  obtain s2 where s2: "only_redis s1 s2" "sole_token (us_email u) t s1 = Some (Inr (), s2)"
    using sole_token_answers [OF e(2)] by blast
  have o: "only_redis s s1" using redis_commands(2) [of s t "Text ''1''" "?n * 60000"] unfolding s1 by simp
  have "user_login_after env u s = map_option (\<lambda>q. (q, if user_is_share s1 then s1 else s2)) (login_answer env u (ss_now s))"
    using False by (simp add: user_login_after_def login_answer_def c or_deny_def Let_def s1 e after_def and_then_def s2(2))
  then show ?thesis using o only_redis_trans [OF o s2(1)] by (intro exI conjI) simp_all
qed

lemma login_answered:
  assumes "lockable m u s" "lr_email r = m"
  shows "map_option fst (login env r s) = (if \<not> ev_check env (lr_password r) (us_password u) then Some (Inl (err_code 200002))
    else case us_status u of None \<Rightarrow> None
      | Some st \<Rightarrow> if st \<noteq> ''N'' then Some (Inl (err_code 200005))
          else case login_answer env u (ss_now s) of Some (Inr x) \<Rightarrow> Some (case ss_db_fault s ''users.update'' of Some e \<Rightarrow> Inl e | None \<Rightarrow> Inr x)
            | q \<Rightarrow> q)"
proof -
  have f: "users_by_email m s = Inr u" "\<not> user_is_encrypt s" "ss_redis_fault s = (\<lambda>_ _. None)" using assms(1) by (simp_all add: lockable_def)
  obtain s' where "only_redis s s'" and a: "user_login_after env u s = map_option (\<lambda>q. (q, s')) (login_answer env u (ss_now s))"
    using user_login_answers [OF f(3)] by blast
  then have d: "ss_db_fault s' = ss_db_fault s" by (simp add: only_redis_fields)
  show ?thesis
    by (auto simp: login_def assms(2) f clear_password_def or_deny_def deny_def and_then_def a d split: option.split sum.split)
qed

lemma overlapping_counted:
  assumes "lockable m u s" "0 \<le> k" "0 < ev_lock_seconds env" "\<forall>r \<in> set rs. wrong env m u r"
    "k + int (length rs) < ev_max_attempts env" "ev_max_attempts env < 2 ^ 63"
  shows "overlapping env rs (counted m k s) = counted m (k + int (length rs)) s"
  using assms
proof (induction rs arbitrary: k)
  case (Cons r rs)
  have f: "ss_redis_fault s = (\<lambda>_ _. None)" "lockable m u (counted m k s)" using Cons.prems(1) by (simp_all add: lockable_def [of m u s] counted_def)
  have "left (try_login env r (counted m k s)) (counted m k s) = counted m (k + 1) s"
    using wrong_try [OF f(2), of env r] login_fail_counts [OF f(1) Cons.prems(2) _ Cons.prems(3), of m] Cons.prems by simp
  moreover have "overlapping env rs (counted m (k + 1) s) = counted m (k + 1 + int (length rs)) s"
    using Cons.prems by (intro Cons.IH) auto
  ultimately show ?case by (simp add: algebra_simps)
qed simp

lemma overlapping_append: "overlapping env (xs @ ys) s = overlapping env ys (overlapping env xs s)"
  by (induction env xs s rule: overlapping.induct) simp_all

lemma login_same_answer:
  assumes "lockable m u s" "only_redis s s'" "lr_email r = m"
  shows "map_option fst (login env r s') = map_option fst (login env r s)"
proof -
  have "lockable m u s'" using assms(1) only_redis_at [OF assms(2)] lockable_redis(1) by metis
  from login_answered [OF this assms(3)] show ?thesis
    unfolding login_answered [OF assms(1,3)] only_redis_fields [OF assms(2)] .
qed

lemma try_same_answer: "map_option fst (try_login env r s) = map_option fst (login env r s)"
  by (auto simp: try_login_def split: option.split sum.split)

text \<open>C39: The lock does not reach attempts under way. Suppose the lock of an account is checked by any
  number of requests before the first of them is answered. Then as many wrong passwords as are allowed
  set the lock, and yet every further one of these requests is answered as if none had failed: the
  right password logs in.\<close>
theorem parallel_guesses:
  assumes "lockable m u s" "ss_redis s (fail_key m) = None" "0 < ev_lock_seconds env"
    "\<forall>r \<in> set (rs @ [r1]). wrong env m u r" "int (length rs) + 1 = ev_max_attempts env" "ev_max_attempts env < 2 ^ 63"
    "lr_email r = m"
  shows "let s' = overlapping env (rs @ [r1]) s in
    get_allow_login m s' = Some (err_code 200006) \<and> map_option fst (try_login env r s') = map_option fst (login env r s)"
proof -
  have s: "counted m 0 s = s" using assms(2) by (simp add: counted_def fun_upd_idem)
  have f: "ss_redis_fault s = (\<lambda>_ _. None)" using assms(1) by (simp add: lockable_def)
  let ?k = "int (length rs)"
  have l: "lockable m u (counted m ?k s)" using assms(1) by (simp add: counted_def)
  have "overlapping env rs (counted m 0 s) = counted m (0 + ?k) s" using assms by (intro overlapping_counted) auto
  then have s': "overlapping env (rs @ [r1]) s = locked_at env m (ss_now s) s"
    using wrong_try [OF l, of env r1] login_fail_counts [OF f _ _ assms(3), of ?k m] assms(4-6)
    by (simp add: overlapping_append s)
  have "(ss_now s + lock_ms env) div 1000 * 1000 > ss_now s"
    using div_mult_mod_eq [of "ss_now s + lock_ms env" 1000] pos_mod_bound [of 1000 "ss_now s + lock_ms env"] assms(3)
    by (simp add: lock_ms_def)
  then have "get_allow_login m (locked_at env m (ss_now s) s) = Some (err_code 200006)"
    using f assms(3) by (simp add: get_allow_login_def sv_get_def locked_at_def live_def lock_ms_def)
  moreover have "only_redis s (locked_at env m (ss_now s) s)" by (simp add: locked_at_def)
  ultimately show ?thesis unfolding Let_def s' try_same_answer
    using login_same_answer [OF assms(1) _ assms(7)] by blast
qed

section \<open>Examples\<close>

definition demo_guess :: "string \<Rightarrow> login_req" where
  "demo_guess p = \<lparr>lr_email = ''a@t.org'', lr_password = p, lr_salt = ''''\<rparr>"

lemma demo_lockable: "lockable ''a@t.org'' demo_user demo_accounts"
proof -
  have "validate_input ''a@t.org'' = Some EmailInput" by code_simp
  then show ?thesis
    by (simp add: lockable_def users_by_email_def first_user_def user_is_encrypt_def function_enabled_def demo_accounts_def demo_user_def)
qed

lemma demo_not_counted: "ss_redis demo_accounts (fail_key ''a@t.org'') = None" "ss_redis demo_accounts (lock_key ''a@t.org'') = None"
  by (simp_all add: demo_accounts_def code_key_def fail_key_def lock_key_def)

lemma demo_wrong: "wrong demo_account_env ''a@t.org'' demo_user (demo_guess p) \<longleftrightarrow> p \<noteq> ''old123''"
  by (auto simp: wrong_def demo_guess_def demo_account_env_def demo_user_def)

lemma demo_limits: "ev_lock_seconds demo_account_env = 900" "ev_max_attempts demo_account_env = 3"
  by (simp_all add: demo_account_env_def)

theorem wrong_passwords_lock_witness:
  "let s = attempts demo_account_env [(1000000, demo_guess ''a''), (1005000, demo_guess ''b''), (1010500, demo_guess ''c'')] demo_accounts in
    get_allow_login ''a@t.org'' (attempts demo_account_env [(1000000, demo_guess ''a''), (1005000, demo_guess ''b'')] demo_accounts) = None \<and>
    handle_login demo_account_env (demo_guess ''old123'') (s\<lparr>ss_now := 1909999\<rparr>) = Some (Inl (err_code 200006), s\<lparr>ss_now := 1909999\<rparr>) \<and>
    get_allow_login ''a@t.org'' (s\<lparr>ss_now := 1910000\<rparr>) = None"
proof -
  let ?rs = "[(1000000, demo_guess ''a''), (1005000, demo_guess ''b'')] :: (int \<times> login_req) list"
  have h: "0 < ev_lock_seconds demo_account_env" "int (length ?rs) + 1 = ev_max_attempts demo_account_env" "ev_max_attempts demo_account_env < 2 ^ 63"
    "\<forall>(t, r) \<in> set (?rs @ [(1010500, demo_guess ''c'')]). wrong demo_account_env ''a@t.org'' demo_user r"
    by (simp_all add: demo_limits demo_wrong)
  have a: "allowed_again demo_account_env 1010500 = 1910000" by (simp add: allowed_again_def lock_ms_def demo_limits)
  have m: "lr_email (demo_guess ''old123'') = ''a@t.org''" by (simp add: demo_guess_def)
  note p = wrong_passwords_lock [OF demo_lockable demo_not_counted h(1,4,2,3), unfolded a Let_def append.simps]
  have "get_allow_login ''a@t.org'' (attempts demo_account_env (take 2 ?rs) demo_accounts) = None" using p by blast
  then have "get_allow_login ''a@t.org'' (attempts demo_account_env ?rs demo_accounts) = None" by (simp only: take_Suc_Cons numeral_2_eq_2 take_0)
  moreover have "(1909999 :: int) < 1910000" "(1910000 :: int) \<ge> 1910000" by simp_all
  ultimately show ?thesis unfolding Let_def using p m by blast
qed

lemma signer_guess: "ev_lock_seconds (demo_signer t) = 900" "ev_max_attempts (demo_signer t) = 3"
  "wrong (demo_signer t) ''a@t.org'' demo_user (demo_guess p) \<longleftrightarrow> p \<noteq> ''old123''"
  by (simp_all add: demo_signer_def demo_limits) (auto simp: wrong_def demo_guess_def demo_account_env_def demo_user_def)

text \<open>Four requests at once where three are allowed.\<close>

theorem parallel_guesses_witness:
  "let s = overlapping (demo_signer ''jwt.x'') [demo_guess ''a'', demo_guess ''b'', demo_guess ''c''] demo_accounts in
    get_allow_login ''a@t.org'' s = Some (err_code 200006) \<and>
    map_option fst (try_login (demo_signer ''jwt.x'') (demo_guess ''old123'') s) = Some (Inr (''jwt.x'', 3600))"
proof -
  let ?rs = "[demo_guess ''a'', demo_guess ''b'']"
  have h: "0 < ev_lock_seconds (demo_signer ''jwt.x'')" "\<forall>r \<in> set (?rs @ [demo_guess ''c'']). wrong (demo_signer ''jwt.x'') ''a@t.org'' demo_user r"
    "int (length ?rs) + 1 = ev_max_attempts (demo_signer ''jwt.x'')" "ev_max_attempts (demo_signer ''jwt.x'') < 2 ^ 63"
    by (simp_all add: demo_limits demo_wrong signer_guess)
  have m: "lr_email (demo_guess ''old123'') = ''a@t.org''" by (simp add: demo_guess_def)
  have a: "map_option fst (login (demo_signer ''jwt.x'') (demo_guess ''old123'') demo_accounts) = Some (Inr (''jwt.x'', 3600))" by code_simp
  note p = parallel_guesses [OF demo_lockable demo_not_counted(1) h m, unfolded Let_def append.simps]
  show ?thesis unfolding Let_def using p [THEN conjunct1] p [THEN conjunct2, THEN trans, OF a] by (rule conjI)
qed

end
