(* ===== verification/LiveFeed.thy ===== *)
theory LiveFeed
  imports TelemetryFlow SceneTime
begin

text \<open>
  Telemetry over WebSocket: \<open>pkg/global/WSManager.go\<close>, with what the handlers of
  \<open>internal/api/telemetry_data.go\<close> do to a client's queue. Several instances of the program share the counters
  in Redis; each has a manager of its own. A client is its position in the list of all clients, which
  stands for the pointer that manager, handler and writer share.
\<close>

section \<open>State\<close>

record ws_client =
  wc_device :: string
  wc_tenant :: string
  wc_user :: string
  wc_conn :: string
  wc_keys :: "string list"
  wc_send :: "string chan"

text \<open>\<open>deviceClients\<close>: devices, connections, clients.\<close>

type_synonym ws_manager = "nat gmap gmap"

record feed =
  fd_now :: int
  fd_redis :: "string \<rightharpoonup> int \<times> int option"
  fd_fault :: "string \<Rightarrow> string \<Rightarrow> gerror option"
  fd_clients :: "ws_client list"
  fd_managers :: "ws_manager list"

definition new_ws_client :: "string \<Rightarrow> string \<Rightarrow> string \<Rightarrow> string \<Rightarrow> string list \<Rightarrow> ws_client" where
  "new_ws_client d tenant u conn keys = \<lparr>wc_device = d, wc_tenant = tenant, wc_user = u, wc_conn = conn, wc_keys = keys,
     wc_send = make_chan 64\<rparr>"

section \<open>Counters in Redis\<close>

definition sub_key :: "string \<Rightarrow> string" where "sub_key d = ''ws:sub:'' @ d"

definition sub_ttl :: int where "sub_ttl = 300000"

definition counter :: "string \<Rightarrow> feed \<Rightarrow> (int \<times> int option) option" where
  "counter k s = (case fd_redis s k of
      None \<Rightarrow> None | Some (n, t) \<Rightarrow> if (case t of None \<Rightarrow> True | Some x \<Rightarrow> fd_now s < x) then Some (n, t) else None)"

text \<open>\<open>Incr\<close> and \<open>Decr\<close> create an absent key, and keep the expiration.\<close>

definition count_by :: "string \<Rightarrow> int \<Rightarrow> string \<Rightarrow> feed \<Rightarrow> int res \<times> feed" where
  "count_by cmd c k s = (case fd_fault s cmd k of
      Some e \<Rightarrow> (Inl e, s)
    | None \<Rightarrow> (let (n, t) = (case counter k s of None \<Rightarrow> (0, None) | Some q \<Rightarrow> q)
        in (Inr (n + c), s\<lparr>fd_redis := (fd_redis s)(k \<mapsto> (n + c, t))\<rparr>)))"

definition expire :: "string \<Rightarrow> int \<Rightarrow> feed \<Rightarrow> gerror option \<times> feed" where
  "expire k ttl s = (case fd_fault s ''expire'' k of
      Some e \<Rightarrow> (Some e, s)
    | None \<Rightarrow> (None, case counter k s of
          None \<Rightarrow> s | Some (n, _) \<Rightarrow> s\<lparr>fd_redis := (fd_redis s)(k \<mapsto> (n, Some (fd_now s + ttl)))\<rparr>))"

definition drop_counter :: "string \<Rightarrow> feed \<Rightarrow> feed" where
  "drop_counter k s = (if fd_fault s ''del'' k = None then s\<lparr>fd_redis := (fd_redis s)(k := None)\<rparr> else s)"

section \<open>Subscribing\<close>

definition drop_key :: "string \<Rightarrow> 'a gmap \<Rightarrow> 'a gmap" where
  "drop_key k m = filter (\<lambda>(k', _). k' \<noteq> k) m"

definition device_clients :: "string \<Rightarrow> ws_manager \<Rightarrow> nat gmap" where
  "device_clients d m = (case map_of m d of None \<Rightarrow> [] | Some cs \<Rightarrow> cs)"

definition set_manager :: "nat \<Rightarrow> ws_manager \<Rightarrow> feed \<Rightarrow> feed" where
  "set_manager i m s = s\<lparr>fd_managers := (fd_managers s)[i := m]\<rparr>"

text \<open>The client stays registered when Redis does not count it.\<close>

definition subscribe_device :: "nat \<Rightarrow> string \<Rightarrow> string \<Rightarrow> nat \<Rightarrow> feed \<Rightarrow> gerror option \<times> feed" where
  "subscribe_device i d conn c s =
     (let m = fd_managers s ! i;
          s1 = set_manager i (map_put d (map_put conn c (device_clients d m)) m) s
      in case count_by ''incr'' 1 (sub_key d) s1 of
          (Inl e, s2) \<Rightarrow> (Some e, s2)
        | (Inr _, s2) \<Rightarrow> (None, snd (expire (sub_key d) sub_ttl s2)))"

definition drop_client :: "string \<Rightarrow> string \<Rightarrow> ws_manager \<Rightarrow> nat option \<times> ws_manager" where
  "drop_client d conn m = (case map_of m d of
      None \<Rightarrow> (None, m)
    | Some cs \<Rightarrow> (let cs' = drop_key conn cs in
        (map_of cs conn, if cs' = [] then drop_key d m else map_put d cs' m)))"

definition close_send :: "nat \<Rightarrow> feed \<Rightarrow> feed" where
  "close_send c s = s\<lparr>fd_clients := (fd_clients s)[c := (fd_clients s ! c)\<lparr>wc_send := ch_close (wc_send (fd_clients s ! c))\<rparr>]\<rparr>"

text \<open>\<open>UnsubscribeDevice\<close> up to its first Redis command, and what follows when that one succeeded.\<close>

definition unsubscribe_begin :: "nat \<Rightarrow> string \<Rightarrow> string \<Rightarrow> feed \<Rightarrow> (nat \<times> int) option res \<times> feed" where
  "unsubscribe_begin i d conn s =
     (let (c, m) = drop_client d conn (fd_managers s ! i); s1 = set_manager i m s
      in case c of
          None \<Rightarrow> (Inr None, s1)
        | Some k \<Rightarrow> (case count_by ''decr'' (-1) (sub_key d) s1 of
            (Inl e, s2) \<Rightarrow> (Inl e, s2) | (Inr n, s2) \<Rightarrow> (Inr (Some (k, n)), s2)))"

definition unsubscribe_end :: "string \<Rightarrow> nat \<times> int \<Rightarrow> feed \<Rightarrow> feed" where
  "unsubscribe_end d q s = close_send (fst q) (if snd q \<le> 0 then drop_counter (sub_key d) s else s)"

definition unsubscribe_device :: "nat \<Rightarrow> string \<Rightarrow> string \<Rightarrow> feed \<Rightarrow> gerror option \<times> feed" where
  "unsubscribe_device i d conn s = (case unsubscribe_begin i d conn s of
      (Inl e, s1) \<Rightarrow> (Some e, s1)
    | (Inr None, s1) \<Rightarrow> (None, s1)
    | (Inr (Some q), s1) \<Rightarrow> (None, unsubscribe_end d q s1))"

definition refresh_subscription :: "string \<Rightarrow> feed \<Rightarrow> gerror option \<times> feed" where
  "refresh_subscription d s = expire (sub_key d) sub_ttl s"

section \<open>Pushing\<close>

text \<open>The time of a message as \<open>Marshal\<close> writes it: RFC 3339 in UTC, trailing zeros of the fraction left out.\<close>

definition pad_int :: "nat \<Rightarrow> int \<Rightarrow> string" where
  "pad_int n i = (let t = show_nat (nat i) in replicate (n - length t) (CHR ''0'') @ t)"

definition time_text :: "int \<Rightarrow> string" where
  "time_text t =
     (let n = day_number t; frac = rev (dropWhile (\<lambda>c. c = CHR ''0'') (rev (pad_int 3 (t mod 1000))))
      in pad_int 4 (year_of n) @ ''-'' @ pad_int 2 (month_of n) @ ''-'' @ pad_int 2 (day_of n) @ ''T'' @ pad_int 2 (hour_of t) @ '':'' @
        pad_int 2 (minute_of t) @ '':'' @ pad_int 2 (t div 1000 mod 60) @ (if frac = [] then [] else ''.'' @ frac) @ ''Z'')"

definition filter_data_by_keys :: "json gmap \<Rightarrow> string list \<Rightarrow> json gmap" where
  "filter_data_by_keys data ks =
     map_puts (concat (map (\<lambda>k. case map_of data k of None \<Rightarrow> [] | Some v \<Rightarrow> [(k, v)]) (''systime'' # ks))) []"

definition client_text :: "json gmap \<Rightarrow> ws_client \<Rightarrow> string" where
  "client_text data c = json_print (JObj (if wc_keys c = [] then data else filter_data_by_keys data (wc_keys c)))"

text \<open>A send that does not wait: a full queue drops the message, a closed one panics.\<close>

definition try_send :: "string \<Rightarrow> nat \<Rightarrow> feed \<Rightarrow> feed option" where
  "try_send b c s = (case ch_send b (wc_send (fd_clients s ! c)) of
      Sent ch \<Rightarrow> Some (s\<lparr>fd_clients := (fd_clients s)[c := (fd_clients s ! c)\<lparr>wc_send := ch\<rparr>]\<rparr>)
    | SendFull \<Rightarrow> Some s
    | SendPanic \<Rightarrow> None)"

fun push_all :: "json gmap \<Rightarrow> nat list \<Rightarrow> feed \<Rightarrow> feed option" where
  "push_all data [] s = Some s"
| "push_all data (c # cs) s = Option.bind (try_send (client_text data (fd_clients s ! c)) c s) (push_all data cs)"

text \<open>Writing to a nil map panics.\<close>

definition push_to_device :: "nat \<Rightarrow> string \<Rightarrow> json gmap option \<Rightarrow> feed \<Rightarrow> feed option" where
  "push_to_device i d data s =
     (let cs = device_clients d (fd_managers s ! i) in
      if cs = [] then Some s
      else case data of None \<Rightarrow> None
        | Some m \<Rightarrow> push_all (map_put ''systime'' (JStr (time_text (fd_now s))) m) (map snd cs) s)"

text \<open>One message of \<open>ListenForEvents\<close>.\<close>

record ws_evt =
  we_device :: string
  we_tenant :: string
  we_timestamp :: int
  we_data :: "json gmap option"

definition no_evt :: ws_evt where
  "no_evt = \<lparr>we_device = '''', we_tenant = '''', we_timestamp = 0, we_data = None\<rparr>"

definition dec_ws_evt :: "ws_evt dec" where
  "dec_ws_evt = dec_struct
     [(''device_id'', on_field dec_string we_device (\<lambda>v e. e\<lparr>we_device := v\<rparr>)),
      (''tenant_id'', on_field dec_string we_tenant (\<lambda>v e. e\<lparr>we_tenant := v\<rparr>)),
      (''timestamp'', on_field dec_int we_timestamp (\<lambda>v e. e\<lparr>we_timestamp := v\<rparr>)),
      (''data'', on_field dec_any_map we_data (\<lambda>v e. e\<lparr>we_data := v\<rparr>))]"

definition listen :: "string \<Rightarrow> nat \<Rightarrow> feed \<Rightarrow> feed option" where
  "listen payload i s = (case unmarshal dec_ws_evt payload no_evt of
      Inl _ \<Rightarrow> Some s | Inr e \<Rightarrow> push_to_device i (we_device e) (we_data e) s)"

text \<open>A published message reaches every instance.\<close>

fun listen_all :: "string \<Rightarrow> nat list \<Rightarrow> feed \<Rightarrow> feed option" where
  "listen_all payload [] s = Some s"
| "listen_all payload (i # is) s = Option.bind (listen payload i s) (listen_all payload is)"

section \<open>From a report to the clients\<close>

text \<open>The keys as the telemetry flow sees them.\<close>

definition redis_view :: "feed \<Rightarrow> world" where
  "redis_view s = empty_world\<lparr>w_now := fd_now s, w_redis := (\<lambda>k. map_option (\<lambda>(n, _). show_int n) (counter k s)),
     w_redis_fault := fd_fault s\<rparr>"

fun deliver_effects :: "effect list \<Rightarrow> feed \<Rightarrow> feed option" where
  "deliver_effects [] s = Some s"
| "deliver_effects (RedisPublish ch payload # es) s =
     Option.bind (listen_all payload [0..<length (fd_managers s)] s) (deliver_effects es)"
| "deliver_effects (_ # es) s = deliver_effects es s"

definition publish_report :: "string \<Rightarrow> string \<Rightarrow> json gmap \<Rightarrow> feed \<Rightarrow> feed option" where
  "publish_report d tenant data s = deliver_effects (w_effects (check_and_publish_to_ws d tenant data (redis_view s))) s"

section \<open>The connection\<close>

text \<open>What the handler and the writer of a connection do to the client: subscribe, reply through the
  queue, take from the queue.\<close>

definition ws_connect :: "nat \<Rightarrow> string \<Rightarrow> string \<Rightarrow> string \<Rightarrow> string \<Rightarrow> string list \<Rightarrow> feed \<Rightarrow> gerror option \<times> feed" where
  "ws_connect i d tenant u conn keys s =
     subscribe_device i d conn (length (fd_clients s)) (s\<lparr>fd_clients := fd_clients s @ [new_ws_client d tenant u conn keys]\<rparr>)"

definition handle_ping :: "string \<Rightarrow> nat \<Rightarrow> feed \<Rightarrow> feed option" where
  "handle_ping d c s = try_send ''pong'' c (snd (refresh_subscription d s))"

definition take_message :: "nat \<Rightarrow> feed \<Rightarrow> feed" where
  "take_message c s = (case ch_recv (wc_send (fd_clients s ! c)) of
      Received b ch \<Rightarrow> s\<lparr>fd_clients := (fd_clients s)[c := (fd_clients s ! c)\<lparr>wc_send := ch\<rparr>]\<rparr> | _ \<Rightarrow> s)"

definition ws_stats :: "nat \<Rightarrow> feed \<Rightarrow> nat \<times> nat" where
  "ws_stats i s = (length (fd_managers s ! i), sum_list (map (\<lambda>(_, cs). length cs) (fd_managers s ! i)))"

end
