(* ===== verification/LiveFeedRun.thy ===== *)
theory LiveFeedRun
  imports LiveFeed
begin

text \<open>
  What the managers of all instances guarantee together: queues are closed only after their client was
  taken out, the counters in Redis are the numbers of subscribers, and a report reaches them all.
\<close>

section \<open>Managers as maps\<close>

definition wf_manager :: "ws_manager \<Rightarrow> bool" where
  "wf_manager m \<longleftrightarrow> sorted_map m \<and> (\<forall>(d, cs) \<in> set m. sorted_map cs \<and> cs \<noteq> [])"

lemma set_drop_key: "set (drop_key k m) = {(k', v). (k', v) \<in> set m \<and> k' \<noteq> k}"
  by (auto simp: drop_key_def)

lemma map_of_drop_key [simp]: "map_of (drop_key k m) = (map_of m)(k := None)"
  by (induction m) (auto simp: drop_key_def fun_eq_iff)

lemma sorted_drop_key [simp, intro]: "sorted_map m \<Longrightarrow> sorted_map (drop_key k m)"
  by (auto simp: sorted_map_def keys_of_def drop_key_def sorted_wrt_map sorted_wrt_filter)

lemma length_drop_key:
  assumes "sorted_map m" "map_of m k = Some v"
  shows "length m = Suc (length (drop_key k m))"
proof -
  have "distinct (map fst m)" using assms(1) by (rule sorted_map_distinct)
  then show ?thesis using assms(2)
  proof (induction m)
    case (Cons e m)
    have "drop_key k m = m" if "k \<notin> fst ` set m" using that by (force simp: drop_key_def filter_id_conv)
    with Cons show ?case by (auto simp: drop_key_def split: if_split_asm)
  qed simp
qed

lemma length_map_put: "map_of m k = None \<Longrightarrow> length (map_put k v m) = Suc (length m)"
  by (induction k v m rule: map_put.induct) auto

lemma device_clients_put [simp]: "device_clients d' (map_put d cs m) = (if d' = d then cs else device_clients d' m)"
  by (simp add: device_clients_def)

lemma device_clients_drop: "device_clients d' (drop_key d m) = (if d' = d then [] else device_clients d' m)"
  by (simp add: device_clients_def)

lemma wf_device_clients: "wf_manager m \<Longrightarrow> sorted_map (device_clients d m)"
  by (auto simp: wf_manager_def device_clients_def dest: map_of_SomeD split: option.split)

lemma wf_put: "wf_manager m \<Longrightarrow> sorted_map cs \<Longrightarrow> cs \<noteq> [] \<Longrightarrow> wf_manager (map_put d cs m)"
  unfolding wf_manager_def by (auto dest!: set_map_put [THEN subsetD])

lemma map_put_not_Nil [simp]: "map_put k v m \<noteq> []"
  by (induction k v m rule: map_put.induct) auto

lemma drop_client_effect:
  assumes "wf_manager m" "drop_client d conn m = (c, m')"
  shows "c = map_of (device_clients d m) conn" "wf_manager m'"
    "device_clients d' m' = (if d' = d then drop_key conn (device_clients d m) else device_clients d' m)"
proof -
  have none: "drop_key conn [] = []" by (simp add: drop_key_def)
  show "c = map_of (device_clients d m) conn" "wf_manager m'"
    "device_clients d' m' = (if d' = d then drop_key conn (device_clients d m) else device_clients d' m)"
    using assms wf_device_clients [OF assms(1), of d]
    by (auto simp: drop_client_def Let_def device_clients_def none wf_put wf_manager_def set_drop_key
        split: option.split_asm if_split_asm dest!: set_map_put [THEN subsetD])
qed

section \<open>Queues\<close>

text \<open>Client \<open>c\<close> is registered under a connection of an instance.\<close>

definition registered :: "feed \<Rightarrow> nat \<Rightarrow> string \<Rightarrow> string \<Rightarrow> nat \<Rightarrow> bool" where
  "registered s i d conn c \<longleftrightarrow> i < length (fd_managers s) \<and> map_of (device_clients d (fd_managers s ! i)) conn = Some c"

definition open_send :: "nat \<Rightarrow> feed \<Rightarrow> bool" where
  "open_send c s \<longleftrightarrow> c < length (fd_clients s) \<and> \<not> ch_closed (wc_send (fd_clients s ! c))"

text \<open>A registered client is registered once, and its queue is open.\<close>

definition sound :: "nat \<Rightarrow> feed \<Rightarrow> bool" where
  "sound n s \<longleftrightarrow> length (fd_managers s) = n \<and> (\<forall>m \<in> set (fd_managers s). wf_manager m) \<and>
     (\<forall>i d conn c. registered s i d conn c \<longrightarrow> open_send c s) \<and>
     (\<forall>i d conn i' d' conn' c. registered s i d conn c \<longrightarrow> registered s i' d' conn' c \<longrightarrow> i = i' \<and> d = d' \<and> conn = conn')"

lemma soundI:
  assumes "length (fd_managers s) = n" "\<And>m. m \<in> set (fd_managers s) \<Longrightarrow> wf_manager m"
    "\<And>i d conn c. registered s i d conn c \<Longrightarrow> open_send c s"
    "\<And>i d conn i' d' conn' c. registered s i d conn c \<Longrightarrow> registered s i' d' conn' c \<Longrightarrow> i = i' \<and> d = d' \<and> conn = conn'"
  shows "sound n s"
  unfolding sound_def using assms by blast

lemma soundD:
  assumes "sound n s"
  shows "length (fd_managers s) = n" "m \<in> set (fd_managers s) \<Longrightarrow> wf_manager m" "registered s i d conn c \<Longrightarrow> open_send c s"
    "registered s i d conn c \<Longrightarrow> registered s i' d' conn' c \<Longrightarrow> i = i' \<and> d = d' \<and> conn = conn'"
  using assms unfolding sound_def by blast+

text \<open>Two states with the same managers and the same queues open.\<close>

definition same_queues :: "feed \<Rightarrow> feed \<Rightarrow> bool" where
  "same_queues s s' \<longleftrightarrow> fd_managers s' = fd_managers s \<and> (\<forall>c. open_send c s' = open_send c s)"

lemma sound_same: "sound n s \<Longrightarrow> same_queues s s' \<Longrightarrow> sound n s'"
proof -
  assume s: "sound n s" "same_queues s s'"
  then have "registered s' = registered s" by (simp add: same_queues_def registered_def fun_eq_iff)
  with s show ?thesis unfolding sound_def same_queues_def by simp
qed

lemma same_queues_update:
  "ch_closed (wc_send cl) = ch_closed (wc_send (fd_clients s ! c)) \<Longrightarrow> same_queues s (s\<lparr>fd_clients := (fd_clients s)[c := cl]\<rparr>)"
proof -
  assume cl: "ch_closed (wc_send cl) = ch_closed (wc_send (fd_clients s ! c))"
  have "open_send x (s\<lparr>fd_clients := (fd_clients s)[c := cl]\<rparr>) = open_send x s" for x
    using cl by (cases "x = c") (auto simp: open_send_def)
  then show ?thesis by (simp add: same_queues_def)
qed

lemma same_queues_trans: "same_queues s s1 \<Longrightarrow> same_queues s1 s2 \<Longrightarrow> same_queues s s2"
  by (simp add: same_queues_def)

lemma same_queues_refl [simp]: "same_queues s s"
  by (simp add: same_queues_def)

lemma same_queues_redis [simp]: "same_queues s (s\<lparr>fd_redis := r\<rparr>)" "same_queues s (s\<lparr>fd_now := t, fd_redis := r, fd_fault := f\<rparr>)"
  "same_queues s (s\<lparr>fd_now := t\<rparr>)"
  by (simp_all add: same_queues_def open_send_def)

lemma same_queues_commands:
  "count_by cmd k key s = (x, s1) \<Longrightarrow> same_queues s s1" "same_queues s (snd (expire key ttl s))" "same_queues s (drop_counter key s)"
  by (auto simp: count_by_def expire_def drop_counter_def Let_def split: option.split_asm prod.split_asm option.split)

lemma try_send_same: "try_send b c s = Some s' \<Longrightarrow> same_queues s s'"
  by (auto simp: try_send_def ch_send_Sent intro!: same_queues_update split: send_outcome.split_asm)

lemma push_all_same: "push_all data cs s = Some s' \<Longrightarrow> same_queues s s'"
proof (induction cs arbitrary: s)
  case (Cons c cs)
  then obtain s1 where "try_send (client_text data (fd_clients s ! c)) c s = Some s1" "push_all data cs s1 = Some s'"
    by (auto simp: bind_eq_Some_conv)
  with Cons.IH show ?case by (blast intro: same_queues_trans try_send_same)
qed simp

lemma listen_same: "listen payload i s = Some s' \<Longrightarrow> same_queues s s'"
  by (auto simp: listen_def push_to_device_def Let_def dest: push_all_same split: sum.split_asm option.split_asm if_split_asm)

lemma take_same: "same_queues s (take_message c s)"
  by (auto simp: take_message_def ch_recv_def intro!: same_queues_update split: list.split recv_outcome.split)

lemma ping_same: "handle_ping d c s = Some s' \<Longrightarrow> same_queues s s'"
  unfolding handle_ping_def refresh_subscription_def using same_queues_commands(2) try_send_same same_queues_trans by blast

lemma sound_connect:
  assumes "sound n s" "i < n"
  shows "sound n (snd (ws_connect i d tenant u conn keys s))"
proof -
  let ?k = "length (fd_clients s)"
  let ?s = "s\<lparr>fd_clients := fd_clients s @ [new_ws_client d tenant u conn keys]\<rparr>"
  let ?m = "map_put d (map_put conn ?k (device_clients d (fd_managers s ! i))) (fd_managers s ! i)"
  let ?s1 = "set_manager i ?m ?s"
  have wf: "wf_manager (fd_managers s ! i)" and l: "length (fd_managers s) = n" using assms by (auto simp: sound_def)
  have r: "registered ?s1 i' d' conn' c \<longleftrightarrow> (if i' = i \<and> d' = d \<and> conn' = conn then c = ?k else registered s i' d' conn' c)" for i' d' conn' c
    using assms(2) l by (auto simp: registered_def set_manager_def nth_list_update)
  have old: "c < ?k" "open_send c s" if "registered s i' d' conn' c" for i' d' conn' c
    using that assms(1) unfolding sound_def open_send_def by blast+
  have o: "open_send c ?s1 \<longleftrightarrow> c = ?k \<or> open_send c s" for c
    by (auto simp: open_send_def set_manager_def nth_append new_ws_client_def make_chan_def)
  have "wf_manager m" if "m \<in> set (fd_managers ?s1)" for m
    using that assms(1) wf wf_device_clients [OF wf] by (auto simp: set_manager_def sound_def dest!: set_update_subset_insert [THEN subsetD] intro!: wf_put)
  note wfm = this
  have once: "i1 = i2 \<and> d1 = d2 \<and> c1 = c2" if "registered ?s1 i1 d1 c1 c" "registered ?s1 i2 d2 c2 c" for i1 d1 c1 i2 d2 c2 c
  proof (cases "c = ?k")
    case True
    with that old(1) show ?thesis unfolding r by (auto split: if_split_asm)
  next
    case False
    with that have "registered s i1 d1 c1 c" "registered s i2 d2 c2 c" unfolding r by (auto split: if_split_asm)
    with assms(1) show ?thesis by (blast dest: soundD(4))
  qed
  have s1: "sound n ?s1"
  proof (rule soundI)
    show "length (fd_managers ?s1) = n" using l by (simp add: set_manager_def)
    show "open_send c ?s1" if "registered ?s1 i' d' conn' c" for i' d' conn' c
      using that old(2) unfolding r o by (auto split: if_split_asm)
  qed (fact wfm, fact once)
  obtain x s2 where c: "count_by ''incr'' 1 (sub_key d) ?s1 = (x, s2)" by fastforce
  from sound_same [OF s1 same_queues_commands(1) [OF c]] show ?thesis
    using sound_same [OF _ same_queues_commands(2)]
    by (auto simp: ws_connect_def subscribe_device_def Let_def c split: sum.split)
qed

lemma unregistered:
  assumes "sound n s" "i < n" "drop_client d conn (fd_managers s ! i) = (k, m)"
  shows "registered (set_manager i m s) i' d' conn' c \<longleftrightarrow> registered s i' d' conn' c \<and> \<not> (i' = i \<and> d' = d \<and> conn' = conn)"
    "k = map_of (device_clients d (fd_managers s ! i)) conn" "sound n (set_manager i m s)"
proof -
  have wf: "wf_manager (fd_managers s ! i)" and l: "length (fd_managers s) = n" using assms by (auto simp: sound_def)
  note e = drop_client_effect [OF wf assms(3)]
  show r: "registered (set_manager i m s) i' d' conn' c \<longleftrightarrow> registered s i' d' conn' c \<and> \<not> (i' = i \<and> d' = d \<and> conn' = conn)" for i' d' conn' c
    using assms(2) l e(3) by (auto simp: registered_def set_manager_def nth_list_update split: if_split_asm)
  show "k = map_of (device_clients d (fd_managers s ! i)) conn" by (rule e(1))
  have "wf_manager m'" if "m' \<in> set (fd_managers (set_manager i m s))" for m'
    using that assms(1) e(2) by (auto simp: set_manager_def sound_def dest!: set_update_subset_insert [THEN subsetD])
  note wfm = this
  have o: "open_send c (set_manager i m s) = open_send c s" for c by (simp add: open_send_def set_manager_def)
  show "sound n (set_manager i m s)"
  proof (rule soundI)
    show "length (fd_managers (set_manager i m s)) = n" using l by (simp add: set_manager_def)
    show "open_send c (set_manager i m s)" if "registered (set_manager i m s) i' d' conn' c" for i' d' conn' c
      using that soundD(3) [OF assms(1)] unfolding r o by blast
    show "i1 = i2 \<and> d1 = d2 \<and> c1 = c2" if "registered (set_manager i m s) i1 d1 c1 c" "registered (set_manager i m s) i2 d2 c2 c"
      for i1 d1 c1 i2 d2 c2 c using that soundD(4) [OF assms(1)] unfolding r by blast
  qed (fact wfm)
qed

lemma sound_close:
  assumes "sound n s" "\<And>i d conn. \<not> registered s i d conn k"
  shows "sound n (close_send k s)"
proof -
  have "registered (close_send k s) i d conn c = registered s i d conn c" for i d conn c by (simp add: registered_def close_send_def)
  moreover have "open_send c (close_send k s) = open_send c s" if "c \<noteq> k" for c using that by (simp add: open_send_def close_send_def)
  ultimately show ?thesis using assms soundD [OF assms(1)]
    by (intro soundI) (auto simp: close_send_def, metis+)
qed

lemma sound_unsubscribe:
  assumes "sound n s" "i < n"
  shows "sound n (snd (unsubscribe_device i d conn s))"
proof -
  obtain k m where dc: "drop_client d conn (fd_managers s ! i) = (k, m)" by fastforce
  note u = unregistered [OF assms dc]
  obtain x s1 where c: "count_by ''decr'' (-1) (sub_key d) (set_manager i m s) = (x, s1)" by fastforce
  note q1 = same_queues_commands(1) [OF c]
  have q2: "same_queues (set_manager i m s) (if b then drop_counter (sub_key d) s1 else s1)" for b
    using same_queues_trans [OF q1 same_queues_commands(3)] q1 by simp
  have "sound n (close_send c' (if b then drop_counter (sub_key d) s1 else s1))" if "k = Some c'" for c' b
  proof (rule sound_close [OF sound_same [OF u(3) q2]])
    have "registered s i d conn c'" using that u(2) assms by (simp add: registered_def sound_def)
    then have "\<not> registered (set_manager i m s) i' d' conn' c'" for i' d' conn'
      using assms(1) u(1) unfolding sound_def by metis
    then show "\<not> registered (if b then drop_counter (sub_key d) s1 else s1) i' d' conn' c'" for i' d' conn'
      using q2 [of b] by (simp add: registered_def same_queues_def)
  qed
  then show ?thesis using sound_same [OF u(3) q1] u(3)
    by (auto simp: unsubscribe_device_def unsubscribe_begin_def unsubscribe_end_def Let_def dc c split: option.split sum.split)
qed

section \<open>Every run\<close>

text \<open>Of \<open>n\<close> instances. Time, faults and the keys in Redis may change in any way between the steps.\<close>

inductive live :: "nat \<Rightarrow> feed \<Rightarrow> bool" for n where
  live_start: "fd_clients s = [] \<Longrightarrow> fd_managers s = replicate n [] \<Longrightarrow> live n s"
| live_connect: "live n s \<Longrightarrow> i < n \<Longrightarrow> live n (snd (ws_connect i d tenant u conn keys s))"
| live_unsubscribe: "live n s \<Longrightarrow> i < n \<Longrightarrow> live n (snd (unsubscribe_device i d conn s))"
| live_listen: "live n s \<Longrightarrow> listen payload i s = Some s' \<Longrightarrow> live n s'"
| live_ping: "live n s \<Longrightarrow> handle_ping d c s = Some s' \<Longrightarrow> live n s'"
| live_take: "live n s \<Longrightarrow> live n (take_message c s)"
| live_redis: "live n s \<Longrightarrow> live n (s\<lparr>fd_now := t, fd_redis := r, fd_fault := f\<rparr>)"

lemma live_sound: "live n s \<Longrightarrow> sound n s"
proof (induction rule: live.induct)
  case (live_start s)
  then show ?case by (intro soundI) (auto simp: wf_manager_def registered_def device_clients_def)
qed (auto intro: sound_connect sound_unsubscribe sound_same listen_same ping_same take_same)

lemma try_send_open: "open_send c s \<Longrightarrow> try_send b c s \<noteq> None"
  by (auto simp: try_send_def open_send_def ch_send_def)

lemma push_all_open: "(\<And>c. c \<in> set cs \<Longrightarrow> open_send c s) \<Longrightarrow> push_all data cs s \<noteq> None"
proof (induction cs arbitrary: s)
  case (Cons c cs)
  then obtain s1 where s1: "try_send (client_text data (fd_clients s ! c)) c s = Some s1" using try_send_open by fastforce
  then have "push_all data cs s1 \<noteq> None"
    using Cons.prems try_send_same [OF s1] by (intro Cons.IH) (simp add: same_queues_def)
  with s1 show ?case by simp
qed simp

lemma client_registered:
  assumes "sound n s" "i < n" "c \<in> snd ` set (device_clients d (fd_managers s ! i))"
  shows "\<exists>conn. registered s i d conn c"
proof -
  obtain conn where "(conn, c) \<in> set (device_clients d (fd_managers s ! i))" using assms(3) by auto
  moreover have "sorted_map (device_clients d (fd_managers s ! i))" using assms(1,2) by (simp add: soundD wf_device_clients)
  ultimately have "map_of (device_clients d (fd_managers s ! i)) conn = Some c" by (intro map_of_is_SomeI sorted_map_distinct)
  then have "registered s i d conn c" using soundD(1) [OF assms(1)] assms(2) by (simp add: registered_def)
  then show ?thesis by blast
qed

text \<open>C22: Pushing never panics on a closed queue. In every reachable state of any number of instances, whatever
  Redis answers or forgets in between: pushing data to the clients of a device panics only when the message has
  no data at all and someone is subscribed; a registered client is registered once, and its queue is open.\<close>
theorem push_meets_open_queues:
  assumes "live n s" "i < n"
  shows "(push_to_device i d data s = None \<longleftrightarrow> data = None \<and> (\<exists>conn c. registered s i d conn c)) \<and>
    (\<forall>conn c. registered s i d conn c \<longrightarrow> open_send c s \<and>
      (\<forall>i' d' conn'. registered s i' d' conn' c \<longrightarrow> i' = i \<and> d' = d \<and> conn' = conn))"
proof -
  have s: "sound n s" using assms(1) by (rule live_sound)
  let ?cs = "device_clients d (fd_managers s ! i)"
  have "push_all m (map snd ?cs) s \<noteq> None" for m
  proof (rule push_all_open)
    fix c
    assume "c \<in> set (map snd ?cs)"
    then obtain conn where "registered s i d conn c" using client_registered [OF s assms(2)] by auto
    then show "open_send c s" by (rule soundD(3) [OF s])
  qed
  moreover have "?cs \<noteq> [] \<longleftrightarrow> (\<exists>conn c. registered s i d conn c)"
  proof (cases ?cs)
    case Nil
    then show ?thesis by (simp add: registered_def)
  next
    case (Cons e r)
    with soundD(1) [OF s] assms(2) show ?thesis by (cases e) (auto simp: registered_def)
  qed
  ultimately have "push_to_device i d data s = None \<longleftrightarrow> data = None \<and> (\<exists>conn c. registered s i d conn c)"
    by (auto simp: push_to_device_def Let_def split: option.split)
  moreover have "\<forall>conn c. registered s i d conn c \<longrightarrow> open_send c s \<and>
      (\<forall>i' d' conn'. registered s i' d' conn' c \<longrightarrow> i' = i \<and> d' = d \<and> conn' = conn)"
    using soundD(3,4) [OF s] by metis
  ultimately show ?thesis by blast
qed

section \<open>Counters\<close>

definition subscribers :: "string \<Rightarrow> feed \<Rightarrow> nat" where
  "subscribers d s = sum_list (map (\<lambda>m. length (device_clients d m)) (fd_managers s))"

text \<open>While Redis answers and no counter with subscribers runs out before one of them refreshes it. A
  connection id is used once.\<close>

inductive fed :: "nat \<Rightarrow> feed \<Rightarrow> bool" for n where
  fed_start: "fd_clients s = [] \<Longrightarrow> fd_managers s = replicate n [] \<Longrightarrow> fd_redis s = (\<lambda>_. None) \<Longrightarrow> fd_fault s = (\<lambda>_ _. None) \<Longrightarrow> fed n s"
| fed_connect: "fed n s \<Longrightarrow> i < n \<Longrightarrow> (\<And>c. \<not> registered s i d conn c) \<Longrightarrow> fed n (snd (ws_connect i d tenant u conn keys s))"
| fed_unsubscribe: "fed n s \<Longrightarrow> i < n \<Longrightarrow> fed n (snd (unsubscribe_device i d conn s))"
| fed_listen: "fed n s \<Longrightarrow> listen payload i s = Some s' \<Longrightarrow> fed n s'"
| fed_ping: "fed n s \<Longrightarrow> handle_ping d c s = Some s' \<Longrightarrow> fed n s'"
| fed_take: "fed n s \<Longrightarrow> fed n (take_message c s)"
| fed_wait: "fed n s \<Longrightarrow> 0 \<le> dt \<Longrightarrow> s' = s\<lparr>fd_now := fd_now s + dt\<rparr> \<Longrightarrow>
    (\<And>d. subscribers d s \<noteq> 0 \<Longrightarrow> counter (sub_key d) s' \<noteq> None) \<Longrightarrow> fed n s'"

definition right_count :: "nat \<Rightarrow> int \<Rightarrow> (int \<times> int option) option \<Rightarrow> bool" where
  "right_count k now q \<longleftrightarrow> (case q of None \<Rightarrow> k = 0 | Some (v, t) \<Rightarrow> v = int k \<and> 0 < k \<and> (\<exists>x. t = Some x \<and> now < x))"

definition counted_feed :: "feed \<Rightarrow> bool" where
  "counted_feed s \<longleftrightarrow> fd_fault s = (\<lambda>_ _. None) \<and> (\<forall>d. right_count (subscribers d s) (fd_now s) (fd_redis s (sub_key d)))"

text \<open>Everything the counters depend on.\<close>

definition same_counts :: "feed \<Rightarrow> feed \<Rightarrow> bool" where
  "same_counts s s' \<longleftrightarrow> fd_managers s' = fd_managers s \<and> fd_redis s' = fd_redis s \<and> fd_fault s' = fd_fault s \<and> fd_now s' = fd_now s"

lemma same_counts_refl [simp]: "same_counts s s" "same_counts s (s\<lparr>fd_clients := cs\<rparr>)"
  by (simp_all add: same_counts_def)

lemma same_counts_trans: "same_counts s s1 \<Longrightarrow> same_counts s1 s2 \<Longrightarrow> same_counts s s2"
  by (simp add: same_counts_def)

lemma try_send_counts: "try_send b c s = Some s' \<Longrightarrow> same_counts s s'"
  by (auto simp: try_send_def split: send_outcome.split_asm)

lemma push_all_counts: "push_all data cs s = Some s' \<Longrightarrow> same_counts s s'"
proof (induction cs arbitrary: s)
  case (Cons c cs)
  then obtain s1 where "try_send (client_text data (fd_clients s ! c)) c s = Some s1" "push_all data cs s1 = Some s'"
    by (auto simp: bind_eq_Some_conv)
  with Cons.IH show ?case by (blast intro: same_counts_trans try_send_counts)
qed simp

lemma listen_counts: "listen payload i s = Some s' \<Longrightarrow> same_counts s s'"
  by (auto simp: listen_def push_to_device_def Let_def dest: push_all_counts split: sum.split_asm option.split_asm if_split_asm)

lemma counted_same: "counted_feed s \<Longrightarrow> same_counts s s' \<Longrightarrow> counted_feed s'"
proof -
  assume s: "counted_feed s" "same_counts s s'"
  then have "subscribers d s' = subscribers d s" for d by (simp add: subscribers_def same_counts_def)
  with s show ?thesis unfolding counted_feed_def same_counts_def by simp
qed

lemma sub_key_inj [simp]: "sub_key d = sub_key d' \<longleftrightarrow> d = d'"
  by (simp add: sub_key_def)

lemma subscribers_update:
  assumes "i < length (fd_managers s)"
  shows "subscribers d (set_manager i m s) + length (device_clients d (fd_managers s ! i)) = subscribers d s + length (device_clients d m)"
proof -
  let ?f = "\<lambda>m. length (device_clients d m)"
  have "?f (fd_managers s ! i) \<le> sum_list (map ?f (fd_managers s))"
    using assms by (intro member_le_sum_list) auto
  then show ?thesis using assms sum_list_update [of i "map ?f (fd_managers s)" "?f m"]
    by (simp add: subscribers_def set_manager_def map_update)
qed

lemma counted_listen: "counted_feed s \<Longrightarrow> listen payload i s = Some s' \<Longrightarrow> counted_feed s'"
  by (blast intro: counted_same listen_counts)

lemma counted_take: "counted_feed s \<Longrightarrow> counted_feed (take_message c s)"
  by (rule counted_same) (auto simp: take_message_def split: recv_outcome.split)

lemma counted_expire:
  assumes "counted_feed s"
  shows "counted_feed (snd (expire (sub_key d) sub_ttl s))"
proof (cases "counter (sub_key d) s")
  case None
  then show ?thesis using assms by (simp add: expire_def counted_feed_def)
next
  case (Some q)
  obtain v t where q: "q = (v, t)" by fastforce
  have "fd_redis s (sub_key d) = Some (v, t)" using Some q by (auto simp: counter_def split: option.split_asm if_split_asm prod.split_asm)
  then have "right_count (subscribers d s) (fd_now s) (Some (v, Some (fd_now s + sub_ttl)))"
    using assms unfolding counted_feed_def by (auto simp: right_count_def sub_ttl_def dest: spec [of _ d])
  then show ?thesis using assms Some q by (auto simp: expire_def counted_feed_def subscribers_def)
qed

lemma counted_ping: "counted_feed s \<Longrightarrow> handle_ping d c s = Some s' \<Longrightarrow> counted_feed s'"
  unfolding handle_ping_def refresh_subscription_def using counted_expire counted_same try_send_counts by blast

lemma counter_same: "fd_now s' = fd_now s \<Longrightarrow> fd_redis s' k = fd_redis s k \<Longrightarrow> counter k s' = counter k s"
  by (auto simp: counter_def split: option.split)

lemma right_count_counter:
  assumes "counted_feed s"
  shows "counter (sub_key d) s = fd_redis s (sub_key d)"
proof -
  have "right_count (subscribers d s) (fd_now s) (fd_redis s (sub_key d))" using assms by (simp add: counted_feed_def)
  then show ?thesis by (auto simp: counter_def right_count_def split: option.split)
qed

lemma counted_connect:
  assumes "counted_feed s" "sound n s" "i < n" "\<And>c. \<not> registered s i d conn c"
  shows "counted_feed (snd (ws_connect i d tenant u conn keys s))"
proof -
  let ?k = "length (fd_clients s)"
  let ?s = "s\<lparr>fd_clients := fd_clients s @ [new_ws_client d tenant u conn keys]\<rparr>"
  let ?m = "map_put d (map_put conn ?k (device_clients d (fd_managers s ! i))) (fd_managers s ! i)"
  let ?s1 = "set_manager i ?m ?s"
  have l: "i < length (fd_managers s)" using assms(2,3) by (simp add: soundD)
  have "map_of (device_clients d (fd_managers s ! i)) conn = None" using assms(4) l by (cases "map_of (device_clients d (fd_managers s ! i)) conn") (auto simp: registered_def)
  then have len: "length (device_clients d ?m) = Suc (length (device_clients d (fd_managers s ! i)))" by (simp add: length_map_put)
  have sub: "subscribers d' ?s1 = subscribers d' s + (if d' = d then 1 else 0)" for d'
    using subscribers_update [of i ?s d' ?m] l len by (auto simp: subscribers_def)
  have f: "fd_fault s = (\<lambda>_ _. None)" and r: "right_count (subscribers d' s) (fd_now s) (fd_redis s (sub_key d'))" for d'
    using assms(1) by (simp_all add: counted_feed_def)
  have c: "counter (sub_key d) ?s1 = fd_redis s (sub_key d)"
    using right_count_counter [OF assms(1), of d] counter_same [of ?s1 s "sub_key d"] by (simp add: set_manager_def)
  let ?t = "case fd_redis s (sub_key d) of None \<Rightarrow> None | Some (_, t) \<Rightarrow> t"
  let ?s2 = "?s1\<lparr>fd_redis := (fd_redis s)(sub_key d \<mapsto> (int (subscribers d s) + 1, ?t))\<rparr>"
  have "count_by ''incr'' 1 (sub_key d) ?s1 = (Inr (int (subscribers d s) + 1), ?s2)"
    using r [of d] f unfolding count_by_def c by (auto simp: set_manager_def right_count_def split: option.split)
  moreover have "counter (sub_key d) ?s2 = Some (int (subscribers d s) + 1, ?t)"
    using r [of d] by (auto simp: counter_def set_manager_def right_count_def split: option.split)
  then have "snd (expire (sub_key d) sub_ttl ?s2) = ?s2\<lparr>fd_redis := (fd_redis ?s2)(sub_key d \<mapsto> (int (subscribers d s) + 1, Some (fd_now s + sub_ttl)))\<rparr>"
    using f by (simp add: expire_def set_manager_def)
  ultimately have e: "snd (ws_connect i d tenant u conn keys s) =
      ?s1\<lparr>fd_redis := (fd_redis s)(sub_key d \<mapsto> (int (subscribers d s) + 1, Some (fd_now s + sub_ttl)))\<rparr>" (is "_ = ?e")
    by (simp add: ws_connect_def subscribe_device_def Let_def set_manager_def)
  have "subscribers d' ?e = subscribers d' ?s1" for d' by (simp add: subscribers_def)
  then have "right_count (subscribers d' ?e) (fd_now ?e) (fd_redis ?e (sub_key d'))" for d'
    using r [of d'] sub [of d'] by (cases "d' = d") (simp_all add: set_manager_def, simp add: right_count_def sub_ttl_def)
  then show ?thesis unfolding e using f by (simp add: counted_feed_def set_manager_def)
qed

lemma drop_key_absent: "map_of m k = None \<Longrightarrow> drop_key k m = m"
  by (force simp: drop_key_def map_of_eq_None_iff intro!: filter_True)

lemma counted_unsubscribe:
  assumes "counted_feed s" "sound n s" "i < n"
  shows "counted_feed (snd (unsubscribe_device i d conn s))"
proof -
  obtain k m where dc: "drop_client d conn (fd_managers s ! i) = (k, m)" by fastforce
  have l: "i < length (fd_managers s)" and wf: "wf_manager (fd_managers s ! i)" using assms(2,3) by (simp_all add: soundD)
  note e = drop_client_effect [OF wf dc]
  let ?s1 = "set_manager i m s"
  let ?cs = "device_clients d (fd_managers s ! i)"
  have f: "fd_fault s = (\<lambda>_ _. None)" and r: "right_count (subscribers d' s) (fd_now s) (fd_redis s (sub_key d'))" for d'
    using assms(1) by (simp_all add: counted_feed_def)
  have sub: "subscribers d' ?s1 + (if d' = d then length ?cs else 0) = subscribers d' s + (if d' = d then length (drop_key conn ?cs) else 0)" for d'
    using subscribers_update [OF l, of d' m] e(3) [of d'] by (simp split: if_split_asm)
  show ?thesis
  proof (cases k)
    case None
    then have "subscribers d' ?s1 = subscribers d' s" for d' using sub [of d'] e(1) by (simp add: drop_key_absent split: if_split_asm)
    then show ?thesis using f r None
      by (simp add: unsubscribe_device_def unsubscribe_begin_def dc counted_feed_def set_manager_def)
  next
    case (Some c)
    have "length ?cs = Suc (length (drop_key conn ?cs))"
      using length_drop_key [OF wf_device_clients [OF wf], of d conn c] e(1) Some by simp
    then have sub: "subscribers d' s = subscribers d' ?s1 + (if d' = d then 1 else 0)" for d' using sub [of d'] by (simp split: if_split_asm)
    then obtain x where x: "fd_redis s (sub_key d) = Some (int (subscribers d s), Some x)" "fd_now s < x"
      using r [of d] by (auto simp: right_count_def split: option.split_asm)
    let ?n = "int (subscribers d ?s1)"
    let ?s2 = "?s1\<lparr>fd_redis := (fd_redis s)(sub_key d \<mapsto> (?n, Some x))\<rparr>"
    have "counter (sub_key d) ?s1 = Some (int (subscribers d s), Some x)" using x by (simp add: counter_def set_manager_def)
    then have "count_by ''decr'' (-1) (sub_key d) ?s1 = (Inr ?n, ?s2)" using f sub [of d] by (simp add: count_by_def set_manager_def)
    then have "snd (unsubscribe_device i d conn s) = unsubscribe_end d (c, ?n) ?s2"
      by (simp add: unsubscribe_device_def unsubscribe_begin_def dc Some)
    also have "\<dots> = close_send c (?s1\<lparr>fd_redis := (fd_redis s)(sub_key d := if ?n = 0 then None else Some (?n, Some x))\<rparr>)" (is "_ = ?e")
      using f by (simp add: unsubscribe_end_def drop_counter_def set_manager_def)
    finally have e: "snd (unsubscribe_device i d conn s) = ?e" .
    have "subscribers d' ?e = subscribers d' ?s1" for d' by (simp add: subscribers_def close_send_def)
    then have "right_count (subscribers d' ?e) (fd_now ?e) (fd_redis ?e (sub_key d'))" for d'
      using r [of d'] sub [of d'] x by (cases "d' = d") (simp_all add: set_manager_def close_send_def right_count_def)
    then show ?thesis unfolding e using f by (simp add: counted_feed_def set_manager_def close_send_def)
  qed
qed

lemma fed_counted: "fed n s \<Longrightarrow> live n s \<and> counted_feed s"
proof (induction rule: fed.induct)
  case (fed_start s)
  then show ?case by (auto intro: live_start simp: counted_feed_def right_count_def subscribers_def device_clients_def sum_list_replicate)
next
  case (fed_wait s dt s')
  have "s' = s\<lparr>fd_now := fd_now s + dt, fd_redis := fd_redis s, fd_fault := fd_fault s\<rparr>" using fed_wait.hyps(3) by simp
  then have "live n s'" using live_redis [of n s] fed_wait.IH by metis
  moreover have "right_count (subscribers d s') (fd_now s') (fd_redis s' (sub_key d))" for d
  proof -
    have "right_count (subscribers d s) (fd_now s) (fd_redis s (sub_key d))" using fed_wait.IH by (simp add: counted_feed_def)
    moreover have "subscribers d s' = subscribers d s" by (simp add: subscribers_def fed_wait.hyps(3))
    ultimately show ?thesis using fed_wait.hyps(4) [of d]
      by (cases "subscribers d s = 0") (auto simp: right_count_def fed_wait.hyps(3) counter_def split: option.split_asm if_split_asm)
  qed
  ultimately show ?case using fed_wait.IH by (simp add: counted_feed_def fed_wait.hyps(3))
qed (auto intro: live.intros counted_connect counted_unsubscribe counted_listen counted_ping counted_take live_sound)

lemma counters_exact_at:
  assumes "counted_feed s"
  shows "map_option fst (counter (sub_key d) s) = (if subscribers d s = 0 then None else Some (int (subscribers d s)))"
proof -
  have "right_count (subscribers d s) (fd_now s) (fd_redis s (sub_key d))" using assms by (simp add: counted_feed_def)
  then show ?thesis unfolding right_count_counter [OF assms] by (auto simp: right_count_def split: option.split_asm)
qed


section \<open>Reports\<close>

text \<open>What a set of clients gets: each its message, unless its queue is full.\<close>

definition queued :: "string \<Rightarrow> ws_client \<Rightarrow> ws_client" where
  "queued b c = (if length (ch_buf (wc_send c)) < ch_cap (wc_send c) then c\<lparr>wc_send := (wc_send c)\<lparr>ch_buf := ch_buf (wc_send c) @ [b]\<rparr>\<rparr> else c)"

definition received :: "json gmap \<Rightarrow> nat set \<Rightarrow> feed \<Rightarrow> feed" where
  "received data C s = s\<lparr>fd_clients := map (\<lambda>c. if c \<in> C then queued (client_text data (fd_clients s ! c)) (fd_clients s ! c)
     else fd_clients s ! c) [0..<length (fd_clients s)]\<rparr>"

lemma received_none [simp]: "received data {} s = s"
  by (simp add: received_def map_nth)

lemma try_send_queued:
  assumes "open_send c s"
  shows "try_send b c s = Some (s\<lparr>fd_clients := (fd_clients s)[c := queued b (fd_clients s ! c)]\<rparr>)"
  using assms by (simp add: try_send_def open_send_def ch_send_def queued_def)

lemma push_all_received:
  assumes "distinct cs" "\<And>c. c \<in> set cs \<Longrightarrow> open_send c s"
  shows "push_all data cs s = Some (received data (set cs) s)"
  using assms
proof (induction cs arbitrary: s)
  case (Cons c cs)
  let ?s1 = "s\<lparr>fd_clients := (fd_clients s)[c := queued (client_text data (fd_clients s ! c)) (fd_clients s ! c)]\<rparr>"
  have t: "try_send (client_text data (fd_clients s ! c)) c s = Some ?s1" using Cons.prems(2) by (intro try_send_queued) simp
  have c: "c < length (fd_clients s)" using Cons.prems(2) [of c] by (simp add: open_send_def)
  have "push_all data cs ?s1 = Some (received data (set cs) ?s1)"
    using Cons.prems try_send_same [OF t] by (intro Cons.IH) (simp_all add: same_queues_def)
  also have "received data (set cs) ?s1 = received data (set (c # cs)) s"
    using Cons.prems(1) c by (auto simp: received_def nth_list_update)
  finally show ?case using t by simp
qed simp

lemma push_all_append: "push_all data (xs @ ys) s = Option.bind (push_all data xs s) (push_all data ys)"
  by (induction xs arbitrary: s) (auto simp: bind_eq_None_conv split: bind_splits)

lemma listen_all_push:
  assumes "unmarshal dec_ws_evt payload no_evt = Inr e" "we_data e = Some m"
  shows "listen_all payload is s = push_all (map_put ''systime'' (JStr (time_text (fd_now s))) m)
    (concat (map (\<lambda>i. map snd (device_clients (we_device e) (fd_managers s ! i))) is)) s"
proof (induction "is" arbitrary: s)
  case (Cons i "is")
  let ?cs = "device_clients (we_device e) (fd_managers s ! i)"
  have l: "listen payload i s = push_all (map_put ''systime'' (JStr (time_text (fd_now s))) m) (map snd ?cs) s"
    by (simp add: listen_def assms push_to_device_def Let_def)
  show ?case
  proof (cases "listen payload i s")
    case (Some s1)
    have "fd_now s1 = fd_now s" "fd_managers s1 = fd_managers s" using listen_counts [OF Some] by (simp_all add: same_counts_def)
    with Cons.IH [of s1] Some l show ?thesis by (simp add: push_all_append)
  qed (use l in \<open>simp add: push_all_append\<close>)
qed simp

lemma distinct_concat_map:
  "distinct xs \<Longrightarrow> (\<And>x. x \<in> set xs \<Longrightarrow> distinct (f x)) \<Longrightarrow>
    (\<And>x y. x \<in> set xs \<Longrightarrow> y \<in> set xs \<Longrightarrow> x \<noteq> y \<Longrightarrow> set (f x) \<inter> set (f y) = {}) \<Longrightarrow> distinct (concat (map f xs))"
  by (induction xs) auto

lemma subscribed_clients:
  assumes "sound n s"
  shows "distinct (concat (map (\<lambda>i. map snd (device_clients d (fd_managers s ! i))) [0..<n]))"
    "set (concat (map (\<lambda>i. map snd (device_clients d (fd_managers s ! i))) [0..<n])) = {c. \<exists>i conn. registered s i d conn c}"
proof -
  have r: "(conn, c) \<in> set (device_clients d (fd_managers s ! i)) \<longleftrightarrow> registered s i d conn c" if "i < n" for i conn c
  proof -
    have "distinct (map fst (device_clients d (fd_managers s ! i)))" using that assms by (intro sorted_map_distinct wf_device_clients) (simp add: soundD)
    then show ?thesis using that soundD(1) [OF assms] by (simp add: registered_def)
  qed
  have inj: "inj_on snd (set (device_clients d (fd_managers s ! i)))" if "i < n" for i
    using r [OF that] soundD(4) [OF assms] by (fastforce simp: inj_on_def)
  show "distinct (concat (map (\<lambda>i. map snd (device_clients d (fd_managers s ! i))) [0..<n]))"
  proof (rule distinct_concat_map)
    fix i assume "i \<in> set [0..<n]"
    then have i: "i < n" by simp
    have "distinct (map fst (device_clients d (fd_managers s ! i)))"
      using i assms by (intro sorted_map_distinct wf_device_clients) (simp add: soundD)
    then have "distinct (device_clients d (fd_managers s ! i))" by (simp add: distinct_map)
    with inj [OF i] show "distinct (map snd (device_clients d (fd_managers s ! i)))" by (simp add: distinct_map)
  next
    fix i j assume "i \<in> set [0..<n]" "j \<in> set [0..<n]" "i \<noteq> j"
    then show "set (map snd (device_clients d (fd_managers s ! i))) \<inter> set (map snd (device_clients d (fd_managers s ! j))) = {}"
      using r soundD(4) [OF assms] by fastforce
  qed simp
  show "set (concat (map (\<lambda>i. map snd (device_clients d (fd_managers s ! i))) [0..<n])) = {c. \<exists>i conn. registered s i d conn c}"
    using r soundD(1) [OF assms] by (force simp: registered_def)
qed

lemma bind_no_effects: "Option.bind m (deliver_effects []) = m"
  by (cases m) simp_all

lemma ws_evt_names:
  "fold_eq ''device_id'' ''device_id''" "fold_eq ''tenant_id'' ''tenant_id''" "fold_eq ''timestamp'' ''timestamp''" "fold_eq ''data'' ''data''"
  "\<not> fold_eq ''device_id'' ''tenant_id''" "\<not> fold_eq ''device_id'' ''timestamp''" "\<not> fold_eq ''tenant_id'' ''timestamp''"
  "\<not> fold_eq ''device_id'' ''data''" "\<not> fold_eq ''tenant_id'' ''data''" "\<not> fold_eq ''timestamp'' ''data''"
  by code_simp+

lemma ws_event_read:
  assumes "good_map (Some data)" "- (2 ^ 63) \<le> now" "now < 2 ^ 63"
  shows "unmarshal dec_ws_evt (json_print (ws_event d tenant now data)) no_evt =
    Inr \<lparr>we_device = d, we_tenant = tenant, we_timestamp = now, we_data = Some data\<rparr>"
proof -
  have g: "wf_json (JObj data)" "canon_json (JObj data)" using assms(1) by (simp_all add: good_map_def del: wf_json.simps canon_json.simps)
  then have "jnorm (JObj data) = JObj data" by (intro jnorm_canon)
  then have n: "map_puts (map (map_prod id jnorm) data) [] = data" by simp
  have "wf_json (ws_event d tenant now data)" using g(1) by (simp add: ws_event_def)
  then have "unmarshal dec_ws_evt (json_print (ws_event d tenant now data)) no_evt = dec_ws_evt (ws_event d tenant now data) no_evt"
    by (rule unmarshal_print)
  also have "\<dots> = Inr \<lparr>we_device = d, we_tenant = tenant, we_timestamp = now, we_data = Some data\<rparr>"
    using atoi_show_int [OF assms(2,3)] n
    by (simp add: dec_ws_evt_def ws_event_def no_evt_def on_field_def json_int_def ws_evt_names dec_entries_any)
  finally show ?thesis .
qed

text \<open>C21: A report reaches exactly the subscribers. In every such state: what the telemetry flow publishes for a
  report arrives in the queue of every client that is registered for the device at any instance, once, as
  the values of the fields it asked for with the time, unless its queue is full; no other queue changes, and
  nothing panics.\<close>
theorem report_reaches_subscribers:
  assumes "fed n s" "good_map (Some data)" "- (2 ^ 63) \<le> fd_now s" "fd_now s < 2 ^ 63"
  shows "publish_report d tenant data s =
    Some (received (map_put ''systime'' (JStr (time_text (fd_now s))) data) {c. \<exists>i conn. registered s i d conn c} s)"
proof -
  have c: "counted_feed s" and s: "sound n s" using fed_counted [OF assms(1)] by (simp_all add: live_sound)
  let ?C = "concat (map (\<lambda>i. map snd (device_clients d (fd_managers s ! i))) [0..<n])"
  have view: "w_redis (redis_view s) (sub_key d) = (if subscribers d s = 0 then None else Some (show_int (int (subscribers d s))))"
    using counters_exact_at [OF c, of d] by (auto simp: redis_view_def split: if_split_asm)
  have w: "w_redis_fault (redis_view s) = (\<lambda>_ _. None)" "w_now (redis_view s) = fd_now s" "w_effects (redis_view s) = []"
    using c by (simp_all add: redis_view_def counted_feed_def empty_world_def)
  show ?thesis
  proof (cases "subscribers d s = 0")
    case True
    then have "device_clients d m = []" if "m \<in> set (fd_managers s)" for m using that by (simp add: subscribers_def sum_list_eq_0_iff)
    then have "{c. \<exists>i conn. registered s i d conn c} = {}" by (auto simp: registered_def)
    then show ?thesis using True view w by (simp add: publish_report_def check_and_publish_to_ws_def redis_exists_def sub_key_def)
  next
    case False
    then have "publish_report d tenant data s = listen_all (json_print (ws_event d tenant (fd_now s) data)) [0..<n] s"
      using view w soundD(1) [OF s]
      by (simp add: publish_report_def check_and_publish_to_ws_def redis_exists_def sub_key_def redis_publish_def emit_def bind_no_effects)
    also have "\<dots> = push_all (map_put ''systime'' (JStr (time_text (fd_now s))) data) ?C s"
      using listen_all_push [OF ws_event_read [OF assms(2-4)], where m = data] by simp
    also have "\<dots> = Some (received (map_put ''systime'' (JStr (time_text (fd_now s))) data) (set ?C) s)"
      using subscribed_clients [OF s, of d] soundD(3) [OF s] by (intro push_all_received) auto
    finally show ?thesis unfolding subscribed_clients(2) [OF s] .
  qed
qed

section \<open>Two instances at once\<close>

lemma connect_parts:
  assumes "fd_fault s = (\<lambda>_ _. None)"
  shows "\<exists>r. snd (ws_connect j d tenant u conn keys s) =
    (set_manager j (map_put d (map_put conn (length (fd_clients s)) (device_clients d (fd_managers s ! j))) (fd_managers s ! j))
      (s\<lparr>fd_clients := fd_clients s @ [new_ws_client d tenant u conn keys]\<rparr>))\<lparr>fd_redis := r\<rparr>"
  using assms by (auto simp: ws_connect_def subscribe_device_def Let_def count_by_def expire_def set_manager_def split: option.split prod.split)

lemma last_unsubscribes:
  assumes "fed n s" "registered s i d conn c" "subscribers d s = 1"
  shows "\<exists>m r. drop_client d conn (fd_managers s ! i) = (Some c, m) \<and>
    unsubscribe_begin i d conn s = (Inr (Some (c, 0)), (set_manager i m s)\<lparr>fd_redis := r\<rparr>)"
proof -
  have c: "counted_feed s" and s: "sound n s" using fed_counted [OF assms(1)] by (simp_all add: live_sound)
  obtain k m where dc: "drop_client d conn (fd_managers s ! i) = (k, m)" by fastforce
  have i: "i < n" using assms(2) soundD(1) [OF s] by (simp add: registered_def)
  have k: "k = Some c" using unregistered(2) [OF s i dc] assms(2) by (simp add: registered_def)
  obtain t where t: "counter (sub_key d) s = Some (1, t)" using counters_exact_at [OF c, of d] assms(3) by auto
  moreover have "counter (sub_key d) (set_manager i m s) = counter (sub_key d) s" by (rule counter_same) (simp_all add: set_manager_def)
  ultimately show ?thesis using dc k c by (auto simp: unsubscribe_begin_def count_by_def counted_feed_def set_manager_def)
qed

text \<open>C40: Instances are not locked against each other. When the last subscriber of a device leaves one instance
  and another client subscribes at another instance between the two Redis commands of the former, the new
  client stays registered with an open queue and yet its device has no counter: reports are no longer
  published for it, and its heartbeats do not bring the counter back.\<close>
theorem unsubscribe_race_silences:
  assumes "fed n s" "registered s i d conn c" "subscribers d s = 1" "j < n" "j \<noteq> i"
  shows "\<exists>s1. unsubscribe_begin i d conn s = (Inr (Some (c, 0)), s1) \<and>
    (let s3 = unsubscribe_end d (c, 0) (snd (ws_connect j d tenant u conn' keys s1)) in
      registered s3 j d conn' (length (fd_clients s)) \<and> open_send (length (fd_clients s)) s3 \<and>
      snd (refresh_subscription d s3) = s3 \<and> publish_report d tenant' data s3 = Some s3)"
proof -
  have s: "sound n s" and f: "fd_fault s = (\<lambda>_ _. None)" using fed_counted [OF assms(1)] by (simp_all add: live_sound counted_feed_def)
  obtain m r where b: "unsubscribe_begin i d conn s = (Inr (Some (c, 0)), (set_manager i m s)\<lparr>fd_redis := r\<rparr>)"
    using last_unsubscribes [OF assms(1-3)] by blast
  let ?s1 = "(set_manager i m s)\<lparr>fd_redis := r\<rparr>" and ?k = "length (fd_clients s)"
  define s2 where s2_def: "s2 = snd (ws_connect j d tenant u conn' keys ?s1)"
  obtain r2 where s2: "s2 =
      (set_manager j (map_put d (map_put conn' ?k (device_clients d (fd_managers s ! j))) (fd_managers s ! j))
        (?s1\<lparr>fd_clients := fd_clients s @ [new_ws_client d tenant u conn' keys]\<rparr>))\<lparr>fd_redis := r2\<rparr>"
    unfolding s2_def using connect_parts [of ?s1 j d tenant u conn' keys] f assms(5) by (auto simp: set_manager_def)
  let ?s3 = "unsubscribe_end d (c, 0) s2"
  have c: "c < ?k" using soundD(3) [OF s assms(2)] by (simp add: open_send_def)
  have "registered ?s3 j d conn' ?k" using assms(4) soundD(1) [OF s] f
    by (simp add: s2 unsubscribe_end_def drop_counter_def close_send_def set_manager_def registered_def)
  moreover have "open_send ?k ?s3" using c f
    by (simp add: s2 unsubscribe_end_def drop_counter_def close_send_def set_manager_def open_send_def nth_append nth_list_update new_ws_client_def make_chan_def)
  moreover have none: "counter (sub_key d) ?s3 = None" and f3: "fd_fault ?s3 = (\<lambda>_ _. None)"
    using f by (simp_all add: s2 unsubscribe_end_def drop_counter_def close_send_def set_manager_def counter_def)
  moreover have "snd (refresh_subscription d ?s3) = ?s3" using none f3 by (simp add: refresh_subscription_def expire_def)
  moreover have "w_redis (redis_view ?s3) (sub_key d) = None" "w_redis_fault (redis_view ?s3) = (\<lambda>_ _. None)" "w_effects (redis_view ?s3) = []"
    using none f3 by (simp_all add: redis_view_def empty_world_def)
  then have "publish_report d tenant' data ?s3 = Some ?s3"
    by (simp add: publish_report_def check_and_publish_to_ws_def redis_exists_def sub_key_def)
  ultimately show ?thesis using b unfolding s2_def Let_def by blast
qed

text \<open>The writer of a connection unsubscribes it when a write fails. The handler, which still runs, then panics
  with its next answer to a ping.\<close>

lemma ping_after_unsubscribe_panics:
  assumes "fed n s" "registered s i d conn c"
  shows "handle_ping d c (snd (unsubscribe_device i d conn s)) = None"
proof -
  have s: "sound n s" and f: "fd_fault s = (\<lambda>_ _. None)" using fed_counted [OF assms(1)] by (simp_all add: live_sound counted_feed_def)
  have i: "i < n" using assms(2) soundD(1) [OF s] by (simp add: registered_def)
  obtain k m where dc: "drop_client d conn (fd_managers s ! i) = (k, m)" by fastforce
  have k: "k = Some c" using unregistered(2) [OF s i dc] assms(2) by (simp add: registered_def)
  obtain v r where "count_by ''decr'' (-1) (sub_key d) (set_manager i m s) = (Inr v, (set_manager i m s)\<lparr>fd_redis := r\<rparr>)"
    using f by (cases "counter (sub_key d) (set_manager i m s)") (auto simp: count_by_def set_manager_def)
  moreover have "c < length (fd_clients s)" using soundD(3) [OF s assms(2)] by (simp add: open_send_def)
  ultimately have "ch_closed (wc_send (fd_clients (snd (unsubscribe_device i d conn s)) ! c))"
    by (simp add: unsubscribe_device_def unsubscribe_begin_def dc k unsubscribe_end_def close_send_def ch_close_def drop_counter_def set_manager_def)
  then show ?thesis
    by (auto simp: handle_ping_def refresh_subscription_def expire_def try_send_def ch_send_def split: option.split prod.split)
qed

section \<open>Examples\<close>

definition demo_start_feed :: feed where
  "demo_start_feed = \<lparr>fd_now = 1000, fd_redis = (\<lambda>_. None), fd_fault = (\<lambda>_ _. None), fd_clients = [], fd_managers = replicate 2 []\<rparr>"

definition demo_feed :: feed where
  "demo_feed = snd (ws_connect 0 ''d1'' ''t1'' ''u1'' ''c0'' [''temp''] demo_start_feed)"

definition demo_pair :: feed where
  "demo_pair = snd (ws_connect 1 ''d1'' ''t1'' ''u2'' ''c1'' [] demo_feed)"

definition demo_report :: "json gmap" where
  "demo_report = [(''hum'', JNum ''40''), (''temp'', JNum ''21'')]"

lemma demo_feed_fed: "fed 2 demo_feed" "fed 2 demo_pair"
proof -
  have s: "fed 2 demo_start_feed" by (rule fed_start) (simp_all add: demo_start_feed_def)
  show f: "fed 2 demo_feed" unfolding demo_feed_def
    using s by (intro fed_connect) (simp_all add: registered_def demo_start_feed_def device_clients_def)
  have "fd_managers demo_feed ! 1 = []" by code_simp
  then show "fed 2 demo_pair" unfolding demo_pair_def
    using f by (intro fed_connect) (simp_all add: registered_def device_clients_def)
qed

lemma demo_live: "live 2 demo_feed"
  using fed_counted [OF demo_feed_fed(1)] by simp

lemma demo_registered: "registered demo_feed 0 ''d1'' ''c0'' 0" "subscribers ''d1'' demo_feed = 1" "fd_clients demo_feed \<noteq> []"
  by code_simp+

theorem push_meets_open_queues_witness:
  "push_to_device 0 ''d1'' (Some demo_report) demo_feed \<noteq> None \<and> push_to_device 0 ''d1'' None demo_feed = None"
proof -
  have "\<exists>conn c. registered demo_feed 0 ''d1'' conn c" using demo_registered(1) by blast
  then have "push_to_device 0 ''d1'' data demo_feed = None \<longleftrightarrow> data = None" for data
    using push_meets_open_queues [OF demo_live, of 0 "''d1''" data, THEN conjunct1] by simp
  then show ?thesis by simp
qed


theorem report_reaches_subscribers_witness:
  "\<exists>s. publish_report ''d1'' ''t1'' demo_report demo_pair = Some s \<and> map (\<lambda>c. length (ch_buf (wc_send c))) (fd_clients s) = [1, 1] \<and>
     ch_buf (wc_send (fd_clients s ! 0)) =
       [json_print (JObj [(''systime'', JStr ''1970-01-01T00:00:01Z''), (''temp'', JNum ''21'')])]"
proof -
  have g: "good_map (Some demo_report)" "- (2 ^ 63) \<le> fd_now demo_pair" "fd_now demo_pair < 2 ^ 63" by code_simp+
  let ?C = "{c. \<exists>i conn. registered demo_pair i ''d1'' conn c}"
  let ?m = "map_put ''systime'' (JStr (time_text (fd_now demo_pair))) demo_report"
  have p: "publish_report ''d1'' ''t1'' demo_report demo_pair = Some (received ?m ?C demo_pair)"
    by (rule report_reaches_subscribers [OF demo_feed_fed(2) g])
  have "registered demo_pair 0 ''d1'' ''c0'' 0" "registered demo_pair 1 ''d1'' ''c1'' 1" by code_simp+
  then have c: "0 \<in> ?C" "1 \<in> ?C" by blast+
  have "map (\<lambda>c. length (ch_buf (wc_send (queued (client_text ?m (fd_clients demo_pair ! c)) (fd_clients demo_pair ! c))))) [0, 1] = [1, 1]"
    "ch_buf (wc_send (queued (client_text ?m (fd_clients demo_pair ! 0)) (fd_clients demo_pair ! 0))) =
       [json_print (JObj [(''systime'', JStr ''1970-01-01T00:00:01Z''), (''temp'', JNum ''21'')])]" by code_simp+
  moreover have "[0..<length (fd_clients demo_pair)] = [0, 1]" by code_simp
  ultimately show ?thesis using p c by (intro exI [of _ "received ?m ?C demo_pair"]) (simp add: received_def)
qed

theorem unsubscribe_race_silences_witness:
  "\<exists>s. unsubscribe_begin 0 ''d1'' ''c0'' demo_feed = (Inr (Some (0, 0)), s) \<and>
     (let s3 = unsubscribe_end ''d1'' (0, 0) (snd (ws_connect 1 ''d1'' ''t1'' ''u2'' ''c1'' [] s))
      in registered s3 1 ''d1'' ''c1'' 1 \<and> publish_report ''d1'' ''t1'' demo_report s3 = Some s3)"
proof -
  have "length (fd_clients demo_feed) = 1" by code_simp
  then show ?thesis
    using unsubscribe_race_silences [OF demo_feed_fed(1) demo_registered(1,2), of 1 "''t1''" "''u2''" "''c1''" "[]" "''t1''" demo_report]
    by (auto simp: Let_def)
qed

end
