(* ===== verification/Spec2Isabelle.thy ===== *)
theory Spec2Isabelle
  imports Prelude GoText Json JsonDecode Channels UplinkBus Diagnostics StorageTypes World
    DeviceStore Heartbeat ScriptEngine DataScripts FlowBase TelemetryFlow AttributeFlow EventFlow
    StatusFlow ResponseFlow UplinkManager StorageDb TelemetryWriter StorageService MqttAdapter
    Downlink GoFloat Conditions AutoState AutomateCache AlarmCache Automate SceneRun
    PutMessages GatewayPath CommandTrip DeviceAdmin DeviceTree ExpectedData
    SceneAdmin SceneEdits SceneTime TaskPoll
    Accounts AccountAdmin AccountSafety Sessions LoginLock LiveFeed LiveFeedRun
begin

text \<open>
  A model of the device data path of ThingsPanel, an IoT platform written in Go.

  \<^bold>\<open>The program.\<close> Devices report over MQTT. The adapter (\<open>internal/adapter/mqttadapter\<close>) checks a
  payload, looks the device up and publishes a message on the uplink bus (\<open>internal/uplink/bus.go\<close>),
  five bounded channels. One flow per channel (\<open>internal/uplink\<close>) takes the messages: it lets the
  script of the device's configuration rewrite the payload (\<open>internal/processor\<close>), splits a gateway
  message over the devices below the gateway, keeps the heartbeat keys and the online status, and
  sends points to the storage channel. The storage service (\<open>internal/storage\<close>) buffers telemetry and
  writes it in batches. The other way, the downlink bus and handler (\<open>internal/downlink\<close>) encode a
  command with the same scripts, publish it and mark its log, which the device's answer settles.
  \<open>internal/diagnostics\<close> counts what goes wrong on the way. The flows also start the automation
  (\<open>automate_*.go\<close> in \<open>internal/service\<close>): the scenes of the reporting device are read from a Redis
  cache (\<open>initialize/automate_cache.go\<close>), their conditions checked, and their actions executed, which
  send messages to devices, activate scenes and raise alarms (\<open>initialize/alarm_cache.go\<close>).

  \<^bold>\<open>Theories.\<close>
  \<^item> \<open>Prelude\<close>, \<open>GoText\<close>, \<open>Json\<close>, \<open>JsonDecode\<close>: shared lemmas; errors and results; Go maps as sorted
    association lists; the string functions of the standard library; \<open>encoding/json\<close> (a scanner and a
    parser by structural recursion, rendering, and decoding into typed values), with the round trip
    of rendering and parsing.
  \<^item> \<open>Channels\<close>, \<open>UplinkBus\<close>: a buffered Go channel and its interface \<open>bounded_fifo\<close>; the bus, and a
    step relation in which \<open>Publish\<close> is two steps (it checks the flag under the lock and sends after
    releasing it), interleaved with \<open>Close\<close> and the receivers.
  \<^item> \<open>World\<close>: the database tables, the Redis keys, the goroutines started and the outside effects,
    which the components thread through. \<open>DeviceStore\<close>: \<open>initialize/redis_init.go\<close> and
    \<open>internal/dal/devices.go\<close> with the interface \<open>cache_aside\<close>, which the caches of devices, of
    configurations and of scripts each provide. \<open>Heartbeat\<close>: the keys of
    \<open>heartbeat_service.go\<close> and the monitor that reads them.
  \<^item> \<open>ScriptEngine\<close>, \<open>DataScripts\<close>: \<open>internal/processor\<close>, and the editing of scripts in
    \<open>internal/service/data_script.go\<close>.
  \<^item> \<open>FlowBase\<close> (with the interface \<open>gateway_flow\<close>, the walk over a gateway message, proved once),
    \<open>TelemetryFlow\<close>, \<open>AttributeFlow\<close>, \<open>EventFlow\<close>, \<open>StatusFlow\<close>, \<open>ResponseFlow\<close>: one theory per flow.
    \<open>UplinkManager\<close>: their receive loops, \<open>Start\<close> and \<open>Stop\<close>.
  \<^item> \<open>StorageTypes\<close>, \<open>StorageDb\<close>, \<open>TelemetryWriter\<close>, \<open>StorageService\<close>: rows, configuration, metrics and
    the direct writer; batching, deduplication and the fallback; the two loops of the service.
  \<^item> \<open>MqttAdapter\<close>, \<open>Downlink\<close>, \<open>Diagnostics\<close>: as their directories.
  \<^item> \<open>GoFloat\<close>: \<open>float64\<close> as rationals rounded to 53 bits, \<open>strconv.ParseFloat\<close> and the comparisons.
    \<open>Conditions\<close>: the pure part of \<open>automate_telemetry.go\<close>, one value against one condition, fields
    of events, time windows. \<open>AutoState\<close>: the rows, Redis values and service fields of the automation,
    a state of its own that contains the world. \<open>AutomateCache\<close>: \<open>automate_cache.go\<close> and the queries
    that fill it. \<open>AlarmCache\<close>: \<open>alarm_cache.go\<close>, \<open>automate_decoration.go\<close> and the two alarm calls of
    \<open>alarm.go\<close>. \<open>Automate\<close>: \<open>Execute\<close> and the actions. \<open>SceneRun\<close>: what these guarantee together.
  \<^item> \<open>PutMessages\<close>: the services that send to a device (\<open>command_data.go\<close>, \<open>attribute_data.go\<close> and
    \<open>TelemetryPutMessage\<close> in \<open>telemetry_data.go\<close>): nesting for the gateways above the device, the
    top gateway, the log row, the bus. \<open>GatewayPath\<close>: where a nested message arrives.
    \<open>CommandTrip\<close>: a command from the service over bus and handler to the device's answer.
    \<open>ExpectedData\<close>: what is kept for an offline device (\<open>expected_data.go\<close>) and sent later.
  \<^item> \<open>DeviceAdmin\<close>: the operations of \<open>device.go\<close> and \<open>device_auth.go\<close> that change device rows, with
    the constraints of the table, the device cache and the notice to a protocol plugin.
    \<open>DeviceTree\<close>: runs of these operations; they change table and cache in a few kinds of step
    (\<open>moves\<close>), and the invariants are proved once over those.
  \<^item> \<open>SceneAdmin\<close>: \<open>scene_automations.go\<close>, the transactions that store a scene with its conditions, tasks
    and actions, and the goroutines that rebuild the caches; \<open>SceneEdits\<close>: what an update, a read and
    a switch guarantee. \<open>SceneTime\<close>: \<open>pkg/common/time.go\<close> over a model of Go's calendar. \<open>TaskPoll\<close>: the
    polls of timed tasks, and a step relation for their interleaving under the expiring lock.
  \<^item> \<open>Accounts\<close>, \<open>AccountAdmin\<close>: users with their addresses, tokens and the Redis keys of a login, with
    \<open>login_lock.go\<close> and the token check of \<open>jwt_auth.go\<close>; the operations of \<open>sys_user.go\<close>, whose panics are
    a value. Bcrypt, JWT, the decryption of passwords, mail, casbin and random values are fields of an
    environment. \<open>AccountSafety\<close>: every request is one kind of change to the users, and the properties
    over all sequences of requests. \<open>Sessions\<close>: which tokens are accepted; \<open>LoginLock\<close>: failed logins
    one after another and at the same time.
  \<^item> \<open>LiveFeed\<close>: \<open>WSManager.go\<close>, telemetry over WebSocket: the managers of several instances, the queues
    of their clients, the shared counters in Redis that the telemetry flow asks, and the way of a
    report to the queues. \<open>LiveFeedRun\<close>: runs of these, with exact counters, and where they fail.

  \<^bold>\<open>Conventions.\<close> A string or byte slice is a list of bytes; text outside ASCII is written as its
  bytes. A JSON number keeps its literal text. A panic is \<open>None\<close> (or \<open>Panics\<close>), a blocked call
  \<open>Waits\<close>. Whether a database statement or a Redis command fails is given by the fields \<open>w_db_fault\<close>
  and \<open>w_redis_fault\<close> of the world and, in the storage service, by \<open>sd_fault n\<close> for the \<open>n\<close>-th
  statement. A \<open>go\<close> statement appends to \<open>w_tasks\<close>; what such a goroutine does is a function of its
  own. Calls that leave the modelled parts append to \<open>w_effects\<close>. The Lua machine and the MQTT client
  are third-party code and hence parameters. The order in which Go walks a map is not fixed: where
  it can be observed it is the parameter \<open>ord\<close> or \<open>ae_ord\<close>, any permutation; in the gateway walk it is
  the key order. How \<open>fmt\<close> prints a float, the answers of the rate limiter (\<open>golang.org/x/time/rate\<close>)
  and, for the automation, the result of the services of \<open>PutMessages\<close> are fields of \<open>auto_env\<close>. Times are milliseconds, the offset of the
  server's zone is fixed, and the schedules of the cron library are a parameter. Counters are integers, so the wrap of a 64-bit counter is not
  modelled.

  \<^bold>\<open>Bounds.\<close> Every recursion is structural or has a measure; there is no fuel except the depth of the
  gateway walk, which is the depth limit of the code (five levels). The loops of the services are
  step relations, and their properties hold in every reachable state. The actions of a scene may
  activate scenes without bound: \<open>actions_run\<close> is a \<open>partial_function\<close> whose value is \<open>None\<close> when the
  code does not return, and so is the nesting of gateways, whose parents may form a cycle.

  \<^bold>\<open>Properties.\<close> Safety of the concurrent parts: nothing is lost or reordered on the bus, in the
  storage service and in the flows' loops, in every interleaving. Functional properties of each
  handler on every branch. Refinement: caches behave as the tables, the batched writer as
  inserting one by one, the automation cache as the tables it is filled from. Invariants of the
  administration of devices. Error behaviour, with the inputs on which the code panics or drops data.

  \<^bold>\<open>Not modelled.\<close> The HTTP layer (\<open>internal/api\<close>, \<open>router\<close>, \<open>internal/middleware\<close>), the generated
  query code, start-up and configuration (\<open>internal/app\<close>), scenes activated by hand and the lists
  of scenes and logs, the queries of \<open>device.go\<close> that only read (lists, forms, charts) and the
  notice to a service access after a batch, the text of a notification, the lists and statistics of users, the
  other management services (products, boards, OTA, market bundles), logging, and the cancellation of the storage loops by their context.
\<close>

end
